(* ===== verification/Prelude.thy ===== *)
theory Prelude
  imports
    Main
    "HOL-Library.AList"
    "HOL-Library.Char_ord"
    "HOL-Library.List_Lexorder"
    "HOL-Library.Multiset"
begin

text \<open>
  The vocabulary every component theory shares.

  \<^item> Results: a Go function returning \<open>(T, error)\<close> is a function into
    \<open>'e + 'a\<close>, \<open>Inl\<close> holding the error; \<open>bindE\<close> is the early return
    \<open>if err != nil { return err }\<close>.
  \<^item> Joined errors: \<open>errors.Join\<close> accumulates a list, and \<open>nil\<close> is the empty list.
  \<^item> Go maps that are only looked up are HOL maps; \<open>index_by\<close> is the idiom
    \<open>for _, x := range xs { m[f x] = g x }\<close> (a later element overwrites an earlier one)
    and \<open>get_or\<close> the lookup that yields the zero value on a missing key.
  \<^item> Go maps that are ranged over are association lists, together with an explicit list of
    keys for the iteration order, which Go leaves unspecified.
\<close>

named_theorems index_simps \<open>lookups in maps built by ranging over a slice\<close>
named_theorems result_simps \<open>case analysis of results\<close>

section \<open>Results\<close>

definition bindE :: "'e + 'a \<Rightarrow> ('a \<Rightarrow> 'e + 'b) \<Rightarrow> 'e + 'b" where
  "bindE r k = (case r of Inl e \<Rightarrow> Inl e | Inr a \<Rightarrow> k a)"

lemma bindE_simps [simp]:
  "bindE (Inl e) k = Inl e"
  "bindE (Inr a) k = k a"
  by (simp_all add: bindE_def)

lemma bindE_eq_Inr [result_simps]:
  "bindE r k = Inr b \<longleftrightarrow> (\<exists>a. r = Inr a \<and> k a = Inr b)"
  by (cases r) auto

lemma bindE_eq_Inl [result_simps]:
  "bindE r k = Inl e \<longleftrightarrow> r = Inl e \<or> (\<exists>a. r = Inr a \<and> k a = Inl e)"
  by (cases r) auto

lemma bindE_cong [fundef_cong]:
  "r = r' \<Longrightarrow> (\<And>a. r' = Inr a \<Longrightarrow> k a = k' a) \<Longrightarrow> bindE r k = bindE r' k'"
  by (cases r') simp_all

text \<open>\<open>fmt.Errorf("...: %w", err)\<close>: the error is wrapped, a value passes through.\<close>

definition wrapE :: "('e \<Rightarrow> 'f) \<Rightarrow> 'e + 'a \<Rightarrow> 'f + 'a" where
  "wrapE w r = (case r of Inl e \<Rightarrow> Inl (w e) | Inr a \<Rightarrow> Inr a)"

lemma wrapE_simps [simp]:
  "wrapE w (Inl e) = Inl (w e)"
  "wrapE w (Inr a) = Inr a"
  by (simp_all add: wrapE_def)

lemma wrapE_eq_Inr [result_simps]: "wrapE w r = Inr a \<longleftrightarrow> r = Inr a"
  by (cases r) auto

lemma wrapE_eq_Inl [result_simps]: "wrapE w r = Inl f \<longleftrightarrow> (\<exists>e. r = Inl e \<and> f = w e)"
  by (cases r) auto

text \<open>A loop over a slice that stops at the first error and otherwise rebuilds the slice.\<close>

fun mapE :: "('a \<Rightarrow> 'e + 'b) \<Rightarrow> 'a list \<Rightarrow> 'e + 'b list" where
  "mapE f [] = Inr []"
| "mapE f (x # xs) = bindE (f x) (\<lambda>y. bindE (mapE f xs) (\<lambda>ys. Inr (y # ys)))"

lemma mapE_Inr_list_all2: "mapE f xs = Inr ys \<longleftrightarrow> list_all2 (\<lambda>x y. f x = Inr y) xs ys"
proof (induction xs arbitrary: ys)
  case Nil
  then show ?case by auto
next
  case (Cons x xs)
  then show ?case by (cases ys) (auto simp: result_simps)
qed

lemma mapE_length: "mapE f xs = Inr ys \<Longrightarrow> length ys = length xs"
  by (auto simp: mapE_Inr_list_all2 dest: list_all2_lengthD)

lemma mapE_set: "mapE f xs = Inr ys \<Longrightarrow> y \<in> set ys \<Longrightarrow> \<exists>x\<in>set xs. f x = Inr y"
  by (induction xs arbitrary: ys) (auto simp: result_simps)

lemma mapE_map_eq:
  assumes "mapE f xs = Inr ys" and "\<And>x y. x \<in> set xs \<Longrightarrow> f x = Inr y \<Longrightarrow> g y = h x"
  shows "map g ys = map h xs"
  using assms by (induction xs arbitrary: ys) (auto simp: result_simps)

lemma mapE_id: "(\<And>x. x \<in> set xs \<Longrightarrow> f x = Inr x) \<Longrightarrow> mapE f xs = Inr xs"
  by (induction xs) auto

text \<open>A loop that updates a state and stops at the first error.\<close>

fun foldE :: "('a \<Rightarrow> 'b \<Rightarrow> 'e + 'b) \<Rightarrow> 'a list \<Rightarrow> 'b \<Rightarrow> 'e + 'b" where
  "foldE f [] b = Inr b"
| "foldE f (x # xs) b = bindE (f x b) (foldE f xs)"

lemma foldE_append: "foldE f (xs @ ys) b = bindE (foldE f xs b) (foldE f ys)"
proof (induction xs arbitrary: b)
  case (Cons x xs)
  then show ?case by (cases "f x b") auto
qed simp

lemma foldE_invariant:
  assumes "foldE f xs b = Inr b'" and "P b"
    and "\<And>x b b'. x \<in> set xs \<Longrightarrow> f x b = Inr b' \<Longrightarrow> P b \<Longrightarrow> P b'"
  shows "P b'"
  using assms
proof (induction xs arbitrary: b)
  case (Cons x xs)
  from Cons.prems(1) obtain b1 where one: "f x b = Inr b1" and rest: "foldE f xs b1 = Inr b'"
    by (auto simp: result_simps)
  have "P b1" by (rule Cons.prems(3) [OF _ one Cons.prems(2)]) simp
  with rest show ?case by (rule Cons.IH) (rule Cons.prems(3), simp_all)
qed simp

text \<open>The idiom \<open>if _, ok := seen[x]; !ok { seen[x] = ...; xs = append(xs, x) }\<close>.\<close>

definition add_new :: "'a \<Rightarrow> 'a list \<Rightarrow> 'a list" where
  "add_new x xs = (if x \<in> set xs then xs else xs @ [x])"

lemma set_add_new [simp]: "set (add_new x xs) = insert x (set xs)"
  by (auto simp: add_new_def)

lemma distinct_add_new [simp]: "distinct (add_new x xs) = distinct xs"
  by (simp add: add_new_def)

lemma set_fold_add_new: "set (fold add_new ys xs) = set xs \<union> set ys"
  by (induction ys arbitrary: xs) auto

lemma distinct_fold_add_new: "distinct (fold add_new ys xs) = distinct xs"
  by (induction ys arbitrary: xs) auto

section \<open>Maps built by ranging over a slice\<close>

definition index_by :: "('a \<Rightarrow> 'k) \<Rightarrow> ('a \<Rightarrow> 'v) \<Rightarrow> 'a list \<Rightarrow> 'k \<rightharpoonup> 'v" where
  "index_by f g xs = fold (\<lambda>x m. m(f x \<mapsto> g x)) xs Map.empty"

definition get_or :: "'v \<Rightarrow> ('k \<rightharpoonup> 'v) \<Rightarrow> 'k \<Rightarrow> 'v" where
  "get_or d m k = (case m k of None \<Rightarrow> d | Some v \<Rightarrow> v)"

lemma get_or_simps [simp]:
  "m k = None \<Longrightarrow> get_or d m k = d"
  "m k = Some v \<Longrightarrow> get_or d m k = v"
  by (simp_all add: get_or_def)

lemma fold_upd_notin: "k \<notin> f ` set xs \<Longrightarrow> fold (\<lambda>x m. m(f x \<mapsto> g x)) xs m k = m k"
  by (induction xs arbitrary: m) auto

lemma index_by_Nil [simp]: "index_by f g [] = Map.empty"
  by (simp add: index_by_def)

lemma index_by_snoc [simp]: "index_by f g (xs @ [x]) = (index_by f g xs)(f x \<mapsto> g x)"
  by (simp add: index_by_def)

lemma index_by_None [index_simps]: "index_by f g xs k = None \<longleftrightarrow> k \<notin> f ` set xs"
  by (induction xs rule: rev_induct) auto

lemma index_by_Some_ex: "index_by f g xs k = Some v \<Longrightarrow> \<exists>x\<in>set xs. f x = k \<and> g x = v"
  by (induction xs rule: rev_induct) (auto split: if_splits)

lemma dom_index_by [index_simps]: "dom (index_by f g xs) = f ` set xs"
  by (auto simp: dom_def index_simps)

lemma index_by_distinct:
  assumes "distinct (map f xs)" and "x \<in> set xs"
  shows "index_by f g xs (f x) = Some (g x)"
  using assms by (induction xs rule: rev_induct) (auto simp: image_iff)

lemma index_by_distinct_iff:
  assumes "distinct (map f xs)"
  shows "index_by f g xs k = Some v \<longleftrightarrow> (\<exists>x\<in>set xs. f x = k \<and> g x = v)"
  using assms index_by_distinct [OF assms] index_by_Some_ex [of f g xs k v] by fastforce

lemma index_by_cong_values:
  "index_by f g xs k = Some v \<Longrightarrow> index_by f h xs k = Some w \<Longrightarrow>
     (\<exists>x\<in>set xs. f x = k \<and> g x = v \<and> h x = w)"
  by (induction xs rule: rev_induct) (auto split: if_splits)

section \<open>Searching slices\<close>

text \<open>\<open>slices.IndexFunc\<close>: the first index satisfying the predicate, \<open>None\<close> for \<open>-1\<close>.\<close>

fun index_func :: "('a \<Rightarrow> bool) \<Rightarrow> 'a list \<Rightarrow> nat option" where
  "index_func p [] = None"
| "index_func p (x # xs) = (if p x then Some 0 else map_option Suc (index_func p xs))"

lemma index_func_None: "index_func p xs = None \<longleftrightarrow> (\<forall>x\<in>set xs. \<not> p x)"
  by (induction xs) auto

lemma index_func_Some:
  "index_func p xs = Some i \<longleftrightarrow> i < length xs \<and> p (xs ! i) \<and> (\<forall>j<i. \<not> p (xs ! j))"
proof (induction xs arbitrary: i)
  case Nil
  then show ?case by simp
next
  case (Cons x xs)
  then show ?case by (cases i) (auto simp: less_Suc_eq_0_disj)
qed

text \<open>\<open>slices.ContainsFunc\<close>.\<close>

definition contains_func :: "('a \<Rightarrow> bool) \<Rightarrow> 'a list \<Rightarrow> bool" where
  "contains_func p xs = list_ex p xs"

lemma contains_func_iff [simp]: "contains_func p xs \<longleftrightarrow> (\<exists>x\<in>set xs. p x)"
  by (simp add: contains_func_def list_ex_iff)

lemma find_unique:
  assumes "x \<in> set xs" and "p x" and "\<And>y. y \<in> set xs \<Longrightarrow> p y \<Longrightarrow> y = x"
  shows "find p xs = Some x"
proof (cases "find p xs")
  case None
  with assms(1,2) show ?thesis by (auto simp: find_None_iff)
next
  case (Some y)
  then have "y \<in> set xs" "p y" by (auto simp: find_Some_iff)
  from assms(3) [OF this] Some show ?thesis by simp
qed

section \<open>Association lists for maps that are ranged over\<close>

definition alookup :: "('k \<times> 'v) list \<Rightarrow> 'k \<rightharpoonup> 'v" where
  "alookup = map_of"

lemma alookup_update [simp]: "alookup (AList.update k v al) = (alookup al)(k \<mapsto> v)"
  by (simp add: alookup_def update_conv')

lemma alookup_simps [simp]:
  "alookup [] = Map.empty"
  "alookup ((k, v) # al) = (alookup al)(k \<mapsto> v)"
  by (simp_all add: alookup_def)

lemma alookup_None: "alookup al k = None \<longleftrightarrow> k \<notin> fst ` set al"
  by (simp add: alookup_def map_of_eq_None_iff)

lemma dom_alookup: "dom (alookup al) = fst ` set al"
  by (simp add: alookup_def dom_map_of_conv_image_fst)

text \<open>Appending to the slice stored under a key: \<open>m[k] = append(m[k], v)\<close>.\<close>

definition aappend :: "'k \<Rightarrow> 'v \<Rightarrow> ('k \<times> 'v list) list \<Rightarrow> ('k \<times> 'v list) list" where
  "aappend k v al = AList.update k (get_or [] (alookup al) k @ [v]) al"

lemma keys_update: "fst ` set (AList.update k v al) = insert k (fst ` set al)"
  by (simp add: dom_update)

lemma keys_aappend: "fst ` set (aappend k v al) = insert k (fst ` set al)"
  by (simp add: aappend_def keys_update)

lemma get_aappend:
  "get_or [] (alookup (aappend k v al)) k' =
     (if k' = k then get_or [] (alookup al) k @ [v] else get_or [] (alookup al) k')"
  by (simp add: aappend_def get_or_def)

section \<open>Order and counting\<close>

lemma distinct_map_eqD:
  "distinct (map f xs) \<Longrightarrow> x \<in> set xs \<Longrightarrow> y \<in> set xs \<Longrightarrow> f x = f y \<Longrightarrow> x = y"
  by (auto simp: distinct_map dest: inj_onD)

lemma length_filter_key:
  "distinct (map f xs) \<Longrightarrow> length (filter (\<lambda>x. f x = k) xs) \<le> 1"
proof (induction xs)
  case (Cons x xs)
  then have "filter (\<lambda>y. f y = k) xs = []" if "f x = k"
    using that by (auto simp: filter_empty_conv intro: rev_image_eqI)
  with Cons show ?case by auto
qed simp

lemma image_eq_if_map_eq: "map f xs = map g ys \<Longrightarrow> f ` set xs = g ` set ys"
  by (drule arg_cong [where f = set]) simp

lemma card_less_if_new:
  assumes "finite A" and "x \<in> A" and "\<not> P x" and "\<And>y. P y \<Longrightarrow> Q y" and "Q x"
  shows "card {y \<in> A. \<not> Q y} < card {y \<in> A. \<not> P y}"
  by (rule psubset_card_mono) (use assms in auto)

lemma card_unmarked_less:
  "finite A \<Longrightarrow> x \<in> A \<Longrightarrow> \<not> P x \<Longrightarrow>
     card {y \<in> A. \<not> (P(x := True)) y} < card {y \<in> A. \<not> P y}"
  by (rule card_less_if_new) auto

lemma card_le_if_mono:
  assumes "finite A" and "\<And>y. P y \<Longrightarrow> Q y"
  shows "card {y \<in> A. \<not> Q y} \<le> card {y \<in> A. \<not> P y}"
  by (rule card_mono) (use assms in auto)

section \<open>Formatting\<close>

text \<open>\<open>strings.Join\<close> and the verb \<open>%d\<close> on a non-negative number.\<close>

fun join_strings :: "string \<Rightarrow> string list \<Rightarrow> string" where
  "join_strings sep [] = []"
| "join_strings sep [x] = x"
| "join_strings sep (x # y # xs) = x @ sep @ join_strings sep (y # xs)"

definition digit_char :: "nat \<Rightarrow> char" where
  "digit_char d = char_of (48 + d)"

fun format_nat :: "nat \<Rightarrow> string" where
  "format_nat n = (if n < 10 then [digit_char n] else format_nat (n div 10) @ [digit_char (n mod 10)])"

declare format_nat.simps [simp del]

lemma format_nat_nonempty: "format_nat n \<noteq> []"
  by (subst format_nat.simps) simp

end
