(* ===== verification/KcmTypes.thy ===== *)
theory KcmTypes
  imports Prelude
begin

text \<open>
  The data of the API group \<^verbatim>\<open>k0rdent.mirantis.com/v1beta1\<close> that the service pipeline reads and
  writes: services and their dependencies, ServiceSets with spec and status, template
  chains, ServiceTemplates, MultiClusterServices and ClusterDeployments. Each Go struct is a
  record whose fields carry a short prefix in front of the Go field name. Values that the code
  only carries around (Helm values, provider configuration, Sveltos options) are \<open>json\<close>.
  Fields of a struct that no modelled operation reads are left out.
\<close>

section \<open>Keys\<close>

text \<open>
  \<open>client.ObjectKey\<close> (a namespaced name). Its order is the one \<open>cmp.Compare\<close> of the
  namespaces, then of the names, induces: Go compares strings bytewise, as the library orders
  \<open>char\<close> and lists.
\<close>

datatype ObjectKey = ObjectKey (ok_Namespace: string) (ok_Name: string)

instantiation ObjectKey :: linorder
begin

definition less_eq_ObjectKey :: "ObjectKey \<Rightarrow> ObjectKey \<Rightarrow> bool" where
  "less_eq_ObjectKey a b \<longleftrightarrow>
     ok_Namespace a < ok_Namespace b
     \<or> (ok_Namespace a = ok_Namespace b \<and> ok_Name a \<le> ok_Name b)"

definition less_ObjectKey :: "ObjectKey \<Rightarrow> ObjectKey \<Rightarrow> bool" where
  "less_ObjectKey a b \<longleftrightarrow>
     ok_Namespace a < ok_Namespace b
     \<or> (ok_Namespace a = ok_Namespace b \<and> ok_Name a < ok_Name b)"

instance
  by standard
    (auto simp: less_eq_ObjectKey_def less_ObjectKey_def ObjectKey.expand dest: less_trans)

end

text \<open>The Secret with the kubeconfig of a cluster (\<open>kube.GetKubeconfigSecretKey\<close>).\<close>

definition GetKubeconfigSecretKey :: "ObjectKey \<Rightarrow> ObjectKey" where
  "GetKubeconfigSecretKey k = ObjectKey (ok_Namespace k) (ok_Name k @ ''-kubeconfig'')"

section \<open>Opaque values and library structs\<close>

datatype json =
    JNull
  | JBool bool
  | JNum int
  | JStr string
  | JArr "json list"
  | JObj "(string \<times> json) list"

text \<open>\<open>metav1.Condition\<close>; the status is one of the three Kubernetes condition statuses.\<close>

datatype ConditionStatus = ConditionTrue | ConditionFalse | ConditionUnknown

record Condition =
  cond_Type :: string
  cond_Status :: ConditionStatus
  cond_ObservedGeneration :: int
  cond_Reason :: string
  cond_Message :: string

text \<open>\<open>metav1.LabelSelector\<close> and the operators of its expressions.\<close>

datatype SelectorOperator = OpIn | OpNotIn | OpExists | OpDoesNotExist

record LabelSelectorRequirement =
  lsr_Key :: string
  lsr_Operator :: SelectorOperator
  lsr_Values :: "string list"

record LabelSelector =
  ls_MatchLabels :: "(string \<times> string) list"
  ls_MatchExpressions :: "LabelSelectorRequirement list"

text \<open>
  A compiled label selector (\<open>labels.Selector\<close>) and its compilation
  (\<open>metav1.LabelSelectorAsSelector\<close>) are library code, parameters of the model. Where the code
  leaves a selector nil that nothing reads, it is \<open>no_selector\<close>.
\<close>

record selector =
  sel_Empty :: bool
  sel_Matches :: "(string \<times> string) list \<Rightarrow> bool"

type_synonym compile_selector = "LabelSelector \<Rightarrow> string + selector"

definition no_selector :: selector where
  "no_selector = \<lparr>sel_Empty = True, sel_Matches = (\<lambda>_. False)\<rparr>"

record OwnerReference =
  or_APIVersion :: string
  or_Kind :: string
  or_Name :: string
  or_UID :: string

text \<open>\<open>corev1.ObjectReference\<close>, as used to identify a target cluster.\<close>

record ObjectReference =
  ref_Kind :: string
  ref_Name :: string
  ref_Namespace :: string
  ref_APIVersion :: string

section \<open>Template chains\<close>

record AvailableUpgrade =
  au_Name :: string
  au_Version :: string

record SupportedTemplate =
  stpl_Name :: string
  stpl_AvailableUpgrades :: "AvailableUpgrade list"

record TemplateChainSpec =
  tcs_SupportedTemplates :: "SupportedTemplate list"

record TemplateChainStatus =
  tcst_ValidationError :: string
  tcst_Valid :: bool

record UpgradePath =
  up_Versions :: "AvailableUpgrade list"

record ServiceUpgradePaths =
  sup_Name :: string
  sup_Namespace :: string
  sup_Template :: string
  sup_AvailableUpgrades :: "UpgradePath list"

record ServiceTemplateChain =
  stc_Spec :: TemplateChainSpec
  stc_Status :: TemplateChainStatus

section \<open>Services\<close>

record ServiceDependsOn =
  dep_Name :: string
  dep_Namespace :: string

record ValuesFrom =
  vf_Kind :: string
  vf_Name :: string

record ServiceHelmOptions =
  ho_EnableClientCache :: "bool option"
  ho_DependencyUpdate :: "bool option"
  ho_Wait :: "bool option"
  ho_WaitForJobs :: "bool option"
  ho_CreateNamespace :: "bool option"
  ho_SkipCRDs :: "bool option"
  ho_Atomic :: "bool option"
  ho_DisableHooks :: "bool option"
  ho_DisableOpenAPIValidation :: "bool option"
  ho_Timeout :: "int option"
  ho_SkipSchemaValidation :: "bool option"
  ho_Replace :: "bool option"
  ho_Labels :: "(string \<times> string) list option"
  ho_UninstallOptions :: "json option"
  ho_UpgradeOptions :: "json option"
  ho_InstallOptions :: "json option"
  ho_Description :: string

record Service =
  svc_HelmOptions :: "ServiceHelmOptions option"
  svc_HelmAction :: string
  svc_Name :: string
  svc_Namespace :: string
  svc_Template :: string
  svc_TemplateChain :: string
  svc_Version :: string
  svc_Values :: string
  svc_ValuesFrom :: "ValuesFrom list"
  svc_DependsOn :: "ServiceDependsOn list"
  svc_Disable :: bool

record ServiceWithValues =
  swv_HelmOptions :: "ServiceHelmOptions option"
  swv_Version :: string
  swv_HelmAction :: string
  swv_Name :: string
  swv_Namespace :: string
  swv_Template :: string
  swv_Values :: string
  swv_ValuesFrom :: "ValuesFrom list"

text \<open>
  The states a provider reports for a service. Go keeps them as strings;
  \<open>StateOther\<close> stands for any other string, the empty one of a service without status included.
\<close>

datatype ServiceStateValue =
    ServiceStateDeployed
  | ServiceStateFailed
  | ServiceStateNotDeployed
  | ServiceStateProvisioning
  | ServiceStateDeleting
  | ServiceStateDeleted
  | StateOther string

record ServiceState =
  ss_Type :: string
  ss_Version :: string
  ss_Name :: string
  ss_Namespace :: string
  ss_Template :: string
  ss_State :: ServiceStateValue
  ss_FailureMessage :: string
  ss_LastDeployedHash :: string
  ss_Conditions :: "Condition list"

section \<open>Provider configuration, ServiceSets and their owners\<close>

record StateManagementProviderConfig =
  smpc_Config :: "json option"
  smpc_Name :: string
  smpc_SelfManagement :: bool

record ServiceSpec =
  sp_Provider :: StateManagementProviderConfig
  sp_SyncMode :: string
  sp_Services :: "Service list"
  sp_TemplateResourceRefs :: "json list"
  sp_PolicyRefs :: "json list"
  sp_DriftIgnore :: "json list"
  sp_DriftExclusions :: "json list"
  sp_Priority :: int
  sp_StopOnConflict :: bool
  sp_Reload :: bool
  sp_ContinueOnError :: bool

record ServiceSetSpec =
  sss_Cluster :: string
  sss_MultiClusterService :: string
  sss_Provider :: StateManagementProviderConfig
  sss_Services :: "ServiceWithValues list"

record ServiceSetStatus =
  ssst_Conditions :: "Condition list"
  ssst_Cluster :: "ObjectReference option"
  ssst_Services :: "ServiceState list"
  ssst_Deployed :: bool

text \<open>
  Of the object metadata the pipeline uses name, namespace, labels and owners, and whether a
  deletion timestamp is set.
\<close>

record ServiceSet =
  sset_Name :: string
  sset_Namespace :: string
  sset_Deleting :: bool
  sset_Labels :: "(string \<times> string) list"
  sset_OwnerReferences :: "OwnerReference list"
  sset_Spec :: ServiceSetSpec
  sset_Status :: ServiceSetStatus

datatype ServiceSetOperation =
    ServiceSetOperationCreate
  | ServiceSetOperationUpdate
  | ServiceSetOperationNone

text \<open>A timestamp is the integer \<open>Unix()\<close> of it; nil is \<open>None\<close>.\<close>

record MatchingCluster =
  mc_ObjectReference :: ObjectReference
  mc_LastTransitionTime :: "int option"
  mc_Reason :: string
  mc_Message :: string
  mc_Regional :: bool
  mc_Deployed :: bool

record MultiClusterService =
  mcs_Name :: string
  mcs_UID :: string
  mcs_Generation :: int
  mcs_Deleting :: bool
  mcs_Labels :: "(string \<times> string) list"
  mcs_Finalizers :: "string list"
  mcs_ClusterSelector :: LabelSelector
  mcs_DependsOn :: "string list"
  mcs_ServiceSpec :: ServiceSpec
  mcs_KeepServicesOnSelectorMismatch :: bool
  mcs_Conditions :: "Condition list"
  mcs_MatchingClusters :: "MatchingCluster list"
  mcs_ServicesUpgradePaths :: "ServiceUpgradePaths list"
  mcs_ObservedGeneration :: int

record ClusterDeployment =
  cd_Name :: string
  cd_Namespace :: string
  cd_UID :: string
  cd_Labels :: "(string \<times> string) list"
  cd_Deleting :: bool
  cd_Template :: string
  cd_Credential :: string
  cd_DataSource :: string
  cd_DryRun :: bool
  cd_Config :: "string option"
  cd_ServiceSpec :: ServiceSpec
  cd_AvailableUpgrades :: "string list"
  cd_StatusRegion :: string

section \<open>Service templates\<close>

text \<open>A reference to a chart source; where the source has no namespace field it is empty.\<close>

record SourceReference =
  src_Kind :: string
  src_Name :: string
  src_Namespace :: string

record HelmChartSpec =
  hc_Chart :: string
  hc_Version :: string
  hc_SourceRef :: SourceReference
  hc_Interval :: int

record HelmSpec =
  helm_ChartSpec :: "HelmChartSpec option"
  helm_ChartRef :: "SourceReference option"

record ServiceTemplate =
  st_Version :: string
  st_Helm :: "HelmSpec option"
  st_Valid :: bool
  st_ValidationError :: string
  st_KubernetesConstraint :: string

section \<open>The API server\<close>

text \<open>
  Errors of a read or write through \<open>client.Client\<close>. The code distinguishes three of them
  by \<open>apierrors.IsNotFound\<close>, \<open>IsAlreadyExists\<close> and \<open>IsConflict\<close>.
\<close>

datatype api_error = NotFound | AlreadyExists | Conflict | OtherAPIError string

text \<open>
  The client is code outside the repository (controller-runtime and the API server): a record of
  the reads the service pipeline makes, an argument of every definition that uses it.
\<close>

record svc_client =
  getServiceTemplate :: "ObjectKey \<Rightarrow> api_error + ServiceTemplate"
  getServiceTemplateChain :: "ObjectKey \<Rightarrow> api_error + ServiceTemplateChain"
  getServiceSet :: "ObjectKey \<Rightarrow> api_error + ServiceSet"
  getProviderSelector :: "string \<Rightarrow> api_error + LabelSelector option"
  listServiceSets :: "string \<Rightarrow> (ServiceSet \<Rightarrow> bool) \<Rightarrow> api_error + ServiceSet list"

end
