(* ===== verification/ServiceKeys.thy ===== *)
theory ServiceKeys
  imports KcmTypes
begin

text \<open>
  How services are identified and which version they state: the small helpers of
  \<^verbatim>\<open>internal/serviceset/util.go\<close> that the whole pipeline compares services with.
\<close>

section \<open>Definitions\<close>

definition effectiveNamespace :: "string \<Rightarrow> string" where
  "effectiveNamespace serviceNamespace =
     (if serviceNamespace = [] then ''default'' else serviceNamespace)"

definition ServiceKey :: "string \<Rightarrow> string \<Rightarrow> ObjectKey" where
  "ServiceKey namespace name = ObjectKey (effectiveNamespace namespace) name"

definition ServiceVersion :: "string \<Rightarrow> string \<Rightarrow> string" where
  "ServiceVersion version template = (if version \<noteq> [] then version else template)"

definition AtDesiredVersion :: "ServiceStateValue \<Rightarrow> string \<Rightarrow> string \<Rightarrow> string \<Rightarrow> bool" where
  "AtDesiredVersion state status spec desired \<longleftrightarrow>
     state = ServiceStateDeployed \<and> status = spec \<and> spec = desired"

abbreviation svc_key :: "Service \<Rightarrow> ObjectKey" where
  "svc_key s \<equiv> ServiceKey (svc_Namespace s) (svc_Name s)"

abbreviation swv_key :: "ServiceWithValues \<Rightarrow> ObjectKey" where
  "swv_key s \<equiv> ServiceKey (swv_Namespace s) (swv_Name s)"

abbreviation ss_key :: "ServiceState \<Rightarrow> ObjectKey" where
  "ss_key s \<equiv> ServiceKey (ss_Namespace s) (ss_Name s)"

abbreviation dep_key :: "ServiceDependsOn \<Rightarrow> ObjectKey" where
  "dep_key d \<equiv> ServiceKey (dep_Namespace d) (dep_Name d)"

abbreviation svc_version :: "Service \<Rightarrow> string" where
  "svc_version s \<equiv> ServiceVersion (svc_Version s) (svc_Template s)"

abbreviation swv_version :: "ServiceWithValues \<Rightarrow> string" where
  "swv_version s \<equiv> ServiceVersion (swv_Version s) (swv_Template s)"

abbreviation ss_version :: "ServiceState \<Rightarrow> string" where
  "ss_version s \<equiv> ServiceVersion (ss_Version s) (ss_Template s)"

text \<open>
  The keys of a service's dependencies. A service depends directly on \<open>dep_keys s\<close>.
\<close>

abbreviation dep_keys :: "Service \<Rightarrow> ObjectKey list" where
  "dep_keys s \<equiv> map dep_key (svc_DependsOn s)"

definition DeployedVersions :: "ServiceSet \<Rightarrow> ObjectKey \<rightharpoonup> string" where
  "DeployedVersions serviceSet =
     index_by ss_key ss_Version
       (filter (\<lambda>state. \<not> (ss_State state \<noteq> ServiceStateDeployed \<or> ss_Version state = []))
          (ssst_Services (sset_Status serviceSet)))"

definition FullyDeployed :: "ServiceSet \<Rightarrow> bool" where
  "FullyDeployed serviceSet =
     (if \<not> ssst_Deployed (sset_Status serviceSet) then False
      else list_all
        (\<lambda>svc. swv_Version svc = []
           \<or> get_or [] (DeployedVersions serviceSet) (swv_key svc) = swv_Version svc)
        (sss_Services (sset_Spec serviceSet)))"

section \<open>Keys\<close>

lemma effectiveNamespace_nonempty [simp]: "effectiveNamespace ns \<noteq> []"
  by (simp add: effectiveNamespace_def)

lemma effectiveNamespace_idem [simp]:
  "effectiveNamespace (effectiveNamespace ns) = effectiveNamespace ns"
  by (simp add: effectiveNamespace_def)

lemma ServiceKey_effective [simp]:
  "ServiceKey (effectiveNamespace ns) n = ServiceKey ns n"
  by (simp add: ServiceKey_def)

lemma ServiceKey_eq_iff:
  "ServiceKey ns n = ServiceKey ns' n' \<longleftrightarrow>
     n = n' \<and> effectiveNamespace ns = effectiveNamespace ns'"
  by (auto simp: ServiceKey_def)

lemma ServiceKey_sel [simp]:
  "ok_Namespace (ServiceKey ns n) = effectiveNamespace ns"
  "ok_Name (ServiceKey ns n) = n"
  by (simp_all add: ServiceKey_def)

text \<open>
  The contract the pipeline relies on for anything it identifies by name and namespace: the
  explicit comparison of name and effective namespace, which the code uses in places, agrees
  with equality of keys, and the key does not change when the effective namespace is written out.
\<close>

locale keyed =
  fixes name_of :: "'a \<Rightarrow> string"
    and namespace_of :: "'a \<Rightarrow> string"
    and key_of :: "'a \<Rightarrow> ObjectKey"
  assumes key_of: "key_of x = ServiceKey (namespace_of x) (name_of x)"
begin

lemma key_eq_iff:
  "key_of x = ServiceKey ns n \<longleftrightarrow>
     name_of x = n \<and> effectiveNamespace (namespace_of x) = effectiveNamespace ns"
  by (simp add: key_of ServiceKey_eq_iff)

lemma key_components:
  "ok_Name (key_of x) = name_of x"
  "ok_Namespace (key_of x) = effectiveNamespace (namespace_of x)"
  by (simp_all add: key_of)

lemma key_normalised:
  "name_of y = name_of x \<Longrightarrow> namespace_of y = effectiveNamespace (namespace_of x) \<Longrightarrow>
     key_of y = key_of x"
  by (simp add: key_of)

end

interpretation svc: keyed svc_Name svc_Namespace svc_key
  by unfold_locales simp

interpretation swv: keyed swv_Name swv_Namespace swv_key
  by unfold_locales simp

interpretation ss: keyed ss_Name ss_Namespace ss_key
  by unfold_locales simp

interpretation dep: keyed dep_Name dep_Namespace dep_key
  by unfold_locales simp

section \<open>Deployed versions\<close>

lemma DeployedVersions_SomeD:
  assumes "DeployedVersions sset k = Some v"
  shows "\<exists>st \<in> set (ssst_Services (sset_Status sset)).
           ss_key st = k \<and> ss_State st = ServiceStateDeployed \<and> ss_Version st = v \<and> v \<noteq> []"
  using index_by_Some_ex [OF assms [unfolded DeployedVersions_def]] by auto

lemma DeployedVersions_Some_iff:
  assumes "distinct (map ss_key (ssst_Services (sset_Status sset)))"
  shows "DeployedVersions sset k = Some v \<longleftrightarrow>
           (\<exists>st \<in> set (ssst_Services (sset_Status sset)).
              ss_key st = k \<and> ss_State st = ServiceStateDeployed \<and> ss_Version st = v \<and> v \<noteq> [])"
proof -
  have "distinct (map ss_key
          (filter (\<lambda>state. \<not> (ss_State state \<noteq> ServiceStateDeployed \<or> ss_Version state = []))
             (ssst_Services (sset_Status sset))))"
    using assms by (rule distinct_map_filter)
  from index_by_distinct_iff [OF this, of ss_Version k v] show ?thesis
    by (auto simp: DeployedVersions_def)
qed

lemma get_DeployedVersions_nonempty:
  "get_or [] (DeployedVersions sset) k = v \<Longrightarrow> v \<noteq> [] \<Longrightarrow> DeployedVersions sset k = Some v"
  by (auto simp: get_or_def split: option.splits)

text \<open>
  FullyDeployed holds exactly when the provider is done and every versioned service of the
  spec has a status entry that is Deployed at precisely the spec's version.
\<close>

theorem FullyDeployed_iff:
  assumes "distinct (map ss_key (ssst_Services (sset_Status sset)))"
  shows "FullyDeployed sset \<longleftrightarrow>
           ssst_Deployed (sset_Status sset)
           \<and> (\<forall>svc \<in> set (sss_Services (sset_Spec sset)). swv_Version svc \<noteq> [] \<longrightarrow>
                (\<exists>st \<in> set (ssst_Services (sset_Status sset)).
                   ss_key st = swv_key svc \<and> ss_State st = ServiceStateDeployed
                   \<and> ss_Version st = swv_Version svc))"
proof -
  have "get_or [] (DeployedVersions sset) (swv_key svc) = swv_Version svc \<longleftrightarrow>
          (\<exists>st \<in> set (ssst_Services (sset_Status sset)).
             ss_key st = swv_key svc \<and> ss_State st = ServiceStateDeployed
             \<and> ss_Version st = swv_Version svc)"
    if "swv_Version svc \<noteq> []" for svc
    using that DeployedVersions_Some_iff [OF assms, of "swv_key svc" "swv_Version svc"]
    by (auto dest: get_DeployedVersions_nonempty)
  then show ?thesis
    by (simp add: FullyDeployed_def list_all_iff) blast
qed

end
