(* ===== verification/TemplateChain.thy ===== *)
theory TemplateChain
  imports KcmTypes
begin

text \<open>
  Template chains (\<^verbatim>\<open>api/v1beta1/templatechain_common.go\<close>): validation of a chain, the
  enumeration of all upgrade paths from a template, and the selection of one route per
  destination. Where the code ranges over a map, the iteration order is an argument.
\<close>

section \<open>Definitions\<close>

definition quote_char :: string where
  "quote_char = [CHR 0x27]"

definition missing_warning :: "string \<Rightarrow> string" where
  "missing_warning template =
     ''template '' @ template @ '' is allowed for upgrade but is not present in the list of ''
     @ quote_char @ ''.spec.supportedTemplates'' @ quote_char"

definition mixed_warning :: "string \<Rightarrow> string" where
  "mixed_warning template =
     ''template '' @ template
     @ '' has mixed version/no-version available upgrades: either all or none should have version set''"

definition availableForUpgrade :: "TemplateChainSpec \<Rightarrow> string list" where
  "availableForUpgrade s =
     concat (map (\<lambda>t. map au_Name (stpl_AvailableUpgrades t)) (tcs_SupportedTemplates s))"

definition mixed_versions :: "SupportedTemplate \<Rightarrow> bool" where
  "mixed_versions t =
     (case stpl_AvailableUpgrades t of
        [] \<Rightarrow> False
      | u # us \<Rightarrow> list_ex (\<lambda>upgrade. (au_Version upgrade \<noteq> []) \<noteq> (au_Version u \<noteq> [])) us)"

text \<open>
  \<open>order\<close> is the order in which Go ranges over the keys of availableForUpgrade. The warnings are
  sorted before they are returned.
\<close>

definition IsValid :: "string list \<Rightarrow> TemplateChainSpec \<Rightarrow> string list \<times> bool" where
  "IsValid order s =
     (let supportedTemplates = map stpl_Name (tcs_SupportedTemplates s);
          missing = map missing_warning (filter (\<lambda>t. t \<notin> set supportedTemplates) order);
          mixed = map (\<lambda>t. mixed_warning (stpl_Name t))
                    (filter mixed_versions (tcs_SupportedTemplates s));
          warnings = missing @ mixed
      in (sort warnings, length warnings = 0))"

definition templateMap :: "SupportedTemplate list \<Rightarrow> string \<rightharpoonup> SupportedTemplate" where
  "templateMap templates = index_by stpl_Name id templates"

text \<open>
  The recursive closure findPaths. It returns the paths it appends to the result. The deferred
  \<open>visited[current] = false\<close> restores the map of the caller, so the recursion only passes
  the marks downwards.
\<close>

function findPaths ::
  "SupportedTemplate list \<Rightarrow> string \<Rightarrow> AvailableUpgrade list \<Rightarrow> (string \<Rightarrow> bool)
     \<Rightarrow> AvailableUpgrade list list" where
  "findPaths templates current path visited =
     (if visited current then []
      else case templateMap templates current of
        None \<Rightarrow> []
      | Some template \<Rightarrow>
          concat (map (\<lambda>upgrade.
            if \<not> contains_func (\<lambda>u. au_Name u = au_Name upgrade \<and> au_Version u = au_Version upgrade) path
            then (path @ [upgrade])
                 # findPaths templates (au_Name upgrade) (path @ [upgrade]) (visited(current := True))
            else []) (stpl_AvailableUpgrades template)))"
  by pat_completeness auto
termination
proof (relation "measure (\<lambda>(templates, current, path, visited).
          card {n \<in> stpl_Name ` set templates. \<not> visited n})", goal_cases)
  case 1
  show ?case by simp
next
  case (2 templates current path visited template upgrade)
  from 2(2) have "current \<in> stpl_Name ` set templates"
    by (metis index_by_None option.distinct(1) templateMap_def)
  from card_unmarked_less [where P = visited, OF _ this 2(1)] show ?case
    by (simp only: in_measure case_prod_conv) simp
qed

declare findPaths.simps [simp del]

datatype chain_error = TemplateNotFound string

definition findAllUpgradePaths ::
  "TemplateChainSpec \<Rightarrow> string \<Rightarrow> chain_error + AvailableUpgrade list list" where
  "findAllUpgradePaths s templateName =
     (case templateMap (tcs_SupportedTemplates s) templateName of
        None \<Rightarrow> Inl (TemplateNotFound templateName)
      | Some _ \<Rightarrow> Inr (findPaths (tcs_SupportedTemplates s) templateName [] (\<lambda>_. False)))"

definition uniquePaths_step ::
  "AvailableUpgrade list \<Rightarrow> (string \<times> AvailableUpgrade list) list
     \<Rightarrow> (string \<times> AvailableUpgrade list) list" where
  "uniquePaths_step path uniquePaths =
     (if length path = 0 then uniquePaths
      else let key = au_Name (path ! (length path - 1))
           in case alookup uniquePaths key of
                None \<Rightarrow> AList.update key path uniquePaths
              | Some existingPath \<Rightarrow>
                  if length path > length existingPath
                  then AList.update key path uniquePaths else uniquePaths)"

definition default_version :: "AvailableUpgrade \<Rightarrow> AvailableUpgrade" where
  "default_version u = (if au_Version u = [] then u\<lparr>au_Version := au_Name u\<rparr> else u)"

definition UpgradePaths ::
  "string list \<Rightarrow> TemplateChainSpec \<Rightarrow> string \<Rightarrow> chain_error + UpgradePath list" where
  "UpgradePaths order s templateName =
     bindE (findAllUpgradePaths s templateName) (\<lambda>allPaths.
       let uniquePaths = fold uniquePaths_step allPaths []
       in Inr (map (\<lambda>destination.
            \<lparr>up_Versions = map default_version (get_or [] (alookup uniquePaths) destination)\<rparr>) order))"

section \<open>Chain validation\<close>

lemma mixed_versions_iff:
  "mixed_versions t \<longleftrightarrow>
     (\<exists>u\<in>set (stpl_AvailableUpgrades t). \<exists>w\<in>set (stpl_AvailableUpgrades t).
        au_Version u = [] \<and> au_Version w \<noteq> [])"
  by (auto simp: mixed_versions_def list_ex_iff split: list.split)

text \<open>
  A chain is valid exactly when every upgrade target is itself a supported template and no
  template mixes versioned with unversioned upgrades.
\<close>

theorem IsValid_iff:
  assumes "set order = set (availableForUpgrade s)"
  shows "snd (IsValid order s) \<longleftrightarrow>
           set (availableForUpgrade s) \<subseteq> stpl_Name ` set (tcs_SupportedTemplates s)
           \<and> (\<forall>t\<in>set (tcs_SupportedTemplates s).
                (\<forall>u\<in>set (stpl_AvailableUpgrades t). au_Version u \<noteq> [])
                \<or> (\<forall>u\<in>set (stpl_AvailableUpgrades t). au_Version u = []))"
proof -
  have "snd (IsValid order s) \<longleftrightarrow>
      set order \<subseteq> stpl_Name ` set (tcs_SupportedTemplates s)
      \<and> (\<forall>t\<in>set (tcs_SupportedTemplates s). \<not> mixed_versions t)"
    by (auto simp: IsValid_def Let_def filter_empty_conv)
  with assms show ?thesis
    by (auto simp: mixed_versions_iff)
qed

text \<open>
  The warnings do not depend on the order in which Go iterates over the map of available
  upgrades.
\<close>

theorem IsValid_order_irrelevant:
  assumes "distinct order" and "distinct order'" and "set order = set order'"
  shows "IsValid order s = IsValid order' s"
proof -
  let ?w = "\<lambda>ord. map missing_warning
      (filter (\<lambda>t. t \<notin> set (map stpl_Name (tcs_SupportedTemplates s))) ord)"
  from assms have "mset order = mset order'" by (simp add: set_eq_iff_mset_eq_distinct)
  then have "mset (?w order) = mset (?w order')" by simp
  then have "sort (?w order @ ys) = sort (?w order' @ ys)" for ys
    by (intro properties_for_sort) simp_all
  moreover from \<open>mset (?w order) = mset (?w order')\<close> have "length (?w order) = length (?w order')"
    by (rule mset_eq_length)
  ultimately show ?thesis
    unfolding IsValid_def Let_def by simp
qed

section \<open>Routes\<close>

definition upgrades_of :: "SupportedTemplate list \<Rightarrow> string \<Rightarrow> AvailableUpgrade list" where
  "upgrades_of templates n =
     (case templateMap templates n of None \<Rightarrow> [] | Some t \<Rightarrow> stpl_AvailableUpgrades t)"

text \<open>A route from a template: every hop is an available upgrade of the one before.\<close>

fun is_route :: "SupportedTemplate list \<Rightarrow> string \<Rightarrow> AvailableUpgrade list \<Rightarrow> bool" where
  "is_route templates current [] \<longleftrightarrow> True"
| "is_route templates current (u # us) \<longleftrightarrow>
     u \<in> set (upgrades_of templates current) \<and> is_route templates (au_Name u) us"

text \<open>
  The routes the search enumerates: non-empty, no template left twice, no hop used twice.
\<close>

definition simple_route ::
  "SupportedTemplate list \<Rightarrow> string \<Rightarrow> AvailableUpgrade list \<Rightarrow> bool" where
  "simple_route templates current q \<longleftrightarrow>
     q \<noteq> [] \<and> is_route templates current q
     \<and> distinct (current # map au_Name (butlast q)) \<and> distinct q"

lemma same_hop: "(au_Name u = au_Name w \<and> au_Version u = au_Version w) \<longleftrightarrow> u = (w :: AvailableUpgrade)"
  by auto

lemma findPaths_unfold:
  "\<not> visited current \<Longrightarrow>
     set (findPaths templates current path visited) =
       (\<Union>u \<in> set (upgrades_of templates current) - set path.
          insert (path @ [u])
            (set (findPaths templates (au_Name u) (path @ [u]) (visited(current := True)))))"
  by (subst findPaths.simps)
    (auto simp: upgrades_of_def same_hop split: option.splits if_splits)

lemma simple_route_Cons:
  "simple_route templates current (u # q) \<and> set (u # q) \<inter> P = {}
     \<and> (\<forall>n \<in> set (current # map au_Name (butlast (u # q))). \<not> visited n) \<longleftrightarrow>
   u \<in> set (upgrades_of templates current) \<and> u \<notin> P \<and> \<not> visited current
     \<and> (q = [] \<or> simple_route templates (au_Name u) q \<and> set q \<inter> insert u P = {}
          \<and> (\<forall>n \<in> set (au_Name u # map au_Name (butlast q)). \<not> (visited(current := True)) n))"
  by (auto simp: simple_route_def split: if_splits)

lemma findPaths_iff:
  "p \<in> set (findPaths templates current path visited) \<longleftrightarrow>
     (\<exists>q. p = path @ q \<and> simple_route templates current q \<and> set q \<inter> set path = {}
        \<and> (\<forall>n \<in> set (current # map au_Name (butlast q)). \<not> visited n))"
proof (induction templates current path visited arbitrary: p rule: findPaths.induct)
  case (1 templates current path visited)
  show ?case
  proof (cases "visited current")
    case True
    then show ?thesis by (simp add: findPaths.simps)
  next
    case False
    have IH: "p \<in> set (findPaths templates (au_Name u) (path @ [u]) (visited(current := True))) \<longleftrightarrow>
        (\<exists>q. p = path @ u # q \<and> simple_route templates (au_Name u) q \<and> set q \<inter> insert u (set path) = {}
           \<and> (\<forall>n \<in> set (au_Name u # map au_Name (butlast q)). \<not> (visited(current := True)) n))"
      if "u \<in> set (upgrades_of templates current)" "u \<notin> set path" for u p
    proof -
      from that(1) obtain t where t: "templateMap templates current = Some t"
        and "u \<in> set (stpl_AvailableUpgrades t)"
        by (cases "templateMap templates current") (auto simp: upgrades_of_def)
      with that(2) show ?thesis
        using "1.IH" [OF False t, of u p] by (simp add: same_hop fun_upd_def)
    qed
    have "p \<in> set (findPaths templates current path visited) \<longleftrightarrow>
        (\<exists>u q. p = path @ u # q \<and> u \<in> set (upgrades_of templates current) \<and> u \<notin> set path
           \<and> (q = [] \<or> simple_route templates (au_Name u) q \<and> set q \<inter> insert u (set path) = {}
              \<and> (\<forall>n \<in> set (au_Name u # map au_Name (butlast q)). \<not> (visited(current := True)) n)))"
      unfolding findPaths_unfold [of visited current, OF False] using IH by blast
    also have "\<dots> \<longleftrightarrow> (\<exists>u q. p = path @ u # q \<and> simple_route templates current (u # q)
        \<and> set (u # q) \<inter> set path = {}
        \<and> (\<forall>n \<in> set (current # map au_Name (butlast (u # q))). \<not> visited n))"
      unfolding simple_route_Cons using False by blast
    also have "\<dots> \<longleftrightarrow> (\<exists>q. p = path @ q \<and> simple_route templates current q
        \<and> set q \<inter> set path = {}
        \<and> (\<forall>n \<in> set (current # map au_Name (butlast q)). \<not> visited n))"
      by (metis list.exhaust simple_route_def)
    finally show ?thesis .
  qed
qed

lemma set_findPaths: "set (findPaths templates t [] (\<lambda>_. False)) = {q. simple_route templates t q}"
  by (auto simp: findPaths_iff)

lemma templateMap_None: "templateMap templates t = None \<longleftrightarrow> t \<notin> stpl_Name ` set templates"
  by (simp add: templateMap_def index_simps)

lemma findAllUpgradePaths_Inr:
  assumes "t \<in> stpl_Name ` set (tcs_SupportedTemplates s)"
  shows "\<exists>paths. findAllUpgradePaths s t = Inr paths
           \<and> set paths = {q. simple_route (tcs_SupportedTemplates s) t q}"
  using assms templateMap_None [of "tcs_SupportedTemplates s" t]
  by (auto simp: findAllUpgradePaths_def set_findPaths)

text \<open>
  FindAllUpgradePaths enumerates exactly the simple routes from the template, and fails
  exactly on a template the chain does not know.
\<close>

theorem findAllUpgradePaths_correct:
  "(case findAllUpgradePaths s t of
      Inl e \<Rightarrow> e = TemplateNotFound t \<and> t \<notin> stpl_Name ` set (tcs_SupportedTemplates s)
    | Inr paths \<Rightarrow> t \<in> stpl_Name ` set (tcs_SupportedTemplates s)
        \<and> set paths = {q. simple_route (tcs_SupportedTemplates s) t q})"
  using templateMap_None [of "tcs_SupportedTemplates s" t]
  by (auto simp: findAllUpgradePaths_def set_findPaths split: option.split)

subsection \<open>Reachable destinations\<close>

definition upgrade_rel :: "SupportedTemplate list \<Rightarrow> (string \<times> string) set" where
  "upgrade_rel templates = {(a, au_Name u) | a u. u \<in> set (upgrades_of templates a)}"

lemma is_route_append:
  "is_route templates a (p @ q) \<longleftrightarrow>
     is_route templates a p \<and> is_route templates (if p = [] then a else au_Name (last p)) q"
  by (induction p arbitrary: a) auto

lemma route_reaches:
  "is_route templates a p \<Longrightarrow> p \<noteq> [] \<Longrightarrow> (a, au_Name (last p)) \<in> (upgrade_rel templates)\<^sup>+"
proof (induction p arbitrary: a)
  case Nil
  then show ?case by simp
next
  case (Cons u p)
  then have "(a, au_Name u) \<in> upgrade_rel templates" by (auto simp: upgrade_rel_def)
  with Cons show ?case by (cases "p = []") (auto intro: trancl_into_trancl2)
qed

lemma reachable_route:
  assumes "(a, b) \<in> (upgrade_rel templates)\<^sup>+"
  shows "\<exists>p. p \<noteq> [] \<and> is_route templates a p \<and> au_Name (last p) = b"
  using assms
proof (induction rule: trancl_induct)
  case (base b)
  then obtain u where "u \<in> set (upgrades_of templates a)" "b = au_Name u"
    by (auto simp: upgrade_rel_def)
  then show ?case by (intro exI [of _ "[u]"]) simp
next
  case (step b c)
  then obtain p u where "p \<noteq> []" "is_route templates a p" "au_Name (last p) = b"
    "u \<in> set (upgrades_of templates b)" "c = au_Name u"
    by (auto simp: upgrade_rel_def)
  then show ?case by (intro exI [of _ "p @ [u]"]) (simp add: is_route_append)
qed

text \<open>A shortest route leaves no template twice: cutting the loop out gives a shorter one.\<close>

lemma route_cut:
  assumes "is_route templates a (p @ q)" and "q \<noteq> []"
    and "(if p = [] then a else au_Name (last p)) = (if p' = [] then a else au_Name (last p'))"
    and "is_route templates a p'"
  shows "is_route templates a (p' @ q)"
  using assms by (simp add: is_route_append)

definition visited_at :: "string \<Rightarrow> AvailableUpgrade list \<Rightarrow> nat \<Rightarrow> string" where
  "visited_at a p i = (a # map au_Name p) ! i"

lemma visited_at_take:
  "i \<le> length p \<Longrightarrow> (if take i p = [] then a else au_Name (last (take i p))) = visited_at a p i"
  by (cases i) (auto simp: visited_at_def take_Suc_conv_app_nth)

lemma shortest_route_simple:
  assumes r: "is_route templates a p" "p \<noteq> []"
    and short: "\<And>q. q \<noteq> [] \<Longrightarrow> is_route templates a q \<Longrightarrow> au_Name (last q) = au_Name (last p) \<Longrightarrow>
        length p \<le> length q"
  shows "simple_route templates a p"
proof -
  have no_repeat: "visited_at a p i \<noteq> visited_at a p j" if ij: "i < j" "j < length p" for i j
  proof
    assume eq: "visited_at a p i = visited_at a p j"
    let ?q = "take i p @ drop j p"
    from ij have "is_route templates a (take j p @ drop j p)" "is_route templates a (take i p)"
      using r(1) is_route_append [of templates a "take i p" "drop i p"] by simp_all
    then have "is_route templates a ?q"
      using ij eq visited_at_take [of i p a] visited_at_take [of j p a]
        route_cut [of templates a "take j p" "drop j p" "take i p"] by simp
    moreover have "?q \<noteq> []" "last ?q = last p" using ij by simp_all
    ultimately have "length p \<le> length ?q" using short [of ?q] by metis
    with ij show False by simp
  qed
  have names: "a # map au_Name (butlast p) = map (visited_at a p) [0..<length p]"
    using r(2) by (intro nth_equalityI) (auto simp: visited_at_def nth_Cons nth_butlast split: nat.split)
  have d1: "distinct (a # map au_Name (butlast p))"
    unfolding names distinct_conv_nth by (metis add_0 diff_zero length_map length_upt linorder_neqE_nat no_repeat nth_map nth_upt)
  have "distinct p"
  proof (rule ccontr)
    assume "\<not> distinct p"
    with d1 r(2) have "last p \<in> set (butlast p)"
      by (metis append_butlast_last_id distinct.simps(2) distinct_append distinct_map
          distinct_singleton disjoint_iff list.set(1) list.set(2) singletonD)
    then obtain i where i: "i < length p - 1" "p ! i = last p"
      by (metis in_set_conv_nth length_butlast nth_butlast)
    have "is_route templates a (take (Suc i) p)"
      using r(1) is_route_append [of templates a "take (Suc i) p" "drop (Suc i) p"] by simp
    moreover have "last (take (Suc i) p) = last p"
      using i by (simp add: take_Suc_conv_app_nth)
    moreover note i
    ultimately show False using short [of "take (Suc i) p"] r(2) by simp
  qed
  with d1 r show ?thesis by (simp add: simple_route_def)
qed

lemma simple_route_to_reachable:
  assumes "(a, b) \<in> (upgrade_rel templates)\<^sup>+"
  shows "\<exists>p. simple_route templates a p \<and> au_Name (last p) = b"
proof -
  let ?P = "\<lambda>p. p \<noteq> [] \<and> is_route templates a p \<and> au_Name (last p) = b"
  from reachable_route [OF assms] obtain p where "?P p" by blast
  then obtain q where "?P q" and "\<And>r. ?P r \<Longrightarrow> length q \<le> length r"
    using ex_has_least_nat [of ?P p length] by blast
  then show ?thesis by (intro exI [of _ q]) (auto intro: shortest_route_simple)
qed

lemma destinations_reachable:
  "(\<lambda>p. au_Name (last p)) ` {q. simple_route templates t q} = {d. (t, d) \<in> (upgrade_rel templates)\<^sup>+}"
  using simple_route_to_reachable route_reaches
  by (fastforce simp: simple_route_def)

section \<open>One longest route per destination\<close>

lemma uniquePaths_step_lookup:
  "path \<noteq> [] \<Longrightarrow>
     alookup (uniquePaths_step path al) d =
       (if d = au_Name (last path)
        then (case alookup al d of
                None \<Rightarrow> Some path
              | Some old \<Rightarrow> if length old < length path then Some path else Some old)
        else alookup al d)"
  by (auto simp: uniquePaths_step_def Let_def last_conv_nth split: option.split)

text \<open>What the map holds after all paths have been seen: a longest path per destination.\<close>

lemma uniquePaths_fold:
  assumes "[] \<notin> set paths"
  shows "case alookup (fold uniquePaths_step paths []) d of
           None \<Rightarrow> \<forall>p\<in>set paths. au_Name (last p) \<noteq> d
         | Some r \<Rightarrow> r \<in> set paths \<and> au_Name (last r) = d
             \<and> (\<forall>p\<in>set paths. au_Name (last p) = d \<longrightarrow> length p \<le> length r)"
  using assms
proof (induction paths rule: rev_induct)
  case Nil
  then show ?case by simp
next
  case (snoc p paths)
  then have "p \<noteq> []" by auto
  with snoc show ?case
    by (fastforce simp: uniquePaths_step_lookup split: option.splits if_splits)
qed

lemma uniquePaths_fold_Some:
  assumes "[] \<notin> set paths" and "p \<in> set paths" and "au_Name (last p) = d"
  shows "\<exists>r. alookup (fold uniquePaths_step paths []) d = Some r \<and> r \<in> set paths
           \<and> au_Name (last r) = d \<and> (\<forall>q\<in>set paths. au_Name (last q) = d \<longrightarrow> length q \<le> length r)"
  using uniquePaths_fold [OF assms(1), of d] assms(2,3) by (auto split: option.splits)

lemma keys_uniquePaths:
  assumes "[] \<notin> set paths"
  shows "fst ` set (fold uniquePaths_step paths []) = (\<lambda>p. au_Name (last p)) ` set paths"
proof -
  have "d \<in> fst ` set (fold uniquePaths_step paths []) \<longleftrightarrow> d \<in> (\<lambda>p. au_Name (last p)) ` set paths" for d
    using uniquePaths_fold [OF assms, of d] alookup_None [of "fold uniquePaths_step paths []" d]
    by (auto split: option.splits)
  then show ?thesis by blast
qed

lemma default_version_Name [simp]: "au_Name (default_version u) = au_Name u"
  by (simp add: default_version_def)

lemma default_version_Version: "au_Version (default_version u) = (if au_Version u = [] then au_Name u else au_Version u)"
  by (simp add: default_version_def)

lemma UpgradePaths_spec:
  assumes "t \<in> stpl_Name ` set (tcs_SupportedTemplates s)"
    and "distinct order"
    and "set order = {d. (t, d) \<in> (upgrade_rel (tcs_SupportedTemplates s))\<^sup>+}"
  shows "\<exists>routes. UpgradePaths order s t = Inr routes
           \<and> map (\<lambda>r. au_Name (last (up_Versions r))) routes = order
           \<and> (\<forall>r\<in>set routes. \<exists>p. up_Versions r = map default_version p
                \<and> simple_route (tcs_SupportedTemplates s) t p
                \<and> (\<forall>q. simple_route (tcs_SupportedTemplates s) t q
                      \<and> au_Name (last q) = au_Name (last p) \<longrightarrow> length q \<le> length p))"
proof -
  let ?T = "tcs_SupportedTemplates s"
  from findAllUpgradePaths_Inr [OF assms(1)] obtain paths where
    found: "findAllUpgradePaths s t = Inr paths" and set: "set paths = {q. simple_route ?T t q}"
    by blast
  from set have ne: "[] \<notin> set paths" by (simp add: simple_route_def)
  let ?m = "alookup (fold uniquePaths_step paths [])"
  let ?route = "\<lambda>d. \<lparr>up_Versions = map default_version (get_or [] ?m d)\<rparr>"
  have sel: "\<exists>p. ?m d = Some p \<and> simple_route ?T t p \<and> au_Name (last p) = d
      \<and> (\<forall>q. simple_route ?T t q \<and> au_Name (last q) = d \<longrightarrow> length q \<le> length p)"
    if "d \<in> set order" for d
  proof -
    from that assms(3) simple_route_to_reachable [of t d ?T] obtain p where
      "p \<in> set paths" "au_Name (last p) = d" unfolding set by auto
    from uniquePaths_fold_Some [OF ne this] show ?thesis unfolding set by blast
  qed
  have "UpgradePaths order s t = Inr (map ?route order)"
    by (simp add: UpgradePaths_def found Let_def)
  moreover have "au_Name (last (up_Versions (?route d))) = d" if "d \<in> set order" for d
    using sel [OF that] by (auto simp: simple_route_def last_map)
  then have "map (\<lambda>r. au_Name (last (up_Versions r))) (map ?route order) = order"
    by (simp add: map_idI)
  moreover have "\<exists>p. up_Versions r = map default_version p \<and> simple_route ?T t p
      \<and> (\<forall>q. simple_route ?T t q \<and> au_Name (last q) = au_Name (last p) \<longrightarrow> length q \<le> length p)"
    if "r \<in> set (map ?route order)" for r
    using that sel by fastforce
  ultimately show ?thesis by blast
qed

text \<open>
  C7: For a known template, UpgradePaths returns exactly one route per template reachable in the
  chain. Each route is a sequence of hops the chain allows, from the given template to that
  destination, with no longer simple route to it, and the versions left out are filled with the
  template names. This holds for every order in which Go may iterate over the destinations.
\<close>

theorem UpgradePaths_correct:
  assumes "t \<in> stpl_Name ` set (tcs_SupportedTemplates s)"
    and "distinct order"
    and "set order = {d. (t, d) \<in> (upgrade_rel (tcs_SupportedTemplates s))\<^sup>+}"
  shows "\<exists>routes. UpgradePaths order s t = Inr routes
           \<and> map (\<lambda>r. au_Name (last (up_Versions r))) routes = order
           \<and> (\<forall>r\<in>set routes. \<exists>p. up_Versions r = map default_version p
                \<and> simple_route (tcs_SupportedTemplates s) t p
                \<and> (\<forall>q. simple_route (tcs_SupportedTemplates s) t q
                      \<and> au_Name (last q) = au_Name (last p) \<longrightarrow> length q \<le> length p))"
  using assms by (rule UpgradePaths_spec)

definition example_chain :: TemplateChainSpec where
  "example_chain = \<lparr>tcs_SupportedTemplates =
     [\<lparr>stpl_Name = ''a'', stpl_AvailableUpgrades = [\<lparr>au_Name = ''b'', au_Version = []\<rparr>]\<rparr>,
      \<lparr>stpl_Name = ''b'', stpl_AvailableUpgrades = []\<rparr>]\<rparr>"

theorem IsValid_iff_witness:
  "snd (IsValid [''b''] example_chain)"
  using IsValid_iff [of "[''b'']" example_chain]
  by (simp add: example_chain_def availableForUpgrade_def)

theorem IsValid_order_irrelevant_witness:
  "IsValid [''b'', ''c''] example_chain = IsValid [''c'', ''b''] example_chain"
  by (rule IsValid_order_irrelevant) auto

lemma example_chain_upgrades:
  "upgrades_of (tcs_SupportedTemplates example_chain) n =
     (if n = ''a'' then [\<lparr>au_Name = ''b'', au_Version = []\<rparr>] else [])"
  by (simp add: upgrades_of_def templateMap_def index_by_def example_chain_def)

lemma example_chain_reachable:
  "{d. (''a'', d) \<in> (upgrade_rel (tcs_SupportedTemplates example_chain))\<^sup>+} = {''b''}"
proof -
  have rel: "(x, y) \<in> upgrade_rel (tcs_SupportedTemplates example_chain) \<longleftrightarrow> x = ''a'' \<and> y = ''b''" for x y
    unfolding upgrade_rel_def example_chain_upgrades by (cases "x = ''a''") simp_all
  have "d = ''b''" if "(''a'', d) \<in> (upgrade_rel (tcs_SupportedTemplates example_chain))\<^sup>+" for d
    using tranclD2 [OF that] by (simp only: rel) blast
  moreover have "(''a'', ''b'') \<in> (upgrade_rel (tcs_SupportedTemplates example_chain))\<^sup>+"
    by (rule r_into_trancl) (simp add: rel)
  ultimately show ?thesis by blast
qed

theorem UpgradePaths_correct_witness:
  "\<exists>routes. UpgradePaths [''b''] example_chain ''a'' = Inr routes
     \<and> map (\<lambda>r. au_Name (last (up_Versions r))) routes = [''b'']"
proof -
  have "''a'' \<in> stpl_Name ` set (tcs_SupportedTemplates example_chain)"
    by (simp add: example_chain_def)
  moreover have "distinct [''b'']" by simp
  moreover have "set [''b''] = {d. (''a'', d) \<in> (upgrade_rel (tcs_SupportedTemplates example_chain))\<^sup>+}"
    unfolding example_chain_reachable by simp
  ultimately show ?thesis
    by (rule UpgradePaths_correct [THEN exE]) (elim conjE, intro exI conjI)
qed

end
