(* ===== verification/ServiceVersions.thy ===== *)
theory ServiceVersions
  imports ServiceKeys TemplateChain
begin

text \<open>
  Versions and upgrade routes of services (\<^verbatim>\<open>internal/serviceset/util.go\<close>): resolving the
  version a service states through its ServiceTemplate, pairing stored services with the
  template chains their owner asks for, computing the routes those chains allow, and fetching the
  ServiceSet that belongs to a cluster and a MultiClusterService.
\<close>

section \<open>Definitions\<close>

datatype svcset_error =
    TemplateFetchFailed ObjectKey api_error
  | UnsupportedSliceType
  | ChainFetchFailed ObjectKey api_error
  | UpgradePathsFailed string chain_error
  | DependencyNotDesired ObjectKey ObjectKey
  | ServiceSetListFailed api_error
  | AmbiguousServiceSets nat
  | JoinedErrors "svcset_error list"
  | ProviderFetchFailed string api_error
  | ServiceSetFetchFailed ObjectKey api_error
  | SelectorNil
  | InvalidSelector string
  | WriteFailed ObjectKey api_error
  | NilOwner

subsection \<open>Version resolution\<close>

definition template_version :: "ServiceTemplate \<Rightarrow> string" where
  "template_version template =
     (let version = st_Version template
      in if version = [] \<and> st_Helm template \<noteq> None
            \<and> helm_ChartSpec (the (st_Helm template)) \<noteq> None
         then hc_Version (the (helm_ChartSpec (the (st_Helm template))))
         else version)"

definition fill_version ::
  "svc_client \<Rightarrow> string \<Rightarrow> string \<Rightarrow> string \<Rightarrow> svcset_error + string" where
  "fill_version c namespace version template =
     (if version = [] \<and> template \<noteq> [] then
        bindE (wrapE (TemplateFetchFailed (ObjectKey namespace template))
                 (getServiceTemplate c (ObjectKey namespace template)))
          (\<lambda>t. if template_version t = [] then Inr template else Inr (template_version t))
      else Inr version)"

definition fillServiceVersions ::
  "svc_client \<Rightarrow> string \<Rightarrow> Service list \<Rightarrow> svcset_error + Service list" where
  "fillServiceVersions c namespace services =
     mapE (\<lambda>svc. bindE (fill_version c namespace (svc_Version svc) (svc_Template svc))
                   (\<lambda>v. Inr (svc\<lparr>svc_Version := v\<rparr>))) services"

definition fillServiceWithValueVersions ::
  "svc_client \<Rightarrow> string \<Rightarrow> ServiceWithValues list \<Rightarrow> svcset_error + ServiceWithValues list" where
  "fillServiceWithValueVersions c namespace services =
     mapE (\<lambda>svc. bindE (fill_version c namespace (swv_Version svc) (swv_Template svc))
                   (\<lambda>v. Inr (svc\<lparr>swv_Version := v\<rparr>))) services"

text \<open>
  The slice is passed as \<open>any\<close> and dispatched on its dynamic type. The services are
  updated in place; here the updated slice is returned.
\<close>

datatype service_slice =
    ServiceSlice "Service list"
  | ServiceWithValuesSlice "ServiceWithValues list"
  | OtherSlice

definition ResolveServiceVersions ::
  "svc_client \<Rightarrow> string \<Rightarrow> service_slice \<Rightarrow> svcset_error + service_slice" where
  "ResolveServiceVersions c namespace services =
     (case services of
        ServiceSlice s \<Rightarrow> bindE (fillServiceVersions c namespace s) (\<lambda>s'. Inr (ServiceSlice s'))
      | ServiceWithValuesSlice s \<Rightarrow>
          bindE (fillServiceWithValueVersions c namespace s) (\<lambda>s'. Inr (ServiceWithValuesSlice s'))
      | OtherSlice \<Rightarrow> Inl UnsupportedSliceType)"

subsection \<open>Chains and upgrade paths\<close>

definition zero_service :: Service where
  "zero_service =
     \<lparr>svc_HelmOptions = None, svc_HelmAction = [], svc_Name = [], svc_Namespace = [],
      svc_Template = [], svc_TemplateChain = [], svc_Version = [], svc_Values = [],
      svc_ValuesFrom = [], svc_DependsOn = [], svc_Disable = False\<rparr>"

definition ServicesWithDesiredChains :: "Service list \<Rightarrow> ServiceWithValues list \<Rightarrow> Service list" where
  "ServicesWithDesiredChains desiredServices deployedServices =
     (let chainMap = index_by svc_key svc_TemplateChain desiredServices
      in map (\<lambda>svc. zero_service\<lparr>
           svc_Name := swv_Name svc,
           svc_Namespace := effectiveNamespace (swv_Namespace svc),
           svc_Template := swv_Template svc,
           svc_TemplateChain := get_or [] chainMap (swv_key svc)\<rparr>) deployedServices)"

text \<open>
  The routes of one service, or the error that is joined for it. \<open>order\<close> is the order in
  which Go ranges over the destinations of the service's chain.
\<close>

definition service_upgrade_paths ::
  "svc_client \<Rightarrow> string \<Rightarrow> string list \<Rightarrow> Service \<Rightarrow> svcset_error + ServiceUpgradePaths" where
  "service_upgrade_paths c namespace order svc =
     (let result = (\<lambda>upgrades. \<lparr>sup_Name = svc_Name svc,
            sup_Namespace = effectiveNamespace (svc_Namespace svc),
            sup_Template = svc_Template svc, sup_AvailableUpgrades = upgrades\<rparr>)
      in if svc_TemplateChain svc = [] then
           Inr (result [\<lparr>up_Versions = [\<lparr>au_Name = svc_Template svc,
             au_Version = (if svc_Version svc = [] then svc_Template svc else svc_Version svc)\<rparr>]\<rparr>])
         else
           let key = ObjectKey namespace (svc_TemplateChain svc)
           in bindE (wrapE (ChainFetchFailed key) (getServiceTemplateChain c key)) (\<lambda>chain.
                bindE (wrapE (UpgradePathsFailed (svc_Template svc))
                         (UpgradePaths order (stc_Spec chain) (svc_Template svc)))
                  (\<lambda>upgradePaths. Inr (result upgradePaths))))"

fun lefts :: "('e + 'a) list \<Rightarrow> 'e list" where
  "lefts [] = []"
| "lefts (Inl e # rs) = e # lefts rs"
| "lefts (Inr _ # rs) = lefts rs"

fun rights :: "('e + 'a) list \<Rightarrow> 'a list" where
  "rights [] = []"
| "rights (Inl _ # rs) = rights rs"
| "rights (Inr a # rs) = a # rights rs"

definition ServicesUpgradePaths ::
  "(Service \<Rightarrow> string list) \<Rightarrow> svc_client \<Rightarrow> Service list \<Rightarrow> string
     \<Rightarrow> ServiceUpgradePaths list \<times> svcset_error list" where
  "ServicesUpgradePaths order c services namespace =
     (let results = map (\<lambda>svc. service_upgrade_paths c namespace (order svc) svc) services
      in (rights results, lefts results))"

subsection \<open>Identity of a ServiceSet\<close>

definition SelfManagementClusterReference :: ObjectReference where
  "SelfManagementClusterReference =
     \<lparr>ref_Kind = ''SveltosCluster'', ref_Name = ''mgmt'', ref_Namespace = ''mgmt'',
      ref_APIVersion = ''lib.projectsveltos.io/v1beta1''\<rparr>"

definition ClusterReference :: "ServiceSet option \<Rightarrow> ObjectReference" where
  "ClusterReference serviceSet =
     (case serviceSet of
        None \<Rightarrow> \<lparr>ref_Kind = [], ref_Name = [], ref_Namespace = [], ref_APIVersion = []\<rparr>
      | Some s \<Rightarrow>
          if sss_Cluster (sset_Spec s) = [] then SelfManagementClusterReference
          else \<lparr>ref_Kind = ''ClusterDeployment'', ref_Name = sss_Cluster (sset_Spec s),
                ref_Namespace = sset_Namespace s,
                ref_APIVersion = ''k0rdent.mirantis.com/v1beta1''\<rparr>)"

text \<open>
  \<open>shortHash\<close> stands for the hexadecimal form of the first four bytes of SHA-256.
\<close>

definition ServiceSetObjectKey ::
  "(string \<Rightarrow> string) \<Rightarrow> string \<Rightarrow> ClusterDeployment option \<Rightarrow> MultiClusterService \<Rightarrow> ObjectKey" where
  "ServiceSetObjectKey shortHash systemNamespace cd mcs =
     (case cd of
        None \<Rightarrow> ObjectKey systemNamespace (''management-'' @ shortHash (mcs_Name mcs))
      | Some d \<Rightarrow> ObjectKey (cd_Namespace d) (cd_Name d @ ''-'' @ shortHash (mcs_Name mcs)))"

definition ExtractServiceSetCluster :: "ServiceSet \<Rightarrow> string list" where
  "ExtractServiceSetCluster serviceSet = [sss_Cluster (sset_Spec serviceSet)]"

definition ExtractServiceSetMultiClusterService :: "ServiceSet \<Rightarrow> string list" where
  "ExtractServiceSetMultiClusterService serviceSet =
     (if sss_MultiClusterService (sset_Spec serviceSet) = [] then []
      else [sss_MultiClusterService (sset_Spec serviceSet)])"

definition empty_service_set :: ServiceSet where
  "empty_service_set =
     \<lparr>sset_Name = [], sset_Namespace = [], sset_Deleting = False, sset_Labels = [], sset_OwnerReferences = [],
      sset_Spec = \<lparr>sss_Cluster = [], sss_MultiClusterService = [],
        sss_Provider = \<lparr>smpc_Config = None, smpc_Name = [], smpc_SelfManagement = False\<rparr>,
        sss_Services = []\<rparr>,
      sset_Status = \<lparr>ssst_Conditions = [], ssst_Cluster = None, ssst_Services = [], ssst_Deployed = False\<rparr>\<rparr>"

definition fetchServiceSet ::
  "svc_client \<Rightarrow> string \<Rightarrow> MultiClusterService option \<Rightarrow> ClusterDeployment option
     \<Rightarrow> svcset_error + ServiceSet" where
  "fetchServiceSet c systemNamespace mcs cd =
     (let mcsName = (case mcs of None \<Rightarrow> [] | Some m \<Rightarrow> mcs_Name m);
          cdName = (case cd of None \<Rightarrow> [] | Some d \<Rightarrow> cd_Name d);
          namespace = (case cd of None \<Rightarrow> systemNamespace | Some d \<Rightarrow> cd_Namespace d);
          sel = (\<lambda>s. (cdName \<noteq> [] \<longrightarrow> cdName \<in> set (ExtractServiceSetCluster s))
                     \<and> (mcsName \<noteq> [] \<longrightarrow> mcsName \<in> set (ExtractServiceSetMultiClusterService s)))
      in bindE (wrapE ServiceSetListFailed (listServiceSets c namespace sel)) (\<lambda>items.
           let serviceSets = filter (\<lambda>sset.
                 \<not> (cdName \<noteq> [] \<and> mcsName = [] \<and> sss_MultiClusterService (sset_Spec sset) \<noteq> [])
                 \<and> \<not> (cdName = [] \<and> mcsName \<noteq> [] \<and> sss_Cluster (sset_Spec sset) \<noteq> [])) items
           in if length serviceSets > 1 then Inl (AmbiguousServiceSets (length serviceSets))
              else if serviceSets = [] then Inr empty_service_set
              else Inr (hd serviceSets)))"

section \<open>Version resolution\<close>

lemma fill_version_empty [simp]: "fill_version c ns v t = Inr [] \<longleftrightarrow> v = [] \<and> t = []"
  by (auto simp: fill_version_def result_simps split: if_splits)

lemma fill_version_keeps: "v \<noteq> [] \<Longrightarrow> fill_version c ns v t = Inr v"
  by (simp add: fill_version_def)

lemma fillServiceVersions_pointwise:
  "fillServiceVersions c ns services = Inr services' \<Longrightarrow>
     list_all2 (\<lambda>s s'. \<exists>v. fill_version c ns (svc_Version s) (svc_Template s) = Inr v
        \<and> s' = s\<lparr>svc_Version := v\<rparr>) services services'"
  by (auto simp: fillServiceVersions_def mapE_Inr_list_all2 result_simps elim!: list_all2_mono)

lemma fillServiceWithValueVersions_pointwise:
  "fillServiceWithValueVersions c ns services = Inr services' \<Longrightarrow>
     list_all2 (\<lambda>s s'. \<exists>v. fill_version c ns (swv_Version s) (swv_Template s) = Inr v
        \<and> s' = s\<lparr>swv_Version := v\<rparr>) services services'"
  by (auto simp: fillServiceWithValueVersions_def mapE_Inr_list_all2 result_simps
      elim!: list_all2_mono)

lemma fillServiceVersions_keys:
  "fillServiceVersions c ns services = Inr services' \<Longrightarrow>
     map svc_key services' = map svc_key services \<and> map svc_DependsOn services' = map svc_DependsOn services
     \<and> map svc_Template services' = map svc_Template services"
  by (auto simp: fillServiceVersions_def result_simps intro!: mapE_map_eq)

lemma fillServiceWithValueVersions_keys:
  "fillServiceWithValueVersions c ns services = Inr services' \<Longrightarrow>
     map swv_key services' = map swv_key services \<and> map swv_Template services' = map swv_Template services"
  by (auto simp: fillServiceWithValueVersions_def result_simps intro!: mapE_map_eq)

lemma fillServiceWithValueVersions_id:
  "(\<And>s. s \<in> set services \<Longrightarrow> swv_Version s \<noteq> [] \<or> swv_Template s = []) \<Longrightarrow>
     fillServiceWithValueVersions c ns services = Inr services"
  unfolding fillServiceWithValueVersions_def by (rule mapE_id) (auto simp: fill_version_def)

text \<open>
  Resolving versions succeeds only with every templated service stating a version, changes
  nothing but versions that were empty, and resolving again is a no-op.
\<close>

theorem fillServiceVersions_resolved:
  assumes "fillServiceVersions c ns services = Inr services'"
  shows "map svc_key services' = map svc_key services
         \<and> (\<forall>s\<in>set services'. svc_Template s \<noteq> [] \<longrightarrow> svc_Version s \<noteq> [])
         \<and> list_all2 (\<lambda>s s'. svc_Version s \<noteq> [] \<longrightarrow> s' = s) services services'
         \<and> fillServiceVersions c ns services' = Inr services'"
proof -
  note pw = fillServiceVersions_pointwise [OF assms]
  have ne: "\<forall>s\<in>set services'. svc_Template s \<noteq> [] \<longrightarrow> svc_Version s \<noteq> []"
    using assms
    by (auto simp: fillServiceVersions_def result_simps dest!: mapE_set)
  moreover have "list_all2 (\<lambda>s s'. svc_Version s \<noteq> [] \<longrightarrow> s' = s) services services'"
    using pw by (rule list_all2_mono) (auto simp: fill_version_keeps)
  moreover have "fillServiceVersions c ns services' = Inr services'"
    unfolding fillServiceVersions_def by (rule mapE_id) (use ne in \<open>auto simp: fill_version_def\<close>)
  ultimately show ?thesis using fillServiceVersions_keys [OF assms] by blast
qed

section \<open>Upgrade paths\<close>

lemma lefts_Nil: "lefts rs = [] \<longleftrightarrow> (\<forall>r\<in>set rs. \<exists>a. r = Inr a)"
  by (induction rs rule: lefts.induct) auto

lemma rights_all: "lefts rs = [] \<Longrightarrow> map Inr (rights rs) = rs"
  by (induction rs rule: lefts.induct) auto

lemma in_rights: "a \<in> set (rights rs) \<longleftrightarrow> Inr a \<in> set rs"
  by (induction rs rule: rights.induct) auto

lemma ServicesWithDesiredChains_fields:
  "map svc_key (ServicesWithDesiredChains desired stored) = map swv_key stored"
  "map svc_Template (ServicesWithDesiredChains desired stored) = map swv_Template stored"
  by (simp_all add: ServicesWithDesiredChains_def Let_def zero_service_def)

text \<open>
  Every stored service is paired with the template chain of the desired service it is
  identified with, and with no chain when it is no longer desired.
\<close>

theorem ServicesWithDesiredChains_chain:
  assumes "distinct (map svc_key desired)" and "s \<in> set (ServicesWithDesiredChains desired stored)"
  shows "svc_TemplateChain s =
           (case find (\<lambda>d. svc_key d = svc_key s) desired of
              None \<Rightarrow> [] | Some d \<Rightarrow> svc_TemplateChain d)"
proof -
  from assms(2) obtain w where s: "svc_key s = swv_key w"
    "svc_TemplateChain s = get_or [] (index_by svc_key svc_TemplateChain desired) (swv_key w)"
    by (auto simp: ServicesWithDesiredChains_def Let_def zero_service_def)
  show ?thesis
  proof (cases "find (\<lambda>d. svc_key d = svc_key s) desired")
    case None
    then have "index_by svc_key svc_TemplateChain desired (swv_key w) = None"
      using s(1) by (auto simp: find_None_iff index_simps)
    with None s show ?thesis by simp
  next
    case (Some d)
    then have "d \<in> set desired" "svc_key d = swv_key w"
      using s(1) by (auto simp: find_Some_iff)
    with index_by_distinct [OF assms(1), of d svc_TemplateChain] Some s show ?thesis by simp
  qed
qed

lemma service_upgrade_paths_self:
  "svc_TemplateChain svc = [] \<Longrightarrow>
     \<exists>v. service_upgrade_paths c ns order svc =
           Inr \<lparr>sup_Name = svc_Name svc, sup_Namespace = effectiveNamespace (svc_Namespace svc),
                sup_Template = svc_Template svc,
                sup_AvailableUpgrades = [\<lparr>up_Versions = [\<lparr>au_Name = svc_Template svc, au_Version = v\<rparr>]\<rparr>]\<rparr>"
  by (simp add: service_upgrade_paths_def)

lemma service_upgrade_paths_fields:
  "service_upgrade_paths c ns order svc = Inr p \<Longrightarrow>
     sup_Name p = svc_Name svc \<and> sup_Namespace p = effectiveNamespace (svc_Namespace svc)
     \<and> sup_Template p = svc_Template svc"
  by (auto simp: service_upgrade_paths_def Let_def result_simps split: if_splits)

section \<open>The ServiceSet of a cluster and an MCS\<close>

text \<open>
  With an API server that lists the stored objects of the namespace satisfying the selector,
  fetchServiceSet picks the ServiceSet whose cluster and MultiClusterService are exactly the given
  ones: none is an empty ServiceSet, several are an error, and ServiceSets of other MCSs on the
  same cluster, or of clusters in the system namespace, are never returned.
\<close>

theorem fetchServiceSet_exact:
  assumes list_law: "\<And>ns p. listServiceSets c ns p = Inr (filter (\<lambda>s. sset_Namespace s = ns \<and> p s) store)"
    and "mcsName = (case mcs of None \<Rightarrow> [] | Some m \<Rightarrow> mcs_Name m)"
    and "cdName = (case cd of None \<Rightarrow> [] | Some d \<Rightarrow> cd_Name d)"
    and "ns = (case cd of None \<Rightarrow> sysns | Some d \<Rightarrow> cd_Namespace d)"
    and "mcsName \<noteq> [] \<or> cdName \<noteq> []"
  shows "fetchServiceSet c sysns mcs cd =
           (case filter (\<lambda>s. sset_Namespace s = ns \<and> sss_Cluster (sset_Spec s) = cdName
                           \<and> sss_MultiClusterService (sset_Spec s) = mcsName) store of
              [] \<Rightarrow> Inr empty_service_set
            | [s] \<Rightarrow> Inr s
            | ss \<Rightarrow> Inl (AmbiguousServiceSets (length ss)))"
proof -
  let ?sel = "\<lambda>s. (cdName \<noteq> [] \<longrightarrow> cdName \<in> set (ExtractServiceSetCluster s))
      \<and> (mcsName \<noteq> [] \<longrightarrow> mcsName \<in> set (ExtractServiceSetMultiClusterService s))"
  have "filter (\<lambda>sset.
          \<not> (cdName \<noteq> [] \<and> mcsName = [] \<and> sss_MultiClusterService (sset_Spec sset) \<noteq> [])
          \<and> \<not> (cdName = [] \<and> mcsName \<noteq> [] \<and> sss_Cluster (sset_Spec sset) \<noteq> []))
          (filter (\<lambda>s. sset_Namespace s = ns \<and> ?sel s) store)
      = filter (\<lambda>s. sset_Namespace s = ns \<and> sss_Cluster (sset_Spec s) = cdName
                     \<and> sss_MultiClusterService (sset_Spec s) = mcsName) store"
    using assms(5)
    by (auto simp: ExtractServiceSetCluster_def ExtractServiceSetMultiClusterService_def
        intro!: filter_cong)
  then show ?thesis
    unfolding fetchServiceSet_def assms(2-4) [symmetric] Let_def list_law wrapE_simps bindE_simps
    by (simp split: list.split)
qed

text \<open>
  Two ServiceSets refer to the same target cluster only if both target the management cluster
  or both name the same ClusterDeployment in the same namespace.
\<close>

theorem ClusterReference_eq_iff:
  "ClusterReference (Some a) = ClusterReference (Some b) \<longleftrightarrow>
     sss_Cluster (sset_Spec a) = sss_Cluster (sset_Spec b)
     \<and> (sss_Cluster (sset_Spec a) = [] \<or> sset_Namespace a = sset_Namespace b)"
  by (auto simp: ClusterReference_def SelfManagementClusterReference_def)

text \<open>
  Provided the short hash has a fixed length, the ServiceSet keys of two different
  ClusterDeployments never coincide.
\<close>

theorem ServiceSetObjectKey_inj:
  assumes "\<And>x. length (shortHash x) = 8"
    and "ServiceSetObjectKey shortHash sysns (Some a) m = ServiceSetObjectKey shortHash sysns (Some b) m'"
  shows "cd_Namespace a = cd_Namespace b \<and> cd_Name a = cd_Name b
         \<and> shortHash (mcs_Name m) = shortHash (mcs_Name m')"
  using assms by (simp add: ServiceSetObjectKey_def)

end
