(* ===== verification/DependencyGraph.thy ===== *)
theory DependencyGraph
  imports ServiceKeys
begin

text \<open>
  Dependency validation: the depth-first search of \<^verbatim>\<open>internal/util/validation/services.go\<close>
  (\<open>dfs\<close>, \<open>hasCycle\<close>), the search from one node of
  \<^verbatim>\<open>internal/util/validation/multiclusterservice.go\<close> (\<open>hasCycleFrom\<close>), and the validations of
  services and MultiClusterServices built on them. The visited and inStack maps are predicates
  (a missing key reads \<open>false\<close>); the error of a detected cycle carries the node it is
  reported at. The graph is an association list; where the code ranges over it, the order of the
  keys, which Go does not fix, is an argument.
\<close>

section \<open>Definitions\<close>

type_synonym 'k graph = "('k \<times> 'k list) list"

definition succs :: "'k graph \<Rightarrow> 'k \<Rightarrow> 'k list" where
  "succs graph node = get_or [] (alookup graph) node"

function (sequential) dfs ::
  "'k \<Rightarrow> ('k \<Rightarrow> bool) \<Rightarrow> ('k \<Rightarrow> bool) \<Rightarrow> 'k graph \<Rightarrow> 'k + ('k \<Rightarrow> bool) \<times> ('k \<Rightarrow> bool)"
and dfs_range ::
  "'k list \<Rightarrow> ('k \<Rightarrow> bool) \<Rightarrow> ('k \<Rightarrow> bool) \<Rightarrow> 'k graph \<Rightarrow> 'k + ('k \<Rightarrow> bool) \<times> ('k \<Rightarrow> bool)"
where
  "dfs node visited inStack graph =
     (if inStack node then Inl node
      else if visited node then Inr (visited, inStack)
      else bindE
        (dfs_range (succs graph node) (visited(node := True)) (inStack(node := True)) graph)
        (\<lambda>(visited', inStack'). Inr (visited', inStack'(node := False))))"
| "dfs_range [] visited inStack graph = Inr (visited, inStack)"
| "dfs_range (d # ds) visited inStack graph =
     bindE (dfs d visited inStack graph)
       (\<lambda>(visited', inStack'). dfs_range ds visited' inStack' graph)"
  by pat_completeness auto

text \<open>
  The search terminates because a completed call never forgets a visited node: the number of
  graph keys not yet visited decreases along the recursion into a node, and along the loop over
  its successors it does not grow. That fact is about the function itself, so it is proved on the
  domain of the recursion first.
\<close>

lemma dfs_visited_grows_dom:
  "dfs_dfs_range_dom (Inl (node, visited, inStack, graph)) \<Longrightarrow>
     dfs node visited inStack graph = Inr (v', s') \<Longrightarrow> visited k \<Longrightarrow> v' k"
  "dfs_dfs_range_dom (Inr (ds, visited, inStack, graph)) \<Longrightarrow>
     dfs_range ds visited inStack graph = Inr (v', s') \<Longrightarrow> visited k \<Longrightarrow> v' k"
proof (induction node visited inStack graph and ds visited inStack graph
    arbitrary: v' s' and v' s' rule: dfs_dfs_range.pinduct)
  case (1 node visited inStack graph)
  show ?case
  proof (cases "inStack node \<or> visited node")
    case True
    with "1.prems" "1.hyps" show ?thesis by (auto simp: dfs.psimps split: if_splits)
  next
    case False
    with "1.prems"(1) "1.hyps" obtain b where
      "dfs_range (succs graph node) (visited(node := True)) (inStack(node := True)) graph
         = Inr (v', b)"
      by (auto simp: dfs.psimps result_simps)
    from "1.IH" [OF _ _ this] False "1.prems"(2) show ?thesis by auto
  qed
next
  case (2 visited inStack graph)
  then show ?case
    by (simp add: dfs_range.psimps)
next
  case (3 d ds visited inStack graph)
  from "3.prems" "3.hyps" obtain v1 s1 where d: "dfs d visited inStack graph = Inr (v1, s1)"
    and ds: "dfs_range ds v1 s1 graph = Inr (v', s')"
    by (auto simp: dfs_range.psimps result_simps)
  from "3.IH"(1) [OF d "3.prems"(2)] have "v1 k" .
  with "3.IH"(2) [OF d refl ds] show ?case by simp
qed

definition unvisited :: "'k graph \<Rightarrow> ('k \<Rightarrow> bool) \<Rightarrow> nat" where
  "unvisited graph visited = card {k \<in> fst ` set graph. \<not> visited k}"

lemma unvisited_upd:
  fixes graph :: "'k graph"
  shows "unvisited graph (visited(node := True)) \<le> unvisited graph visited"
  "node \<in> fst ` set graph \<Longrightarrow> \<not> visited node \<Longrightarrow>
     unvisited graph (visited(node := True)) < unvisited graph visited"
  unfolding unvisited_def by (rule card_le_if_mono card_less_if_new; auto)+

lemma succs_outside: "node \<notin> fst ` set graph \<Longrightarrow> succs graph node = []"
  by (simp add: succs_def get_or_def alookup_None [THEN iffD2])

termination dfs
proof (relation "measures
        [\<lambda>x. case x of
            Inl (node, visited, inStack, graph) \<Rightarrow> unvisited graph visited
          | Inr (ds, visited, inStack, graph) \<Rightarrow> unvisited graph visited,
         \<lambda>x. case x of Inl _ \<Rightarrow> 1 | Inr (ds, _) \<Rightarrow> 2 * length ds]", goal_cases)
  case 1
  show ?case by simp
next
  case (2 node visited inStack graph)
  have "unvisited graph (visited(node := True)) < unvisited graph visited
        \<or> unvisited graph (visited(node := True)) = unvisited graph visited
          \<and> succs graph node = []"
    using unvisited_upd [where visited = visited and node = node] succs_outside [of node graph] \<open>\<not> visited node\<close>
    by (meson order.not_eq_order_implies_strict)
  then show ?case by auto
next
  case (3 d ds visited inStack graph)
  then show ?case by simp
next
  case (4 d ds visited inStack graph x v' s')
  then have "\<And>k. visited k \<Longrightarrow> v' k"
    by (auto dest: dfs_visited_grows_dom(1))
  then have "unvisited graph v' \<le> unvisited graph visited"
    unfolding unvisited_def by (intro card_le_if_mono) auto
  then show ?case by auto
qed

fun hasCycle_range ::
  "'k list \<Rightarrow> ('k \<Rightarrow> bool) \<Rightarrow> ('k \<Rightarrow> bool) \<Rightarrow> 'k graph \<Rightarrow> 'k + unit" where
  "hasCycle_range [] visited inStack graph = Inr ()"
| "hasCycle_range (key # keys) visited inStack graph =
     (if \<not> visited key
      then bindE (dfs key visited inStack graph)
             (\<lambda>(visited', inStack'). hasCycle_range keys visited' inStack' graph)
      else hasCycle_range keys visited inStack graph)"

definition hasCycle :: "'k list \<Rightarrow> 'k graph \<Rightarrow> 'k + unit" where
  "hasCycle order graph = hasCycle_range order (\<lambda>_. False) (\<lambda>_. False) graph"

definition hasCycleFrom :: "'k \<Rightarrow> 'k graph \<Rightarrow> 'k + unit" where
  "hasCycleFrom start graph = bindE (dfs start (\<lambda>_. False) (\<lambda>_. False) graph) (\<lambda>_. Inr ())"

subsection \<open>Services\<close>

datatype dependency_error =
    UndefinedDependencies "(ObjectKey \<times> ObjectKey) list"
  | DependencyCycle ObjectKey
  | ListFailed api_error

definition validateServiceDependency ::
  "ObjectKey list \<Rightarrow> Service list \<Rightarrow> (ObjectKey \<times> ObjectKey) list" where
  "validateServiceDependency order services =
     (if services = [] then []
      else let dependsOnMap = index_by svc_key dep_keys services
           in concat (map (\<lambda>svc. map (Pair svc)
                (filter (\<lambda>d. dependsOnMap d = None) (get_or [] dependsOnMap svc))) order))"

definition service_graph :: "Service list \<Rightarrow> ObjectKey graph" where
  "service_graph services =
     fold (\<lambda>svc. fold (\<lambda>d. aappend (svc_key svc) (dep_key d)) (svc_DependsOn svc)) services []"

definition validateServiceDependencyCycle ::
  "ObjectKey list \<Rightarrow> Service list \<Rightarrow> ObjectKey + unit" where
  "validateServiceDependencyCycle order services =
     (if services = [] then Inr () else hasCycle order (service_graph services))"

definition ValidateServiceDependencyOverall ::
  "ObjectKey list \<Rightarrow> ObjectKey list \<Rightarrow> Service list \<Rightarrow> dependency_error + unit" where
  "ValidateServiceDependencyOverall order order' services =
     (if validateServiceDependency order services \<noteq> []
      then Inl (UndefinedDependencies (validateServiceDependency order services))
      else wrapE DependencyCycle (validateServiceDependencyCycle order' services))"

subsection \<open>MultiClusterServices\<close>

definition mcs_key :: "string \<Rightarrow> ObjectKey" where
  "mcs_key name = ObjectKey [] name"

definition generateMCSDependencyGraph :: "MultiClusterService list \<Rightarrow> ObjectKey graph" where
  "generateMCSDependencyGraph items =
     fold (\<lambda>m graph. fold (\<lambda>d. aappend (mcs_key (mcs_Name m)) (mcs_key d)) (mcs_DependsOn m)
                       (AList.update (mcs_key (mcs_Name m)) [] graph)) items []"

definition generateReverseMCSDependencyGraph :: "MultiClusterService list \<Rightarrow> ObjectKey graph" where
  "generateReverseMCSDependencyGraph items =
     fold (\<lambda>m graph. fold (\<lambda>d. aappend (mcs_key d) (mcs_key (mcs_Name m))) (mcs_DependsOn m)
             (case alookup graph (mcs_key (mcs_Name m)) of
                None \<Rightarrow> AList.update (mcs_key (mcs_Name m)) [] graph
              | Some _ \<Rightarrow> graph)) items []"

definition validateMCSDependency ::
  "MultiClusterService option \<Rightarrow> MultiClusterService list \<Rightarrow> (ObjectKey \<times> ObjectKey) list" where
  "validateMCSDependency mcs items =
     (case mcs of
        None \<Rightarrow> []
      | Some m \<Rightarrow>
          if mcs_DependsOn m = [] then []
          else let graph = generateMCSDependencyGraph items
               in map (\<lambda>d. (mcs_key d, mcs_key (mcs_Name m)))
                    (filter (\<lambda>d. alookup graph (mcs_key d) = None) (mcs_DependsOn m)))"

definition validateMCSDependencyCycle ::
  "MultiClusterService option \<Rightarrow> MultiClusterService list \<Rightarrow> ObjectKey + unit" where
  "validateMCSDependencyCycle mcs items =
     (case mcs of
        None \<Rightarrow> Inr ()
      | Some m \<Rightarrow>
          if mcs_DependsOn m = [] then Inr ()
          else hasCycleFrom (mcs_key (mcs_Name m)) (generateMCSDependencyGraph (items @ [m])))"

definition ValidateMCSDependencyOverall ::
  "api_error + MultiClusterService list \<Rightarrow> MultiClusterService \<Rightarrow> dependency_error + unit" where
  "ValidateMCSDependencyOverall listed mcs =
     bindE (wrapE ListFailed listed) (\<lambda>items.
       if validateMCSDependency (Some mcs) items \<noteq> []
       then Inl (UndefinedDependencies (validateMCSDependency (Some mcs) items))
       else wrapE DependencyCycle (validateMCSDependencyCycle (Some mcs) items))"

datatype delete_error = DeleteListFailed api_error | DependentsExist ObjectKey nat

definition ValidateMCSDelete ::
  "api_error + MultiClusterService list \<Rightarrow> MultiClusterService \<Rightarrow> delete_error + unit" where
  "ValidateMCSDelete listed mcs =
     bindE (wrapE DeleteListFailed listed) (\<lambda>items.
       let dependents = succs (generateReverseMCSDependencyGraph items) (mcs_key (mcs_Name mcs))
       in if length dependents > 0
          then Inl (DependentsExist (mcs_key (mcs_Name mcs)) (length dependents))
          else Inr ())"

section \<open>The search finds exactly the cycles\<close>

definition edges :: "'k graph \<Rightarrow> ('k \<times> 'k) set" where
  "edges graph = {(a, b). b \<in> set (succs graph a)}"

lemma edges_iff: "(a, b) \<in> edges graph \<longleftrightarrow> b \<in> set (succs graph a)"
  by (simp add: edges_def)

lemma closed_rtrancl:
  assumes "(x, y) \<in> R\<^sup>*" and "P x" and "\<And>a b. P a \<Longrightarrow> (a, b) \<in> R \<Longrightarrow> P b"
  shows "P y"
  using assms by (induction rule: rtrancl_induct) auto

declare dfs.simps [simp del]

lemma dfs_Inr_cases:
  assumes "dfs node visited inStack graph = Inr (v', s')"
  obtains (old) "\<not> inStack node" "visited node" "v' = visited" "s' = inStack"
  | (new) t where "\<not> inStack node" "\<not> visited node"
      "dfs_range (succs graph node) (visited(node := True)) (inStack(node := True)) graph
         = Inr (v', t)"
      "s' = t(node := False)"
  using assms by (subst (asm) dfs.simps) (auto simp: result_simps split: if_splits)

lemma dfs_range_Inr_Cons:
  assumes "dfs_range (d # ds) visited inStack graph = Inr r"
  obtains v s where "dfs d visited inStack graph = Inr (v, s)" "dfs_range ds v s graph = Inr r"
  using assms by (auto simp: result_simps)

text \<open>A completed call leaves the stack as it found it, and remembers what was visited.\<close>

lemma dfs_stack:
  "dfs node visited inStack graph = Inr (v', s') \<Longrightarrow> s' = inStack"
  "dfs_range ds visited inStack graph = Inr (v', s') \<Longrightarrow> s' = inStack"
proof (induction node visited inStack graph and ds visited inStack graph
    arbitrary: v' s' and v' s' rule: dfs_dfs_range.induct)
  case (1 node visited inStack graph)
  from "1.prems" show ?case
  proof (cases rule: dfs_Inr_cases)
    case (new t)
    from "1.IH" [OF new(1,2,3)] new(1,4) show ?thesis by auto
  qed simp
next
  case (2 visited inStack graph)
  then show ?case by simp
next
  case (3 d ds visited inStack graph)
  from "3.prems"(1) obtain v s where d: "dfs d visited inStack graph = Inr (v, s)"
    and ds: "dfs_range ds v s graph = Inr (v', s')"
    by (rule dfs_range_Inr_Cons)
  from "3.IH"(1) [OF d] "3.IH"(2) [OF d refl ds] show ?case by simp
qed

lemma dfs_visited_grows:
  "dfs node visited inStack graph = Inr (v', s') \<Longrightarrow> visited k \<Longrightarrow> v' k"
  "dfs_range ds visited inStack graph = Inr (v', s') \<Longrightarrow> visited k \<Longrightarrow> v' k"
proof (induction node visited inStack graph and ds visited inStack graph
    arbitrary: v' s' and v' s' rule: dfs_dfs_range.induct)
  case (1 node visited inStack graph)
  from "1.prems"(1) show ?case
  proof (cases rule: dfs_Inr_cases)
    case (new t)
    from "1.IH" [OF new(1,2,3)] "1.prems"(2) show ?thesis by simp
  qed (use "1.prems"(2) in simp)
next
  case (2 visited inStack graph)
  then show ?case by simp
next
  case (3 d ds visited inStack graph)
  from "3.prems"(1) obtain v s where d: "dfs d visited inStack graph = Inr (v, s)"
    and ds: "dfs_range ds v s graph = Inr (v', s')"
    by (rule dfs_range_Inr_Cons)
  from "3.IH"(1) [OF d] "3.IH"(2) [OF d refl ds] "3.prems"(2) show ?case by simp
qed

text \<open>
  A reported cycle is one: every node on the stack reaches the node being expanded, so meeting
  a stacked node again closes a path from that node to itself.
\<close>

lemma dfs_sound:
  "dfs node visited inStack graph = Inl k \<Longrightarrow>
     (\<And>x. inStack x \<Longrightarrow> (x, node) \<in> (edges graph)\<^sup>+) \<Longrightarrow>
     (k, k) \<in> (edges graph)\<^sup>+ \<and> (node, k) \<in> (edges graph)\<^sup>*"
  "dfs_range ds visited inStack graph = Inl k \<Longrightarrow>
     set ds \<subseteq> set (succs graph p) \<Longrightarrow>
     (\<And>x. inStack x \<Longrightarrow> (x, p) \<in> (edges graph)\<^sup>*) \<Longrightarrow>
     (k, k) \<in> (edges graph)\<^sup>+ \<and> (p, k) \<in> (edges graph)\<^sup>*"
proof (induction node visited inStack graph and ds visited inStack graph
    arbitrary: k and k p rule: dfs_dfs_range.induct)
  case (1 node visited inStack graph)
  show ?case
  proof (cases "inStack node")
    case True
    with "1.prems" show ?thesis by (auto simp: dfs.simps)
  next
    case False
    with "1.prems"(1) have "\<not> visited node" and
      "dfs_range (succs graph node) (visited(node := True)) (inStack(node := True)) graph = Inl k"
      by (auto simp: dfs.simps result_simps split: if_splits)
    from "1.IH" [OF False this subset_refl] show ?thesis
      using "1.prems"(2) by (metis fun_upd_apply rtrancl.rtrancl_refl trancl_into_rtrancl)
  qed
next
  case (2 visited inStack graph)
  then show ?case by simp
next
  case (3 d ds visited inStack graph)
  from "3.prems"(2) have pd: "(p, d) \<in> edges graph" by (simp add: edges_iff)
  from "3.prems"(1) consider "dfs d visited inStack graph = Inl k"
    | v s where "dfs d visited inStack graph = Inr (v, s)" "dfs_range ds v s graph = Inl k"
    by (auto simp: result_simps)
  then show ?case
  proof cases
    case 1
    from "3.IH"(1) [OF this] pd "3.prems"(3) show ?thesis
      by (meson converse_rtrancl_into_rtrancl rtrancl_into_trancl1)
  next
    case (2 v s)
    from dfs_stack(1) [OF 2(1)] have "s = inStack" .
    with "3.IH"(2) [OF 2(1) refl 2(2), of p] "3.prems"(2,3) show ?thesis by simp
  qed
qed

text \<open>
  A search that reports nothing has seen none: the finished nodes (visited and off the stack)
  are closed under successors and none of them lies on a cycle.
\<close>

definition search_inv :: "'k graph \<Rightarrow> ('k \<Rightarrow> bool) \<Rightarrow> ('k \<Rightarrow> bool) \<Rightarrow> bool" where
  "search_inv graph visited inStack \<longleftrightarrow>
     (\<forall>x. inStack x \<longrightarrow> visited x)
     \<and> (\<forall>x y. visited x \<and> \<not> inStack x \<and> (x, y) \<in> edges graph \<longrightarrow> visited y \<and> \<not> inStack y)
     \<and> (\<forall>x. visited x \<and> \<not> inStack x \<longrightarrow> (x, x) \<notin> (edges graph)\<^sup>+)"

lemma search_inv_push:
  "search_inv graph visited inStack \<Longrightarrow> \<not> visited node \<Longrightarrow>
     search_inv graph (visited(node := True)) (inStack(node := True))"
  unfolding search_inv_def by (metis fun_upd_apply)

lemma search_inv_pop:
  assumes inv: "search_inv graph visited inStack" and node: "visited node" "inStack node"
    and finished: "\<And>d. d \<in> set (succs graph node) \<Longrightarrow> visited d \<and> \<not> inStack d"
  shows "search_inv graph visited (inStack(node := False))"
proof -
  have closed: "visited y \<and> \<not> inStack y" if "visited x \<and> \<not> inStack x" "(x, y) \<in> edges graph" for x y
    using inv that unfolding search_inv_def by blast
  have "(node, node) \<notin> (edges graph)\<^sup>+"
  proof
    assume "(node, node) \<in> (edges graph)\<^sup>+"
    then obtain d where d: "(node, d) \<in> edges graph" "(d, node) \<in> (edges graph)\<^sup>*"
      by (meson tranclD)
    from d(1) have "visited d \<and> \<not> inStack d" by (simp add: edges_iff finished)
    with d(2) have "visited node \<and> \<not> inStack node"
      by (rule closed_rtrancl [where P = "\<lambda>x. visited x \<and> \<not> inStack x"]) (rule closed)
    with node show False by simp
  qed
  with inv have cyc: "(x, x) \<notin> (edges graph)\<^sup>+" if "visited x" "\<not> inStack x \<or> x = node" for x
    using that unfolding search_inv_def by blast
  have cl: "visited y \<and> \<not> inStack y"
    if "visited x" "\<not> inStack x \<or> x = node" "(x, y) \<in> edges graph" for x y
    using that closed finished edges_iff by metis
  have st: "visited x" if "inStack x" for x
    using inv that unfolding search_inv_def by blast
  have off: "(inStack(node := False)) x \<longleftrightarrow> inStack x \<and> x \<noteq> node" for x
    by simp
  show ?thesis
    unfolding search_inv_def off using st cl cyc by blast
qed

lemma dfs_complete:
  "dfs node visited inStack graph = Inr (v', s') \<Longrightarrow> search_inv graph visited inStack \<Longrightarrow>
     search_inv graph v' s' \<and> v' node \<and> \<not> s' node"
  "dfs_range ds visited inStack graph = Inr (v', s') \<Longrightarrow> search_inv graph visited inStack \<Longrightarrow>
     search_inv graph v' s' \<and> (\<forall>d\<in>set ds. v' d \<and> \<not> s' d)"
proof (induction node visited inStack graph and ds visited inStack graph
    arbitrary: v' s' and v' s' rule: dfs_dfs_range.induct)
  case (1 node visited inStack graph)
  from "1.prems"(1) show ?case
  proof (cases rule: dfs_Inr_cases)
    case old
    with "1.prems" show ?thesis by simp
  next
    case (new t)
    have "search_inv graph v' t \<and> (\<forall>d\<in>set (succs graph node). v' d \<and> \<not> t d)"
      using "1.IH" [OF new(1,2,3)] search_inv_push [OF "1.prems"(2) new(2)] by blast
    moreover have "v' node" "t node"
      using dfs_visited_grows(2) [OF new(3), of node] dfs_stack(2) [OF new(3)] by simp_all
    ultimately have "search_inv graph v' (t(node := False))"
      using search_inv_pop [of graph v' t node] by blast
    moreover have "\<not> (t(node := False)) node" by simp
    ultimately show ?thesis using \<open>v' node\<close> new(4) by blast
  qed
next
  case (2 visited inStack graph)
  then show ?case by simp
next
  case (3 d ds visited inStack graph)
  from "3.prems"(1) obtain v s where d: "dfs d visited inStack graph = Inr (v, s)"
    and ds: "dfs_range ds v s graph = Inr (v', s')"
    by (rule dfs_range_Inr_Cons)
  from "3.IH"(1) [OF d "3.prems"(2)] have "search_inv graph v s" "v d" "\<not> s d" by simp_all
  with "3.IH"(2) [OF d refl ds] dfs_visited_grows(2) [OF ds] dfs_stack(2) [OF ds]
  show ?case by simp
qed

lemma search_inv_start: "search_inv graph (\<lambda>_. False) (\<lambda>_. False)"
  by (simp add: search_inv_def)

lemma cycle_node_is_key:
  assumes "(k, l) \<in> (edges graph)\<^sup>+"
  shows "k \<in> fst ` set graph"
proof -
  from assms obtain m where "(k, m) \<in> edges graph" by (meson tranclD)
  then show ?thesis using succs_outside [of k graph] by (force simp: edges_iff)
qed

lemma hasCycle_range_sound:
  "hasCycle_range keys visited (\<lambda>_. False) graph = Inl k \<Longrightarrow> (k, k) \<in> (edges graph)\<^sup>+"
proof (induction keys arbitrary: visited)
  case Nil
  then show ?case by simp
next
  case (Cons key keys)
  show ?case
  proof (cases "dfs key visited (\<lambda>_. False) graph")
    case (Inl l)
    with Cons show ?thesis by (auto dest: dfs_sound(1) split: if_splits)
  next
    case (Inr vs)
    with Cons dfs_stack(1) show ?thesis by (cases vs) (fastforce split: if_splits)
  qed
qed

lemma hasCycle_range_complete:
  "hasCycle_range keys visited (\<lambda>_. False) graph = Inr u \<Longrightarrow>
     search_inv graph visited (\<lambda>_. False) \<Longrightarrow> k \<in> set keys \<or> visited k \<Longrightarrow>
     (k, k) \<notin> (edges graph)\<^sup>+"
proof (induction keys arbitrary: visited)
  case Nil
  then show ?case by (simp add: search_inv_def)
next
  case (Cons key keys)
  show ?case
  proof (cases "visited key")
    case True
    with Cons show ?thesis by auto
  next
    case False
    with Cons.prems(1) obtain v where d: "dfs key visited (\<lambda>_. False) graph = Inr (v, \<lambda>_. False)"
      and rest: "hasCycle_range keys v (\<lambda>_. False) graph = Inr u"
      by (auto simp: result_simps dest: dfs_stack(1))
    from dfs_complete(1) [OF d Cons.prems(2)] Cons.prems(3) dfs_visited_grows(1) [OF d]
    have "search_inv graph v (\<lambda>_. False)" and "k \<in> set keys \<or> v k" by auto
    with rest show ?thesis by (rule Cons.IH)
  qed
qed

lemma hasCycle_spec:
  assumes "set order = fst ` set graph"
  shows "(hasCycle order graph = Inr () \<longleftrightarrow> acyclic (edges graph))
         \<and> (\<forall>k. hasCycle order graph = Inl k \<longrightarrow> (k, k) \<in> (edges graph)\<^sup>+)"
proof -
  have sound: "(k, k) \<in> (edges graph)\<^sup>+" if "hasCycle order graph = Inl k" for k
    using that unfolding hasCycle_def by (rule hasCycle_range_sound)
  have "acyclic (edges graph)" if ok: "hasCycle order graph = Inr ()"
  proof (rule acyclicI, intro allI notI)
    fix k
    assume cyc: "(k, k) \<in> (edges graph)\<^sup>+"
    then have "k \<in> set order" using assms cycle_node_is_key by metis
    with cyc show False
      using hasCycle_range_complete [OF ok [unfolded hasCycle_def] search_inv_start, of k] by simp
  qed
  with sound show ?thesis
    by (cases "hasCycle order graph") (auto simp: acyclic_def)
qed

text \<open>
  Whatever order Go ranges over the graph in, hasCycle succeeds exactly on the acyclic
  graphs, and a node it reports lies on a cycle.
\<close>

theorem hasCycle_correct:
  assumes "set order = fst ` set graph"
  shows "(hasCycle order graph = Inr () \<longleftrightarrow> acyclic (edges graph))
         \<and> (\<forall>k. hasCycle order graph = Inl k \<longrightarrow> (k, k) \<in> (edges graph)\<^sup>+)"
  using assms by (rule hasCycle_spec)

lemma hasCycleFrom_spec:
  "(\<exists>k. hasCycleFrom start graph = Inl k) \<longleftrightarrow>
     (\<exists>k. (start, k) \<in> (edges graph)\<^sup>* \<and> (k, k) \<in> (edges graph)\<^sup>+)"
proof (cases "dfs start (\<lambda>_. False) (\<lambda>_. False) graph")
  case (Inl k)
  then have "(k, k) \<in> (edges graph)\<^sup>+ \<and> (start, k) \<in> (edges graph)\<^sup>*"
    by (rule dfs_sound(1)) simp
  with Inl show ?thesis by (auto simp: hasCycleFrom_def)
next
  case (Inr vs)
  then obtain v s where d: "dfs start (\<lambda>_. False) (\<lambda>_. False) graph = Inr (v, s)"
    by (cases vs) simp
  from dfs_complete(1) [OF d search_inv_start] have inv: "search_inv graph v s"
    and start: "v start \<and> \<not> s start" by simp_all
  have "(k, k) \<notin> (edges graph)\<^sup>+" if reach: "(start, k) \<in> (edges graph)\<^sup>*" for k
  proof -
    from reach start have "v k \<and> \<not> s k"
      by (rule closed_rtrancl [where P = "\<lambda>x. v x \<and> \<not> s x"])
        (use inv in \<open>unfold search_inv_def, blast\<close>)
    with inv show ?thesis unfolding search_inv_def by blast
  qed
  with d show ?thesis by (auto simp: hasCycleFrom_def)
qed

text \<open>
  HasCycleFrom fails exactly when a cycle can be reached from the start node; cycles in
  unrelated parts of the graph are ignored.
\<close>

theorem hasCycleFrom_correct:
  "(\<exists>k. hasCycleFrom start graph = Inl k) \<longleftrightarrow>
     (\<exists>k. (start, k) \<in> (edges graph)\<^sup>* \<and> (k, k) \<in> (edges graph)\<^sup>+)"
  by (rule hasCycleFrom_spec)

section \<open>Validation of services\<close>

definition service_deps :: "Service list \<Rightarrow> (ObjectKey \<times> ObjectKey) set" where
  "service_deps services = {(svc_key s, d) | s d. s \<in> set services \<and> d \<in> set (dep_keys s)}"

lemma service_deps_defined:
  "snd ` service_deps services \<subseteq> A \<longleftrightarrow> (\<forall>s\<in>set services. \<forall>d\<in>set (svc_DependsOn s). dep_key d \<in> A)"
  by (force simp: service_deps_def)

lemma succs_fold_aappend:
  "succs (fold (\<lambda>d. aappend k (f d)) ds graph) n =
     succs graph n @ (if n = k then map f ds else [])"
  by (induction ds arbitrary: graph) (auto simp: succs_def get_aappend)

lemma keys_fold_aappend:
  "fst ` set (fold (\<lambda>d. aappend k (f d)) ds graph) =
     (if ds = [] then fst ` set graph else insert k (fst ` set graph))"
  by (induction ds arbitrary: graph) (auto simp: keys_aappend)

lemma set_succs_service_graph:
  "set (succs (service_graph services) n) = {d. (n, d) \<in> service_deps services}"
proof -
  have "set (succs (fold (\<lambda>svc. fold (\<lambda>d. aappend (svc_key svc) (dep_key d)) (svc_DependsOn svc))
            services graph) n)
        = set (succs graph n) \<union> {d. (n, d) \<in> service_deps services}" for graph
    by (induction services arbitrary: graph) (auto simp: succs_fold_aappend service_deps_def)
  then show ?thesis by (simp add: service_graph_def succs_def)
qed

lemma edges_service_graph: "edges (service_graph services) = service_deps services"
  by (auto simp: edges_def set_succs_service_graph)

lemma validateServiceDependency_Nil:
  assumes "distinct (map svc_key services)" and "set order = svc_key ` set services"
  shows "validateServiceDependency order services = [] \<longleftrightarrow>
           snd ` service_deps services \<subseteq> svc_key ` set services"
proof -
  have "get_or [] (index_by svc_key dep_keys services) (svc_key s) = dep_keys s"
    if "s \<in> set services" for s
    using index_by_distinct [OF assms(1) that, of dep_keys] by simp
  then show ?thesis
    using assms(2)
    by (simp add: validateServiceDependency_def Let_def filter_empty_conv index_simps
        service_deps_defined)
qed

lemma ValidateServiceDependencyOverall_spec:
  assumes "distinct (map svc_key services)"
    and "set order = svc_key ` set services"
    and "set order' = fst ` set (service_graph services)"
  shows "ValidateServiceDependencyOverall order order' services = Inr () \<longleftrightarrow>
           snd ` service_deps services \<subseteq> svc_key ` set services \<and> acyclic (service_deps services)"
proof -
  have "validateServiceDependencyCycle order' services = Inr () \<longleftrightarrow> acyclic (service_deps services)"
    using hasCycle_spec [OF assms(3)]
    by (auto simp: validateServiceDependencyCycle_def edges_service_graph service_deps_def
        acyclic_def)
  then show ?thesis
    using validateServiceDependency_Nil [OF assms(1,2)]
    by (auto simp: ValidateServiceDependencyOverall_def result_simps)
qed

text \<open>
  C8: Service dependency validation succeeds exactly when every dependency names a service of
  the list and the dependency relation has no cycle, for any iteration order of the two maps it
  ranges over; services are identified by name and namespace, as the CRD's list key requires.
\<close>

theorem ValidateServiceDependencyOverall_iff:
  assumes "distinct (map svc_key services)"
    and "set order = svc_key ` set services"
    and "set order' = fst ` set (service_graph services)"
  shows "ValidateServiceDependencyOverall order order' services = Inr () \<longleftrightarrow>
           snd ` service_deps services \<subseteq> svc_key ` set services \<and> acyclic (service_deps services)"
  using assms by (rule ValidateServiceDependencyOverall_spec)

text \<open>A concrete run: two services, the second depending on the first.\<close>

definition example_service :: "string \<Rightarrow> string list \<Rightarrow> Service" where
  "example_service name deps =
     \<lparr>svc_HelmOptions = None, svc_HelmAction = [], svc_Name = name, svc_Namespace = [],
      svc_Template = name, svc_TemplateChain = [], svc_Version = [], svc_Values = [],
      svc_ValuesFrom = [],
      svc_DependsOn = map (\<lambda>d. \<lparr>dep_Name = d, dep_Namespace = []\<rparr>) deps,
      svc_Disable = False\<rparr>"

lemma example_service_sel [simp]:
  "svc_Name (example_service n ds) = n"
  "svc_Namespace (example_service n ds) = []"
  "svc_Version (example_service n ds) = []"
  "svc_Template (example_service n ds) = n"
  "svc_TemplateChain (example_service n ds) = []"
  "svc_Disable (example_service n ds) = False"
  "svc_DependsOn (example_service n ds) = map (\<lambda>d. \<lparr>dep_Name = d, dep_Namespace = []\<rparr>) ds"
  by (simp_all add: example_service_def)

theorem hasCycle_correct_witness:
  "(hasCycle [1, 2] [(1::nat, [2]), (2, [1])] = Inr () \<longleftrightarrow> acyclic (edges [(1::nat, [2]), (2, [1])]))
   \<and> hasCycle [1, 2] [(1::nat, [2]), (2, [1])] = Inl 1"
  using hasCycle_correct [of "[1, 2]" "[(1::nat, [2]), (2, [1])]"]
  by (simp add: hasCycle_def dfs.simps succs_def)

theorem ValidateServiceDependencyOverall_iff_witness:
  "let services = [example_service ''a'' [], example_service ''b'' [''a'']]
   in ValidateServiceDependencyOverall [ServiceKey [] ''a'', ServiceKey [] ''b'']
        [ServiceKey [] ''b''] services = Inr ()
      \<and> acyclic (service_deps services)"
proof -
  let ?services = "[example_service ''a'' [], example_service ''b'' [''a'']]"
  have "ValidateServiceDependencyOverall [ServiceKey [] ''a'', ServiceKey [] ''b'']
          [ServiceKey [] ''b''] ?services = Inr ()"
    by (simp add: ValidateServiceDependencyOverall_def validateServiceDependency_def index_by_def
        validateServiceDependencyCycle_def hasCycle_def service_graph_def dfs.simps succs_def
        aappend_def ServiceKey_def get_or_def)
  then show ?thesis
    using ValidateServiceDependencyOverall_iff [of ?services
        "[ServiceKey [] ''a'', ServiceKey [] ''b'']" "[ServiceKey [] ''b'']"]
    by (simp add: service_graph_def aappend_def ServiceKey_def)
qed

section \<open>Validation of MultiClusterServices\<close>

lemma mcs_key_eq [simp]: "mcs_key a = mcs_key b \<longleftrightarrow> a = b"
  by (simp add: mcs_key_def)

lemma succs_Nil: "succs [] n = []"
  by (simp add: succs_def)

lemma succs_update: "succs (AList.update k v graph) n = (if n = k then v else succs graph n)"
  by (simp add: succs_def get_or_def)

text \<open>
  The dependencies an MCS list states: a later entry for a name replaces an earlier one, which is
  how the object under validation takes precedence over its stored copy.
\<close>

definition mcs_deps :: "MultiClusterService list \<Rightarrow> (ObjectKey \<times> ObjectKey) set" where
  "mcs_deps items =
     {(mcs_key n, mcs_key d) | n d ds. index_by mcs_Name mcs_DependsOn items n = Some ds \<and> d \<in> set ds}"

lemma generateMCSDependencyGraph_snoc:
  "generateMCSDependencyGraph (items @ [m]) =
     fold (\<lambda>d. aappend (mcs_key (mcs_Name m)) (mcs_key d)) (mcs_DependsOn m)
       (AList.update (mcs_key (mcs_Name m)) [] (generateMCSDependencyGraph items))"
  by (simp add: generateMCSDependencyGraph_def)

lemma succs_generateMCSDependencyGraph:
  "succs (generateMCSDependencyGraph items) k =
     (if ok_Namespace k = [] then map mcs_key (get_or [] (index_by mcs_Name mcs_DependsOn items) (ok_Name k))
      else [])"
proof (induction items rule: rev_induct)
  case Nil
  then show ?case by (simp add: generateMCSDependencyGraph_def succs_def)
next
  case (snoc m items)
  then show ?case
    by (cases k)
      (auto simp: generateMCSDependencyGraph_snoc succs_fold_aappend succs_update mcs_key_def get_or_def)
qed

lemma keys_generateMCSDependencyGraph:
  "fst ` set (generateMCSDependencyGraph items) = mcs_key ` mcs_Name ` set items"
proof (induction items rule: rev_induct)
  case Nil
  then show ?case by (simp add: generateMCSDependencyGraph_def)
next
  case (snoc m items)
  then show ?case by (simp add: generateMCSDependencyGraph_snoc keys_fold_aappend keys_update)
qed

lemma edges_generateMCSDependencyGraph: "edges (generateMCSDependencyGraph items) = mcs_deps items"
proof -
  have "(k, l) \<in> edges (generateMCSDependencyGraph items) \<longleftrightarrow> (k, l) \<in> mcs_deps items" for k l
    by (cases k; cases l)
      (auto simp: edges_iff succs_generateMCSDependencyGraph mcs_deps_def mcs_key_def get_or_def
        split: option.splits, metis)
  then show ?thesis by auto
qed

text \<open>
  An MCS passes dependency validation exactly when every MCS it depends on exists and no
  dependency cycle is reachable from it, its own new dependencies taking precedence over the stored ones.
\<close>

theorem ValidateMCSDependencyOverall_iff:
  "ValidateMCSDependencyOverall (Inr items) mcs = Inr () \<longleftrightarrow>
     set (mcs_DependsOn mcs) \<subseteq> mcs_Name ` set items
     \<and> (\<nexists>k. (mcs_key (mcs_Name mcs), k) \<in> (mcs_deps (items @ [mcs]))\<^sup>*
            \<and> (k, k) \<in> (mcs_deps (items @ [mcs]))\<^sup>+)"
proof (cases "mcs_DependsOn mcs = []")
  case True
  have stuck: "(mcs_key (mcs_Name mcs), k) \<notin> mcs_deps (items @ [mcs])" for k
    using True by (simp add: mcs_deps_def)
  then have "k = mcs_key (mcs_Name mcs)"
    if "(mcs_key (mcs_Name mcs), k) \<in> (mcs_deps (items @ [mcs]))\<^sup>*" for k
    using that by (metis converse_rtranclE)
  with stuck have "\<nexists>k. (mcs_key (mcs_Name mcs), k) \<in> (mcs_deps (items @ [mcs]))\<^sup>*
      \<and> (k, k) \<in> (mcs_deps (items @ [mcs]))\<^sup>+"
    by (metis tranclD)
  with True show ?thesis
    by (simp add: ValidateMCSDependencyOverall_def validateMCSDependency_def
        validateMCSDependencyCycle_def)
next
  case False
  have "validateMCSDependency (Some mcs) items = [] \<longleftrightarrow> set (mcs_DependsOn mcs) \<subseteq> mcs_Name ` set items"
    using False
    by (auto simp: validateMCSDependency_def Let_def filter_empty_conv alookup_None
        keys_generateMCSDependencyGraph)
  moreover have "validateMCSDependencyCycle (Some mcs) items = Inr () \<longleftrightarrow>
      (\<nexists>k. (mcs_key (mcs_Name mcs), k) \<in> (mcs_deps (items @ [mcs]))\<^sup>*
           \<and> (k, k) \<in> (mcs_deps (items @ [mcs]))\<^sup>+)"
    using False hasCycleFrom_spec [of "mcs_key (mcs_Name mcs)" "generateMCSDependencyGraph (items @ [mcs])"]
    by (cases "hasCycleFrom (mcs_key (mcs_Name mcs)) (generateMCSDependencyGraph (items @ [mcs]))")
      (auto simp: validateMCSDependencyCycle_def edges_generateMCSDependencyGraph)
  ultimately show ?thesis
    by (auto simp: ValidateMCSDependencyOverall_def result_simps)
qed

lemma succs_reverse:
  "succs (generateReverseMCSDependencyGraph items) (mcs_key n) =
     concat (map (\<lambda>m. replicate (count_list (mcs_DependsOn m) n) (mcs_key (mcs_Name m))) items)"
proof -
  have inner: "succs (fold (\<lambda>d. aappend (mcs_key d) k) ds graph) (mcs_key n)
      = succs graph (mcs_key n) @ replicate (count_list ds n) k" for k ds graph
    by (induction ds arbitrary: graph) (auto simp: succs_def get_aappend replicate_append_same [symmetric])
  have skip: "succs (case alookup graph k of None \<Rightarrow> AList.update k [] graph | Some _ \<Rightarrow> graph) l
      = succs graph l" for graph :: "ObjectKey graph" and k l
    by (auto simp: succs_update split: option.split) (simp add: succs_def)
  show ?thesis
    unfolding generateReverseMCSDependencyGraph_def
    by (induction items rule: rev_induct) (simp_all add: inner skip succs_Nil)
qed

text \<open>
  Deletion of an MCS is allowed exactly when no listed MCS depends on it, and a refusal
  reports how many dependency entries name it.
\<close>

theorem ValidateMCSDelete_correct:
  "ValidateMCSDelete (Inr items) mcs =
     (if \<exists>m\<in>set items. mcs_Name mcs \<in> set (mcs_DependsOn m)
      then Inl (DependentsExist (mcs_key (mcs_Name mcs))
                  (\<Sum>m\<leftarrow>items. count_list (mcs_DependsOn m) (mcs_Name mcs)))
      else Inr ())"
proof -
  have len: "length (succs (generateReverseMCSDependencyGraph items) (mcs_key (mcs_Name mcs)))
      = (\<Sum>m\<leftarrow>items. count_list (mcs_DependsOn m) (mcs_Name mcs))"
    by (simp add: succs_reverse length_concat comp_def)
  have "(\<Sum>m\<leftarrow>items. count_list (mcs_DependsOn m) (mcs_Name mcs)) > 0 \<longleftrightarrow>
      (\<exists>m\<in>set items. mcs_Name mcs \<in> set (mcs_DependsOn m))"
    by (induction items) (auto simp: count_list_0_iff)
  then show ?thesis
    unfolding ValidateMCSDelete_def Let_def wrapE_simps bindE_simps len by (simp only:)
qed

end
