(* ===== verification/FilterDependencies.thy ===== *)
theory FilterDependencies
  imports ServiceVersions DependencyGraph
begin

text \<open>
  \<open>FilterServiceDependencies\<close> of \<^verbatim>\<open>internal/serviceset/util.go\<close>: which desired services may be
  applied or upgraded now. The deployed services are those at their desired version; a
  fixpoint loop then drops every service with an unsatisfied dependency, and the services whose
  count of unsatisfied dependencies reaches zero are eligible. The loops over Go maps take the
  iteration order as the argument \<open>perm\<close>, which returns the keys of its argument in
  the order Go visits them.
\<close>

section \<open>Definitions\<close>

text \<open>One pass over the deployed services; only entries still present are visited.\<close>

fun drop_range ::
  "(ObjectKey \<Rightarrow> ObjectKey list) \<Rightarrow> ObjectKey list \<Rightarrow> ObjectKey list \<Rightarrow> bool
     \<Rightarrow> ObjectKey list \<times> bool" where
  "drop_range deps [] deployed dropped = (deployed, dropped)"
| "drop_range deps (k # ks) deployed dropped =
     (if k \<in> set deployed \<and> list_ex (\<lambda>d. d \<notin> set deployed) (deps k)
      then drop_range deps ks (removeAll k deployed) True
      else drop_range deps ks deployed dropped)"

lemma drop_range_length:
  "length (fst (drop_range deps ks deployed dropped)) \<le> length deployed
   \<and> (snd (drop_range deps ks deployed dropped) \<longrightarrow>
        dropped \<or> length (fst (drop_range deps ks deployed dropped)) < length deployed)"
proof (induction ks arbitrary: deployed dropped)
  case Nil
  then show ?case by simp
next
  case (Cons k ks)
  have "length (removeAll k deployed) < length deployed" if "k \<in> set deployed"
    using that by (rule length_removeAll_less)
  with Cons.IH [of "removeAll k deployed" True] Cons.IH [of deployed dropped] show ?case
    by auto
qed

text \<open>The loop \<open>for dropped := true; dropped; { ... }\<close>.\<close>

function drop_loop ::
  "(ObjectKey list \<Rightarrow> ObjectKey list) \<Rightarrow> (ObjectKey \<Rightarrow> ObjectKey list) \<Rightarrow> ObjectKey list
     \<Rightarrow> ObjectKey list" where
  "drop_loop perm deps deployed =
     (case drop_range deps (perm deployed) deployed False of
        (deployed', dropped) \<Rightarrow> if dropped then drop_loop perm deps deployed' else deployed')"
  by pat_completeness auto
termination
proof (relation "measure (\<lambda>(perm, deps, deployed). length deployed)", goal_cases)
  case 1
  show ?case by simp
next
  case (2 perm deps deployed deployed' dropped)
  then show ?case
    using drop_range_length [of deps "perm deployed" deployed False]
    by (cases "drop_range deps (perm deployed) deployed False") auto
qed

declare drop_loop.simps [simp del]

definition serviceIdx :: "Service list \<Rightarrow> ObjectKey \<rightharpoonup> nat" where
  "serviceIdx desired = index_by (\<lambda>(i, svc). svc_key svc) fst (enumerate 0 desired)"

definition dependsOnCount :: "Service list \<Rightarrow> ObjectKey \<rightharpoonup> int" where
  "dependsOnCount desired = index_by svc_key (\<lambda>svc. int (length (svc_DependsOn svc))) desired"

definition dependents :: "Service list \<Rightarrow> (ObjectKey \<times> ObjectKey list) list" where
  "dependents desired =
     fold (\<lambda>svc. fold (\<lambda>d. aappend (dep_key d) (svc_key svc)) (svc_DependsOn svc)) desired []"

text \<open>The code builds the key again from the parts of a key it already has.\<close>

definition rekey :: "ObjectKey \<Rightarrow> ObjectKey" where
  "rekey k = ServiceKey (ok_Namespace k) (ok_Name k)"

definition decrement :: "ObjectKey \<Rightarrow> (ObjectKey \<rightharpoonup> int) \<Rightarrow> ObjectKey \<rightharpoonup> int" where
  "decrement d m = m(rekey d \<mapsto> get_or 0 m (rekey d) - 1)"

definition absent_dependency :: "Service list \<Rightarrow> (ObjectKey \<times> ObjectKey) option" where
  "absent_dependency desired =
     (case concat (map (\<lambda>svc. map (Pair (svc_key svc))
              (filter (\<lambda>d. serviceIdx desired d = None) (dep_keys svc))) desired) of
        [] \<Rightarrow> None | p # _ \<Rightarrow> Some p)"

text \<open>The version-aware notion of a finished service, read off the fetched ServiceSet.\<close>

definition at_desired :: "ServiceSet \<Rightarrow> Service list \<Rightarrow> ObjectKey \<Rightarrow> bool" where
  "at_desired sset desired k =
     (let specVersion = index_by swv_key swv_version (sss_Services (sset_Spec sset));
          statusVersion = index_by ss_key ss_version (ssst_Services (sset_Status sset));
          statusState = index_by ss_key ss_State (ssst_Services (sset_Status sset));
          desiredVersion = index_by svc_key svc_version desired
      in AtDesiredVersion (get_or (StateOther []) statusState k) (get_or [] statusVersion k)
           (get_or [] specVersion k) (get_or [] desiredVersion k))"

definition FilterServiceDependencies ::
  "(ObjectKey list \<Rightarrow> ObjectKey list) \<Rightarrow> svc_client \<Rightarrow> string \<Rightarrow> MultiClusterService option
     \<Rightarrow> ClusterDeployment option \<Rightarrow> Service list \<Rightarrow> svcset_error + Service list" where
  "FilterServiceDependencies perm c systemNamespace mcs cd desired =
     (case absent_dependency desired of
        Some (svc, d) \<Rightarrow> Inl (DependencyNotDesired svc d)
      | None \<Rightarrow>
          bindE (fetchServiceSet c systemNamespace mcs cd) (\<lambda>sset.
            let deployedServices = filter (at_desired sset desired) (perm (remdups (map svc_key desired)));
                deps = (\<lambda>k. dep_keys (desired ! get_or 0 (serviceIdx desired) k));
                deployedServices = drop_loop perm deps deployedServices;
                count = fold (\<lambda>svc. fold decrement (get_or [] (alookup (dependents desired)) (rekey svc)))
                          (perm deployedServices) (dependsOnCount desired)
            in Inr (filter (\<lambda>svc. get_or 0 count (svc_key svc) \<le> 0) desired)))"

section \<open>The fixpoint of the drop loop\<close>

definition closed_keys :: "(ObjectKey \<Rightarrow> ObjectKey list) \<Rightarrow> ObjectKey set \<Rightarrow> bool" where
  "closed_keys deps A \<longleftrightarrow> (\<forall>k\<in>A. set (deps k) \<subseteq> A)"

lemma drop_range_subset: "set (fst (drop_range deps ks deployed b)) \<subseteq> set deployed"
proof (induction ks arbitrary: deployed b)
  case (Cons k ks)
  from Cons.IH [of "removeAll k deployed" True] Cons.IH [of deployed b] show ?case by auto
qed simp

lemma drop_range_distinct: "distinct deployed \<Longrightarrow> distinct (fst (drop_range deps ks deployed b))"
  by (induction ks arbitrary: deployed b) (auto simp: distinct_removeAll)

text \<open>A closed set of services survives every pass: none of its members misses a dependency.\<close>

lemma drop_range_keeps_closed:
  "closed_keys deps A \<Longrightarrow> A \<subseteq> set deployed \<Longrightarrow> A \<subseteq> set (fst (drop_range deps ks deployed b))"
proof (induction ks arbitrary: deployed b)
  case (Cons k ks)
  show ?case
  proof (cases "k \<in> set deployed \<and> list_ex (\<lambda>d. d \<notin> set deployed) (deps k)")
    case True
    with Cons.prems have "k \<notin> A" by (auto simp: closed_keys_def list_ex_iff)
    with Cons.prems have "A \<subseteq> set (removeAll k deployed)" by auto
    with Cons.IH [OF Cons.prems(1) this, of True] True show ?thesis by simp
  next
    case False
    with Cons show ?thesis by auto
  qed
qed simp

text \<open>A pass that drops nothing has visited only services with satisfied dependencies.\<close>

lemma drop_range_True: "snd (drop_range deps ks deployed True)"
  by (induction ks arbitrary: deployed) auto

lemma drop_range_stable:
  "\<not> snd (drop_range deps ks deployed b) \<Longrightarrow>
     fst (drop_range deps ks deployed b) = deployed
     \<and> (\<forall>k\<in>set ks. k \<in> set deployed \<longrightarrow> set (deps k) \<subseteq> set deployed)"
proof (induction ks)
  case (Cons k ks)
  then show ?case
    using drop_range_True by (auto simp: list_ex_iff split: if_splits)
qed simp

lemma drop_loop_props:
  assumes "\<And>xs. set (perm xs) = set xs"
  shows "set (drop_loop perm deps deployed) \<subseteq> set deployed
         \<and> closed_keys deps (set (drop_loop perm deps deployed))
         \<and> (\<forall>A. closed_keys deps A \<and> A \<subseteq> set deployed \<longrightarrow> A \<subseteq> set (drop_loop perm deps deployed))
         \<and> (distinct deployed \<longrightarrow> distinct (drop_loop perm deps deployed))"
  using assms
proof (induction perm deps deployed rule: drop_loop.induct)
  case (1 perm deps deployed)
  obtain d' b where step: "drop_range deps (perm deployed) deployed False = (d', b)"
    by (cases "drop_range deps (perm deployed) deployed False")
  note sub = drop_range_subset [of deps "perm deployed" deployed False, unfolded step fst_conv]
  note keep = drop_range_keeps_closed [of deps _ deployed "perm deployed" False, unfolded step fst_conv]
  note dist = drop_range_distinct [of deployed deps "perm deployed" False, unfolded step fst_conv]
  show ?case
  proof (cases b)
    case True
    have "drop_loop perm deps deployed = drop_loop perm deps d'"
      by (simp add: drop_loop.simps [of perm deps deployed] step True)
    with "1.IH" [OF step [symmetric] True "1.prems"] sub keep dist show ?thesis by auto
  next
    case False
    then have "drop_loop perm deps deployed = d'" by (simp add: drop_loop.simps [of perm deps deployed] step)
    moreover have "d' = deployed" "closed_keys deps (set deployed)"
      using drop_range_stable [of deps "perm deployed" deployed False] step False "1.prems" [of deployed]
      by (auto simp: closed_keys_def)
    ultimately show ?thesis by simp
  qed
qed

text \<open>
  The loop computes the largest closed subset: the services all of whose direct and transitive
  dependencies were deployed to begin with.
\<close>

lemma set_drop_loop:
  assumes "\<And>xs. set (perm xs) = set xs"
  shows "set (drop_loop perm deps deployed) =
           {k \<in> set deployed. \<forall>d. (k, d) \<in> {(a, b). b \<in> set (deps a)}\<^sup>+ \<longrightarrow> d \<in> set deployed}"
    (is "?S = ?G")
proof
  note props = drop_loop_props [of perm deps deployed, OF assms]
  have "d \<in> ?S" if "(k, d) \<in> {(a, b). b \<in> set (deps a)}\<^sup>+" "k \<in> ?S" for k d
    using that
  proof (induction rule: trancl_induct)
    case (base y)
    then show ?case using props by (auto simp: closed_keys_def)
  next
    case (step y z)
    then show ?case using props by (auto simp: closed_keys_def)
  qed
  with props show "?S \<subseteq> ?G" by blast
  have "closed_keys deps ?G"
    by (auto simp: closed_keys_def intro: trancl_into_trancl2 r_into_trancl)
  with props show "?G \<subseteq> ?S" by blast
qed

section \<open>The counts\<close>

lemma rekey_ServiceKey [simp]: "rekey (ServiceKey ns n) = ServiceKey ns n"
  by (simp add: rekey_def)

lemma get_dependents:
  "get_or [] (alookup (dependents desired)) k =
     concat (map (\<lambda>svc. map (\<lambda>_. svc_key svc) (filter (\<lambda>d. dep_key d = k) (svc_DependsOn svc))) desired)"
proof -
  have inner: "get_or [] (alookup (fold (\<lambda>d. aappend (dep_key d) a) ds al)) k
      = get_or [] (alookup al) k @ map (\<lambda>_. a) (filter (\<lambda>d. dep_key d = k) ds)" for a ds al
    by (induction ds arbitrary: al) (auto simp: get_aappend)
  have "get_or [] (alookup (fold (\<lambda>svc. fold (\<lambda>d. aappend (dep_key d) (svc_key svc)) (svc_DependsOn svc))
            desired al)) k
      = get_or [] (alookup al) k @
        concat (map (\<lambda>svc. map (\<lambda>_. svc_key svc) (filter (\<lambda>d. dep_key d = k) (svc_DependsOn svc))) desired)"
    for al
    by (induction desired arbitrary: al) (simp_all add: inner)
  then show ?thesis by (simp add: dependents_def)
qed

lemma get_fold_decrement:
  "(\<And>x. x \<in> set xs \<Longrightarrow> rekey x = x) \<Longrightarrow>
     get_or 0 (fold decrement xs m) s = get_or 0 m s - int (count_list xs s)"
  by (induction xs arbitrary: m) (auto simp: decrement_def get_or_def)

lemma count_list_replicate_map: "count_list (map (\<lambda>_. a) xs) s = (if a = s then length xs else 0)"
  by (induction xs) auto

lemma count_list_concat: "count_list (concat xss) s = sum_list (map (\<lambda>xs. count_list xs s) xss)"
  by (induction xss) auto

lemma count_list_dependents:
  assumes "distinct (map svc_key desired)" and "s \<in> set desired"
  shows "count_list (get_or [] (alookup (dependents desired)) k) (svc_key s) = count_list (dep_keys s) k"
proof -
  have "count_list (get_or [] (alookup (dependents desired)) k) (svc_key s)
      = sum_list (map (\<lambda>svc. if svc_key svc = svc_key s
                     then length (filter (\<lambda>d. dep_key d = k) (svc_DependsOn svc)) else 0) desired)"
    by (simp add: get_dependents count_list_concat o_def count_list_replicate_map)
  also have "\<dots> = sum_list (map (\<lambda>svc. if svc = s
                     then length (filter (\<lambda>d. dep_key d = k) (svc_DependsOn s)) else 0) desired)"
    using assms by (intro arg_cong [where f = sum_list] map_cong refl) (auto dest: distinct_map_eqD)
  also have "\<dots> = length (filter (\<lambda>d. dep_key d = k) (svc_DependsOn s))"
    using assms by (simp add: sum_list_distinct_conv_sum_set distinct_map)
  also have "\<dots> = count_list (dep_keys s) k"
    by (induction "svc_DependsOn s" arbitrary: s) (simp_all add: count_list_eq_length_filter filter_map o_def eq_commute)
  finally show ?thesis .
qed

lemma sum_count_list:
  "distinct ks \<Longrightarrow> sum_list (map (count_list xs) ks) = length (filter (\<lambda>x. x \<in> set ks) xs)"
proof (induction ks)
  case (Cons k ks)
  have "length (filter (\<lambda>x. x = k \<or> x \<in> set ks) xs)
      = count_list xs k + length (filter (\<lambda>x. x \<in> set ks) xs)"
    using Cons.prems by (induction xs) auto
  with Cons show ?case by simp
qed simp

text \<open>
  After the decrements the count of a service is its number of dependencies that are not among
  the remaining deployed services.
\<close>

lemma get_dependsOnCount_final:
  assumes keys: "distinct (map svc_key desired)" and s: "s \<in> set desired"
    and ks: "distinct ks" "set ks \<subseteq> svc_key ` set desired"
  shows "get_or 0 (fold (\<lambda>svc. fold decrement (get_or [] (alookup (dependents desired)) (rekey svc))) ks
              (dependsOnCount desired)) (svc_key s)
         = int (length (filter (\<lambda>d. d \<notin> set ks) (dep_keys s)))"
proof -
  have rekeys: "rekey x = x" if "x \<in> set (get_or [] (alookup (dependents desired)) k)" for x k
    using that by (auto simp: get_dependents)
  have "get_or 0 (fold (\<lambda>svc. fold decrement (get_or [] (alookup (dependents desired)) (rekey svc))) ks m) (svc_key s)
      = get_or 0 m (svc_key s) - int (sum_list (map (count_list (dep_keys s)) ks))" for m
    using ks(2)
  proof (induction ks arbitrary: m)
    case (Cons k ks)
    from Cons.prems have "rekey k = k" by auto
    with Cons show ?case
      by (simp add: get_fold_decrement rekeys count_list_dependents [OF keys s])
  qed simp
  moreover have "get_or 0 (dependsOnCount desired) (svc_key s) = int (length (dep_keys s))"
    using index_by_distinct [OF keys s, of "\<lambda>svc. int (length (svc_DependsOn svc))"]
    by (simp add: dependsOnCount_def)
  moreover have "length (dep_keys s) = length (filter (\<lambda>d. d \<in> set ks) (dep_keys s))
      + length (filter (\<lambda>d. d \<notin> set ks) (dep_keys s))"
    by (rule sum_length_filter_compl [symmetric])
  ultimately show ?thesis by (simp only: sum_count_list [OF ks(1)])
qed

section \<open>Eligible services\<close>

lemma serviceIdx_None: "serviceIdx desired k = None \<longleftrightarrow> k \<notin> svc_key ` set desired"
proof -
  have "(\<lambda>(i, svc). svc_key svc) ` set (enumerate 0 desired) = svc_key ` set (map snd (enumerate 0 desired))"
    by (force simp del: map_snd_enumerate)
  then show ?thesis by (simp add: serviceIdx_def index_by_None)
qed

lemma serviceIdx_deps:
  assumes "distinct (map svc_key desired)" and "s \<in> set desired"
  shows "desired ! get_or 0 (serviceIdx desired) (svc_key s) = s"
proof -
  from assms(2) obtain i where i: "serviceIdx desired (svc_key s) = Some i"
    using serviceIdx_None [of desired "svc_key s"] by (cases "serviceIdx desired (svc_key s)") auto
  then obtain s' where "(i, s') \<in> set (enumerate 0 desired)" "svc_key s' = svc_key s"
    unfolding serviceIdx_def by (auto dest!: index_by_Some_ex)
  moreover from this have "desired ! i = s'" "s' \<in> set desired" by (auto simp: in_set_enumerate_eq)
  ultimately show ?thesis using i assms distinct_map_eqD [OF assms(1)] by simp
qed

lemma absent_dependency_None:
  "absent_dependency desired = None \<longleftrightarrow> snd ` service_deps desired \<subseteq> svc_key ` set desired"
proof -
  have "absent_dependency desired = None \<longleftrightarrow>
      concat (map (\<lambda>svc. map (Pair (svc_key svc))
        (filter (\<lambda>d. serviceIdx desired d = None) (dep_keys svc))) desired) = []"
    by (simp only: absent_dependency_def split: list.split) simp
  then show ?thesis by (simp add: service_deps_defined serviceIdx_None filter_empty_conv)
qed

lemma absent_dependency_Some:
  assumes "absent_dependency desired = Some (s, d)"
  shows "(s, d) \<in> service_deps desired \<and> d \<notin> svc_key ` set desired"
proof -
  from assms have "(s, d) \<in> set (concat (map (\<lambda>svc. map (Pair (svc_key svc))
      (filter (\<lambda>d. serviceIdx desired d = None) (dep_keys svc))) desired))"
    unfolding absent_dependency_def by (cases "concat (map (\<lambda>svc. map (Pair (svc_key svc))
      (filter (\<lambda>d. serviceIdx desired d = None) (dep_keys svc))) desired)") auto
  then show ?thesis by (auto simp: serviceIdx_None service_deps_def)
qed

text \<open>Two relations that agree on a closed set have the same paths out of it.\<close>

lemma trancl_agree:
  assumes "(a, b) \<in> R\<^sup>+" and "a \<in> K"
    and agree: "\<And>x y. x \<in> K \<Longrightarrow> (x, y) \<in> R \<Longrightarrow> (x, y) \<in> S \<and> y \<in> K"
  shows "(a, b) \<in> S\<^sup>+ \<and> b \<in> K"
  using assms(1,2)
proof (induction rule: trancl_induct)
  case (base y)
  with agree show ?case by auto
next
  case (step y z)
  with agree show ?case by (auto intro: trancl_into_trancl)
qed

lemma all_deps_trancl:
  "(\<forall>d. (k, d) \<in> R \<longrightarrow> P d \<and> (\<forall>e. (d, e) \<in> R\<^sup>+ \<longrightarrow> P e)) \<longleftrightarrow> (\<forall>d. (k, d) \<in> R\<^sup>+ \<longrightarrow> P d)"
  by (metis r_into_trancl trancl_into_trancl2 tranclD rtranclD)

lemma FilterServiceDependencies_spec:
  assumes keys: "distinct (map svc_key desired)"
    and defined: "snd ` service_deps desired \<subseteq> svc_key ` set desired"
    and perm: "\<And>xs. mset (perm xs) = mset xs"
    and fetch: "fetchServiceSet c systemNamespace mcs cd = Inr sset"
  shows "FilterServiceDependencies perm c systemNamespace mcs cd desired =
           Inr (filter (\<lambda>s. \<forall>d. (svc_key s, d) \<in> (service_deps desired)\<^sup>+ \<longrightarrow> at_desired sset desired d) desired)"
proof -
  let ?K = "svc_key ` set desired"
  let ?deps = "\<lambda>k. dep_keys (desired ! get_or 0 (serviceIdx desired) k)"
  let ?D = "filter (at_desired sset desired) (perm (remdups (map svc_key desired)))"
  let ?L = "drop_loop perm ?deps ?D"
  let ?R = "{(a, b). b \<in> set (?deps a)}"
  note perm_set = mset_eq_setD [OF perm]
  have D: "set ?D = {k \<in> ?K. at_desired sset desired k}" "distinct ?D"
    using perm [of "remdups (map svc_key desired)"] perm_set
    by (auto simp: distinct_filter mset_eq_imp_distinct_iff)
  have rel: "(x, y) \<in> ?R \<longleftrightarrow> (x, y) \<in> service_deps desired" if "x \<in> ?K" for x y
    using that serviceIdx_deps [OF keys] distinct_map_eqD [OF keys]
    by (fastforce simp: service_deps_def)
  have stay: "y \<in> ?K" if "(x, y) \<in> service_deps desired" for x y
    using defined that by force
  have trancl: "(a, b) \<in> ?R\<^sup>+ \<longleftrightarrow> (a, b) \<in> (service_deps desired)\<^sup>+" if "a \<in> ?K" for a b
    using trancl_agree [of a b ?R ?K "service_deps desired"]
      trancl_agree [of a b "service_deps desired" ?K ?R] rel stay that by blast
  have L: "k \<in> set ?L \<longleftrightarrow> at_desired sset desired k
      \<and> (\<forall>d. (k, d) \<in> (service_deps desired)\<^sup>+ \<longrightarrow> at_desired sset desired d)" if "k \<in> ?K" for k
    using that stay by (simp only: set_drop_loop [OF perm_set] D(1) mem_Collect_eq trancl) (meson tranclD2)
  have Lsub: "set ?L \<subseteq> ?K" and Ldist: "distinct ?L"
    using drop_loop_props [of perm ?deps ?D, OF perm_set] D by auto
  have count: "get_or 0 (fold (\<lambda>svc. fold decrement (get_or [] (alookup (dependents desired)) (rekey svc)))
         (perm ?L) (dependsOnCount desired)) (svc_key s) \<le> 0
      \<longleftrightarrow> (\<forall>d. (svc_key s, d) \<in> (service_deps desired)\<^sup>+ \<longrightarrow> at_desired sset desired d)"
    if s: "s \<in> set desired" for s
  proof -
    have "distinct (perm ?L)" using perm Ldist by (metis mset_eq_imp_distinct_iff)
    moreover have "set (perm ?L) \<subseteq> ?K" using perm_set Lsub by blast
    ultimately have "get_or 0 (fold (\<lambda>svc. fold decrement (get_or [] (alookup (dependents desired)) (rekey svc)))
         (perm ?L) (dependsOnCount desired)) (svc_key s) \<le> 0 \<longleftrightarrow> (\<forall>d\<in>set (dep_keys s). d \<in> set ?L)"
      by (simp add: get_dependsOnCount_final [OF keys s] perm_set filter_empty_conv)
    also have "\<dots> \<longleftrightarrow> (\<forall>d. (svc_key s, d) \<in> service_deps desired \<longrightarrow> d \<in> set ?L)"
    proof -
      have "d \<in> set (dep_keys s) \<longleftrightarrow> (svc_key s, d) \<in> service_deps desired" for d
        using rel [of "svc_key s" d] s by (simp add: serviceIdx_deps [OF keys s])
      then show ?thesis by blast
    qed
    also have "\<dots> \<longleftrightarrow> (\<forall>d. (svc_key s, d) \<in> service_deps desired \<longrightarrow> at_desired sset desired d
      \<and> (\<forall>e. (d, e) \<in> (service_deps desired)\<^sup>+ \<longrightarrow> at_desired sset desired e))"
      by (intro iff_allI imp_cong refl L) (rule stay)
    finally show ?thesis unfolding all_deps_trancl .
  qed
  have "absent_dependency desired = None" using defined by (simp add: absent_dependency_None)
  then show ?thesis
    unfolding FilterServiceDependencies_def
    by (simp add: fetch Let_def count cong: filter_cong)
qed

text \<open>
  C4: FilterServiceDependencies returns, in the owner's order, exactly the desired services all
  of whose direct and transitive dependencies are at their desired version, whatever order Go
  visits its maps in: one service that is still being upgraded locks everything behind it, however
  long the chain, and nothing else is locked.
\<close>

theorem FilterServiceDependencies_correct:
  assumes "distinct (map svc_key desired)"
    and "snd ` service_deps desired \<subseteq> svc_key ` set desired"
    and "\<And>xs. mset (perm xs) = mset xs"
    and "fetchServiceSet c systemNamespace mcs cd = Inr sset"
  shows "FilterServiceDependencies perm c systemNamespace mcs cd desired =
           Inr (filter (\<lambda>s. \<forall>d. (svc_key s, d) \<in> (service_deps desired)\<^sup>+ \<longrightarrow> at_desired sset desired d) desired)"
  using assms by (rule FilterServiceDependencies_spec)

text \<open>A deployment of one ServiceSet with two services, used to evaluate the theorems.\<close>

definition example_state :: "string \<Rightarrow> string \<Rightarrow> ServiceStateValue \<Rightarrow> ServiceState" where
  "example_state n v st = \<lparr>ss_Type = ''Helm'', ss_Version = v, ss_Name = n, ss_Namespace = [], ss_Template = [],
     ss_State = st, ss_FailureMessage = [], ss_LastDeployedHash = [], ss_Conditions = []\<rparr>"

definition example_stored :: "string \<Rightarrow> string \<Rightarrow> ServiceWithValues" where
  "example_stored n v = \<lparr>swv_HelmOptions = None, swv_Version = v, swv_HelmAction = [], swv_Name = n,
     swv_Namespace = [], swv_Template = [], swv_Values = [], swv_ValuesFrom = []\<rparr>"

definition example_set :: "ServiceWithValues list \<Rightarrow> ServiceState list \<Rightarrow> ServiceSet" where
  "example_set spec status =
     empty_service_set
       \<lparr>sset_Namespace := ''ns'',
        sset_Spec := sset_Spec empty_service_set \<lparr>sss_Cluster := ''cd'', sss_Services := spec\<rparr>,
        sset_Status := sset_Status empty_service_set \<lparr>ssst_Services := status\<rparr>\<rparr>"

definition example_client :: "ServiceSet list \<Rightarrow> svc_client" where
  "example_client store =
     \<lparr>getServiceTemplate = (\<lambda>_. Inl NotFound), getServiceTemplateChain = (\<lambda>_. Inl NotFound),
      getServiceSet = (\<lambda>_. Inl NotFound), getProviderSelector = (\<lambda>_. Inl NotFound),
      listServiceSets = (\<lambda>ns p. Inr (filter (\<lambda>s. sset_Namespace s = ns \<and> p s) store))\<rparr>"

theorem FilterServiceDependencies_correct_witness:
  "let desired = [example_service ''b'' [''a''], example_service ''a'' []];
       sset = example_set [example_stored ''a'' ''a''] [example_state ''a'' ''a'' ServiceStateProvisioning];
       filtered = FilterServiceDependencies rev (example_client [sset]) ''ns'' None None desired
   in filtered = Inr [example_service ''a'' []]
      \<and> filtered = Inr (filter (\<lambda>s. \<forall>d. (svc_key s, d) \<in> (service_deps desired)\<^sup>+ \<longrightarrow> at_desired sset desired d) desired)"
proof -
  let ?desired = "[example_service ''b'' [''a''], example_service ''a'' []]"
  let ?sset = "example_set [example_stored ''a'' ''a''] [example_state ''a'' ''a'' ServiceStateProvisioning]"
  have fetch: "fetchServiceSet (example_client [?sset]) ''ns'' None None = Inr ?sset"
    by (simp add: fetchServiceSet_def example_client_def example_set_def empty_service_set_def)
  have "FilterServiceDependencies rev (example_client [?sset]) ''ns'' None None ?desired
      = Inr [example_service ''a'' []]"
    unfolding FilterServiceDependencies_def fetch bindE_simps
    by (simp add: absent_dependency_def serviceIdx_def index_by_def ServiceKey_def effectiveNamespace_def
        at_desired_def example_set_def example_state_def empty_service_set_def AtDesiredVersion_def
        drop_loop.simps dependsOnCount_def get_or_def)
  moreover have "distinct (map svc_key ?desired)" by (simp add: ServiceKey_def)
  moreover have "snd ` service_deps ?desired \<subseteq> svc_key ` set ?desired"
    by (simp add: service_deps_defined ServiceKey_def)
  ultimately show ?thesis
    using FilterServiceDependencies_correct [of ?desired rev "example_client [?sset]" "''ns''" None None ?sset] fetch
    by (simp only: Let_def mset_rev simp_thms)
qed

text \<open>
  A dependency on a service that is not in the desired list is an error, and the error
  names a service of the list and a dependency of it that is indeed absent; it is reported before
  the ServiceSet is read.
\<close>

theorem FilterServiceDependencies_absent:
  "(\<exists>s d. FilterServiceDependencies perm c systemNamespace mcs cd desired = Inl (DependencyNotDesired s d)
        \<and> (s, d) \<in> service_deps desired \<and> d \<notin> svc_key ` set desired)
   \<longleftrightarrow> \<not> snd ` service_deps desired \<subseteq> svc_key ` set desired"
proof (cases "absent_dependency desired")
  case None
  then show ?thesis using absent_dependency_None [of desired] by force
next
  case (Some p)
  obtain s d where p: "p = (s, d)" by (cases p)
  with Some have "(s, d) \<in> service_deps desired \<and> d \<notin> svc_key ` set desired"
    by (simp add: absent_dependency_Some)
  moreover from this have "\<not> snd ` service_deps desired \<subseteq> svc_key ` set desired" by force
  ultimately show ?thesis using Some p by (auto simp: FilterServiceDependencies_def)
qed

section \<open>Witnesses for the theorems on keys and versions\<close>

theorem FullyDeployed_iff_witness:
  "let sset = (example_set [example_stored ''a'' ''1''] [example_state ''a'' ''1'' ServiceStateDeployed]);
       sset = sset\<lparr>sset_Status := (sset_Status sset)\<lparr>ssst_Deployed := True\<rparr>\<rparr>
   in FullyDeployed sset"
  unfolding Let_def
  by (subst FullyDeployed_iff) (simp_all add: example_set_def example_stored_def example_state_def)

theorem fillServiceVersions_resolved_witness:
  "fillServiceVersions (example_client []) ''ns'' [(example_service ''a'' [])\<lparr>svc_Version := ''1''\<rparr>]
     = Inr [(example_service ''a'' [])\<lparr>svc_Version := ''1''\<rparr>]"
proof -
  have "fillServiceVersions (example_client []) ''ns'' [(example_service ''a'' [])\<lparr>svc_Version := ''1''\<rparr>]
     = Inr [(example_service ''a'' [])\<lparr>svc_Version := ''1''\<rparr>]" by code_simp
  from fillServiceVersions_resolved [OF this] show ?thesis by blast
qed

theorem fetchServiceSet_exact_witness:
  "let mine = example_set [] []; other = mine\<lparr>sset_Spec := (sset_Spec mine)\<lparr>sss_MultiClusterService := ''m''\<rparr>\<rparr>;
       cd = \<lparr>cd_Name = ''cd'', cd_Namespace = ''ns'', cd_UID = ''u'', cd_Labels = [], cd_Deleting = False,
             cd_Template = [], cd_Credential = [], cd_DataSource = [], cd_DryRun = False, cd_Config = None, cd_ServiceSpec = undefined,
             cd_AvailableUpgrades = [], cd_StatusRegion = []\<rparr>
   in fetchServiceSet (example_client [other, mine]) ''kcm-system'' None (Some cd) = Inr mine"
proof -
  have law: "listServiceSets (example_client store) ns p = Inr (filter (\<lambda>s. sset_Namespace s = ns \<and> p s) store)" for store ns p
    by (simp add: example_client_def)
  show ?thesis
    unfolding Let_def
    by (subst fetchServiceSet_exact [OF law refl refl refl]) (simp_all add: example_set_def empty_service_set_def)
qed

end
