(* ===== verification/ServiceOrder.thy ===== *)
theory ServiceOrder
  imports FilterDependencies
begin

text \<open>
  The order of the ServiceSet spec: \<open>sortByDependency\<close> and \<open>BuildServicesList\<close> of
  \<^verbatim>\<open>internal/serviceset/util.go\<close>. The slice \<open>seen\<close> is a list of booleans updated by index. What
  the caller needs of the order is the interface \<open>dependency_order\<close>.
\<close>

section \<open>Definitions\<close>

text \<open>
  The closure \<open>place\<close> and its loop over the dependencies of a service. It is only called
  with indices of the slice, which is what the guard says; \<open>index\<close> is \<open>serviceIdx\<close>.
\<close>

function (sequential) place ::
  "Service list \<Rightarrow> nat \<Rightarrow> bool list \<Rightarrow> Service list \<Rightarrow> bool list \<times> Service list"
and place_range ::
  "Service list \<Rightarrow> ServiceDependsOn list \<Rightarrow> bool list \<Rightarrow> Service list \<Rightarrow> bool list \<times> Service list"
where
  "place services i seen ordered =
     (if \<not> i < length seen \<or> seen ! i then (seen, ordered)
      else case place_range services (svc_DependsOn (services ! i)) (seen[i := True]) ordered of
             (seen', ordered') \<Rightarrow> (seen', ordered' @ [services ! i]))"
| "place_range services [] seen ordered = (seen, ordered)"
| "place_range services (dep # deps) seen ordered =
     (case serviceIdx services (dep_key dep) of
        None \<Rightarrow> place_range services deps seen ordered
      | Some j \<Rightarrow>
          (case place services j seen ordered of
             (seen', ordered') \<Rightarrow> place_range services deps seen' ordered'))"
  by pat_completeness auto

definition unseen :: "bool list \<Rightarrow> nat" where
  "unseen seen = length (filter Not seen)"

lemma unseen_update: "i < length seen \<Longrightarrow> \<not> seen ! i \<Longrightarrow> unseen (seen[i := True]) < unseen seen"
  unfolding unseen_def
proof (induction seen arbitrary: i)
  case (Cons b seen)
  then show ?case by (cases i) (auto simp: nth_Cons')
qed simp

lemma place_unseen_dom:
  "place_place_range_dom (Inl (services, i, seen, ordered)) \<Longrightarrow>
     unseen (fst (place services i seen ordered)) \<le> unseen seen"
  "place_place_range_dom (Inr (services, deps, seen, ordered)) \<Longrightarrow>
     unseen (fst (place_range services deps seen ordered)) \<le> unseen seen"
proof (induction services i seen ordered and services deps seen ordered
    rule: place_place_range.pinduct)
  case (1 services i seen ordered)
  then show ?case
    using unseen_update [of i seen] by (fastforce simp: place.psimps split: prod.split)
next
  case (2 services seen ordered)
  then show ?case by (simp add: place_range.psimps)
next
  case (3 services dep deps seen ordered)
  then show ?case
    by (force simp: place_range.psimps split: prod.split option.split)
qed

termination place
proof (relation "measures
        [\<lambda>x. case x of Inl (services, i, seen, ordered) \<Rightarrow> unseen seen
              | Inr (services, deps, seen, ordered) \<Rightarrow> unseen seen,
         \<lambda>x. case x of Inl _ \<Rightarrow> 0 | Inr (services, deps, _) \<Rightarrow> Suc (length deps)]", goal_cases)
  case 1
  show ?case by simp
next
  case (2 services i seen ordered)
  then show ?case using unseen_update [of i seen] by auto
next
  case (3 services dep deps seen ordered)
  then show ?case by simp
next
  case (4 services dep deps seen ordered j)
  then show ?case by simp
next
  case (5 services dep deps seen ordered j seen' ordered')
  then have "unseen seen' \<le> unseen seen"
    using place_unseen_dom(1) [of services j seen ordered] by (metis fst_conv)
  then show ?case by auto
qed

definition sortByDependency :: "Service list \<Rightarrow> Service list" where
  "sortByDependency services =
     (if length services < 2 then services
      else snd (fold (\<lambda>i (seen, ordered). place services i seen ordered) [0..<length services]
                  (replicate (length services) False, [])))"

text \<open>
  The final stable sort of \<open>BuildServicesList\<close>: by the rank of a service in the ordered
  desired services (a service without a rank reads 0).
\<close>

definition sort_by_rank :: "Service list \<Rightarrow> ServiceWithValues list \<Rightarrow> ServiceWithValues list" where
  "sort_by_rank ordered result = sort_key (\<lambda>s. get_or 0 (serviceIdx ordered) (swv_key s)) result"

text \<open>
  The services of the result before it is sorted: the computed ones, then the stored ones that
  are still desired and not among them.
\<close>

definition merged_services ::
  "ServiceWithValues list \<Rightarrow> ServiceWithValues list \<Rightarrow> Service list \<Rightarrow> ServiceWithValues list" where
  "merged_services stored filtered desired =
     filtered @ filter (\<lambda>s. swv_key s \<in> set (map svc_key desired)
                           \<and> swv_key s \<notin> set (map swv_key filtered)) stored"

text \<open>
  \<open>slices.SortFunc\<close> sorts a copy of the desired services by key. It is not a stable sort,
  which makes no difference as long as the keys of the desired services are distinct.
\<close>

definition BuildServicesList ::
  "ServiceWithValues list \<Rightarrow> ServiceWithValues list \<Rightarrow> Service list \<Rightarrow> ServiceWithValues list" where
  "BuildServicesList stored filtered desired =
     sort_by_rank (sortByDependency (sort_key svc_key desired)) (merged_services stored filtered desired)"

section \<open>The order is a permutation\<close>

lemma place_length:
  "length (fst (place services i seen ordered)) = length seen"
  "length (fst (place_range services deps seen ordered)) = length seen"
  by (induction services i seen ordered and services deps seen ordered rule: place_place_range.induct)
    (auto split: prod.splits option.splits)

lemma place_mono:
  "j < length seen \<Longrightarrow> seen ! j \<Longrightarrow> fst (place services i seen ordered) ! j"
  "j < length seen \<Longrightarrow> seen ! j \<Longrightarrow> fst (place_range services deps seen ordered) ! j"
proof (induction services i seen ordered and services deps seen ordered rule: place_place_range.induct)
  case (1 services i seen ordered)
  then show ?case by (auto simp: nth_list_update split: prod.splits)
next
  case (3 services dep deps seen ordered)
  then show ?case
    using place_length(1) [of services _ seen ordered]
    by (fastforce split: prod.splits option.splits)
qed simp

definition newly :: "bool list \<Rightarrow> bool list \<Rightarrow> nat set" where
  "newly seen seen' = {j. j < length seen \<and> seen' ! j \<and> \<not> seen ! j}"

lemma newly_finite [simp]: "finite (newly seen seen')"
  by (simp add: newly_def)

lemma newly_refl [simp]: "newly seen seen = {}"
  by (auto simp: newly_def)

lemma newly_trans:
  assumes "length seen' = length seen" and "\<And>j. j < length seen \<Longrightarrow> seen ! j \<Longrightarrow> seen' ! j"
    and "\<And>j. j < length seen \<Longrightarrow> seen' ! j \<Longrightarrow> seen'' ! j"
  shows "newly seen seen'' = newly seen seen' \<union> newly seen' seen''"
    and "newly seen seen' \<inter> newly seen' seen'' = {}"
  using assms by (auto simp: newly_def)

lemma place_mset:
  "mset (snd (place services i seen ordered)) =
     mset ordered + image_mset ((!) services) (mset_set (newly seen (fst (place services i seen ordered))))"
  "mset (snd (place_range services deps seen ordered)) =
     mset ordered + image_mset ((!) services) (mset_set (newly seen (fst (place_range services deps seen ordered))))"
proof (induction services i seen ordered and services deps seen ordered rule: place_place_range.induct)
  case (1 services i seen ordered)
  show ?case
  proof (cases "\<not> i < length seen \<or> seen ! i")
    case False
    obtain seen' ord' where p: "place_range services (svc_DependsOn (services ! i)) (seen[i := True]) ordered = (seen', ord')"
      by (cases "place_range services (svc_DependsOn (services ! i)) (seen[i := True]) ordered")
    have "seen' ! i"
      using place_mono(2) [of i "seen[i := True]" services "svc_DependsOn (services ! i)" ordered] p False by simp
    with False have "newly seen seen' = insert i (newly (seen[i := True]) seen')"
      by (auto simp: newly_def nth_list_update)
    moreover have "i \<notin> newly (seen[i := True]) seen'" using False by (simp add: newly_def)
    ultimately show ?thesis using "1.IH" [OF False] p False by simp
  qed simp
next
  case (3 services dep deps seen ordered)
  show ?case
  proof (cases "serviceIdx services (dep_key dep)")
    case None
    with 3 show ?thesis by simp
  next
    case (Some j)
    obtain s1 o1 where p: "place services j seen ordered = (s1, o1)" by (cases "place services j seen ordered")
    obtain s2 o2 where r: "place_range services deps s1 o1 = (s2, o2)" by (cases "place_range services deps s1 o1")
    have len: "length s1 = length seen" using place_length(1) [of services j seen ordered] p by simp
    have "newly seen s2 = newly seen s1 \<union> newly s1 s2" "newly seen s1 \<inter> newly s1 s2 = {}"
      using newly_trans [OF len, of s2] place_mono(1) [of _ seen services j ordered]
        place_mono(2) [of _ s1 services deps o1] p r len by auto
    then have "mset_set (newly seen s2) = mset_set (newly seen s1) + mset_set (newly s1 s2)"
      by (simp add: mset_set_Union)
    with "3.IH"(2) [OF Some] "3.IH"(3) [OF Some p [symmetric]] Some p r show ?thesis by simp
  qed
qed simp

text \<open>All indices have been placed at the end of the outer loop.\<close>

lemma place_seen: "i < length seen \<Longrightarrow> fst (place services i seen ordered) ! i"
  using place_mono(2) [of i "seen[i := True]" services "svc_DependsOn (services ! i)" ordered]
  by (auto split: prod.splits)

abbreviation place_all :: "Service list \<Rightarrow> nat list \<Rightarrow> bool list \<times> Service list \<Rightarrow> bool list \<times> Service list" where
  "place_all services is st \<equiv> fold (\<lambda>i (seen, ordered). place services i seen ordered) is st"

lemma place_all_props:
  assumes "length seen = length services"
  shows "length (fst (place_all services is (seen, ordered))) = length services
    \<and> (\<forall>j<length services. seen ! j \<or> j \<in> set is \<longrightarrow> fst (place_all services is (seen, ordered)) ! j)
    \<and> mset (snd (place_all services is (seen, ordered))) =
        mset ordered + image_mset ((!) services) (mset_set (newly seen (fst (place_all services is (seen, ordered)))))"
  using assms
proof (induction "is" arbitrary: seen ordered)
  case (Cons i "is")
  obtain s1 o1 where p: "place services i seen ordered = (s1, o1)" by (cases "place services i seen ordered")
  let ?f = "fst (place_all services is (s1, o1))"
  have len: "length s1 = length seen" using place_length(1) [of services i seen ordered] p by simp
  note IH = Cons.IH [of s1 o1]
  have seen: "\<And>j. j < length seen \<Longrightarrow> seen ! j \<or> j = i \<Longrightarrow> s1 ! j"
    using place_mono(1) [of _ seen services i ordered] place_seen [of i seen services ordered] p by auto
  have "newly seen ?f = newly seen s1 \<union> newly s1 ?f" "newly seen s1 \<inter> newly s1 ?f = {}"
    using newly_trans [OF len, of ?f] seen IH Cons.prems len by auto
  then have "mset_set (newly seen ?f) = mset_set (newly seen s1) + mset_set (newly s1 ?f)"
    by (simp add: mset_set_Union)
  with IH seen place_mset(1) [of services i seen ordered] p len Cons.prems show ?case by auto
qed simp

lemma mset_sortByDependency [simp]: "mset (sortByDependency services) = mset services"
proof -
  let ?n = "length services"
  let ?r = "place_all services [0..<?n] (replicate ?n False, [])"
  note props = place_all_props [of "replicate ?n False" services "[0..<?n]" "[]"]
  have "newly (replicate ?n False) (fst ?r) = {0..<?n}"
    using props by (auto simp: newly_def)
  with props have "mset (snd ?r) = image_mset ((!) services) (mset_set {0..<?n})"
    by simp
  also have "\<dots> = mset services"
    by (metis map_nth mset_map mset_upt)
  finally show ?thesis by (simp add: sortByDependency_def)
qed

lemma set_sortByDependency [simp]: "set (sortByDependency services) = set services"
  by (rule mset_eq_setD) simp

section \<open>The order is topological\<close>

text \<open>
  The services that are seen but not yet ordered are the ones the recursion is inside of. The
  invariant says that the ordered part contains the dependencies of its members, in front of them;
  the services on the stack all lead to the one being placed, so that in an acyclic graph none of
  them can be a dependency of it.
\<close>

definition depends_first :: "Service list \<Rightarrow> bool" where
  "depends_first xs = sorted_wrt (\<lambda>a b. svc_key b \<notin> set (dep_keys a)) xs"

definition seen_services :: "Service list \<Rightarrow> bool list \<Rightarrow> Service set" where
  "seen_services services seen = {services ! j | j. j < length services \<and> seen ! j}"

definition place_inv :: "Service list \<Rightarrow> bool list \<Rightarrow> Service list \<Rightarrow> bool" where
  "place_inv services seen ordered \<longleftrightarrow>
     length seen = length services \<and> set ordered \<subseteq> seen_services services seen \<and> depends_first ordered
     \<and> (\<forall>a\<in>set ordered. \<forall>b\<in>set services. svc_key b \<in> set (dep_keys a) \<longrightarrow> b \<in> set ordered)"

definition stack :: "Service list \<Rightarrow> bool list \<Rightarrow> Service list \<Rightarrow> Service set" where
  "stack services seen ordered = seen_services services seen - set ordered"

lemma serviceIdx_Some:
  assumes "serviceIdx services k = Some j"
  shows "j < length services \<and> svc_key (services ! j) = k"
  using assms unfolding serviceIdx_def by (auto dest!: index_by_Some_ex simp: in_set_enumerate_eq)

lemma seen_services_update:
  assumes "i < length services" and "length seen = length services"
  shows "seen_services services (seen[i := True]) = insert (services ! i) (seen_services services seen)"
  using assms by (auto simp: seen_services_def nth_list_update)

lemma depends_first_snoc:
  assumes "depends_first xs" and "\<forall>a\<in>set xs. svc_key x \<notin> set (dep_keys a)"
  shows "depends_first (xs @ [x])"
  using assms by (simp add: depends_first_def sorted_wrt_append)

lemma place_inv_snoc:
  assumes "place_inv services seen ordered" and "x \<in> seen_services services seen" and "x \<notin> set ordered"
    and "\<forall>b\<in>set services. svc_key b \<in> set (dep_keys x) \<longrightarrow> b \<in> set ordered"
  shows "place_inv services seen (ordered @ [x])"
proof -
  have "x \<in> set services" using assms(2) by (auto simp: seen_services_def)
  then have "\<forall>a\<in>set ordered. svc_key x \<notin> set (dep_keys a)"
    using assms(1,3) unfolding place_inv_def by blast
  with assms show ?thesis unfolding place_inv_def by (simp add: depends_first_snoc)
qed

lemma stack_disjoint: "x \<in> stack services seen ordered \<Longrightarrow> x \<notin> set ordered"
  by (simp add: stack_def)

lemma stack_enter:
  assumes inv: "place_inv services seen ordered" and keys: "distinct (map svc_key services)"
    and i: "i < length services" "\<not> seen ! i"
  shows "place_inv services (seen[i := True]) ordered"
    and "stack services (seen[i := True]) ordered = insert (services ! i) (stack services seen ordered)"
    and "services ! i \<notin> seen_services services seen"
proof -
  have len: "length seen = length services" using inv by (simp add: place_inv_def)
  have "services ! j = services ! i \<Longrightarrow> j = i" if "j < length services" for j
    using nth_eq_iff_index_eq [of services j i] keys that i(1) by (auto simp: distinct_map)
  then show "services ! i \<notin> seen_services services seen"
    using i(2) by (auto simp: seen_services_def)
  with inv show "place_inv services (seen[i := True]) ordered"
    and "stack services (seen[i := True]) ordered = insert (services ! i) (stack services seen ordered)"
    by (auto simp: place_inv_def stack_def seen_services_update [OF i(1) len])
qed

lemma place_topological:
  fixes services :: "Service list"
  shows
  "distinct (map svc_key services) \<Longrightarrow> acyclic (service_deps services) \<Longrightarrow>
   place_inv services seen ordered \<Longrightarrow> i < length services \<Longrightarrow>
   (\<forall>s\<in>stack services seen ordered. (svc_key s, svc_key (services ! i)) \<in> (service_deps services)\<^sup>+) \<Longrightarrow>
   place services i seen ordered = (seen', ordered') \<Longrightarrow>
     place_inv services seen' ordered' \<and> stack services seen' ordered' = stack services seen ordered
     \<and> insert (services ! i) (set ordered) \<subseteq> set ordered'"
  "distinct (map svc_key services) \<Longrightarrow> acyclic (service_deps services) \<Longrightarrow>
   place_inv services seen ordered \<Longrightarrow>
   (\<forall>s\<in>stack services seen ordered. \<forall>d\<in>set deps. (svc_key s, dep_key d) \<in> (service_deps services)\<^sup>+) \<Longrightarrow>
   place_range services deps seen ordered = (seen', ordered') \<Longrightarrow>
     place_inv services seen' ordered' \<and> stack services seen' ordered' = stack services seen ordered
     \<and> {b \<in> set services. svc_key b \<in> set (map dep_key deps)} \<union> set ordered \<subseteq> set ordered'"
proof (induction services i seen ordered and services deps seen ordered
    arbitrary: seen' ordered' and seen' ordered' rule: place_place_range.induct)
  case (1 services i seen ordered)
  let ?x = "services ! i"
  have len: "length seen = length services" using "1.prems"(3) by (simp add: place_inv_def)
  show ?case
  proof (cases "seen ! i")
    case True
    with "1.prems" len have same: "seen' = seen" "ordered' = ordered" by simp_all
    have "?x \<in> seen_services services seen" using True "1.prems"(4) by (auto simp: seen_services_def)
    moreover have "?x \<notin> stack services seen ordered" using "1.prems"(2,5) by (auto simp: acyclic_def)
    ultimately show ?thesis using same "1.prems"(3) by (auto simp: stack_def)
  next
    case False
    then have guard: "\<not> (\<not> i < length seen \<or> seen ! i)" using len "1.prems"(4) by simp
    note enter = stack_enter [OF "1.prems"(3,1,4) False]
    have x: "?x \<in> set services" using "1.prems"(4) by simp
    have deps: "(svc_key ?x, dep_key d) \<in> service_deps services" if "d \<in> set (svc_DependsOn ?x)" for d
      using that x by (auto simp: service_deps_def)
    obtain o1 where r: "place_range services (svc_DependsOn ?x) (seen[i := True]) ordered = (seen', o1)"
      and o': "ordered' = o1 @ [?x]"
      using "1.prems"(6) guard by (auto split: prod.splits)
    have "\<forall>s\<in>stack services (seen[i := True]) ordered. \<forall>d\<in>set (svc_DependsOn ?x).
        (svc_key s, dep_key d) \<in> (service_deps services)\<^sup>+"
      using "1.prems"(5) deps unfolding enter(2) by (auto intro: trancl_into_trancl)
    from "1.IH" [OF guard "1.prems"(1,2) enter(1) this r]
    have inv: "place_inv services seen' o1" and st: "stack services seen' o1 = insert ?x (stack services seen ordered)"
      and sub: "{b \<in> set services. svc_key b \<in> set (dep_keys ?x)} \<union> set ordered \<subseteq> set o1"
      unfolding enter(2) by auto
    have x1: "?x \<in> seen_services services seen'" "?x \<notin> set o1" using st unfolding stack_def by auto
    have "place_inv services seen' ordered'"
      unfolding o' using place_inv_snoc [OF inv x1] sub by auto
    moreover have "stack services seen' ordered' = stack services seen ordered"
      using st x1 enter(3) by (auto simp: o' stack_def)
    ultimately show ?thesis using sub o' by auto
  qed
next
  case (2 services seen ordered)
  then show ?case by simp
next
  case (3 services dep deps seen ordered)
  show ?case
  proof (cases "serviceIdx services (dep_key dep)")
    case None
    then have "dep_key dep \<notin> svc_key ` set services" by (simp add: serviceIdx_None)
    then have "svc_key b \<noteq> dep_key dep" if "b \<in> set services" for b using imageI [OF that, of svc_key] by auto
    then have "{b \<in> set services. svc_key b \<in> set (map dep_key (dep # deps))}
        = {b \<in> set services. svc_key b \<in> set (map dep_key deps)}" by auto
    with "3.IH"(1) [OF None "3.prems"(1-3), of seen' ordered'] "3.prems"(4,5) None show ?thesis by simp
  next
    case (Some j)
    obtain s1 o1 where p: "place services j seen ordered = (s1, o1)" by (cases "place services j seen ordered")
    from "3.prems"(5) Some p have r: "place_range services deps s1 o1 = (seen', ordered')" by simp
    note j = serviceIdx_Some [OF Some]
    from "3.IH"(2) [OF Some "3.prems"(1-3) _ _ p] j "3.prems"(4)
    have P: "place_inv services s1 o1" "stack services s1 o1 = stack services seen ordered"
      "insert (services ! j) (set ordered) \<subseteq> set o1" by auto
    from "3.IH"(3) [OF Some p [symmetric] "3.prems"(1,2) P(1) _ r] P(2) "3.prems"(4)
    have R: "place_inv services seen' ordered'" "stack services seen' ordered' = stack services seen ordered"
      "{b \<in> set services. svc_key b \<in> set (map dep_key deps)} \<union> set o1 \<subseteq> set ordered'" by auto
    have "b = services ! j" if "b \<in> set services" "svc_key b = dep_key dep" for b
      using distinct_map_eqD [OF "3.prems"(1) that(1), of "services ! j"] that(2) j by simp
    then have "{b \<in> set services. svc_key b \<in> set (map dep_key (dep # deps))} \<union> set ordered \<subseteq> set ordered'"
      using P(3) R(3) by auto
    with R show ?thesis by blast
  qed
qed

lemma place_all_topological:
  assumes "distinct (map svc_key services)" and "acyclic (service_deps services)"
    and "place_inv services seen ordered" and "stack services seen ordered = {}"
    and "\<forall>i\<in>set is. i < length services"
  shows "case place_all services is (seen, ordered) of
           (seen', ordered') \<Rightarrow> place_inv services seen' ordered' \<and> stack services seen' ordered' = {}"
  using assms(3-5)
proof (induction "is" arbitrary: seen ordered)
  case (Cons i "is")
  obtain s1 o1 where p: "place services i seen ordered = (s1, o1)" by (cases "place services i seen ordered")
  with place_topological(1) [OF assms(1,2) Cons.prems(1) _ _ p] Cons.prems Cons.IH [of s1 o1]
  show ?case by simp
qed simp

lemma sortByDependency_depends_first:
  assumes "distinct (map svc_key services)" and "acyclic (service_deps services)"
  shows "depends_first (sortByDependency services)"
proof (cases "length services < 2")
  case True
  then have "services = [] \<or> (\<exists>s. services = [s])" by (cases services) auto
  then show ?thesis by (auto simp: sortByDependency_def depends_first_def)
next
  case False
  let ?n = "length services"
  have "seen_services services (replicate ?n False) = {}" by (auto simp: seen_services_def)
  then have "place_inv services (replicate ?n False) []" "stack services (replicate ?n False) [] = {}"
    by (simp_all add: place_inv_def stack_def depends_first_def)
  from place_all_topological [OF assms this, of "[0..<?n]"] False show ?thesis
    unfolding sortByDependency_def place_inv_def
    by (cases "place_all services [0..<?n] (replicate ?n False, [])") (simp del: place.simps)
qed

section \<open>The interface of a dependency order\<close>

text \<open>
  What the assembly of a ServiceSet spec relies on: the ordering function rearranges the services
  and, when their dependencies are acyclic, lists every dependency in front of its dependents.
\<close>

definition applied_in_order :: "Service list \<Rightarrow> ServiceWithValues list \<Rightarrow> bool" where
  "applied_in_order desired xs \<longleftrightarrow>
     sorted_wrt (\<lambda>a b. (swv_key a, swv_key b) \<notin> (service_deps desired)\<^sup>+) xs"

lemma service_deps_mset: "mset xs = mset ys \<Longrightarrow> service_deps xs = service_deps ys"
  by (auto simp: service_deps_def dest: mset_eq_setD)

lemma distinct_keys_mset:
  "mset xs = mset ys \<Longrightarrow> distinct (map svc_key xs) \<longleftrightarrow> distinct (map svc_key ys)"
  by (metis mset_eq_imp_distinct_iff mset_map)

locale dependency_order =
  fixes order_services :: "Service list \<Rightarrow> Service list"
  assumes order_mset: "mset (order_services xs) = mset xs"
    and order_depends_first:
      "distinct (map svc_key xs) \<Longrightarrow> acyclic (service_deps xs) \<Longrightarrow> depends_first (order_services xs)"
begin

lemma order_set: "set (order_services xs) = set xs"
  by (rule mset_eq_setD) (rule order_mset)

lemma rank_nth:
  assumes "distinct (map svc_key xs)" and "i < length xs"
  shows "serviceIdx (order_services xs) (svc_key (order_services xs ! i)) = Some i"
proof -
  let ?ys = "order_services xs"
  have keys: "distinct (map svc_key ?ys)"
    using assms(1) distinct_keys_mset [OF order_mset] by simp
  have i: "i < length ?ys" using assms(2) order_mset by (metis size_mset)
  then obtain j where j: "serviceIdx ?ys (svc_key (?ys ! i)) = Some j"
    using serviceIdx_None [of ?ys "svc_key (?ys ! i)"]
    by (cases "serviceIdx ?ys (svc_key (?ys ! i))") auto
  from serviceIdx_Some [OF this] i have "j = i"
    using nth_eq_iff_index_eq [OF keys, of j i] by simp
  with j show ?thesis by simp
qed

text \<open>A dependency has a smaller rank than any service that leads to it.\<close>

lemma rank_less_direct:
  assumes "distinct (map svc_key xs)" and "acyclic (service_deps xs)"
    and edge: "(a, b) \<in> service_deps xs" and b: "b \<in> svc_key ` set xs"
  shows "get_or 0 (serviceIdx (order_services xs)) b < get_or 0 (serviceIdx (order_services xs)) a"
proof -
  let ?ys = "order_services xs"
  have topo: "depends_first ?ys" by (rule order_depends_first [OF assms(1,2)])
  from edge obtain s where s: "s \<in> set ?ys" "svc_key s = a" "b \<in> set (dep_keys s)"
    by (auto simp: service_deps_def order_set)
  from s(1) obtain i where i: "i < length ?ys" "?ys ! i = s" by (auto simp: in_set_conv_nth)
  from b obtain s' where "s' \<in> set ?ys" "svc_key s' = b" by (auto simp: order_set)
  then obtain j where j: "j < length ?ys" "svc_key (?ys ! j) = b" by (auto simp: in_set_conv_nth)
  have "length ?ys = length xs" using order_mset by (metis size_mset)
  then have ranks: "serviceIdx ?ys a = Some i" "serviceIdx ?ys b = Some j"
    using rank_nth [OF assms(1), of i] rank_nth [OF assms(1), of j] i j s(2) by simp_all
  have "\<not> i < j" using topo s(3) i j unfolding depends_first_def sorted_wrt_iff_nth_less by blast
  moreover have "i \<noteq> j" using assms(2) edge s(2) i(2) j(2) by (auto simp: acyclic_def)
  ultimately show ?thesis using ranks by simp
qed

lemma rank_less:
  assumes "distinct (map svc_key xs)" and "acyclic (service_deps xs)"
    and "(a, b) \<in> (service_deps xs)\<^sup>+" and "b \<in> svc_key ` set xs"
  shows "get_or 0 (serviceIdx (order_services xs)) b < get_or 0 (serviceIdx (order_services xs)) a"
  using assms(3,4)
proof (induction rule: trancl_induct)
  case (base b)
  then show ?case by (rule rank_less_direct [OF assms(1,2)])
next
  case (step b c)
  from step(2) have "b \<in> svc_key ` set xs" by (auto simp: service_deps_def)
  with step.IH rank_less_direct [OF assms(1,2) step(2,4)] show ?case by simp
qed

text \<open>Sorting by rank applies every service after everything it leads to.\<close>

lemma sort_by_rank_in_order:
  assumes "distinct (map svc_key xs)" and "acyclic (service_deps xs)"
    and "swv_key ` set result \<subseteq> svc_key ` set xs"
  shows "applied_in_order xs (sort_by_rank (order_services xs) result)"
proof -
  let ?rank = "\<lambda>s. get_or 0 (serviceIdx (order_services xs)) (swv_key s)"
  have "sorted_wrt (\<lambda>a b. ?rank a \<le> ?rank b) (sort_by_rank (order_services xs) result)"
    using sorted_sort_key [of ?rank result] by (simp add: sort_by_rank_def sorted_map)
  then show ?thesis
    unfolding applied_in_order_def
  proof (rule sorted_wrt_mono_rel [rotated])
    fix a b
    assume "b \<in> set (sort_by_rank (order_services xs) result)" and le: "?rank a \<le> ?rank b"
    then have "swv_key b \<in> svc_key ` set xs" using assms(3) by (auto simp: sort_by_rank_def)
    with rank_less [OF assms(1,2), of "swv_key a" "swv_key b"] le
    show "(swv_key a, swv_key b) \<notin> (service_deps xs)\<^sup>+" by (meson leD)
  qed
qed

end

interpretation dep_order: dependency_order sortByDependency
  by unfold_locales (simp_all add: sortByDependency_depends_first)

section \<open>The assembled list\<close>

lemma mset_BuildServicesList: "mset (BuildServicesList stored filtered desired) = mset (merged_services stored filtered desired)"
  by (simp add: BuildServicesList_def sort_by_rank_def)

lemma set_BuildServicesList: "set (BuildServicesList stored filtered desired) = set (merged_services stored filtered desired)"
  by (simp add: BuildServicesList_def sort_by_rank_def)

lemma keys_merged_services:
  "swv_key ` set filtered \<subseteq> svc_key ` set desired \<Longrightarrow>
     swv_key ` set (merged_services stored filtered desired) \<subseteq> svc_key ` set desired"
  by (auto simp: merged_services_def)

text \<open>
  SortByDependency returns the services it was given, each once, and when their dependencies
  are acyclic no service stands in front of one it depends on.
\<close>

theorem sortByDependency_correct:
  assumes "distinct (map svc_key services)"
  shows "mset (sortByDependency services) = mset services
         \<and> (acyclic (service_deps services) \<longrightarrow> depends_first (sortByDependency services))"
  using assms by (simp add: sortByDependency_depends_first)

theorem sortByDependency_correct_witness:
  "let services = [example_service ''b'' [''a''], example_service ''a'' []]
   in mset (sortByDependency services) = mset services
      \<and> sortByDependency services = [example_service ''a'' [], example_service ''b'' [''a'']]"
  using sortByDependency_correct [of "[example_service ''b'' [''a''], example_service ''a'' []]"]
  by (simp add: ServiceKey_def sortByDependency_def serviceIdx_def index_by_def numeral_2_eq_2)

text \<open>
  The services of an assembled spec are the computed ones and, untouched, the stored ones that
  are still desired but were not computed in this cycle; a stored service that is no longer desired
  is gone, and a computed service replaces its stored version.
\<close>

theorem BuildServicesList_services:
  "mset (BuildServicesList stored filtered desired) =
     mset filtered + filter_mset (\<lambda>s. swv_key s \<in> svc_key ` set desired \<and> swv_key s \<notin> swv_key ` set filtered) (mset stored)"
  by (simp add: mset_BuildServicesList merged_services_def)

lemma BuildServicesList_in_order_spec:
  assumes "distinct (map svc_key desired)" and "acyclic (service_deps desired)"
    and "swv_key ` set filtered \<subseteq> svc_key ` set desired"
  shows "applied_in_order desired (BuildServicesList stored filtered desired)"
proof -
  let ?byKey = "sort_key svc_key desired"
  have "service_deps ?byKey = service_deps desired" by (rule service_deps_mset) simp
  moreover have "distinct (map svc_key ?byKey)" using assms(1) distinct_keys_mset [of ?byKey desired] by simp
  ultimately have "applied_in_order ?byKey (BuildServicesList stored filtered desired)"
    unfolding BuildServicesList_def
    using dep_order.sort_by_rank_in_order [of ?byKey] assms keys_merged_services [OF assms(3)] by simp
  then show ?thesis by (simp add: applied_in_order_def \<open>service_deps ?byKey = service_deps desired\<close>)
qed

text \<open>
  With acyclic dependencies the assembled spec lists every service after all services it
  depends on, directly or transitively, whether they are eligible or locked.
\<close>

theorem BuildServicesList_in_order:
  assumes "distinct (map svc_key desired)" and "acyclic (service_deps desired)"
    and "swv_key ` set filtered \<subseteq> svc_key ` set desired"
  shows "applied_in_order desired (BuildServicesList stored filtered desired)"
  using assms by (rule BuildServicesList_in_order_spec)

text \<open>
  The assembled spec does not depend on the order in which the owner lists the desired
  services, so listing them differently does not rewrite the ServiceSet.
\<close>

theorem BuildServicesList_listing_irrelevant:
  assumes "distinct (map svc_key desired)" and "mset desired' = mset desired"
  shows "BuildServicesList stored filtered desired' = BuildServicesList stored filtered desired"
proof -
  have "sort_key svc_key desired' = sort_key svc_key desired"
    using assms mset_eq_setD [OF assms(2)]
    by (intro sort_key_inj_key_eq) (simp_all add: distinct_map)
  moreover have "set desired' = set desired" using assms(2) by (rule mset_eq_setD)
  ultimately show ?thesis by (simp add: BuildServicesList_def merged_services_def)
qed

lemma example_two_services:
  "distinct (map svc_key [example_service ''b'' [''a''], example_service ''a'' []])"
  "acyclic (service_deps [example_service ''b'' [''a''], example_service ''a'' []])"
proof -
  let ?deps = "service_deps [example_service ''b'' [''a''], example_service ''a'' []]"
  have "y = ServiceKey [] ''a''" if "(x, y) \<in> ?deps\<^sup>+" for x y
    using that by (auto simp: service_deps_def dest!: tranclD2)
  moreover have "x \<noteq> ServiceKey [] ''a''" if "(x, y) \<in> ?deps\<^sup>+" for x y
    using that by (auto simp: service_deps_def ServiceKey_def dest!: tranclD)
  ultimately show "acyclic ?deps" unfolding acyclic_def by blast
qed (simp add: ServiceKey_def)

theorem BuildServicesList_in_order_witness:
  "let desired = [example_service ''b'' [''a''], example_service ''a'' []];
       built = BuildServicesList [example_stored ''b'' ''1'', example_stored ''c'' ''1''] [example_stored ''a'' ''2''] desired
   in built = [example_stored ''a'' ''2'', example_stored ''b'' ''1''] \<and> applied_in_order desired built"
proof -
  let ?desired = "[example_service ''b'' [''a''], example_service ''a'' []]"
  let ?built = "BuildServicesList [example_stored ''b'' ''1'', example_stored ''c'' ''1''] [example_stored ''a'' ''2''] ?desired"
  have "sort_key svc_key ?desired = [example_service ''a'' [], example_service ''b'' [''a'']]"
    by (simp add: ServiceKey_def less_eq_ObjectKey_def)
  then have "?built = [example_stored ''a'' ''2'', example_stored ''b'' ''1'']"
    by (simp add: BuildServicesList_def ServiceKey_def sortByDependency_def serviceIdx_def index_by_def
        sort_by_rank_def merged_services_def example_stored_def)
  moreover have "applied_in_order ?desired ?built"
    by (rule BuildServicesList_in_order [OF example_two_services]) (simp add: example_stored_def)
  ultimately show ?thesis by simp
qed

theorem BuildServicesList_listing_irrelevant_witness:
  "BuildServicesList [example_stored ''b'' ''1''] [] [example_service ''a'' [], example_service ''b'' [''a'']]
   = BuildServicesList [example_stored ''b'' ''1''] [] [example_service ''b'' [''a''], example_service ''a'' []]"
  by (rule BuildServicesList_listing_irrelevant [OF example_two_services(1)]) simp

end
