(* ===== verification/ServicesToDeploy.thy ===== *)
theory ServicesToDeploy
  imports ServiceOrder
begin

text \<open>
  The target version of every eligible service: \<open>makeService\<close>, \<open>appendIfNotPresent\<close>,
  \<open>nextUpgradeStep\<close>, \<open>isDowngrade\<close>, \<open>desiredTemplateInUpgradePaths\<close> and
  \<open>ServicesToDeploy\<close> of \<^verbatim>\<open>internal/serviceset/util.go\<close>.
\<close>

section \<open>Definitions\<close>

text \<open>
  The semantic version library (\<^verbatim>\<open>Masterminds/semver\<close>) is a parameter: parsing, which may fail, and
  the strict order of parsed versions.
\<close>

record 'v semver_lib =
  NewVersion :: "string \<Rightarrow> 'v option"
  LessThan :: "'v \<Rightarrow> 'v \<Rightarrow> bool"

definition isDowngrade :: "'v semver_lib \<Rightarrow> string \<Rightarrow> string \<Rightarrow> bool" where
  "isDowngrade sv desiredVersion currentVersion =
     (case NewVersion sv desiredVersion of
        None \<Rightarrow> False
      | Some desired \<Rightarrow>
          (case NewVersion sv currentVersion of
             None \<Rightarrow> False
           | Some current \<Rightarrow> LessThan sv desired current))"

definition makeService :: "Service \<Rightarrow> string \<Rightarrow> string \<Rightarrow> ServiceWithValues" where
  "makeService s version template =
     \<lparr>swv_HelmOptions = svc_HelmOptions s, swv_Version = version, swv_HelmAction = svc_HelmAction s,
      swv_Name = svc_Name s, swv_Namespace = effectiveNamespace (svc_Namespace s),
      swv_Template = template, swv_Values = svc_Values s, swv_ValuesFrom = svc_ValuesFrom s\<rparr>"

definition appendIfNotPresent ::
  "ServiceWithValues list \<Rightarrow> Service \<Rightarrow> AvailableUpgrade \<Rightarrow> ServiceWithValues list" where
  "appendIfNotPresent services s minimumUpgrade =
     (let serviceNamespace = effectiveNamespace (svc_Namespace s);
          exists = contains_func (\<lambda>c. swv_Name c = svc_Name s \<and> swv_Namespace c = serviceNamespace
                                      \<and> swv_Version c = au_Version minimumUpgrade) services
      in if \<not> exists then services @ [makeService s (au_Version minimumUpgrade) (au_Name minimumUpgrade)]
         else services)"

definition zero_upgrade :: AvailableUpgrade where
  "zero_upgrade = \<lparr>au_Name = [], au_Version = []\<rparr>"

text \<open>One route of the double loop of \<open>nextUpgradeStep\<close>; the state is \<open>(best, bestLen)\<close>.\<close>

definition consider_route ::
  "string \<Rightarrow> string \<Rightarrow> UpgradePath \<Rightarrow> AvailableUpgrade \<times> nat \<Rightarrow> AvailableUpgrade \<times> nat" where
  "consider_route currentTemplate desiredTemplate route best =
     (case index_func (\<lambda>u. au_Name u = desiredTemplate) (up_Versions route) of
        None \<Rightarrow> best
      | Some target \<Rightarrow>
          let next = (case index_func (\<lambda>u. au_Name u = currentTemplate) (take target (up_Versions route)) of
                        None \<Rightarrow> 0 | Some at \<Rightarrow> at + 1)
          in if target + 1 > snd best then (up_Versions route ! next, target + 1) else best)"

definition relevant_path :: "string \<Rightarrow> string \<Rightarrow> string \<Rightarrow> ServiceUpgradePaths \<Rightarrow> bool" where
  "relevant_path name namespace currentTemplate path \<longleftrightarrow>
     \<not> (sup_Name path \<noteq> name \<or> effectiveNamespace (sup_Namespace path) \<noteq> effectiveNamespace namespace)
     \<and> \<not> (sup_Template path \<noteq> [] \<and> currentTemplate \<noteq> [] \<and> sup_Template path \<noteq> currentTemplate)"

definition nextUpgradeStep ::
  "ServiceUpgradePaths list \<Rightarrow> string \<Rightarrow> string \<Rightarrow> string \<Rightarrow> string \<Rightarrow> AvailableUpgrade" where
  "nextUpgradeStep upgradePaths name namespace currentTemplate desiredTemplate =
     fst (fold (\<lambda>path best.
            if relevant_path name namespace currentTemplate path
            then fold (consider_route currentTemplate desiredTemplate) (sup_AvailableUpgrades path) best
            else best) upgradePaths (zero_upgrade, 0))"

fun desiredTemplateInUpgradePaths ::
  "ServiceUpgradePaths list \<Rightarrow> ServiceWithValues \<Rightarrow> string \<Rightarrow> string \<Rightarrow> bool" where
  "desiredTemplateInUpgradePaths [] svc desiredTemplate desiredVersion = False"
| "desiredTemplateInUpgradePaths (upgradePath # upgradePaths) svc desiredTemplate desiredVersion =
     (if sup_Name upgradePath \<noteq> swv_Name svc
         \<or> sup_Namespace upgradePath \<noteq> effectiveNamespace (swv_Namespace svc)
      then desiredTemplateInUpgradePaths upgradePaths svc desiredTemplate desiredVersion
      else if sup_Template upgradePath \<noteq> swv_Template svc then False
      else list_ex (\<lambda>upgradeList. contains_func
             (\<lambda>c. au_Name c = desiredTemplate \<or> au_Version c = desiredVersion) (up_Versions upgradeList))
             (sup_AvailableUpgrades upgradePath))"

text \<open>
  A stored service that is in flight takes its mutable fields from the first desired service with
  the same name and namespace.
\<close>

definition merge_in_flight :: "Service list \<Rightarrow> ServiceWithValues \<Rightarrow> ServiceWithValues" where
  "merge_in_flight filteredServices svc =
     (case find (\<lambda>ds. svc_Name ds = swv_Name svc
              \<and> effectiveNamespace (svc_Namespace ds) = effectiveNamespace (swv_Namespace svc)) filteredServices of
        None \<Rightarrow> svc
      | Some ds \<Rightarrow> svc\<lparr>swv_Values := svc_Values ds, swv_ValuesFrom := svc_ValuesFrom ds,
                        swv_HelmOptions := svc_HelmOptions ds, swv_HelmAction := svc_HelmAction ds\<rparr>)"

record deploy_maps =
  dm_desiredVersions :: "ObjectKey \<rightharpoonup> string"
  dm_desiredTemplates :: "ObjectKey \<rightharpoonup> string"
  dm_storedTemplates :: "ObjectKey \<rightharpoonup> string"
  dm_upgradeAvailable :: "ObjectKey \<rightharpoonup> bool"
  dm_inFlight :: "ObjectKey \<rightharpoonup> ServiceWithValues"

text \<open>The two loops that fill the maps.\<close>

definition deploy_maps_of ::
  "'v semver_lib \<Rightarrow> ServiceUpgradePaths list \<Rightarrow> Service list \<Rightarrow> ServiceSet \<Rightarrow> deploy_maps" where
  "deploy_maps_of sv upgradePaths filteredServices serviceSet =
     (let desiredVersions = index_by svc_key svc_version filteredServices;
          desiredTemplates = index_by svc_key svc_Template filteredServices;
          deployedVersions = DeployedVersions serviceSet;
          stored = filter (\<lambda>svc. desiredVersions (swv_key svc) \<noteq> None) (sss_Services (sset_Spec serviceSet));
          available = (\<lambda>svc.
            let desiredVersion = get_or [] desiredVersions (swv_key svc)
            in swv_Version svc \<noteq> [] \<and> isDowngrade sv desiredVersion (swv_Version svc)
               \<or> desiredTemplateInUpgradePaths upgradePaths svc
                    (get_or [] desiredTemplates (swv_key svc)) desiredVersion)
      in \<lparr>dm_desiredVersions = desiredVersions,
          dm_desiredTemplates = desiredTemplates,
          dm_storedTemplates = index_by swv_key swv_Template stored,
          dm_upgradeAvailable = index_by svc_key (\<lambda>_. True) filteredServices ++ index_by swv_key available stored,
          dm_inFlight = index_by swv_key (merge_in_flight filteredServices)
             (filter (\<lambda>svc. \<not> (swv_Version svc = []
                               \<or> swv_Version svc = get_or [] deployedVersions (swv_key svc))) stored)\<rparr>)"

text \<open>One service of the emitting loop.\<close>

definition deploy_step ::
  "ServiceUpgradePaths list \<Rightarrow> ServiceSet \<Rightarrow> deploy_maps \<Rightarrow> Service \<Rightarrow> ServiceWithValues list
     \<Rightarrow> ServiceWithValues list" where
  "deploy_step upgradePaths serviceSet m s services =
     (let key = svc_key s
      in case dm_inFlight m key of
           Some svc \<Rightarrow> services @ [svc]
         | None \<Rightarrow>
             if svc_Disable s then services
             else
               let desiredVersion = get_or [] (dm_desiredVersions m) key;
                   desiredTemplate = get_or [] (dm_desiredTemplates m) key
               in if \<not> get_or False (dm_upgradeAvailable m) key then
                    (case index_func (\<lambda>svc. swv_Name svc = svc_Name s
                             \<and> effectiveNamespace (swv_Namespace svc) = ok_Namespace key)
                             (sss_Services (sset_Spec serviceSet)) of
                       None \<Rightarrow> services
                     | Some _ \<Rightarrow> services @ [makeService s (svc_Version s) (svc_Template s)])
                  else if length upgradePaths = 0 then
                    services @ [makeService s desiredVersion desiredTemplate]
                  else
                    let nextUpgrade = nextUpgradeStep upgradePaths (svc_Name s) (svc_Namespace s)
                                        (get_or [] (dm_storedTemplates m) key) desiredTemplate;
                        nextUpgrade =
                          (if au_Name nextUpgrade = [] then
                             \<lparr>au_Name = desiredTemplate, au_Version = desiredVersion\<rparr>
                           else if au_Version nextUpgrade = au_Name nextUpgrade then
                             nextUpgrade\<lparr>au_Version := []\<rparr>
                           else nextUpgrade)
                    in appendIfNotPresent services s nextUpgrade)"

definition ServicesToDeploy ::
  "'v semver_lib \<Rightarrow> ServiceUpgradePaths list \<Rightarrow> Service list \<Rightarrow> ServiceSet \<Rightarrow> ServiceWithValues list" where
  "ServicesToDeploy sv upgradePaths filteredServices serviceSet =
     fold (deploy_step upgradePaths serviceSet (deploy_maps_of sv upgradePaths filteredServices serviceSet))
       filteredServices []"

section \<open>The next hop\<close>

text \<open>
  The search over routes seen abstractly: the hop chosen belongs to a relevant route that reaches
  the desired template, and no relevant route reaches it at a later position.
\<close>

definition relevant_routes ::
  "ServiceUpgradePaths list \<Rightarrow> string \<Rightarrow> string \<Rightarrow> string \<Rightarrow> UpgradePath list" where
  "relevant_routes upgradePaths name namespace currentTemplate =
     concat (map sup_AvailableUpgrades (filter (relevant_path name namespace currentTemplate) upgradePaths))"

lemma nextUpgradeStep_fold:
  "nextUpgradeStep upgradePaths name namespace currentTemplate desiredTemplate =
     fst (fold (consider_route currentTemplate desiredTemplate)
            (relevant_routes upgradePaths name namespace currentTemplate) (zero_upgrade, 0))"
proof -
  have "fold (\<lambda>path best.
            if relevant_path name namespace currentTemplate path
            then fold (consider_route currentTemplate desiredTemplate) (sup_AvailableUpgrades path) best
            else best) upgradePaths st
      = fold (consider_route currentTemplate desiredTemplate)
            (relevant_routes upgradePaths name namespace currentTemplate) st" for st
    by (induction upgradePaths arbitrary: st) (simp_all add: relevant_routes_def)
  then show ?thesis by (simp add: nextUpgradeStep_def)
qed

text \<open>The position of the desired template on a route, and the hop the route offers.\<close>

definition hop_on :: "string \<Rightarrow> string \<Rightarrow> UpgradePath \<Rightarrow> nat \<Rightarrow> AvailableUpgrade \<Rightarrow> bool" where
  "hop_on currentTemplate desiredTemplate route target hop \<longleftrightarrow>
     index_func (\<lambda>u. au_Name u = desiredTemplate) (up_Versions route) = Some target
     \<and> hop = up_Versions route !
         (case index_func (\<lambda>u. au_Name u = currentTemplate) (take target (up_Versions route)) of
            None \<Rightarrow> 0 | Some at \<Rightarrow> at + 1)"

lemma consider_routes_best:
  "fold (consider_route cur des) routes (zero_upgrade, 0) = (best, len) \<Longrightarrow>
     (len = 0 \<and> best = zero_upgrade
        \<and> (\<forall>r\<in>set routes. index_func (\<lambda>u. au_Name u = des) (up_Versions r) = None))
     \<or> (\<exists>r\<in>set routes. hop_on cur des r (len - 1) best \<and> 0 < len
        \<and> (\<forall>r'\<in>set routes. \<forall>t. index_func (\<lambda>u. au_Name u = des) (up_Versions r') = Some t \<longrightarrow> t < len))"
proof (induction routes arbitrary: best len rule: rev_induct)
  case Nil
  then show ?case by simp
next
  case (snoc r routes)
  obtain b l where bl: "fold (consider_route cur des) routes (zero_upgrade, 0) = (b, l)"
    by (cases "fold (consider_route cur des) routes (zero_upgrade, 0)")
  note IH = snoc.IH [OF bl]
  have step: "consider_route cur des r (b, l) = (best, len)" using snoc.prems bl by simp
  show ?case
  proof (cases "index_func (\<lambda>u. au_Name u = des) (up_Versions r)")
    case None
    with step have "best = b" "len = l" by (simp_all add: consider_route_def)
    with IH None show ?thesis by auto
  next
    case (Some t)
    show ?thesis
    proof (cases "t + 1 > l")
      case True
      with step Some have "hop_on cur des r (len - 1) best" "len = t + 1"
        by (auto simp: consider_route_def Let_def hop_on_def)
      moreover have "t' < t + 1" if "r' \<in> set routes"
        "index_func (\<lambda>u. au_Name u = des) (up_Versions r') = Some t'" for r' t'
        using IH that True by fastforce
      ultimately show ?thesis using Some by auto
    next
      case False
      with step Some have "best = b" "len = l" by (simp_all add: consider_route_def)
      with IH False Some show ?thesis by auto
    qed
  qed
qed

section \<open>Hops the chain allows\<close>

text \<open>
  What the search needs of the routes of a template chain: a result for a template consists of
  routes whose hops are allowed one after the other, starting at that template, and some route
  passes through every template that allowed hops lead to.
\<close>

definition hop_rel :: "(string \<Rightarrow> AvailableUpgrade set) \<Rightarrow> (string \<times> string) set" where
  "hop_rel hops = {(a, au_Name u) | a u. u \<in> hops a}"

definition hop_chain :: "(string \<Rightarrow> AvailableUpgrade set) \<Rightarrow> string \<Rightarrow> AvailableUpgrade list \<Rightarrow> bool" where
  "hop_chain hops t p \<longleftrightarrow> (\<forall>i<length p. p ! i \<in> hops ((t # map au_Name p) ! i))"

lemma hop_chain_reaches:
  assumes "hop_chain hops t p" and "i \<le> j" and "j < length p"
  shows "(au_Name (p ! i), au_Name (p ! j)) \<in> (hop_rel hops)\<^sup>*"
  using assms(2,3)
proof (induction j rule: dec_induct)
  case (step j)
  have "p ! Suc j \<in> hops (au_Name (p ! j))"
    using assms(1) step.prems by (auto simp: hop_chain_def dest: spec [of _ "Suc j"])
  then have "(au_Name (p ! j), au_Name (p ! Suc j)) \<in> hop_rel hops" by (auto simp: hop_rel_def)
  with step show ?case by simp
qed simp

locale upgrade_routes =
  fixes routes_of :: "string \<Rightarrow> UpgradePath list \<Rightarrow> bool"
    and hops :: "string \<Rightarrow> AvailableUpgrade set"
  assumes routes_hops: "routes_of t rs \<Longrightarrow> r \<in> set rs \<Longrightarrow> hop_chain hops t (up_Versions r)"
    and routes_complete:
      "routes_of t rs \<Longrightarrow> (t, d) \<in> (hop_rel hops)\<^sup>+ \<Longrightarrow> \<exists>r\<in>set rs. d \<in> au_Name ` set (up_Versions r)"
begin

text \<open>The hop a route offers is an upgrade of the current template on the way to the desired one.\<close>

lemma hop_on_allowed:
  assumes "routes_of t rs" and "r \<in> set rs" and "hop_on t d r target hop"
  shows "hop \<in> hops t \<and> (au_Name hop, d) \<in> (hop_rel hops)\<^sup>*"
proof -
  let ?p = "up_Versions r"
  let ?next = "case index_func (\<lambda>u. au_Name u = t) (take target ?p) of None \<Rightarrow> 0 | Some at \<Rightarrow> at + 1"
  note chain = routes_hops [OF assms(1,2)]
  from assms(3) have target: "target < length ?p" "au_Name (?p ! target) = d" and hop: "hop = ?p ! ?next"
    by (simp_all add: hop_on_def index_func_Some)
  have "?next \<le> target \<and> (t # map au_Name ?p) ! ?next = t"
    using target(1) by (auto simp: index_func_Some split: option.split)
  moreover from this target(1) have "?p ! ?next \<in> hops ((t # map au_Name ?p) ! ?next)"
    using chain unfolding hop_chain_def by (meson le_less_trans)
  ultimately show ?thesis
    using hop_chain_reaches [OF chain, of ?next target] target hop by simp
qed

lemma search_complete:
  assumes "routes_of t rs"
  shows "(\<forall>r\<in>set rs. index_func (\<lambda>u. au_Name u = d) (up_Versions r) = None) \<longleftrightarrow> (t, d) \<notin> (hop_rel hops)\<^sup>+"
proof
  assume "\<forall>r\<in>set rs. index_func (\<lambda>u. au_Name u = d) (up_Versions r) = None"
  then show "(t, d) \<notin> (hop_rel hops)\<^sup>+"
    using routes_complete [OF assms, of d] by (fastforce simp: index_func_None)
next
  assume not: "(t, d) \<notin> (hop_rel hops)\<^sup>+"
  have "au_Name (up_Versions r ! j) \<noteq> d" if "r \<in> set rs" "j < length (up_Versions r)" for r j
  proof
    assume d: "au_Name (up_Versions r ! j) = d"
    note chain = routes_hops [OF assms that(1)]
    from chain that(2) have "up_Versions r ! 0 \<in> hops t"
      unfolding hop_chain_def by (metis gr_zeroI not_less0 nth_Cons_0)
    then have "(t, au_Name (up_Versions r ! 0)) \<in> hop_rel hops" by (auto simp: hop_rel_def)
    with hop_chain_reaches [OF chain, of 0 j] that(2) d not show False
      by (auto dest: rtrancl_into_trancl2)
  qed
  then show "\<forall>r\<in>set rs. index_func (\<lambda>u. au_Name u = d) (up_Versions r) = None"
    unfolding index_func_None by (metis in_set_conv_nth)
qed

lemma next_step:
  assumes "routes_of t rs" and "relevant_routes upgradePaths name namespace t = rs"
  shows "if (t, d) \<in> (hop_rel hops)\<^sup>+
         then nextUpgradeStep upgradePaths name namespace t d \<in> hops t
              \<and> (au_Name (nextUpgradeStep upgradePaths name namespace t d), d) \<in> (hop_rel hops)\<^sup>*
         else nextUpgradeStep upgradePaths name namespace t d = zero_upgrade"
proof -
  obtain best len where best: "fold (consider_route t d) rs (zero_upgrade, 0) = (best, len)"
    by (cases "fold (consider_route t d) rs (zero_upgrade, 0)")
  then have step: "nextUpgradeStep upgradePaths name namespace t d = best"
    by (simp add: nextUpgradeStep_fold assms(2))
  note reach = search_complete [OF assms(1), of d]
  from consider_routes_best [OF best] show ?thesis
    unfolding step
  proof (elim disjE conjE bexE)
    assume "best = zero_upgrade" "\<forall>r\<in>set rs. index_func (\<lambda>u. au_Name u = d) (up_Versions r) = None"
    with reach show "if (t, d) \<in> (hop_rel hops)\<^sup>+ then best \<in> hops t \<and> (au_Name best, d) \<in> (hop_rel hops)\<^sup>*
      else best = zero_upgrade" by simp
  next
    fix r assume r: "r \<in> set rs" "hop_on t d r (len - 1) best"
    then have "(t, d) \<in> (hop_rel hops)\<^sup>+" using reach by (auto simp: hop_on_def)
    with hop_on_allowed [OF assms(1) r]
    show "if (t, d) \<in> (hop_rel hops)\<^sup>+ then best \<in> hops t \<and> (au_Name best, d) \<in> (hop_rel hops)\<^sup>*
      else best = zero_upgrade" by simp
  qed
qed

end

definition possible_routes :: "TemplateChainSpec \<Rightarrow> string \<Rightarrow> UpgradePath list \<Rightarrow> bool" where
  "possible_routes s t rs \<longleftrightarrow>
     (\<exists>order. distinct order \<and> set order = {d. (t, d) \<in> (upgrade_rel (tcs_SupportedTemplates s))\<^sup>+}
        \<and> UpgradePaths order s t = Inr rs)"

definition chain_hops :: "TemplateChainSpec \<Rightarrow> string \<Rightarrow> AvailableUpgrade set" where
  "chain_hops s t = default_version ` set (upgrades_of (tcs_SupportedTemplates s) t)"

lemma hop_rel_chain_hops: "hop_rel (chain_hops s) = upgrade_rel (tcs_SupportedTemplates s)"
proof (rule set_eqI)
  fix x :: "string \<times> string"
  obtain a b where x: "x = (a, b)" by (cases x)
  have "(\<exists>u\<in>default_version ` set (upgrades_of (tcs_SupportedTemplates s) a). b = au_Name u)
      \<longleftrightarrow> (\<exists>u\<in>set (upgrades_of (tcs_SupportedTemplates s) a). b = au_Name u)" by simp
  then show "x \<in> hop_rel (chain_hops s) \<longleftrightarrow> x \<in> upgrade_rel (tcs_SupportedTemplates s)"
    unfolding x hop_rel_def chain_hops_def upgrade_rel_def by blast
qed

lemma is_route_hop_chain:
  "is_route (tcs_SupportedTemplates s) t p \<Longrightarrow> hop_chain (chain_hops s) t (map default_version p)"
proof (induction p arbitrary: t)
  case (Cons u p)
  then show ?case by (auto simp: hop_chain_def chain_hops_def less_Suc_eq_0_disj)
qed (simp add: hop_chain_def)

lemma UpgradePaths_Inr_known:
  "UpgradePaths order s t = Inr rs \<Longrightarrow> t \<in> stpl_Name ` set (tcs_SupportedTemplates s)"
  using templateMap_None [of "tcs_SupportedTemplates s" t]
  by (auto simp: UpgradePaths_def findAllUpgradePaths_def result_simps split: option.splits)

interpretation chain_routes: upgrade_routes "possible_routes s" "chain_hops s" for s
proof
  fix t rs r
  assume "possible_routes s t rs" "r \<in> set rs"
  then obtain order where order: "distinct order"
      "set order = {d. (t, d) \<in> (upgrade_rel (tcs_SupportedTemplates s))\<^sup>+}" "UpgradePaths order s t = Inr rs"
    by (auto simp: possible_routes_def)
  from order(3) have "t \<in> stpl_Name ` set (tcs_SupportedTemplates s)" by (rule UpgradePaths_Inr_known)
  from UpgradePaths_spec [OF this order(1,2)] order(3) \<open>r \<in> set rs\<close>
  show "hop_chain (chain_hops s) t (up_Versions r)"
    by (auto simp: simple_route_def dest!: bspec intro: is_route_hop_chain)
next
  fix t rs d
  assume "possible_routes s t rs" and d: "(t, d) \<in> (hop_rel (chain_hops s))\<^sup>+"
  then obtain order where order: "distinct order"
      "set order = {d. (t, d) \<in> (upgrade_rel (tcs_SupportedTemplates s))\<^sup>+}" "UpgradePaths order s t = Inr rs"
    by (auto simp: possible_routes_def)
  from order(3) have "t \<in> stpl_Name ` set (tcs_SupportedTemplates s)" by (rule UpgradePaths_Inr_known)
  from UpgradePaths_spec [OF this order(1,2)] order(3)
  have names: "map (\<lambda>r. au_Name (last (up_Versions r))) rs = order"
    and ne: "\<forall>r\<in>set rs. up_Versions r \<noteq> []" by (auto simp: simple_route_def)
  from d order(2) have "d \<in> set order" by (simp add: hop_rel_chain_hops)
  with names obtain r where "r \<in> set rs" "au_Name (last (up_Versions r)) = d" by auto
  with ne show "\<exists>r\<in>set rs. d \<in> au_Name ` set (up_Versions r)" by (metis image_eqI last_in_set)
qed

text \<open>
  For a service that runs template \<open>t\<close> and whose routes were computed from a template
  chain, the next step is an upgrade the chain allows directly from \<open>t\<close> and from which
  the desired template is still reachable; there is a step exactly when the desired template is
  reachable from \<open>t\<close> at all.
\<close>

theorem nextUpgradeStep_correct:
  assumes "possible_routes s t routes"
    and "relevant_routes upgradePaths name namespace t = routes"
  shows "if (t, d) \<in> (upgrade_rel (tcs_SupportedTemplates s))\<^sup>+
         then nextUpgradeStep upgradePaths name namespace t d \<in> chain_hops s t
              \<and> (au_Name (nextUpgradeStep upgradePaths name namespace t d), d)
                  \<in> (upgrade_rel (tcs_SupportedTemplates s))\<^sup>*
         else nextUpgradeStep upgradePaths name namespace t d = zero_upgrade"
  using chain_routes.next_step [OF assms] by (simp only: hop_rel_chain_hops)

lemma example_chain_possible:
  "possible_routes example_chain ''a'' [\<lparr>up_Versions = [\<lparr>au_Name = ''b'', au_Version = ''b''\<rparr>]\<rparr>]"
proof -
  let ?T = "tcs_SupportedTemplates example_chain"
  have "findPaths ?T ''a'' [] (\<lambda>_. False) = [[\<lparr>au_Name = ''b'', au_Version = []\<rparr>]]"
    by (simp add: findPaths.simps templateMap_def index_by_def example_chain_def)
  then have "UpgradePaths [''b''] example_chain ''a'' = Inr [\<lparr>up_Versions = [\<lparr>au_Name = ''b'', au_Version = ''b''\<rparr>]\<rparr>]"
    by (simp add: UpgradePaths_def findAllUpgradePaths_def templateMap_def index_by_def
        uniquePaths_step_def default_version_def example_chain_def)
  then show ?thesis
    unfolding possible_routes_def example_chain_reachable by (intro exI [of _ "[''b'']"]) simp
qed

theorem nextUpgradeStep_correct_witness:
  "nextUpgradeStep [\<lparr>sup_Name = ''web'', sup_Namespace = ''default'', sup_Template = ''a'',
       sup_AvailableUpgrades = [\<lparr>up_Versions = [\<lparr>au_Name = ''b'', au_Version = ''b''\<rparr>]\<rparr>]\<rparr>] ''web'' [] ''a'' ''b''
     \<in> chain_hops example_chain ''a''"
proof -
  let ?paths = "[\<lparr>sup_Name = ''web'', sup_Namespace = ''default'', sup_Template = ''a'',
       sup_AvailableUpgrades = [\<lparr>up_Versions = [\<lparr>au_Name = ''b'', au_Version = ''b''\<rparr>]\<rparr>]\<rparr>]"
  have "relevant_routes ?paths ''web'' [] ''a'' = [\<lparr>up_Versions = [\<lparr>au_Name = ''b'', au_Version = ''b''\<rparr>]\<rparr>]"
    by (simp add: relevant_routes_def relevant_path_def effectiveNamespace_def)
  moreover have "(''a'', ''b'') \<in> (upgrade_rel (tcs_SupportedTemplates example_chain))\<^sup>+"
    using example_chain_reachable by blast
  ultimately show ?thesis
    using nextUpgradeStep_correct [OF example_chain_possible, of ?paths "''web''" "[]" "''b''"] by simp
qed

section \<open>One target per service\<close>

lemma makeService_key [simp]: "swv_key (makeService s v t) = svc_key s"
  by (simp add: makeService_def)

lemma merge_in_flight_sel [simp]:
  "swv_Name (merge_in_flight fs svc) = swv_Name svc"
  "swv_Namespace (merge_in_flight fs svc) = swv_Namespace svc"
  "swv_Version (merge_in_flight fs svc) = swv_Version svc"
  "swv_Template (merge_in_flight fs svc) = swv_Template svc"
  by (simp_all add: merge_in_flight_def split: option.split)

lemma in_flight_key:
  "dm_inFlight (deploy_maps_of sv paths fs sset) k = Some svc \<Longrightarrow> swv_key svc = k"
  by (auto simp: deploy_maps_of_def Let_def dest!: index_by_Some_ex)

lemma appendIfNotPresent_fresh:
  assumes "svc_key s \<notin> swv_key ` set acc"
  shows "appendIfNotPresent acc s u = acc @ [makeService s (au_Version u) (au_Name u)]"
proof -
  have "swv_key c = svc_key s" if "swv_Name c = svc_Name s" "swv_Namespace c = effectiveNamespace (svc_Namespace s)" for c
    using that by simp
  then have "\<not> (\<exists>c\<in>set acc. swv_Name c = svc_Name s \<and> swv_Namespace c = effectiveNamespace (svc_Namespace s)
      \<and> swv_Version c = au_Version u)"
    using assms by (auto simp: image_iff)
  then show ?thesis unfolding appendIfNotPresent_def Let_def contains_func_iff by simp
qed

lemma deploy_step_fresh:
  assumes "svc_key s \<notin> swv_key ` set acc"
  shows "deploy_step paths sset m s acc = acc @ deploy_step paths sset m s []"
proof -
  have "appendIfNotPresent acc s u = acc @ appendIfNotPresent [] s u" for u
    using appendIfNotPresent_fresh [OF assms] appendIfNotPresent_fresh [of s "[]"] by simp
  then show ?thesis
    by (simp add: deploy_step_def Let_def split: option.split)
qed

lemma deploy_step_keys:
  assumes "\<And>svc. dm_inFlight m (svc_key s) = Some svc \<Longrightarrow> swv_key svc = svc_key s"
  shows "map swv_key (deploy_step paths sset m s []) = [] \<or> map swv_key (deploy_step paths sset m s []) = [svc_key s]"
  using assms appendIfNotPresent_fresh [of s "[]"]
  by (simp add: deploy_step_def Let_def split: option.split)

text \<open>With distinct keys, the loop computes the target of each service on its own.\<close>

lemma ServicesToDeploy_concat:
  fixes sv paths fs sset
  defines "m \<equiv> deploy_maps_of sv paths fs sset"
  assumes "distinct (map svc_key fs)"
  shows "ServicesToDeploy sv paths fs sset = concat (map (\<lambda>s. deploy_step paths sset m s []) fs)"
proof -
  have "fold (deploy_step paths sset m) xs acc = acc @ concat (map (\<lambda>s. deploy_step paths sset m s []) xs)"
    if "distinct (map svc_key xs)" "swv_key ` set acc \<inter> svc_key ` set xs = {}" for xs acc
    using that
  proof (induction xs arbitrary: acc)
    case (Cons x xs)
    have keys: "swv_key ` set (deploy_step paths sset m x []) \<subseteq> {svc_key x}"
      using deploy_step_keys [of m x paths sset] in_flight_key [of sv paths fs sset]
      by (cases "deploy_step paths sset m x []") (auto simp: m_def)
    have "svc_key x \<notin> swv_key ` set acc" using Cons.prems(2) by auto
    from deploy_step_fresh [OF this]
    have "fold (deploy_step paths sset m) (x # xs) acc
        = fold (deploy_step paths sset m) xs (acc @ deploy_step paths sset m x [])" by simp
    also have "swv_key ` set (acc @ deploy_step paths sset m x []) \<inter> svc_key ` set xs = {}"
      using keys Cons.prems by auto
    with Cons have "fold (deploy_step paths sset m) xs (acc @ deploy_step paths sset m x [])
        = (acc @ deploy_step paths sset m x []) @ concat (map (\<lambda>s. deploy_step paths sset m s []) xs)" by simp
    finally show ?case by simp
  qed simp
  with assms(2) show ?thesis by (simp add: ServicesToDeploy_def m_def)
qed

text \<open>The targets emitted for one service.\<close>

definition targets_of :: "Service \<Rightarrow> ServiceWithValues list \<Rightarrow> ServiceWithValues list" where
  "targets_of s xs = filter (\<lambda>x. swv_key x = svc_key s) xs"

lemma deploy_step_key_set:
  "x \<in> set (deploy_step paths sset (deploy_maps_of sv paths fs sset) s []) \<Longrightarrow> swv_key x = svc_key s"
  using deploy_step_keys [of "deploy_maps_of sv paths fs sset" s paths sset] in_flight_key [of sv paths fs sset]
  by (cases "deploy_step paths sset (deploy_maps_of sv paths fs sset) s []") auto

lemma targets_of_ServicesToDeploy:
  assumes "distinct (map svc_key fs)" and "s \<in> set fs"
  shows "targets_of s (ServicesToDeploy sv paths fs sset) =
           deploy_step paths sset (deploy_maps_of sv paths fs sset) s []"
proof -
  let ?f = "\<lambda>s. deploy_step paths sset (deploy_maps_of sv paths fs sset) s []"
  have other: "filter (\<lambda>x. swv_key x = svc_key s) (?f s') = (if svc_key s' = svc_key s then ?f s' else [])" for s'
    using deploy_step_key_set [of _ paths sset sv fs s'] by (auto simp: filter_empty_conv intro: filter_True)
  have "concat (map (\<lambda>s'. if svc_key s' = svc_key s then ?f s' else []) xs) = (if s \<in> set xs then ?f s else [])"
    if "distinct (map svc_key xs)" "set xs \<subseteq> set fs" for xs
    using that
  proof (induction xs)
    case (Cons x xs)
    have "s \<notin> set xs" if "svc_key x = svc_key s"
      using Cons.prems(1) that by (auto simp: image_iff)
    moreover have "x = s" if "svc_key x = svc_key s"
      using distinct_map_eqD [OF assms(1) _ assms(2) that] Cons.prems(2) by simp
    ultimately show ?case using Cons by auto
  qed simp
  from this [OF assms(1) subset_refl] assms show ?thesis
    by (simp add: targets_of_def ServicesToDeploy_concat filter_concat comp_def other)
qed

lemma stored_lookup:
  assumes "distinct (map swv_key (sss_Services (sset_Spec sset)))"
    and "svc \<in> set (sss_Services (sset_Spec sset))" and "s \<in> set fs" and "swv_key svc = svc_key s"
    and "P svc"
  shows "index_by swv_key g (filter P (filter (\<lambda>svc. index_by svc_key svc_version fs (swv_key svc) \<noteq> None)
            (sss_Services (sset_Spec sset)))) (svc_key s) = Some (g svc)"
proof -
  let ?xs = "filter P (filter (\<lambda>svc. index_by svc_key svc_version fs (swv_key svc) \<noteq> None)
            (sss_Services (sset_Spec sset)))"
  have "distinct (map swv_key ?xs)" by (intro distinct_map_filter assms(1))
  moreover have "svc \<in> set ?xs" using assms(2-5) by (simp add: index_by_None)
  ultimately show ?thesis using index_by_distinct [of swv_key ?xs svc g] assms(4) by simp
qed

lemma stored_lookup_None:
  assumes "distinct (map swv_key (sss_Services (sset_Spec sset)))"
    and "svc \<in> set (sss_Services (sset_Spec sset))" and "swv_key svc = svc_key s" and "\<not> P svc"
  shows "index_by swv_key g (filter P (filter Q (sss_Services (sset_Spec sset)))) (svc_key s) = None"
proof -
  have "svc' = svc" if "svc' \<in> set (sss_Services (sset_Spec sset))" "swv_key svc' = svc_key s" for svc'
    using distinct_map_eqD [OF assms(1) that(1) assms(2)] that(2) assms(3) by simp
  then show ?thesis using assms(4) by (auto simp: index_by_None)
qed

lemma ServicesToDeploy_keys_spec:
  assumes "distinct (map svc_key fs)"
  shows "distinct (map swv_key (ServicesToDeploy sv paths fs sset))
         \<and> swv_key ` set (ServicesToDeploy sv paths fs sset) \<subseteq> svc_key ` set fs"
proof -
  let ?f = "\<lambda>s. deploy_step paths sset (deploy_maps_of sv paths fs sset) s []"
  have f: "map swv_key (?f s) = [] \<or> map swv_key (?f s) = [svc_key s]" for s
    using in_flight_key [of sv paths fs sset] by (intro deploy_step_keys) auto
  have "distinct (map swv_key (concat (map ?f xs))) \<and> swv_key ` set (concat (map ?f xs)) \<subseteq> svc_key ` set xs"
    if "distinct (map svc_key xs)" for xs
    using that
  proof (induction xs)
    case (Cons x xs)
    let ?rest = "concat (map ?f xs)"
    from Cons have IH: "distinct (map swv_key ?rest)" "swv_key ` set ?rest \<subseteq> svc_key ` set xs"
      and new: "svc_key x \<notin> svc_key ` set xs" by auto
    from new IH(2) have "svc_key x \<notin> set (map swv_key ?rest)" unfolding set_map by blast
    then have "distinct (map swv_key (?f x) @ map swv_key ?rest)"
      and "set (map swv_key (?f x) @ map swv_key ?rest) \<subseteq> insert (svc_key x) (svc_key ` set xs)"
      using IH f [of x] by auto
    then show ?case by (simp only: map_append concat.simps list.map image_Un set_append set_map) simp
  qed simp
  from this [OF assms] show ?thesis by (simp add: ServicesToDeploy_concat [OF assms])
qed

text \<open>
  At most one target is emitted per eligible service, and none for any other service.
\<close>

theorem ServicesToDeploy_keys:
  assumes "distinct (map svc_key fs)"
  shows "distinct (map swv_key (ServicesToDeploy sv paths fs sset))
         \<and> swv_key ` set (ServicesToDeploy sv paths fs sset) \<subseteq> svc_key ` set fs"
  using assms by (rule ServicesToDeploy_keys_spec)

text \<open>
  A stored service whose version is not the deployed one is in flight. It is emitted once, with
  the version and template it is being moved to, and takes values, value sources, Helm options and
  Helm action from the desired service, even if it has been disabled meanwhile.
\<close>

theorem ServicesToDeploy_in_flight:
  assumes "distinct (map svc_key fs)" and "distinct (map swv_key (sss_Services (sset_Spec sset)))"
    and "s \<in> set fs" and "svc \<in> set (sss_Services (sset_Spec sset))" and "swv_key svc = svc_key s"
    and "swv_Version svc \<noteq> []" and "DeployedVersions sset (svc_key s) \<noteq> Some (swv_Version svc)"
  shows "targets_of s (ServicesToDeploy sv paths fs sset) =
           [svc\<lparr>swv_Values := svc_Values s, swv_ValuesFrom := svc_ValuesFrom s,
                swv_HelmOptions := svc_HelmOptions s, swv_HelmAction := svc_HelmAction s\<rparr>]"
proof -
  let ?P = "\<lambda>svc. \<not> (swv_Version svc = [] \<or> swv_Version svc = get_or [] (DeployedVersions sset) (swv_key svc))"
  have P: "?P svc" using assms(5-7) by (auto simp: get_or_def split: option.splits)
  have "merge_in_flight fs svc = svc\<lparr>swv_Values := svc_Values s, swv_ValuesFrom := svc_ValuesFrom s,
      swv_HelmOptions := svc_HelmOptions s, swv_HelmAction := svc_HelmAction s\<rparr>"
  proof -
    have "find (\<lambda>ds. svc_Name ds = swv_Name svc
        \<and> effectiveNamespace (svc_Namespace ds) = effectiveNamespace (swv_Namespace svc)) fs = Some s"
    proof (rule find_unique [OF assms(3)])
      show "svc_Name s = swv_Name svc \<and> effectiveNamespace (svc_Namespace s) = effectiveNamespace (swv_Namespace svc)"
        using assms(5) by (simp add: ServiceKey_eq_iff)
      fix ds assume "ds \<in> set fs" "svc_Name ds = swv_Name svc
        \<and> effectiveNamespace (svc_Namespace ds) = effectiveNamespace (swv_Namespace svc)"
      moreover from this have "svc_key ds = svc_key s" using assms(5) by (simp add: ServiceKey_eq_iff)
      ultimately show "ds = s" using distinct_map_eqD [OF assms(1) _ assms(3)] by blast
    qed
    then show ?thesis by (simp add: merge_in_flight_def)
  qed
  then have "dm_inFlight (deploy_maps_of sv paths fs sset) (svc_key s) = Some (svc\<lparr>swv_Values := svc_Values s, swv_ValuesFrom := svc_ValuesFrom s,
      swv_HelmOptions := svc_HelmOptions s, swv_HelmAction := svc_HelmAction s\<rparr>)"
    using stored_lookup [OF assms(2,4,3,5), of ?P "merge_in_flight fs"] P
    by (simp add: deploy_maps_of_def Let_def)
  then show ?thesis
    by (simp add: targets_of_ServicesToDeploy [OF assms(1,3)] deploy_step_def)
qed

text \<open>A stored service that is not in flight.\<close>

definition settled :: "ServiceSet \<Rightarrow> ServiceWithValues \<Rightarrow> bool" where
  "settled sset svc \<longleftrightarrow>
     swv_Version svc = [] \<or> DeployedVersions sset (swv_key svc) = Some (swv_Version svc)"

lemma settled_maps:
  fixes sv paths fs sset
  defines "m \<equiv> deploy_maps_of sv paths fs sset"
  assumes fs: "distinct (map svc_key fs)" and stored: "distinct (map swv_key (sss_Services (sset_Spec sset)))"
    and s: "s \<in> set fs" and svc: "svc \<in> set (sss_Services (sset_Spec sset))" "swv_key svc = svc_key s"
    and settled: "settled sset svc"
  shows "dm_inFlight m (svc_key s) = None"
    and "get_or [] (dm_desiredVersions m) (svc_key s) = svc_version s"
    and "get_or [] (dm_desiredTemplates m) (svc_key s) = svc_Template s"
    and "get_or [] (dm_storedTemplates m) (svc_key s) = swv_Template svc"
    and "get_or False (dm_upgradeAvailable m) (svc_key s) \<longleftrightarrow>
           swv_Version svc \<noteq> [] \<and> isDowngrade sv (svc_version s) (swv_Version svc)
           \<or> desiredTemplateInUpgradePaths paths svc (svc_Template s) (svc_version s)"
proof -
  let ?P = "\<lambda>svc. \<not> (swv_Version svc = [] \<or> swv_Version svc = get_or [] (DeployedVersions sset) (swv_key svc))"
  have "\<not> ?P svc" using settled by (auto simp: settled_def)
  from stored_lookup_None [where P = ?P, OF stored svc this] show "dm_inFlight m (svc_key s) = None"
    by (simp add: m_def deploy_maps_of_def Let_def)
  have v: "index_by svc_key svc_version fs (svc_key s) = Some (svc_version s)"
    and t: "index_by svc_key svc_Template fs (svc_key s) = Some (svc_Template s)"
    using index_by_distinct [OF fs s] by blast+
  then show "get_or [] (dm_desiredVersions m) (svc_key s) = svc_version s"
    and "get_or [] (dm_desiredTemplates m) (svc_key s) = svc_Template s"
    by (simp_all add: m_def deploy_maps_of_def Let_def)
  note lookup = stored_lookup [OF stored svc(1) s svc(2), of "\<lambda>_. True", simplified filter_True, OF TrueI]
  from lookup [of swv_Template] show "get_or [] (dm_storedTemplates m) (svc_key s) = swv_Template svc"
    by (simp add: m_def deploy_maps_of_def Let_def)
  from lookup [of "\<lambda>svc. swv_Version svc \<noteq> []
        \<and> isDowngrade sv (get_or [] (index_by svc_key svc_version fs) (swv_key svc)) (swv_Version svc)
        \<or> desiredTemplateInUpgradePaths paths svc (get_or [] (index_by svc_key svc_Template fs) (swv_key svc))
            (get_or [] (index_by svc_key svc_version fs) (swv_key svc))"]
  show "get_or False (dm_upgradeAvailable m) (svc_key s) \<longleftrightarrow>
           swv_Version svc \<noteq> [] \<and> isDowngrade sv (svc_version s) (swv_Version svc)
           \<or> desiredTemplateInUpgradePaths paths svc (svc_Template s) (svc_version s)"
    by (simp add: m_def deploy_maps_of_def Let_def get_or_def map_add_def v t svc(2))
qed

section \<open>Targets of settled services\<close>

definition path_key :: "ServiceUpgradePaths \<Rightarrow> ObjectKey" where
  "path_key p = ServiceKey (sup_Namespace p) (sup_Name p)"

lemma relevant_routes_unique:
  assumes "distinct (map path_key paths)" and "path \<in> set paths" and "path_key path = ServiceKey ns n"
    and "sup_Template path = t"
  shows "relevant_routes paths n ns t = sup_AvailableUpgrades path"
proof -
  have "filter (relevant_path n ns t) paths = [path]"
    using assms(1,2)
  proof (induction paths)
    case (Cons p ps)
    have key: "relevant_path n ns t q \<Longrightarrow> path_key q = path_key path" for q
      by (simp add: relevant_path_def assms(3)) (simp add: path_key_def ServiceKey_eq_iff)
    have self: "relevant_path n ns t path"
      using assms(3,4) by (auto simp: relevant_path_def path_key_def ServiceKey_eq_iff)
    show ?case
    proof (cases "p = path")
      case True
      then have "filter (relevant_path n ns t) ps = []"
        using Cons.prems(1) key unfolding filter_empty_conv
        by (metis True distinct.simps(2) imageI list.set_map list.simps(9))
      with True self show ?thesis by simp
    next
      case False
      then have "path \<in> set ps" using Cons.prems(2) by simp
      moreover from this have "\<not> relevant_path n ns t p"
        using Cons.prems(1) key [of p] by auto
      ultimately show ?thesis using Cons by simp
    qed
  qed simp
  then show ?thesis by (simp add: relevant_routes_def)
qed

lemma desiredTemplateInUpgradePaths_unique:
  assumes "distinct (map path_key paths)" and "path \<in> set paths"
    and "sup_Name path = swv_Name svc" and "sup_Namespace path = effectiveNamespace (swv_Namespace svc)"
    and "sup_Template path = swv_Template svc"
  shows "desiredTemplateInUpgradePaths paths svc t v \<longleftrightarrow>
           (\<exists>r\<in>set (sup_AvailableUpgrades path). \<exists>c\<in>set (up_Versions r). au_Name c = t \<or> au_Version c = v)"
  using assms(1,2)
proof (induction paths)
  case (Cons p ps)
  have "path_key p = path_key path" if "sup_Name p = swv_Name svc" "sup_Namespace p = effectiveNamespace (swv_Namespace svc)"
    using that assms(3,4) by (simp add: path_key_def)
  with Cons assms(3-5) show ?case by (cases "p = path") (auto simp: list_ex_iff)
qed simp

text \<open>
  C3: A settled service with a template chain is moved by exactly one hop: the emitted template is
  an upgrade the chain allows directly from the stored template, from which the desired template
  is still reachable. A version the chain does not state is left empty for later resolution.
\<close>

theorem ServicesToDeploy_next_hop:
  assumes fs: "distinct (map svc_key fs)" and stored: "distinct (map swv_key (sss_Services (sset_Spec sset)))"
    and s: "s \<in> set fs" "\<not> svc_Disable s"
    and svc: "svc \<in> set (sss_Services (sset_Spec sset))" "swv_key svc = svc_key s" "settled sset svc"
    and paths: "distinct (map path_key paths)" "path \<in> set paths"
    and path: "sup_Name path = svc_Name s" "sup_Namespace path = effectiveNamespace (svc_Namespace s)"
      "sup_Template path = swv_Template svc"
    and chain: "possible_routes chain (swv_Template svc) (sup_AvailableUpgrades path)"
      "[] \<notin> au_Name ` chain_hops chain (swv_Template svc)"
    and reach: "(swv_Template svc, svc_Template s) \<in> (upgrade_rel (tcs_SupportedTemplates chain))\<^sup>+"
  shows "\<exists>u\<in>set (upgrades_of (tcs_SupportedTemplates chain) (swv_Template svc)).
           targets_of s (ServicesToDeploy sv paths fs sset) =
             [makeService s (if au_Version u = au_Name u then [] else au_Version u) (au_Name u)]
           \<and> (au_Name u, svc_Template s) \<in> (upgrade_rel (tcs_SupportedTemplates chain))\<^sup>*"
proof -
  let ?t = "swv_Template svc" and ?d = "svc_Template s"
  let ?next = "nextUpgradeStep paths (svc_Name s) (svc_Namespace s) ?t ?d"
  note maps = settled_maps [OF fs stored s(1) svc, of sv paths]
  have "relevant_routes paths (svc_Name s) (svc_Namespace s) ?t = sup_AvailableUpgrades path"
    by (rule relevant_routes_unique [OF paths]) (simp_all add: path_key_def path)
  from chain_routes.next_step [OF chain(1) this, of ?d] reach
  have hop: "?next \<in> chain_hops chain ?t" "(au_Name ?next, ?d) \<in> (upgrade_rel (tcs_SupportedTemplates chain))\<^sup>*"
    by (simp_all add: hop_rel_chain_hops)
  from hop(1) obtain u where u: "u \<in> set (upgrades_of (tcs_SupportedTemplates chain) ?t)" "?next = default_version u"
    by (auto simp: chain_hops_def)
  have name: "au_Name ?next \<noteq> []" using hop(1) chain(2) by (metis imageI)
  have key: "sup_Name path = swv_Name svc" "sup_Namespace path = effectiveNamespace (swv_Namespace svc)"
    using path svc(2) by (simp_all add: ServiceKey_eq_iff)
  have "\<not> (\<forall>r\<in>set (sup_AvailableUpgrades path). index_func (\<lambda>u. au_Name u = ?d) (up_Versions r) = None)"
    using chain_routes.search_complete [OF chain(1), of ?d] reach by (simp add: hop_rel_chain_hops)
  then have "desiredTemplateInUpgradePaths paths svc ?d (svc_version s)"
    unfolding desiredTemplateInUpgradePaths_unique [OF paths key path(3)] index_func_None by blast
  with maps s(2) name paths(2) have "targets_of s (ServicesToDeploy sv paths fs sset) =
      appendIfNotPresent [] s (if au_Version ?next = au_Name ?next then ?next\<lparr>au_Version := []\<rparr> else ?next)"
    unfolding targets_of_ServicesToDeploy [OF fs s(1)] deploy_step_def by (auto simp: Let_def)
  also have "\<dots> = [makeService s (if au_Version ?next = au_Name ?next then [] else au_Version ?next) (au_Name ?next)]"
    by (simp add: appendIfNotPresent_fresh)
  also have "\<dots> = [makeService s (if au_Version u = au_Name u then [] else au_Version u) (au_Name u)]"
    by (simp add: u(2) default_version_Version)
  finally show ?thesis using u hop(2) by (intro bexI [of _ u]) simp_all
qed

text \<open>
  When neither a downgrade is asked for nor any route mentions the desired template or
  version, an enabled, settled service is still emitted with the version and template of the
  desired service: the chain does not hold it back at the stored version.
\<close>

theorem ServicesToDeploy_unreachable:
  assumes fs: "distinct (map svc_key fs)" and stored: "distinct (map swv_key (sss_Services (sset_Spec sset)))"
    and s: "s \<in> set fs" "\<not> svc_Disable s"
    and svc: "svc \<in> set (sss_Services (sset_Spec sset))" "swv_key svc = svc_key s" "settled sset svc"
    and "\<not> isDowngrade sv (svc_version s) (swv_Version svc)"
    and "\<not> desiredTemplateInUpgradePaths paths svc (svc_Template s) (svc_version s)"
  shows "targets_of s (ServicesToDeploy sv paths fs sset) = [makeService s (svc_Version s) (svc_Template s)]"
proof -
  note maps = settled_maps [OF fs stored s(1) svc, of sv paths]
  have "index_func (\<lambda>svc. swv_Name svc = svc_Name s
      \<and> effectiveNamespace (swv_Namespace svc) = ok_Namespace (svc_key s)) (sss_Services (sset_Spec sset)) \<noteq> None"
    using svc(1,2) by (auto simp: index_func_None ServiceKey_eq_iff)
  with maps assms(8,9) s(2) show ?thesis
    unfolding targets_of_ServicesToDeploy [OF fs s(1)] deploy_step_def by (auto simp: Let_def)
qed

text \<open>
  A disabled service that is not in flight gets no target, whatever the chain says.
\<close>

theorem ServicesToDeploy_disabled:
  assumes fs: "distinct (map svc_key fs)" and stored: "distinct (map swv_key (sss_Services (sset_Spec sset)))"
    and s: "s \<in> set fs" "svc_Disable s"
    and svc: "svc \<in> set (sss_Services (sset_Spec sset))" "swv_key svc = svc_key s" "settled sset svc"
  shows "targets_of s (ServicesToDeploy sv paths fs sset) = []"
  using settled_maps(1) [OF fs stored s(1) svc, of sv paths] s(2)
  by (simp add: targets_of_ServicesToDeploy [OF fs s(1)] deploy_step_def)

text \<open>The service \<open>web\<close>, stored at template \<open>a\<close> and desired at template \<open>b\<close>.\<close>

definition example_web :: Service where
  "example_web = (example_service ''web'' [])\<lparr>svc_Template := ''b''\<rparr>"

definition example_web_stored :: "string \<Rightarrow> ServiceWithValues" where
  "example_web_stored v = (example_stored ''web'' v)\<lparr>swv_Template := ''a''\<rparr>"

definition example_web_path :: ServiceUpgradePaths where
  "example_web_path = \<lparr>sup_Name = ''web'', sup_Namespace = ''default'', sup_Template = ''a'',
       sup_AvailableUpgrades = [\<lparr>up_Versions = [\<lparr>au_Name = ''b'', au_Version = ''b''\<rparr>]\<rparr>]\<rparr>"

definition no_semver :: "nat semver_lib" where
  "no_semver = \<lparr>NewVersion = (\<lambda>_. None), LessThan = (<)\<rparr>"

lemma example_web_sel [simp]:
  "svc_Name example_web = ''web''" "svc_Namespace example_web = []" "svc_Template example_web = ''b''"
  "svc_Version example_web = []" "svc_Disable example_web = False"
  "swv_Name (example_web_stored v) = ''web''" "swv_Namespace (example_web_stored v) = []"
  "swv_Template (example_web_stored v) = ''a''" "swv_Version (example_web_stored v) = v"
  "sup_Name example_web_path = ''web''" "sup_Namespace example_web_path = ''default''"
  "sup_Template example_web_path = ''a''"
  "sup_AvailableUpgrades example_web_path = [\<lparr>up_Versions = [\<lparr>au_Name = ''b'', au_Version = ''b''\<rparr>]\<rparr>]"
  by (simp_all add: example_web_def example_web_stored_def example_stored_def example_web_path_def)

lemma example_set_sel [simp]:
  "sss_Services (sset_Spec (example_set spec status)) = spec"
  "ssst_Services (sset_Status (example_set spec status)) = status"
  by (simp_all add: example_set_def)

theorem ServicesToDeploy_keys_witness:
  "let result = ServicesToDeploy no_semver [] [example_web] (example_set [] [])
   in result = [makeService example_web ''b'' ''b''] \<and> distinct (map swv_key result)"
proof -
  have "ServicesToDeploy no_semver [] [example_web] (example_set [] []) = [makeService example_web ''b'' ''b'']"
    by (simp add: ServicesToDeploy_def deploy_maps_of_def deploy_step_def index_by_def get_or_def ServiceVersion_def Let_def)
  then show ?thesis
    using ServicesToDeploy_keys [of "[example_web]" no_semver "[]" "example_set [] []"] by simp
qed

theorem ServicesToDeploy_in_flight_witness:
  "map swv_Template (targets_of example_web
     (ServicesToDeploy no_semver [example_web_path] [example_web] (example_set [example_web_stored ''1''] []))) = [''a'']"
  using ServicesToDeploy_in_flight [of "[example_web]" "example_set [example_web_stored ''1''] []" example_web
      "example_web_stored ''1''" no_semver "[example_web_path]"]
  by (simp add: DeployedVersions_def)

theorem ServicesToDeploy_next_hop_witness:
  "targets_of example_web (ServicesToDeploy no_semver [example_web_path] [example_web]
       (example_set [example_web_stored []] [])) = [makeService example_web [] ''b'']"
proof -
  have "(''a'', ''b'') \<in> (upgrade_rel (tcs_SupportedTemplates example_chain))\<^sup>+"
    using example_chain_reachable by blast
  moreover have "[] \<notin> au_Name ` chain_hops example_chain ''a''"
    by (simp add: chain_hops_def example_chain_upgrades)
  ultimately show ?thesis
    using ServicesToDeploy_next_hop [of "[example_web]" "example_set [example_web_stored []] []" example_web
        "example_web_stored []" "[example_web_path]" example_web_path example_chain no_semver] example_chain_possible
    by (simp add: settled_def effectiveNamespace_def example_chain_upgrades)
qed

text \<open>Here the chain knows no upgrade of \<open>a\<close>, and \<open>b\<close> is deployed all the same.\<close>

theorem ServicesToDeploy_unreachable_witness:
  "targets_of example_web (ServicesToDeploy no_semver [example_web_path\<lparr>sup_AvailableUpgrades := []\<rparr>] [example_web]
       (example_set [example_web_stored []] [])) = [makeService example_web [] ''b'']"
  using ServicesToDeploy_unreachable [of "[example_web]" "example_set [example_web_stored []] []" example_web
      "example_web_stored []" no_semver "[example_web_path\<lparr>sup_AvailableUpgrades := []\<rparr>]"]
  by (simp add: settled_def isDowngrade_def no_semver_def effectiveNamespace_def)

theorem ServicesToDeploy_disabled_witness:
  "targets_of (example_web\<lparr>svc_Disable := True\<rparr>)
     (ServicesToDeploy no_semver [example_web_path] [example_web\<lparr>svc_Disable := True\<rparr>]
       (example_set [example_web_stored []] [])) = []"
  using ServicesToDeploy_disabled [of "[example_web\<lparr>svc_Disable := True\<rparr>]" "example_set [example_web_stored []] []"
      "example_web\<lparr>svc_Disable := True\<rparr>" "example_web_stored []" no_semver "[example_web_path]"]
  by (simp add: settled_def)

end
