(* ===== verification/ServiceSetPipeline.thy ===== *)
theory ServiceSetPipeline
  imports ServicesToDeploy
begin

text \<open>
  The path from a ClusterDeployment or MultiClusterService to the ServiceSet that is written:
  \<open>Builder.Build\<close> (\<^verbatim>\<open>internal/serviceset/builder.go\<close>), \<open>ResolveServicesToApply\<close> and
  \<open>GetServiceSetWithOperation\<close> (\<^verbatim>\<open>internal/serviceset/util.go\<close>) and
  \<open>Processor.CreateOrUpdateServiceSet\<close> (\<^verbatim>\<open>internal/serviceset/processor.go\<close>). The code updates the
  ServiceSet it was given in place; here every step returns the updated one.
\<close>

section \<open>Definitions\<close>

subsection \<open>Labels of a selector\<close>

text \<open>
  \<open>labels.Requirement\<close>: the converted selector. The conversion
  (\<open>metav1.LabelSelectorAsSelector\<close>) is library code, a parameter; the values of a
  requirement are listed in sorted order.
\<close>

datatype selection_operator =
    Sel_Equals | Sel_DoubleEquals | Sel_In | Sel_NotIn | Sel_NotEquals
  | Sel_Exists | Sel_DoesNotExist | Sel_GreaterThan | Sel_LessThan

record requirement =
  req_Key :: string
  req_Operator :: selection_operator
  req_Values :: "string list"

type_synonym as_selector = "LabelSelector \<Rightarrow> string + requirement list"

definition requirement_label ::
  "requirement \<Rightarrow> (string \<times> string) list \<Rightarrow> (string \<times> string) list" where
  "requirement_label req result =
     (case req_Operator req of
        Sel_Equals \<Rightarrow> if length (req_Values req) = 1 then AList.update (req_Key req) (hd (req_Values req)) result else result
      | Sel_DoubleEquals \<Rightarrow> if length (req_Values req) = 1 then AList.update (req_Key req) (hd (req_Values req)) result else result
      | Sel_In \<Rightarrow> if length (req_Values req) > 0 then AList.update (req_Key req) (hd (req_Values req)) result else result
      | Sel_Exists \<Rightarrow> (case alookup result (req_Key req) of None \<Rightarrow> AList.update (req_Key req) [] result | Some _ \<Rightarrow> result)
      | _ \<Rightarrow> result)"

definition extractRequiredLabels ::
  "as_selector \<Rightarrow> LabelSelector option \<Rightarrow> svcset_error + (string \<times> string) list" where
  "extractRequiredLabels asSelector selector =
     (case selector of
        None \<Rightarrow> Inl SelectorNil
      | Some sel \<Rightarrow>
          bindE (wrapE InvalidSelector (asSelector sel)) (\<lambda>requirements.
            Inr (fold requirement_label requirements (ls_MatchLabels sel))))"

subsection \<open>Provider configuration\<close>

text \<open>\<open>json.Marshal\<close> of the local struct \<open>config\<close>: every field is \<open>omitempty\<close>.\<close>

definition marshal_config :: "ServiceSpec \<Rightarrow> json" where
  "marshal_config sp = JObj (concat
     [if sp_SyncMode sp = [] then [] else [(''syncMode'', JStr (sp_SyncMode sp))],
      if sp_TemplateResourceRefs sp = [] then [] else [(''templateResourceRefs'', JArr (sp_TemplateResourceRefs sp))],
      if sp_PolicyRefs sp = [] then [] else [(''policyRefs'', JArr (sp_PolicyRefs sp))],
      if sp_DriftIgnore sp = [] then [] else [(''driftIgnore'', JArr (sp_DriftIgnore sp))],
      if sp_DriftExclusions sp = [] then [] else [(''driftExclusions'', JArr (sp_DriftExclusions sp))],
      if sp_Priority sp = 0 then [] else [(''priority'', JNum (sp_Priority sp))],
      if \<not> sp_StopOnConflict sp then [] else [(''stopOnConflict'', JBool True)],
      if \<not> sp_Reload sp then [] else [(''reloader'', JBool True)],
      if \<not> sp_ContinueOnError sp then [] else [(''continueOnError'', JBool True)]])"

definition DefaultStateManagementProvider :: string where
  "DefaultStateManagementProvider = ''ksm-projectsveltos''"

definition StateManagementProviderConfigFromServiceSpec :: "ServiceSpec \<Rightarrow> StateManagementProviderConfig" where
  "StateManagementProviderConfigFromServiceSpec serviceSpec =
     (let provider = sp_Provider serviceSpec;
          providerConfig = \<lparr>smpc_Config = None, smpc_Name = [], smpc_SelfManagement = smpc_SelfManagement provider\<rparr>
      in case (smpc_Name provider = [], smpc_Config provider) of
           (True, None) \<Rightarrow> providerConfig\<lparr>smpc_Name := DefaultStateManagementProvider,
                                           smpc_Config := Some (marshal_config serviceSpec)\<rparr>
         | (True, Some config) \<Rightarrow> providerConfig\<lparr>smpc_Name := DefaultStateManagementProvider,
                                                  smpc_Config := Some config\<rparr>
         | (False, None) \<Rightarrow> providerConfig\<lparr>smpc_Name := smpc_Name provider\<rparr>
         | (False, Some config) \<Rightarrow> provider)"

subsection \<open>Builder\<close>

record Builder =
  b_ServiceSet :: ServiceSet
  b_ClusterDeployment :: "ClusterDeployment option"
  b_MultiClusterService :: "MultiClusterService option"
  b_Selector :: "LabelSelector option"
  b_ServicesToDeploy :: "ServiceWithValues list"

definition NewBuilder :: "ClusterDeployment option \<Rightarrow> ServiceSet \<Rightarrow> LabelSelector option \<Rightarrow> Builder" where
  "NewBuilder clusterDeployment serviceSet selector =
     \<lparr>b_ServiceSet = serviceSet, b_ClusterDeployment = clusterDeployment, b_MultiClusterService = None,
      b_Selector = selector, b_ServicesToDeploy = []\<rparr>"

definition WithMultiClusterService :: "MultiClusterService option \<Rightarrow> Builder \<Rightarrow> Builder" where
  "WithMultiClusterService m b = b\<lparr>b_MultiClusterService := m\<rparr>"

definition WithServicesToDeploy :: "ServiceWithValues list \<Rightarrow> Builder \<Rightarrow> Builder" where
  "WithServicesToDeploy s b = b\<lparr>b_ServicesToDeploy := s\<rparr>"

text \<open>\<open>metav1.NewControllerRef\<close>; without an owner at all the code dereferences nil.\<close>

definition owner_of :: "ClusterDeployment option \<Rightarrow> MultiClusterService option \<Rightarrow> OwnerReference" where
  "owner_of cd mcs =
     (case cd of
        Some d \<Rightarrow> \<lparr>or_APIVersion = ''k0rdent.mirantis.com/v1beta1'', or_Kind = ''ClusterDeployment'',
                   or_Name = cd_Name d, or_UID = cd_UID d\<rparr>
      | None \<Rightarrow> \<lparr>or_APIVersion = ''k0rdent.mirantis.com/v1beta1'', or_Kind = ''MultiClusterService'',
                 or_Name = (case mcs of None \<Rightarrow> [] | Some m \<Rightarrow> mcs_Name m),
                 or_UID = (case mcs of None \<Rightarrow> [] | Some m \<Rightarrow> mcs_UID m)\<rparr>)"

definition Build :: "as_selector \<Rightarrow> Builder \<Rightarrow> svcset_error + ServiceSet" where
  "Build asSelector b =
     bindE (extractRequiredLabels asSelector (b_Selector b)) (\<lambda>labels.
       let cd = b_ClusterDeployment b; mcs = b_MultiClusterService b;
           zero_config = \<lparr>smpc_Config = None, smpc_Name = [], smpc_SelfManagement = False\<rparr>;
           providerConfig =
             (case mcs of
                Some m \<Rightarrow> StateManagementProviderConfigFromServiceSpec (mcs_ServiceSpec m)
              | None \<Rightarrow> (case cd of
                  Some d \<Rightarrow> StateManagementProviderConfigFromServiceSpec (cd_ServiceSpec d)
                | None \<Rightarrow> zero_config))
       in Inr ((b_ServiceSet b)\<lparr>
            sset_OwnerReferences := [owner_of cd mcs],
            sset_Labels := fold (\<lambda>(k, v). AList.update k v) labels (sset_Labels (b_ServiceSet b)),
            sset_Spec := \<lparr>sss_Cluster = (case cd of None \<Rightarrow> [] | Some d \<Rightarrow> cd_Name d),
                          sss_MultiClusterService = (case mcs of None \<Rightarrow> [] | Some m \<Rightarrow> mcs_Name m),
                          sss_Provider = providerConfig\<lparr>smpc_SelfManagement := (cd = None)\<rparr>,
                          sss_Services = b_ServicesToDeploy b\<rparr>\<rparr>))"

subsection \<open>Resolution and the operation\<close>

text \<open>
  What the environment contributes to a reconciliation: the iteration order of the Go maps, the
  iteration order over the destinations of each service's chain, and the two libraries.
\<close>

record 'v pipeline_env =
  env_perm :: "ObjectKey list \<Rightarrow> ObjectKey list"
  env_order :: "Service \<Rightarrow> string list"
  env_semver :: "'v semver_lib"
  env_asSelector :: as_selector

text \<open>
  \<open>ResolveServiceVersions\<close> is called on the stored services of the ServiceSet, whose slice
  it updates in place: the second component is the ServiceSet with the resolved services.
\<close>

definition resolve_services ::
  "svc_client \<Rightarrow> string \<Rightarrow> Service list \<Rightarrow> svcset_error + Service list" where
  "resolve_services c ns services =
     bindE (ResolveServiceVersions c ns (ServiceSlice services)) (\<lambda>r.
       case r of ServiceSlice s \<Rightarrow> Inr s | _ \<Rightarrow> Inl UnsupportedSliceType)"

definition resolve_stored ::
  "svc_client \<Rightarrow> string \<Rightarrow> ServiceWithValues list \<Rightarrow> svcset_error + ServiceWithValues list" where
  "resolve_stored c ns services =
     bindE (ResolveServiceVersions c ns (ServiceWithValuesSlice services)) (\<lambda>r.
       case r of ServiceWithValuesSlice s \<Rightarrow> Inr s | _ \<Rightarrow> Inl UnsupportedSliceType)"

definition ResolveServicesToApply ::
  "'v pipeline_env \<Rightarrow> svc_client \<Rightarrow> string \<Rightarrow> MultiClusterService option \<Rightarrow> ClusterDeployment option
     \<Rightarrow> Service list \<Rightarrow> ServiceSet \<Rightarrow> svcset_error + ServiceWithValues list \<times> ServiceSet" where
  "ResolveServicesToApply env c systemNamespace mcs cd desiredServices serviceSet =
     (let templateNamespace = sset_Namespace serviceSet in
      bindE (resolve_services c templateNamespace desiredServices) (\<lambda>resolvedDesired.
      bindE (FilterServiceDependencies (env_perm env) c systemNamespace mcs cd resolvedDesired) (\<lambda>filteredServices.
      bindE (resolve_stored c templateNamespace (sss_Services (sset_Spec serviceSet))) (\<lambda>storedServices.
      let serviceSet' = serviceSet\<lparr>sset_Spec := (sset_Spec serviceSet)\<lparr>sss_Services := storedServices\<rparr>\<rparr>;
          (upgradePaths, errs) = ServicesUpgradePaths (env_order env) c
             (ServicesWithDesiredChains resolvedDesired storedServices) templateNamespace
      in if errs \<noteq> [] then Inl (JoinedErrors errs)
         else bindE (resolve_stored c templateNamespace
                       (ServicesToDeploy (env_semver env) upgradePaths filteredServices serviceSet'))
                (\<lambda>servicesToDeploy. Inr (servicesToDeploy, serviceSet'))))))"

record OperationRequisites =
  op_ObjectKey :: ObjectKey
  op_MCS :: "MultiClusterService option"
  op_CD :: "ClusterDeployment option"
  op_SystemNamespace :: string

text \<open>
  The spec the request comes from: the MultiClusterService if there is one, else the
  ClusterDeployment. With neither, the code dereferences nil.
\<close>

definition requested_spec :: "OperationRequisites \<Rightarrow> ServiceSpec option" where
  "requested_spec req =
     (case op_MCS req of Some m \<Rightarrow> Some (mcs_ServiceSpec m)
      | None \<Rightarrow> map_option cd_ServiceSpec (op_CD req))"

text \<open>The stored ServiceSet and the initial operation: update, or create if there is none.\<close>

definition load_service_set ::
  "svc_client \<Rightarrow> ObjectKey \<Rightarrow> svcset_error + ServiceSet \<times> ServiceSetOperation" where
  "load_service_set c key =
     (case getServiceSet c key of
        Inr s \<Rightarrow> Inr (s, ServiceSetOperationUpdate)
      | Inl e \<Rightarrow>
          if e = NotFound
          then Inr (empty_service_set\<lparr>sset_Name := ok_Name key, sset_Namespace := ok_Namespace key\<rparr>,
                    ServiceSetOperationCreate)
          else Inl (ServiceSetFetchFailed key e))"

definition GetServiceSetWithOperation ::
  "'v pipeline_env \<Rightarrow> svc_client \<Rightarrow> OperationRequisites
     \<Rightarrow> svcset_error + ServiceSet \<times> ServiceSetOperation" where
  "GetServiceSetWithOperation env c req =
     (case requested_spec req of
        None \<Rightarrow> Inl NilOwner
      | Some serviceSpec \<Rightarrow>
     (let desiredServices = sp_Services serviceSpec;
          providerSpec = StateManagementProviderConfigFromServiceSpec serviceSpec;
          key = op_ObjectKey req in
      bindE (wrapE (ProviderFetchFailed (smpc_Name providerSpec)) (getProviderSelector c (smpc_Name providerSpec))) (\<lambda>selector.
      bindE (load_service_set c key) (\<lambda>(serviceSet, op).
      bindE (ResolveServicesToApply env c (op_SystemNamespace req) (op_MCS req) (op_CD req) desiredServices serviceSet)
        (\<lambda>(filteredServices, serviceSet').
      let resultingServices = BuildServicesList (sss_Services (sset_Spec serviceSet')) filteredServices desiredServices;
          existingSpec = sset_Spec serviceSet'
      in bindE (Build (env_asSelector env) (WithServicesToDeploy resultingServices
                  (WithMultiClusterService (op_MCS req) (NewBuilder (op_CD req) serviceSet' selector))))
           (\<lambda>candidate.
              if op = ServiceSetOperationUpdate \<and> existingSpec = sset_Spec candidate
              then Inr (candidate, ServiceSetOperationNone)
              else Inr (candidate, op)))))))"

subsection \<open>Writing the ServiceSet\<close>

text \<open>The write calls of the client, a parameter: an error or nil, and the state of the API server.\<close>

record 'w write_client =
  createServiceSet :: "ServiceSet \<Rightarrow> 'w \<Rightarrow> api_error option \<times> 'w"
  updateServiceSet :: "ServiceSet \<Rightarrow> 'w \<Rightarrow> api_error option \<times> 'w"

definition CreateOrUpdateServiceSet ::
  "'w write_client \<Rightarrow> ServiceSetOperation \<Rightarrow> ServiceSet \<Rightarrow> 'w \<Rightarrow> svcset_error option \<times> 'w" where
  "CreateOrUpdateServiceSet p op serviceSet w =
     (let key = ObjectKey (sset_Namespace serviceSet) (sset_Name serviceSet)
      in case op of
           ServiceSetOperationCreate \<Rightarrow>
             (case createServiceSet p serviceSet w of
                (None, w') \<Rightarrow> (None, w')
              | (Some AlreadyExists, w') \<Rightarrow> (None, w')
              | (Some e, w') \<Rightarrow> (Some (WriteFailed key e), w'))
         | ServiceSetOperationUpdate \<Rightarrow>
             (case updateServiceSet p serviceSet w of
                (Some Conflict, w') \<Rightarrow> (None, w')
              | (Some e, w') \<Rightarrow> (Some (WriteFailed key e), w')
              | (None, w') \<Rightarrow> (None, w'))
         | ServiceSetOperationNone \<Rightarrow> (None, w))"

section \<open>Labels satisfy the provider's selector\<close>

text \<open>\<open>Requirement.Matches\<close> for the operators a positive label can satisfy.\<close>

definition req_satisfiable :: "requirement \<Rightarrow> bool" where
  "req_satisfiable req \<longleftrightarrow>
     (req_Operator req \<in> {Sel_Equals, Sel_DoubleEquals} \<and> length (req_Values req) = 1)
     \<or> (req_Operator req = Sel_In \<and> req_Values req \<noteq> []) \<or> req_Operator req = Sel_Exists"

definition req_matches :: "(string \<times> string) list \<Rightarrow> requirement \<Rightarrow> bool" where
  "req_matches labels req \<longleftrightarrow>
     (case alookup labels (req_Key req) of
        None \<Rightarrow> False
      | Some v \<Rightarrow> req_Operator req = Sel_Exists \<or> v \<in> set (req_Values req))"

lemma requirement_label_other:
  "k \<noteq> req_Key req \<Longrightarrow> alookup (requirement_label req labels) k = alookup labels k"
  by (simp add: requirement_label_def split: selection_operator.split option.split)

lemma requirement_label_matches: "req_satisfiable req \<Longrightarrow> req_matches (requirement_label req labels) req"
  by (cases "req_Values req")
    (auto simp: req_satisfiable_def req_matches_def requirement_label_def split: option.splits)

lemma fold_requirement_label_other:
  "k \<notin> req_Key ` set reqs \<Longrightarrow> alookup (fold requirement_label reqs labels) k = alookup labels k"
  by (induction reqs arbitrary: labels) (auto simp: requirement_label_other)

lemma fold_requirement_label_matches:
  assumes "distinct (map req_Key reqs)" and "req \<in> set reqs" and "req_satisfiable req"
  shows "req_matches (fold requirement_label reqs labels) req"
  using assms(1,2)
proof (induction reqs arbitrary: labels)
  case (Cons r reqs)
  show ?case
  proof (cases "r = req")
    case True
    then have "req_Key req \<notin> req_Key ` set reqs" using Cons.prems(1) by auto
    with True requirement_label_matches [OF assms(3), of labels] show ?thesis
      by (simp add: req_matches_def fold_requirement_label_other)
  next
    case False
    with Cons show ?thesis by simp
  qed
qed simp

lemma alookup_fold_update:
  "alookup (fold (\<lambda>(k, v). AList.update k v) labels base) = alookup base ++ map_of (rev labels)"
  by (induction labels arbitrary: base) (auto simp: map_add_def fun_eq_iff map_of_append split: option.split)

lemma distinct_keys_requirement_label:
  "distinct (map fst labels) \<Longrightarrow> distinct (map fst (requirement_label req labels))"
  by (simp add: requirement_label_def distinct_update split: selection_operator.split option.split)

lemma distinct_keys_fold_requirement_label:
  "distinct (map fst labels) \<Longrightarrow> distinct (map fst (fold requirement_label reqs labels))"
  by (induction reqs arbitrary: labels) (auto simp: distinct_keys_requirement_label)

text \<open>
  A built ServiceSet carries labels that satisfy every requirement of the provider's selector
  that labels can satisfy, so the provider that was asked for selects it; labels that were on the
  ServiceSet before do not get in the way.
\<close>

theorem Build_selected_by_provider:
  assumes "Build asSelector b = Inr sset" and "b_Selector b = Some sel" and "asSelector sel = Inr reqs"
    and "distinct (map fst (ls_MatchLabels sel))" and "distinct (map req_Key reqs)"
    and "req \<in> set reqs" and "req_satisfiable req"
  shows "req_matches (sset_Labels sset) req"
proof -
  let ?labels = "fold requirement_label reqs (ls_MatchLabels sel)"
  have dist: "distinct (map fst ?labels)" using assms(4) by (rule distinct_keys_fold_requirement_label)
  have "sset_Labels sset = fold (\<lambda>(k, v). AList.update k v) ?labels (sset_Labels (b_ServiceSet b))"
    using assms(1-3) by (auto simp: Build_def extractRequiredLabels_def Let_def)
  then have "alookup (sset_Labels sset) = alookup (sset_Labels (b_ServiceSet b)) ++ alookup ?labels"
    using dist map_of_inject_set [of "rev ?labels" ?labels]
    by (simp only: alookup_fold_update) (simp add: alookup_def rev_map [symmetric])
  moreover have "req_matches ?labels req" by (rule fold_requirement_label_matches [OF assms(5-7)])
  ultimately show ?thesis
    by (auto simp: req_matches_def map_add_def split: option.splits)
qed

text \<open>
  The provider configuration derived from a service spec always names a provider; a named
  provider keeps its name, a configuration that was given is kept as it is, and only a spec with
  neither is translated from the deprecated fields.
\<close>

theorem StateManagementProviderConfigFromServiceSpec_cases:
  "smpc_Name (StateManagementProviderConfigFromServiceSpec sp) =
     (if smpc_Name (sp_Provider sp) = [] then DefaultStateManagementProvider else smpc_Name (sp_Provider sp))
   \<and> smpc_Config (StateManagementProviderConfigFromServiceSpec sp) =
       (case smpc_Config (sp_Provider sp) of
          Some config \<Rightarrow> Some config
        | None \<Rightarrow> if smpc_Name (sp_Provider sp) = [] then Some (marshal_config sp) else None)
   \<and> smpc_SelfManagement (StateManagementProviderConfigFromServiceSpec sp) = smpc_SelfManagement (sp_Provider sp)"
  by (auto simp: StateManagementProviderConfigFromServiceSpec_def Let_def split: option.split bool.split)

section \<open>Resolution keeps identity and dependencies\<close>

lemma resolve_services_Inr:
  "resolve_services c ns xs = Inr ys \<longleftrightarrow> fillServiceVersions c ns xs = Inr ys"
  by (auto simp: resolve_services_def ResolveServiceVersions_def result_simps)

lemma resolve_stored_Inr:
  "resolve_stored c ns xs = Inr ys \<longleftrightarrow> fillServiceWithValueVersions c ns xs = Inr ys"
  by (auto simp: resolve_stored_def ResolveServiceVersions_def result_simps)

lemma service_deps_image:
  "service_deps xs = (\<Union>p\<in>set (map (\<lambda>s. (svc_key s, dep_keys s)) xs). {fst p} \<times> set (snd p))"
  by (auto simp: service_deps_def)

lemma resolve_services_same:
  assumes "resolve_services c ns xs = Inr ys"
  shows "map svc_key ys = map svc_key xs" and "service_deps ys = service_deps xs"
proof -
  from assms have rel: "list_all2 (\<lambda>s s'. \<exists>v. s' = s\<lparr>svc_Version := v\<rparr>) xs ys"
    by (auto simp: resolve_services_Inr dest!: fillServiceVersions_pointwise elim!: list_all2_mono)
  then show "map svc_key ys = map svc_key xs"
    by (induction rule: list_all2_induct) auto
  have "map (\<lambda>s. (svc_key s, dep_keys s)) ys = map (\<lambda>s. (svc_key s, dep_keys s)) xs"
    using rel by (induction rule: list_all2_induct) auto
  then have "set (map (\<lambda>s. (svc_key s, dep_keys s)) ys) = set (map (\<lambda>s. (svc_key s, dep_keys s)) xs)"
    by (rule arg_cong)
  then show "service_deps ys = service_deps xs" unfolding service_deps_image by simp
qed

lemma resolve_stored_same:
  assumes "resolve_stored c ns xs = Inr ys"
  shows "map swv_key ys = map swv_key xs"
proof -
  from assms have "list_all2 (\<lambda>s s'. \<exists>v. s' = s\<lparr>swv_Version := v\<rparr>) xs ys"
    by (auto simp: resolve_stored_Inr dest!: fillServiceWithValueVersions_pointwise elim!: list_all2_mono)
  then show ?thesis by (induction rule: list_all2_induct) auto
qed

section \<open>The whole pipeline\<close>

text \<open>
  A successful run taken apart: the services it resolved, filtered, computed and merged.
\<close>

lemma Build_services: "Build asSelector b = Inr cand \<Longrightarrow> sss_Services (sset_Spec cand) = b_ServicesToDeploy b"
  by (auto simp: Build_def result_simps Let_def)

lemma load_service_set_Inr:
  "load_service_set c key = Inr (s, op) \<Longrightarrow>
     getServiceSet c key = Inr s \<and> op = ServiceSetOperationUpdate
     \<or> getServiceSet c key = Inl NotFound \<and> op = ServiceSetOperationCreate
       \<and> s = empty_service_set\<lparr>sset_Name := ok_Name key, sset_Namespace := ok_Namespace key\<rparr>"
  by (auto simp: load_service_set_def split: sum.splits if_splits)

definition with_services :: "ServiceSet \<Rightarrow> ServiceWithValues list \<Rightarrow> ServiceSet" where
  "with_services sset services = sset\<lparr>sset_Spec := (sset_Spec sset)\<lparr>sss_Services := services\<rparr>\<rparr>"

lemma with_services_sel [simp]:
  "sss_Services (sset_Spec (with_services sset services)) = services"
  "sset_Status (with_services sset services) = sset_Status sset"
  by (simp_all add: with_services_def)

definition resolved_run ::
  "'v pipeline_env \<Rightarrow> svc_client \<Rightarrow> OperationRequisites \<Rightarrow> Service list \<Rightarrow> ServiceSet \<Rightarrow> Service list
     \<Rightarrow> Service list \<Rightarrow> ServiceWithValues list \<Rightarrow> ServiceWithValues list \<Rightarrow> bool" where
  "resolved_run env c req desired serviceSet rd fs storedR targets \<longleftrightarrow>
     resolve_services c (sset_Namespace serviceSet) desired = Inr rd
     \<and> FilterServiceDependencies (env_perm env) c (op_SystemNamespace req) (op_MCS req) (op_CD req) rd = Inr fs
     \<and> resolve_stored c (sset_Namespace serviceSet) (sss_Services (sset_Spec serviceSet)) = Inr storedR
     \<and> (\<exists>paths. resolve_stored c (sset_Namespace serviceSet)
           (ServicesToDeploy (env_semver env) paths fs (with_services serviceSet storedR)) = Inr targets)"

lemma ResolveServicesToApply_Inr:
  assumes "ResolveServicesToApply env c (op_SystemNamespace req) (op_MCS req) (op_CD req) desired serviceSet
      = Inr (targets, serviceSet')"
  shows "\<exists>rd fs storedR. resolved_run env c req desired serviceSet rd fs storedR targets
           \<and> serviceSet' = with_services serviceSet storedR"
  using assms
  by (auto simp: ResolveServicesToApply_def resolved_run_def with_services_def result_simps Let_def
      case_prod_unfold split: if_splits)

lemma pipeline_Inr:
  assumes "GetServiceSetWithOperation env c req = Inr (cand, op)" and "requested_spec req = Some spec"
  shows "\<exists>serviceSet op0 rd fs storedR targets.
     load_service_set c (op_ObjectKey req) = Inr (serviceSet, op0)
     \<and> resolved_run env c req (sp_Services spec) serviceSet rd fs storedR targets
     \<and> sss_Services (sset_Spec cand) = BuildServicesList storedR targets (sp_Services spec)
     \<and> op = (if op0 = ServiceSetOperationUpdate \<and> sset_Spec (with_services serviceSet storedR) = sset_Spec cand
             then ServiceSetOperationNone else op0)"
proof -
  from assms obtain serviceSet op0 targets sset' selector where
    load: "load_service_set c (op_ObjectKey req) = Inr (serviceSet, op0)" and
    res: "ResolveServicesToApply env c (op_SystemNamespace req) (op_MCS req) (op_CD req) (sp_Services spec) serviceSet
        = Inr (targets, sset')" and
    build: "Build (env_asSelector env) (WithServicesToDeploy
         (BuildServicesList (sss_Services (sset_Spec sset')) targets (sp_Services spec))
         (WithMultiClusterService (op_MCS req) (NewBuilder (op_CD req) sset' selector))) = Inr cand" and
    op: "op = (if op0 = ServiceSetOperationUpdate \<and> sset_Spec sset' = sset_Spec cand then ServiceSetOperationNone else op0)"
    by (auto simp: GetServiceSetWithOperation_def result_simps Let_def split: if_splits)
  from ResolveServicesToApply_Inr [OF res] obtain rd fs storedR where
    run: "resolved_run env c req (sp_Services spec) serviceSet rd fs storedR targets"
    and sset': "sset' = with_services serviceSet storedR" by blast
  from Build_services [OF build] have "sss_Services (sset_Spec cand) = BuildServicesList storedR targets (sp_Services spec)"
    by (simp add: WithServicesToDeploy_def sset')
  with load run op sset' show ?thesis by blast
qed

definition services_for :: "ObjectKey \<Rightarrow> ServiceWithValues list \<Rightarrow> ServiceWithValues list" where
  "services_for k xs = filter (\<lambda>x. swv_key x = k) xs"

lemma sort_key_unique:
  assumes "length (filter P xs) \<le> 1"
  shows "filter P (sort_key f xs) = filter P xs"
proof -
  have eq: "mset (filter P (sort_key f xs)) = mset (filter P xs)"
    by (simp only: mset_filter mset_sort)
  from assms consider "filter P xs = []" | a where "filter P xs = [a]"
    by (cases "filter P xs") auto
  then show ?thesis
  proof cases
    case 1
    with eq show ?thesis by (simp only: mset_zero_iff mset.simps)
  next
    case (2 a)
    with eq have "mset (filter P (sort_key f xs)) = {#a#}" by (simp only: mset.simps)
    with 2 show ?thesis by (simp only: mset_single_iff)
  qed
qed

text \<open>What the assembled list holds for one key.\<close>

lemma services_for_BuildServicesList:
  assumes "distinct (map swv_key stored)" and "distinct (map swv_key targets)" and "k \<in> svc_key ` set desired"
  shows "services_for k (BuildServicesList stored targets desired) =
           (if k \<in> swv_key ` set targets then services_for k targets else services_for k stored)"
proof -
  have merged: "services_for k (merged_services stored targets desired) =
      (if k \<in> swv_key ` set targets then services_for k targets else services_for k stored)"
  proof (cases "k \<in> swv_key ` set targets")
    case True
    then have "filter (\<lambda>x. swv_key x = k) (filter (\<lambda>s. swv_key s \<in> set (map svc_key desired)
        \<and> swv_key s \<notin> set (map swv_key targets)) stored) = []"
      by (auto simp: filter_empty_conv)
    with True show ?thesis by (simp add: services_for_def merged_services_def)
  next
    case False
    then have "filter (\<lambda>x. swv_key x = k) targets = []" by (auto simp: filter_empty_conv)
    moreover have "(swv_key x = k \<and> swv_key x \<in> set (map svc_key desired) \<and> swv_key x \<notin> set (map swv_key targets))
        \<longleftrightarrow> swv_key x = k" for x
      using False assms(3) by (cases "swv_key x = k") simp_all
    then have "filter (\<lambda>x. swv_key x = k) (filter (\<lambda>s. swv_key s \<in> set (map svc_key desired)
        \<and> swv_key s \<notin> set (map swv_key targets)) stored) = filter (\<lambda>x. swv_key x = k) stored"
      by (simp only: filter_filter conj_commute)
    ultimately show ?thesis using False by (simp add: services_for_def merged_services_def)
  qed
  have one: "length (services_for k xs) \<le> 1" if "distinct (map swv_key xs)" for xs
    using length_filter_key [OF that] by (simp add: services_for_def)
  have "length (services_for k (merged_services stored targets desired)) \<le> 1"
    unfolding merged using one [OF assms(1)] one [OF assms(2)] by simp
  then show ?thesis
    unfolding BuildServicesList_def sort_by_rank_def merged [symmetric]
    unfolding services_for_def by (rule sort_key_unique)
qed

lemma resolved_run_keys:
  assumes run: "resolved_run env c req desired serviceSet rd fs storedR targets"
    and keys: "distinct (map svc_key desired)" and perm: "\<And>xs. mset (env_perm env xs) = mset xs"
  shows "map svc_key rd = map svc_key desired" "service_deps rd = service_deps desired"
    "map swv_key storedR = map swv_key (sss_Services (sset_Spec serviceSet))"
    "distinct (map swv_key targets)" "swv_key ` set targets \<subseteq> svc_key ` set fs"
    "snd ` service_deps desired \<subseteq> svc_key ` set desired"
    "\<exists>observed. fetchServiceSet c (op_SystemNamespace req) (op_MCS req) (op_CD req) = Inr observed
       \<and> fs = filter (\<lambda>s. \<forall>d. (svc_key s, d) \<in> (service_deps desired)\<^sup>+ \<longrightarrow> at_desired observed rd d) rd"
proof -
  from run obtain paths where rd: "resolve_services c (sset_Namespace serviceSet) desired = Inr rd"
    and fs: "FilterServiceDependencies (env_perm env) c (op_SystemNamespace req) (op_MCS req) (op_CD req) rd = Inr fs"
    and st: "resolve_stored c (sset_Namespace serviceSet) (sss_Services (sset_Spec serviceSet)) = Inr storedR"
    and tg: "resolve_stored c (sset_Namespace serviceSet)
           (ServicesToDeploy (env_semver env) paths fs (with_services serviceSet storedR)) = Inr targets"
    by (auto simp: resolved_run_def)
  note same = resolve_services_same [OF rd]
  from same show "map svc_key rd = map svc_key desired" "service_deps rd = service_deps desired" by simp_all
  from st show "map swv_key storedR = map swv_key (sss_Services (sset_Spec serviceSet))"
    by (rule resolve_stored_same)
  have rd_keys: "distinct (map svc_key rd)" using keys same(1) by simp
  have img: "svc_key ` set rd = svc_key ` set desired" using same(1) by (rule image_eq_if_map_eq)
  from fs have "absent_dependency rd = None"
    by (auto simp: FilterServiceDependencies_def split: option.splits prod.splits)
  then have def': "snd ` service_deps rd \<subseteq> svc_key ` set rd" by (simp add: absent_dependency_None)
  then show "snd ` service_deps desired \<subseteq> svc_key ` set desired" by (simp only: same(2) img)
  from fs \<open>absent_dependency rd = None\<close> obtain observed where
    ob: "fetchServiceSet c (op_SystemNamespace req) (op_MCS req) (op_CD req) = Inr observed"
    by (auto simp: FilterServiceDependencies_def result_simps)
  from FilterServiceDependencies_spec [OF rd_keys def' perm ob] fs
  have fs_eq: "fs = filter (\<lambda>s. \<forall>d. (svc_key s, d) \<in> (service_deps desired)\<^sup>+ \<longrightarrow> at_desired observed rd d) rd"
    by (simp add: same(2))
  with ob show "\<exists>observed. fetchServiceSet c (op_SystemNamespace req) (op_MCS req) (op_CD req) = Inr observed
       \<and> fs = filter (\<lambda>s. \<forall>d. (svc_key s, d) \<in> (service_deps desired)\<^sup>+ \<longrightarrow> at_desired observed rd d) rd" by blast
  have "distinct (map svc_key fs)" unfolding fs_eq by (intro distinct_map_filter rd_keys)
  note tk = ServicesToDeploy_keys_spec [OF this, of "env_semver env" paths "with_services serviceSet storedR"]
  from tk resolve_stored_same [OF tg] show "distinct (map swv_key targets)" by simp
  from tk image_eq_if_map_eq [OF resolve_stored_same [OF tg]] show "swv_key ` set targets \<subseteq> svc_key ` set fs" by simp
qed

text \<open>
  C1: A service with an unsatisfied dependency is never touched. If any service it depends on,
  directly or transitively, is not observed at its desired version, a successful run carries over
  what is stored for it (with the version resolved from its template) and adds nothing for it if
  nothing is stored, whatever the template chains, the in-flight upgrades and the map orders are.
\<close>

theorem locked_service_untouched:
  assumes run: "GetServiceSetWithOperation env c req = Inr (cand, op)"
    and spec: "requested_spec req = Some spec" and keys: "distinct (map svc_key (sp_Services spec))"
    and perm: "\<And>xs. mset (env_perm env xs) = mset xs"
    and existing: "getServiceSet c (op_ObjectKey req) = Inr serviceSet"
      "distinct (map swv_key (sss_Services (sset_Spec serviceSet)))"
    and observed: "fetchServiceSet c (op_SystemNamespace req) (op_MCS req) (op_CD req) = Inr observed"
      "resolve_services c (sset_Namespace serviceSet) (sp_Services spec) = Inr desired"
    and dep: "(k, d) \<in> (service_deps (sp_Services spec))\<^sup>+" "\<not> at_desired observed desired d"
  shows "\<exists>stored. resolve_stored c (sset_Namespace serviceSet) (sss_Services (sset_Spec serviceSet)) = Inr stored
           \<and> services_for k (sss_Services (sset_Spec cand)) = services_for k stored"
proof -
  from pipeline_Inr [OF run spec] existing(1) obtain rd fs storedR targets where
    r: "resolved_run env c req (sp_Services spec) serviceSet rd fs storedR targets"
    and cand: "sss_Services (sset_Spec cand) = BuildServicesList storedR targets (sp_Services spec)"
    by (auto simp: load_service_set_def)
  note run_keys = resolved_run_keys [OF r keys perm]
  from r observed(2) have rd: "rd = desired" by (simp add: resolved_run_def)
  from run_keys(7) observed(1) have fs: "fs = filter (\<lambda>s. \<forall>d. (svc_key s, d) \<in> (service_deps (sp_Services spec))\<^sup>+
      \<longrightarrow> at_desired observed desired d) desired" by (auto simp: rd)
  have "k \<notin> svc_key ` set fs" using dep fs by auto
  then have "k \<notin> swv_key ` set targets" using run_keys(5) by blast
  moreover have "k \<in> svc_key ` set (sp_Services spec)"
    using dep(1) by (auto simp: service_deps_def dest!: tranclD)
  moreover have "distinct (map swv_key storedR)" using run_keys(3) existing(2) by simp
  ultimately have "services_for k (sss_Services (sset_Spec cand)) = services_for k storedR"
    by (simp add: cand services_for_BuildServicesList run_keys(4))
  with r show ?thesis by (auto simp: resolved_run_def)
qed

text \<open>
  C2: A successful run only writes services that are desired, and, for acyclic dependencies, lists
  each after everything it depends on.
\<close>

theorem pipeline_in_order:
  assumes run: "GetServiceSetWithOperation env c req = Inr (cand, op)"
    and spec: "requested_spec req = Some spec" and keys: "distinct (map svc_key (sp_Services spec))"
    and perm: "\<And>xs. mset (env_perm env xs) = mset xs"
    and acyclic: "acyclic (service_deps (sp_Services spec))"
  shows "swv_key ` set (sss_Services (sset_Spec cand)) \<subseteq> svc_key ` set (sp_Services spec)
         \<and> applied_in_order (sp_Services spec) (sss_Services (sset_Spec cand))"
proof -
  from pipeline_Inr [OF run spec] obtain serviceSet op0 rd fs storedR targets where
    r: "resolved_run env c req (sp_Services spec) serviceSet rd fs storedR targets"
    and cand: "sss_Services (sset_Spec cand) = BuildServicesList storedR targets (sp_Services spec)"
    by blast
  note run_keys = resolved_run_keys [OF r keys perm]
  from run_keys(7) have "set fs \<subseteq> set rd" by auto
  then have "svc_key ` set fs \<subseteq> svc_key ` set rd" by (rule image_mono)
  then have sub: "swv_key ` set targets \<subseteq> svc_key ` set (sp_Services spec)"
    unfolding image_eq_if_map_eq [OF run_keys(1)] by (rule subset_trans [OF run_keys(5)])
  with keys_merged_services [OF sub] show ?thesis
    unfolding cand by (simp add: set_BuildServicesList BuildServicesList_in_order_spec [OF keys acyclic sub])
qed

text \<open>
  The operation returned: create exactly if the ServiceSet does not exist; otherwise none
  exactly if the spec computed equals the stored one, with its versions resolved, and update if
  not. An existing ServiceSet is never recreated.
\<close>

theorem operation_correct:
  assumes "GetServiceSetWithOperation env c req = Inr (cand, op)"
  shows "case getServiceSet c (op_ObjectKey req) of
           Inl e \<Rightarrow> e = NotFound \<and> op = ServiceSetOperationCreate
         | Inr s \<Rightarrow> (\<exists>stored. resolve_stored c (sset_Namespace s) (sss_Services (sset_Spec s)) = Inr stored
             \<and> op = (if (sset_Spec s)\<lparr>sss_Services := stored\<rparr> = sset_Spec cand
                     then ServiceSetOperationNone else ServiceSetOperationUpdate))"
proof -
  from assms obtain spec where spec: "requested_spec req = Some spec"
    by (auto simp: GetServiceSetWithOperation_def split: option.splits)
  from pipeline_Inr [OF assms spec] obtain serviceSet op0 rd fs storedR targets where
    load: "load_service_set c (op_ObjectKey req) = Inr (serviceSet, op0)"
    and r: "resolved_run env c req (sp_Services spec) serviceSet rd fs storedR targets"
    and op: "op = (if op0 = ServiceSetOperationUpdate \<and> sset_Spec (with_services serviceSet storedR) = sset_Spec cand
             then ServiceSetOperationNone else op0)" by blast
  from r have "resolve_stored c (sset_Namespace serviceSet) (sss_Services (sset_Spec serviceSet)) = Inr storedR"
    by (simp add: resolved_run_def)
  with load_service_set_Inr [OF load] op show ?thesis by (auto simp: with_services_def)
qed

text \<open>
  The processor writes nothing for the operation none, makes exactly the write asked for
  otherwise, and reports an error exactly if that write failed for a reason other than the race it
  tolerates: a ServiceSet that already exists on create, a conflict on update.
\<close>

theorem CreateOrUpdateServiceSet_correct:
  "CreateOrUpdateServiceSet p op s w =
     (let key = ObjectKey (sset_Namespace s) (sset_Name s);
          report = (\<lambda>tolerated (err, w'). (case err of None \<Rightarrow> None
                      | Some e \<Rightarrow> if e = tolerated then None else Some (WriteFailed key e), w'))
      in case op of
           ServiceSetOperationNone \<Rightarrow> (None, w)
         | ServiceSetOperationCreate \<Rightarrow> report AlreadyExists (createServiceSet p s w)
         | ServiceSetOperationUpdate \<Rightarrow> report Conflict (updateServiceSet p s w))"
  by (simp add: CreateOrUpdateServiceSet_def Let_def split: ServiceSetOperation.split prod.split option.split api_error.split)

section \<open>A concrete run\<close>

text \<open>
  A ClusterDeployment asks for \<open>a\<close> and \<open>b\<close> in version 2, where \<open>b\<close> depends on
  \<open>a\<close>. Both are stored in version 1, and \<open>a\<close> is deployed in version 1.
\<close>

definition example_spec :: ServiceSpec where
  "example_spec = \<lparr>sp_Provider = \<lparr>smpc_Config = None, smpc_Name = ''p'', smpc_SelfManagement = False\<rparr>,
     sp_SyncMode = [],
     sp_Services = [(example_service ''b'' [''a''])\<lparr>svc_Version := ''2''\<rparr>, (example_service ''a'' [])\<lparr>svc_Version := ''2''\<rparr>],
     sp_TemplateResourceRefs = [], sp_PolicyRefs = [], sp_DriftIgnore = [], sp_DriftExclusions = [],
     sp_Priority = 0, sp_StopOnConflict = False, sp_Reload = False, sp_ContinueOnError = False\<rparr>"

definition example_req :: OperationRequisites where
  "example_req = \<lparr>op_ObjectKey = ObjectKey ''ns'' ''cd-1'', op_MCS = None,
     op_CD = Some \<lparr>cd_Name = ''cd'', cd_Namespace = ''ns'', cd_UID = ''u'', cd_Labels = [], cd_Deleting = False, cd_Template = [], cd_Credential = [],
       cd_DataSource = [], cd_DryRun = False, cd_Config = None, cd_ServiceSpec = example_spec, cd_AvailableUpgrades = [], cd_StatusRegion = []\<rparr>, op_SystemNamespace = ''kcm-system''\<rparr>"

definition example_stored_set :: ServiceSet where
  "example_stored_set = example_set [example_stored ''a'' ''1'', example_stored ''b'' ''1'']
     [example_state ''a'' ''1'' ServiceStateDeployed]"

definition example_selector :: LabelSelector where
  "example_selector = \<lparr>ls_MatchLabels = [(''adapter'', ''kcm'')], ls_MatchExpressions = []\<rparr>"

definition example_env :: "nat pipeline_env" where
  "example_env = \<lparr>env_perm = (\<lambda>x. x), env_order = (\<lambda>_. []), env_semver = no_semver,
     env_asSelector = (\<lambda>sel. Inr (map (\<lambda>(k, v). \<lparr>req_Key = k, req_Operator = Sel_In, req_Values = [v]\<rparr>) (ls_MatchLabels sel)))\<rparr>"

definition example_api :: svc_client where
  "example_api = (example_client [example_stored_set])\<lparr>getServiceSet := (\<lambda>_. Inr example_stored_set),
     getProviderSelector := (\<lambda>_. Inr (Some example_selector))\<rparr>"

lemma example_run:
  "map_sum (\<lambda>_. ()) (\<lambda>(cand, op). (map (\<lambda>s. (swv_Name s, swv_Version s)) (sss_Services (sset_Spec cand)), op))
     (GetServiceSetWithOperation example_env example_api example_req)
   = Inr ([(''a'', ''2''), (''b'', ''1'')], ServiceSetOperationUpdate)"
  by code_simp

lemma example_run_Inr:
  "\<exists>cand. GetServiceSetWithOperation example_env example_api example_req = Inr (cand, ServiceSetOperationUpdate)
     \<and> map (\<lambda>s. (swv_Name s, swv_Version s)) (sss_Services (sset_Spec cand)) = [(''a'', ''2''), (''b'', ''1'')]"
  using example_run by (cases "GetServiceSetWithOperation example_env example_api example_req") auto

lemma example_spec_keys: "distinct (map svc_key (sp_Services example_spec))"
  by code_simp

lemma example_spec_deps:
  "service_deps (sp_Services example_spec) = {(ServiceKey [] ''b'', ServiceKey [] ''a'')}"
  by (simp add: service_deps_image example_spec_def)

lemma example_env_perm: "mset (env_perm example_env xs) = mset xs"
  by (simp add: example_env_def)

lemma example_req_spec: "requested_spec example_req = Some example_spec"
  by (simp add: example_req_def requested_spec_def)

theorem locked_service_untouched_witness:
  "\<exists>cand stored. GetServiceSetWithOperation example_env example_api example_req = Inr (cand, ServiceSetOperationUpdate)
     \<and> resolve_stored example_api ''ns'' [example_stored ''a'' ''1'', example_stored ''b'' ''1''] = Inr stored
     \<and> services_for (ServiceKey [] ''b'') (sss_Services (sset_Spec cand)) = services_for (ServiceKey [] ''b'') stored"
proof -
  from example_run_Inr obtain cand where
    run: "GetServiceSetWithOperation example_env example_api example_req = Inr (cand, ServiceSetOperationUpdate)"
    by blast
  have stored: "getServiceSet example_api (op_ObjectKey example_req) = Inr example_stored_set"
    by (simp add: example_api_def)
  have "distinct (map swv_key (sss_Services (sset_Spec example_stored_set)))" by code_simp
  moreover have "fetchServiceSet example_api (op_SystemNamespace example_req) (op_MCS example_req) (op_CD example_req)
      = Inr example_stored_set" by code_simp
  moreover have "resolve_services example_api (sset_Namespace example_stored_set) (sp_Services example_spec)
      = Inr (sp_Services example_spec)" by code_simp
  moreover have "(ServiceKey [] ''b'', ServiceKey [] ''a'') \<in> (service_deps (sp_Services example_spec))\<^sup>+"
    by (rule r_into_trancl) (simp add: example_spec_deps)
  moreover have "\<not> at_desired example_stored_set (sp_Services example_spec) (ServiceKey [] ''a'')" by code_simp
  ultimately have "\<exists>stored. resolve_stored example_api (sset_Namespace example_stored_set)
        (sss_Services (sset_Spec example_stored_set)) = Inr stored
      \<and> services_for (ServiceKey [] ''b'') (sss_Services (sset_Spec cand)) = services_for (ServiceKey [] ''b'') stored"
    by (rule locked_service_untouched [OF run example_req_spec example_spec_keys example_env_perm stored])
  with run show ?thesis by (simp add: example_stored_set_def example_set_def)
qed

theorem pipeline_in_order_witness:
  "\<exists>cand. GetServiceSetWithOperation example_env example_api example_req = Inr (cand, ServiceSetOperationUpdate)
     \<and> applied_in_order (sp_Services example_spec) (sss_Services (sset_Spec cand))"
proof -
  have "acyclic (service_deps (sp_Services example_spec))"
    unfolding example_spec_deps acyclic_insert by (simp add: ServiceKey_def acyclic_def)
  from pipeline_in_order [OF _ example_req_spec example_spec_keys example_env_perm this] example_run_Inr
  show ?thesis by blast
qed

theorem operation_correct_witness:
  "\<exists>cand stored. GetServiceSetWithOperation example_env example_api example_req = Inr (cand, ServiceSetOperationUpdate)
     \<and> ServiceSetOperationUpdate = (if (sset_Spec example_stored_set)\<lparr>sss_Services := stored\<rparr> = sset_Spec cand
                     then ServiceSetOperationNone else ServiceSetOperationUpdate)"
proof -
  from example_run_Inr obtain cand where
    run: "GetServiceSetWithOperation example_env example_api example_req = Inr (cand, ServiceSetOperationUpdate)" by blast
  have "getServiceSet example_api (op_ObjectKey example_req) = Inr example_stored_set" by (simp add: example_api_def)
  with operation_correct [OF run] obtain stored where "ServiceSetOperationUpdate =
      (if (sset_Spec example_stored_set)\<lparr>sss_Services := stored\<rparr> = sset_Spec cand
       then ServiceSetOperationNone else ServiceSetOperationUpdate)" by auto
  with run show ?thesis by (intro exI [of _ cand] exI [of _ stored] conjI)
qed

theorem Build_selected_by_provider_witness:
  "\<exists>sset. Build (env_asSelector example_env) (NewBuilder None example_stored_set (Some example_selector)) = Inr sset
     \<and> req_matches (sset_Labels sset) \<lparr>req_Key = ''adapter'', req_Operator = Sel_In, req_Values = [''kcm'']\<rparr>"
proof -
  let ?b = "NewBuilder None example_stored_set (Some example_selector)"
  obtain sset where sset: "Build (env_asSelector example_env) ?b = Inr sset"
    by (simp add: Build_def Let_def extractRequiredLabels_def example_env_def NewBuilder_def)
  have "req_matches (sset_Labels sset) \<lparr>req_Key = ''adapter'', req_Operator = Sel_In, req_Values = [''kcm'']\<rparr>"
    by (rule Build_selected_by_provider [OF sset, of example_selector])
      (auto simp: NewBuilder_def example_env_def example_selector_def req_satisfiable_def)
  with sset show ?thesis by blast
qed

end
