(* ===== verification/MCSGate.thy ===== *)
theory MCSGate
  imports ServiceSetPipeline
begin

text \<open>
  The dependency gate of \<^verbatim>\<open>internal/controller/multiclusterservice_controller.go\<close>: before a
  MultiClusterService writes its ServiceSet for a cluster, every MultiClusterService it depends on
  and that targets the cluster must have all its services there at their desired versions.
  Dependencies are resolved once per reconciliation (\<open>resolveDependencies\<close>), desired versions
  once per namespace (\<open>desiredIn\<close>); the cache is part of the state that is passed on.
\<close>

section \<open>Definitions\<close>

record mcs_client =
  mc_svc :: svc_client
  getMultiClusterService :: "string \<Rightarrow> api_error + MultiClusterService"
  getClusterDeployment :: "ObjectKey \<Rightarrow> api_error + ClusterDeployment"
  getCredentialRegion :: "ObjectKey \<Rightarrow> api_error + string"
  listClusterDeployments :: "selector \<Rightarrow> api_error + ClusterDeployment list"
  listServiceSetsOf :: "string \<Rightarrow> api_error + ServiceSet list"
  listMultiClusterServices :: "api_error + MultiClusterService list"

datatype mcs_error =
    DepGetFailed string api_error
  | DepSelectorFailed string ObjectKey string
  | DepVersionsFailed string svcset_error
  | DepServiceSetGetFailed ObjectKey string api_error
  | ServiceSetFailed ObjectKey svcset_error
  | SelectorFailed string
  | ListClusterDeploymentsFailed api_error
  | ListServiceSetsFailed string api_error
  | ClusterDeploymentGetFailed ObjectKey api_error
  | CredentialGetFailed ObjectKey api_error
  | ServiceSetDeleteFailed ObjectKey api_error
  | DeleteValidationFailed delete_error
  | FinalizerUpdateFailed api_error
  | LabelUpdateFailed api_error
  | UpgradePathErrors "svcset_error list"
  | MCSGetFailed api_error
  | ManagementGetFailed api_error
  | StatusUpdateFailed string api_error

record resolvedDependency =
  rd_name :: string
  rd_mcs :: "api_error + MultiClusterService"
  rd_selector :: "string + selector"
  rd_desiredByNamespace :: "(string \<times> (svcset_error + (ObjectKey \<rightharpoonup> string))) list"

text \<open>A dependency that cannot be fetched has no selector; nothing reads it.\<close>

definition resolveDependencies ::
  "mcs_client \<Rightarrow> compile_selector \<Rightarrow> MultiClusterService \<Rightarrow> resolvedDependency list" where
  "resolveDependencies c compile mcs =
     map (\<lambda>dep. case getMultiClusterService c dep of
            Inl e \<Rightarrow> \<lparr>rd_name = dep, rd_mcs = Inl e, rd_selector = Inr no_selector, rd_desiredByNamespace = []\<rparr>
          | Inr depMCS \<Rightarrow> \<lparr>rd_name = dep, rd_mcs = Inr depMCS,
                             rd_selector = compile (mcs_ClusterSelector depMCS), rd_desiredByNamespace = []\<rparr>)
       (mcs_DependsOn mcs)"

definition desiredServiceVersions ::
  "svc_client \<Rightarrow> string \<Rightarrow> Service list \<Rightarrow> svcset_error + (ObjectKey \<rightharpoonup> string)" where
  "desiredServiceVersions c namespace services =
     bindE (resolve_services c namespace services) (\<lambda>desired. Inr (index_by svc_key svc_version desired))"

definition desiredIn ::
  "svc_client \<Rightarrow> string \<Rightarrow> Service list \<Rightarrow> resolvedDependency
     \<Rightarrow> (svcset_error + (ObjectKey \<rightharpoonup> string)) \<times> resolvedDependency" where
  "desiredIn c namespace services rd =
     (case alookup (rd_desiredByNamespace rd) namespace of
        Some d \<Rightarrow> (d, rd)
      | None \<Rightarrow>
          let d = desiredServiceVersions c namespace services
          in (d, rd\<lparr>rd_desiredByNamespace := AList.update namespace d (rd_desiredByNamespace rd)\<rparr>))"

text \<open>\<open>apierrors.IsNotFound\<close> on a failed resolution: the only API error it wraps.\<close>

fun resolution_not_found :: "svcset_error \<Rightarrow> bool" where
  "resolution_not_found (TemplateFetchFailed _ e) = (e = NotFound)"
| "resolution_not_found _ = False"

definition unresolvedVersions :: "string \<Rightarrow> svcset_error \<Rightarrow> string \<times> mcs_error list" where
  "unresolvedVersions name resolveErr =
     (if resolution_not_found resolveErr then (name @ '' (desired versions not resolved yet)'', [])
      else ([], [DepVersionsFailed name resolveErr]))"

definition maxBlockingDependenciesInMessage :: nat where
  "maxBlockingDependenciesInMessage = 3"

definition dependencyProgress :: "string \<Rightarrow> nat \<Rightarrow> nat \<Rightarrow> string list \<Rightarrow> string" where
  "dependencyProgress name deployed total' lagging =
     (let entry = name @ '' ('' @ format_nat deployed @ ''/'' @ format_nat total' @ '' services deployed)''
      in if length lagging > 0 then entry @ '': '' @ join_strings '', '' lagging else entry)"

definition count_status ::
  "(ObjectKey \<rightharpoonup> string) \<Rightarrow> (ObjectKey \<rightharpoonup> string) \<Rightarrow> ServiceState \<Rightarrow> nat \<times> string list \<Rightarrow> nat \<times> string list" where
  "count_status specVersion desired svc acc =
     (case desired (ss_key svc) of
        None \<Rightarrow> acc
      | Some want \<Rightarrow>
          let spec = get_or [] specVersion (ss_key svc); reported = ss_version svc
          in if AtDesiredVersion (ss_State svc) reported spec want then (fst acc + 1, snd acc)
             else if reported \<noteq> [] \<and> reported \<noteq> want \<and> length (snd acc) < maxBlockingDependenciesInMessage
             then (fst acc, snd acc @ [ss_Name svc @ '' '' @ reported @ '' -> '' @ want])
             else acc)"

definition deployedAtDesiredVersion :: "ServiceSet \<Rightarrow> (ObjectKey \<rightharpoonup> string) \<Rightarrow> nat \<times> string list" where
  "deployedAtDesiredVersion sset desired =
     fold (count_status (index_by swv_key swv_version (sss_Services (sset_Spec sset))) desired)
       (ssst_Services (sset_Status sset)) (0, [])"

definition format_key :: "ObjectKey \<Rightarrow> string" where
  "format_key k = ok_Namespace k @ ''/'' @ ok_Name k"

definition blockedMessage :: "ObjectKey \<Rightarrow> string list \<Rightarrow> string" where
  "blockedMessage clusterRef blockingDeps =
     (let omitted = length blockingDeps - maxBlockingDependenciesInMessage;
          shown = take maxBlockingDependenciesInMessage blockingDeps;
          msg = ''skipping create/update of ServiceSet for matching cluster '' @ format_key clusterRef
                @ '': waiting on '' @ join_strings '', '' shown
      in if omitted > 0 then msg @ '' and '' @ format_nat omitted @ '' more'' else msg)"

record blockedCluster =
  bc_ref :: ObjectReference
  bc_msg :: string

text \<open>Whether a dependency applies to the target: the management cluster, or a ClusterDeployment.\<close>

definition dep_applies ::
  "ClusterDeployment option \<Rightarrow> resolvedDependency \<Rightarrow> MultiClusterService \<Rightarrow> string + bool" where
  "dep_applies cd rd depMCS =
     (case cd of
        None \<Rightarrow> Inr (smpc_SelfManagement (sp_Provider (mcs_ServiceSpec depMCS)))
      | Some d \<Rightarrow> bindE (rd_selector rd) (\<lambda>sel. Inr (\<not> (sel_Empty sel \<or> \<not> sel_Matches sel (cd_Labels d)))))"

text \<open>The body of the loop over the dependencies: errors and blocking entries it adds.\<close>

definition check_dependency ::
  "(string \<Rightarrow> string) \<Rightarrow> mcs_client \<Rightarrow> string \<Rightarrow> ObjectKey \<Rightarrow> ClusterDeployment option \<Rightarrow> resolvedDependency
     \<Rightarrow> resolvedDependency \<times> mcs_error list \<times> string list" where
  "check_dependency shortHash c systemNamespace clusterRef cd rd =
     (case rd_mcs rd of
        Inl e \<Rightarrow> (rd, [DepGetFailed (rd_name rd) e], [])
      | Inr depMCS \<Rightarrow>
     (case dep_applies cd rd depMCS of
        Inl e \<Rightarrow> (rd, [DepSelectorFailed (rd_name rd) clusterRef e], [])
      | Inr applies \<Rightarrow>
          if \<not> applies then (rd, [], [])
          else
            let ssetKey = ServiceSetObjectKey shortHash systemNamespace cd depMCS;
                services = sp_Services (mcs_ServiceSpec depMCS);
                (resolved, rd') = desiredIn (mc_svc c) (ok_Namespace ssetKey) services rd
            in case resolved of
                 Inl e \<Rightarrow>
                   (case unresolvedVersions (rd_name rd) e of
                      (blocking, errs) \<Rightarrow> (rd', errs, if blocking \<noteq> [] then [blocking] else []))
               | Inr desired \<Rightarrow>
                   (case getServiceSet (mc_svc c) ssetKey of
                      Inl e \<Rightarrow>
                        if e = NotFound then (rd', [], [rd_name rd @ '' (ServiceSet not yet created)''])
                        else (rd', [DepServiceSetGetFailed ssetKey (rd_name rd) e], [])
                    | Inr sset \<Rightarrow>
                        (case deployedAtDesiredVersion sset desired of
                           (deployed, lagging) \<Rightarrow>
                             if deployed \<noteq> length services
                             then (rd', [], [dependencyProgress (rd_name rd) deployed (length services) lagging])
                             else (rd', [], [])))))"

fun check_dependencies ::
  "(string \<Rightarrow> string) \<Rightarrow> mcs_client \<Rightarrow> string \<Rightarrow> ObjectKey \<Rightarrow> ClusterDeployment option \<Rightarrow> resolvedDependency list
     \<Rightarrow> resolvedDependency list \<times> mcs_error list \<times> string list" where
  "check_dependencies shortHash c systemNamespace clusterRef cd [] = ([], [], [])"
| "check_dependencies shortHash c systemNamespace clusterRef cd (rd # rds) =
     (case check_dependency shortHash c systemNamespace clusterRef cd rd of
        (rd', errs, blocking) \<Rightarrow>
          (case check_dependencies shortHash c systemNamespace clusterRef cd rds of
             (rds', errs', blocking') \<Rightarrow> (rd' # rds', errs @ errs', blocking @ blocking')))"

definition cluster_ref :: "ClusterDeployment option \<Rightarrow> ObjectKey" where
  "cluster_ref cd =
     (case cd of None \<Rightarrow> ObjectKey ''mgmt'' ''mgmt'' | Some d \<Rightarrow> ObjectKey (cd_Namespace d) (cd_Name d))"

definition target_reference :: "ClusterDeployment option \<Rightarrow> ObjectReference" where
  "target_reference cd =
     (case cd of
        None \<Rightarrow> SelfManagementClusterReference
      | Some d \<Rightarrow> \<lparr>ref_Kind = ''ClusterDeployment'', ref_Name = cd_Name d, ref_Namespace = cd_Namespace d,
                   ref_APIVersion = ''k0rdent.mirantis.com/v1beta1''\<rparr>)"

definition okToReconcileServiceSet ::
  "(string \<Rightarrow> string) \<Rightarrow> mcs_client \<Rightarrow> string \<Rightarrow> ClusterDeployment option \<Rightarrow> resolvedDependency list
     \<Rightarrow> blockedCluster list \<Rightarrow> bool \<times> mcs_error list \<times> resolvedDependency list \<times> blockedCluster list" where
  "okToReconcileServiceSet shortHash c systemNamespace cd deps blocked =
     (case check_dependencies shortHash c systemNamespace (cluster_ref cd) cd deps of
        (deps', errs, blockingDeps) \<Rightarrow>
          (errs = [] \<and> blockingDeps = [], errs, deps',
           if blockingDeps \<noteq> []
           then blocked @ [\<lparr>bc_ref = target_reference cd, bc_msg = blockedMessage (cluster_ref cd) blockingDeps\<rparr>]
           else blocked))"

section \<open>Counting deployed services\<close>

lemma fst_count_status:
  "fst (fold (count_status sv desired) xs acc) =
     fst acc + length (filter (\<lambda>svc. \<exists>want. desired (ss_key svc) = Some want
        \<and> AtDesiredVersion (ss_State svc) (ss_version svc) (get_or [] sv (ss_key svc)) want) xs)"
  by (induction xs arbitrary: acc) (auto simp: count_status_def Let_def split: option.split)

lemma lagging_bounded:
  "length (snd (fold (count_status sv desired) xs acc)) \<le> max (length (snd acc)) maxBlockingDependenciesInMessage"
proof (induction xs arbitrary: acc)
  case (Cons x xs)
  have "length (snd (count_status sv desired x acc)) \<le> max (length (snd acc)) maxBlockingDependenciesInMessage"
    by (auto simp: count_status_def Let_def split: option.split)
  with Cons [of "count_status sv desired x acc"] show ?case by simp
qed simp

text \<open>A service of a dependency is done: the status reports it at the desired version.\<close>

definition reached :: "ServiceSet \<Rightarrow> (ObjectKey \<rightharpoonup> string) \<Rightarrow> ObjectKey \<Rightarrow> bool" where
  "reached sset desired k \<longleftrightarrow>
     (\<exists>st\<in>set (ssst_Services (sset_Status sset)). ss_key st = k
        \<and> (\<exists>want. desired k = Some want
             \<and> AtDesiredVersion (ss_State st) (ss_version st)
                  (get_or [] (index_by swv_key swv_version (sss_Services (sset_Spec sset))) k) want))"

lemma card_done:
  assumes "distinct (map ss_key (ssst_Services (sset_Status sset)))"
  shows "fst (deployedAtDesiredVersion sset desired) = card {k \<in> dom desired. reached sset desired k}"
proof -
  let ?st = "ssst_Services (sset_Status sset)"
  let ?sv = "index_by swv_key swv_version (sss_Services (sset_Spec sset))"
  let ?P = "\<lambda>svc. \<exists>want. desired (ss_key svc) = Some want
        \<and> AtDesiredVersion (ss_State svc) (ss_version svc) (get_or [] ?sv (ss_key svc)) want"
  have "fst (deployedAtDesiredVersion sset desired) = length (map ss_key (filter ?P ?st))"
    by (simp add: deployedAtDesiredVersion_def fst_count_status)
  also have "\<dots> = card (ss_key ` set (filter ?P ?st))"
    using distinct_card [of "map ss_key (filter ?P ?st)"] assms by (simp add: distinct_map_filter)
  also have "ss_key ` set (filter ?P ?st) = {k \<in> dom desired. reached sset desired k}"
    unfolding reached_def by auto
  finally show ?thesis .
qed

lemma all_done_iff:
  assumes "distinct (map ss_key (ssst_Services (sset_Status sset)))"
    and "distinct (map svc_key services)" and "dom desired = svc_key ` set services"
  shows "fst (deployedAtDesiredVersion sset desired) = length services
         \<longleftrightarrow> (\<forall>s\<in>set services. reached sset desired (svc_key s))"
proof -
  let ?R = "{k \<in> dom desired. reached sset desired k}"
  have fin: "finite (dom desired)" using assms(3) by simp
  have len: "length services = card (dom desired)"
    using distinct_card [OF assms(2)] by (simp add: assms(3))
  have "card ?R = card (dom desired) \<longleftrightarrow> ?R = dom desired"
    using card_subset_eq [OF fin, of ?R] by auto
  also have "\<dots> \<longleftrightarrow> (\<forall>k\<in>dom desired. reached sset desired k)" by auto
  finally show ?thesis by (simp add: card_done [OF assms(1)] len assms(3))
qed

lemma dom_desiredServiceVersions:
  "desiredServiceVersions c ns services = Inr desired \<Longrightarrow> dom desired = svc_key ` set services"
proof -
  assume "desiredServiceVersions c ns services = Inr desired"
  then obtain rd where rd: "resolve_services c ns services = Inr rd" and d: "desired = index_by svc_key svc_version rd"
    by (auto simp: desiredServiceVersions_def result_simps)
  show ?thesis unfolding d dom_index_by by (rule image_eq_if_map_eq [OF resolve_services_same(1) [OF rd]])
qed

section \<open>The cache of desired versions\<close>

definition cache_valid :: "mcs_client \<Rightarrow> resolvedDependency \<Rightarrow> bool" where
  "cache_valid c rd \<longleftrightarrow>
     (\<forall>m. rd_mcs rd = Inr m \<longrightarrow>
        (\<forall>ns d. alookup (rd_desiredByNamespace rd) ns = Some d \<longrightarrow>
           d = desiredServiceVersions (mc_svc c) ns (sp_Services (mcs_ServiceSpec m))))"

lemma desiredIn_valid:
  assumes "cache_valid c rd" and "rd_mcs rd = Inr m"
    and "desiredIn (mc_svc c) ns (sp_Services (mcs_ServiceSpec m)) rd = (d, rd')"
  shows "d = desiredServiceVersions (mc_svc c) ns (sp_Services (mcs_ServiceSpec m))
         \<and> cache_valid c rd' \<and> rd_mcs rd' = rd_mcs rd \<and> rd_selector rd' = rd_selector rd \<and> rd_name rd' = rd_name rd"
  using assms by (auto simp: desiredIn_def cache_valid_def Let_def split: option.splits if_splits)

lemma resolveDependencies_valid: "rd \<in> set (resolveDependencies c compile mcs) \<Longrightarrow> cache_valid c rd"
  by (auto simp: resolveDependencies_def cache_valid_def split: sum.splits)

section \<open>The gate\<close>

definition dep_ready ::
  "(string \<Rightarrow> string) \<Rightarrow> mcs_client \<Rightarrow> string \<Rightarrow> ClusterDeployment option \<Rightarrow> resolvedDependency \<Rightarrow> bool" where
  "dep_ready shortHash c systemNamespace cd rd \<longleftrightarrow>
     (\<exists>m a. rd_mcs rd = Inr m \<and> dep_applies cd rd m = Inr a
        \<and> (a \<longrightarrow> (\<exists>desired sset.
             desiredServiceVersions (mc_svc c)
               (ok_Namespace (ServiceSetObjectKey shortHash systemNamespace cd m)) (sp_Services (mcs_ServiceSpec m)) = Inr desired
             \<and> getServiceSet (mc_svc c) (ServiceSetObjectKey shortHash systemNamespace cd m) = Inr sset
             \<and> (\<forall>s\<in>set (sp_Services (mcs_ServiceSpec m)). reached sset desired (svc_key s)))))"

text \<open>What the API server and the validated specs guarantee: lists keyed by name and namespace.\<close>

definition keyed_lists :: "mcs_client \<Rightarrow> resolvedDependency \<Rightarrow> bool" where
  "keyed_lists c rd \<longleftrightarrow>
     (\<forall>key sset. getServiceSet (mc_svc c) key = Inr sset \<longrightarrow> distinct (map ss_key (ssst_Services (sset_Status sset))))
     \<and> (\<forall>m. rd_mcs rd = Inr m \<longrightarrow> distinct (map svc_key (sp_Services (mcs_ServiceSpec m))))"

lemma dependencyProgress_nonempty: "dependencyProgress n d t l \<noteq> []"
  by (simp add: dependencyProgress_def Let_def)

lemma check_dependency_ready:
  assumes valid: "cache_valid c rd" and keyed: "keyed_lists c rd"
    and run: "check_dependency shortHash c sysns ref cd rd = (rd', errs, blocking)"
  shows "(errs = [] \<and> blocking = [] \<longleftrightarrow> dep_ready shortHash c sysns cd rd)
         \<and> (errs = [] \<or> blocking = []) \<and> cache_valid c rd' \<and> rd_mcs rd' = rd_mcs rd \<and> rd_selector rd' = rd_selector rd"
proof (cases "rd_mcs rd")
  case (Inl e)
  with run valid show ?thesis by (auto simp: check_dependency_def dep_ready_def)
next
  case (Inr m)
  show ?thesis
  proof (cases "dep_applies cd rd m")
    case (Inl e)
    with Inr run valid show ?thesis by (auto simp: check_dependency_def dep_ready_def)
  next
    case app: (Inr a)
    let ?key = "ServiceSetObjectKey shortHash sysns cd m"
    let ?services = "sp_Services (mcs_ServiceSpec m)"
    obtain d rd1 where d: "desiredIn (mc_svc c) (ok_Namespace ?key) ?services rd = (d, rd1)"
      by (cases "desiredIn (mc_svc c) (ok_Namespace ?key) ?services rd")
    from desiredIn_valid [OF valid Inr d]
    have dv: "desiredServiceVersions (mc_svc c) (ok_Namespace ?key) ?services = d"
      and keep: "cache_valid c rd1" "rd_mcs rd1 = rd_mcs rd" "rd_selector rd1 = rd_selector rd" by simp_all
    have ready: "dep_ready shortHash c sysns cd rd \<longleftrightarrow>
        (a \<longrightarrow> (\<exists>desired sset. d = Inr desired \<and> getServiceSet (mc_svc c) ?key = Inr sset
           \<and> (\<forall>s\<in>set ?services. reached sset desired (svc_key s))))"
      by (simp add: dep_ready_def Inr app dv)
    show ?thesis
    proof (cases a)
      case False
      with Inr app run valid show ?thesis unfolding ready by (auto simp: check_dependency_def)
    next
      case True
      show ?thesis
      proof (cases d)
        case (Inl e)
        with Inr app True run d have "rd' = rd1"
            "(errs, blocking) = (if resolution_not_found e then ([], [rd_name rd @ '' (desired versions not resolved yet)''])
               else ([DepVersionsFailed (rd_name rd) e], []))"
          by (simp_all add: check_dependency_def unresolvedVersions_def split: if_splits)
        then show ?thesis unfolding ready using keep True Inl by (simp split: if_splits)
      next
        case des: (Inr desired)
        show ?thesis
        proof (cases "getServiceSet (mc_svc c) ?key")
          case (Inl e)
          with Inr app True run d des have "rd' = rd1" "errs \<noteq> [] \<and> blocking = [] \<or> errs = [] \<and> blocking \<noteq> []"
            by (simp_all add: check_dependency_def split: if_splits) auto
          then show ?thesis unfolding ready using keep True Inl by auto
        next
          case sset: (Inr sset)
          have "fst (deployedAtDesiredVersion sset desired) = length ?services
              \<longleftrightarrow> (\<forall>s\<in>set ?services. reached sset desired (svc_key s))"
          proof (rule all_done_iff)
            show "distinct (map ss_key (ssst_Services (sset_Status sset)))"
              using keyed sset unfolding keyed_lists_def by blast
            show "distinct (map svc_key ?services)" using keyed Inr unfolding keyed_lists_def by blast
            show "dom desired = svc_key ` set ?services"
              by (rule dom_desiredServiceVersions [OF dv [unfolded des]])
          qed
          moreover from Inr app True run d des sset have "rd' = rd1" "errs = []"
            "blocking = [] \<longleftrightarrow> fst (deployedAtDesiredVersion sset desired) = length ?services"
            by (auto simp: check_dependency_def case_prod_unfold Let_def split: if_splits)
          ultimately show ?thesis unfolding ready using keep True des sset by auto
        qed
      qed
    qed
  qed
qed

lemma check_dependencies_ready:
  assumes "\<And>rd. rd \<in> set rds \<Longrightarrow> cache_valid c rd \<and> keyed_lists c rd"
    and "check_dependencies shortHash c sysns ref cd rds = (rds', errs, blocking)"
  shows "(errs = [] \<and> blocking = [] \<longleftrightarrow> (\<forall>rd\<in>set rds. dep_ready shortHash c sysns cd rd))
         \<and> list_all2 (\<lambda>rd rd'. cache_valid c rd' \<and> rd_mcs rd' = rd_mcs rd \<and> rd_selector rd' = rd_selector rd) rds rds'"
  using assms
proof (induction rds arbitrary: rds' errs blocking)
  case Nil
  then show ?case by simp
next
  case (Cons rd rds)
  obtain rd1 e1 b1 where one: "check_dependency shortHash c sysns ref cd rd = (rd1, e1, b1)"
    by (metis prod_cases3)
  obtain rds1 e2 b2 where rest: "check_dependencies shortHash c sysns ref cd rds = (rds1, e2, b2)"
    by (metis prod_cases3)
  have eqs: "rds' = rd1 # rds1" "errs = e1 @ e2" "blocking = b1 @ b2"
    using Cons.prems(2) one rest by simp_all
  have "cache_valid c rd" "keyed_lists c rd" using Cons.prems(1) by simp_all
  from check_dependency_ready [OF this one] Cons.IH [OF _ rest] Cons.prems(1)
  show ?case unfolding eqs by auto
qed

text \<open>The dependencies resolved at the start of a reconciliation, and those a check passes on.\<close>

definition deps_ok :: "mcs_client \<Rightarrow> resolvedDependency list \<Rightarrow> bool" where
  "deps_ok c deps \<longleftrightarrow> (\<forall>rd\<in>set deps. cache_valid c rd \<and> keyed_lists c rd)"

lemma okToReconcileServiceSet_spec:
  assumes "deps_ok c deps"
    and "okToReconcileServiceSet shortHash c sysns cd deps blocked = (ok, errs, deps', blocked')"
  shows "(ok \<longleftrightarrow> (\<forall>rd\<in>set deps. dep_ready shortHash c sysns cd rd))
         \<and> (ok \<longrightarrow> errs = [] \<and> blocked' = blocked)
         \<and> (blocked' = blocked \<or> (\<exists>msg. blocked' = blocked @ [\<lparr>bc_ref = target_reference cd, bc_msg = msg\<rparr>]))
         \<and> deps_ok c deps'"
proof -
  obtain rds' e b where run: "check_dependencies shortHash c sysns (cluster_ref cd) cd deps = (rds', e, b)"
    by (metis prod_cases3)
  from check_dependencies_ready [OF _ run] assms(1)
  have ready: "e = [] \<and> b = [] \<longleftrightarrow> (\<forall>rd\<in>set deps. dep_ready shortHash c sysns cd rd)"
    and same: "list_all2 (\<lambda>rd rd'. cache_valid c rd' \<and> rd_mcs rd' = rd_mcs rd \<and> rd_selector rd' = rd_selector rd) deps rds'"
    by (auto simp: deps_ok_def)
  have "deps_ok c rds'"
    unfolding deps_ok_def
  proof
    fix rd' assume "rd' \<in> set rds'"
    then obtain i where i: "i < length rds'" "rd' = rds' ! i" by (auto simp: in_set_conv_nth)
    let ?rd = "deps ! i"
    from same i have rd: "?rd \<in> set deps" and "cache_valid c rd'" and mcs: "rd_mcs rd' = rd_mcs ?rd"
      by (simp_all add: list_all2_conv_all_nth)
    moreover have "keyed_lists c ?rd" using assms(1) rd by (simp add: deps_ok_def)
    ultimately show "cache_valid c rd' \<and> keyed_lists c rd'" unfolding keyed_lists_def mcs by blast
  qed
  with assms(2) run ready show ?thesis
    by (auto simp: okToReconcileServiceSet_def split: if_splits)
qed

text \<open>
  C5: The gate opens for a target exactly if every dependency could be fetched and, where it
  applies to the target, has a ServiceSet there in which all its services are reported at the
  versions its spec asks for. A closed gate reports errors only for failures: waiting adds one
  entry for the target to the blocked list. The cache of desired versions never changes the answer,
  for this target or for the next.
\<close>

theorem okToReconcileServiceSet_correct:
  assumes "deps_ok c deps"
    and "okToReconcileServiceSet shortHash c sysns cd deps blocked = (ok, errs, deps', blocked')"
  shows "(ok \<longleftrightarrow> (\<forall>rd\<in>set deps. dep_ready shortHash c sysns cd rd))
         \<and> (ok \<longrightarrow> errs = [] \<and> blocked' = blocked)
         \<and> (blocked' = blocked \<or> (\<exists>msg. blocked' = blocked @ [\<lparr>bc_ref = target_reference cd, bc_msg = msg\<rparr>]))
         \<and> deps_ok c deps'"
  using assms by (rule okToReconcileServiceSet_spec)

text \<open>
  A dependency whose ServiceSet or ServiceTemplate is merely absent is never reported as an
  error: the check then blocks, and it never both errs and blocks on one dependency.
\<close>

theorem check_dependency_absent_blocks:
  assumes "cache_valid c rd" and "keyed_lists c rd" and "rd_mcs rd = Inr m" and "dep_applies cd rd m = Inr True"
    and "desiredServiceVersions (mc_svc c) (ok_Namespace (ServiceSetObjectKey shortHash sysns cd m)) (sp_Services (mcs_ServiceSpec m)) = Inr desired"
    and "getServiceSet (mc_svc c) (ServiceSetObjectKey shortHash sysns cd m) = Inl NotFound"
    and "check_dependency shortHash c sysns ref cd rd = (rd', errs, blocking)"
  shows "errs = [] \<and> blocking = [rd_name rd @ '' (ServiceSet not yet created)'']"
proof -
  obtain d rd1 where d: "desiredIn (mc_svc c) (ok_Namespace (ServiceSetObjectKey shortHash sysns cd m))
      (sp_Services (mcs_ServiceSpec m)) rd = (d, rd1)" by (metis surj_pair)
  from desiredIn_valid [OF assms(1,3) d] assms(5) have "d = Inr desired" by simp
  with assms d show ?thesis by (auto simp: check_dependency_def)
qed

section \<open>Bounded messages\<close>

lemma join_strings_length:
  "length (join_strings sep xs) \<le> sum_list (map length xs) + length xs * length sep"
  by (induction sep xs rule: join_strings.induct) auto

text \<open>
  A blocked message names at most three dependencies, however many are blocking, and says how
  many it leaves out.
\<close>

theorem blockedMessage_bounded:
  "blockedMessage ref deps =
     ''skipping create/update of ServiceSet for matching cluster '' @ format_key ref @ '': waiting on ''
     @ join_strings '', '' (take 3 deps)
     @ (if length deps > 3 then '' and '' @ format_nat (length deps - 3) @ '' more'' else [])
   \<and> length (snd (deployedAtDesiredVersion sset desired)) \<le> 3"
  using lagging_bounded [of _ desired "ssst_Services (sset_Status sset)" "(0, [])"]
  by (simp add: blockedMessage_def Let_def maxBlockingDependenciesInMessage_def deployedAtDesiredVersion_def)

section \<open>A concrete dependency\<close>

definition example_dep_mcs :: "Service list \<Rightarrow> MultiClusterService" where
  "example_dep_mcs services = \<lparr>mcs_Name = ''base'', mcs_UID = ''u'', mcs_Generation = 1, mcs_Deleting = False, mcs_Labels = [], mcs_Finalizers = [],
     mcs_ClusterSelector = \<lparr>ls_MatchLabels = [], ls_MatchExpressions = []\<rparr>, mcs_DependsOn = [],
     mcs_ServiceSpec = example_spec\<lparr>sp_Services := services,
        sp_Provider := \<lparr>smpc_Config = None, smpc_Name = ''p'', smpc_SelfManagement = True\<rparr>\<rparr>,
     mcs_KeepServicesOnSelectorMismatch = False, mcs_Conditions = [], mcs_MatchingClusters = [],
     mcs_ServicesUpgradePaths = [], mcs_ObservedGeneration = 0\<rparr>"

definition example_mcs_client :: "(ObjectKey \<Rightarrow> api_error + ServiceSet) \<Rightarrow> mcs_client" where
  "example_mcs_client get = \<lparr>mc_svc = (example_client [])\<lparr>getServiceSet := get\<rparr>,
     getMultiClusterService = (\<lambda>_. Inl NotFound), getClusterDeployment = (\<lambda>_. Inl NotFound),
     getCredentialRegion = (\<lambda>_. Inl NotFound), listClusterDeployments = (\<lambda>_. Inr []), listServiceSetsOf = (\<lambda>_. Inr []),
     listMultiClusterServices = Inr []\<rparr>"

definition example_resolved :: resolvedDependency where
  "example_resolved = \<lparr>rd_name = ''base'',
     rd_mcs = Inr (example_dep_mcs [(example_service ''a'' [])\<lparr>svc_Version := ''1''\<rparr>]),
     rd_selector = Inr no_selector, rd_desiredByNamespace = []\<rparr>"

lemma example_deps_ok:
  assumes "\<And>key sset. get key = Inr sset \<Longrightarrow> distinct (map ss_key (ssst_Services (sset_Status sset)))"
  shows "deps_ok (example_mcs_client get) [example_resolved]"
  using assms
  by (simp add: deps_ok_def cache_valid_def keyed_lists_def example_resolved_def example_mcs_client_def
      example_dep_mcs_def)

theorem okToReconcileServiceSet_correct_witness:
  "let c = example_mcs_client (\<lambda>_. Inr (example_set [example_stored ''a'' ''1''] [example_state ''a'' ''1'' ServiceStateDeployed]));
       (ok, errs, deps', blocked') = okToReconcileServiceSet (\<lambda>_. ''h'') c ''kcm-system'' None [example_resolved] []
   in ok \<and> dep_ready (\<lambda>_. ''h'') c ''kcm-system'' None example_resolved \<and> deps_ok c deps'"
proof -
  let ?c = "example_mcs_client (\<lambda>_. Inr (example_set [example_stored ''a'' ''1''] [example_state ''a'' ''1'' ServiceStateDeployed]))"
  obtain ok errs deps' blocked' where
    run: "okToReconcileServiceSet (\<lambda>_. ''h'') ?c ''kcm-system'' None [example_resolved] [] = (ok, errs, deps', blocked')"
    by (metis prod_cases4)
  have "fst (okToReconcileServiceSet (\<lambda>_. ''h'') ?c ''kcm-system'' None [example_resolved] [])" by code_simp
  with run have ok by simp
  moreover have "deps_ok ?c [example_resolved]" by (rule example_deps_ok) auto
  ultimately show ?thesis
    using okToReconcileServiceSet_correct [OF _ run] run by simp
qed

theorem check_dependency_absent_blocks_witness:
  "fst (snd (check_dependency (\<lambda>_. ''h'') (example_mcs_client (\<lambda>_. Inl NotFound)) ''kcm-system''
     (ObjectKey ''mgmt'' ''mgmt'') None example_resolved)) = []"
proof -
  let ?c = "example_mcs_client (\<lambda>_. Inl NotFound)"
  obtain rd' errs blocking where
    run: "check_dependency (\<lambda>_. ''h'') ?c ''kcm-system'' (ObjectKey ''mgmt'' ''mgmt'') None example_resolved = (rd', errs, blocking)"
    by (metis prod_cases3)
  have ok: "deps_ok ?c [example_resolved]" by (rule example_deps_ok) simp
  let ?m = "example_dep_mcs [(example_service ''a'' [])\<lparr>svc_Version := ''1''\<rparr>]"
  have "desiredServiceVersions (mc_svc ?c) (ok_Namespace (ServiceSetObjectKey (\<lambda>_. ''h'') ''kcm-system'' None ?m))
      (sp_Services (mcs_ServiceSpec ?m)) = Inr (index_by svc_key svc_version [(example_service ''a'' [])\<lparr>svc_Version := ''1''\<rparr>])"
    by (simp add: desiredServiceVersions_def resolve_services_def ResolveServiceVersions_def fillServiceVersions_def
        fill_version_def example_dep_mcs_def)
  from check_dependency_absent_blocks [OF _ _ _ _ this _ run] ok run show ?thesis
    by (simp add: deps_ok_def example_resolved_def dep_applies_def example_mcs_client_def example_dep_mcs_def)
qed

end
