(* ===== verification/StatusConditions.thy ===== *)
theory StatusConditions
  imports KcmTypes
begin

text \<open>
  Status conditions: the aggregated Ready condition of
  \<^verbatim>\<open>internal/util/conditions/ready_condition.go\<close>. \<open>apimeta.SetStatusCondition\<close> is library code
  and a parameter \<open>setc\<close>; what the code relies on is \<open>sets_condition\<close>: afterwards the
  condition of that type is the given one and all others are as before.
\<close>

section \<open>Definitions\<close>

type_synonym set_condition = "Condition list \<Rightarrow> Condition \<Rightarrow> Condition list"

definition find_condition :: "Condition list \<Rightarrow> string \<Rightarrow> Condition option" where
  "find_condition cs t = find (\<lambda>c. cond_Type c = t) cs"

definition sets_condition :: "set_condition \<Rightarrow> bool" where
  "sets_condition setc \<longleftrightarrow>
     (\<forall>cs c t. find_condition (setc cs c) t = (if t = cond_Type c then Some c else find_condition cs t))"

definition ReadyCondition :: string where "ReadyCondition = ''Ready''"
definition DeletingCondition :: string where "DeletingCondition = ''Deleting''"
definition PausedCondition :: string where "PausedCondition = ''Paused''"
definition PausedReason :: string where "PausedReason = ''Paused''"
definition DeletingReason :: string where "DeletingReason = ''Deleting''"
definition ProgressingReason :: string where "ProgressingReason = ''Progressing''"
definition SucceededReason :: string where "SucceededReason = ''Succeeded''"
definition FailedReason :: string where "FailedReason = ''Failed''"

lemmas condition_names =
  ReadyCondition_def DeletingCondition_def PausedCondition_def PausedReason_def DeletingReason_def
  ProgressingReason_def SucceededReason_def FailedReason_def

definition buildReadyCondition ::
  "string list \<Rightarrow> string list \<Rightarrow> string list \<Rightarrow> nat \<Rightarrow> int \<Rightarrow> Condition" where
  "buildReadyCondition errs warnings unknownMsgs totalConditions generation =
     (let ready = (\<lambda>status reason message. \<lparr>cond_Type = ReadyCondition, cond_Status = status,
            cond_ObservedGeneration = generation, cond_Reason = reason, cond_Message = message\<rparr>)
      in if length errs > 0 then ready ConditionFalse FailedReason (join_strings ''. '' errs)
         else if length warnings > 0 then ready ConditionFalse ProgressingReason (join_strings ''. '' warnings)
         else if totalConditions = 0 \<or> length unknownMsgs > 0
         then ready ConditionUnknown ProgressingReason (join_strings ''. '' unknownMsgs)
         else ready ConditionTrue SucceededReason ''Object is ready'')"

text \<open>One condition of the collecting loop; the state is \<open>(errs, warnings, unknownMsgs)\<close>.\<close>

definition collect_condition ::
  "(Condition \<Rightarrow> string \<times> string) \<Rightarrow> Condition \<Rightarrow> string list \<times> string list \<times> string list
     \<Rightarrow> string list \<times> string list \<times> string list" where
  "collect_condition handleFalse cond acc =
     (case acc of (errs, warnings, unknownMsgs) \<Rightarrow>
        if cond_Type cond = ReadyCondition \<or> cond_Type cond = DeletingCondition then acc
        else if cond_Type cond = PausedCondition then
          (if cond_Status cond = ConditionTrue \<and> cond_Reason cond = PausedReason
           then (errs @ [cond_Message cond], warnings, unknownMsgs) else acc)
        else case cond_Status cond of
               ConditionTrue \<Rightarrow> acc
             | ConditionUnknown \<Rightarrow> (errs, warnings, unknownMsgs @ [cond_Message cond])
             | ConditionFalse \<Rightarrow>
                 (case handleFalse cond of
                    (errMsg, warningMsg) \<Rightarrow>
                      (if errMsg \<noteq> [] then errs @ [errMsg] else errs,
                       if warningMsg \<noteq> [] then warnings @ [warningMsg] else warnings, unknownMsgs)))"

definition UpdateReadyCondition ::
  "set_condition \<Rightarrow> Condition list \<Rightarrow> int \<Rightarrow> (Condition \<Rightarrow> string \<times> string) \<Rightarrow> Condition list" where
  "UpdateReadyCondition setc conditions generation handleFalse =
     (case index_func (\<lambda>c. cond_Type c = DeletingCondition \<and> cond_Status c = ConditionTrue) conditions of
        Some deletingIdx \<Rightarrow>
          setc conditions \<lparr>cond_Type = ReadyCondition, cond_Status = ConditionFalse,
            cond_ObservedGeneration = generation, cond_Reason = DeletingReason,
            cond_Message = cond_Message (conditions ! deletingIdx)\<rparr>
      | None \<Rightarrow>
          (case fold (collect_condition handleFalse) conditions ([], [], []) of
             (errs, warnings, unknownMsgs) \<Rightarrow>
               setc conditions (buildReadyCondition errs warnings unknownMsgs (length conditions) generation)))"

section \<open>The Ready condition\<close>

text \<open>What one condition contributes.\<close>

definition counted :: "Condition \<Rightarrow> bool" where
  "counted c \<longleftrightarrow> cond_Type c \<noteq> ReadyCondition \<and> cond_Type c \<noteq> DeletingCondition \<and> cond_Type c \<noteq> PausedCondition"

definition is_paused :: "Condition \<Rightarrow> bool" where
  "is_paused c \<longleftrightarrow> cond_Type c = PausedCondition \<and> cond_Status c = ConditionTrue \<and> cond_Reason c = PausedReason"

lemma collect_conditions:
  "fold (collect_condition h) cs (e0, w0, u0) = (errs, warnings, unknowns) \<Longrightarrow>
     (errs = [] \<longleftrightarrow> e0 = [] \<and> (\<forall>c\<in>set cs. \<not> is_paused c
        \<and> (counted c \<and> cond_Status c = ConditionFalse \<longrightarrow> fst (h c) = [])))
     \<and> (warnings = [] \<longleftrightarrow> w0 = [] \<and> (\<forall>c\<in>set cs. counted c \<and> cond_Status c = ConditionFalse \<longrightarrow> snd (h c) = []))
     \<and> (unknowns = [] \<longleftrightarrow> u0 = [] \<and> (\<forall>c\<in>set cs. counted c \<longrightarrow> cond_Status c \<noteq> ConditionUnknown))"
proof (induction cs arbitrary: e0 w0 u0)
  case Nil
  then show ?case by simp
next
  case (Cons c cs)
  obtain e1 w1 u1 where one: "collect_condition h c (e0, w0, u0) = (e1, w1, u1)" by (metis prod_cases3)
  then have "fold (collect_condition h) cs (e1, w1, u1) = (errs, warnings, unknowns)" using Cons.prems by simp
  note IH = Cons.IH [OF this]
  have step: "(e1 = [] \<longleftrightarrow> e0 = [] \<and> \<not> is_paused c \<and> (counted c \<and> cond_Status c = ConditionFalse \<longrightarrow> fst (h c) = []))"
    "(w1 = [] \<longleftrightarrow> w0 = [] \<and> (counted c \<and> cond_Status c = ConditionFalse \<longrightarrow> snd (h c) = []))"
    "(u1 = [] \<longleftrightarrow> u0 = [] \<and> (counted c \<longrightarrow> cond_Status c \<noteq> ConditionUnknown))"
    using one by (auto simp: collect_condition_def counted_def is_paused_def condition_names
        split: if_splits ConditionStatus.splits prod.splits)
  from IH step show ?case by simp
qed

text \<open>
  The aggregated Ready condition is True exactly if the object is not being deleted, is not
  paused, has at least one condition, none that counts is Unknown, and every False one is one for
  which the caller reports neither an error nor a warning. It never touches any other condition.
\<close>

theorem UpdateReadyCondition_correct:
  assumes "sets_condition setc"
  shows "(\<exists>r. find_condition (UpdateReadyCondition setc cs generation h) ReadyCondition = Some r
            \<and> cond_ObservedGeneration r = generation
            \<and> (cond_Status r = ConditionTrue \<longleftrightarrow>
                 cs \<noteq> [] \<and> (\<forall>c\<in>set cs.
                   \<not> (cond_Type c = DeletingCondition \<and> cond_Status c = ConditionTrue)
                   \<and> \<not> is_paused c
                   \<and> (counted c \<longrightarrow> cond_Status c \<noteq> ConditionUnknown
                        \<and> (cond_Status c = ConditionFalse \<longrightarrow> h c = ([], []))))))
         \<and> (\<forall>t. t \<noteq> ReadyCondition \<longrightarrow>
              find_condition (UpdateReadyCondition setc cs generation h) t = find_condition cs t)"
proof -
  have type: "cond_Type (buildReadyCondition e w u n g) = ReadyCondition" for e w u n g
    by (simp add: buildReadyCondition_def Let_def)
  let ?del = "index_func (\<lambda>c. cond_Type c = DeletingCondition \<and> cond_Status c = ConditionTrue) cs"
  show ?thesis
  proof (cases ?del)
    case (Some i)
    then have "cs ! i \<in> set cs" "cond_Type (cs ! i) = DeletingCondition" "cond_Status (cs ! i) = ConditionTrue"
      by (simp_all add: index_func_Some)
    with Some assms show ?thesis by (auto simp: UpdateReadyCondition_def sets_condition_def)
  next
    case None
    obtain errs warnings unknowns where
      run: "fold (collect_condition h) cs ([], [], []) = (errs, warnings, unknowns)" by (metis prod_cases3)
    note coll = collect_conditions [OF run]
    have "cond_Status (buildReadyCondition errs warnings unknowns (length cs) generation) = ConditionTrue
        \<longleftrightarrow> errs = [] \<and> warnings = [] \<and> unknowns = [] \<and> cs \<noteq> []"
      by (auto simp: buildReadyCondition_def Let_def)
    also have "\<dots> \<longleftrightarrow> cs \<noteq> [] \<and> (\<forall>c\<in>set cs.
                   \<not> (cond_Type c = DeletingCondition \<and> cond_Status c = ConditionTrue)
                   \<and> \<not> is_paused c
                   \<and> (counted c \<longrightarrow> cond_Status c \<noteq> ConditionUnknown
                        \<and> (cond_Status c = ConditionFalse \<longrightarrow> h c = ([], []))))"
      using coll None by (simp add: index_func_None prod_eq_iff) blast
    finally have status: "cond_Status (buildReadyCondition errs warnings unknowns (length cs) generation) = ConditionTrue
        \<longleftrightarrow> \<dots>" .
    have "UpdateReadyCondition setc cs generation h = setc cs (buildReadyCondition errs warnings unknowns (length cs) generation)"
      by (simp add: UpdateReadyCondition_def None run)
    moreover have "cond_ObservedGeneration (buildReadyCondition errs warnings unknowns (length cs) generation) = generation"
      by (simp add: buildReadyCondition_def Let_def)
    ultimately show ?thesis using assms status type by (simp add: sets_condition_def)
  qed
qed

text \<open>A setter with the documented behaviour, used to evaluate the theorems.\<close>

definition example_setc :: set_condition where
  "example_setc cs c = filter (\<lambda>x. cond_Type x \<noteq> cond_Type c) cs @ [c]"

lemma example_setc_sets: "sets_condition example_setc"
proof -
  have "find (\<lambda>x. cond_Type x = t) (example_setc cs c) =
      (if t = cond_Type c then Some c else find (\<lambda>x. cond_Type x = t) cs)" for cs :: "Condition list" and c t
    by (induction cs) (auto simp: example_setc_def)
  then show ?thesis by (simp add: sets_condition_def find_condition_def)
qed

theorem UpdateReadyCondition_correct_witness:
  "\<exists>r. find_condition (UpdateReadyCondition example_setc
         [\<lparr>cond_Type = ''X'', cond_Status = ConditionTrue, cond_ObservedGeneration = 1, cond_Reason = [], cond_Message = []\<rparr>]
         2 (\<lambda>c. (cond_Message c, []))) ReadyCondition = Some r \<and> cond_Status r = ConditionTrue"
  using UpdateReadyCondition_correct [OF example_setc_sets,
      of "[\<lparr>cond_Type = ''X'', cond_Status = ConditionTrue, cond_ObservedGeneration = 1, cond_Reason = [], cond_Message = []\<rparr>]"
        2 "\<lambda>c. (cond_Message c, [])"]
  by (auto simp: condition_names is_paused_def)

end
