(* ===== verification/TemplateValidation.thy ===== *)
theory TemplateValidation
  imports ServiceKeys
begin

text \<open>
  Validation of the templates and template chains that services refer to:
  \<open>ServicesHaveValidTemplates\<close>, \<open>validateServiceTemplate\<close> and
  \<open>validateServiceTemplateChain\<close> of \<^verbatim>\<open>internal/util/validation/services.go\<close>. An error joined from
  several is the list of them; the empty list is nil.
\<close>

section \<open>Definitions\<close>

datatype template_error =
    InvalidNamespace string string
  | InvalidName string string
  | ServiceTemplateGetFailed ObjectKey api_error
  | ServiceTemplateInvalid ObjectKey string
  | ChainGetFailed ObjectKey api_error
  | ChainInvalid ObjectKey string
  | ChainUnsupported ObjectKey string

definition validateServiceTemplate :: "svc_client \<Rightarrow> Service \<Rightarrow> string \<Rightarrow> template_error list" where
  "validateServiceTemplate cl svc ns =
     (let key = ObjectKey ns (svc_Template svc)
      in case getServiceTemplate cl key of
           Inl e \<Rightarrow> [ServiceTemplateGetFailed key e]
         | Inr svcTemplate \<Rightarrow>
             if \<not> st_Valid svcTemplate then [ServiceTemplateInvalid key (st_ValidationError svcTemplate)] else [])"

text \<open>
  The loop over the supported templates; the state is \<open>(errs, key, matchingTemplateFound)\<close>.
  The variable \<open>key\<close> first holds the key of the chain and is overwritten with the key of a
  template, and it is what the final error reports.
\<close>

fun chain_loop ::
  "svc_client \<Rightarrow> Service \<Rightarrow> string \<Rightarrow> SupportedTemplate list \<Rightarrow> template_error list \<Rightarrow> ObjectKey
     \<Rightarrow> template_error list \<times> ObjectKey \<times> bool" where
  "chain_loop cl svc ns [] errs key = (errs, key, False)"
| "chain_loop cl svc ns (t # ts) errs key =
     (if stpl_Name t \<noteq> svc_Template svc then chain_loop cl svc ns ts errs key
      else
        let key = ObjectKey ns (stpl_Name t)
        in case getServiceTemplate cl key of
             Inl e \<Rightarrow> chain_loop cl svc ns ts (errs @ [ServiceTemplateGetFailed key e]) key
           | Inr template \<Rightarrow>
               if \<not> st_Valid template
               then chain_loop cl svc ns ts (errs @ [ServiceTemplateInvalid key (st_ValidationError template)]) key
               else (errs, key, True))"

definition validateServiceTemplateChain :: "svc_client \<Rightarrow> Service \<Rightarrow> string \<Rightarrow> template_error list" where
  "validateServiceTemplateChain cl svc ns =
     (let key = ObjectKey ns (svc_TemplateChain svc)
      in case getServiceTemplateChain cl key of
           Inl e \<Rightarrow> [ChainGetFailed key e]
         | Inr templateChain \<Rightarrow>
             if \<not> tcst_Valid (stc_Status templateChain)
             then [ChainInvalid key (tcst_ValidationError (stc_Status templateChain))]
             else
               (case chain_loop cl svc ns (tcs_SupportedTemplates (stc_Spec templateChain)) [] key of
                  (errs, key', found) \<Rightarrow>
                    if \<not> found then errs @ [ChainUnsupported key' (svc_Template svc)] else errs))"

text \<open>
  \<open>validation.ValidateNamespaceName\<close> is library code and a parameter: the messages for a name.
\<close>

definition validate_service ::
  "(string \<Rightarrow> string list) \<Rightarrow> svc_client \<Rightarrow> string \<Rightarrow> Service \<Rightarrow> template_error list" where
  "validate_service validateName cl ns svc =
     (if svc_Namespace svc \<noteq> [] then map (InvalidNamespace (svc_Namespace svc)) (validateName (svc_Namespace svc)) else [])
     @ (if svc_Name svc \<noteq> [] then map (InvalidName (svc_Name svc)) (validateName (svc_Name svc)) else [])
     @ validateServiceTemplate cl svc ns
     @ (if svc_TemplateChain svc = [] then [] else validateServiceTemplateChain cl svc ns)"

definition ServicesHaveValidTemplates ::
  "(string \<Rightarrow> string list) \<Rightarrow> svc_client \<Rightarrow> Service list \<Rightarrow> string \<Rightarrow> template_error list" where
  "ServicesHaveValidTemplates validateName cl services ns = concat (map (validate_service validateName cl ns) services)"

section \<open>Accepted services\<close>

definition valid_template :: "svc_client \<Rightarrow> string \<Rightarrow> string \<Rightarrow> bool" where
  "valid_template cl ns t \<longleftrightarrow> (\<exists>st. getServiceTemplate cl (ObjectKey ns t) = Inr st \<and> st_Valid st)"

lemma validateServiceTemplate_Nil: "validateServiceTemplate cl svc ns = [] \<longleftrightarrow> valid_template cl ns (svc_Template svc)"
  by (auto simp: validateServiceTemplate_def valid_template_def Let_def split: sum.split)

lemma chain_loop_found:
  "valid_template cl ns (svc_Template svc) \<Longrightarrow>
     chain_loop cl svc ns ts errs key =
       (errs, if svc_Template svc \<in> stpl_Name ` set ts then ObjectKey ns (svc_Template svc) else key,
        svc_Template svc \<in> stpl_Name ` set ts)"
  by (induction ts arbitrary: errs key) (auto simp: valid_template_def Let_def split: sum.splits)

lemma chain_loop_not_found:
  "\<not> valid_template cl ns (svc_Template svc) \<Longrightarrow> \<not> snd (snd (chain_loop cl svc ns ts errs key))"
  by (induction ts arbitrary: errs key) (auto simp: valid_template_def Let_def split: sum.splits)

lemma validateServiceTemplateChain_Nil:
  "validateServiceTemplateChain cl svc ns = [] \<longleftrightarrow>
     (\<exists>chain. getServiceTemplateChain cl (ObjectKey ns (svc_TemplateChain svc)) = Inr chain
        \<and> tcst_Valid (stc_Status chain) \<and> valid_template cl ns (svc_Template svc)
        \<and> svc_Template svc \<in> stpl_Name ` set (tcs_SupportedTemplates (stc_Spec chain)))"
proof (cases "valid_template cl ns (svc_Template svc)")
  case True
  then show ?thesis
    by (auto simp: validateServiceTemplateChain_def Let_def chain_loop_found split: sum.split)
next
  case False
  then show ?thesis
    using chain_loop_not_found [OF False]
    by (auto simp: validateServiceTemplateChain_def Let_def case_prod_unfold split: sum.split)
qed

text \<open>
  Services are accepted exactly if every one has acceptable names, refers to a ServiceTemplate
  that exists and is valid, and, if it names a template chain, that chain exists, is valid and
  supports the template.
\<close>

theorem ServicesHaveValidTemplates_iff:
  "ServicesHaveValidTemplates validateName cl services ns = [] \<longleftrightarrow>
     (\<forall>svc\<in>set services.
        (svc_Namespace svc = [] \<or> validateName (svc_Namespace svc) = [])
        \<and> (svc_Name svc = [] \<or> validateName (svc_Name svc) = [])
        \<and> valid_template cl ns (svc_Template svc)
        \<and> (svc_TemplateChain svc = [] \<or>
             (\<exists>chain. getServiceTemplateChain cl (ObjectKey ns (svc_TemplateChain svc)) = Inr chain
                \<and> tcst_Valid (stc_Status chain)
                \<and> svc_Template svc \<in> stpl_Name ` set (tcs_SupportedTemplates (stc_Spec chain)))))"
  by (auto simp: ServicesHaveValidTemplates_def validate_service_def validateServiceTemplate_Nil
      validateServiceTemplateChain_Nil)

text \<open>
  If a valid chain lists the template once but the template cannot be read or is invalid, the
  last error reported claims that the chain does not support it, and it carries the key of the
  template in the place of the key of the chain.
\<close>

theorem validateServiceTemplateChain_misreports:
  assumes "getServiceTemplateChain cl (ObjectKey ns (svc_TemplateChain svc)) = Inr chain"
    and "tcst_Valid (stc_Status chain)"
    and "tcs_SupportedTemplates (stc_Spec chain) = [t]" and "stpl_Name t = svc_Template svc"
    and "\<not> valid_template cl ns (svc_Template svc)"
  shows "last (validateServiceTemplateChain cl svc ns) = ChainUnsupported (ObjectKey ns (svc_Template svc)) (svc_Template svc)"
  using assms by (auto simp: validateServiceTemplateChain_def valid_template_def Let_def split: sum.splits)

definition example_broken_client :: svc_client where
  "example_broken_client =
     \<lparr>getServiceTemplate = (\<lambda>_. Inl NotFound),
      getServiceTemplateChain = (\<lambda>_. Inr \<lparr>stc_Spec = \<lparr>tcs_SupportedTemplates = [\<lparr>stpl_Name = ''t'', stpl_AvailableUpgrades = []\<rparr>]\<rparr>,
         stc_Status = \<lparr>tcst_ValidationError = [], tcst_Valid = True\<rparr>\<rparr>),
      getServiceSet = (\<lambda>_. Inl NotFound), getProviderSelector = (\<lambda>_. Inl NotFound),
      listServiceSets = (\<lambda>_ _. Inr [])\<rparr>"

definition example_chained_service :: Service where
  "example_chained_service = \<lparr>svc_HelmOptions = None, svc_HelmAction = [], svc_Name = ''s'', svc_Namespace = [],
      svc_Template = ''t'', svc_TemplateChain = ''c'', svc_Version = [], svc_Values = [],
      svc_ValuesFrom = [], svc_DependsOn = [], svc_Disable = False\<rparr>"

theorem validateServiceTemplateChain_misreports_witness:
  "last (validateServiceTemplateChain example_broken_client example_chained_service ''ns'') = ChainUnsupported (ObjectKey ''ns'' ''t'') ''t''"
  using validateServiceTemplateChain_misreports [of example_broken_client "''ns''" example_chained_service]
  by (simp add: example_broken_client_def example_chained_service_def valid_template_def)

theorem ServicesHaveValidTemplates_iff_witness:
  "ServicesHaveValidTemplates (\<lambda>_. []) (example_broken_client\<lparr>getServiceTemplate := (\<lambda>_. Inr
     \<lparr>st_Version = [], st_Helm = None, st_Valid = True, st_ValidationError = [], st_KubernetesConstraint = []\<rparr>)\<rparr>)
     [example_chained_service] ''ns'' = []"
  by (subst ServicesHaveValidTemplates_iff)
    (simp add: valid_template_def example_broken_client_def example_chained_service_def)

end
