(* ===== verification/MCSController.thy ===== *)
theory MCSController
  imports MCSGate StatusConditions TemplateValidation
begin

text \<open>
  The reconciler of MultiClusterServices (\<^verbatim>\<open>internal/controller/multiclusterservice_controller.go\<close>):
  which ServiceSets it deletes, for which clusters it writes ServiceSets, what it reports in the
  status, and when it lets the object go. The API server is a state \<open>'w\<close> with a view (the
  reads) and writes, all parameters. Logging, events and metrics are left out.
\<close>

section \<open>Definitions\<close>

record 'w kube =
  k_view :: "'w \<Rightarrow> mcs_client"
  k_write :: "'w write_client"
  k_delete :: "ServiceSet \<Rightarrow> 'w \<Rightarrow> api_error option \<times> 'w"
  k_updateMCS :: "MultiClusterService \<Rightarrow> 'w \<Rightarrow> api_error option \<times> 'w"
  k_patchLabel :: "MultiClusterService \<Rightarrow> 'w \<Rightarrow> api_error option \<times> 'w"
  k_updateStatus :: "MultiClusterService \<Rightarrow> 'w \<Rightarrow> api_error option \<times> 'w"
  k_managementDeleting :: "'w \<Rightarrow> api_error + bool"

text \<open>
  Fixed parameters of the reconciler: system namespace, the current time, the hash of ServiceSet
  names, the libraries, and the order in which Go visits the entries of a map.
\<close>

record 'v reconciler =
  r_SystemNamespace :: string
  r_now :: int
  r_shortHash :: "string \<Rightarrow> string"
  r_env :: "'v pipeline_env"
  r_compile :: compile_selector
  r_setc :: set_condition
  r_validateName :: "string \<Rightarrow> string list"
  r_addFinalizer :: "string \<Rightarrow> string list \<Rightarrow> string list"
  r_removeFinalizer :: "string \<Rightarrow> string list \<Rightarrow> string list"
  r_toValidUTF8 :: "string \<Rightarrow> string"
  r_showError :: "mcs_error list \<Rightarrow> string"

subsection \<open>Writing and deleting ServiceSets\<close>

definition createOrUpdateServiceSet ::
  "'v reconciler \<Rightarrow> 'w kube \<Rightarrow> MultiClusterService \<Rightarrow> ClusterDeployment option \<Rightarrow> 'w \<Rightarrow> mcs_error list \<times> 'w" where
  "createOrUpdateServiceSet r k mcs cd w =
     (let key = ServiceSetObjectKey (r_shortHash r) (r_SystemNamespace r) cd mcs;
          req = \<lparr>op_ObjectKey = key, op_MCS = Some mcs, op_CD = cd, op_SystemNamespace = r_SystemNamespace r\<rparr>
      in case GetServiceSetWithOperation (r_env r) (mc_svc (k_view k w)) req of
           Inl e \<Rightarrow> ([ServiceSetFailed key e], w)
         | Inr (serviceSet, op) \<Rightarrow>
             if op = ServiceSetOperationNone then ([], w)
             else (case CreateOrUpdateServiceSet (k_write k) op serviceSet w of
                     (None, w') \<Rightarrow> ([], w')
                   | (Some e, w') \<Rightarrow> ([ServiceSetFailed key e], w')))"

text \<open>\<open>client.IgnoreNotFound\<close> on the error of a delete.\<close>

definition delete_service_set ::
  "'w kube \<Rightarrow> ServiceSet \<Rightarrow> 'w \<Rightarrow> mcs_error list \<times> 'w" where
  "delete_service_set k sset w =
     (case k_delete k sset w of
        (None, w') \<Rightarrow> ([], w')
      | (Some e, w') \<Rightarrow>
          (if e = NotFound then [] else [ServiceSetDeleteFailed (ObjectKey (sset_Namespace sset) (sset_Name sset)) e], w'))"

text \<open>
  The loop of \<open>cleanupServiceSets\<close>: the errors, the state and the ServiceSets deleted. A
  ClusterDeployment that cannot be read ends the loop with that error alone.
\<close>

fun cleanup_loop ::
  "'w kube \<Rightarrow> MultiClusterService \<Rightarrow> selector \<Rightarrow> ServiceSet list \<Rightarrow> mcs_error list \<Rightarrow> ServiceSet list \<Rightarrow> 'w
     \<Rightarrow> mcs_error list \<times> ServiceSet list \<times> 'w" where
  "cleanup_loop k mcs selector [] errs deleted w = (errs, deleted, w)"
| "cleanup_loop k mcs selector (sset # ssets) errs deleted w =
     (let remove = (case delete_service_set k sset w of
              (errs', w') \<Rightarrow> cleanup_loop k mcs selector ssets (errs @ errs') (deleted @ [sset]) w')
      in if sset_Deleting sset then cleanup_loop k mcs selector ssets errs deleted w
         else if sss_Cluster (sset_Spec sset) = [] then
           (if smpc_SelfManagement (sp_Provider (mcs_ServiceSpec mcs))
            then cleanup_loop k mcs selector ssets errs deleted w else remove)
         else if sel_Empty selector then remove
         else
           let key = ObjectKey (sset_Namespace sset) (sss_Cluster (sset_Spec sset))
           in case getClusterDeployment (k_view k w) key of
                Inl e \<Rightarrow> ([ClusterDeploymentGetFailed key e], deleted, w)
              | Inr cd \<Rightarrow>
                  if \<not> sel_Matches selector (cd_Labels cd) then remove
                  else cleanup_loop k mcs selector ssets errs deleted w)"

definition cleanupServiceSets ::
  "'v reconciler \<Rightarrow> 'w kube \<Rightarrow> MultiClusterService \<Rightarrow> 'w \<Rightarrow> mcs_error list \<times> ServiceSet list \<times> 'w" where
  "cleanupServiceSets r k mcs w =
     (if mcs_KeepServicesOnSelectorMismatch mcs then ([], [], w)
      else case listServiceSetsOf (k_view k w) (mcs_Name mcs) of
             Inl e \<Rightarrow> ([ListServiceSetsFailed (mcs_Name mcs) e], [], w)
           | Inr items \<Rightarrow>
               (case r_compile r (mcs_ClusterSelector mcs) of
                  Inl e \<Rightarrow> ([SelectorFailed e], [], w)
                | Inr selector \<Rightarrow> cleanup_loop k mcs selector items [] [] w))"

subsection \<open>Conditions\<close>

definition ClusterInReadyStateCondition :: string where "ClusterInReadyStateCondition = ''ClusterInReadyState''"
definition ServicesInReadyStateCondition :: string where "ServicesInReadyStateCondition = ''ServicesInReadyState''"
definition ServicesReferencesValidationCondition :: string where
  "ServicesReferencesValidationCondition = ''ServicesReferencesValidation''"
definition ServicesDependencyValidationCondition :: string where
  "ServicesDependencyValidationCondition = ''ServicesDependencyValidation''"
definition MultiClusterServiceDependencyValidationCondition :: string where
  "MultiClusterServiceDependencyValidationCondition = ''MultiClusterServiceDependencyValidation''"
definition MultiClusterServiceDependencyReadyCondition :: string where
  "MultiClusterServiceDependencyReadyCondition = ''MultiClusterServiceDependencyReady''"
definition MultiClusterServiceDependencyNotReadyReason :: string where
  "MultiClusterServiceDependencyNotReadyReason = ''MultiClusterServiceDependencyNotReady''"
definition MultiClusterServiceDependencyCheckFailedReason :: string where
  "MultiClusterServiceDependencyCheckFailedReason = ''MultiClusterServiceDependencyCheckFailed''"
definition MultiClusterServiceFinalizer :: string where
  "MultiClusterServiceFinalizer = ''k0rdent.mirantis.com/multicluster-service''"

lemmas mcs_names =
  ClusterInReadyStateCondition_def ServicesInReadyStateCondition_def ServicesReferencesValidationCondition_def
  ServicesDependencyValidationCondition_def MultiClusterServiceDependencyValidationCondition_def
  MultiClusterServiceDependencyReadyCondition_def MultiClusterServiceDependencyNotReadyReason_def
  MultiClusterServiceDependencyCheckFailedReason_def MultiClusterServiceFinalizer_def

text \<open>
  \<open>clusterTargetKey\<close> is the reference itself: kind, API version, namespace and name.
\<close>

definition ready_deployments :: "ServiceSet list \<Rightarrow> blockedCluster list \<Rightarrow> nat" where
  "ready_deployments serviceSets blocked =
     length (filter (\<lambda>s. \<not> sset_Deleting s
                       \<and> ClusterReference (Some s) \<notin> set (map bc_ref blocked)
                       \<and> ssst_Deployed (sset_Status s)) serviceSets)"

definition setClustersCondition ::
  "'v reconciler \<Rightarrow> MultiClusterService \<Rightarrow> nat \<Rightarrow> ServiceSet list \<Rightarrow> blockedCluster list \<Rightarrow> MultiClusterService" where
  "setClustersCondition r mcs totalClusters serviceSets blocked =
     (let readyDeployments = ready_deployments serviceSets blocked;
          failed = readyDeployments < totalClusters
      in mcs\<lparr>mcs_Conditions := r_setc r (mcs_Conditions mcs)
           \<lparr>cond_Type = ClusterInReadyStateCondition,
            cond_Status = (if failed then ConditionFalse else ConditionTrue),
            cond_ObservedGeneration = 0,
            cond_Reason = (if failed then FailedReason else SucceededReason),
            cond_Message = format_nat readyDeployments @ ''/'' @ format_nat totalClusters\<rparr>\<rparr>)"

definition maxDependencyCheckMessageBytes :: nat where
  "maxDependencyCheckMessageBytes = 1024"

text \<open>
  \<open>errors.Join\<close> builds trees of errors, nil (\<open>None\<close>) arguments dropped.
  \<open>countJoinedErrors\<close> counts the leaves of such a tree. The model keeps joined errors as the list
  of their leaves; \<open>join_errors\<close> is the tree the loop over the targets builds from them.
\<close>

datatype go_error = LeafError mcs_error | JoinedError "go_error list"

definition errors_Join :: "go_error option \<Rightarrow> go_error option \<Rightarrow> go_error option" where
  "errors_Join a b =
     (case List.map_filter id [a, b] of [] \<Rightarrow> None | errs \<Rightarrow> Some (JoinedError errs))"

fun count_leaves :: "go_error \<Rightarrow> nat" where
  "count_leaves (LeafError e) = 1"
| "count_leaves (JoinedError errs) = sum_list (map count_leaves errs)"

definition countJoinedErrors :: "go_error option \<Rightarrow> nat" where
  "countJoinedErrors err = (case err of None \<Rightarrow> 0 | Some e \<Rightarrow> count_leaves e)"

definition join_errors :: "mcs_error list \<Rightarrow> go_error option" where
  "join_errors errs = fold (\<lambda>e acc. errors_Join acc (Some (LeafError e))) errs None"

text \<open>\<open>strings.ToValidUTF8\<close> and the rendering of errors are parameters.\<close>

definition dependencyCheckMessage :: "'v reconciler \<Rightarrow> mcs_error list \<Rightarrow> string" where
  "dependencyCheckMessage r checkErr =
     (let msg = ''failed to determine MultiClusterService dependency readiness ('' @ format_nat (countJoinedErrors (join_errors checkErr))
                @ '' error(s)): '' @ r_showError r checkErr
      in if length msg \<le> maxDependencyCheckMessageBytes then msg
         else let omittedBytes = length msg - maxDependencyCheckMessageBytes;
                  truncated = r_toValidUTF8 r (take maxDependencyCheckMessageBytes msg)
              in truncated @ ''... ('' @ format_nat omittedBytes
                 @ '' bytes omitted, see reconcile logs for the full error)'')"

definition setDependencyReadyCondition ::
  "'v reconciler \<Rightarrow> MultiClusterService \<Rightarrow> blockedCluster list \<Rightarrow> mcs_error list \<Rightarrow> MultiClusterService" where
  "setDependencyReadyCondition r mcs blocked checkErr =
     (let c = (\<lambda>status reason message. \<lparr>cond_Type = MultiClusterServiceDependencyReadyCondition, cond_Status = status,
            cond_ObservedGeneration = mcs_Generation mcs, cond_Reason = reason, cond_Message = message\<rparr>)
      in mcs\<lparr>mcs_Conditions := r_setc r (mcs_Conditions mcs)
           (if checkErr \<noteq> [] then c ConditionUnknown MultiClusterServiceDependencyCheckFailedReason (dependencyCheckMessage r checkErr)
            else if length blocked > 0 then c ConditionFalse MultiClusterServiceDependencyNotReadyReason
              (''waiting for MultiClusterService dependencies to be ready on '' @ format_nat (length blocked) @ '' matching cluster(s)'')
            else c ConditionTrue SucceededReason [])\<rparr>)"

definition setCondition ::
  "'v reconciler \<Rightarrow> MultiClusterService \<Rightarrow> string \<Rightarrow> string option \<Rightarrow> MultiClusterService" where
  "setCondition r mcs typ err =
     mcs\<lparr>mcs_Conditions := r_setc r (mcs_Conditions mcs)
       (case err of
          None \<Rightarrow> \<lparr>cond_Type = typ, cond_Status = ConditionTrue, cond_ObservedGeneration = mcs_Generation mcs,
                   cond_Reason = SucceededReason, cond_Message = []\<rparr>
        | Some msg \<Rightarrow> \<lparr>cond_Type = typ, cond_Status = ConditionFalse, cond_ObservedGeneration = mcs_Generation mcs,
                   cond_Reason = FailedReason, cond_Message = msg\<rparr>)\<rparr>"

definition handleMultiClusterServiceFailedCondition :: "Condition \<Rightarrow> string \<times> string" where
  "handleMultiClusterServiceFailedCondition cond =
     (if cond_Type cond = ClusterInReadyStateCondition then (cond_Message cond @ '' Clusters are ready.'', [])
      else if cond_Type cond = ServicesInReadyStateCondition then (cond_Message cond @ '' Services are ready.'', [])
      else (cond_Message cond, []))"

subsection \<open>Matching clusters\<close>

definition clusterRegional :: "mcs_client \<Rightarrow> ObjectReference \<Rightarrow> mcs_error + bool" where
  "clusterRegional c ref =
     (if ref_Kind ref \<noteq> ''ClusterDeployment'' then Inr False
      else
        let key = ObjectKey (ref_Namespace ref) (ref_Name ref)
        in bindE (wrapE (ClusterDeploymentGetFailed key) (getClusterDeployment c key)) (\<lambda>cd.
             let key = ObjectKey (cd_Namespace cd) (cd_Credential cd)
             in bindE (wrapE (CredentialGetFailed key) (getCredentialRegion c key)) (\<lambda>region. Inr (region \<noteq> []))))"

text \<open>The entries computed from the ServiceSets and from the blocked clusters, keyed by target.\<close>

definition service_set_entry ::
  "'v reconciler \<Rightarrow> mcs_client \<Rightarrow> ServiceSet
     \<Rightarrow> (ObjectReference \<times> MatchingCluster) list \<times> mcs_error list \<Rightarrow> (ObjectReference \<times> MatchingCluster) list \<times> mcs_error list" where
  "service_set_entry r c sset acc =
     (if sset_Deleting sset then acc
      else case ssst_Cluster (sset_Status sset) of
             None \<Rightarrow> acc
           | Some ref \<Rightarrow>
               (case clusterRegional c ref of
                  Inl e \<Rightarrow> (fst acc, snd acc @ [e])
                | Inr regional \<Rightarrow>
                    (AList.update ref \<lparr>mc_ObjectReference = ref, mc_LastTransitionTime = Some (r_now r),
                       mc_Reason = [], mc_Message = [], mc_Regional = regional,
                       mc_Deployed = ssst_Deployed (sset_Status sset)\<rparr> (fst acc), snd acc)))"

definition blocked_entry ::
  "'v reconciler \<Rightarrow> mcs_client \<Rightarrow> blockedCluster \<Rightarrow> (ObjectReference \<times> MatchingCluster) list
     \<Rightarrow> (ObjectReference \<times> MatchingCluster) list" where
  "blocked_entry r c b entries =
     AList.update (bc_ref b) \<lparr>mc_ObjectReference = bc_ref b, mc_LastTransitionTime = Some (r_now r),
       mc_Reason = MultiClusterServiceDependencyNotReadyReason, mc_Message = bc_msg b,
       mc_Regional = (case clusterRegional c (bc_ref b) of Inl _ \<Rightarrow> False | Inr v \<Rightarrow> v), mc_Deployed = False\<rparr> entries"

definition merge_observed :: "MatchingCluster list \<Rightarrow> MatchingCluster \<Rightarrow> MatchingCluster" where
  "merge_observed observed cluster =
     (case index_by mc_ObjectReference id observed (mc_ObjectReference cluster) of
        None \<Rightarrow> cluster
      | Some old \<Rightarrow> old\<lparr>
          mc_Deployed := mc_Deployed cluster,
          mc_LastTransitionTime := (if mc_Deployed old \<noteq> mc_Deployed cluster then mc_LastTransitionTime cluster
                                    else mc_LastTransitionTime old),
          mc_Reason := mc_Reason cluster, mc_Message := mc_Message cluster,
          mc_Regional := mc_Regional cluster, mc_ObjectReference := mc_ObjectReference cluster\<rparr>)"

definition matching_sort_key :: "MatchingCluster \<Rightarrow> string list" where
  "matching_sort_key mc =
     [ref_Kind (mc_ObjectReference mc), ref_Namespace (mc_ObjectReference mc), ref_Name (mc_ObjectReference mc)]"

text \<open>
  \<open>order\<close> rearranges the entries of the map in the order Go visits them; the stable sort by
  kind, namespace and name follows.
\<close>

definition setMatchingClusters ::
  "(MatchingCluster list \<Rightarrow> MatchingCluster list) \<Rightarrow> 'v reconciler \<Rightarrow> mcs_client \<Rightarrow> MultiClusterService
     \<Rightarrow> ServiceSet list \<Rightarrow> blockedCluster list \<Rightarrow> MultiClusterService \<times> mcs_error list" where
  "setMatchingClusters order r c mcs serviceSets blocked =
     (case fold (service_set_entry r c) serviceSets ([], []) of
        (entries, errs) \<Rightarrow>
          let clusterEntries = fold (blocked_entry r c) blocked entries;
              resulting = map (merge_observed (mcs_MatchingClusters mcs)) (order (map snd clusterEntries))
          in (mcs\<lparr>mcs_MatchingClusters := sort_key matching_sort_key resulting\<rparr>, errs))"

subsection \<open>Reconciliation\<close>

text \<open>
  The state of the loop over the targets. \<open>rs_attempted\<close> lists the targets for which
  \<open>createOrUpdateServiceSet\<close> was called; the code does not keep it.
\<close>

record 'w reconcile_state =
  rs_world :: 'w
  rs_deps :: "resolvedDependency list"
  rs_blocked :: "blockedCluster list"
  rs_errs :: "mcs_error list"
  rs_checkErrs :: "mcs_error list"
  rs_total :: nat
  rs_attempted :: "ClusterDeployment option list"

definition reconcile_target ::
  "'v reconciler \<Rightarrow> 'w kube \<Rightarrow> MultiClusterService \<Rightarrow> ClusterDeployment option \<Rightarrow> 'w reconcile_state \<Rightarrow> 'w reconcile_state" where
  "reconcile_target r k mcs cd st =
     (case okToReconcileServiceSet (r_shortHash r) (k_view k (rs_world st)) (r_SystemNamespace r) cd
             (rs_deps st) (rs_blocked st) of
        (ok, errs, deps', blocked') \<Rightarrow>
          (case (if ok then createOrUpdateServiceSet r k mcs cd (rs_world st) else ([], rs_world st)) of
             (writeErrs, w') \<Rightarrow>
               st\<lparr>rs_world := w', rs_deps := deps', rs_blocked := blocked',
                  rs_errs := rs_errs st @ errs @ writeErrs, rs_checkErrs := rs_checkErrs st @ errs,
                  rs_total := rs_total st + 1,
                  rs_attempted := (if ok then rs_attempted st @ [cd] else rs_attempted st)\<rparr>))"

definition self_managed :: "MultiClusterService \<Rightarrow> bool" where
  "self_managed mcs = smpc_SelfManagement (sp_Provider (mcs_ServiceSpec mcs))"

text \<open>The ServiceSets whose target currently matches.\<close>

definition currently_matching :: "MultiClusterService \<Rightarrow> ObjectKey list \<Rightarrow> ServiceSet list \<Rightarrow> ServiceSet list" where
  "currently_matching mcs matchingClusterKeys items =
     filter (\<lambda>ss. if sss_Cluster (sset_Spec ss) = [] then self_managed mcs
                   else ObjectKey (sset_Namespace ss) (sss_Cluster (sset_Spec ss)) \<in> set matchingClusterKeys) items"

text \<open>
  The part of \<open>reconcileUpdate\<close> after validation and cleanup: targets, conditions, matching
  clusters, upgrade paths. It returns the object, the errors, the attempted targets and the state.
\<close>

definition reconcile_targets ::
  "(MatchingCluster list \<Rightarrow> MatchingCluster list) \<Rightarrow> 'v reconciler \<Rightarrow> 'w kube \<Rightarrow> MultiClusterService \<Rightarrow> 'w
     \<Rightarrow> MultiClusterService \<times> mcs_error list \<times> ClusterDeployment option list \<times> 'w" where
  "reconcile_targets order r k mcs w =
     (case r_compile r (mcs_ClusterSelector mcs) of
        Inl e \<Rightarrow> (mcs, [SelectorFailed e], [], w)
      | Inr selector \<Rightarrow>
     (let st = \<lparr>rs_world = w, rs_deps = resolveDependencies (k_view k w) (r_compile r) mcs, rs_blocked = [],
                rs_errs = [], rs_checkErrs = [], rs_total = 0, rs_attempted = []\<rparr>;
          st = (if self_managed mcs then reconcile_target r k mcs None st else st)
      in case (if sel_Empty selector then Inr [] else listClusterDeployments (k_view k (rs_world st)) selector) of
           Inl e \<Rightarrow> (mcs, rs_errs st @ [ListClusterDeploymentsFailed e], rs_attempted st, rs_world st)
         | Inr clusters \<Rightarrow>
             let live = filter (\<lambda>cd. \<not> cd_Deleting cd) clusters;
                 st = fold (\<lambda>cd. reconcile_target r k mcs (Some cd)) live st;
                 matchingClusterKeys = map (\<lambda>cd. ObjectKey (cd_Namespace cd) (cd_Name cd)) live;
                 view = k_view k (rs_world st)
             in case listServiceSetsOf view (mcs_Name mcs) of
                  Inl e \<Rightarrow> (mcs, rs_errs st @ [ListServiceSetsFailed (mcs_Name mcs) e], rs_attempted st, rs_world st)
                | Inr items \<Rightarrow>
                    let current = currently_matching mcs matchingClusterKeys items;
                        mcs1 = setClustersCondition r mcs (rs_total st) current (rs_blocked st);
                        mcs2 = setDependencyReadyCondition r mcs1 (rs_blocked st) (rs_checkErrs st);
                        (mcs3, clustersErr) = setMatchingClusters order r view mcs2 current (rs_blocked st)
                    in if rs_errs st \<noteq> [] then (mcs3, rs_errs st @ clustersErr, rs_attempted st, rs_world st)
                       else let (upgradePaths, servicesErr) = ServicesUpgradePaths (env_order (r_env r)) (mc_svc view)
                                   (sp_Services (mcs_ServiceSpec mcs)) (r_SystemNamespace r)
                            in (mcs3\<lparr>mcs_ServicesUpgradePaths := upgradePaths\<rparr>,
                                (if servicesErr \<noteq> [] then [UpgradePathErrors servicesErr] else []) @ clustersErr,
                                rs_attempted st, rs_world st)))"

text \<open>
  \<open>reconcileUpdate\<close>: finalizer, label, the three validations, cleanup, targets. A validation
  that fails sets its condition and ends the run without an error. \<open>show_err\<close> renders the
  error of a validation; \<open>order1\<close> and \<open>order2\<close> are the map orders of the dependency validation.
\<close>

datatype validation_error =
    TemplatesInvalid "template_error list"
  | ServiceDependenciesInvalid dependency_error
  | MCSDependenciesInvalid dependency_error

definition component_label :: "string \<times> string" where
  "component_label = (''k0rdent.mirantis.com/component'', ''kcm'')"

definition reconcileUpdate ::
  "(validation_error \<Rightarrow> string) \<Rightarrow> ObjectKey list \<Rightarrow> ObjectKey list \<Rightarrow> (MatchingCluster list \<Rightarrow> MatchingCluster list)
     \<Rightarrow> 'v reconciler \<Rightarrow> 'w kube \<Rightarrow> MultiClusterService \<Rightarrow> 'w
     \<Rightarrow> MultiClusterService \<times> mcs_error list \<times> ClusterDeployment option list \<times> ServiceSet list \<times> 'w" where
  "reconcileUpdate show_err order1 order2 order r k mcs w =
     (let services = sp_Services (mcs_ServiceSpec mcs);
          finalizers = r_addFinalizer r MultiClusterServiceFinalizer (mcs_Finalizers mcs);
          mcs1 = mcs\<lparr>mcs_Finalizers := finalizers\<rparr>
      in case (if finalizers \<noteq> mcs_Finalizers mcs then k_updateMCS k mcs1 w else (None, w)) of
           (Some e, w1) \<Rightarrow> (mcs1, [FinalizerUpdateFailed e], [], [], w1)
         | (None, w1) \<Rightarrow>
     (case (if alookup (mcs_Labels mcs1) (fst component_label) = Some (snd component_label) then (None, w1)
            else k_patchLabel k mcs1 w1) of
        (Some e, w2) \<Rightarrow> (mcs1, [LabelUpdateFailed e], [], [], w2)
      | (None, w2) \<Rightarrow>
     (let mcs1 = mcs1\<lparr>mcs_Labels := AList.update (fst component_label) (snd component_label) (mcs_Labels mcs1)\<rparr>;
          view = k_view k w2;
          templateErrs = ServicesHaveValidTemplates (r_validateName r) (mc_svc view) services (r_SystemNamespace r)
      in if templateErrs \<noteq> []
         then (setCondition r mcs1 ServicesReferencesValidationCondition (Some (show_err (TemplatesInvalid templateErrs))), [], [], [], w2)
         else
     (let mcs2 = setCondition r mcs1 ServicesReferencesValidationCondition None
      in case ValidateServiceDependencyOverall order1 order2 services of
           Inl e \<Rightarrow> (setCondition r mcs2 ServicesDependencyValidationCondition (Some (show_err (ServiceDependenciesInvalid e))), [], [], [], w2)
         | Inr _ \<Rightarrow>
     (let mcs3 = setCondition r mcs2 ServicesDependencyValidationCondition None
      in case ValidateMCSDependencyOverall (listMultiClusterServices view) mcs3 of
           Inl e \<Rightarrow> (setCondition r mcs3 MultiClusterServiceDependencyValidationCondition (Some (show_err (MCSDependenciesInvalid e))), [], [], [], w2)
         | Inr _ \<Rightarrow>
     (let mcs4 = setCondition r mcs3 MultiClusterServiceDependencyValidationCondition None
      in case cleanupServiceSets r k mcs4 w2 of
           (cleanupErrs, deleted, w3) \<Rightarrow>
             if cleanupErrs \<noteq> [] then (mcs4, cleanupErrs, [], deleted, w3)
             else (case reconcile_targets order r k mcs4 w3 of
                     (mcs5, errs, attempted, w4) \<Rightarrow> (mcs5, errs, attempted, deleted, w4))))))))"

text \<open>Deletion: the object, the errors, whether a requeue is asked for, and the state.\<close>

fun delete_all :: "'w kube \<Rightarrow> ServiceSet list \<Rightarrow> 'w \<Rightarrow> 'w" where
  "delete_all k [] w = w"
| "delete_all k (s # ss) w = delete_all k ss (if sset_Deleting s then w else snd (k_delete k s w))"

definition reconcileDelete ::
  "(delete_error \<Rightarrow> string) \<Rightarrow> 'v reconciler \<Rightarrow> 'w kube \<Rightarrow> MultiClusterService \<Rightarrow> 'w
     \<Rightarrow> MultiClusterService \<times> mcs_error list \<times> bool \<times> 'w" where
  "reconcileDelete show_err r k mcs w =
     (case ValidateMCSDelete (listMultiClusterServices (k_view k w)) mcs of
        Inl e \<Rightarrow> (setCondition r mcs MultiClusterServiceDependencyValidationCondition (Some (show_err e)),
                  [DeleteValidationFailed e], False, w)
      | Inr _ \<Rightarrow>
     (let mcs1 = setCondition r mcs MultiClusterServiceDependencyValidationCondition None
      in case listServiceSetsOf (k_view k w) (mcs_Name mcs) of
           Inl e \<Rightarrow> (mcs1, [ListServiceSetsFailed (mcs_Name mcs) e], False, w)
         | Inr items \<Rightarrow>
             let w1 = delete_all k items w
             in if length items > 0 then (mcs1, [], True, w1)
                else
                  let finalizers = r_removeFinalizer r MultiClusterServiceFinalizer (mcs_Finalizers mcs1)
                  in if finalizers \<noteq> mcs_Finalizers mcs1
                     then (case k_updateMCS k (mcs1\<lparr>mcs_Finalizers := finalizers\<rparr>) w1 of
                             (Some e, w2) \<Rightarrow> (mcs1\<lparr>mcs_Finalizers := finalizers\<rparr>, [FinalizerUpdateFailed e], False, w2)
                           | (None, w2) \<Rightarrow> (mcs1\<lparr>mcs_Finalizers := finalizers\<rparr>, [], False, w2))
                     else (mcs1, [], False, w1)))"

text \<open>
  \<open>updateStatus\<close>: the object with the status to write, or none if the status has not changed;
  then the write, with the flag that asks for a requeue.
\<close>

definition status_to_write :: "'v reconciler \<Rightarrow> MultiClusterService \<Rightarrow> MultiClusterService \<Rightarrow> MultiClusterService option" where
  "status_to_write r oldObj newObj =
     (if mcs_Conditions oldObj = mcs_Conditions newObj \<and> mcs_MatchingClusters oldObj = mcs_MatchingClusters newObj
         \<and> mcs_ServicesUpgradePaths oldObj = mcs_ServicesUpgradePaths newObj
         \<and> mcs_ObservedGeneration oldObj = mcs_ObservedGeneration newObj
      then None
      else Some (newObj\<lparr>mcs_ObservedGeneration := mcs_Generation newObj,
             mcs_Conditions := UpdateReadyCondition (r_setc r) (mcs_Conditions newObj) (mcs_Generation newObj)
               handleMultiClusterServiceFailedCondition\<rparr>))"

definition updateStatus ::
  "'v reconciler \<Rightarrow> 'w kube \<Rightarrow> MultiClusterService \<Rightarrow> MultiClusterService \<Rightarrow> 'w \<Rightarrow> bool \<times> mcs_error list \<times> 'w" where
  "updateStatus r k oldObj newObj w =
     (case status_to_write r oldObj newObj of
        None \<Rightarrow> (True, [], w)
      | Some obj \<Rightarrow>
          (case k_updateStatus k obj w of
             (Some e, w') \<Rightarrow> (False, [StatusUpdateFailed (mcs_Name newObj) e], w')
           | (None, w') \<Rightarrow> (True, [], w')))"

text \<open>
  \<open>Reconcile\<close>: the errors, whether a requeue is asked for, and the state. The deferred function
  that writes the status is the last step; an error from either part clears the requeue. The two
  functions that render errors are one parameter each.
\<close>

definition Reconcile ::
  "(validation_error \<Rightarrow> string) \<Rightarrow> (delete_error \<Rightarrow> string) \<Rightarrow> ObjectKey list \<Rightarrow> ObjectKey list
     \<Rightarrow> (MatchingCluster list \<Rightarrow> MatchingCluster list) \<Rightarrow> 'v reconciler \<Rightarrow> 'w kube \<Rightarrow> string \<Rightarrow> 'w
     \<Rightarrow> mcs_error list \<times> bool \<times> 'w" where
  "Reconcile show_err show_del order1 order2 order r k name w =
     (case getMultiClusterService (k_view k w) name of
        Inl e \<Rightarrow> if e = NotFound then ([], False, w) else ([MCSGetFailed e], False, w)
      | Inr mcs \<Rightarrow>
          let (mcs', errs, result, w1) =
                (if mcs_Deleting mcs then reconcileDelete show_del r k mcs w
                 else case k_managementDeleting k w of
                        Inl e \<Rightarrow> (mcs, [ManagementGetFailed e], False, w)
                      | Inr True \<Rightarrow> (mcs, [], False, w)
                      | Inr False \<Rightarrow>
                          (case reconcileUpdate show_err order1 order2 order r k mcs w of
                             (mcs', errs, _, _, w') \<Rightarrow> (mcs', errs, False, w')));
              (requeue, e, w2) = updateStatus r k mcs mcs' w1
          in if errs @ e \<noteq> [] then (errs @ e, False, w2)
             else if requeue then ([], True, w2) else ([], result, w2))"

section \<open>Cleanup\<close>

text \<open>Deleting a ServiceSet does not change the ClusterDeployments that are read afterwards.\<close>

definition delete_keeps_clusters :: "'w kube \<Rightarrow> bool" where
  "delete_keeps_clusters k \<longleftrightarrow>
     (\<forall>sset w. getClusterDeployment (k_view k (snd (k_delete k sset w))) = getClusterDeployment (k_view k w))"

definition stale ::
  "mcs_client \<Rightarrow> MultiClusterService \<Rightarrow> selector \<Rightarrow> ServiceSet \<Rightarrow> bool" where
  "stale c mcs selector sset \<longleftrightarrow>
     \<not> sset_Deleting sset
     \<and> (if sss_Cluster (sset_Spec sset) = [] then \<not> self_managed mcs
        else sel_Empty selector
          \<or> (\<exists>cd. getClusterDeployment c (ObjectKey (sset_Namespace sset) (sss_Cluster (sset_Spec sset))) = Inr cd
                \<and> \<not> sel_Matches selector (cd_Labels cd)))"

definition unreadable ::
  "mcs_client \<Rightarrow> selector \<Rightarrow> ServiceSet \<Rightarrow> bool" where
  "unreadable c selector sset \<longleftrightarrow>
     \<not> sset_Deleting sset \<and> sss_Cluster (sset_Spec sset) \<noteq> [] \<and> \<not> sel_Empty selector
     \<and> (\<exists>e. getClusterDeployment c (ObjectKey (sset_Namespace sset) (sss_Cluster (sset_Spec sset))) = Inl e)"

lemma delete_service_set_view:
  assumes "delete_keeps_clusters k" and "delete_service_set k sset w = (errs, w')"
  shows "getClusterDeployment (k_view k w') = getClusterDeployment (k_view k w)"
proof -
  have "w' = snd (k_delete k sset w)"
    using assms(2) by (auto simp: delete_service_set_def split: prod.splits option.splits)
  with assms(1) show ?thesis by (simp add: delete_keeps_clusters_def)
qed

lemma stale_cong:
  "getClusterDeployment c = getClusterDeployment c' \<Longrightarrow> stale c mcs sel s = stale c' mcs sel s"
  "getClusterDeployment c = getClusterDeployment c' \<Longrightarrow> unreadable c sel s = unreadable c' sel s"
  by (simp_all add: stale_def unreadable_def)

lemma cleanup_loop_deleted:
  assumes law: "delete_keeps_clusters k"
    and "cleanup_loop k mcs sel items errs deleted w = (errs', deleted', w')"
  shows "deleted' = deleted @ filter (stale (k_view k w) mcs sel)
           (takeWhile (\<lambda>s. \<not> unreadable (k_view k w) sel s) items)"
  using assms(2)
proof (induction items arbitrary: errs deleted w)
  case Nil
  then show ?case by simp
next
  case (Cons s items)
  let ?c = "k_view k w"
  obtain e1 w1 where del: "delete_service_set k s w = (e1, w1)" by (metis surj_pair)
  note view = delete_service_set_view [OF law del]
  have rest: "stale (k_view k w1) mcs sel = stale ?c mcs sel" "unreadable (k_view k w1) sel = unreadable ?c sel"
    using stale_cong [OF view] by blast+
  consider (skip) "\<not> stale ?c mcs sel s" "\<not> unreadable ?c sel s"
    | (del) "stale ?c mcs sel s" "\<not> unreadable ?c sel s"
    | (stop) "unreadable ?c sel s" by blast
  then show ?case
  proof cases
    case skip
    then have "cleanup_loop k mcs sel (s # items) errs deleted w = cleanup_loop k mcs sel items errs deleted w"
      by (auto simp: stale_def unreadable_def self_managed_def Let_def split: sum.splits if_splits)
    with Cons.IH [of errs deleted w] Cons.prems skip show ?thesis by simp
  next
    case del
    then have "cleanup_loop k mcs sel (s # items) errs deleted w = cleanup_loop k mcs sel items (errs @ e1) (deleted @ [s]) w1"
      using \<open>delete_service_set k s w = (e1, w1)\<close>
      by (auto simp: stale_def unreadable_def self_managed_def Let_def split: sum.splits if_splits)
    with Cons.IH [of "errs @ e1" "deleted @ [s]" w1] Cons.prems del rest show ?thesis by simp
  next
    case stop
    then show ?thesis using Cons.prems by (auto simp: unreadable_def Let_def split: sum.splits)
  qed
qed

text \<open>
  Cleanup deletes, in listing order, exactly the ServiceSets of the MultiClusterService whose
  target no longer matches, up to the first whose ClusterDeployment cannot be read: the self-management
  ServiceSet only if self-management is off, every cluster's one if the selector is empty, else the
  ones whose cluster labels do not match. It deletes nothing if services are to be kept.
\<close>

theorem cleanupServiceSets_correct:
  assumes "delete_keeps_clusters k" and "cleanupServiceSets r k mcs w = (errs, deleted, w')"
  shows "deleted =
     (if mcs_KeepServicesOnSelectorMismatch mcs then []
      else case (listServiceSetsOf (k_view k w) (mcs_Name mcs), r_compile r (mcs_ClusterSelector mcs)) of
             (Inr items, Inr sel) \<Rightarrow>
               filter (stale (k_view k w) mcs sel) (takeWhile (\<lambda>s. \<not> unreadable (k_view k w) sel s) items)
           | _ \<Rightarrow> [])"
  using assms(2) cleanup_loop_deleted [OF assms(1), of mcs _ _ "[]" "[]" w]
  by (auto simp: cleanupServiceSets_def split: sum.splits if_splits)

section \<open>Conditions agree with each other\<close>

lemma ready_deployments_le:
  assumes "distinct (map (\<lambda>s. ClusterReference (Some s)) current)"
    and "set (map (\<lambda>s. ClusterReference (Some s)) current) \<subseteq> set refs"
  shows "ready_deployments current blocked \<le> card (set refs - set (map bc_ref blocked))"
proof -
  let ?f = "\<lambda>s. ClusterReference (Some s)"
  let ?P = "\<lambda>s. \<not> sset_Deleting s \<and> ?f s \<notin> set (map bc_ref blocked) \<and> ssst_Deployed (sset_Status s)"
  have "ready_deployments current blocked = length (map ?f (filter ?P current))"
    by (simp add: ready_deployments_def)
  also have "\<dots> = card (set (map ?f (filter ?P current)))"
    using distinct_card [of "map ?f (filter ?P current)"] distinct_map_filter [OF assms(1), of ?P] by simp
  also have "\<dots> \<le> card (set refs - set (map bc_ref blocked))"
    using assms(2) by (intro card_mono) auto
  finally show ?thesis .
qed

text \<open>
  If any target is blocked on a dependency, the cluster readiness condition is False, whatever
  the existing ServiceSets of blocked targets still report, and the dependency condition is False
  or, if the check itself failed, Unknown; without errors or blocked targets it is True.
\<close>

theorem blocked_conditions_agree:
  assumes "sets_condition (r_setc r)"
    and "distinct (map (\<lambda>s. ClusterReference (Some s)) current)"
    and "set (map (\<lambda>s. ClusterReference (Some s)) current) \<subseteq> set refs" and "distinct refs"
    and "blocked \<noteq> []" and "bc_ref ` set blocked \<subseteq> set refs"
    and "mcs' = setDependencyReadyCondition r (setClustersCondition r mcs (length refs) current blocked) blocked checkErrs"
  shows "\<exists>c d. find_condition (mcs_Conditions mcs') ClusterInReadyStateCondition = Some c
           \<and> cond_Status c = ConditionFalse
           \<and> find_condition (mcs_Conditions mcs') MultiClusterServiceDependencyReadyCondition = Some d
           \<and> cond_Status d = (if checkErrs = [] then ConditionFalse else ConditionUnknown)"
proof -
  obtain b where b: "b \<in> set blocked" using assms(5) by (cases blocked) auto
  have "card (set refs - set (map bc_ref blocked)) < card (set refs)"
    using b assms(6) by (intro psubset_card_mono) auto
  also have "\<dots> = length refs" using distinct_card [OF assms(4)] .
  finally have "ready_deployments current blocked < length refs"
    using ready_deployments_le [OF assms(2,3), of blocked] by linarith
  then show ?thesis
    using assms(1,5) unfolding assms(7) setClustersCondition_def setDependencyReadyCondition_def
    by (auto simp: sets_condition_def Let_def mcs_names)
qed

section \<open>Deletion\<close>


section \<open>Only open targets are written\<close>

text \<open>
  During a run the ServiceTemplates read do not change, and the lists the API server returns are
  keyed by name and namespace.
\<close>

definition run_stable :: "'w kube \<Rightarrow> resolvedDependency list \<Rightarrow> bool" where
  "run_stable k deps \<longleftrightarrow>
     (\<forall>w w'. getServiceTemplate (mc_svc (k_view k w)) = getServiceTemplate (mc_svc (k_view k w')))
     \<and> (\<forall>w. \<forall>rd\<in>set deps. keyed_lists (k_view k w) rd)"

lemma desiredServiceVersions_cong:
  assumes "getServiceTemplate c = getServiceTemplate c'"
  shows "desiredServiceVersions c ns services = desiredServiceVersions c' ns services"
proof -
  have "fill_version c ns v t = fill_version c' ns v t" for v t
    by (simp add: fill_version_def assms)
  then show ?thesis
    by (simp add: desiredServiceVersions_def resolve_services_def ResolveServiceVersions_def fillServiceVersions_def)
qed

lemma deps_ok_any_view:
  assumes "run_stable k deps" and "deps_ok (k_view k w) deps"
  shows "deps_ok (k_view k w') deps"
proof -
  have "getServiceTemplate (mc_svc (k_view k w)) = getServiceTemplate (mc_svc (k_view k w'))"
    using assms(1) by (simp add: run_stable_def)
  note cong = desiredServiceVersions_cong [OF this]
  show ?thesis using assms by (auto simp: deps_ok_def cache_valid_def cong run_stable_def)
qed

text \<open>What matters of a dependency for its readiness is the object and its selector.\<close>

definition dep_core :: "resolvedDependency \<Rightarrow> (api_error + MultiClusterService) \<times> (string + selector)" where
  "dep_core rd = (rd_mcs rd, rd_selector rd)"

definition same_deps :: "resolvedDependency list \<Rightarrow> resolvedDependency list \<Rightarrow> bool" where
  "same_deps a b \<longleftrightarrow> map dep_core a = map dep_core b"

lemma same_deps_refl: "same_deps ds ds"
  by (simp add: same_deps_def)

lemma same_deps_trans: "same_deps a b \<Longrightarrow> same_deps b c \<Longrightarrow> same_deps a c"
  by (simp add: same_deps_def)

lemma same_deps_Ball:
  assumes "same_deps a b" and "\<And>x y. dep_core x = dep_core y \<Longrightarrow> P x = P y"
  shows "(\<forall>rd\<in>set a. P rd) \<longleftrightarrow> (\<forall>rd\<in>set b. P rd)"
proof -
  have "list_all2 (\<lambda>x y. dep_core x = dep_core y) a b"
    using assms(1) by (simp only: same_deps_def list_eq_iff_nth_eq list_all2_conv_all_nth length_map) simp
  then have "list_all2 (\<lambda>x y. P x = P y) a b"
    by (rule list_all2_mono) (rule assms(2))
  then show ?thesis
    by (induction rule: list_all2_induct) simp_all
qed

lemma dep_core_ready:
  assumes "dep_core x = dep_core y"
  shows "dep_ready h c n cd x = dep_ready h c n cd y"
proof -
  have eq: "rd_mcs x = rd_mcs y" "rd_selector x = rd_selector y" using assms by (simp_all add: dep_core_def)
  have "dep_applies cd x m = dep_applies cd y m" for m by (simp only: dep_applies_def eq)
  then show ?thesis by (simp only: dep_ready_def eq)
qed

lemma dep_core_keyed: "dep_core x = dep_core y \<Longrightarrow> keyed_lists c x = keyed_lists c y"
  by (simp add: keyed_lists_def dep_core_def)

lemma same_deps_ready:
  "same_deps a b \<Longrightarrow> (\<forall>rd\<in>set a. dep_ready h c n cd rd) \<longleftrightarrow> (\<forall>rd\<in>set b. dep_ready h c n cd rd)"
  by (erule same_deps_Ball) (rule dep_core_ready)

lemma same_deps_stable: "same_deps a b \<Longrightarrow> run_stable k a \<longleftrightarrow> run_stable k b"
  using same_deps_Ball [of a b "keyed_lists (k_view k w)" for w] dep_core_keyed
  unfolding run_stable_def by blast

lemma okToReconcileServiceSet_same_deps:
  assumes "deps_ok c deps"
    and "okToReconcileServiceSet h c n cd deps blocked = (ok, errs, deps', blocked')"
  shows "same_deps deps deps'"
proof -
  obtain rds' e b where run: "check_dependencies h c n (cluster_ref cd) cd deps = (rds', e, b)"
    by (metis prod_cases3)
  have "rds' = deps'" using assms(2) run by (simp add: okToReconcileServiceSet_def)
  moreover have "list_all2 (\<lambda>rd rd'. cache_valid c rd' \<and> rd_mcs rd' = rd_mcs rd \<and> rd_selector rd' = rd_selector rd) deps rds'"
    using check_dependencies_ready [OF _ run] assms(1) by (simp add: deps_ok_def)
  then have "map dep_core deps = map dep_core rds'"
    by (intro nth_equalityI) (auto simp: list_all2_conv_all_nth dep_core_def)
  ultimately show ?thesis by (simp add: same_deps_def)
qed

definition target_inv ::
  "'v reconciler \<Rightarrow> 'w kube \<Rightarrow> resolvedDependency list \<Rightarrow> 'w reconcile_state \<Rightarrow> bool" where
  "target_inv r k deps st \<longleftrightarrow>
     same_deps deps (rs_deps st) \<and> deps_ok (k_view k (rs_world st)) (rs_deps st)
     \<and> (\<forall>cd\<in>set (rs_attempted st). \<exists>w. \<forall>rd\<in>set deps.
          dep_ready (r_shortHash r) (k_view k w) (r_SystemNamespace r) cd rd)"

lemma reconcile_target_inv:
  assumes inv: "target_inv r k deps st" and stable: "run_stable k deps"
  shows "target_inv r k deps (reconcile_target r k mcs cd st)"
    and "set (rs_attempted (reconcile_target r k mcs cd st)) \<subseteq> insert cd (set (rs_attempted st))"
    and "rs_total (reconcile_target r k mcs cd st) = rs_total st + 1"
proof -
  let ?view = "k_view k (rs_world st)"
  obtain ok errs deps' blocked' where
    gate: "okToReconcileServiceSet (r_shortHash r) ?view (r_SystemNamespace r) cd (rs_deps st) (rs_blocked st)
        = (ok, errs, deps', blocked')" by (metis prod_cases4)
  obtain we w' where wr: "(if ok then createOrUpdateServiceSet r k mcs cd (rs_world st) else ([], rs_world st)) = (we, w')"
    by (metis surj_pair)
  have st': "rs_world (reconcile_target r k mcs cd st) = w'" "rs_deps (reconcile_target r k mcs cd st) = deps'"
    "rs_attempted (reconcile_target r k mcs cd st) = (if ok then rs_attempted st @ [cd] else rs_attempted st)"
    "rs_total (reconcile_target r k mcs cd st) = rs_total st + 1"
    by (simp_all add: reconcile_target_def gate wr)
  from inv have deps: "same_deps deps (rs_deps st)" and ok_deps: "deps_ok ?view (rs_deps st)" by (simp_all add: target_inv_def)
  note spec = okToReconcileServiceSet_spec [OF ok_deps gate]
  note same = okToReconcileServiceSet_same_deps [OF ok_deps gate]
  have same': "same_deps deps deps'" by (rule same_deps_trans [OF deps same])
  have "run_stable k deps'" using stable same_deps_stable [OF same', of k] by blast
  moreover have "deps_ok ?view deps'" using spec by blast
  ultimately have "deps_ok (k_view k w') deps'" by (rule deps_ok_any_view)
  moreover have "ok \<Longrightarrow> \<forall>rd\<in>set deps. dep_ready (r_shortHash r) ?view (r_SystemNamespace r) cd rd"
    using spec same_deps_ready [OF deps] by simp
  ultimately show "target_inv r k deps (reconcile_target r k mcs cd st)"
    using inv same' unfolding target_inv_def st' by auto
  show "set (rs_attempted (reconcile_target r k mcs cd st)) \<subseteq> insert cd (set (rs_attempted st))"
    unfolding st' by auto
  show "rs_total (reconcile_target r k mcs cd st) = rs_total st + 1" by (rule st')
qed

lemma fold_reconcile_target_inv:
  assumes "target_inv r k deps st" and "run_stable k deps"
  shows "target_inv r k deps (fold (\<lambda>cd. reconcile_target r k mcs (Some cd)) cds st)
         \<and> set (rs_attempted (fold (\<lambda>cd. reconcile_target r k mcs (Some cd)) cds st)) \<subseteq> set (rs_attempted st) \<union> Some ` set cds"
  using assms(1)
proof (induction cds arbitrary: st)
  case (Cons cd cds)
  note step = reconcile_target_inv [OF Cons.prems assms(2), of mcs "Some cd"]
  from Cons.IH [OF step(1)] step(2) show ?case by auto
qed simp


text \<open>
  A reconciliation that deletes or writes any ServiceSet has accepted the service templates,
  the dependencies between the services and the dependencies between MultiClusterServices; a
  validation that fails ends the run without an error and without touching a ServiceSet.
\<close>

theorem reconcileUpdate_validates_first:
  assumes "reconcileUpdate show_err order1 order2 order r k mcs w = (mcs', errs, attempted, deleted, w')"
    and "attempted \<noteq> [] \<or> deleted \<noteq> []"
  shows "\<exists>w2 m. ServicesHaveValidTemplates (r_validateName r) (mc_svc (k_view k w2)) (sp_Services (mcs_ServiceSpec mcs)) (r_SystemNamespace r) = []
           \<and> ValidateServiceDependencyOverall order1 order2 (sp_Services (mcs_ServiceSpec mcs)) = Inr ()
           \<and> ValidateMCSDependencyOverall (listMultiClusterServices (k_view k w2)) m = Inr ()
           \<and> mcs_Name m = mcs_Name mcs \<and> mcs_DependsOn m = mcs_DependsOn mcs"
proof -
  have keep: "mcs_Name (setCondition r m t e) = mcs_Name m" "mcs_DependsOn (setCondition r m t e) = mcs_DependsOn m" for m t e
    by (simp_all add: setCondition_def)
  let ?mcs1 = "mcs\<lparr>mcs_Finalizers := r_addFinalizer r MultiClusterServiceFinalizer (mcs_Finalizers mcs)\<rparr>"
  obtain f w1 where f: "(if mcs_Finalizers ?mcs1 \<noteq> mcs_Finalizers mcs then k_updateMCS k ?mcs1 w else (None, w)) = (f, w1)"
    by (metis surj_pair)
  obtain l w2 where l: "(if alookup (mcs_Labels ?mcs1) (fst component_label) = Some (snd component_label) then (None, w1)
      else k_patchLabel k ?mcs1 w1) = (l, w2)" by (metis surj_pair)
  let ?services = "sp_Services (mcs_ServiceSpec mcs)"
  let ?mcs2 = "?mcs1\<lparr>mcs_Labels := AList.update (fst component_label) (snd component_label) (mcs_Labels ?mcs1)\<rparr>"
  let ?mcs3 = "setCondition r (setCondition r ?mcs2 ServicesReferencesValidationCondition None) ServicesDependencyValidationCondition None"
  note run = assms(1) [unfolded reconcileUpdate_def Let_def]
  have "f = None" using run assms(2) f by (cases f) auto
  moreover have "l = None" using run assms(2) f l \<open>f = None\<close> by (cases l) auto
  moreover have "ServicesHaveValidTemplates (r_validateName r) (mc_svc (k_view k w2)) ?services (r_SystemNamespace r) = []"
    using run assms(2) f l \<open>f = None\<close> \<open>l = None\<close> by (auto split: if_splits)
  moreover from this have "ValidateServiceDependencyOverall order1 order2 ?services = Inr ()"
    using run assms(2) f l \<open>f = None\<close> \<open>l = None\<close>
    by (cases "ValidateServiceDependencyOverall order1 order2 ?services") auto
  moreover from calculation have "ValidateMCSDependencyOverall (listMultiClusterServices (k_view k w2)) ?mcs3 = Inr ()"
    using run assms(2) f l
    by (cases "ValidateMCSDependencyOverall (listMultiClusterServices (k_view k w2)) ?mcs3") auto
  ultimately show ?thesis by (intro exI [of _ w2] exI [of _ ?mcs3]) (simp add: keep)
qed

section \<open>Matching clusters in the status\<close>

definition entries_inv :: "(ObjectReference \<times> MatchingCluster) list \<Rightarrow> bool" where
  "entries_inv al \<longleftrightarrow> distinct (map fst al) \<and> (\<forall>ref mc. alookup al ref = Some mc \<longrightarrow> mc_ObjectReference mc = ref)"

lemma entries_inv_update:
  "entries_inv al \<Longrightarrow> mc_ObjectReference mc = ref \<Longrightarrow> entries_inv (AList.update ref mc al)"
  by (auto simp: entries_inv_def distinct_update)

lemma entries_inv_service_sets:
  "entries_inv (fst acc) \<Longrightarrow> entries_inv (fst (fold (service_set_entry r c) ssets acc))"
proof (induction ssets arbitrary: acc)
  case (Cons s ssets)
  have "entries_inv (fst (service_set_entry r c s acc))"
    using Cons.prems by (simp add: service_set_entry_def entries_inv_update split: option.split sum.split)
  from Cons.IH [OF this] show ?case by simp
qed simp

lemma entries_inv_blocked:
  "entries_inv al \<Longrightarrow> entries_inv (fold (blocked_entry r c) bs al)"
  by (induction bs arbitrary: al) (simp_all add: blocked_entry_def entries_inv_update)

definition reports_blocked :: "MatchingCluster \<Rightarrow> bool" where
  "reports_blocked mc \<longleftrightarrow> \<not> mc_Deployed mc \<and> mc_Reason mc = MultiClusterServiceDependencyNotReadyReason"

lemma blocked_entries_lookup:
  assumes "ref \<in> bc_ref ` set bs \<or> (\<exists>mc. alookup al ref = Some mc \<and> reports_blocked mc)"
  shows "\<exists>mc. alookup (fold (blocked_entry r c) bs al) ref = Some mc \<and> reports_blocked mc"
  using assms
proof (induction bs arbitrary: al)
  case (Cons b bs)
  have "ref \<in> bc_ref ` set bs \<or> (\<exists>mc. alookup (blocked_entry r c b al) ref = Some mc \<and> reports_blocked mc)"
    using Cons.prems by (auto simp: blocked_entry_def reports_blocked_def)
  from Cons.IH [OF this] show ?case by simp
qed simp

lemma merge_observed_sel [simp]:
  "mc_ObjectReference (merge_observed observed mc) = mc_ObjectReference mc"
  "mc_Deployed (merge_observed observed mc) = mc_Deployed mc"
  "mc_Reason (merge_observed observed mc) = mc_Reason mc"
  by (simp_all add: merge_observed_def split: option.split)

lemma merge_observed_time:
  assumes "distinct (map mc_ObjectReference observed)" and "old \<in> set observed"
    and "mc_ObjectReference old = mc_ObjectReference mc" and "mc_Deployed old = mc_Deployed mc"
  shows "mc_LastTransitionTime (merge_observed observed mc) = mc_LastTransitionTime old"
  using index_by_distinct [OF assms(1,2), of id] assms(3,4) by (simp add: merge_observed_def)

text \<open>
  The matching clusters of the status have one entry per target, sorted by kind, namespace and
  name; a blocked target is listed as not deployed, with the dependency as the reason, even if an
  older ServiceSet of it still reports success; and the transition time of a target listed before
  only moves when its deployed flag does.
\<close>

theorem setMatchingClusters_correct:
  assumes order: "\<And>xs. mset (order xs) = mset xs"
    and run: "setMatchingClusters order r c mcs current blocked = (mcs', errs)"
    and observed: "distinct (map mc_ObjectReference (mcs_MatchingClusters mcs))"
  shows "distinct (map mc_ObjectReference (mcs_MatchingClusters mcs'))
         \<and> sorted (map matching_sort_key (mcs_MatchingClusters mcs'))
         \<and> (\<forall>b\<in>set blocked. \<exists>mc\<in>set (mcs_MatchingClusters mcs').
              mc_ObjectReference mc = bc_ref b \<and> reports_blocked mc)
         \<and> (\<forall>mc\<in>set (mcs_MatchingClusters mcs'). \<forall>old\<in>set (mcs_MatchingClusters mcs).
              mc_ObjectReference old = mc_ObjectReference mc \<and> mc_Deployed old = mc_Deployed mc
              \<longrightarrow> mc_LastTransitionTime mc = mc_LastTransitionTime old)"
proof -
  obtain entries errs0 where fold1: "fold (service_set_entry r c) current ([], []) = (entries, errs0)"
    by (metis surj_pair)
  define al where "al = fold (blocked_entry r c) blocked entries"
  define res where "res = map (merge_observed (mcs_MatchingClusters mcs)) (order (map snd al))"
  have mcs': "mcs_MatchingClusters mcs' = sort_key matching_sort_key res"
    using run by (auto simp: setMatchingClusters_def fold1 Let_def al_def res_def)
  have "entries_inv (fst ([] :: (ObjectReference \<times> MatchingCluster) list, [] :: mcs_error list))"
    by (simp add: entries_inv_def)
  from entries_inv_service_sets [OF this, of r c current] have "entries_inv entries" by (simp add: fold1)
  then have inv: "entries_inv al" unfolding al_def by (rule entries_inv_blocked)
  then have dist: "distinct (map fst al)" by (simp add: entries_inv_def)
  have lookup: "p \<in> set al \<longleftrightarrow> alookup al (fst p) = Some (snd p)" for p
    using dist by (cases p) (simp add: alookup_def)
  have "map mc_ObjectReference (map snd al) = map fst al"
    using inv lookup by (auto simp: entries_inv_def)
  moreover have ord: "set (order (map snd al)) = set (map snd al)" using order by (rule mset_eq_setD)
  ultimately have "distinct (map mc_ObjectReference (order (map snd al)))"
    using dist order [of "map snd al"] by (metis mset_eq_imp_distinct_iff mset_map)
  then have "distinct (map mc_ObjectReference res)" by (simp add: res_def comp_def)
  then have one: "distinct (map mc_ObjectReference (mcs_MatchingClusters mcs'))"
    unfolding mcs' by (metis mset_eq_imp_distinct_iff mset_map mset_sort)
  have set': "set (mcs_MatchingClusters mcs') = merge_observed (mcs_MatchingClusters mcs) ` snd ` set al"
    unfolding mcs' by (simp add: res_def ord)
  have blocked: "\<exists>mc\<in>set (mcs_MatchingClusters mcs'). mc_ObjectReference mc = bc_ref b \<and> reports_blocked mc"
    if "b \<in> set blocked" for b
  proof -
    from blocked_entries_lookup [of "bc_ref b" blocked entries r c] that obtain mc where
      mc: "alookup al (bc_ref b) = Some mc" "reports_blocked mc" by (auto simp: al_def)
    then have "(bc_ref b, mc) \<in> set al" by (simp add: lookup)
    then have "merge_observed (mcs_MatchingClusters mcs) mc \<in> set (mcs_MatchingClusters mcs')"
      unfolding set' by (metis imageI snd_conv)
    moreover have "mc_ObjectReference mc = bc_ref b" using inv mc(1) by (simp add: entries_inv_def)
    ultimately show ?thesis using mc(2) by (intro bexI) (auto simp: reports_blocked_def)
  qed
  have "mc_LastTransitionTime mc = mc_LastTransitionTime old"
    if "mc \<in> set (mcs_MatchingClusters mcs')" "old \<in> set (mcs_MatchingClusters mcs)"
      "mc_ObjectReference old = mc_ObjectReference mc" "mc_Deployed old = mc_Deployed mc" for mc old
    using that merge_observed_time [OF observed that(2)] unfolding set' by auto
  with one blocked show ?thesis unfolding mcs' by simp
qed

text \<open>
  The message of the dependency condition is bounded, however many errors occurred: at most
  1024 bytes of the text itself and the note on how many bytes were left out.
\<close>

theorem dependencyCheckMessage_bounded:
  assumes "\<And>s. length (r_toValidUTF8 r s) \<le> length s"
  shows "\<exists>n. length (dependencyCheckMessage r errs) \<le> 1024 + length (''... ('' @ format_nat n
           @ '' bytes omitted, see reconcile logs for the full error)'')"
proof -
  let ?msg = "''failed to determine MultiClusterService dependency readiness ('' @ format_nat (countJoinedErrors (join_errors errs))
      @ '' error(s)): '' @ r_showError r errs"
  have "length (r_toValidUTF8 r (take 1024 ?msg)) \<le> 1024"
    using assms [of "take 1024 ?msg"] by (simp del: take_append)
  then show ?thesis
    unfolding dependencyCheckMessage_def Let_def maxDependencyCheckMessageBytes_def
    by (intro exI [of _ "length ?msg - 1024"]) (simp del: take_append)
qed

section \<open>A whole run\<close>

lemma count_errors_Join:
  "countJoinedErrors (errors_Join a b) = countJoinedErrors a + countJoinedErrors b"
  by (cases a; cases b) (simp_all add: errors_Join_def countJoinedErrors_def List.map_filter_def)

lemma count_join_errors: "countJoinedErrors (join_errors errs) = length errs"
proof -
  have "countJoinedErrors (fold (\<lambda>e acc. errors_Join acc (Some (LeafError e))) errs a) = countJoinedErrors a + length errs" for a
    by (induction errs arbitrary: a) (simp_all add: count_errors_Join, simp add: countJoinedErrors_def)
  then show ?thesis by (simp add: join_errors_def, simp add: countJoinedErrors_def)
qed

lemma updateStatus_requeue: "updateStatus r k old new w = (q, e, w') \<Longrightarrow> q \<longleftrightarrow> e = []"
  by (auto simp: updateStatus_def split: option.splits prod.splits)

text \<open>
  Unless the object is gone, a run ends with an error or asks to be run again, never both and
  never neither: clusters that start to match later are not missed. While the Management object is
  being deleted, a MultiClusterService that is not itself being deleted is left alone.
\<close>

theorem Reconcile_requeues:
  assumes "Reconcile show_err show_del order1 order2 order r k name w = (errs, requeue, w')"
    and "getMultiClusterService (k_view k w) name = Inr mcs"
  shows "(requeue \<longleftrightarrow> errs = [])
         \<and> (\<not> mcs_Deleting mcs \<and> k_managementDeleting k w = Inr True \<longrightarrow> errs = [] \<and> w' = w)"
proof -
  obtain mcs1 e1 res w1 where inner:
    "(if mcs_Deleting mcs then reconcileDelete show_del r k mcs w
      else case k_managementDeleting k w of
             Inl e \<Rightarrow> (mcs, [ManagementGetFailed e], False, w)
           | Inr True \<Rightarrow> (mcs, [], False, w)
           | Inr False \<Rightarrow>
               (case reconcileUpdate show_err order1 order2 order r k mcs w of
                  (mcs', errs, _, _, w') \<Rightarrow> (mcs', errs, False, w'))) = (mcs1, e1, res, w1)"
    by (metis prod_cases4)
  obtain q e2 w2 where upd: "updateStatus r k mcs mcs1 w1 = (q, e2, w2)" by (metis prod_cases3)
  have run: "(errs, requeue, w') = (if e1 @ e2 \<noteq> [] then (e1 @ e2, False, w2) else if q then ([], True, w2) else ([], res, w2))"
    using assms unfolding Reconcile_def by (simp only: sum.case inner upd Let_def prod.case)
  have "q \<longleftrightarrow> e2 = []" by (rule updateStatus_requeue [OF upd])
  then have "requeue \<longleftrightarrow> errs = []" using run by (auto split: if_splits)
  moreover have "errs = [] \<and> w' = w" if "\<not> mcs_Deleting mcs \<and> k_managementDeleting k w = Inr True"
    using that inner upd run by (auto simp: updateStatus_def status_to_write_def split: if_splits)
  ultimately show ?thesis by blast
qed

section \<open>Concrete runs\<close>

text \<open>An API server that never changes and accepts every write.\<close>

definition example_kube :: "mcs_client \<Rightarrow> unit kube" where
  "example_kube c = \<lparr>k_view = (\<lambda>_. c),
     k_write = \<lparr>createServiceSet = (\<lambda>_ _. (None, ())), updateServiceSet = (\<lambda>_ _. (None, ()))\<rparr>,
     k_delete = (\<lambda>_ _. (None, ())), k_updateMCS = (\<lambda>_ _. (None, ())), k_patchLabel = (\<lambda>_ _. (None, ())),
     k_updateStatus = (\<lambda>_ _. (None, ())), k_managementDeleting = (\<lambda>_. Inr False)\<rparr>"

definition example_reconciler :: "nat reconciler" where
  "example_reconciler = \<lparr>r_SystemNamespace = ''kcm-system'', r_now = 7, r_shortHash = (\<lambda>_. ''h''), r_env = example_env,
     r_compile = (\<lambda>_. Inr \<lparr>sel_Empty = False, sel_Matches = (\<lambda>ls. ls \<noteq> [])\<rparr>), r_setc = example_setc,
     r_validateName = (\<lambda>_. []), r_addFinalizer = (\<lambda>f fs. if f \<in> set fs then fs else fs @ [f]),
     r_removeFinalizer = removeAll, r_toValidUTF8 = (\<lambda>x. x), r_showError = (\<lambda>_. ''err'')\<rparr>"

definition example_cluster :: ClusterDeployment where
  "example_cluster = \<lparr>cd_Name = ''cd'', cd_Namespace = ''ns'', cd_UID = ''u'', cd_Labels = [], cd_Deleting = False,
     cd_Template = [], cd_Credential = [], cd_DataSource = [], cd_DryRun = False, cd_Config = None, cd_ServiceSpec = example_spec,
     cd_AvailableUpgrades = [], cd_StatusRegion = []\<rparr>"

definition example_mcs :: MultiClusterService where
  "example_mcs = (example_dep_mcs [])\<lparr>mcs_Name := ''app'', mcs_DependsOn := [''base'']\<rparr>"

text \<open>The dependency \<open>base\<close> has its only service deployed; one ServiceSet of \<open>app\<close> is left over.\<close>

definition example_view :: mcs_client where
  "example_view = (example_mcs_client (\<lambda>_. Inr (example_set [example_stored ''a'' ''1''] [example_state ''a'' ''1'' ServiceStateDeployed])))
     \<lparr>getMultiClusterService := (\<lambda>_. Inr (example_dep_mcs [(example_service ''a'' [])\<lparr>svc_Version := ''1''\<rparr>])),
      getClusterDeployment := (\<lambda>_. Inr example_cluster),
      listServiceSetsOf := (\<lambda>_. Inr [example_set [] []])\<rparr>"

lemma example_keeps_clusters: "delete_keeps_clusters (example_kube c)"
  by (simp add: delete_keeps_clusters_def example_kube_def)

theorem cleanupServiceSets_correct_witness:
  "fst (snd (cleanupServiceSets example_reconciler (example_kube example_view) example_mcs ())) = [example_set [] []]"
proof -
  obtain errs deleted w' where
    run: "cleanupServiceSets example_reconciler (example_kube example_view) example_mcs () = (errs, deleted, w')"
    by (metis prod_cases3)
  from cleanupServiceSets_correct [OF example_keeps_clusters run] run show ?thesis
    by (simp add: example_mcs_def example_dep_mcs_def example_kube_def example_view_def example_reconciler_def
        stale_def unreadable_def example_set_def empty_service_set_def example_cluster_def)
qed

lemma example_run_stable:
  "run_stable (example_kube example_view)
     (resolveDependencies (k_view (example_kube example_view) ()) (r_compile example_reconciler) example_mcs)"
  by (simp add: run_stable_def keyed_lists_def example_kube_def example_view_def example_mcs_client_def resolveDependencies_def
      example_mcs_def example_dep_mcs_def example_set_def)


theorem blocked_conditions_agree_witness:
  "\<exists>c. find_condition (mcs_Conditions (setDependencyReadyCondition example_reconciler
         (setClustersCondition example_reconciler example_mcs 1 [example_set [] []] [\<lparr>bc_ref = target_reference (Some example_cluster), bc_msg = []\<rparr>])
         [\<lparr>bc_ref = target_reference (Some example_cluster), bc_msg = []\<rparr>] [])) ClusterInReadyStateCondition = Some c
       \<and> cond_Status c = ConditionFalse"
proof -
  let ?b = "\<lparr>bc_ref = target_reference (Some example_cluster), bc_msg = []\<rparr>"
  let ?m = "setDependencyReadyCondition example_reconciler
     (setClustersCondition example_reconciler example_mcs (length [target_reference (Some example_cluster)]) [example_set [] []] [?b]) [?b] []"
  have ref: "ClusterReference (Some (example_set [] [])) = target_reference (Some example_cluster)"
    by code_simp
  from blocked_conditions_agree [of example_reconciler "[example_set [] []]" "[target_reference (Some example_cluster)]" "[?b]" ?m example_mcs "[]"]
  show ?thesis using example_setc_sets ref by (auto simp: example_reconciler_def)
qed


theorem reconcileUpdate_validates_first_witness:
  "ServicesHaveValidTemplates (\<lambda>_. []) (mc_svc example_view) [] ''kcm-system'' = []
   \<and> fst (snd (snd (snd (reconcileUpdate (\<lambda>_. []) [] [] id example_reconciler (example_kube example_view)
        (example_mcs\<lparr>mcs_DependsOn := []\<rparr>) ())))) \<noteq> []"
proof -
  let ?mcs = "example_mcs\<lparr>mcs_DependsOn := []\<rparr>"
  let ?run = "reconcileUpdate (\<lambda>_. []) [] [] id example_reconciler (example_kube example_view) ?mcs ()"
  obtain mcs' errs attempted deleted w' where run: "?run = (mcs', errs, attempted, deleted, w')"
    by (metis prod_cases5)
  have "length (fst (snd (snd (snd ?run)))) = 1" by code_simp
  with run have "attempted \<noteq> [] \<or> deleted \<noteq> []" "deleted \<noteq> []" by auto
  with reconcileUpdate_validates_first [OF run] run show ?thesis
    by (simp add: example_mcs_def example_dep_mcs_def example_kube_def example_reconciler_def)
qed

theorem setMatchingClusters_correct_witness:
  "\<exists>mc\<in>set (mcs_MatchingClusters (fst (setMatchingClusters rev example_reconciler example_view example_mcs [example_set [] []]
       [\<lparr>bc_ref = target_reference (Some example_cluster), bc_msg = ''m''\<rparr>]))).
     mc_ObjectReference mc = target_reference (Some example_cluster) \<and> reports_blocked mc"
proof -
  let ?b = "\<lparr>bc_ref = target_reference (Some example_cluster), bc_msg = ''m''\<rparr>"
  obtain mcs' errs where
    run: "setMatchingClusters rev example_reconciler example_view example_mcs [example_set [] []] [?b] = (mcs', errs)"
    by (metis surj_pair)
  have "distinct (map mc_ObjectReference (mcs_MatchingClusters example_mcs))" by (simp add: example_mcs_def example_dep_mcs_def)
  from setMatchingClusters_correct [OF _ run this] run show ?thesis by simp
qed

theorem dependencyCheckMessage_bounded_witness:
  "\<exists>n. length (dependencyCheckMessage example_reconciler [SelectorFailed []]) \<le> 1024 + length (''... ('' @ format_nat n
           @ '' bytes omitted, see reconcile logs for the full error)'')"
  by (rule dependencyCheckMessage_bounded) (simp add: example_reconciler_def)

theorem Reconcile_requeues_witness:
  "fst (snd (Reconcile (\<lambda>_. []) (\<lambda>_. []) [] [] id example_reconciler (example_kube example_view) ''base'' ())) \<longleftrightarrow>
   fst (Reconcile (\<lambda>_. []) (\<lambda>_. []) [] [] id example_reconciler (example_kube example_view) ''base'' ()) = []"
proof -
  obtain errs requeue w' where
    run: "Reconcile (\<lambda>_. []) (\<lambda>_. []) [] [] id example_reconciler (example_kube example_view) ''base'' () = (errs, requeue, w')"
    by (metis prod_cases3)
  have "getMultiClusterService (k_view (example_kube example_view) ()) ''base''
      = Inr (example_dep_mcs [(example_service ''a'' [])\<lparr>svc_Version := ''1''\<rparr>])"
    by (simp add: example_kube_def example_view_def)
  from Reconcile_requeues [OF run this] run show ?thesis by simp
qed

end
