(* ===== verification/AccessPlan.thy ===== *)
theory AccessPlan
  imports KcmTypes
begin

text \<open>
  Access management, the planning half: the rules of an AccessManagement
  (\<^verbatim>\<open>api/v1beta1/accessmanagement_types.go\<close>), how they are resolved against the cluster, and
  which copies of objects they want, remove and release
  (\<^verbatim>\<open>internal/util/accessmanagement/accessmanagement.go\<close>).
\<close>

section \<open>Definitions\<close>

subsection \<open>Rules\<close>

datatype GroupKind = GroupKind (gk_Group: string) (gk_Kind: string)

text \<open>A nil slice of names is \<open>None\<close>: it differs from an empty one.\<close>

record ResourceRule =
  rr_Selector :: "LabelSelector option"
  rr_APIGroup :: string
  rr_Kind :: string
  rr_StringSelector :: string
  rr_Names :: "string list option"

record ResourceSelector =
  rsel_Selector :: "LabelSelector option"
  rsel_StringSelector :: string
  rsel_List :: "string list"

record AccessRule =
  ar_TargetNamespaces :: ResourceSelector
  ar_Resources :: "ResourceRule list"
  ar_ClusterTemplateChains :: "string list"
  ar_ServiceTemplateChains :: "string list"
  ar_Credentials :: "string list"
  ar_ClusterAuthentications :: "string list"
  ar_DataSources :: "string list"
  ar_ClusterAuditPolicies :: "string list"

record ResourceKindStatus =
  rks_APIGroup :: string
  rks_Kind :: string
  rks_Error :: string

record AccessManagement =
  am_Name :: string
  am_UID :: string
  am_Generation :: int
  am_Labels :: "(string \<times> string) list"
  am_AccessRules :: "AccessRule list"
  am_Error :: string
  am_Current :: "AccessRule list"
  am_StatusResources :: "ResourceKindStatus list"
  am_ObservedGeneration :: int

definition kcm_group :: string where
  "kcm_group = ''k0rdent.mirantis.com''"

definition builtinResourceKinds :: "string list" where
  "builtinResourceKinds =
     [''ClusterTemplate'', ''ClusterTemplateChain'', ''ServiceTemplateChain'', ''Credential'', ''ClusterAuthentication'',
      ''DataSource'', ''ClusterAuditPolicy'', ''RBACPolicy'']"

definition isBuiltinResourceKind :: "string \<Rightarrow> bool" where
  "isBuiltinResourceKind kind \<longleftrightarrow> kind \<in> set builtinResourceKinds"

definition rule_GroupKind :: "ResourceRule \<Rightarrow> GroupKind" where
  "rule_GroupKind r =
     GroupKind (if rr_APIGroup r = [] \<and> isBuiltinResourceKind (rr_Kind r) then kcm_group else rr_APIGroup r) (rr_Kind r)"

definition HasDeprecatedFields :: "AccessRule \<Rightarrow> bool" where
  "HasDeprecatedFields r \<longleftrightarrow>
     length (ar_ClusterTemplateChains r) > 0 \<or> length (ar_ServiceTemplateChains r) > 0
     \<or> length (ar_Credentials r) > 0 \<or> length (ar_ClusterAuthentications r) > 0
     \<or> length (ar_DataSources r) > 0 \<or> length (ar_ClusterAuditPolicies r) > 0"

definition appendResourceRule :: "string \<Rightarrow> string list \<Rightarrow> ResourceRule list \<Rightarrow> ResourceRule list" where
  "appendResourceRule kind names resources =
     (if length names = 0 then resources
      else resources @ [\<lparr>rr_Selector = None, rr_APIGroup = kcm_group, rr_Kind = kind, rr_StringSelector = [],
                         rr_Names = Some names\<rparr>])"

definition synthesizeResourceRules :: "AccessRule \<Rightarrow> ResourceRule list" where
  "synthesizeResourceRules rule =
     appendResourceRule ''ClusterAuditPolicy'' (ar_ClusterAuditPolicies rule)
       (appendResourceRule ''DataSource'' (ar_DataSources rule)
         (appendResourceRule ''ClusterAuthentication'' (ar_ClusterAuthentications rule)
           (appendResourceRule ''Credential'' (ar_Credentials rule)
             (appendResourceRule ''ServiceTemplateChain'' (ar_ServiceTemplateChains rule)
               (appendResourceRule ''ClusterTemplateChain'' (ar_ClusterTemplateChains rule) [])))))"

definition EffectiveResources :: "AccessRule \<Rightarrow> ResourceRule list" where
  "EffectiveResources r = (if length (ar_Resources r) > 0 then ar_Resources r else synthesizeResourceRules r)"

definition default_group :: "ResourceRule \<Rightarrow> ResourceRule" where
  "default_group res =
     (if rr_APIGroup res = [] \<and> isBuiltinResourceKind (rr_Kind res) then res\<lparr>rr_APIGroup := kcm_group\<rparr> else res)"

definition clear_deprecated :: "AccessRule \<Rightarrow> AccessRule" where
  "clear_deprecated r = r\<lparr>ar_ClusterTemplateChains := [], ar_ServiceTemplateChains := [], ar_Credentials := [],
     ar_ClusterAuthentications := [], ar_DataSources := [], ar_ClusterAuditPolicies := []\<rparr>"

definition migrateAccessRule :: "AccessRule \<Rightarrow> AccessRule \<times> bool" where
  "migrateAccessRule rule =
     (let synthesized = synthesizeResourceRules rule;
          rule1 = (if length synthesized > 0 then rule\<lparr>ar_Resources := ar_Resources rule @ synthesized\<rparr> else rule);
          rule2 = (if HasDeprecatedFields rule1 then clear_deprecated rule1 else rule1);
          defaulted = (\<lambda>res. rr_APIGroup res = [] \<and> isBuiltinResourceKind (rr_Kind res))
      in (rule2\<lparr>ar_Resources := map default_group (ar_Resources rule2)\<rparr>,
          length synthesized > 0 \<or> list_ex defaulted (ar_Resources rule2)))"

definition MigrateAccessRules :: "AccessManagement \<Rightarrow> AccessManagement \<times> bool" where
  "MigrateAccessRules am =
     (if length (am_AccessRules am) = 0 then (am, False)
      else let migrated = map migrateAccessRule (am_AccessRules am); changed = list_ex snd migrated
           in (if changed then am\<lparr>am_AccessRules := map fst migrated\<rparr> else am, changed))"

subsection \<open>Resolution against the cluster\<close>

text \<open>
  Library code: \<open>labels.Parse\<close>, \<open>metav1.LabelSelectorAsSelector\<close> and the group of
  \<open>schema.ParseGroupVersion\<close>, \<open>None\<close> for an error.
\<close>

record k8s_lib =
  lib_parse :: "string \<Rightarrow> string + selector"
  lib_compile :: compile_selector
  lib_parseGroup :: "string \<Rightarrow> string option"

record Namespace =
  ns_Name :: string
  ns_Labels :: "(string \<times> string) list"

datatype access_error =
    SelectorInvalid string
  | ListNamespacesFailed api_error
  | ListObjectsFailed GroupKind api_error

text \<open>\<open>LabelSelector\<close>: the selector and whether it is non-empty.\<close>

definition labelSelector ::
  "k8s_lib \<Rightarrow> LabelSelector option \<Rightarrow> string \<Rightarrow> access_error + selector \<times> bool" where
  "labelSelector lib selector stringSelector =
     (if stringSelector \<noteq> [] then
        bindE (wrapE SelectorInvalid (lib_parse lib stringSelector)) (\<lambda>sel. Inr (sel, \<not> sel_Empty sel))
      else case selector of
             None \<Rightarrow> Inr (no_selector, False)
           | Some s \<Rightarrow> bindE (wrapE SelectorInvalid (lib_compile lib s)) (\<lambda>sel. Inr (sel, \<not> sel_Empty sel)))"

text \<open>The argument of the list is the selector of the list options, if any.\<close>

type_synonym list_namespaces = "selector option \<Rightarrow> api_error + Namespace list"

definition TargetNamespaces ::
  "k8s_lib \<Rightarrow> list_namespaces \<Rightarrow> string \<Rightarrow> ResourceSelector \<Rightarrow> access_error + string list" where
  "TargetNamespaces lib listNs systemNamespace targetNamespaces =
     (if length (rsel_List targetNamespaces) > 0 then
        (case index_func (\<lambda>ns. ns = systemNamespace) (rsel_List targetNamespaces) of
           None \<Rightarrow> Inr (rsel_List targetNamespaces)
         | Some i \<Rightarrow> Inr (take i (rsel_List targetNamespaces)
                         @ filter (\<lambda>ns. ns \<noteq> systemNamespace) (drop (i + 1) (rsel_List targetNamespaces))))
      else
        bindE (labelSelector lib (rsel_Selector targetNamespaces) (rsel_StringSelector targetNamespaces))
          (\<lambda>(selector, selectorNonEmpty).
             bindE (wrapE ListNamespacesFailed (listNs (if selectorNonEmpty then Some selector else None)))
               (\<lambda>items. Inr (map ns_Name (filter (\<lambda>ns. ns_Name ns \<noteq> systemNamespace) items)))))"

text \<open>
  The objects of the system namespace are a map from names; as it is ranged over, an association
  list. The names are sorted, so the order of the map does not matter.
\<close>

definition ResolveNames ::
  "k8s_lib \<Rightarrow> ('o \<Rightarrow> (string \<times> string) list) \<Rightarrow> ResourceRule \<Rightarrow> (string \<times> 'o) list \<Rightarrow> access_error + string list" where
  "ResolveNames lib labels_of rule system =
     (case rr_Names rule of
        Some names \<Rightarrow> Inr names
      | None \<Rightarrow>
          bindE (labelSelector lib (rr_Selector rule) (rr_StringSelector rule)) (\<lambda>(selector, selectorNonEmpty).
            Inr (sort (map fst (filter (\<lambda>(name, obj). \<not> selectorNonEmpty \<or> sel_Matches selector (labels_of obj)) system)))))"

record Rule =
  rule_Namespaces :: "string list"
  rule_Resources :: "ResourceRule list"

definition ResolveRules ::
  "k8s_lib \<Rightarrow> list_namespaces \<Rightarrow> string \<Rightarrow> AccessRule list \<Rightarrow> access_error + Rule list" where
  "ResolveRules lib listNs systemNamespace accessRules =
     mapE (\<lambda>rule. bindE (TargetNamespaces lib listNs systemNamespace (ar_TargetNamespaces rule))
             (\<lambda>namespaces. Inr \<lparr>rule_Namespaces = namespaces, rule_Resources = EffectiveResources rule\<rparr>)) accessRules"

subsection \<open>The plan for a kind\<close>

datatype Target = Target (target_Namespace: string) (target_Name: string)

text \<open>The metadata of an object (\<open>PartialObjectMetadata\<close>) that the plan reads.\<close>

record PartialObject =
  po_Namespace :: string
  po_Name :: string
  po_Labels :: "(string \<times> string) list"
  po_OwnerReferences :: "OwnerReference list"
  po_Deleting :: bool

text \<open>As \<open>Plan[M]\<close>: the plan is over any objects with this metadata.\<close>

record 'm Plan =
  plan_Desired :: "Target list"
  plan_Remove :: "'m list"
  plan_Release :: "'m list"

definition NamespacedName :: "string \<Rightarrow> string \<Rightarrow> string" where
  "NamespacedName namespace name = namespace @ ''/'' @ name"

definition IsAccessManagementOwnerReference :: "k8s_lib \<Rightarrow> OwnerReference \<Rightarrow> AccessManagement \<Rightarrow> bool" where
  "IsAccessManagementOwnerReference lib ref accessMgmt \<longleftrightarrow>
     lib_parseGroup lib (or_APIVersion ref) = Some kcm_group
     \<and> or_Kind ref = ''AccessManagement'' \<and> or_Name ref = am_Name accessMgmt"

definition HasForeignOwnerReference :: "k8s_lib \<Rightarrow> OwnerReference list \<Rightarrow> AccessManagement \<Rightarrow> bool" where
  "HasForeignOwnerReference lib refs accessMgmt \<longleftrightarrow>
     contains_func (\<lambda>ref. \<not> IsAccessManagementOwnerReference lib ref accessMgmt) refs"

text \<open>\<open>seen\<close> holds exactly the targets already in \<open>desired\<close>.\<close>

definition add_resource_targets ::
  "k8s_lib \<Rightarrow> ('o \<Rightarrow> (string \<times> string) list) \<Rightarrow> GroupKind \<Rightarrow> (string \<times> 'o) list \<Rightarrow> string list \<Rightarrow> ResourceRule
     \<Rightarrow> Target list \<Rightarrow> access_error + Target list" where
  "add_resource_targets lib labels_of gk system namespaces res desired =
     (if rule_GroupKind res \<noteq> gk then Inr desired
      else bindE (ResolveNames lib labels_of res system) (\<lambda>names.
             Inr (fold (\<lambda>namespace. fold (\<lambda>name. add_new (Target namespace name)) names) namespaces desired)))"

definition desiredTargets ::
  "k8s_lib \<Rightarrow> ('o \<Rightarrow> (string \<times> string) list) \<Rightarrow> Rule list \<Rightarrow> GroupKind \<Rightarrow> (string \<times> 'o) list
     \<Rightarrow> access_error + Target list" where
  "desiredTargets lib labels_of rules gk system =
     foldE (\<lambda>rule. foldE (add_resource_targets lib labels_of gk system (rule_Namespaces rule)) (rule_Resources rule)) rules []"

definition plan_object ::
  "k8s_lib \<Rightarrow> AccessManagement \<Rightarrow> string list \<Rightarrow> 'm PartialObject_scheme \<Rightarrow> 'm PartialObject_scheme Plan
     \<Rightarrow> 'm PartialObject_scheme Plan" where
  "plan_object lib accessMgmt keep obj plan =
     (if NamespacedName (po_Namespace obj) (po_Name obj) \<in> set keep then plan
      else if HasForeignOwnerReference lib (po_OwnerReferences obj) accessMgmt
      then plan\<lparr>plan_Release := plan_Release plan @ [obj]\<rparr>
      else plan\<lparr>plan_Remove := plan_Remove plan @ [obj]\<rparr>)"

definition PlanGroupKind ::
  "k8s_lib \<Rightarrow> ('o \<Rightarrow> (string \<times> string) list) \<Rightarrow> Rule list \<Rightarrow> GroupKind \<Rightarrow> (string \<times> 'o) list
     \<Rightarrow> 'm PartialObject_scheme list \<Rightarrow> AccessManagement \<Rightarrow> access_error + 'm PartialObject_scheme Plan" where
  "PlanGroupKind lib labels_of rules gk system managed accessMgmt =
     bindE (desiredTargets lib labels_of rules gk system) (\<lambda>desired.
       let keep = map (\<lambda>target. NamespacedName (target_Namespace target) (target_Name target)) desired
       in Inr (fold (plan_object lib accessMgmt keep) managed
                 \<lparr>plan_Desired = desired, plan_Remove = [], plan_Release = []\<rparr>))"

definition ReferencedGroupKinds :: "AccessManagement \<Rightarrow> GroupKind list" where
  "ReferencedGroupKinds accessMgmt =
     fold (\<lambda>rule. fold (\<lambda>res. add_new (rule_GroupKind res)) (EffectiveResources rule)) (am_AccessRules accessMgmt) []"

definition TracksGroupKind :: "AccessManagement \<Rightarrow> GroupKind \<Rightarrow> bool" where
  "TracksGroupKind accessMgmt gk \<longleftrightarrow>
     gk \<in> set (ReferencedGroupKinds accessMgmt)
     \<or> contains_func (\<lambda>status. rks_APIGroup status = gk_Group gk \<and> rks_Kind status = gk_Kind gk) (am_StatusResources accessMgmt)"

text \<open>What admission asks: \<open>listSystem\<close> and \<open>listManaged\<close> are the two lists of ClusterTemplates.\<close>

definition clusterTemplateGK :: GroupKind where
  "clusterTemplateGK = GroupKind kcm_group ''ClusterTemplate''"

definition ClusterTemplatesToRemove ::
  "k8s_lib \<Rightarrow> list_namespaces \<Rightarrow> api_error + 'm PartialObject_scheme list \<Rightarrow> api_error + 'm PartialObject_scheme list
     \<Rightarrow> string \<Rightarrow> AccessManagement \<Rightarrow> access_error + 'm PartialObject_scheme list" where
  "ClusterTemplatesToRemove lib listNs listSystem listManaged systemNamespace accessMgmt =
     (if \<not> TracksGroupKind accessMgmt clusterTemplateGK then Inr []
      else
        bindE (ResolveRules lib listNs systemNamespace (am_AccessRules accessMgmt)) (\<lambda>rules.
        bindE (wrapE (ListObjectsFailed clusterTemplateGK) listSystem) (\<lambda>systemTemplates.
        bindE (wrapE (ListObjectsFailed clusterTemplateGK) listManaged) (\<lambda>managedTemplates.
        let system = fold (\<lambda>t. AList.update (po_Name t) t) systemTemplates [];
            managed = filter (\<lambda>t. po_Namespace t \<noteq> systemNamespace \<and> \<not> po_Deleting t) managedTemplates
        in bindE (PlanGroupKind lib po_Labels rules clusterTemplateGK system managed accessMgmt)
             (\<lambda>plan. Inr (plan_Remove plan))))))"

section \<open>Target namespaces\<close>

lemma split_at_first:
  assumes "index_func (\<lambda>x. x = a) xs = Some i"
  shows "take i xs @ filter (\<lambda>x. x \<noteq> a) (drop (i + 1) xs) = filter (\<lambda>x. x \<noteq> a) xs"
proof -
  from assms have i: "i < length xs" "xs ! i = a" "\<forall>j<i. xs ! j \<noteq> a" by (simp_all add: index_func_Some)
  then have "filter (\<lambda>x. x \<noteq> a) (take i xs) = take i xs"
    by (intro filter_True) (auto simp: in_set_conv_nth)
  moreover have "filter (\<lambda>x. x \<noteq> a) xs = filter (\<lambda>x. x \<noteq> a) (take i xs @ xs ! i # drop (Suc i) xs)"
    using id_take_nth_drop [OF i(1)] by simp
  ultimately show ?thesis using i(2) by simp
qed

text \<open>The API server lists the namespaces that the selector, if there is one, matches.\<close>

definition lists_namespaces :: "list_namespaces \<Rightarrow> Namespace list \<Rightarrow> bool" where
  "lists_namespaces listNs store \<longleftrightarrow>
     (\<forall>s. listNs s = Inr (filter (\<lambda>n. case s of None \<Rightarrow> True | Some sel \<Rightarrow> sel_Matches sel (ns_Labels n)) store))"

definition selects_namespace :: "k8s_lib \<Rightarrow> ResourceSelector \<Rightarrow> Namespace \<Rightarrow> bool" where
  "selects_namespace lib tn n \<longleftrightarrow>
     (if rsel_List tn \<noteq> [] then ns_Name n \<in> set (rsel_List tn)
      else \<exists>sel ne. labelSelector lib (rsel_Selector tn) (rsel_StringSelector tn) = Inr (sel, ne)
             \<and> (ne \<longrightarrow> sel_Matches sel (ns_Labels n)))"

lemma TargetNamespaces_list:
  "rsel_List tn \<noteq> [] \<Longrightarrow> TargetNamespaces lib listNs sys tn = Inr (filter (\<lambda>ns. ns \<noteq> sys) (rsel_List tn))"
  using split_at_first [of sys "rsel_List tn"]
  by (auto simp: TargetNamespaces_def index_func_None split: option.split intro!: filter_True [symmetric])

lemma TargetNamespaces_spec:
  assumes "lists_namespaces listNs store" and "TargetNamespaces lib listNs sys tn = Inr namespaces"
  shows "sys \<notin> set namespaces
         \<and> (if rsel_List tn \<noteq> [] then namespaces = filter (\<lambda>ns. ns \<noteq> sys) (rsel_List tn)
            else namespaces = map ns_Name (filter (\<lambda>n. ns_Name n \<noteq> sys \<and> selects_namespace lib tn n) store))"
proof (cases "rsel_List tn = []")
  case False
  with assms(2) TargetNamespaces_list [OF False] show ?thesis by auto
next
  case True
  then obtain sel ne where sel: "labelSelector lib (rsel_Selector tn) (rsel_StringSelector tn) = Inr (sel, ne)"
    and "namespaces = map ns_Name (filter (\<lambda>ns. ns_Name ns \<noteq> sys)
           (filter (\<lambda>n. case (if ne then Some sel else None) of None \<Rightarrow> True | Some s \<Rightarrow> sel_Matches s (ns_Labels n)) store))"
    using assms by (auto simp: TargetNamespaces_def lists_namespaces_def result_simps)
  moreover have "selects_namespace lib tn n \<longleftrightarrow> (ne \<longrightarrow> sel_Matches sel (ns_Labels n))" for n
    using True sel by (auto simp: selects_namespace_def)
  ultimately show ?thesis using True by (auto intro!: arg_cong [of _ _ "map ns_Name"] filter_cong)
qed

text \<open>
  The namespaces a rule distributes into are the listed ones or, without a list, the existing
  ones that the selector matches, all of them if it is empty or absent; in both cases without the
  system namespace. The scan that copies the prefix of the list is an optimisation of a filter.
\<close>

theorem TargetNamespaces_correct:
  assumes "lists_namespaces listNs store" and "TargetNamespaces lib listNs sys tn = Inr namespaces"
  shows "sys \<notin> set namespaces
         \<and> (if rsel_List tn \<noteq> [] then namespaces = filter (\<lambda>ns. ns \<noteq> sys) (rsel_List tn)
            else namespaces = map ns_Name (filter (\<lambda>n. ns_Name n \<noteq> sys \<and> selects_namespace lib tn n) store))"
  using assms by (rule TargetNamespaces_spec)

section \<open>The plan\<close>

definition wanted ::
  "k8s_lib \<Rightarrow> ('o \<Rightarrow> (string \<times> string) list) \<Rightarrow> Rule list \<Rightarrow> GroupKind \<Rightarrow> (string \<times> 'o) list \<Rightarrow> Target \<Rightarrow> bool" where
  "wanted lib labels_of rules gk system t \<longleftrightarrow>
     (\<exists>rule\<in>set rules. target_Namespace t \<in> set (rule_Namespaces rule)
        \<and> (\<exists>res\<in>set (rule_Resources rule). rule_GroupKind res = gk
             \<and> (\<exists>names. ResolveNames lib labels_of res system = Inr names \<and> target_Name t \<in> set names)))"

lemma set_targets_fold:
  "set (fold (\<lambda>namespace. fold (\<lambda>name. add_new (Target namespace name)) names) namespaces desired) =
     set desired \<union> {Target ns n | ns n. ns \<in> set namespaces \<and> n \<in> set names}"
proof (induction namespaces arbitrary: desired)
  case (Cons ns namespaces)
  have "set (fold (\<lambda>name. add_new (Target ns name)) names desired) = set desired \<union> Target ns ` set names"
    by (induction names arbitrary: desired) auto
  with Cons show ?case by auto
qed simp

lemma distinct_targets_fold:
  "distinct (fold (\<lambda>namespace. fold (\<lambda>name. add_new (Target namespace name)) names) namespaces desired) = distinct desired"
proof (induction namespaces arbitrary: desired)
  case (Cons ns namespaces)
  have "distinct (fold (\<lambda>name. add_new (Target ns name)) names desired) = distinct desired"
    by (induction names arbitrary: desired) auto
  with Cons show ?case by simp
qed simp

lemma add_resource_targets_set:
  assumes "add_resource_targets lib labels_of gk system namespaces res desired = Inr desired'"
  shows "set desired' = set desired \<union> {t. target_Namespace t \<in> set namespaces \<and> rule_GroupKind res = gk
           \<and> (\<exists>names. ResolveNames lib labels_of res system = Inr names \<and> target_Name t \<in> set names)}"
    and "distinct desired' = distinct desired"
proof -
  have t: "(\<exists>ns n. t = Target ns n \<and> ns \<in> A \<and> n \<in> B) \<longleftrightarrow> target_Namespace t \<in> A \<and> target_Name t \<in> B" for t A B
    by (cases t) auto
  show "set desired' = set desired \<union> {t. target_Namespace t \<in> set namespaces \<and> rule_GroupKind res = gk
           \<and> (\<exists>names. ResolveNames lib labels_of res system = Inr names \<and> target_Name t \<in> set names)}"
    using assms by (auto simp: add_resource_targets_def result_simps set_targets_fold t split: if_splits)
  show "distinct desired' = distinct desired"
    using assms by (auto simp: add_resource_targets_def result_simps distinct_targets_fold split: if_splits)
qed

lemma rule_targets_set:
  assumes "foldE (add_resource_targets lib labels_of gk system namespaces) ress desired = Inr desired'"
  shows "set desired' = set desired \<union> {t. target_Namespace t \<in> set namespaces \<and> (\<exists>res\<in>set ress. rule_GroupKind res = gk
           \<and> (\<exists>names. ResolveNames lib labels_of res system = Inr names \<and> target_Name t \<in> set names))}"
    and "distinct desired' = distinct desired"
  using assms
proof (induction ress arbitrary: desired)
  case (Cons res ress)
  {
    case 1
    then obtain d where d: "add_resource_targets lib labels_of gk system namespaces res desired = Inr d"
      "foldE (add_resource_targets lib labels_of gk system namespaces) ress d = Inr desired'" by (auto simp: result_simps)
    from add_resource_targets_set(1) [OF d(1)] Cons.IH(1) [OF d(2)] show ?case by auto
  next
    case 2
    then obtain d where d: "add_resource_targets lib labels_of gk system namespaces res desired = Inr d"
      "foldE (add_resource_targets lib labels_of gk system namespaces) ress d = Inr desired'" by (auto simp: result_simps)
    from add_resource_targets_set(2) [OF d(1)] Cons.IH(2) [OF d(2)] show ?case by simp
  }
qed simp_all

lemma desiredTargets_wanted:
  assumes "desiredTargets lib labels_of rules gk system = Inr desired"
  shows "set desired = {t. wanted lib labels_of rules gk system t}" and "distinct desired"
proof -
  let ?f = "\<lambda>rule. foldE (add_resource_targets lib labels_of gk system (rule_Namespaces rule)) (rule_Resources rule)"
  have "set d' = set d \<union> {t. wanted lib labels_of rs gk system t} \<and> distinct d' = distinct d"
    if "foldE ?f rs d = Inr d'" for rs d d'
    using that
  proof (induction rs arbitrary: d)
    case Nil
    then show ?case by (simp add: wanted_def)
  next
    case (Cons rule rs)
    then obtain d1 where d1: "?f rule d = Inr d1" "foldE ?f rs d1 = Inr d'" by (auto simp: result_simps)
    from rule_targets_set [OF d1(1)] Cons.IH [OF d1(2)] show ?case by (auto simp: wanted_def)
  qed
  from this [of rules "[]" desired] assms
  show "set desired = {t. wanted lib labels_of rules gk system t}" "distinct desired" by (simp_all add: desiredTargets_def)
qed

lemma NamespacedName_inj:
  assumes "CHR ''/'' \<notin> set ns" and "CHR ''/'' \<notin> set ns'"
  shows "NamespacedName ns n = NamespacedName ns' n' \<longleftrightarrow> ns = ns' \<and> n = n'"
proof -
  have split: "takeWhile (\<lambda>c. c \<noteq> CHR ''/'') (NamespacedName x m) = x" if "CHR ''/'' \<notin> set x" for x m
  proof -
    have "\<forall>c\<in>set x. c \<noteq> CHR ''/''" using that by auto
    then show ?thesis by (simp add: NamespacedName_def takeWhile_append2)
  qed
  show ?thesis
  proof
    assume eq: "NamespacedName ns n = NamespacedName ns' n'"
    then have "ns = ns'" using split [OF assms(1), of n] split [OF assms(2), of n'] by simp
    with eq show "ns = ns' \<and> n = n'" by (simp add: NamespacedName_def)
  qed simp
qed

lemma fold_plan_object:
  "fold (plan_object lib am keep) objs plan =
     plan\<lparr>plan_Remove := plan_Remove plan @ filter (\<lambda>ob. NamespacedName (po_Namespace ob) (po_Name ob) \<notin> set keep
              \<and> \<not> HasForeignOwnerReference lib (po_OwnerReferences ob) am) objs,
          plan_Release := plan_Release plan @ filter (\<lambda>ob. NamespacedName (po_Namespace ob) (po_Name ob) \<notin> set keep
              \<and> HasForeignOwnerReference lib (po_OwnerReferences ob) am) objs\<rparr>"
  by (induction objs arbitrary: plan) (simp_all add: plan_object_def)

text \<open>Kubernetes names contain no slash.\<close>

definition plain_names :: "Rule list \<Rightarrow> 'm PartialObject_scheme list \<Rightarrow> bool" where
  "plain_names rules managed \<longleftrightarrow>
     (\<forall>rule\<in>set rules. \<forall>ns\<in>set (rule_Namespaces rule). CHR ''/'' \<notin> set ns)
     \<and> (\<forall>ob\<in>set managed. CHR ''/'' \<notin> set (po_Namespace ob))"

abbreviation object_target :: "'m PartialObject_scheme \<Rightarrow> Target" where
  "object_target ob \<equiv> Target (po_Namespace ob) (po_Name ob)"

lemma PlanGroupKind_spec:
  assumes "PlanGroupKind lib labels_of rules gk system managed am = Inr plan" and "plain_names rules managed"
  shows "distinct (plan_Desired plan)"
    and "set (plan_Desired plan) = {t. wanted lib labels_of rules gk system t}"
    and "plan_Remove plan = filter (\<lambda>ob. \<not> wanted lib labels_of rules gk system (object_target ob)
              \<and> \<not> HasForeignOwnerReference lib (po_OwnerReferences ob) am) managed"
    and "plan_Release plan = filter (\<lambda>ob. \<not> wanted lib labels_of rules gk system (object_target ob)
              \<and> HasForeignOwnerReference lib (po_OwnerReferences ob) am) managed"
proof -
  from assms(1) obtain desired where d: "desiredTargets lib labels_of rules gk system = Inr desired"
    and plan: "plan = fold (plan_object lib am (map (\<lambda>t. NamespacedName (target_Namespace t) (target_Name t)) desired)) managed
                 \<lparr>plan_Desired = desired, plan_Remove = [], plan_Release = []\<rparr>"
    by (auto simp: PlanGroupKind_def result_simps Let_def)
  note w = desiredTargets_wanted [OF d]
  show "distinct (plan_Desired plan)" "set (plan_Desired plan) = {t. wanted lib labels_of rules gk system t}"
    using w by (simp_all add: plan fold_plan_object)
  have keep: "NamespacedName (po_Namespace ob) (po_Name ob) \<in> set (map (\<lambda>t. NamespacedName (target_Namespace t) (target_Name t)) desired)
      \<longleftrightarrow> wanted lib labels_of rules gk system (object_target ob)" if "ob \<in> set managed" for ob
  proof -
    have "NamespacedName (po_Namespace ob) (po_Name ob) = NamespacedName (target_Namespace t) (target_Name t) \<longleftrightarrow> t = object_target ob"
      if "t \<in> set desired" for t
    proof -
      have "wanted lib labels_of rules gk system t" using that w(1) by simp
      then have "CHR ''/'' \<notin> set (target_Namespace t)" using assms(2) by (auto simp: wanted_def plain_names_def)
      moreover have "CHR ''/'' \<notin> set (po_Namespace ob)" using assms(2) \<open>ob \<in> set managed\<close> by (simp add: plain_names_def)
      ultimately show ?thesis using NamespacedName_inj by (cases t) auto
    qed
    then show ?thesis using w(1) by auto
  qed
  show "plan_Remove plan = filter (\<lambda>ob. \<not> wanted lib labels_of rules gk system (object_target ob)
              \<and> \<not> HasForeignOwnerReference lib (po_OwnerReferences ob) am) managed"
    and "plan_Release plan = filter (\<lambda>ob. \<not> wanted lib labels_of rules gk system (object_target ob)
              \<and> HasForeignOwnerReference lib (po_OwnerReferences ob) am) managed"
    using keep by (simp_all only: plan fold_plan_object) (simp_all cong: filter_cong)
qed

text \<open>
  C10: the plan for a kind wants, without duplicates, exactly the copies that some rule selects for
  one of its namespaces; of the managed copies that are not wanted it removes those that only the
  AccessManagement owns and releases those that something else owns too, and leaves the rest alone.
\<close>

theorem PlanGroupKind_correct:
  assumes "PlanGroupKind lib labels_of rules gk system managed am = Inr plan" and "plain_names rules managed"
  shows "distinct (plan_Desired plan) \<and> set (plan_Desired plan) = {t. wanted lib labels_of rules gk system t}
         \<and> plan_Remove plan = filter (\<lambda>ob. \<not> wanted lib labels_of rules gk system (object_target ob)
              \<and> \<not> HasForeignOwnerReference lib (po_OwnerReferences ob) am) managed
         \<and> plan_Release plan = filter (\<lambda>ob. \<not> wanted lib labels_of rules gk system (object_target ob)
              \<and> HasForeignOwnerReference lib (po_OwnerReferences ob) am) managed"
  using PlanGroupKind_spec [OF assms] by blast

section \<open>Migration of deprecated selectors\<close>

lemma default_group_idem [simp]: "default_group (default_group res) = default_group res"
  by (simp add: default_group_def)

lemma default_group_GroupKind [simp]: "rule_GroupKind (default_group res) = rule_GroupKind res"
  by (simp add: default_group_def rule_GroupKind_def kcm_group_def)

lemma synthesize_empty: "synthesizeResourceRules r = [] \<longleftrightarrow> \<not> HasDeprecatedFields r"
  by (auto simp: synthesizeResourceRules_def appendResourceRule_def HasDeprecatedFields_def)

lemma synthesize_clear: "synthesizeResourceRules (clear_deprecated r) = []"
  by (simp add: synthesizeResourceRules_def appendResourceRule_def clear_deprecated_def)

lemma synthesize_resources [simp]: "synthesizeResourceRules (r\<lparr>ar_Resources := x\<rparr>) = synthesizeResourceRules r"
  by (simp add: synthesizeResourceRules_def)

lemma deprecated_resources [simp]: "HasDeprecatedFields (r\<lparr>ar_Resources := x\<rparr>) = HasDeprecatedFields r"
  by (simp add: HasDeprecatedFields_def)

lemma clear_deprecated_simps [simp]:
  "ar_Resources (clear_deprecated r) = ar_Resources r" "\<not> HasDeprecatedFields (clear_deprecated r)"
  by (simp_all add: clear_deprecated_def HasDeprecatedFields_def)

lemma migrateAccessRule_fst:
  "fst (migrateAccessRule r) =
     (if HasDeprecatedFields r then clear_deprecated r else r)
       \<lparr>ar_Resources := map default_group (ar_Resources r @ synthesizeResourceRules r)\<rparr>"
  using synthesize_empty [of r] by (simp add: migrateAccessRule_def Let_def clear_deprecated_def)

lemma migrateAccessRule_deprecated: "\<not> HasDeprecatedFields (fst (migrateAccessRule r))"
  by (simp add: migrateAccessRule_fst)

lemma default_group_done: "\<not> (rr_APIGroup (default_group res) = [] \<and> isBuiltinResourceKind (rr_Kind (default_group res)))"
  by (simp add: default_group_def kcm_group_def)

lemma migrateAccessRule_again: "migrateAccessRule (fst (migrateAccessRule r)) = (fst (migrateAccessRule r), False)"
proof -
  let ?m = "fst (migrateAccessRule r)"
  have "synthesizeResourceRules ?m = []" using migrateAccessRule_deprecated [of r] by (simp add: synthesize_empty)
  moreover have "map default_group (ar_Resources ?m) = ar_Resources ?m" by (simp add: migrateAccessRule_fst)
  moreover have "\<not> list_ex (\<lambda>res. rr_APIGroup res = [] \<and> isBuiltinResourceKind (rr_Kind res)) (ar_Resources ?m)"
    using default_group_done by (auto simp: migrateAccessRule_fst list_ex_iff)
  ultimately show ?thesis
    using migrateAccessRule_deprecated [of r] by (simp add: migrateAccessRule_def Let_def)
qed

text \<open>
  Migration is idempotent and leaves no deprecated selector behind; afterwards a rule selects
  what its resources and its deprecated selectors selected, each of them for the same kind. For a
  rule that had both this differs from what it selected before, when its resources alone counted.
\<close>

theorem MigrateAccessRules_correct:
  "let am' = fst (MigrateAccessRules am)
   in MigrateAccessRules am' = (am', False)
      \<and> (snd (MigrateAccessRules am) \<or> am' = am)
      \<and> map EffectiveResources (am_AccessRules am') =
          (if snd (MigrateAccessRules am)
           then map (\<lambda>r. map default_group (ar_Resources r @ synthesizeResourceRules r)) (am_AccessRules am)
           else map EffectiveResources (am_AccessRules am))
      \<and> (\<forall>r. map rule_GroupKind (map default_group r) = map rule_GroupKind r)"
proof -
  have again: "map migrateAccessRule (map fst (map migrateAccessRule rs)) = map (\<lambda>r. (fst (migrateAccessRule r), False)) rs" for rs
    by (simp add: migrateAccessRule_again)
  have eff: "EffectiveResources (fst (migrateAccessRule r)) = map default_group (ar_Resources r @ synthesizeResourceRules r)" for r
    using migrateAccessRule_deprecated [of r] by (auto simp: EffectiveResources_def migrateAccessRule_fst synthesize_empty
        simp flip: synthesize_empty)
  show ?thesis
    using again [of "am_AccessRules am"]
    by (auto simp: MigrateAccessRules_def Let_def eff list_ex_iff comp_def)
qed

section \<open>A concrete plan\<close>

definition example_lib :: k8s_lib where
  "example_lib = \<lparr>lib_parse = (\<lambda>_. Inl ''unsupported''), lib_compile = (\<lambda>s. Inr \<lparr>sel_Empty = ls_MatchLabels s = [] \<and> ls_MatchExpressions s = [],
       sel_Matches = (\<lambda>ls. list_all (\<lambda>(k, v). alookup ls k = Some v) (ls_MatchLabels s))\<rparr>), lib_parseGroup = (\<lambda>_. Some kcm_group)\<rparr>"

definition example_credentials :: ResourceRule where
  "example_credentials = \<lparr>rr_Selector = None, rr_APIGroup = [], rr_Kind = ''Credential'', rr_StringSelector = [], rr_Names = None\<rparr>"

definition example_team :: ResourceSelector where
  "example_team = \<lparr>rsel_Selector = Some \<lparr>ls_MatchLabels = [(''team'', ''a'')], ls_MatchExpressions = []\<rparr>,
     rsel_StringSelector = [], rsel_List = []\<rparr>"

definition example_namespaces :: "Namespace list" where
  "example_namespaces = [\<lparr>ns_Name = ''kcm-system'', ns_Labels = [(''team'', ''a'')]\<rparr>, \<lparr>ns_Name = ''dev'', ns_Labels = [(''team'', ''a'')]\<rparr>,
     \<lparr>ns_Name = ''ops'', ns_Labels = []\<rparr>]"

definition example_list_namespaces :: list_namespaces where
  "example_list_namespaces s =
     Inr (filter (\<lambda>n. case s of None \<Rightarrow> True | Some sel \<Rightarrow> sel_Matches sel (ns_Labels n)) example_namespaces)"

definition example_am :: AccessManagement where
  "example_am = \<lparr>am_Name = ''kcm'', am_UID = ''u1'', am_Generation = 1, am_Labels = [],
     am_AccessRules = [\<lparr>ar_TargetNamespaces = example_team, ar_Resources = [example_credentials], ar_ClusterTemplateChains = [],
       ar_ServiceTemplateChains = [], ar_Credentials = [], ar_ClusterAuthentications = [], ar_DataSources = [], ar_ClusterAuditPolicies = []\<rparr>],
     am_Error = [], am_Current = [], am_StatusResources = [], am_ObservedGeneration = 0\<rparr>"

theorem TargetNamespaces_correct_witness:
  "TargetNamespaces example_lib example_list_namespaces ''kcm-system'' example_team = Inr [''dev'']
   \<and> [''dev''] = map ns_Name (filter (\<lambda>n. ns_Name n \<noteq> ''kcm-system'' \<and> selects_namespace example_lib example_team n) example_namespaces)"
proof -
  have run: "TargetNamespaces example_lib example_list_namespaces ''kcm-system'' example_team = Inr [''dev'']" by code_simp
  have "lists_namespaces example_list_namespaces example_namespaces"
    by (simp add: lists_namespaces_def example_list_namespaces_def)
  from TargetNamespaces_correct [OF this run] run show ?thesis by (simp add: example_team_def)
qed

definition example_copy :: "string \<Rightarrow> OwnerReference list \<Rightarrow> PartialObject" where
  "example_copy ns refs = \<lparr>po_Namespace = ns, po_Name = ''cred'', po_Labels = [], po_OwnerReferences = refs, po_Deleting = False\<rparr>"

theorem PlanGroupKind_correct_witness:
  "\<exists>plan. PlanGroupKind example_lib (\<lambda>_. []) [\<lparr>rule_Namespaces = [''dev''], rule_Resources = [example_credentials]\<rparr>]
         (GroupKind kcm_group ''Credential'') [(''cred'', ())] [example_copy ''dev'' [], example_copy ''ops'' []] example_am = Inr plan
     \<and> set (plan_Desired plan) = {Target ''dev'' ''cred''} \<and> plan_Remove plan = [example_copy ''ops'' []]"
proof -
  let ?rules = "[\<lparr>rule_Namespaces = [''dev''], rule_Resources = [example_credentials]\<rparr>]"
  let ?managed = "[example_copy ''dev'' [], example_copy ''ops'' []]"
  have "\<not> isl (PlanGroupKind example_lib (\<lambda>_. []) ?rules (GroupKind kcm_group ''Credential'') [(''cred'', ())] ?managed example_am)"
    by code_simp
  then obtain plan where run: "PlanGroupKind example_lib (\<lambda>_. []) ?rules (GroupKind kcm_group ''Credential'') [(''cred'', ())] ?managed example_am = Inr plan"
    by (auto simp: isl_def split: sum.splits) (metis Inl_Inr_False sum.exhaust)
  have want: "wanted example_lib (\<lambda>_. []) ?rules (GroupKind kcm_group ''Credential'') [(''cred'', ())] t \<longleftrightarrow> t = Target ''dev'' ''cred''" for t
    by (cases t) (auto simp: wanted_def example_credentials_def ResolveNames_def labelSelector_def rule_GroupKind_def
        isBuiltinResourceKind_def builtinResourceKinds_def)
  have "plain_names ?rules ?managed" by (simp add: plain_names_def example_copy_def)
  from PlanGroupKind_correct [OF run this] run want show ?thesis
    by (auto simp: example_copy_def HasForeignOwnerReference_def)
qed

end
