(* ===== verification/AccessController.thy ===== *)
theory AccessController
  imports AccessPlan
begin

text \<open>
  Access management, the acting half
  (\<^verbatim>\<open>internal/controller/accessmanagement_controller.go\<close>): distributing copies, adopting and
  releasing them, cleaning up, the dynamic RBAC rules and the reconciliation as a whole. The API
  server is a state \<open>'w\<close> with reads and writes as parameters; events and logging are left out.
\<close>

section \<open>Definitions\<close>

text \<open>
  An unstructured object: the metadata the code touches and the other top-level fields. The
  creation timestamp and the managed fields, which are only cleared, are left out.
\<close>

record Unstructured =
  ob_Namespace :: string
  ob_Name :: string
  ob_UID :: string
  ob_ResourceVersion :: string
  ob_Generation :: int
  ob_Labels :: "(string \<times> string) list"
  ob_Annotations :: "(string \<times> string) list"
  ob_Finalizers :: "string list"
  ob_OwnerReferences :: "OwnerReference list"
  ob_Fields :: "(string \<times> json) list"

abbreviation ob_key :: "Unstructured \<Rightarrow> ObjectKey" where
  "ob_key ob \<equiv> ObjectKey (ob_Namespace ob) (ob_Name ob)"

datatype Resource = Resource (res_Group: string) (res_Resource: string)

record RESTMapping =
  rm_Resource :: Resource
  rm_Namespaced :: bool

datatype am_error =
    KindUnresolved GroupKind string
  | ClusterScopedKindSkipped GroupKind
  | KindListFailed GroupKind api_error
  | CollectFailed GroupKind am_error
  | SourceNotFound GroupKind string
  | EnsureNamespaceFailed string api_error
  | RewriteFailed GroupKind string
  | CopyCreateFailed api_error
  | CopyGetFailed Resource ObjectKey api_error
  | SetOwnerFailed Resource ObjectKey string
  | CopyPatchFailed Resource ObjectKey api_error
  | CopyDeleteFailed api_error
  | PlanFailed access_error
  | RBACFailed string api_error
  | OwnerKindUnresolved string
  | AMStatusUpdateFailed api_error
  | AMGetFailed api_error
  | AMLabelFailed api_error
  | AMManagementGetFailed api_error

text \<open>\<open>apierrors.IsConflict\<close> looks through wrapped errors.\<close>

fun is_conflict :: "am_error \<Rightarrow> bool" where
  "is_conflict (CopyGetFailed _ _ e) = (e = Conflict)"
| "is_conflict (CopyPatchFailed _ _ e) = (e = Conflict)"
| "is_conflict _ = False"

record PolicyRule =
  pr_APIGroups :: "string list"
  pr_Resources :: "string list"
  pr_Verbs :: "string list"

record ClusterRole =
  cr_Name :: string
  cr_Labels :: "(string \<times> string) list"
  cr_Rules :: "PolicyRule list"

text \<open>
  Reads and writes: the dynamic and the metadata client, namespaces, the ClusterRole, and
  \<open>retry.RetryOnConflict\<close> with \<open>retry.DefaultRetry\<close>.
\<close>

record 'w am_api =
  d_list :: "Resource \<Rightarrow> string \<Rightarrow> 'w \<Rightarrow> api_error + Unstructured list"
  d_listManaged :: "Resource \<Rightarrow> 'w \<Rightarrow> api_error + PartialObject list"
  d_get :: "Resource \<Rightarrow> ObjectKey \<Rightarrow> 'w \<Rightarrow> api_error + Unstructured"
  d_create :: "Resource \<Rightarrow> Unstructured \<Rightarrow> 'w \<Rightarrow> api_error option \<times> 'w"
  d_patchOwners :: "Resource \<Rightarrow> ObjectKey \<Rightarrow> string \<Rightarrow> OwnerReference list \<Rightarrow> 'w \<Rightarrow> api_error option \<times> 'w"
  d_delete :: "Resource \<Rightarrow> ObjectKey \<Rightarrow> 'w \<Rightarrow> api_error option \<times> 'w"
  d_getNamespace :: "string \<Rightarrow> 'w \<Rightarrow> api_error option"
  d_createNamespace :: "string \<Rightarrow> 'w \<Rightarrow> api_error option \<times> 'w"
  d_listNamespaces :: "'w \<Rightarrow> list_namespaces"
  d_getRole :: "string \<Rightarrow> 'w \<Rightarrow> api_error + ClusterRole"
  d_createRole :: "ClusterRole \<Rightarrow> 'w \<Rightarrow> api_error option \<times> 'w"
  d_updateRole :: "ClusterRole \<Rightarrow> 'w \<Rightarrow> api_error option \<times> 'w"
  d_deleteRole :: "string \<Rightarrow> 'w \<Rightarrow> api_error option \<times> 'w"
  d_retry :: "('w \<Rightarrow> (am_error + PartialObject option) \<times> 'w) \<Rightarrow> 'w \<Rightarrow> (am_error + PartialObject option) \<times> 'w"
  d_managementDeleting :: "'w \<Rightarrow> api_error + bool"
  d_getAM :: "'w \<Rightarrow> api_error + AccessManagement"
  d_patchAMLabel :: "AccessManagement \<Rightarrow> 'w \<Rightarrow> api_error option \<times> 'w"
  d_updateAMStatus :: "AccessManagement \<Rightarrow> 'w \<Rightarrow> api_error option \<times> 'w"

text \<open>
  Library code on unstructured content (\<open>NestedString\<close>, \<open>NestedMap\<close>, \<open>SetNestedField\<close>, the
  converters to and from a ClusterTemplate), the scheme (\<open>GVKForObject\<close>, API version and kind of
  the AccessManagement) and \<open>controllerutil.SetOwnerReference\<close>, as an update of the references.
\<close>

record am_lib =
  al_k8s :: k8s_lib
  al_restMapping :: "GroupKind \<Rightarrow> string + RESTMapping"
  al_nestedString :: "(string \<times> json) list \<Rightarrow> string list \<Rightarrow> string + string option"
  al_nestedMapFound :: "(string \<times> json) list \<Rightarrow> string list \<Rightarrow> string + bool"
  al_setNestedField :: "(string \<times> json) list \<Rightarrow> string \<Rightarrow> string list \<Rightarrow> string + (string \<times> json) list"
  al_templateStatus :: "Unstructured \<Rightarrow> string + bool \<times> json option"
  al_specWithChartRef :: "Unstructured \<Rightarrow> json \<Rightarrow> string + json"
  al_ownerGVK :: "string + string \<times> string"
  al_setOwnerReference :: "AccessManagement \<Rightarrow> OwnerReference list \<Rightarrow> string + OwnerReference list"
  al_showError :: "am_error list \<Rightarrow> string"

record am_reconciler =
  amr_SystemNamespace :: string
  amr_lib :: am_lib

definition managed_label :: "string \<times> string" where
  "managed_label = (''k0rdent.mirantis.com/managed'', ''true'')"

definition is_managed :: "(string \<times> string) list \<Rightarrow> bool" where
  "is_managed labels \<longleftrightarrow> get_or [] (alookup labels) (fst managed_label) = snd managed_label"

record groupKindResources =
  gkr_ownerRef :: OwnerReference
  gkr_system :: "(string \<times> Unstructured) list"
  gkr_managed :: "PartialObject list"
  gkr_byName :: "string \<rightharpoonup> PartialObject"

definition partialMetadata :: "Unstructured \<Rightarrow> PartialObject" where
  "partialMetadata ob = \<lparr>po_Namespace = ob_Namespace ob, po_Name = ob_Name ob, po_Labels = ob_Labels ob,
     po_OwnerReferences = ob_OwnerReferences ob, po_Deleting = False\<rparr>"

definition hasOwnerReference :: "OwnerReference list \<Rightarrow> OwnerReference \<Rightarrow> bool" where
  "hasOwnerReference refs ownerRef \<longleftrightarrow>
     contains_func (\<lambda>ref. or_APIVersion ref = or_APIVersion ownerRef \<and> or_Kind ref = or_Kind ownerRef
        \<and> or_Name ref = or_Name ownerRef \<and> or_UID ref = or_UID ownerRef) refs"

definition settled_copy :: "PartialObject \<Rightarrow> OwnerReference \<Rightarrow> bool" where
  "settled_copy existing ownerRef \<longleftrightarrow>
     (if \<not> is_managed (po_Labels existing) then True else hasOwnerReference (po_OwnerReferences existing) ownerRef)"

definition accessManagementOwnerReference :: "am_lib \<Rightarrow> AccessManagement \<Rightarrow> am_error + OwnerReference" where
  "accessManagementOwnerReference lib accessMgmt =
     bindE (wrapE OwnerKindUnresolved (al_ownerGVK lib)) (\<lambda>(apiVersion, kind).
       Inr \<lparr>or_APIVersion = apiVersion, or_Kind = kind, or_Name = am_Name accessMgmt, or_UID = am_UID accessMgmt\<rparr>)"

subsection \<open>Collecting\<close>

text \<open>The objects of the system namespace by name.\<close>

definition system_map :: "Unstructured list \<Rightarrow> (string \<times> Unstructured) list" where
  "system_map objs = fold (\<lambda>ob. AList.update (ob_Name ob) ob) objs []"

definition collectGroupKindResources ::
  "am_reconciler \<Rightarrow> 'w am_api \<Rightarrow> GroupKind \<Rightarrow> OwnerReference \<Rightarrow> 'w \<Rightarrow> am_error + groupKindResources" where
  "collectGroupKindResources r api gk ownerRef w =
     bindE (wrapE (KindUnresolved gk) (al_restMapping (amr_lib r) gk)) (\<lambda>mapping.
       if \<not> rm_Namespaced mapping then Inl (ClusterScopedKindSkipped gk)
       else
         bindE (wrapE (KindListFailed gk) (d_list api (rm_Resource mapping) (amr_SystemNamespace r) w)) (\<lambda>systemList.
         bindE (wrapE (KindListFailed gk) (d_listManaged api (rm_Resource mapping) w)) (\<lambda>managedList.
           let managed = filter (\<lambda>ob. po_Namespace ob \<noteq> amr_SystemNamespace r) managedList
           in Inr \<lparr>gkr_ownerRef = ownerRef,
                   gkr_system = system_map systemList,
                   gkr_managed = managed,
                   gkr_byName = index_by (\<lambda>ob. NamespacedName (po_Namespace ob) (po_Name ob)) id managed\<rparr>)))"

subsection \<open>Creating copies\<close>

definition EnsureNamespace :: "'w am_api \<Rightarrow> string \<Rightarrow> 'w \<Rightarrow> am_error option \<times> 'w" where
  "EnsureNamespace api namespace w =
     (case d_getNamespace api namespace w of
        None \<Rightarrow> (None, w)
      | Some e \<Rightarrow>
          if e \<noteq> NotFound then (Some (EnsureNamespaceFailed namespace e), w)
          else (case d_createNamespace api namespace w of
                  (None, w') \<Rightarrow> (None, w')
                | (Some e', w') \<Rightarrow> (Some (EnsureNamespaceFailed namespace e'), w')))"

definition rewriteNamespaceIfSet ::
  "am_lib \<Rightarrow> string \<Rightarrow> string list \<Rightarrow> (string \<times> json) list \<Rightarrow> string + (string \<times> json) list" where
  "rewriteNamespaceIfSet lib newNamespace path obj =
     bindE (al_nestedString lib obj path) (\<lambda>current.
       if current = None \<or> current = Some [] then Inr obj
       else al_setNestedField lib obj newNamespace path)"

definition rewriteNamespaceIfEmpty ::
  "am_lib \<Rightarrow> string \<Rightarrow> string list \<Rightarrow> (string \<times> json) list \<Rightarrow> string + (string \<times> json) list" where
  "rewriteNamespaceIfEmpty lib sourceNamespace path obj =
     bindE (al_nestedMapFound lib obj (butlast path)) (\<lambda>parentFound.
       if \<not> parentFound then Inr obj
       else bindE (al_nestedString lib obj path) (\<lambda>current.
              if current \<noteq> None \<and> current \<noteq> Some [] then Inr obj
              else al_setNestedField lib obj sourceNamespace path))"

definition rewriteClusterTemplateChartRef ::
  "am_lib \<Rightarrow> Unstructured \<Rightarrow> (string \<times> json) list \<Rightarrow> string + (string \<times> json) list" where
  "rewriteClusterTemplateChartRef lib sourceObj obj =
     bindE (al_templateStatus lib sourceObj) (\<lambda>(valid, chartRef).
       case chartRef of
         None \<Rightarrow> Inl ''no chart reference yet''
       | Some ref \<Rightarrow>
           if \<not> valid then Inl ''no chart reference yet''
           else bindE (al_specWithChartRef lib sourceObj ref) (\<lambda>spec. Inr (AList.update ''spec'' spec obj)))"

definition applyBuiltinRewrite ::
  "am_lib \<Rightarrow> GroupKind \<Rightarrow> Unstructured \<Rightarrow> Unstructured \<Rightarrow> string + Unstructured" where
  "applyBuiltinRewrite lib gk target sourceObj =
     bindE
       (if gk = GroupKind kcm_group ''ClusterTemplate'' then rewriteClusterTemplateChartRef lib sourceObj (ob_Fields target)
        else if gk = GroupKind kcm_group ''Credential'' then
          rewriteNamespaceIfSet lib (ob_Namespace target) [''spec'', ''identityRef'', ''namespace''] (ob_Fields target)
        else if gk = GroupKind kcm_group ''ClusterAuthentication'' then
          rewriteNamespaceIfEmpty lib (ob_Namespace sourceObj) [''spec'', ''caSecret'', ''namespace''] (ob_Fields target)
        else if gk = GroupKind kcm_group ''DataSource'' then
          rewriteNamespaceIfEmpty lib (ob_Namespace sourceObj) [''spec'', ''certificateAuthority'', ''namespace''] (ob_Fields target)
        else Inr (ob_Fields target))
       (\<lambda>path. Inr (target\<lparr>ob_Fields := path\<rparr>))"

text \<open>The copy before the rewrite: metadata scrubbed, labelled and owned, status removed.\<close>

definition scrubbed_copy :: "OwnerReference \<Rightarrow> string \<Rightarrow> Unstructured \<Rightarrow> Unstructured" where
  "scrubbed_copy ownerRef targetNamespace sourceObj =
     sourceObj\<lparr>ob_Namespace := targetNamespace, ob_ResourceVersion := [], ob_UID := [], ob_Generation := 0,
       ob_OwnerReferences := [ownerRef], ob_Finalizers := [], ob_Annotations := [],
       ob_Labels := [managed_label], ob_Fields := AList.delete ''status'' (ob_Fields sourceObj)\<rparr>"

definition adopt_once ::
  "am_lib \<Rightarrow> 'w am_api \<Rightarrow> AccessManagement \<Rightarrow> Resource \<Rightarrow> ObjectKey \<Rightarrow> OwnerReference \<Rightarrow> 'w
     \<Rightarrow> (am_error + PartialObject option) \<times> 'w" where
  "adopt_once lib api accessMgmt gvr key ownerRef w =
     (case d_get api gvr key w of
        Inl e \<Rightarrow> (if e = NotFound then Inr None else Inl (CopyGetFailed gvr key e), w)
      | Inr existing \<Rightarrow>
          if \<not> is_managed (ob_Labels existing) then (Inr (Some (partialMetadata existing)), w)
          else if hasOwnerReference (ob_OwnerReferences existing) ownerRef then (Inr (Some (partialMetadata existing)), w)
          else case al_setOwnerReference lib accessMgmt (ob_OwnerReferences existing) of
                 Inl e \<Rightarrow> (Inl (SetOwnerFailed gvr key e), w)
               | Inr refs \<Rightarrow>
                   (case d_patchOwners api gvr key (ob_ResourceVersion existing) refs w of
                      (Some e, w') \<Rightarrow> (Inl (CopyPatchFailed gvr key e), w')
                    | (None, w') \<Rightarrow> (Inr (Some (partialMetadata (existing\<lparr>ob_OwnerReferences := refs\<rparr>))), w')))"

definition adoptManagedObject ::
  "am_lib \<Rightarrow> 'w am_api \<Rightarrow> AccessManagement \<Rightarrow> Resource \<Rightarrow> ObjectKey \<Rightarrow> OwnerReference \<Rightarrow> 'w
     \<Rightarrow> (am_error + PartialObject option) \<times> 'w" where
  "adoptManagedObject lib api accessMgmt gvr key ownerRef w = d_retry api (adopt_once lib api accessMgmt gvr key ownerRef) w"

definition createManagedObject ::
  "am_lib \<Rightarrow> 'w am_api \<Rightarrow> AccessManagement \<Rightarrow> GroupKind \<Rightarrow> Unstructured \<Rightarrow> string \<Rightarrow> groupKindResources \<Rightarrow> 'w
     \<Rightarrow> (am_error + bool) \<times> groupKindResources \<times> 'w" where
  "createManagedObject lib api accessMgmt gk sourceObj targetNamespace res w =
     (let name = NamespacedName targetNamespace (ob_Name sourceObj);
          settled = (case gkr_byName res name of None \<Rightarrow> False | Some existing \<Rightarrow> settled_copy existing (gkr_ownerRef res))
      in if targetNamespace = ob_Namespace sourceObj then (Inr False, res, w)
         else if settled then (Inr False, res, w)
         else
     (case EnsureNamespace api targetNamespace w of
        (Some e, w1) \<Rightarrow> (Inl e, res, w1)
      | (None, w1) \<Rightarrow>
     (case applyBuiltinRewrite lib gk (scrubbed_copy (gkr_ownerRef res) targetNamespace sourceObj) sourceObj of
        Inl e \<Rightarrow> (Inl (RewriteFailed gk e), res, w1)
      | Inr target \<Rightarrow>
     (case al_restMapping lib gk of
        Inl e \<Rightarrow> (Inl (KindUnresolved gk e), res, w1)
      | Inr mapping \<Rightarrow>
     (case d_create api (rm_Resource mapping) target w1 of
        (None, w2) \<Rightarrow> (Inr True, res\<lparr>gkr_byName := (gkr_byName res)(name \<mapsto> partialMetadata target)\<rparr>, w2)
      | (Some e, w2) \<Rightarrow>
          if e = AlreadyExists then
            (case adoptManagedObject lib api accessMgmt (rm_Resource mapping) (ob_key target) (gkr_ownerRef res) w2 of
               (Inl e', w3) \<Rightarrow> (Inl e', res, w3)
             | (Inr None, w3) \<Rightarrow> (Inr False, res, w3)
             | (Inr (Some adopted), w3) \<Rightarrow> (Inr False, res\<lparr>gkr_byName := (gkr_byName res)(name \<mapsto> adopted)\<rparr>, w3))
          else (Inl (CopyCreateFailed e), res, w2))))))"

text \<open>The loop of \<open>distribute\<close>; errors accumulate.\<close>

fun distribute ::
  "am_lib \<Rightarrow> 'w am_api \<Rightarrow> AccessManagement \<Rightarrow> GroupKind \<Rightarrow> Target list \<Rightarrow> groupKindResources \<Rightarrow> 'w
     \<Rightarrow> am_error list \<times> groupKindResources \<times> 'w" where
  "distribute lib api accessMgmt gk [] res w = ([], res, w)"
| "distribute lib api accessMgmt gk (target # desired) res w =
     (case alookup (gkr_system res) (target_Name target) of
        None \<Rightarrow>
          (case distribute lib api accessMgmt gk desired res w of
             (errs, res', w') \<Rightarrow> (SourceNotFound gk (target_Name target) # errs, res', w'))
      | Some sourceObj \<Rightarrow>
          (case createManagedObject lib api accessMgmt gk sourceObj (target_Namespace target) res w of
             (r, res1, w1) \<Rightarrow>
               (case distribute lib api accessMgmt gk desired res1 w1 of
                  (errs, res', w') \<Rightarrow> ((case r of Inl e \<Rightarrow> [e] | Inr _ \<Rightarrow> []) @ errs, res', w'))))"

subsection \<open>Cleanup\<close>

definition deleteManagedObject ::
  "am_lib \<Rightarrow> 'w am_api \<Rightarrow> GroupKind \<Rightarrow> PartialObject \<Rightarrow> 'w \<Rightarrow> (am_error + bool) \<times> 'w" where
  "deleteManagedObject lib api gk obj w =
     (case al_restMapping lib gk of
        Inl e \<Rightarrow> (Inl (KindUnresolved gk e), w)
      | Inr mapping \<Rightarrow>
          (case d_delete api (rm_Resource mapping) (ObjectKey (po_Namespace obj) (po_Name obj)) w of
             (None, w') \<Rightarrow> (Inr True, w')
           | (Some e, w') \<Rightarrow> (if e = NotFound then Inr False else Inl (CopyDeleteFailed e), w')))"

definition release_once ::
  "am_lib \<Rightarrow> 'w am_api \<Rightarrow> AccessManagement \<Rightarrow> Resource \<Rightarrow> ObjectKey \<Rightarrow> 'w \<Rightarrow> (am_error + PartialObject option) \<times> 'w" where
  "release_once lib api accessMgmt gvr key w =
     (let isOwnRef = (\<lambda>ref. IsAccessManagementOwnerReference (al_k8s lib) ref accessMgmt)
      in case d_get api gvr key w of
           Inl e \<Rightarrow> (if e = NotFound then Inr None else Inl (CopyGetFailed gvr key e), w)
         | Inr existing \<Rightarrow>
             let refs = ob_OwnerReferences existing
             in if \<not> contains_func isOwnRef refs then (Inr None, w)
                else let refs' = filter (\<lambda>ref. \<not> isOwnRef ref) refs
                     in case d_patchOwners api gvr key (ob_ResourceVersion existing) refs' w of
                          (Some e, w') \<Rightarrow> (Inl (CopyPatchFailed gvr key e), w')
                        | (None, w') \<Rightarrow> (Inr (Some (partialMetadata (existing\<lparr>ob_OwnerReferences := refs'\<rparr>))), w'))"

text \<open>\<open>released\<close> is whether the retried function returned an object.\<close>

definition releaseManagedObject ::
  "am_lib \<Rightarrow> 'w am_api \<Rightarrow> GroupKind \<Rightarrow> PartialObject \<Rightarrow> AccessManagement \<Rightarrow> 'w \<Rightarrow> (am_error + bool) \<times> 'w" where
  "releaseManagedObject lib api gk obj accessMgmt w =
     (if \<not> contains_func (\<lambda>ref. IsAccessManagementOwnerReference (al_k8s lib) ref accessMgmt) (po_OwnerReferences obj)
      then (Inr False, w)
      else case al_restMapping lib gk of
             Inl e \<Rightarrow> (Inl (KindUnresolved gk e), w)
           | Inr mapping \<Rightarrow>
               (case d_retry api (release_once lib api accessMgmt (rm_Resource mapping)
                       (ObjectKey (po_Namespace obj) (po_Name obj))) w of
                  (Inl e, w') \<Rightarrow> (Inl e, w')
                | (Inr released, w') \<Rightarrow> (Inr (released \<noteq> None), w')))"

text \<open>A loop over objects that collects the errors of a step.\<close>

fun each_object ::
  "(PartialObject \<Rightarrow> 'w \<Rightarrow> (am_error + bool) \<times> 'w) \<Rightarrow> PartialObject list \<Rightarrow> 'w \<Rightarrow> am_error list \<times> 'w" where
  "each_object step [] w = ([], w)"
| "each_object step (obj # objs) w =
     (case step obj w of
        (r, w1) \<Rightarrow>
          (case each_object step objs w1 of
             (errs, w') \<Rightarrow> ((case r of Inl e \<Rightarrow> [e] | Inr _ \<Rightarrow> []) @ errs, w')))"

definition cleanupManagedResources ::
  "am_lib \<Rightarrow> 'w am_api \<Rightarrow> AccessManagement \<Rightarrow> GroupKind \<Rightarrow> PartialObject list \<Rightarrow> PartialObject list \<Rightarrow> 'w
     \<Rightarrow> am_error list \<times> 'w" where
  "cleanupManagedResources lib api accessMgmt gk remove release w =
     (case each_object (\<lambda>obj. releaseManagedObject lib api gk obj accessMgmt) release w of
        (errs1, w1) \<Rightarrow>
          (case each_object (deleteManagedObject lib api gk) remove w1 of
             (errs2, w2) \<Rightarrow> (errs1 @ errs2, w2)))"

subsection \<open>RBAC\<close>

definition rbac_verbs :: "string list" where
  "rbac_verbs = [''get'', ''list'', ''watch'', ''create'', ''update'', ''delete'']"

text \<open>The map from groups to sets of resources, and the rules sorted by group.\<close>

definition add_resource :: "am_lib \<Rightarrow> GroupKind \<Rightarrow> (string \<times> string list) list \<Rightarrow> (string \<times> string list) list" where
  "add_resource lib gk groupToResources =
     (case al_restMapping lib gk of
        Inl _ \<Rightarrow> groupToResources
      | Inr mapping \<Rightarrow>
          if \<not> rm_Namespaced mapping then groupToResources
          else let group = res_Group (rm_Resource mapping)
               in AList.update group (add_new (res_Resource (rm_Resource mapping)) (get_or [] (alookup groupToResources) group))
                    groupToResources)"

definition buildResourceRBACRules :: "am_lib \<Rightarrow> GroupKind list \<Rightarrow> PolicyRule list" where
  "buildResourceRBACRules lib gks =
     (let groupToResources = fold (add_resource lib) gks []
      in map (\<lambda>group. \<lparr>pr_APIGroups = [group], pr_Resources = sort (get_or [] (alookup groupToResources) group), pr_Verbs = rbac_verbs\<rparr>)
           (sort (map fst groupToResources)))"

definition aggregate_label :: "string \<times> string" where
  "aggregate_label = (''k0rdent.mirantis.com/aggregate-to-manager'', ''true'')"

text \<open>The owner reference of a created ClusterRole is not part of the model of it.\<close>

definition ensureDynamicRBAC ::
  "am_lib \<Rightarrow> 'w am_api \<Rightarrow> AccessManagement \<Rightarrow> GroupKind list \<Rightarrow> 'w \<Rightarrow> am_error list \<times> 'w" where
  "ensureDynamicRBAC lib api accessMgmt gks w =
     (let rules = buildResourceRBACRules lib gks;
          name = am_Name accessMgmt @ ''-resources'';
          report = (\<lambda>r. case r of (None, w') \<Rightarrow> ([], w') | (Some e, w') \<Rightarrow> ([RBACFailed name e], w'))
      in case d_getRole api name w of
           Inl e \<Rightarrow>
             if e = NotFound then
               (if length rules = 0 then ([], w)
                else report (d_createRole api \<lparr>cr_Name = name, cr_Labels = [aggregate_label], cr_Rules = rules\<rparr> w))
             else ([RBACFailed name e], w)
         | Inr clusterRole \<Rightarrow>
             if length rules = 0 then
               (case d_deleteRole api name w of
                  (None, w') \<Rightarrow> ([], w')
                | (Some e, w') \<Rightarrow> (if e = NotFound then [] else [RBACFailed name e], w'))
             else if get_or [] (alookup (cr_Labels clusterRole)) (fst aggregate_label) = snd aggregate_label \<and> cr_Rules clusterRole = rules
             then ([], w)
             else report (d_updateRole api (clusterRole\<lparr>cr_Rules := rules,
                    cr_Labels := AList.update (fst aggregate_label) (snd aggregate_label) (cr_Labels clusterRole)\<rparr>) w))"

subsection \<open>Reconciliation\<close>

definition staleManagedGroupKinds :: "AccessManagement \<Rightarrow> GroupKind list \<Rightarrow> GroupKind list" where
  "staleManagedGroupKinds accessMgmt currentGKs =
     fold (\<lambda>status. let gk = GroupKind (rks_APIGroup status) (rks_Kind status)
                     in if gk \<in> set currentGKs then id else add_new gk) (am_StatusResources accessMgmt) []"

text \<open>One kind: its errors, the text for its status, and the state.\<close>

definition first_error :: "am_lib \<Rightarrow> am_error list \<Rightarrow> am_error list \<Rightarrow> string" where
  "first_error lib errs1 errs2 =
     (if errs1 \<noteq> [] then al_showError lib errs1 else if errs2 \<noteq> [] then al_showError lib errs2 else [])"

definition reconcile_kind ::
  "am_reconciler \<Rightarrow> 'w am_api \<Rightarrow> AccessManagement \<Rightarrow> Rule list \<Rightarrow> OwnerReference \<Rightarrow> GroupKind \<Rightarrow> 'w
     \<Rightarrow> am_error list \<times> string \<times> 'w" where
  "reconcile_kind r api accessMgmt rules ownerRef gk w =
     (let lib = amr_lib r
      in case collectGroupKindResources r api gk ownerRef w of
           Inl e \<Rightarrow>
             if e = ClusterScopedKindSkipped gk then ([], ''skipped: '' @ al_showError lib [e], w)
             else ([CollectFailed gk e], al_showError lib [e], w)
         | Inr res \<Rightarrow>
             (case PlanGroupKind (al_k8s lib) ob_Labels rules gk (gkr_system res) (gkr_managed res) accessMgmt of
                Inl e \<Rightarrow> ([PlanFailed e], al_showError lib [PlanFailed e], w)
              | Inr plan \<Rightarrow>
                  (case distribute lib api accessMgmt gk (plan_Desired plan) res w of
                     (errs1, _, w1) \<Rightarrow>
                       (case cleanupManagedResources lib api accessMgmt gk (plan_Remove plan) (plan_Release plan) w1 of
                          (errs2, w2) \<Rightarrow> (errs1 @ errs2, first_error lib errs1 errs2, w2)))))"

fun reconcile_kinds ::
  "am_reconciler \<Rightarrow> 'w am_api \<Rightarrow> AccessManagement \<Rightarrow> Rule list \<Rightarrow> OwnerReference \<Rightarrow> GroupKind list \<Rightarrow> 'w
     \<Rightarrow> am_error list \<times> (GroupKind \<times> string) list \<times> 'w" where
  "reconcile_kinds r api accessMgmt rules ownerRef [] w = ([], [], w)"
| "reconcile_kinds r api accessMgmt rules ownerRef (gk # gks) w =
     (case reconcile_kind r api accessMgmt rules ownerRef gk w of
        (errs1, msg, w1) \<Rightarrow>
          (case reconcile_kinds r api accessMgmt rules ownerRef gks w1 of
             (errs2, statuses, w2) \<Rightarrow> (errs1 @ errs2, (gk, msg) # statuses, w2)))"

definition sortedResourceStatuses :: "(GroupKind \<times> string) list \<Rightarrow> ResourceKindStatus list" where
  "sortedResourceStatuses statuses =
     map (\<lambda>(gk, msg). \<lparr>rks_APIGroup = gk_Group gk, rks_Kind = gk_Kind gk, rks_Error = msg\<rparr>)
       (sort_key (\<lambda>(gk, _). [gk_Group gk, gk_Kind gk]) statuses)"

definition reconcileObj ::
  "am_reconciler \<Rightarrow> 'w am_api \<Rightarrow> AccessManagement \<Rightarrow> 'w \<Rightarrow> am_error list \<times> AccessManagement \<times> 'w" where
  "reconcileObj r api accessMgmt w =
     (let lib = amr_lib r;
          currentGKs = ReferencedGroupKinds accessMgmt;
          staleGKs = staleManagedGroupKinds accessMgmt currentGKs
      in case ensureDynamicRBAC lib api accessMgmt (currentGKs @ staleGKs) w of
           (errs0, w1) \<Rightarrow>
             if errs0 \<noteq> [] then (errs0, accessMgmt, w1)
             else
     (case accessManagementOwnerReference lib accessMgmt of
        Inl e \<Rightarrow> ([e], accessMgmt, w1)
      | Inr ownerRef \<Rightarrow>
     (case ResolveRules (al_k8s lib) (d_listNamespaces api w1) (amr_SystemNamespace r) (am_AccessRules accessMgmt) of
        Inl e \<Rightarrow> ([PlanFailed e], accessMgmt, w1)
      | Inr rules \<Rightarrow>
     (case reconcile_kinds r api accessMgmt rules ownerRef (currentGKs @ staleGKs) w1 of
        (errs, statuses, w2) \<Rightarrow>
          let final = filter (\<lambda>(gk, msg). gk \<in> set currentGKs \<or> msg \<noteq> []) statuses;
              am' = accessMgmt\<lparr>am_StatusResources := sortedResourceStatuses final\<rparr>
          in (errs, if errs \<noteq> [] then am' else am'\<lparr>am_Current := am_AccessRules accessMgmt\<rparr>, w2)))))"

definition kcm_component :: "string \<times> string" where
  "kcm_component = (''k0rdent.mirantis.com/component'', ''kcm'')"

definition am_Reconcile :: "am_reconciler \<Rightarrow> 'w am_api \<Rightarrow> 'w \<Rightarrow> am_error list \<times> 'w" where
  "am_Reconcile r api w =
     (case d_managementDeleting api w of
        Inl e \<Rightarrow> ([AMManagementGetFailed e], w)
      | Inr True \<Rightarrow> ([], w)
      | Inr False \<Rightarrow>
     (case d_getAM api w of
        Inl e \<Rightarrow> (if e = NotFound then [] else [AMGetFailed e], w)
      | Inr accessMgmt \<Rightarrow>
          if alookup (am_Labels accessMgmt) (fst kcm_component) \<noteq> Some (snd kcm_component) then
            (case d_patchAMLabel api accessMgmt w of
               (None, w') \<Rightarrow> ([], w')
             | (Some e, w') \<Rightarrow> ([AMLabelFailed e], w'))
          else
     (case reconcileObj r api accessMgmt w of
        (errs, am', w1) \<Rightarrow>
          let am'' = am'\<lparr>am_ObservedGeneration := am_Generation accessMgmt,
                          am_Error := (if errs \<noteq> [] then al_showError (amr_lib r) errs else [])\<rparr>
          in case d_updateAMStatus api am'' w1 of
               (None, w2) \<Rightarrow> (errs, w2)
             | (Some e, w2) \<Rightarrow> (errs @ [AMStatusUpdateFailed e], w2))))"

section \<open>What the API server guarantees\<close>

text \<open>
  \<open>view\<close> reads the objects off a state. Reads return what is there; a failed write changes
  nothing; a create adds an object under a free key with the labels and owners given; a patch of
  the owners needs the resource version of the object and changes nothing but the owners and
  fields set by the server; a delete touches one key. Retrying repeats a function after conflicts
  only and returns its last result.
\<close>

type_synonym 'w object_view = "'w \<Rightarrow> Resource \<times> ObjectKey \<rightharpoonup> Unstructured"

definition get_law :: "'w am_api \<Rightarrow> 'w object_view \<Rightarrow> bool" where
  "get_law api view \<longleftrightarrow>
     (\<forall>gvr key w. (\<forall>ob. d_get api gvr key w = Inr ob \<longrightarrow> view w (gvr, key) = Some ob)
        \<and> (d_get api gvr key w = Inl NotFound \<longrightarrow> view w (gvr, key) = None))"

definition create_law :: "'w am_api \<Rightarrow> 'w object_view \<Rightarrow> bool" where
  "create_law api view \<longleftrightarrow>
     (\<forall>gvr ob w w'. d_create api gvr ob w = (None, w') \<longrightarrow>
        view w (gvr, ob_key ob) = None
        \<and> (\<exists>ob'. ob_Labels ob' = ob_Labels ob \<and> ob_OwnerReferences ob' = ob_OwnerReferences ob
              \<and> view w' = (view w)((gvr, ob_key ob) \<mapsto> ob')))
     \<and> (\<forall>gvr ob w e w'. d_create api gvr ob w = (Some e, w') \<longrightarrow>
          view w' = view w \<and> (e = AlreadyExists \<longrightarrow> view w (gvr, ob_key ob) \<noteq> None))"

definition patch_law :: "'w am_api \<Rightarrow> 'w object_view \<Rightarrow> bool" where
  "patch_law api view \<longleftrightarrow>
     (\<forall>gvr key rv refs w w'. d_patchOwners api gvr key rv refs w = (None, w') \<longrightarrow>
        (\<exists>ob ob'. view w (gvr, key) = Some ob \<and> ob_ResourceVersion ob = rv
           \<and> ob_Labels ob' = ob_Labels ob \<and> ob_OwnerReferences ob' = refs
           \<and> view w' = (view w)((gvr, key) \<mapsto> ob')))
     \<and> (\<forall>gvr key rv refs w e w'. d_patchOwners api gvr key rv refs w = (Some e, w') \<longrightarrow> view w' = view w)"

definition delete_law :: "'w am_api \<Rightarrow> 'w object_view \<Rightarrow> bool" where
  "delete_law api view \<longleftrightarrow>
     (\<forall>gvr key w e w' k. d_delete api gvr key w = (e, w') \<and> k \<noteq> (gvr, key) \<longrightarrow> view w' k = view w k)"

definition namespace_law :: "'w am_api \<Rightarrow> 'w object_view \<Rightarrow> bool" where
  "namespace_law api view \<longleftrightarrow> (\<forall>ns w e w'. d_createNamespace api ns w = (e, w') \<longrightarrow> view w' = view w)"

definition retry_law :: "'w am_api \<Rightarrow> bool" where
  "retry_law api \<longleftrightarrow>
     (\<forall>f w. \<exists>n. d_retry api f w = f (((\<lambda>x. snd (f x)) ^^ n) w)
        \<and> (\<forall>i<n. \<exists>e. fst (f (((\<lambda>x. snd (f x)) ^^ i) w)) = Inl e \<and> is_conflict e))"

definition list_law :: "'w am_api \<Rightarrow> 'w object_view \<Rightarrow> bool" where
  "list_law api view \<longleftrightarrow>
     (\<forall>gvr ns w obs. d_list api gvr ns w = Inr obs \<longrightarrow> (\<forall>ob\<in>set obs. ob_Namespace ob = ns))
     \<and> (\<forall>gvr w pos. d_listManaged api gvr w = Inr pos \<longrightarrow>
          (\<forall>po\<in>set pos. is_managed (po_Labels po)
             \<and> (\<exists>ob. view w (gvr, ObjectKey (po_Namespace po) (po_Name po)) = Some ob
                  \<and> ob_Labels ob = po_Labels po \<and> ob_OwnerReferences ob = po_OwnerReferences po)))"

definition owner_law :: "am_lib \<Rightarrow> AccessManagement \<Rightarrow> OwnerReference \<Rightarrow> bool" where
  "owner_law lib am ownerRef \<longleftrightarrow>
     (\<forall>refs refs'. al_setOwnerReference lib am refs = Inr refs' \<longrightarrow> hasOwnerReference refs' ownerRef)"

definition api_laws :: "'w am_api \<Rightarrow> 'w object_view \<Rightarrow> bool" where
  "api_laws api view \<longleftrightarrow>
     get_law api view \<and> create_law api view \<and> patch_law api view \<and> delete_law api view
     \<and> namespace_law api view \<and> retry_law api \<and> list_law api view"

lemma api_lawsD:
  assumes "api_laws api view"
  shows "get_law api view" "create_law api view" "patch_law api view" "delete_law api view"
    "namespace_law api view" "retry_law api" "list_law api view"
  using assms by (simp_all add: api_laws_def)

section \<open>Effects of the single operations\<close>

lemma EnsureNamespace_view:
  "namespace_law api view \<Longrightarrow> EnsureNamespace api ns w = (e, w') \<Longrightarrow> view w' = view w"
  by (auto simp: EnsureNamespace_def namespace_law_def split: option.splits if_splits prod.splits)

text \<open>A function that leaves the objects alone when it fails does so when it is retried.\<close>

lemma retry_view:
  assumes "retry_law api" and "\<And>w e w'. f w = (Inl e, w') \<Longrightarrow> view w' = view w"
    and "d_retry api f w = (res, w')"
  shows "\<exists>w0. view w0 = view w \<and> f w0 = (res, w')"
proof -
  from assms(1) obtain n where n: "d_retry api f w = f (((\<lambda>x. snd (f x)) ^^ n) w)"
    and failed: "\<And>i. i < n \<Longrightarrow> \<exists>e. fst (f (((\<lambda>x. snd (f x)) ^^ i) w)) = Inl e"
    unfolding retry_law_def by meson
  have "view (((\<lambda>x. snd (f x)) ^^ i) w) = view w" if "i \<le> n" for i
    using that
  proof (induction i)
    case (Suc i)
    let ?x = "((\<lambda>x. snd (f x)) ^^ i) w"
    from failed [of i] Suc.prems obtain e where "fst (f ?x) = Inl e" by auto
    then have "view (snd (f ?x)) = view ?x" using assms(2) [of ?x e "snd (f ?x)"] by (metis prod.collapse)
    with Suc show ?case by simp
  qed simp
  with n assms(3) show ?thesis by auto
qed

lemma partialMetadata_simps [simp]:
  "po_Labels (partialMetadata ob) = ob_Labels ob" "po_OwnerReferences (partialMetadata ob) = ob_OwnerReferences ob"
  "po_Namespace (partialMetadata ob) = ob_Namespace ob" "po_Name (partialMetadata ob) = ob_Name ob"
  by (simp_all add: partialMetadata_def)

text \<open>An entry of the index describes an object of the state.\<close>

definition mirrors :: "PartialObject \<Rightarrow> Unstructured \<Rightarrow> bool" where
  "mirrors po ob \<longleftrightarrow> po_Labels po = ob_Labels ob \<and> po_OwnerReferences po = ob_OwnerReferences ob"

definition adopt_effect ::
  "'w object_view \<Rightarrow> Resource \<times> ObjectKey \<Rightarrow> OwnerReference \<Rightarrow> am_error + PartialObject option \<Rightarrow> 'w \<Rightarrow> 'w \<Rightarrow> bool" where
  "adopt_effect view k ownerRef res w w' \<longleftrightarrow>
     (case res of
        Inl e \<Rightarrow> view w' = view w
      | Inr None \<Rightarrow> view w' = view w \<and> view w k = None
      | Inr (Some po) \<Rightarrow>
          (\<exists>ob ob'. view w k = Some ob \<and> view w' = (view w)(k \<mapsto> ob') \<and> mirrors po ob'
             \<and> ob_Labels ob' = ob_Labels ob \<and> settled_copy po ownerRef
             \<and> (ob' = ob \<or> is_managed (ob_Labels ob))))"

lemma adopt_once_effect:
  assumes laws: "api_laws api view" and owner: "owner_law lib am ownerRef"
    and run: "adopt_once lib api am gvr key ownerRef w = (res, w')"
  shows "adopt_effect view (gvr, key) ownerRef res w w'"
proof (cases "d_get api gvr key w")
  case (Inl e)
  with run api_lawsD(1) [OF laws] show ?thesis
    by (auto simp: adopt_once_def adopt_effect_def get_law_def split: if_splits)
next
  case (Inr ob)
  then have view: "view w (gvr, key) = Some ob" using api_lawsD(1) [OF laws] by (simp add: get_law_def)
  consider (skip) "\<not> is_managed (ob_Labels ob) \<or> hasOwnerReference (ob_OwnerReferences ob) ownerRef"
    | (set) "is_managed (ob_Labels ob)" "\<not> hasOwnerReference (ob_OwnerReferences ob) ownerRef" by blast
  then show ?thesis
  proof cases
    case skip
    with run Inr have "res = Inr (Some (partialMetadata ob))" "w' = w" by (auto simp: adopt_once_def split: if_splits)
    with view skip show ?thesis
      by (auto simp: adopt_effect_def mirrors_def settled_copy_def fun_upd_idem intro!: exI [of _ ob])
  next
    case set
    show ?thesis
    proof (cases "al_setOwnerReference lib am (ob_OwnerReferences ob)")
      case (Inl e)
      with run Inr set show ?thesis by (auto simp: adopt_once_def adopt_effect_def)
    next
      case refs: (Inr refs)
      obtain e w1 where p: "d_patchOwners api gvr key (ob_ResourceVersion ob) refs w = (e, w1)" by (metis surj_pair)
      show ?thesis
      proof (cases e)
        case (Some x)
        with run Inr set refs p api_lawsD(3) [OF laws] show ?thesis
          by (auto simp: adopt_once_def adopt_effect_def patch_law_def)
      next
        case None
        with p api_lawsD(3) [OF laws] view obtain ob' where
          "ob_Labels ob' = ob_Labels ob" "ob_OwnerReferences ob' = refs" "view w1 = (view w)((gvr, key) \<mapsto> ob')"
          unfolding patch_law_def by (metis option.inject)
        moreover have "hasOwnerReference refs ownerRef" using owner refs by (simp add: owner_law_def)
        moreover have "res = Inr (Some (partialMetadata (ob\<lparr>ob_OwnerReferences := refs\<rparr>)))" "w' = w1"
          using run Inr set refs p None by (auto simp: adopt_once_def)
        ultimately show ?thesis using view set
          by (auto simp: adopt_effect_def mirrors_def settled_copy_def intro!: exI [of _ ob'])
      qed
    qed
  qed
qed

lemma adoptManagedObject_effect:
  assumes laws: "api_laws api view" and owner: "owner_law lib am ownerRef"
    and run: "adoptManagedObject lib api am gvr key ownerRef w = (res, w')"
  shows "adopt_effect view (gvr, key) ownerRef res w w'"
proof -
  have "\<exists>w0. view w0 = view w \<and> adopt_once lib api am gvr key ownerRef w0 = (res, w')"
  proof (rule retry_view [OF api_lawsD(6) [OF laws]])
    show "view w' = view w" if "adopt_once lib api am gvr key ownerRef w = (Inl e, w')" for w e w'
      using adopt_once_effect [OF laws owner that] by (simp add: adopt_effect_def)
    show "d_retry api (adopt_once lib api am gvr key ownerRef) w = (res, w')"
      using run by (simp add: adoptManagedObject_def)
  qed
  then obtain w0 where v: "view w0 = view w" and run0: "adopt_once lib api am gvr key ownerRef w0 = (res, w')" by blast
  from adopt_once_effect [OF laws owner run0] show ?thesis unfolding adopt_effect_def v .
qed

section \<open>Distribution\<close>

text \<open>
  How a step may change the objects: none disappears, labels stay, and an object that changes is
  a managed copy that is then owned.
\<close>

definition gentle :: "'w object_view \<Rightarrow> OwnerReference \<Rightarrow> 'w \<Rightarrow> 'w \<Rightarrow> bool" where
  "gentle view ownerRef w w' \<longleftrightarrow>
     (\<forall>k ob. view w k = Some ob \<longrightarrow>
        (\<exists>ob'. view w' k = Some ob' \<and> ob_Labels ob' = ob_Labels ob
           \<and> (ob' = ob \<or> is_managed (ob_Labels ob) \<and> hasOwnerReference (ob_OwnerReferences ob') ownerRef)))"

lemma gentle_refl: "view w' = view w \<Longrightarrow> gentle view ownerRef w w'"
  by (simp add: gentle_def)

lemma gentle_trans:
  assumes "gentle view ownerRef w w1" and "gentle view ownerRef w1 w'"
  shows "gentle view ownerRef w w'"
  unfolding gentle_def
proof (intro allI impI)
  fix k ob assume "view w k = Some ob"
  with assms(1) obtain ob1 where one: "view w1 k = Some ob1" "ob_Labels ob1 = ob_Labels ob"
    "ob1 = ob \<or> is_managed (ob_Labels ob) \<and> hasOwnerReference (ob_OwnerReferences ob1) ownerRef"
    unfolding gentle_def by blast
  with assms(2) obtain ob' where "view w' k = Some ob'" "ob_Labels ob' = ob_Labels ob1"
    "ob' = ob1 \<or> is_managed (ob_Labels ob1) \<and> hasOwnerReference (ob_OwnerReferences ob') ownerRef"
    unfolding gentle_def by blast
  with one show "\<exists>ob'. view w' k = Some ob' \<and> ob_Labels ob' = ob_Labels ob
      \<and> (ob' = ob \<or> is_managed (ob_Labels ob) \<and> hasOwnerReference (ob_OwnerReferences ob') ownerRef)" by auto
qed

text \<open>A target is served: there is an object, and if it is a managed copy it is owned.\<close>

definition served :: "'w object_view \<Rightarrow> Resource \<Rightarrow> OwnerReference \<Rightarrow> 'w \<Rightarrow> Target \<Rightarrow> bool" where
  "served view gvr ownerRef w t \<longleftrightarrow>
     (\<exists>ob. view w (gvr, ObjectKey (target_Namespace t) (target_Name t)) = Some ob
        \<and> (is_managed (ob_Labels ob) \<longrightarrow> hasOwnerReference (ob_OwnerReferences ob) ownerRef))"

lemma served_gentle: "served view gvr ownerRef w t \<Longrightarrow> gentle view ownerRef w w' \<Longrightarrow> served view gvr ownerRef w' t"
  unfolding served_def gentle_def by metis

definition index_mirrors :: "'w object_view \<Rightarrow> Resource \<Rightarrow> 'w \<Rightarrow> groupKindResources \<Rightarrow> bool" where
  "index_mirrors view gvr w res \<longleftrightarrow>
     (\<forall>ns n po. CHR ''/'' \<notin> set ns \<and> gkr_byName res (NamespacedName ns n) = Some po \<longrightarrow>
        (\<exists>ob. view w (gvr, ObjectKey ns n) = Some ob \<and> mirrors po ob))"

lemma index_mirrors_upd:
  assumes "index_mirrors view gvr w res" and "CHR ''/'' \<notin> set ns"
    and "view w' = (view w)((gvr, ObjectKey ns n) \<mapsto> ob)" and "mirrors po ob"
  shows "index_mirrors view gvr w' (res\<lparr>gkr_byName := (gkr_byName res)(NamespacedName ns n \<mapsto> po)\<rparr>)"
  unfolding index_mirrors_def
proof (intro allI impI, elim conjE)
  fix ns' n' po'
  assume plain: "CHR ''/'' \<notin> set ns'"
    and look: "gkr_byName (res\<lparr>gkr_byName := (gkr_byName res)(NamespacedName ns n \<mapsto> po)\<rparr>) (NamespacedName ns' n') = Some po'"
  show "\<exists>ob. view w' (gvr, ObjectKey ns' n') = Some ob \<and> mirrors po' ob"
  proof (cases "ns' = ns \<and> n' = n")
    case True
    with look assms(3,4) show ?thesis by auto
  next
    case False
    then have "NamespacedName ns' n' \<noteq> NamespacedName ns n" using NamespacedName_inj [OF plain assms(2)] by simp
    with look have "gkr_byName res (NamespacedName ns' n') = Some po'" by simp
    with assms(1) plain have "\<exists>ob. view w (gvr, ObjectKey ns' n') = Some ob \<and> mirrors po' ob"
      unfolding index_mirrors_def by blast
    with False assms(3) show ?thesis by auto
  qed
qed

lemma applyBuiltinRewrite_meta:
  assumes "applyBuiltinRewrite lib gk target src = Inr target'"
  shows "ob_Namespace target' = ob_Namespace target" "ob_Name target' = ob_Name target"
    "ob_Labels target' = ob_Labels target" "ob_OwnerReferences target' = ob_OwnerReferences target"
proof -
  from assms obtain content where "target' = target\<lparr>ob_Fields := content\<rparr>"
    unfolding applyBuiltinRewrite_def by (auto simp: bindE_eq_Inr)
  then show "ob_Namespace target' = ob_Namespace target" "ob_Name target' = ob_Name target"
    "ob_Labels target' = ob_Labels target" "ob_OwnerReferences target' = ob_OwnerReferences target" by simp_all
qed

text \<open>What one call of \<open>createManagedObject\<close> does to the objects and to the index.\<close>

definition copy_effect ::
  "'w object_view \<Rightarrow> Resource \<Rightarrow> Target \<Rightarrow> am_error + bool \<Rightarrow> groupKindResources \<Rightarrow> 'w \<Rightarrow> groupKindResources \<Rightarrow> 'w \<Rightarrow> bool" where
  "copy_effect view gvr t r res w res' w' \<longleftrightarrow>
     gentle view (gkr_ownerRef res) w w' \<and> index_mirrors view gvr w' res'
     \<and> gkr_ownerRef res' = gkr_ownerRef res \<and> gkr_system res' = gkr_system res
     \<and> (\<forall>b. r = Inr b \<longrightarrow> served view gvr (gkr_ownerRef res) w' t)"

lemma copy_effect_fail:
  "view w' = view w \<Longrightarrow> index_mirrors view gvr w res \<Longrightarrow> copy_effect view gvr t (Inl e) res w res w'"
  by (simp add: copy_effect_def gentle_refl index_mirrors_def)

lemma copy_effect_upd:
  assumes "index_mirrors view gvr w res" and "CHR ''/'' \<notin> set ns"
    and "view w' = (view w)((gvr, ObjectKey ns n) \<mapsto> ob)" and "mirrors po ob" and "settled_copy po (gkr_ownerRef res)"
    and "\<And>old. view w (gvr, ObjectKey ns n) = Some old \<Longrightarrow>
           ob_Labels ob = ob_Labels old \<and> (ob = old \<or> is_managed (ob_Labels old))"
  shows "copy_effect view gvr (Target ns n) (Inr b) res w (res\<lparr>gkr_byName := (gkr_byName res)(NamespacedName ns n \<mapsto> po)\<rparr>) w'"
proof -
  have owned: "is_managed (ob_Labels ob) \<Longrightarrow> hasOwnerReference (ob_OwnerReferences ob) (gkr_ownerRef res)"
    using assms(4,5) by (simp add: mirrors_def settled_copy_def)
  have "gentle view (gkr_ownerRef res) w w'"
    unfolding gentle_def assms(3) using assms(6) owned by auto
  moreover have "served view gvr (gkr_ownerRef res) w' (Target ns n)"
    using assms(3) owned by (simp add: served_def)
  ultimately show ?thesis
    using index_mirrors_upd [OF assms(1-4)] by (simp add: copy_effect_def)
qed

lemma createManagedObject_effect:
  assumes laws: "api_laws api view" and owner: "owner_law lib am (gkr_ownerRef res)"
    and mapping: "al_restMapping lib gk = Inr mapping" and gvr: "rm_Resource mapping = gvr"
    and plain: "CHR ''/'' \<notin> set ns" and other: "ns \<noteq> ob_Namespace src"
    and index: "index_mirrors view gvr w res"
    and run: "createManagedObject lib api am gk src ns res w = (r, res', w')"
  shows "copy_effect view gvr (Target ns (ob_Name src)) r res w res' w'"
proof (cases "\<exists>po. gkr_byName res (NamespacedName ns (ob_Name src)) = Some po \<and> settled_copy po (gkr_ownerRef res)")
  case True
  then obtain po where po: "gkr_byName res (NamespacedName ns (ob_Name src)) = Some po" "settled_copy po (gkr_ownerRef res)" by blast
  with index plain obtain ob where "view w (gvr, ObjectKey ns (ob_Name src)) = Some ob" "mirrors po ob"
    unfolding index_mirrors_def by blast
  then have "served view gvr (gkr_ownerRef res) w (Target ns (ob_Name src))"
    using po(2) by (simp add: served_def mirrors_def settled_copy_def split: if_splits)
  moreover have "r = Inr False" "res' = res" "w' = w" using run other po by (auto simp: createManagedObject_def Let_def)
  ultimately show ?thesis using index by (simp add: copy_effect_def gentle_refl)
next
  case False
  obtain e1 w1 where ens: "EnsureNamespace api ns w = (e1, w1)" by (metis surj_pair)
  note v1 = EnsureNamespace_view [OF api_lawsD(5) [OF laws] ens]
  note step = run [unfolded createManagedObject_def Let_def ens]
  have unsettled: "\<not> (case gkr_byName res (NamespacedName ns (ob_Name src)) of None \<Rightarrow> False
      | Some existing \<Rightarrow> settled_copy existing (gkr_ownerRef res))" using False by (simp split: option.split)
  show ?thesis
  proof (cases e1)
    case (Some e)
    then have "r = Inl e" "res' = res" "w' = w1" using step unsettled other by simp_all
    then show ?thesis using copy_effect_fail [OF v1 index] by simp
  next
    case None
    let ?scrub = "scrubbed_copy (gkr_ownerRef res) ns src"
    show ?thesis
    proof (cases "applyBuiltinRewrite lib gk ?scrub src")
      case (Inl e)
      then have "r = Inl (RewriteFailed gk e)" "res' = res" "w' = w1" using step unsettled other None by simp_all
      then show ?thesis using copy_effect_fail [OF v1 index] by simp
    next
      case target: (Inr target)
      from applyBuiltinRewrite_meta [OF target] have meta: "ob_Namespace target = ns" "ob_Name target = ob_Name src"
        "ob_Labels target = [managed_label]" "ob_OwnerReferences target = [gkr_ownerRef res]"
        by (simp_all add: scrubbed_copy_def)
      obtain e2 w2 where cr: "d_create api gvr target w1 = (e2, w2)" by (metis surj_pair)
      note step = step [simplified None prod.case option.case target mapping gvr cr sum.case]
      show ?thesis
      proof (cases e2)
        case none: None
        with cr api_lawsD(2) [OF laws] meta obtain ob where free: "view w1 (gvr, ObjectKey ns (ob_Name src)) = None"
          and ob: "ob_Labels ob = ob_Labels target" "ob_OwnerReferences ob = ob_OwnerReferences target"
            "view w2 = (view w1)((gvr, ObjectKey ns (ob_Name src)) \<mapsto> ob)"
          unfolding create_law_def by metis
        have "settled_copy (partialMetadata target) (gkr_ownerRef res)"
          by (simp add: settled_copy_def hasOwnerReference_def meta)
        moreover have "r = Inr True" "w' = w2"
          "res' = res\<lparr>gkr_byName := (gkr_byName res)(NamespacedName ns (ob_Name src) \<mapsto> partialMetadata target)\<rparr>"
          using step unsettled other none by auto
        ultimately show ?thesis
          using copy_effect_upd [OF index plain, of w2 "ob_Name src" ob "partialMetadata target" True] free ob v1
          by (simp add: mirrors_def)
      next
        case (Some e)
        from cr Some api_lawsD(2) [OF laws] meta have v2: "view w2 = view w1"
          and exists: "e = AlreadyExists \<Longrightarrow> view w1 (gvr, ObjectKey ns (ob_Name src)) \<noteq> None"
          unfolding create_law_def by metis+
        show ?thesis
        proof (cases "e = AlreadyExists")
          case False
          then have "r = Inl (CopyCreateFailed e)" "res' = res" "w' = w2" using step unsettled other Some by auto
          then show ?thesis using copy_effect_fail [of view w2 w, OF _ index] v1 v2 by simp
        next
          case True
          obtain a w3 where ad: "adoptManagedObject lib api am gvr (ObjectKey ns (ob_Name src)) (gkr_ownerRef res) w2 = (a, w3)"
            by (metis surj_pair)
          note eff = adoptManagedObject_effect [OF laws owner ad]
          note step = step [simplified Some True meta ad prod.case]
          consider (err) e' where "a = Inl e'" | (gone) "a = Inr None" | (ok) po where "a = Inr (Some po)"
            by (cases a) auto
          then show ?thesis
          proof cases
            case err
            then have "r = Inl e'" "res' = res" "w' = w3" using step unsettled other by auto
            then show ?thesis using copy_effect_fail [of view w3 w, OF _ index] eff err v1 v2 by (simp add: adopt_effect_def)
          next
            case gone
            then show ?thesis using eff exists True v2 by (simp add: adopt_effect_def)
          next
            case ok
            with eff obtain old ob where ob: "view w2 (gvr, ObjectKey ns (ob_Name src)) = Some old"
              "view w3 = (view w2)((gvr, ObjectKey ns (ob_Name src)) \<mapsto> ob)" "mirrors po ob"
              "ob_Labels ob = ob_Labels old" "settled_copy po (gkr_ownerRef res)" "ob = old \<or> is_managed (ob_Labels old)"
              by (auto simp: adopt_effect_def)
            moreover have "r = Inr False" "w' = w3"
              "res' = res\<lparr>gkr_byName := (gkr_byName res)(NamespacedName ns (ob_Name src) \<mapsto> po)\<rparr>"
              using step unsettled other ok by auto
            ultimately show ?thesis
              using copy_effect_upd [OF index plain, of w3 "ob_Name src" ob po False] v1 v2 by simp
          qed
        qed
      qed
    qed
  qed
qed

definition system_ok :: "string \<Rightarrow> groupKindResources \<Rightarrow> bool" where
  "system_ok sys res \<longleftrightarrow> (\<forall>n ob. alookup (gkr_system res) n = Some ob \<longrightarrow> ob_Name ob = n \<and> ob_Namespace ob = sys)"

lemma distribute_effect:
  assumes laws: "api_laws api view" and mapping: "al_restMapping lib gk = Inr mapping" "rm_Resource mapping = gvr"
    and "owner_law lib am (gkr_ownerRef res)" and "system_ok sys res" and "index_mirrors view gvr w res"
    and "\<forall>t\<in>set desired. CHR ''/'' \<notin> set (target_Namespace t) \<and> target_Namespace t \<noteq> sys"
    and "distribute lib api am gk desired res w = (errs, res', w')"
  shows "gentle view (gkr_ownerRef res) w w'
         \<and> (errs = [] \<longrightarrow> (\<forall>t\<in>set desired. served view gvr (gkr_ownerRef res) w' t))"
  using assms(4-)
proof (induction desired arbitrary: res w errs res' w')
  case Nil
  then show ?case by (simp add: gentle_refl)
next
  case (Cons t ts)
  show ?case
  proof (cases "alookup (gkr_system res) (target_Name t)")
    case None
    obtain es r1 w1 where rest: "distribute lib api am gk ts res w = (es, r1, w1)" by (metis prod_cases3)
    with Cons.prems(5) None have "errs \<noteq> []" "w' = w1" by auto
    with Cons.IH [OF Cons.prems(1-3) _ rest] Cons.prems(4) show ?thesis by simp
  next
    case (Some src)
    obtain r res1 w1 where one: "createManagedObject lib api am gk src (target_Namespace t) res w = (r, res1, w1)"
      by (metis prod_cases3)
    obtain es r2 w2 where rest: "distribute lib api am gk ts res1 w1 = (es, r2, w2)" by (metis prod_cases3)
    have w': "w' = w2" and errs: "errs = (case r of Inl e \<Rightarrow> [e] | Inr _ \<Rightarrow> []) @ es"
      using Cons.prems(5) Some one rest by simp_all
    have src: "ob_Name src = target_Name t" "ob_Namespace src = sys" using Cons.prems(2) Some by (auto simp: system_ok_def)
    have t: "CHR ''/'' \<notin> set (target_Namespace t)" "target_Namespace t \<noteq> ob_Namespace src" using Cons.prems(4) src by simp_all
    note eff = createManagedObject_effect [OF laws Cons.prems(1) mapping t Cons.prems(3) one, unfolded src(1) copy_effect_def]
    have "system_ok sys res1" "owner_law lib am (gkr_ownerRef res1)" using eff Cons.prems(1,2) by (simp_all add: system_ok_def)
    note IH = Cons.IH [OF this(2,1) _ _ rest]
    from eff IH Cons.prems(4) have g: "gentle view (gkr_ownerRef res) w1 w2"
      and s: "es = [] \<longrightarrow> (\<forall>t\<in>set ts. served view gvr (gkr_ownerRef res) w2 t)" by (auto simp: w')
    have "gentle view (gkr_ownerRef res) w w2" using eff g by (blast intro: gentle_trans)
    moreover have "served view gvr (gkr_ownerRef res) w2 t" if "errs = []"
    proof -
      from that errs obtain b where "r = Inr b" by (cases r) auto
      with eff have "served view gvr (gkr_ownerRef res) w1 t" by simp
      then show ?thesis by (rule served_gentle) (rule g)
    qed
    ultimately show ?thesis using s errs by (auto simp: w')
  qed
qed

section \<open>Cleanup touches only its objects\<close>

definition only_touches :: "'w object_view \<Rightarrow> (Resource \<times> ObjectKey) set \<Rightarrow> 'w \<Rightarrow> 'w \<Rightarrow> bool" where
  "only_touches view K w w' \<longleftrightarrow> (\<forall>k. k \<notin> K \<longrightarrow> view w' k = view w k)"

lemma release_once_touches:
  assumes "patch_law api view" and "release_once lib api am gvr key w = (res, w')"
  shows "only_touches view {(gvr, key)} w w'" and "res = Inl e \<Longrightarrow> view w' = view w"
proof -
  have "view w' = view w \<or> (\<exists>ob. view w' = (view w)((gvr, key) \<mapsto> ob) \<and> (\<exists>po. res = Inr po))"
    using assms
    by (auto simp: release_once_def Let_def patch_law_def split: sum.splits if_splits prod.splits option.splits) metis
  then show "only_touches view {(gvr, key)} w w'" "res = Inl e \<Longrightarrow> view w' = view w"
    by (auto simp: only_touches_def)
qed

lemma releaseManagedObject_touches:
  assumes laws: "api_laws api view" and mapping: "al_restMapping lib gk = Inr mapping" "rm_Resource mapping = gvr"
    and run: "releaseManagedObject lib api gk po am w = (r, w')"
  shows "only_touches view {(gvr, ObjectKey (po_Namespace po) (po_Name po))} w w'"
proof -
  let ?key = "ObjectKey (po_Namespace po) (po_Name po)"
  let ?f = "release_once lib api am gvr ?key"
  obtain res w1 where retry: "d_retry api ?f w = (res, w1)" by (metis surj_pair)
  note patch = api_lawsD(3) [OF laws]
  have "\<exists>w0. view w0 = view w \<and> ?f w0 = (res, w1)"
    by (rule retry_view [OF api_lawsD(6) [OF laws] _ retry]) (rule release_once_touches(2) [OF patch], assumption, rule refl)
  then obtain w0 where "view w0 = view w" "?f w0 = (res, w1)" by blast
  with release_once_touches(1) [OF patch] have "only_touches view {(gvr, ?key)} w w1" by (metis only_touches_def)
  moreover have "w' = w \<or> w' = w1" using run mapping retry
    by (auto simp: releaseManagedObject_def split: if_splits sum.splits prod.splits)
  ultimately show ?thesis by (auto simp: only_touches_def)
qed

lemma deleteManagedObject_touches:
  assumes "api_laws api view" and "al_restMapping lib gk = Inr mapping" "rm_Resource mapping = gvr"
    and "deleteManagedObject lib api gk po w = (r, w')"
  shows "only_touches view {(gvr, ObjectKey (po_Namespace po) (po_Name po))} w w'"
  using assms api_lawsD(4) [OF assms(1)]
  by (auto simp: deleteManagedObject_def only_touches_def delete_law_def split: prod.splits option.splits)

lemma each_object_touches:
  assumes "\<And>po w r w'. step po w = (r, w') \<Longrightarrow> only_touches view {key po} w w'"
    and "each_object step objs w = (errs, w')"
  shows "only_touches view (key ` set objs) w w'"
  using assms(2)
proof (induction objs arbitrary: w errs w')
  case Nil
  then show ?case by (simp add: only_touches_def)
next
  case (Cons po objs)
  obtain r w1 where one: "step po w = (r, w1)" by (metis surj_pair)
  obtain es w2 where rest: "each_object step objs w1 = (es, w2)" by (metis surj_pair)
  have "w' = w2" using Cons.prems one rest by simp
  with assms(1) [OF one] Cons.IH [OF rest] show ?case by (simp add: only_touches_def)
qed

lemma cleanupManagedResources_touches:
  assumes laws: "api_laws api view" and mapping: "al_restMapping lib gk = Inr mapping" "rm_Resource mapping = gvr"
    and run: "cleanupManagedResources lib api am gk remove release w = (errs, w')"
  shows "only_touches view ((\<lambda>po. (gvr, ObjectKey (po_Namespace po) (po_Name po))) ` (set remove \<union> set release)) w w'"
proof -
  obtain e1 w1 where rel: "each_object (\<lambda>obj. releaseManagedObject lib api gk obj am) release w = (e1, w1)" by (metis surj_pair)
  obtain e2 w2 where del: "each_object (deleteManagedObject lib api gk) remove w1 = (e2, w2)" by (metis surj_pair)
  let ?key = "\<lambda>po. (gvr, ObjectKey (po_Namespace po) (po_Name po))"
  have "only_touches view (?key ` set release) w w1"
    by (rule each_object_touches [OF _ rel]) (rule releaseManagedObject_touches [OF laws mapping])
  moreover have "only_touches view (?key ` set remove) w1 w2"
    by (rule each_object_touches [OF _ del]) (rule deleteManagedObject_touches [OF laws mapping])
  moreover have "w' = w2" using run rel del by (simp add: cleanupManagedResources_def)
  ultimately show ?thesis by (simp add: only_touches_def image_Un)
qed

section \<open>Reconciling a kind\<close>

lemma alookup_fold_entries:
  "alookup (fold (\<lambda>ob. AList.update (f ob) ob) xs al) n = Some x \<Longrightarrow> (x \<in> set xs \<and> f x = n) \<or> alookup al n = Some x"
proof (induction xs arbitrary: al)
  case (Cons a xs)
  have "(x \<in> set xs \<and> f x = n) \<or> alookup (AList.update (f a) a al) n = Some x"
    by (rule Cons.IH) (use Cons.prems in simp)
  then show ?case by (auto split: if_splits)
qed simp

lemma system_map_lookup: "alookup (system_map objs) n = Some ob \<Longrightarrow> ob \<in> set objs \<and> ob_Name ob = n"
  using alookup_fold_entries [of ob_Name objs "[]" n ob] by (simp add: system_map_def)

lemma collect_ok:
  assumes laws: "api_laws api view" and mapping: "al_restMapping (amr_lib r) gk = Inr mapping" "rm_Resource mapping = gvr"
    and run: "collectGroupKindResources r api gk ownerRef w = Inr res"
    and plain: "\<forall>po\<in>set (gkr_managed res). CHR ''/'' \<notin> set (po_Namespace po)"
  shows "system_ok (amr_SystemNamespace r) res" "index_mirrors view gvr w res" "gkr_ownerRef res = ownerRef"
    "\<forall>po\<in>set (gkr_managed res). \<exists>ob. view w (gvr, ObjectKey (po_Namespace po) (po_Name po)) = Some ob \<and> is_managed (ob_Labels ob)"
    "\<exists>objs. d_list api gvr (amr_SystemNamespace r) w = Inr objs \<and> gkr_system res = system_map objs"
    "\<exists>pos. d_listManaged api gvr w = Inr pos \<and> set (gkr_managed res) \<subseteq> set pos"
proof -
  from run mapping obtain objs pos where objs: "d_list api gvr (amr_SystemNamespace r) w = Inr objs"
    and pos: "d_listManaged api gvr w = Inr pos"
    and res: "res = \<lparr>gkr_ownerRef = ownerRef, gkr_system = system_map objs,
        gkr_managed = filter (\<lambda>ob. po_Namespace ob \<noteq> amr_SystemNamespace r) pos,
        gkr_byName = index_by (\<lambda>ob. NamespacedName (po_Namespace ob) (po_Name ob)) id
          (filter (\<lambda>ob. po_Namespace ob \<noteq> amr_SystemNamespace r) pos)\<rparr>"
    by (auto simp: collectGroupKindResources_def result_simps Let_def split: if_splits)
  have listed: "\<exists>ob. view w (gvr, ObjectKey (po_Namespace po) (po_Name po)) = Some ob \<and> mirrors po ob \<and> is_managed (ob_Labels ob)"
    if "po \<in> set (gkr_managed res)" for po
    using that pos api_lawsD(7) [OF laws] by (auto simp: res list_law_def mirrors_def) metis
  show "system_ok (amr_SystemNamespace r) res"
    using system_map_lookup objs api_lawsD(7) [OF laws] by (auto simp: system_ok_def res list_law_def)
  show "index_mirrors view gvr w res"
    unfolding index_mirrors_def
  proof (intro allI impI, elim conjE)
    fix ns n po assume ns: "CHR ''/'' \<notin> set ns" and look: "gkr_byName res (NamespacedName ns n) = Some po"
    then have "po \<in> set (gkr_managed res)" "NamespacedName (po_Namespace po) (po_Name po) = NamespacedName ns n"
      by (auto simp: res dest: index_by_Some_ex)
    moreover from this have "po_Namespace po = ns \<and> po_Name po = n" using NamespacedName_inj [OF _ ns] plain by blast
    ultimately show "\<exists>ob. view w (gvr, ObjectKey ns n) = Some ob \<and> mirrors po ob" using listed [of po] by auto
  qed
  show "gkr_ownerRef res = ownerRef" by (simp add: res)
  show "\<forall>po\<in>set (gkr_managed res). \<exists>ob. view w (gvr, ObjectKey (po_Namespace po) (po_Name po)) = Some ob \<and> is_managed (ob_Labels ob)"
    using listed by blast
  show "\<exists>objs. d_list api gvr (amr_SystemNamespace r) w = Inr objs \<and> gkr_system res = system_map objs" using objs by (simp add: res)
  show "\<exists>pos. d_listManaged api gvr w = Inr pos \<and> set (gkr_managed res) \<subseteq> set pos" using pos by (auto simp: res)
qed

lemma reconcile_kind_run:
  assumes "collectGroupKindResources r api gk ownerRef w = Inr res"
    and "reconcile_kind r api am rules ownerRef gk w = (errs, msg, w')"
  shows "(\<exists>e. PlanGroupKind (al_k8s (amr_lib r)) ob_Labels rules gk (gkr_system res) (gkr_managed res) am = Inl e
            \<and> w' = w \<and> errs \<noteq> [])
         \<or> (\<exists>plan errs1 res1 w1 errs2.
              PlanGroupKind (al_k8s (amr_lib r)) ob_Labels rules gk (gkr_system res) (gkr_managed res) am = Inr plan
              \<and> distribute (amr_lib r) api am gk (plan_Desired plan) res w = (errs1, res1, w1)
              \<and> cleanupManagedResources (amr_lib r) api am gk (plan_Remove plan) (plan_Release plan) w1 = (errs2, w')
              \<and> errs = errs1 @ errs2)"
  using assms by (auto simp: reconcile_kind_def Let_def split: sum.splits prod.splits)

text \<open>
  The hypotheses of a run for one kind: the kind resolves to a namespaced resource, names are
  plain, and no rule targets the system namespace, which \<open>TargetNamespaces\<close> excludes.
\<close>

definition kind_run ::
  "am_reconciler \<Rightarrow> 'w am_api \<Rightarrow> 'w object_view \<Rightarrow> AccessManagement \<Rightarrow> Rule list \<Rightarrow> OwnerReference \<Rightarrow> GroupKind \<Rightarrow> Resource \<Rightarrow> 'w \<Rightarrow> bool" where
  "kind_run r api view am rules ownerRef gk gvr w \<longleftrightarrow>
     api_laws api view \<and> owner_law (amr_lib r) am ownerRef
     \<and> al_restMapping (amr_lib r) gk = Inr \<lparr>rm_Resource = gvr, rm_Namespaced = True\<rparr>
     \<and> (\<forall>pos. d_listManaged api gvr w = Inr pos \<longrightarrow> plain_names rules pos)
     \<and> (\<forall>rule\<in>set rules. amr_SystemNamespace r \<notin> set (rule_Namespaces rule))"

lemma kind_run_effect:
  assumes kr: "kind_run r api view am rules ownerRef gk gvr w"
    and col: "collectGroupKindResources r api gk ownerRef w = Inr res"
    and plan: "PlanGroupKind (al_k8s (amr_lib r)) ob_Labels rules gk (gkr_system res) (gkr_managed res) am = Inr plan"
    and dist: "distribute (amr_lib r) api am gk (plan_Desired plan) res w = (errs1, res1, w1)"
    and clean: "cleanupManagedResources (amr_lib r) api am gk (plan_Remove plan) (plan_Release plan) w1 = (errs2, w')"
  shows "gentle view ownerRef w w1"
    and "errs1 = [] \<Longrightarrow> wanted (al_k8s (amr_lib r)) ob_Labels rules gk (gkr_system res) t \<Longrightarrow> served view gvr ownerRef w' t"
    and "view w1 k = Some ob \<Longrightarrow> \<not> is_managed (ob_Labels ob) \<Longrightarrow> view w' k = Some ob"
proof -
  let ?lib = "amr_lib r" and ?key = "\<lambda>po. (gvr, ObjectKey (po_Namespace po) (po_Name po))"
  let ?w = "wanted (al_k8s ?lib) ob_Labels rules gk (gkr_system res)"
  from kr have laws: "api_laws api view" and owner: "owner_law ?lib am ownerRef"
    and mapping: "al_restMapping ?lib gk = Inr \<lparr>rm_Resource = gvr, rm_Namespaced = True\<rparr>"
      "rm_Resource \<lparr>rm_Resource = gvr, rm_Namespaced = True\<rparr> = gvr"
    and sys: "\<forall>rule\<in>set rules. amr_SystemNamespace r \<notin> set (rule_Namespaces rule)"
    by (simp_all add: kind_run_def)
  have pn: "plain_names rules (gkr_managed res)"
  proof -
    from col mapping obtain pos where "d_listManaged api gvr w = Inr pos" "set (gkr_managed res) \<subseteq> set pos"
      by (auto simp: collectGroupKindResources_def result_simps Let_def)
    with kr show ?thesis unfolding kind_run_def plain_names_def by blast
  qed
  then have plain: "\<forall>po\<in>set (gkr_managed res). CHR ''/'' \<notin> set (po_Namespace po)" by (simp add: plain_names_def)
  note c = collect_ok [OF laws mapping col plain]
  note p = PlanGroupKind_spec [OF plan pn]
  have ts: "\<forall>t\<in>set (plan_Desired plan). CHR ''/'' \<notin> set (target_Namespace t) \<and> target_Namespace t \<noteq> amr_SystemNamespace r"
    using p(2) pn sys by (auto simp: wanted_def plain_names_def)
  have "owner_law ?lib am (gkr_ownerRef res)" using owner c(3) by simp
  note d = distribute_effect [OF laws mapping this c(1,2) ts dist, unfolded c(3)]
  show g: "gentle view ownerRef w w1" using d by blast
  note touch = cleanupManagedResources_touches [OF laws mapping clean]
  show "served view gvr ownerRef w' t" if "errs1 = []" "?w t"
  proof -
    have "served view gvr ownerRef w1 t" using d that p(2) by simp
    moreover have "(gvr, ObjectKey (target_Namespace t) (target_Name t)) \<notin> ?key ` (set (plan_Remove plan) \<union> set (plan_Release plan))"
      using that(2) by (cases t) (auto simp: p(3,4))
    ultimately show ?thesis using touch by (simp add: served_def only_touches_def)
  qed
  show "view w' k = Some ob" if k: "view w1 k = Some ob" "\<not> is_managed (ob_Labels ob)"
  proof -
    have "k \<notin> ?key ` (set (plan_Remove plan) \<union> set (plan_Release plan))"
    proof
      assume "k \<in> ?key ` (set (plan_Remove plan) \<union> set (plan_Release plan))"
      then obtain po where "po \<in> set (gkr_managed res)" "k = ?key po" by (auto simp: p(3,4))
      with c(4) obtain ob0 where ob0: "view w k = Some ob0" "is_managed (ob_Labels ob0)" by auto
      from g [unfolded gentle_def, rule_format, OF ob0(1)] k ob0(2) show False by auto
    qed
    then have "view w' k = view w1 k" by (rule touch [unfolded only_touches_def, rule_format])
    with k show ?thesis by simp
  qed
qed

text \<open>
  C12: reconciling a kind never touches an object that is not a managed copy, whatever errors occur:
  an object of the same name blocks distribution and stays as it is.
\<close>

theorem reconcile_kind_leaves_unmanaged:
  assumes "kind_run r api view am rules ownerRef gk gvr w"
    and "reconcile_kind r api am rules ownerRef gk w = (errs, msg, w')"
    and "view w k = Some ob" and "\<not> is_managed (ob_Labels ob)"
  shows "view w' k = Some ob"
proof (cases "collectGroupKindResources r api gk ownerRef w")
  case (Inl e)
  with assms(2,3) show ?thesis by (auto simp: reconcile_kind_def Let_def split: if_splits)
next
  case (Inr res)
  from reconcile_kind_run [OF Inr assms(2)] show ?thesis
  proof (elim disjE exE conjE)
    assume "w' = w"
    with assms(3) show ?thesis by simp
  next
    fix plan errs1 res1 w1 errs2
    assume steps: "PlanGroupKind (al_k8s (amr_lib r)) ob_Labels rules gk (gkr_system res) (gkr_managed res) am = Inr plan"
      "distribute (amr_lib r) api am gk (plan_Desired plan) res w = (errs1, res1, w1)"
      "cleanupManagedResources (amr_lib r) api am gk (plan_Remove plan) (plan_Release plan) w1 = (errs2, w')"
    note eff = kind_run_effect [OF assms(1) Inr steps]
    from eff(1) [unfolded gentle_def, rule_format, OF assms(3)] assms(4) have "view w1 k = Some ob" by auto
    then show ?thesis using assms(4) by (rule eff(3))
  qed
qed

text \<open>
  C11: a reconciliation of a kind that reports no error has served every copy the rules want: in
  every target namespace there is an object of that name, and if it is a managed copy it is owned
  by the AccessManagement, so that it is garbage collected with it.
\<close>

theorem reconcile_kind_serves:
  assumes "kind_run r api view am rules ownerRef gk gvr w"
    and "reconcile_kind r api am rules ownerRef gk w = ([], msg, w')"
  shows "\<exists>objs. d_list api gvr (amr_SystemNamespace r) w = Inr objs
           \<and> (\<forall>t. wanted (al_k8s (amr_lib r)) ob_Labels rules gk (system_map objs) t \<longrightarrow> served view gvr ownerRef w' t)"
proof -
  let ?m = "\<lparr>rm_Resource = gvr, rm_Namespaced = True\<rparr>"
  from assms(1) have mapping: "al_restMapping (amr_lib r) gk = Inr ?m" by (simp add: kind_run_def)
  have "\<exists>res. collectGroupKindResources r api gk ownerRef w = Inr res"
  proof (cases "collectGroupKindResources r api gk ownerRef w")
    case (Inl e)
    then have "e \<noteq> ClusterScopedKindSkipped gk"
      using mapping by (auto simp: collectGroupKindResources_def result_simps Let_def)
    with Inl assms(2) show ?thesis by (simp add: reconcile_kind_def)
  qed simp
  then obtain res where res: "collectGroupKindResources r api gk ownerRef w = Inr res" by blast
  then obtain objs where objs: "d_list api gvr (amr_SystemNamespace r) w = Inr objs" "gkr_system res = system_map objs"
    using mapping by (auto simp: collectGroupKindResources_def result_simps Let_def)
  from reconcile_kind_run [OF res assms(2)] obtain plan errs1 res1 w1 errs2 where
    steps: "PlanGroupKind (al_k8s (amr_lib r)) ob_Labels rules gk (gkr_system res) (gkr_managed res) am = Inr plan"
      "distribute (amr_lib r) api am gk (plan_Desired plan) res w = (errs1, res1, w1)"
      "cleanupManagedResources (amr_lib r) api am gk (plan_Remove plan) (plan_Release plan) w1 = (errs2, w')"
    and "[] = errs1 @ errs2" by blast
  then have "errs1 = []" by simp
  from kind_run_effect(2) [OF assms(1) res steps this] objs show ?thesis by auto
qed

section \<open>RBAC rules\<close>

definition grants :: "PolicyRule list \<Rightarrow> string \<Rightarrow> string \<Rightarrow> string \<Rightarrow> bool" where
  "grants rules grp resource verb \<longleftrightarrow>
     (\<exists>rule\<in>set rules. grp \<in> set (pr_APIGroups rule) \<and> resource \<in> set (pr_Resources rule) \<and> verb \<in> set (pr_Verbs rule))"

definition resolves :: "am_lib \<Rightarrow> GroupKind \<Rightarrow> string \<Rightarrow> string \<Rightarrow> bool" where
  "resolves lib gk grp resource \<longleftrightarrow>
     (\<exists>m. al_restMapping lib gk = Inr m \<and> rm_Namespaced m \<and> rm_Resource m = Resource grp resource)"

lemma Resource_eq_iff: "x = Resource g r \<longleftrightarrow> res_Group x = g \<and> res_Resource x = r"
  by (cases x) simp

lemma fold_add_resource:
  "resource \<in> set (get_or [] (alookup (fold (add_resource lib) gks al)) grp) \<longleftrightarrow>
     resource \<in> set (get_or [] (alookup al) grp) \<or> (\<exists>gk\<in>set gks. resolves lib gk grp resource)"
proof (induction gks arbitrary: al)
  case (Cons gk gks)
  have "resource \<in> set (get_or [] (alookup (add_resource lib gk al)) grp) \<longleftrightarrow>
      resource \<in> set (get_or [] (alookup al) grp) \<or> resolves lib gk grp resource"
    by (cases "al_restMapping lib gk")
      (auto simp: add_resource_def resolves_def Let_def get_or_def Resource_eq_iff split: option.splits)
  with Cons show ?case by auto
qed simp

lemma keys_fold_add_resource:
  "get_or [] (alookup al) grp \<noteq> [] \<Longrightarrow> grp \<in> fst ` set al"
  by (auto simp: get_or_def alookup_None split: option.splits) (metis alookup_None option.distinct(1))

text \<open>
  The rules grant exactly the six verbs, and exactly on the resources that a kind of the list
  resolves to as namespaced; a kind that does not resolve or is cluster-scoped grants nothing. In
  particular no rule grants patch, which adoption and release use.
\<close>

theorem buildResourceRBACRules_grants:
  "grants (buildResourceRBACRules lib gks) grp resource verb \<longleftrightarrow>
     verb \<in> set [''get'', ''list'', ''watch'', ''create'', ''update'', ''delete''] \<and> (\<exists>gk\<in>set gks. resolves lib gk grp resource)"
proof -
  let ?al = "fold (add_resource lib) gks []"
  have "grants (buildResourceRBACRules lib gks) grp resource verb \<longleftrightarrow>
      verb \<in> set rbac_verbs \<and> grp \<in> fst ` set ?al \<and> resource \<in> set (get_or [] (alookup ?al) grp)"
    by (auto simp: grants_def buildResourceRBACRules_def Let_def)
  also have "\<dots> \<longleftrightarrow> verb \<in> set rbac_verbs \<and> resource \<in> set (get_or [] (alookup ?al) grp)"
    by (auto intro!: keys_fold_add_resource)
  finally show ?thesis by (simp add: fold_add_resource rbac_verbs_def)
qed

section \<open>Kinds are not forgotten\<close>

lemma reconcile_kinds_statuses:
  "reconcile_kinds r api am rules ownerRef gks w = (errs, statuses, w') \<Longrightarrow> map fst statuses = gks"
  by (induction gks arbitrary: w errs statuses w') (auto split: prod.splits)

lemma set_staleManagedGroupKinds:
  "gk \<in> set (staleManagedGroupKinds am cur) \<longleftrightarrow>
     gk \<notin> set cur \<and> (\<exists>s\<in>set (am_StatusResources am). gk = GroupKind (rks_APIGroup s) (rks_Kind s))"
proof -
  have "gk \<in> set (fold (\<lambda>status. let gk = GroupKind (rks_APIGroup status) (rks_Kind status)
             in if gk \<in> set cur then id else add_new gk) ss acc) \<longleftrightarrow>
      gk \<in> set acc \<or> gk \<notin> set cur \<and> (\<exists>s\<in>set ss. gk = GroupKind (rks_APIGroup s) (rks_Kind s))" for ss acc
    by (induction ss arbitrary: acc) (auto simp: Let_def)
  from this [of "am_StatusResources am" "[]"] show ?thesis by (simp add: staleManagedGroupKinds_def)
qed

lemma tracks_iff:
  "TracksGroupKind am gk \<longleftrightarrow>
     gk \<in> set (ReferencedGroupKinds am) \<or> (\<exists>s\<in>set (am_StatusResources am). gk = GroupKind (rks_APIGroup s) (rks_Kind s))"
  by (cases gk) (auto simp: TracksGroupKind_def)

lemma referenced_status [simp]:
  "ReferencedGroupKinds (am\<lparr>am_StatusResources := x\<rparr>) = ReferencedGroupKinds am"
  "ReferencedGroupKinds (am\<lparr>am_Current := y\<rparr>) = ReferencedGroupKinds am"
  by (simp_all add: ReferencedGroupKinds_def)

lemma sortedResourceStatuses_kinds:
  "(\<exists>s\<in>set (sortedResourceStatuses statuses). gk = GroupKind (rks_APIGroup s) (rks_Kind s) \<and> rks_Error s = msg)
     \<longleftrightarrow> (gk, msg) \<in> set statuses"
  by (cases gk) (auto simp: sortedResourceStatuses_def intro!: bexI)

text \<open>
  A kind that is tracked before a reconciliation, because a rule refers to it or copies of it
  are still recorded, is processed by it, and stays tracked afterwards unless no rule refers to it
  and it was processed without an error: copies of a kind dropped from all rules are never
  orphaned by a failed cleanup.
\<close>

theorem reconcileObj_keeps_tracking:
  assumes "reconcileObj r api am w = (errs, am', w')"
    and "TracksGroupKind am gk" and "\<not> TracksGroupKind am' gk"
  shows "gk \<notin> set (ReferencedGroupKinds am)
         \<and> (\<exists>rules ownerRef w1 errs1 statuses w2.
              reconcile_kinds r api am rules ownerRef
                (ReferencedGroupKinds am @ staleManagedGroupKinds am (ReferencedGroupKinds am)) w1 = (errs1, statuses, w2)
              \<and> alookup statuses gk = Some [])"
proof -
  let ?cur = "ReferencedGroupKinds am"
  let ?gks = "?cur @ staleManagedGroupKinds am ?cur"
  obtain e0 w1 where rbac: "ensureDynamicRBAC (amr_lib r) api am ?gks w = (e0, w1)" by (metis surj_pair)
  have ne: "am' \<noteq> am" using assms(2,3) by auto
  then have e0: "e0 = []" using assms(1) rbac by (auto simp: reconcileObj_def Let_def split: if_splits)
  from ne assms(1) rbac e0 obtain ownerRef where owner: "accessManagementOwnerReference (amr_lib r) am = Inr ownerRef"
    by (auto simp: reconcileObj_def Let_def split: sum.splits)
  from ne assms(1) rbac e0 owner obtain rules where
    rules: "ResolveRules (al_k8s (amr_lib r)) (d_listNamespaces api w1) (amr_SystemNamespace r) (am_AccessRules am) = Inr rules"
    by (auto simp: reconcileObj_def Let_def split: sum.splits)
  obtain es statuses w2 where run: "reconcile_kinds r api am rules ownerRef ?gks w1 = (es, statuses, w2)" by (metis prod_cases3)
  let ?final = "filter (\<lambda>(gk, msg). gk \<in> set ?cur \<or> msg \<noteq> []) statuses"
  have status: "am_StatusResources am' = sortedResourceStatuses ?final" "ReferencedGroupKinds am' = ?cur"
    using assms(1) rbac e0 owner rules run by (auto simp: reconcileObj_def Let_def)
  have gk: "gk \<notin> set ?cur" "gk \<in> set ?gks"
    using assms(2,3) by (auto simp: tracks_iff status set_staleManagedGroupKinds)
  note fsts = reconcile_kinds_statuses [OF run]
  have "gk \<in> fst ` set statuses" using gk(2) arg_cong [OF fsts, of set] by simp
  then obtain msg where msg: "alookup statuses gk = Some msg" by (meson alookup_None not_None_eq)
  then have "(gk, msg) \<in> set statuses" unfolding alookup_def by (rule map_of_SomeD)
  moreover have "(gk, msg) \<notin> set ?final"
    using assms(3) sortedResourceStatuses_kinds [of ?final gk msg] by (auto simp: tracks_iff status(1))
  ultimately have "msg = []" using gk(1) by auto
  with gk run msg show ?thesis by blast
qed

section \<open>Concrete runs\<close>

text \<open>An API server whose state is the map of its objects.\<close>

type_synonym example_store = "Resource \<times> ObjectKey \<rightharpoonup> Unstructured"

definition example_object :: "string \<Rightarrow> (string \<times> string) list \<Rightarrow> Unstructured" where
  "example_object ns labels = \<lparr>ob_Namespace = ns, ob_Name = ''cred'', ob_UID = ''u'', ob_ResourceVersion = ''7'', ob_Generation = 1,
     ob_Labels = labels, ob_Annotations = [], ob_Finalizers = [], ob_OwnerReferences = [], ob_Fields = []\<rparr>"

definition example_am_api :: "AccessManagement \<Rightarrow> example_store am_api" where
  "example_am_api am = \<lparr>d_list = (\<lambda>_ ns _. Inr [example_object ns []]), d_listManaged = (\<lambda>_ _. Inr []),
     d_get = (\<lambda>gvr key w. case w (gvr, key) of None \<Rightarrow> Inl NotFound | Some ob \<Rightarrow> Inr ob),
     d_create = (\<lambda>gvr ob w. if w (gvr, ob_key ob) = None then (None, w((gvr, ob_key ob) \<mapsto> ob)) else (Some AlreadyExists, w)),
     d_patchOwners = (\<lambda>gvr key rv refs w. case w (gvr, key) of
         None \<Rightarrow> (Some NotFound, w)
       | Some ob \<Rightarrow> if ob_ResourceVersion ob = rv then (None, w((gvr, key) \<mapsto> ob\<lparr>ob_OwnerReferences := refs\<rparr>)) else (Some Conflict, w)),
     d_delete = (\<lambda>gvr key w. (None, w((gvr, key) := None))),
     d_getNamespace = (\<lambda>_ _. None), d_createNamespace = (\<lambda>_ w. (None, w)),
     d_listNamespaces = (\<lambda>_. example_list_namespaces),
     d_getRole = (\<lambda>_ _. Inl NotFound), d_createRole = (\<lambda>_ w. (None, w)), d_updateRole = (\<lambda>_ w. (None, w)), d_deleteRole = (\<lambda>_ w. (None, w)),
     d_retry = (\<lambda>f. f), d_managementDeleting = (\<lambda>_. Inr False), d_getAM = (\<lambda>_. Inr am),
     d_patchAMLabel = (\<lambda>_ w. (None, w)), d_updateAMStatus = (\<lambda>_ w. (None, w))\<rparr>"

definition example_owner :: OwnerReference where
  "example_owner = \<lparr>or_APIVersion = ''k0rdent.mirantis.com/v1beta1'', or_Kind = ''AccessManagement'', or_Name = ''kcm'', or_UID = ''u1''\<rparr>"

definition example_am_reconciler :: am_reconciler where
  "example_am_reconciler = \<lparr>amr_SystemNamespace = ''kcm-system'', amr_lib =
     \<lparr>al_k8s = example_lib, al_restMapping = (\<lambda>gk. Inr \<lparr>rm_Resource = Resource (gk_Group gk) (gk_Kind gk), rm_Namespaced = True\<rparr>),
      al_nestedString = (\<lambda>_ _. Inr None), al_nestedMapFound = (\<lambda>_ _. Inr False), al_setNestedField = (\<lambda>obj _ _. Inr obj),
      al_templateStatus = (\<lambda>_. Inr (False, None)), al_specWithChartRef = (\<lambda>_ ref. Inr ref),
      al_ownerGVK = Inr (''k0rdent.mirantis.com/v1beta1'', ''AccessManagement''),
      al_setOwnerReference = (\<lambda>_ refs. Inr (refs @ [example_owner])), al_showError = (\<lambda>_. ''error'')\<rparr>\<rparr>"

lemma example_api_laws: "api_laws (example_am_api am) (\<lambda>w. w)"
proof -
  have "retry_law (example_am_api am)"
    unfolding retry_law_def by (intro allI exI [of _ 0]) (simp add: example_am_api_def)
  moreover have "patch_law (example_am_api am) (\<lambda>w. w)"
  proof -
    have "\<exists>ob'. ob_Labels ob' = ob_Labels ob \<and> ob_OwnerReferences ob' = refs \<and>
        w(k \<mapsto> ob\<lparr>ob_OwnerReferences := refs\<rparr>) = w(k \<mapsto> ob')" for ob refs k and w :: example_store
      by (rule exI [of _ "ob\<lparr>ob_OwnerReferences := refs\<rparr>"]) simp
    then show ?thesis by (auto simp: patch_law_def example_am_api_def split: option.splits if_splits)
  qed
  ultimately show ?thesis
    by (auto simp: api_laws_def get_law_def create_law_def delete_law_def namespace_law_def list_law_def
        example_am_api_def example_object_def split: option.splits if_splits)
qed

abbreviation example_rules :: "Rule list" where
  "example_rules \<equiv> [\<lparr>rule_Namespaces = [''dev''], rule_Resources = [example_credentials]\<rparr>]"

abbreviation example_gk :: GroupKind where
  "example_gk \<equiv> GroupKind kcm_group ''Credential''"

abbreviation example_gvr :: Resource where
  "example_gvr \<equiv> Resource kcm_group ''Credential''"

lemma example_kind_run:
  "kind_run example_am_reconciler (example_am_api am) (\<lambda>w. w) am example_rules example_owner example_gk example_gvr w"
  using example_api_laws
  by (auto simp: kind_run_def owner_law_def plain_names_def example_am_reconciler_def hasOwnerReference_def example_am_api_def)

theorem reconcile_kind_leaves_unmanaged_witness:
  "(let w = (\<lambda>_. None)((example_gvr, ObjectKey ''dev'' ''cred'') \<mapsto> example_object ''dev'' [])
    in snd (snd (reconcile_kind example_am_reconciler (example_am_api example_am) example_am example_rules example_owner example_gk w)))
     (example_gvr, ObjectKey ''dev'' ''cred'') = Some (example_object ''dev'' [])"
proof -
  let ?w = "(\<lambda>_. None)((example_gvr, ObjectKey ''dev'' ''cred'') \<mapsto> example_object ''dev'' [])"
  obtain errs msg w' where
    run: "reconcile_kind example_am_reconciler (example_am_api example_am) example_am example_rules example_owner example_gk ?w = (errs, msg, w')"
    by (metis prod_cases3)
  from reconcile_kind_leaves_unmanaged [OF example_kind_run run, of "(example_gvr, ObjectKey ''dev'' ''cred'')" "example_object ''dev'' []"] run
  show ?thesis by (simp add: example_object_def is_managed_def managed_label_def)
qed

theorem reconcile_kind_serves_witness:
  "served (\<lambda>w. w) example_gvr example_owner
     (snd (snd (reconcile_kind example_am_reconciler (example_am_api example_am) example_am example_rules example_owner example_gk (\<lambda>_. None))))
     (Target ''dev'' ''cred'')"
proof -
  let ?run = "reconcile_kind example_am_reconciler (example_am_api example_am) example_am example_rules example_owner example_gk (\<lambda>_. None)"
  have "fst ?run = []" by code_simp
  then obtain msg w' where run: "?run = ([], msg, w')" by (metis prod.collapse)
  from reconcile_kind_serves [OF example_kind_run run]
  have "wanted example_lib ob_Labels example_rules example_gk (system_map [example_object ''kcm-system'' []]) t \<longrightarrow>
      served (\<lambda>w. w) example_gvr example_owner w' t" for t
    by (simp add: example_am_api_def example_am_reconciler_def)
  moreover have "wanted example_lib ob_Labels example_rules example_gk (system_map [example_object ''kcm-system'' []]) (Target ''dev'' ''cred'')"
    by (simp add: wanted_def example_credentials_def ResolveNames_def labelSelector_def rule_GroupKind_def
        isBuiltinResourceKind_def builtinResourceKinds_def system_map_def example_object_def)
  ultimately show ?thesis using run by simp
qed

definition example_stale_am :: AccessManagement where
  "example_stale_am = example_am\<lparr>am_AccessRules := [],
     am_StatusResources := [\<lparr>rks_APIGroup = [], rks_Kind = ''ConfigMap'', rks_Error = []\<rparr>]\<rparr>"

theorem reconcileObj_keeps_tracking_witness:
  "TracksGroupKind example_stale_am (GroupKind [] ''ConfigMap'')
   \<and> \<not> TracksGroupKind (fst (snd (reconcileObj example_am_reconciler (example_am_api example_stale_am) example_stale_am (\<lambda>_. None))))
        (GroupKind [] ''ConfigMap'')
   \<and> GroupKind [] ''ConfigMap'' \<notin> set (ReferencedGroupKinds example_stale_am)"
proof -
  let ?run = "reconcileObj example_am_reconciler (example_am_api example_stale_am) example_stale_am (\<lambda>_. None)"
  obtain errs am' w' where run: "?run = (errs, am', w')" by (metis prod_cases3)
  have tracked: "TracksGroupKind example_stale_am (GroupKind [] ''ConfigMap'')" by code_simp
  have "\<not> TracksGroupKind (fst (snd ?run)) (GroupKind [] ''ConfigMap'')" by code_simp
  with tracked reconcileObj_keeps_tracking [OF run tracked] run show ?thesis by simp
qed

end
