(* ===== verification/AccessEvents.thy ===== *)
theory AccessEvents
  imports AccessController
begin

text \<open>
  Access management, the event half: which AccessManagements a change of a namespace or of an
  object of the system namespace enqueues
  (\<^verbatim>\<open>internal/controller/accessmanagement_controller.go\<close>, from \<open>mapNamespaceToRequests\<close> on), and the
  field indexes it looks them up in (\<^verbatim>\<open>api/v1beta1/indexers.go\<close>).

  The indexed path and the full scan it falls back to enqueue the same objects, and no creation or
  relabelling of a namespace that changes what the rules resolve to goes unnoticed.
\<close>

section \<open>Indexes\<close>

definition AccessManagementTargetNamespaceListIndexKey :: string where
  "AccessManagementTargetNamespaceListIndexKey = ''.spec.accessRules[].targetNamespaces.list''"

definition AccessManagementUsesSelectorIndexKey :: string where
  "AccessManagementUsesSelectorIndexKey = ''k0rdent.access-management.selector''"

definition AccessManagementTargetsAllNamespacesIndexKey :: string where
  "AccessManagementTargetsAllNamespacesIndexKey = ''k0rdent.access-management.all-namespaces''"

definition targetNamespacesHasNonEmptySelector :: "ResourceSelector \<Rightarrow> bool" where
  "targetNamespacesHasNonEmptySelector targetNamespaces \<longleftrightarrow>
     (if rsel_StringSelector targetNamespaces \<noteq> [] then True
      else case rsel_Selector targetNamespaces of
             None \<Rightarrow> False
           | Some s \<Rightarrow> length (ls_MatchLabels s) > 0 \<or> length (ls_MatchExpressions s) > 0)"

definition targetNamespacesSelectAllNamespaces :: "ResourceSelector \<Rightarrow> bool" where
  "targetNamespacesSelectAllNamespaces targetNamespaces \<longleftrightarrow>
     length (rsel_List targetNamespaces) = 0 \<and> \<not> targetNamespacesHasNonEmptySelector targetNamespaces"

text \<open>The keys of the map of names, sorted.\<close>

definition ExtractAccessManagementTargetNamespaceLists :: "AccessManagement \<Rightarrow> string list" where
  "ExtractAccessManagementTargetNamespaceLists am =
     sort (fold (\<lambda>rule. fold add_new (rsel_List (ar_TargetNamespaces rule))) (am_AccessRules am) [])"

definition ExtractAccessManagementUsesSelector :: "AccessManagement \<Rightarrow> string list" where
  "ExtractAccessManagementUsesSelector am =
     (if list_ex (\<lambda>rule. targetNamespacesHasNonEmptySelector (ar_TargetNamespaces rule)) (am_AccessRules am) then [''true''] else [])"

definition ExtractAccessManagementTargetsAllNamespaces :: "AccessManagement \<Rightarrow> string list" where
  "ExtractAccessManagementTargetsAllNamespaces am =
     (if list_ex (\<lambda>rule. targetNamespacesSelectAllNamespaces (ar_TargetNamespaces rule)) (am_AccessRules am) then [''true''] else [])"

section \<open>Rules and namespaces\<close>

definition ruleTargetsNamespace :: "k8s_lib \<Rightarrow> AccessRule \<Rightarrow> Namespace \<Rightarrow> access_error + bool" where
  "ruleTargetsNamespace lib rule namespace =
     (let tn = ar_TargetNamespaces rule
      in if length (rsel_List tn) > 0 then Inr (ns_Name namespace \<in> set (rsel_List tn))
         else bindE (labelSelector lib (rsel_Selector tn) (rsel_StringSelector tn)) (\<lambda>(selector, selectorNonEmpty).
                if \<not> selectorNonEmpty then Inr True else Inr (sel_Matches selector (ns_Labels namespace))))"

definition ruleAffectedByNamespaceLabelUpdate ::
  "k8s_lib \<Rightarrow> AccessRule \<Rightarrow> Namespace \<Rightarrow> Namespace \<Rightarrow> access_error + bool" where
  "ruleAffectedByNamespaceLabelUpdate lib rule oldNamespace newNamespace =
     (let tn = ar_TargetNamespaces rule
      in if length (rsel_List tn) > 0 then Inr False
         else bindE (labelSelector lib (rsel_Selector tn) (rsel_StringSelector tn)) (\<lambda>(selector, selectorNonEmpty).
                if \<not> selectorNonEmpty then Inr False
                else let oldMatches = sel_Matches selector (ns_Labels oldNamespace);
                         newMatches = sel_Matches selector (ns_Labels newNamespace)
                     in Inr (oldMatches \<noteq> newMatches)))"

text \<open>The loop both checks share: the first error or the first hit ends it.\<close>

fun any_rule :: "(AccessRule \<Rightarrow> access_error + bool) \<Rightarrow> AccessRule list \<Rightarrow> access_error + bool" where
  "any_rule f [] = Inr False"
| "any_rule f (rule # rules) = bindE (f rule) (\<lambda>hit. if hit then Inr True else any_rule f rules)"

definition accessManagementTargetsNamespace ::
  "k8s_lib \<Rightarrow> AccessManagement \<Rightarrow> Namespace \<Rightarrow> access_error + bool" where
  "accessManagementTargetsNamespace lib accessMgmt namespace =
     any_rule (\<lambda>rule. ruleTargetsNamespace lib rule namespace) (am_AccessRules accessMgmt)"

definition accessManagementAffectedByNamespaceLabelUpdate ::
  "k8s_lib \<Rightarrow> AccessManagement \<Rightarrow> Namespace \<Rightarrow> Namespace \<Rightarrow> access_error + bool" where
  "accessManagementAffectedByNamespaceLabelUpdate lib accessMgmt oldNamespace newNamespace =
     any_rule (\<lambda>rule. ruleAffectedByNamespaceLabelUpdate lib rule oldNamespace newNamespace) (am_AccessRules accessMgmt)"

section \<open>Requests\<close>

text \<open>The reads of the client: all AccessManagements, or those with a value under an index key.\<close>

record am_lister =
  lister_all :: "api_error + AccessManagement list"
  lister_field :: "string \<Rightarrow> string \<Rightarrow> api_error + AccessManagement list"

text \<open>\<open>ctrl.Request\<close>: the key of the object; an AccessManagement has no namespace.\<close>

abbreviation am_request :: "AccessManagement \<Rightarrow> ObjectKey" where
  "am_request am \<equiv> ObjectKey [] (am_Name am)"

definition listAccessManagementByField :: "am_lister \<Rightarrow> string \<Rightarrow> string \<Rightarrow> api_error + AccessManagement list" where
  "listAccessManagementByField lister indexKey val = lister_field lister indexKey val"

definition collectAccessManagementRequests ::
  "am_lister \<Rightarrow> (AccessManagement \<Rightarrow> access_error + bool) \<Rightarrow> ObjectKey list" where
  "collectAccessManagementRequests lister shouldEnqueueFn =
     (case lister_all lister of
        Inl _ \<Rightarrow> []
      | Inr items \<Rightarrow> map am_request (filter (\<lambda>am. shouldEnqueueFn am = Inr True) items))"

text \<open>\<open>enqueueRequest\<close>: a request per name.\<close>

definition enqueueRequest :: "AccessManagement \<Rightarrow> ObjectKey list \<Rightarrow> ObjectKey list" where
  "enqueueRequest am requests = add_new (am_request am) requests"

definition mapNamespaceToRequests :: "k8s_lib \<Rightarrow> am_lister \<Rightarrow> Namespace \<Rightarrow> ObjectKey list" where
  "mapNamespaceToRequests lib lister namespace =
     (let fallback = collectAccessManagementRequests lister (\<lambda>am. accessManagementTargetsNamespace lib am namespace)
      in case listAccessManagementByField lister AccessManagementTargetNamespaceListIndexKey (ns_Name namespace) of
           Inl _ \<Rightarrow> fallback
         | Inr listTargeted \<Rightarrow>
      (case listAccessManagementByField lister AccessManagementTargetsAllNamespacesIndexKey ''true'' of
           Inl _ \<Rightarrow> fallback
         | Inr allNamespace \<Rightarrow>
      (case listAccessManagementByField lister AccessManagementUsesSelectorIndexKey ''true'' of
           Inl _ \<Rightarrow> fallback
         | Inr selectorAMs \<Rightarrow>
             fold (\<lambda>am. if accessManagementTargetsNamespace lib am namespace = Inr True then enqueueRequest am else id) selectorAMs
               (fold enqueueRequest allNamespace (fold enqueueRequest listTargeted [])))))"

definition mapNamespaceLabelUpdateToRequests :: "k8s_lib \<Rightarrow> am_lister \<Rightarrow> Namespace \<Rightarrow> Namespace \<Rightarrow> ObjectKey list" where
  "mapNamespaceLabelUpdateToRequests lib lister oldNamespace newNamespace =
     (let affected = (\<lambda>am. accessManagementAffectedByNamespaceLabelUpdate lib am oldNamespace newNamespace)
      in case listAccessManagementByField lister AccessManagementUsesSelectorIndexKey ''true'' of
           Inl _ \<Rightarrow> collectAccessManagementRequests lister affected
         | Inr selectorAMs \<Rightarrow> map am_request (filter (\<lambda>am. affected am = Inr True) selectorAMs))"

subsection \<open>Watches\<close>

datatype 'o watch_event = CreateEvent 'o | UpdateEvent 'o 'o | DeleteEvent 'o | GenericEvent 'o

text \<open>\<open>maps.Equal\<close> on label maps.\<close>

definition maps_Equal :: "(string \<times> string) list \<Rightarrow> (string \<times> string) list \<Rightarrow> bool" where
  "maps_Equal l1 l2 \<longleftrightarrow> list_all (\<lambda>k. alookup l1 k = alookup l2 k) (map fst l1 @ map fst l2)"

definition getEventPredicates :: "('o \<Rightarrow> (string \<times> string) list) \<Rightarrow> 'o watch_event \<Rightarrow> bool" where
  "getEventPredicates labels_of e =
     (case e of
        CreateEvent _ \<Rightarrow> True
      | DeleteEvent _ \<Rightarrow> False
      | GenericEvent _ \<Rightarrow> False
      | UpdateEvent oldObj newObj \<Rightarrow> \<not> maps_Equal (labels_of oldObj) (labels_of newObj))"

text \<open>The watch on namespaces that \<open>SetupWithManager\<close> registers.\<close>

definition namespace_watch :: "k8s_lib \<Rightarrow> am_lister \<Rightarrow> Namespace watch_event \<Rightarrow> ObjectKey list" where
  "namespace_watch lib lister e =
     (if \<not> getEventPredicates ns_Labels e then []
      else case e of
             CreateEvent ns \<Rightarrow> mapNamespaceToRequests lib lister ns
           | UpdateEvent oldNs newNs \<Rightarrow> mapNamespaceLabelUpdateToRequests lib lister oldNs newNs
           | _ \<Rightarrow> [])"

text \<open>
  An object of a built-in kind: \<open>Some valid\<close> for a ClusterTemplate with its \<open>status.valid\<close>. The
  name of the one AccessManagement is fixed.
\<close>

record builtin_object =
  bo_Namespace :: string
  bo_Labels :: "(string \<times> string) list"
  bo_TemplateValid :: "bool option"

definition builtinKindPredicate :: "builtin_object watch_event \<Rightarrow> bool" where
  "builtinKindPredicate e \<longleftrightarrow>
     getEventPredicates bo_Labels e
     \<or> (case e of
          UpdateEvent oldObj newObj \<Rightarrow> bo_TemplateValid oldObj = Some False \<and> bo_TemplateValid newObj = Some True
        | _ \<Rightarrow> False)"

definition builtinKindEventHandler :: "string \<Rightarrow> builtin_object watch_event \<Rightarrow> ObjectKey list" where
  "builtinKindEventHandler systemNamespace e =
     (let enqueueIfSystemNamespace = (\<lambda>obj. if bo_Namespace obj \<noteq> systemNamespace then [] else [ObjectKey [] ''kcm''])
      in case e of
           CreateEvent obj \<Rightarrow> enqueueIfSystemNamespace obj
         | UpdateEvent _ newObj \<Rightarrow> enqueueIfSystemNamespace newObj
         | _ \<Rightarrow> [])"

definition builtin_watch :: "string \<Rightarrow> builtin_object watch_event \<Rightarrow> ObjectKey list" where
  "builtin_watch systemNamespace e = (if builtinKindPredicate e then builtinKindEventHandler systemNamespace e else [])"

section \<open>The indexes are exact\<close>

lemma any_rule_True: "any_rule f rules = Inr True \<Longrightarrow> \<exists>rule\<in>set rules. f rule = Inr True"
  by (induction rules) (auto simp: result_simps split: if_splits)

lemma any_rule_iff:
  "(\<And>rule. rule \<in> set rules \<Longrightarrow> \<exists>b. f rule = Inr b) \<Longrightarrow> any_rule f rules = Inr True \<longleftrightarrow> (\<exists>rule\<in>set rules. f rule = Inr True)"
  by (induction rules) fastforce+

text \<open>Rules whose selectors compile: what a resolution without errors needs.\<close>

definition rule_compiles :: "k8s_lib \<Rightarrow> AccessRule \<Rightarrow> bool" where
  "rule_compiles lib rule \<longleftrightarrow>
     (let tn = ar_TargetNamespaces rule
      in rsel_List tn \<noteq> [] \<or> \<not> isl (labelSelector lib (rsel_Selector tn) (rsel_StringSelector tn)))"

definition selectors_compile :: "k8s_lib \<Rightarrow> AccessManagement \<Rightarrow> bool" where
  "selectors_compile lib am \<longleftrightarrow> (\<forall>rule\<in>set (am_AccessRules am). rule_compiles lib rule)"

lemma ruleTargetsNamespace_selects:
  assumes "rule_compiles lib rule"
  shows "ruleTargetsNamespace lib rule ns = Inr (selects_namespace lib (ar_TargetNamespaces rule) ns)"
  using assms
  by (cases "labelSelector lib (rsel_Selector (ar_TargetNamespaces rule)) (rsel_StringSelector (ar_TargetNamespaces rule))")
    (auto simp: ruleTargetsNamespace_def selects_namespace_def rule_compiles_def Let_def)

lemma ruleTargetsNamespace_True:
  "ruleTargetsNamespace lib rule ns = Inr True \<Longrightarrow> selects_namespace lib (ar_TargetNamespaces rule) ns"
  by (auto simp: ruleTargetsNamespace_def selects_namespace_def Let_def result_simps split: if_splits)

lemma ruleAffected_selects:
  assumes "rule_compiles lib rule" and "ns_Name new = ns_Name old"
  shows "ruleAffectedByNamespaceLabelUpdate lib rule old new =
     Inr (selects_namespace lib (ar_TargetNamespaces rule) old \<noteq> selects_namespace lib (ar_TargetNamespaces rule) new)"
  using assms
  by (cases "labelSelector lib (rsel_Selector (ar_TargetNamespaces rule)) (rsel_StringSelector (ar_TargetNamespaces rule))")
    (auto simp: ruleAffectedByNamespaceLabelUpdate_def selects_namespace_def rule_compiles_def Let_def)

lemma accessManagementTargetsNamespace_iff:
  assumes "selectors_compile lib am"
  shows "accessManagementTargetsNamespace lib am ns = Inr True \<longleftrightarrow>
     (\<exists>rule\<in>set (am_AccessRules am). selects_namespace lib (ar_TargetNamespaces rule) ns)"
  using assms unfolding accessManagementTargetsNamespace_def selectors_compile_def
  by (subst any_rule_iff) (auto simp: ruleTargetsNamespace_selects)

lemma accessManagementAffected_iff:
  assumes "selectors_compile lib am" and "ns_Name new = ns_Name old"
  shows "accessManagementAffectedByNamespaceLabelUpdate lib am old new = Inr True \<longleftrightarrow>
     (\<exists>rule\<in>set (am_AccessRules am).
        selects_namespace lib (ar_TargetNamespaces rule) old \<noteq> selects_namespace lib (ar_TargetNamespaces rule) new)"
  using assms unfolding accessManagementAffectedByNamespaceLabelUpdate_def selectors_compile_def
  by (subst any_rule_iff) (auto simp: ruleAffected_selects)

text \<open>
  Documented behaviour of the client and of the label library: a list by field returns the objects
  that the index function maps to the value; an empty label selector compiles to the selector that
  matches everything; a selector sees labels only through their values.
\<close>

definition index_law :: "am_lister \<Rightarrow> AccessManagement list \<Rightarrow> string \<Rightarrow> (AccessManagement \<Rightarrow> string list) \<Rightarrow> bool" where
  "index_law lister store key extract \<longleftrightarrow>
     (\<forall>v items. lister_field lister key v = Inr items \<longrightarrow> set items = {am \<in> set store. v \<in> set (extract am)})"

definition lister_laws :: "am_lister \<Rightarrow> AccessManagement list \<Rightarrow> bool" where
  "lister_laws lister store \<longleftrightarrow> lister_all lister = Inr store
     \<and> index_law lister store AccessManagementTargetNamespaceListIndexKey ExtractAccessManagementTargetNamespaceLists
     \<and> index_law lister store AccessManagementUsesSelectorIndexKey ExtractAccessManagementUsesSelector
     \<and> index_law lister store AccessManagementTargetsAllNamespacesIndexKey ExtractAccessManagementTargetsAllNamespaces"

definition empty_selector_law :: "k8s_lib \<Rightarrow> bool" where
  "empty_selector_law lib \<longleftrightarrow>
     (\<forall>s. ls_MatchLabels s = [] \<and> ls_MatchExpressions s = [] \<longrightarrow> (\<exists>sel. lib_compile lib s = Inr sel \<and> sel_Empty sel))"

definition labels_law :: "k8s_lib \<Rightarrow> bool" where
  "labels_law lib \<longleftrightarrow>
     (\<forall>s str sel ne l1 l2. labelSelector lib s str = Inr (sel, ne) \<and> alookup l1 = alookup l2 \<longrightarrow> sel_Matches sel l1 = sel_Matches sel l2)"

lemma set_fold_enqueueRequest: "set (fold enqueueRequest ams requests) = set requests \<union> am_request ` set ams"
  by (induction ams arbitrary: requests) (auto simp: enqueueRequest_def)

lemma set_fold_enqueue_if:
  "set (fold (\<lambda>am. if P am then enqueueRequest am else id) ams requests) = set requests \<union> am_request ` {am \<in> set ams. P am}"
  by (induction ams arbitrary: requests) (auto simp: enqueueRequest_def)

lemma set_fold_add_lists: "set (fold (\<lambda>x. fold add_new (f x)) xs ys) = set ys \<union> \<Union> (set ` f ` set xs)"
  by (induction xs arbitrary: ys) (auto simp: set_fold_add_new)

lemma extract_index [simp]:
  "v \<in> set (ExtractAccessManagementTargetNamespaceLists am) \<longleftrightarrow>
     (\<exists>rule\<in>set (am_AccessRules am). v \<in> set (rsel_List (ar_TargetNamespaces rule)))"
  "v \<in> set (ExtractAccessManagementUsesSelector am) \<longleftrightarrow> v = ''true''
     \<and> (\<exists>rule\<in>set (am_AccessRules am). targetNamespacesHasNonEmptySelector (ar_TargetNamespaces rule))"
  "v \<in> set (ExtractAccessManagementTargetsAllNamespaces am) \<longleftrightarrow> v = ''true''
     \<and> (\<exists>rule\<in>set (am_AccessRules am). targetNamespacesSelectAllNamespaces (ar_TargetNamespaces rule))"
  by (auto simp: ExtractAccessManagementTargetNamespaceLists_def ExtractAccessManagementUsesSelector_def
      ExtractAccessManagementTargetsAllNamespaces_def set_fold_add_lists list_ex_iff)

lemma no_selector_selects_all:
  assumes "empty_selector_law lib" and "targetNamespacesSelectAllNamespaces tn"
  shows "selects_namespace lib tn ns"
  using assms
  by (auto simp: targetNamespacesSelectAllNamespaces_def targetNamespacesHasNonEmptySelector_def empty_selector_law_def
      selects_namespace_def labelSelector_def split: if_splits option.splits)
    (metis wrapE_simps(2) bindE_simps(2))

lemma selects_indexed:
  assumes "selects_namespace lib tn ns"
  shows "ns_Name ns \<in> set (rsel_List tn) \<or> targetNamespacesSelectAllNamespaces tn \<or> targetNamespacesHasNonEmptySelector tn"
  using assms by (auto simp: selects_namespace_def targetNamespacesSelectAllNamespaces_def split: if_splits)

lemma mapNamespaceToRequests_sound:
  assumes "lister_laws lister store" and "empty_selector_law lib" and "k \<in> set (mapNamespaceToRequests lib lister ns)"
  shows "\<exists>am\<in>set store. k = am_request am \<and> (\<exists>rule\<in>set (am_AccessRules am). selects_namespace lib (ar_TargetNamespaces rule) ns)"
proof -
  have hit: "\<exists>rule\<in>set (am_AccessRules am). selects_namespace lib (ar_TargetNamespaces rule) ns"
    if "accessManagementTargetsNamespace lib am ns = Inr True" for am
    using that ruleTargetsNamespace_True unfolding accessManagementTargetsNamespace_def by (blast dest: any_rule_True)
  have listed: "selects_namespace lib tn ns" if "ns_Name ns \<in> set (rsel_List tn)" for tn
    using that by (auto simp: selects_namespace_def)
  show ?thesis
    using assms
    by (auto simp: mapNamespaceToRequests_def collectAccessManagementRequests_def listAccessManagementByField_def Let_def
        set_fold_enqueueRequest set_fold_enqueue_if lister_laws_def index_law_def
        intro: hit listed no_selector_selects_all split: sum.splits)
qed

lemma mapNamespaceToRequests_complete:
  assumes "lister_laws lister store" and "am \<in> set store" and "selectors_compile lib am"
    and "rule \<in> set (am_AccessRules am)" and "selects_namespace lib (ar_TargetNamespaces rule) ns"
  shows "am_request am \<in> set (mapNamespaceToRequests lib lister ns)"
proof -
  have "accessManagementTargetsNamespace lib am ns = Inr True"
    using assms(3,4,5) accessManagementTargetsNamespace_iff by blast
  moreover note selects_indexed [OF assms(5)]
  ultimately show ?thesis
    using assms(1,2,4)
    by (auto simp: mapNamespaceToRequests_def collectAccessManagementRequests_def listAccessManagementByField_def Let_def
        set_fold_enqueueRequest set_fold_enqueue_if lister_laws_def index_law_def split: sum.splits)
qed

text \<open>
  When a namespace is created, the AccessManagements enqueued are exactly those with a rule that
  selects it, whether they are found through the three indexes or, because one of them cannot be
  read, by scanning all objects.
\<close>

theorem mapNamespaceToRequests_exact:
  assumes "lister_laws lister store" and "empty_selector_law lib" and "\<forall>am\<in>set store. selectors_compile lib am"
  shows "set (mapNamespaceToRequests lib lister ns) =
     am_request ` {am \<in> set store. \<exists>rule\<in>set (am_AccessRules am). selects_namespace lib (ar_TargetNamespaces rule) ns}"
  using mapNamespaceToRequests_sound [OF assms(1,2)] mapNamespaceToRequests_complete [OF assms(1)] assms(3) by blast

section \<open>No event is missed\<close>

lemma labelUpdate_complete:
  assumes "lister_laws lister store" and empty: "empty_selector_law lib" and "am \<in> set store" and "selectors_compile lib am" and "ns_Name new = ns_Name old"
    and "rule \<in> set (am_AccessRules am)"
    and "selects_namespace lib (ar_TargetNamespaces rule) old \<noteq> selects_namespace lib (ar_TargetNamespaces rule) new"
  shows "am_request am \<in> set (mapNamespaceLabelUpdateToRequests lib lister old new)"
proof -
  have "accessManagementAffectedByNamespaceLabelUpdate lib am old new = Inr True"
    using assms(4-7) accessManagementAffected_iff by blast
  moreover have "targetNamespacesHasNonEmptySelector (ar_TargetNamespaces rule)"
  proof (rule ccontr)
    assume "\<not> ?thesis"
    with no_selector_selects_all [OF empty] assms(7) have "rsel_List (ar_TargetNamespaces rule) \<noteq> []"
      by (auto simp: targetNamespacesSelectAllNamespaces_def)
    with assms(5,7) show False by (simp add: selects_namespace_def)
  qed
  ultimately show ?thesis
    using assms(1,3,6)
    by (auto simp: mapNamespaceLabelUpdateToRequests_def collectAccessManagementRequests_def listAccessManagementByField_def
        Let_def lister_laws_def index_law_def split: sum.splits)
qed

text \<open>The cluster after an event, and events that can happen in it.\<close>

fun after_event :: "Namespace list \<Rightarrow> Namespace watch_event \<Rightarrow> Namespace list" where
  "after_event namespaces (CreateEvent ns) = namespaces @ [ns]"
| "after_event namespaces (UpdateEvent old new) = map (\<lambda>n. if ns_Name n = ns_Name new then new else n) namespaces"
| "after_event namespaces (DeleteEvent ns) = filter (\<lambda>n. ns_Name n \<noteq> ns_Name ns) namespaces"
| "after_event namespaces (GenericEvent ns) = namespaces"

fun possible_event :: "Namespace list \<Rightarrow> Namespace watch_event \<Rightarrow> bool" where
  "possible_event namespaces (CreateEvent ns) \<longleftrightarrow> ns_Name ns \<notin> ns_Name ` set namespaces"
| "possible_event namespaces (UpdateEvent old new) \<longleftrightarrow> old \<in> set namespaces \<and> ns_Name new = ns_Name old \<and> distinct (map ns_Name namespaces)"
| "possible_event namespaces (DeleteEvent ns) \<longleftrightarrow> False"
| "possible_event namespaces (GenericEvent ns) \<longleftrightarrow> True"

lemma maps_Equal_iff: "maps_Equal l1 l2 \<longleftrightarrow> alookup l1 = alookup l2"
proof
  assume eq: "maps_Equal l1 l2"
  show "alookup l1 = alookup l2"
  proof
    fix k
    show "alookup l1 k = alookup l2 k"
    proof (cases "k \<in> fst ` set l1 \<union> fst ` set l2")
      case True
      with eq show ?thesis by (auto simp: maps_Equal_def list_all_iff)
    next
      case False
      then have "alookup l1 k = None" "alookup l2 k = None" by (auto simp: alookup_None)
      then show ?thesis by simp
    qed
  qed
qed (simp add: maps_Equal_def list_all_iff)

lemma maps_Equal_selects:
  assumes "labels_law lib" and "ns_Name new = ns_Name old" and "maps_Equal (ns_Labels old) (ns_Labels new)"
  shows "selects_namespace lib tn old = selects_namespace lib tn new"
proof (cases "labelSelector lib (rsel_Selector tn) (rsel_StringSelector tn)")
  case (Inr p)
  obtain sel ne where p: "p = (sel, ne)" by (metis surj_pair)
  have "sel_Matches sel (ns_Labels old) = sel_Matches sel (ns_Labels new)"
    using assms(1,3) Inr unfolding p labels_law_def maps_Equal_iff by blast
  with assms(2) Inr p show ?thesis by (simp add: selects_namespace_def)
qed (simp add: selects_namespace_def assms(2))

lemma mapE_differ: "mapE f xs = Inr ys \<Longrightarrow> mapE g xs = Inr zs \<Longrightarrow> ys \<noteq> zs \<Longrightarrow> \<exists>x\<in>set xs. f x \<noteq> g x"
  by (induction xs arbitrary: ys zs) (auto simp: result_simps)

lemma TargetNamespaces_compiles: "TargetNamespaces lib listNs sys (ar_TargetNamespaces rule) = Inr nss \<Longrightarrow> rule_compiles lib rule"
  by (auto simp: TargetNamespaces_def rule_compiles_def Let_def result_simps split: if_splits)

lemma ResolveRules_ok:
  assumes "ResolveRules lib listNs sys rules = Inr rs" and "rule \<in> set rules"
  shows "\<exists>nss. TargetNamespaces lib listNs sys (ar_TargetNamespaces rule) = Inr nss"
proof -
  obtain i where "i < length rules" "rule = rules ! i" using assms(2) by (auto simp: in_set_conv_nth)
  with assms(1) show ?thesis
    unfolding ResolveRules_def mapE_Inr_list_all2 by (auto dest!: list_all2_nthD simp: result_simps)
qed

lemma relabelled_filter:
  assumes "\<forall>n\<in>set namespaces. ns_Name n = ns_Name new \<longrightarrow> P n = P new"
  shows "map ns_Name (filter P (map (\<lambda>n. if ns_Name n = ns_Name new then new else n) namespaces)) = map ns_Name (filter P namespaces)"
  using assms by (induction namespaces) auto

lemma targets_differ:
  assumes "lists_namespaces listNs namespaces" and "lists_namespaces listNs' (after_event namespaces e)" and "possible_event namespaces e"
    and "TargetNamespaces lib listNs sys tn = Inr nss" and "TargetNamespaces lib listNs' sys tn = Inr nss'" and "nss \<noteq> nss'"
  shows "case e of CreateEvent ns \<Rightarrow> selects_namespace lib tn ns
         | UpdateEvent old new \<Rightarrow> selects_namespace lib tn old \<noteq> selects_namespace lib tn new
         | _ \<Rightarrow> False"
proof -
  let ?P = "\<lambda>n. ns_Name n \<noteq> sys \<and> selects_namespace lib tn n"
  from TargetNamespaces_spec [OF assms(1,4)] TargetNamespaces_spec [OF assms(2,5)] assms(6)
  have differ: "map ns_Name (filter ?P namespaces) \<noteq> map ns_Name (filter ?P (after_event namespaces e))"
    by (auto split: if_splits)
  show ?thesis
  proof (cases e)
    case (UpdateEvent old new)
    with assms(3) have names: "old \<in> set namespaces" "ns_Name new = ns_Name old" "distinct (map ns_Name namespaces)" by auto
    have only: "n = old" if "n \<in> set namespaces" "ns_Name n = ns_Name new" for n
      using names that by (auto dest: distinct_map_eqD)
    show ?thesis
    proof (rule ccontr)
      assume "\<not> ?thesis"
      then have "?P old = ?P new" using names(2) by (simp add: UpdateEvent)
      then have "\<forall>n\<in>set namespaces. ns_Name n = ns_Name new \<longrightarrow> ?P n = ?P new" using only by blast
      from relabelled_filter [OF this] differ show False by (simp add: UpdateEvent)
    qed
  qed (use differ assms(3) in \<open>auto split: if_splits\<close>)
qed

text \<open>
  A creation or relabelling of a namespace that changes what the rules of an AccessManagement
  resolve to enqueues that AccessManagement, provided its rules resolve at all. An update the watch
  drops, because it leaves the labels alone, cannot change it.
\<close>

theorem namespace_event_noticed:
  assumes laws: "lister_laws lister store" "empty_selector_law lib" "labels_law lib"
    and "am \<in> set store"
    and cluster: "lists_namespaces listNs namespaces" "lists_namespaces listNs' (after_event namespaces e)" "possible_event namespaces e"
    and before: "ResolveRules lib listNs sys (am_AccessRules am) = Inr rules"
    and after: "ResolveRules lib listNs' sys (am_AccessRules am) = Inr rules'"
    and "rules \<noteq> rules'"
  shows "am_request am \<in> set (namespace_watch lib lister e)"
proof -
  obtain rule where rule: "rule \<in> set (am_AccessRules am)"
    and "TargetNamespaces lib listNs sys (ar_TargetNamespaces rule) \<noteq> TargetNamespaces lib listNs' sys (ar_TargetNamespaces rule)"
    using mapE_differ [OF before [unfolded ResolveRules_def] after [unfolded ResolveRules_def] assms(10)] by fastforce
  with ResolveRules_ok [OF before rule] ResolveRules_ok [OF after rule] targets_differ [OF cluster]
  have hit: "case e of CreateEvent ns \<Rightarrow> selects_namespace lib (ar_TargetNamespaces rule) ns
     | UpdateEvent old new \<Rightarrow> selects_namespace lib (ar_TargetNamespaces rule) old \<noteq> selects_namespace lib (ar_TargetNamespaces rule) new
     | _ \<Rightarrow> False" by metis
  have compiles: "selectors_compile lib am"
    unfolding selectors_compile_def using ResolveRules_ok [OF before] TargetNamespaces_compiles by blast
  show ?thesis
  proof (cases e)
    case (CreateEvent ns)
    with hit mapNamespaceToRequests_complete [OF laws(1) assms(4) compiles rule] show ?thesis
      by (simp add: namespace_watch_def getEventPredicates_def)
  next
    case (UpdateEvent old new)
    with cluster(3) have name: "ns_Name new = ns_Name old" by simp
    have "\<not> maps_Equal (ns_Labels old) (ns_Labels new)"
      using hit UpdateEvent name maps_Equal_selects [OF laws(3) name] by auto
    with hit UpdateEvent labelUpdate_complete [OF laws(1,2) assms(4) compiles name rule] show ?thesis
      by (simp add: namespace_watch_def getEventPredicates_def)
  qed (use hit in auto)
qed

section \<open>Concrete events\<close>

definition example_lister :: am_lister where
  "example_lister = \<lparr>lister_all = Inr [example_am], lister_field = (\<lambda>key v.
     if key = AccessManagementUsesSelectorIndexKey then Inr (filter (\<lambda>am. v \<in> set (ExtractAccessManagementUsesSelector am)) [example_am])
     else if key = AccessManagementTargetsAllNamespacesIndexKey
     then Inr (filter (\<lambda>am. v \<in> set (ExtractAccessManagementTargetsAllNamespaces am)) [example_am])
     else if key = AccessManagementTargetNamespaceListIndexKey
     then Inr (filter (\<lambda>am. v \<in> set (ExtractAccessManagementTargetNamespaceLists am)) [example_am])
     else Inl (OtherAPIError ''no index''))\<rparr>"

lemma example_lister_laws: "lister_laws example_lister [example_am]"
  by (auto simp: lister_laws_def index_law_def example_lister_def AccessManagementUsesSelectorIndexKey_def
      AccessManagementTargetsAllNamespacesIndexKey_def AccessManagementTargetNamespaceListIndexKey_def)

lemma example_lib_laws: "empty_selector_law example_lib" "labels_law example_lib"
  by (auto simp: empty_selector_law_def labels_law_def example_lib_def labelSelector_def no_selector_def result_simps
      split: option.splits if_splits)

lemma example_am_compiles: "selectors_compile example_lib example_am"
  by (auto simp: selectors_compile_def rule_compiles_def example_am_def example_team_def example_lib_def labelSelector_def Let_def)

theorem mapNamespaceToRequests_exact_witness:
  "set (mapNamespaceToRequests example_lib example_lister \<lparr>ns_Name = ''dev2'', ns_Labels = [(''team'', ''a'')]\<rparr>) = {ObjectKey [] ''kcm''}"
proof -
  let ?ns = "\<lparr>ns_Name = ''dev2'', ns_Labels = [(''team'', ''a'')]\<rparr>"
  have "accessManagementTargetsNamespace example_lib example_am ?ns = Inr True" by code_simp
  with accessManagementTargetsNamespace_iff [OF example_am_compiles]
  have "\<exists>rule\<in>set (am_AccessRules example_am). selects_namespace example_lib (ar_TargetNamespaces rule) ?ns" by blast
  moreover have "am_Name example_am = ''kcm''" by (simp add: example_am_def)
  ultimately show ?thesis
    using mapNamespaceToRequests_exact [OF example_lister_laws example_lib_laws(1), of ?ns] example_am_compiles by auto
qed

theorem namespace_event_noticed_witness:
  "ObjectKey [] ''kcm'' \<in> set (namespace_watch example_lib example_lister
     (UpdateEvent \<lparr>ns_Name = ''ops'', ns_Labels = []\<rparr> \<lparr>ns_Name = ''ops'', ns_Labels = [(''team'', ''a'')]\<rparr>))"
proof -
  let ?e = "UpdateEvent \<lparr>ns_Name = ''ops'', ns_Labels = []\<rparr> \<lparr>ns_Name = ''ops'', ns_Labels = [(''team'', ''a'')]\<rparr>"
  let ?after = "after_event example_namespaces ?e"
  let ?list = "\<lambda>s. Inr (filter (\<lambda>n. case s of None \<Rightarrow> True | Some sel \<Rightarrow> sel_Matches sel (ns_Labels n)) ?after)"
  have run: "ResolveRules example_lib example_list_namespaces ''kcm-system'' (am_AccessRules example_am)
      = Inr [\<lparr>rule_Namespaces = [''dev''], rule_Resources = [example_credentials]\<rparr>]"
    "ResolveRules example_lib ?list ''kcm-system'' (am_AccessRules example_am)
      = Inr [\<lparr>rule_Namespaces = [''dev'', ''ops''], rule_Resources = [example_credentials]\<rparr>]"
    by code_simp+
  have lists: "lists_namespaces example_list_namespaces example_namespaces" "lists_namespaces ?list ?after"
    by (simp_all add: lists_namespaces_def example_list_namespaces_def)
  have "possible_event example_namespaces ?e" by (simp add: example_namespaces_def)
  from namespace_event_noticed [OF example_lister_laws example_lib_laws _ lists this run] show ?thesis
    by (simp add: example_am_def)
qed

end
