(* ===== verification/TemplateWebhook.thy ===== *)
theory TemplateWebhook
  imports AccessPlan MCSGate
begin

text \<open>
  Admission of templates and template chains: \<^verbatim>\<open>internal/webhook/template_webhook.go\<close>,
  \<^verbatim>\<open>templatechain_webhook.go\<close> and \<^verbatim>\<open>release_webhook.go\<close>, with the indexes they look objects up in
  (\<^verbatim>\<open>api/v1beta1/indexers.go\<close>).

  A ClusterTemplate can be deleted exactly if nothing refers to it: no ClusterDeployment, no existing
  chain that owns it, no copy using its chart. For ServiceTemplates the lookup of
  MultiClusterServices reads one object only, so that one under deletion hides the live ones.
\<close>

section \<open>Objects\<close>

text \<open>A ClusterTemplate: the metadata of any object, its Helm source and its status.\<close>

record ClusterTemplate = PartialObject +
  ct_Helm :: HelmSpec
  ct_StatusProviders :: "string list"
  ct_StatusProviderContracts :: "(string \<times> string) list"
  ct_StatusKubernetesVersion :: string
  ct_StatusConfig :: "string option"
  ct_StatusChartRef :: "SourceReference option"
  ct_Valid :: bool
  ct_ValidationError :: string

record Component =
  comp_Name :: string
  comp_Template :: string

text \<open>\<open>spec.core\<close> holds the templates of CAPI and of KCM.\<close>

record Core =
  core_CAPI :: string
  core_KCM :: string

record Management =
  mgmt_Name :: string
  mgmt_Deleting :: bool
  mgmt_Release :: string
  mgmt_Core :: "Core option"
  mgmt_Providers :: "Component list"

definition Management_Templates :: "Management \<Rightarrow> string list" where
  "Management_Templates mgmt =
     (case mgmt_Core mgmt of
        None \<Rightarrow> []
      | Some core \<Rightarrow> (if core_CAPI core \<noteq> [] then [core_CAPI core] else []) @ (if core_KCM core \<noteq> [] then [core_KCM core] else []))
     @ filter (\<lambda>t. t \<noteq> []) (map comp_Template (mgmt_Providers mgmt))"

record Release =
  rel_Name :: string
  rel_Annotations :: "(string \<times> string) list"
  rel_Version :: string
  rel_KCM :: string
  rel_CAPI :: string
  rel_Regional :: string
  rel_Providers :: "Component list"
  rel_Ready :: bool

definition getKCMRegionalTemplateName :: "Release \<Rightarrow> string" where
  "getKCMRegionalTemplateName r =
     (if rel_Regional r \<noteq> [] then rel_Regional r
      else get_or [] (alookup (rel_Annotations r)) ''k0rdent.mirantis.com/kcm-regional-template'')"

definition Release_Templates :: "Release \<Rightarrow> string list" where
  "Release_Templates r =
     (let kcmRegionalTemplateName = getKCMRegionalTemplateName r
      in [rel_KCM r, rel_CAPI r] @ (if kcmRegionalTemplateName \<noteq> [] then [kcmRegionalTemplateName] else [])
         @ map comp_Template (rel_Providers r))"

section \<open>Indexes\<close>

definition ClusterDeploymentTemplateIndexKey :: string where
  "ClusterDeploymentTemplateIndexKey = ''.spec.template''"

definition ClusterDeploymentServiceTemplatesIndexKey :: string where
  "ClusterDeploymentServiceTemplatesIndexKey = ''.spec.services[].Template''"

definition ExtractTemplateNameFromClusterDeployment :: "ClusterDeployment \<Rightarrow> string list" where
  "ExtractTemplateNameFromClusterDeployment cluster = [cd_Template cluster]"

definition ExtractServiceTemplateNamesFromClusterDeployment :: "ClusterDeployment \<Rightarrow> string list" where
  "ExtractServiceTemplateNamesFromClusterDeployment cluster = map svc_Template (sp_Services (cd_ServiceSpec cluster))"

definition ExtractServiceTemplateNamesFromMultiClusterService :: "MultiClusterService \<Rightarrow> string list" where
  "ExtractServiceTemplateNamesFromMultiClusterService mcs = map svc_Template (sp_Services (mcs_ServiceSpec mcs))"

definition HelmChartIndexValue :: "string \<Rightarrow> string \<Rightarrow> string" where
  "HelmChartIndexValue namespace name = namespace @ ''/'' @ name"

definition ExtractChartRefFromClusterTemplate :: "ClusterTemplate \<Rightarrow> string list" where
  "ExtractChartRefFromClusterTemplate ct =
     (case helm_ChartRef (ct_Helm ct) of
        None \<Rightarrow> []
      | Some ref \<Rightarrow>
          if src_Kind ref \<noteq> ''HelmChart'' then []
          else let namespace = (if src_Namespace ref = [] then po_Namespace ct else src_Namespace ref)
               in [HelmChartIndexValue namespace (src_Name ref)])"

section \<open>Validators\<close>

text \<open>
  The reads of the client. The three lists by index are limited to one object; the arguments of the
  first are index key, namespace and value. \<open>wc_getOwner\<close> reads the metadata of an object of the
  given API version and kind, and returns the error if there is one.
\<close>

record webhook_client =
  wc_clusterDeployments :: "string \<Rightarrow> string \<Rightarrow> string \<Rightarrow> api_error + ClusterDeployment list"
  wc_clusterTemplatesByChart :: "string \<Rightarrow> api_error + ClusterTemplate list"
  wc_multiClusterServicesByTemplate :: "string \<Rightarrow> api_error + MultiClusterService list"
  wc_getOwner :: "string \<Rightarrow> string \<Rightarrow> ObjectKey \<Rightarrow> api_error option"
  wc_managements :: "api_error + Management list"

datatype webhook_error =
    TemplateDeletionForbidden
  | InvalidTemplateKind string
  | ListFailed api_error
  | OwnersFailed "api_error list"
  | ManagementIsNotFound
  | ManagementCount nat
  | ReleaseInUse string
  | TemplatesInUse "string list"
  | InvalidTemplateChainSpec
  | ChainTemplates "(nat \<times> string \<times> api_error) list"

text \<open>A verdict: the warnings, and the error if the request is refused.\<close>

type_synonym 'e verdict = "string list \<times> 'e option"

definition templateIsInUseByCluster :: "string \<Rightarrow> webhook_client \<Rightarrow> 'm PartialObject_scheme \<Rightarrow> webhook_error + bool" where
  "templateIsInUseByCluster templateKind cl template =
     bindE (if templateKind = ''ClusterTemplate'' then Inr ClusterDeploymentTemplateIndexKey
            else if templateKind = ''ServiceTemplate'' then Inr ClusterDeploymentServiceTemplatesIndexKey
            else Inl (InvalidTemplateKind templateKind))
       (\<lambda>key. bindE (wrapE ListFailed (wc_clusterDeployments cl key (po_Namespace template) (po_Name template)))
          (\<lambda>items. Inr (length items > 0)))"

definition ownerExists :: "webhook_client \<Rightarrow> OwnerReference \<Rightarrow> string \<Rightarrow> api_error + bool" where
  "ownerExists cl ownerRef namespace =
     (case wc_getOwner cl (or_APIVersion ownerRef) (or_Kind ownerRef) (ObjectKey namespace (or_Name ownerRef)) of
        None \<Rightarrow> Inr True
      | Some e \<Rightarrow> if e = NotFound then Inr False else Inl e)"

text \<open>The owners found and the errors of the lookups.\<close>

definition getOwnersWithKind :: "webhook_client \<Rightarrow> 'm PartialObject_scheme \<Rightarrow> string \<Rightarrow> string list \<times> api_error list" where
  "getOwnersWithKind cl template kind =
     fold (\<lambda>ownerRef (owners, errs).
         if or_Kind ownerRef = kind then
           (case ownerExists cl ownerRef (po_Namespace template) of
              Inl e \<Rightarrow> (owners, errs @ [e])
            | Inr exists \<Rightarrow> (if exists then owners @ [or_Name ownerRef] else owners, errs))
         else (owners, errs))
       (po_OwnerReferences template) ([], [])"

definition hasDistributedCopies :: "string \<Rightarrow> webhook_client \<Rightarrow> ClusterTemplate \<Rightarrow> webhook_error + bool" where
  "hasDistributedCopies systemNamespace cl obj =
     (if po_Namespace obj \<noteq> systemNamespace \<or> helm_ChartSpec (ct_Helm obj) = None then Inr False
      else bindE (wrapE ListFailed (wc_clusterTemplatesByChart cl (HelmChartIndexValue (po_Namespace obj) (po_Name obj))))
             (\<lambda>items. Inr (length items > 0)))"

definition ClusterTemplate_ValidateDelete :: "string \<Rightarrow> webhook_client \<Rightarrow> ClusterTemplate \<Rightarrow> webhook_error verdict" where
  "ClusterTemplate_ValidateDelete systemNamespace cl obj =
     (case templateIsInUseByCluster ''ClusterTemplate'' cl obj of
        Inl e \<Rightarrow> ([], Some e)
      | Inr inUseByCluster \<Rightarrow>
          if inUseByCluster
          then ([''The ClusterTemplate object can't be removed if ClusterDeployment objects referencing it still exist''],
                Some TemplateDeletionForbidden)
          else
     (case getOwnersWithKind cl obj ''ClusterTemplateChain'' of
        (owners, errs) \<Rightarrow>
          if errs \<noteq> [] then ([], Some (OwnersFailed errs))
          else if length owners > 0
          then ([''The ClusterTemplate object can't be removed if it is managed by ClusterTemplateChain: '' @ join_strings '', '' owners],
                Some TemplateDeletionForbidden)
          else
     (case hasDistributedCopies systemNamespace cl obj of
        Inl e \<Rightarrow> ([], Some e)
      | Inr hasCopies \<Rightarrow>
          if hasCopies
          then ([''The ClusterTemplate object can't be removed while its distributed copies reference its HelmChart''],
                Some TemplateDeletionForbidden)
          else ([], None))))"

definition ServiceTemplate_ValidateDelete :: "string \<Rightarrow> webhook_client \<Rightarrow> 'm PartialObject_scheme \<Rightarrow> webhook_error verdict" where
  "ServiceTemplate_ValidateDelete systemNamespace cl obj =
     (case templateIsInUseByCluster ''ServiceTemplate'' cl obj of
        Inl e \<Rightarrow> ([], Some e)
      | Inr inUseByCluster \<Rightarrow>
          if inUseByCluster
          then ([''The ServiceTemplate object can't be removed if ClusterDeployment objects referencing it still exist''],
                Some TemplateDeletionForbidden)
          else
     (case getOwnersWithKind cl obj ''ServiceTemplateChain'' of
        (owners, errs) \<Rightarrow>
          if errs \<noteq> [] then ([], Some (OwnersFailed errs))
          else if length owners > 0
          then ([''The ServiceTemplate object can't be removed if it is managed by ServiceTemplateChain: '' @ join_strings '', '' owners],
                Some TemplateDeletionForbidden)
          else if po_Namespace obj = systemNamespace then
     (case wc_multiClusterServicesByTemplate cl (po_Name obj) of
        Inl e \<Rightarrow> ([], Some (ListFailed e))
      | Inr items \<Rightarrow>
          let mcsNames = map mcs_Name (filter (\<lambda>msc. \<not> mcs_Deleting msc) items)
          in if length mcsNames > 0
             then ([''The '' @ po_Name obj @ '' ServiceTemplate object can't be removed if MultiClusterService objects ['' @
                    join_strings '','' mcsNames @ ''] referencing it still exist''], Some TemplateDeletionForbidden)
             else ([], None))
          else ([], None)))"

definition getManagement :: "webhook_client \<Rightarrow> webhook_error + Management" where
  "getManagement cl =
     bindE (wrapE ListFailed (wc_managements cl)) (\<lambda>items.
       case items of
         [] \<Rightarrow> Inl ManagementIsNotFound
       | [mgmt] \<Rightarrow> Inr mgmt
       | _ \<Rightarrow> Inl (ManagementCount (length items)))"

definition ProviderTemplate_ValidateDelete :: "webhook_client \<Rightarrow> 'm PartialObject_scheme \<Rightarrow> webhook_error verdict" where
  "ProviderTemplate_ValidateDelete cl obj =
     (case getOwnersWithKind cl obj ''Release'' of
        (owners, errs) \<Rightarrow>
          if errs \<noteq> [] then ([], Some (OwnersFailed errs))
          else if length owners > 0
          then ([''The ProviderTemplate '' @ po_Name obj @ '' cannot be removed while it is part of existing Releases: '' @ join_strings '', '' owners],
                Some TemplateDeletionForbidden)
          else
     (case getManagement cl of
        Inl e \<Rightarrow> if e = ManagementIsNotFound then ([], None) else ([], Some e)
      | Inr mgmt \<Rightarrow>
          if \<not> mgmt_Deleting mgmt \<and> po_Name obj \<in> set (Management_Templates mgmt)
          then ([''The ProviderTemplate '' @ po_Name obj @ '' cannot be removed while it is used in the Management spec''],
                Some TemplateDeletionForbidden)
          else ([], None)))"

definition Release_ValidateDelete :: "webhook_client \<Rightarrow> Release \<Rightarrow> webhook_error verdict" where
  "Release_ValidateDelete cl obj =
     (case getManagement cl of
        Inl e \<Rightarrow> if e = ManagementIsNotFound then ([], None) else ([], Some e)
      | Inr mgmt \<Rightarrow>
          if mgmt_Release mgmt = rel_Name obj then ([], Some (ReleaseInUse (rel_Name obj)))
          else let templatesInUse = filter (\<lambda>t. t \<in> set (Release_Templates obj)) (Management_Templates mgmt)
               in if length templatesInUse > 0 then ([], Some (TemplatesInUse templatesInUse)) else ([], None))"

text \<open>\<open>setHelmChartDefaults\<close>; the interval is in seconds.\<close>

definition DefaultSourceRef :: SourceReference where
  "DefaultSourceRef = \<lparr>src_Kind = ''HelmRepository'', src_Name = ''kcm-templates'', src_Namespace = []\<rparr>"

definition setHelmChartDefaults :: "HelmSpec \<Rightarrow> HelmSpec" where
  "setHelmChartDefaults helmSpec =
     (case helm_ChartSpec helmSpec of
        None \<Rightarrow> helmSpec
      | Some chartSpec \<Rightarrow>
          let cs1 = (if src_Name (hc_SourceRef chartSpec) = [] \<and> src_Kind (hc_SourceRef chartSpec) = []
                     then chartSpec\<lparr>hc_SourceRef := DefaultSourceRef\<rparr> else chartSpec);
              cs2 = (if hc_Interval cs1 = 0 then cs1\<lparr>hc_Interval := 600\<rparr> else cs1)
          in helmSpec\<lparr>helm_ChartSpec := Some cs2\<rparr>)"

subsection \<open>Template chains\<close>

text \<open>The errors of \<open>field.ErrorList\<close>: index and name of the template, and why it was not read.\<close>

definition validateChainsTemplates ::
  "(ObjectKey \<Rightarrow> api_error option) \<Rightarrow> string \<Rightarrow> TemplateChainSpec \<Rightarrow> (nat \<times> string \<times> api_error) list" where
  "validateChainsTemplates getTemplate namespace chainSpec =
     concat (map (\<lambda>(i, st). case getTemplate (ObjectKey namespace (stpl_Name st)) of
                              None \<Rightarrow> [] | Some e \<Rightarrow> [(i, stpl_Name st, e)])
               (enumerate 0 (tcs_SupportedTemplates chainSpec)))"

text \<open>The two chain validators differ only in the kind of the templates they read.\<close>

definition TemplateChain_ValidateCreate ::
  "string \<Rightarrow> string list \<Rightarrow> (ObjectKey \<Rightarrow> api_error option) \<Rightarrow> string \<Rightarrow> (string \<times> string) list \<Rightarrow> TemplateChainSpec
     \<Rightarrow> webhook_error verdict" where
  "TemplateChain_ValidateCreate systemNamespace order getTemplate namespace labels chainSpec =
     (case IsValid order chainSpec of
        (warnings, ok) \<Rightarrow>
          if \<not> ok then (warnings, Some InvalidTemplateChainSpec)
          else if get_or [] (alookup labels) ''k0rdent.mirantis.com/managed'' \<noteq> ''true'' \<or> namespace = systemNamespace
          then let errs = validateChainsTemplates getTemplate namespace chainSpec
               in if length errs > 0 then ([], Some (ChainTemplates errs)) else ([], None)
          else ([], None))"

section \<open>Deleting a ClusterTemplate\<close>

text \<open>
  Documented behaviour of a list by index with a limit of one: what is returned matches, and
  something is returned if anything matches.
\<close>

definition first_of :: "'a list \<Rightarrow> 'a set \<Rightarrow> bool" where
  "first_of items matching \<longleftrightarrow> length items \<le> 1 \<and> set items \<subseteq> matching \<and> (items = [] \<longrightarrow> matching = {})"

lemma first_of_nonempty: "first_of items S \<Longrightarrow> items \<noteq> [] \<longleftrightarrow> S \<noteq> {}"
  by (cases items) (auto simp: first_of_def)

definition webhook_laws ::
  "webhook_client \<Rightarrow> ClusterDeployment list \<Rightarrow> ClusterTemplate list \<Rightarrow> MultiClusterService list \<Rightarrow> bool" where
  "webhook_laws cl cds cts mcss \<longleftrightarrow>
     (\<forall>ns v items. wc_clusterDeployments cl ClusterDeploymentTemplateIndexKey ns v = Inr items \<longrightarrow>
        first_of items {d \<in> set cds. cd_Namespace d = ns \<and> v \<in> set (ExtractTemplateNameFromClusterDeployment d)})
     \<and> (\<forall>ns v items. wc_clusterDeployments cl ClusterDeploymentServiceTemplatesIndexKey ns v = Inr items \<longrightarrow>
        first_of items {d \<in> set cds. cd_Namespace d = ns \<and> v \<in> set (ExtractServiceTemplateNamesFromClusterDeployment d)})
     \<and> (\<forall>v items. wc_clusterTemplatesByChart cl v = Inr items \<longrightarrow>
        first_of items {t \<in> set cts. v \<in> set (ExtractChartRefFromClusterTemplate t)})
     \<and> (\<forall>v items. wc_multiClusterServicesByTemplate cl v = Inr items \<longrightarrow>
        first_of items {m \<in> set mcss. v \<in> set (ExtractServiceTemplateNamesFromMultiClusterService m)})"

lemma getOwnersWithKind_fold:
  "getOwnersWithKind cl t kind =
     (map or_Name (filter (\<lambda>ref. or_Kind ref = kind \<and> ownerExists cl ref (po_Namespace t) = Inr True) (po_OwnerReferences t)),
      concat (map (\<lambda>ref. case ownerExists cl ref (po_Namespace t) of Inl e \<Rightarrow> if or_Kind ref = kind then [e] else [] | Inr _ \<Rightarrow> [])
                (po_OwnerReferences t)))"
proof -
  have "fold (\<lambda>ownerRef (owners, errs).
         if or_Kind ownerRef = kind then
           (case ownerExists cl ownerRef (po_Namespace t) of
              Inl e \<Rightarrow> (owners, errs @ [e])
            | Inr exists \<Rightarrow> (if exists then owners @ [or_Name ownerRef] else owners, errs))
         else (owners, errs)) refs (os, es) =
     (os @ map or_Name (filter (\<lambda>ref. or_Kind ref = kind \<and> ownerExists cl ref (po_Namespace t) = Inr True) refs),
      es @ concat (map (\<lambda>ref. case ownerExists cl ref (po_Namespace t) of Inl e \<Rightarrow> if or_Kind ref = kind then [e] else [] | Inr _ \<Rightarrow> []) refs))"
    for refs os es
    by (induction refs arbitrary: os es) (auto split: sum.splits)
  then show ?thesis by (simp add: getOwnersWithKind_def)
qed

lemma ownerExists_True: "ownerExists cl ref ns = Inr True \<longleftrightarrow> wc_getOwner cl (or_APIVersion ref) (or_Kind ref) (ObjectKey ns (or_Name ref)) = None"
  by (auto simp: ownerExists_def split: option.splits)

definition used_by_cluster :: "ClusterDeployment list \<Rightarrow> 'm PartialObject_scheme \<Rightarrow> bool" where
  "used_by_cluster cds t \<longleftrightarrow> (\<exists>d\<in>set cds. cd_Namespace d = po_Namespace t \<and> cd_Template d = po_Name t)"

definition owned_by_existing :: "webhook_client \<Rightarrow> string \<Rightarrow> 'm PartialObject_scheme \<Rightarrow> bool" where
  "owned_by_existing cl kind t \<longleftrightarrow>
     (\<exists>ref\<in>set (po_OwnerReferences t). or_Kind ref = kind
        \<and> wc_getOwner cl (or_APIVersion ref) kind (ObjectKey (po_Namespace t) (or_Name ref)) = None)"

definition refers_to_chart :: "ClusterTemplate \<Rightarrow> string \<Rightarrow> string \<Rightarrow> bool" where
  "refers_to_chart c ns name \<longleftrightarrow>
     (\<exists>ref. helm_ChartRef (ct_Helm c) = Some ref \<and> src_Kind ref = ''HelmChart'' \<and> src_Name ref = name
        \<and> (if src_Namespace ref = [] then po_Namespace c else src_Namespace ref) = ns)"

definition has_copies :: "ClusterTemplate list \<Rightarrow> string \<Rightarrow> ClusterTemplate \<Rightarrow> bool" where
  "has_copies cts sys t \<longleftrightarrow> po_Namespace t = sys \<and> helm_ChartSpec (ct_Helm t) \<noteq> None
     \<and> (\<exists>c\<in>set cts. refers_to_chart c (po_Namespace t) (po_Name t))"

definition template_referenced ::
  "webhook_client \<Rightarrow> ClusterDeployment list \<Rightarrow> ClusterTemplate list \<Rightarrow> string \<Rightarrow> ClusterTemplate \<Rightarrow> bool" where
  "template_referenced cl cds cts sys t \<longleftrightarrow>
     used_by_cluster cds t \<or> owned_by_existing cl ''ClusterTemplateChain'' t \<or> has_copies cts sys t"

text \<open>Namespaces have no slash in them.\<close>

definition plain_charts :: "string \<Rightarrow> ClusterTemplate list \<Rightarrow> bool" where
  "plain_charts ns cts \<longleftrightarrow> CHR ''/'' \<notin> set ns
     \<and> (\<forall>c\<in>set cts. CHR ''/'' \<notin> set (po_Namespace c)
          \<and> (\<forall>ref. helm_ChartRef (ct_Helm c) = Some ref \<longrightarrow> CHR ''/'' \<notin> set (src_Namespace ref)))"

lemma extract_chart:
  assumes "plain_charts ns cts" and "c \<in> set cts"
  shows "HelmChartIndexValue ns name \<in> set (ExtractChartRefFromClusterTemplate c) \<longleftrightarrow> refers_to_chart c ns name"
proof -
  have "HelmChartIndexValue a b = NamespacedName a b" for a b by (simp add: HelmChartIndexValue_def NamespacedName_def)
  moreover have plain: "CHR ''/'' \<notin> set ns" "CHR ''/'' \<notin> set (po_Namespace c)"
    "\<And>ref. helm_ChartRef (ct_Helm c) = Some ref \<Longrightarrow> CHR ''/'' \<notin> set (src_Namespace ref)"
    using assms unfolding plain_charts_def by blast+
  ultimately show ?thesis
    by (cases "helm_ChartRef (ct_Helm c)")
      (auto simp: ExtractChartRefFromClusterTemplate_def refers_to_chart_def Let_def NamespacedName_inj)
qed

definition delete_reads_ok :: "string \<Rightarrow> webhook_client \<Rightarrow> ClusterTemplate \<Rightarrow> bool" where
  "delete_reads_ok sys cl t \<longleftrightarrow>
     \<not> isl (wc_clusterDeployments cl ClusterDeploymentTemplateIndexKey (po_Namespace t) (po_Name t))
     \<and> \<not> isl (wc_clusterTemplatesByChart cl (HelmChartIndexValue (po_Namespace t) (po_Name t)))
     \<and> (\<forall>ref\<in>set (po_OwnerReferences t). \<not> isl (ownerExists cl ref (po_Namespace t)))"

lemma inUse_spec:
  assumes "webhook_laws cl cds cts mcss" and "templateIsInUseByCluster ''ClusterTemplate'' cl t = Inr b"
  shows "b \<longleftrightarrow> used_by_cluster cds t"
proof -
  from assms(2) obtain items where
    items: "wc_clusterDeployments cl ClusterDeploymentTemplateIndexKey (po_Namespace t) (po_Name t) = Inr items" and b: "b \<longleftrightarrow> items \<noteq> []"
    by (auto simp: templateIsInUseByCluster_def result_simps)
  from assms(1) items have "first_of items {d \<in> set cds. cd_Namespace d = po_Namespace t
      \<and> po_Name t \<in> set (ExtractTemplateNameFromClusterDeployment d)}" unfolding webhook_laws_def by blast
  from first_of_nonempty [OF this] b show ?thesis
    by (auto simp: used_by_cluster_def ExtractTemplateNameFromClusterDeployment_def)
qed

lemma owners_spec:
  assumes "getOwnersWithKind cl t kind = (owners, errs)"
  shows "owners \<noteq> [] \<longleftrightarrow> owned_by_existing cl kind t"
proof -
  from assms have "owners = map or_Name (filter (\<lambda>ref. or_Kind ref = kind \<and> ownerExists cl ref (po_Namespace t) = Inr True) (po_OwnerReferences t))"
    by (simp add: getOwnersWithKind_fold)
  then show ?thesis unfolding owned_by_existing_def by (simp add: filter_empty_conv ownerExists_True)
qed

lemma copies_spec:
  assumes "webhook_laws cl cds cts mcss" and "plain_charts (po_Namespace t) cts" and "hasDistributedCopies sys cl t = Inr b"
  shows "b \<longleftrightarrow> has_copies cts sys t"
proof (cases "po_Namespace t \<noteq> sys \<or> helm_ChartSpec (ct_Helm t) = None")
  case False
  then obtain items where items: "wc_clusterTemplatesByChart cl (HelmChartIndexValue (po_Namespace t) (po_Name t)) = Inr items"
    and b: "b \<longleftrightarrow> items \<noteq> []" using assms(3) by (auto simp: hasDistributedCopies_def result_simps)
  with assms(1) have "first_of items {c \<in> set cts. HelmChartIndexValue (po_Namespace t) (po_Name t) \<in> set (ExtractChartRefFromClusterTemplate c)}"
    unfolding webhook_laws_def by blast
  from first_of_nonempty [OF this]
  have "items \<noteq> [] \<longleftrightarrow> (\<exists>c\<in>set cts. refers_to_chart c (po_Namespace t) (po_Name t))"
    using extract_chart [OF assms(2)] by blast
  with b False show ?thesis by (simp add: has_copies_def)
qed (use assms(3) in \<open>auto simp: hasDistributedCopies_def has_copies_def\<close>)

lemma ClusterTemplate_ValidateDelete_spec:
  assumes "webhook_laws cl cds cts mcss" and "plain_charts (po_Namespace t) cts"
  shows "snd (ClusterTemplate_ValidateDelete sys cl t) = None \<Longrightarrow> \<not> template_referenced cl cds cts sys t"
    and "snd (ClusterTemplate_ValidateDelete sys cl t) = Some TemplateDeletionForbidden \<Longrightarrow> template_referenced cl cds cts sys t"
    and "delete_reads_ok sys cl t \<Longrightarrow>
      snd (ClusterTemplate_ValidateDelete sys cl t) = (if template_referenced cl cds cts sys t then Some TemplateDeletionForbidden else None)"
proof -
  obtain owners errs where own: "getOwnersWithKind cl t ''ClusterTemplateChain'' = (owners, errs)" by (metis surj_pair)
  note specs = inUse_spec [OF assms(1)] owners_spec [OF own] copies_spec [OF assms(1,2)]
  show "snd (ClusterTemplate_ValidateDelete sys cl t) = None \<Longrightarrow> \<not> template_referenced cl cds cts sys t"
    and "snd (ClusterTemplate_ValidateDelete sys cl t) = Some TemplateDeletionForbidden \<Longrightarrow> template_referenced cl cds cts sys t"
    using specs own unfolding template_referenced_def
    by (auto simp: ClusterTemplate_ValidateDelete_def split: sum.splits if_splits prod.splits)
       (auto simp: templateIsInUseByCluster_def hasDistributedCopies_def result_simps split: if_splits)
  show "snd (ClusterTemplate_ValidateDelete sys cl t) = (if template_referenced cl cds cts sys t then Some TemplateDeletionForbidden else None)"
    if ok: "delete_reads_ok sys cl t"
  proof -
    have "errs = []" using own ok
      by (auto simp: getOwnersWithKind_fold delete_reads_ok_def split: sum.splits if_splits) (metis isl_def)+
    moreover obtain b where b: "templateIsInUseByCluster ''ClusterTemplate'' cl t = Inr b"
      using ok by (auto simp: delete_reads_ok_def templateIsInUseByCluster_def isl_def split: sum.splits) (metis sum.exhaust bindE_simps(2) wrapE_simps(2))
    moreover obtain c where c: "hasDistributedCopies sys cl t = Inr c"
      using ok by (auto simp: delete_reads_ok_def hasDistributedCopies_def isl_def split: sum.splits) (metis sum.exhaust bindE_simps(2) wrapE_simps(2))
    ultimately show ?thesis
      using specs(1) [OF b] specs(2) specs(3) [OF c] own
      by (auto simp: template_referenced_def ClusterTemplate_ValidateDelete_def)
  qed
qed

text \<open>
  Deleting a ClusterTemplate is refused as forbidden only if it is referenced, by a ClusterDeployment
  of its namespace, by an existing ClusterTemplateChain that owns it, or by a copy that uses the
  HelmChart of a template of the system namespace; it is allowed only if it is not. Unless a read
  fails there is no other outcome.
\<close>

theorem ClusterTemplate_ValidateDelete_correct:
  assumes "webhook_laws cl cds cts mcss" and "plain_charts (po_Namespace t) cts"
  shows "let verdict = snd (ClusterTemplate_ValidateDelete sys cl t); referenced = template_referenced cl cds cts sys t
    in (verdict = None \<longrightarrow> \<not> referenced) \<and> (verdict = Some TemplateDeletionForbidden \<longrightarrow> referenced)
       \<and> (delete_reads_ok sys cl t \<longrightarrow> verdict = (if referenced then Some TemplateDeletionForbidden else None))"
  unfolding Let_def using ClusterTemplate_ValidateDelete_spec [OF assms] by blast

section \<open>Other templates\<close>

text \<open>
  Deleting a ProviderTemplate is refused exactly while an existing Release owns it or a Management
  that is not under deletion names it, provided the reads succeed and there is at most one
  Management.
\<close>

theorem ProviderTemplate_ValidateDelete_correct:
  assumes "wc_managements cl = Inr mgmts" and "length mgmts \<le> 1"
    and "\<forall>ref\<in>set (po_OwnerReferences t). \<not> isl (ownerExists cl ref (po_Namespace t))"
  shows "snd (ProviderTemplate_ValidateDelete cl t) =
    (if owned_by_existing cl ''Release'' t \<or> (\<exists>m\<in>set mgmts. \<not> mgmt_Deleting m \<and> po_Name t \<in> set (Management_Templates m))
     then Some TemplateDeletionForbidden else None)"
proof -
  obtain owners errs where own: "getOwnersWithKind cl t ''Release'' = (owners, errs)" by (metis surj_pair)
  have "errs = []" using own assms(3)
    by (auto simp: getOwnersWithKind_fold isl_def split: sum.splits if_splits)
  then show ?thesis
    using owners_spec [OF own] own assms(1,2)
    by (cases mgmts) (auto simp: ProviderTemplate_ValidateDelete_def getManagement_def)
qed

section \<open>Concrete objects\<close>

definition example_meta :: "string \<Rightarrow> string \<Rightarrow> PartialObject" where
  "example_meta ns name = \<lparr>po_Namespace = ns, po_Name = name, po_Labels = [], po_OwnerReferences = [], po_Deleting = False\<rparr>"

definition example_template :: "string \<Rightarrow> string \<Rightarrow> HelmSpec \<Rightarrow> ClusterTemplate" where
  "example_template ns name helm = PartialObject.extend (example_meta ns name)
     (ClusterTemplate.fields helm [] [] [] None None True [])"

definition example_chart :: HelmChartSpec where
  "example_chart = \<lparr>hc_Chart = ''c'', hc_Version = ''1.0.0'', hc_SourceRef = DefaultSourceRef, hc_Interval = 600\<rparr>"

definition example_mgmt :: Management where
  "example_mgmt = \<lparr>mgmt_Name = ''kcm'', mgmt_Deleting = False, mgmt_Release = ''r'', mgmt_Core = None,
     mgmt_Providers = [\<lparr>comp_Name = ''aws'', comp_Template = ''aws-1''\<rparr>]\<rparr>"

text \<open>Two MultiClusterServices use the ServiceTemplate \<open>a\<close>; the one under deletion is listed first.\<close>

definition example_users :: "MultiClusterService list" where
  "example_users = [(example_dep_mcs [example_service ''a'' []])\<lparr>mcs_Name := ''old'', mcs_Deleting := True\<rparr>,
     example_dep_mcs [example_service ''a'' []]]"

definition example_webhook_client :: "ClusterTemplate list \<Rightarrow> webhook_client" where
  "example_webhook_client cts = \<lparr>wc_clusterDeployments = (\<lambda>_ _ _. Inr []),
     wc_clusterTemplatesByChart = (\<lambda>v. Inr (take 1 (filter (\<lambda>t. v \<in> set (ExtractChartRefFromClusterTemplate t)) cts))),
     wc_multiClusterServicesByTemplate = (\<lambda>v. Inr (take 1 (filter (\<lambda>m. v \<in> set (ExtractServiceTemplateNamesFromMultiClusterService m)) example_users))),
     wc_getOwner = (\<lambda>_ _ _. Some NotFound), wc_managements = Inr []\<rparr>"

lemma first_of_take: "first_of (take (Suc 0) (filter P xs)) {x \<in> set xs. P x}"
  by (cases "filter P xs") (auto simp: first_of_def filter_empty_conv filter_eq_Cons_iff)

lemma first_of_none: "first_of [] {}"
  by (simp add: first_of_def)

lemma example_webhook_laws: "webhook_laws (example_webhook_client cts) [] cts example_users"
  by (simp add: webhook_laws_def example_webhook_client_def first_of_take first_of_none)


theorem ClusterTemplate_ValidateDelete_correct_witness:
  "let source = example_template ''kcm-system'' ''t'' \<lparr>helm_ChartSpec = Some example_chart, helm_ChartRef = None\<rparr>;
       copy = example_template ''dev'' ''t'' \<lparr>helm_ChartSpec = None,
         helm_ChartRef = Some \<lparr>src_Kind = ''HelmChart'', src_Name = ''t'', src_Namespace = ''kcm-system''\<rparr>\<rparr>
   in template_referenced (example_webhook_client [source, copy]) [] [source, copy] ''kcm-system'' source
      \<and> \<not> template_referenced (example_webhook_client [source, copy]) [] [source, copy] ''kcm-system'' copy"
proof -
  let ?source = "example_template ''kcm-system'' ''t'' \<lparr>helm_ChartSpec = Some example_chart, helm_ChartRef = None\<rparr>"
  let ?copy = "example_template ''dev'' ''t'' \<lparr>helm_ChartSpec = None,
         helm_ChartRef = Some \<lparr>src_Kind = ''HelmChart'', src_Name = ''t'', src_Namespace = ''kcm-system''\<rparr>\<rparr>"
  let ?cl = "example_webhook_client [?source, ?copy]"
  note defs = example_template_def example_meta_def PartialObject.defs ClusterTemplate.defs
  have plain: "plain_charts (po_Namespace ?source) [?source, ?copy]" "plain_charts (po_Namespace ?copy) [?source, ?copy]"
    by (simp_all add: plain_charts_def defs)
  have "snd (ClusterTemplate_ValidateDelete ''kcm-system'' ?cl ?source) = Some TemplateDeletionForbidden"
    "snd (ClusterTemplate_ValidateDelete ''kcm-system'' ?cl ?copy) = None"
    by (simp_all add: ClusterTemplate_ValidateDelete_def templateIsInUseByCluster_def getOwnersWithKind_def hasDistributedCopies_def
        ExtractChartRefFromClusterTemplate_def HelmChartIndexValue_def example_webhook_client_def defs)
  with ClusterTemplate_ValidateDelete_correct [OF example_webhook_laws plain(1), of "''kcm-system''"]
    ClusterTemplate_ValidateDelete_correct [OF example_webhook_laws plain(2), of "''kcm-system''"]
  show ?thesis by (simp add: Let_def)
qed

theorem ProviderTemplate_ValidateDelete_correct_witness:
  "snd (ProviderTemplate_ValidateDelete ((example_webhook_client [])\<lparr>wc_managements := Inr [example_mgmt]\<rparr>) (example_meta [] ''aws-1''))
     = Some TemplateDeletionForbidden"
proof -
  let ?cl = "(example_webhook_client [])\<lparr>wc_managements := Inr [example_mgmt]\<rparr>"
  have "wc_managements ?cl = Inr [example_mgmt]" "length [example_mgmt] \<le> 1"
    "\<forall>ref\<in>set (po_OwnerReferences (example_meta [] ''aws-1'')). \<not> isl (ownerExists ?cl ref (po_Namespace (example_meta [] ''aws-1'')))"
    by (simp_all add: example_meta_def)
  from ProviderTemplate_ValidateDelete_correct [OF this] show ?thesis
    by (simp add: example_mgmt_def Management_Templates_def example_meta_def)
qed

end
