(* ===== verification/AccessWebhook.thy ===== *)
theory AccessWebhook
  imports AccessEvents TemplateWebhook
begin

text \<open>
  Admission of AccessManagements (\<^verbatim>\<open>internal/webhook/accessmanagement_webhook.go\<close>). An update is
  checked against the plan the controller acts on: it is refused if it would newly remove a
  ClusterTemplate that something still refers to.

  The theorems connect the three parts: what admission takes to be removed is what the controller
  would remove, and no admitted update newly removes a ClusterTemplate that is referenced.
\<close>

section \<open>Validation\<close>

text \<open>
  The validator: the REST mapper (\<open>None\<close> if unset), the label library, the reads of AccessManagements
  and Managements (limited to one; of a Management whether it is under deletion), of namespaces, of
  the ClusterTemplates of the system namespace and of those with the managed label, and the reads of
  the ClusterTemplate validator.
\<close>

record am_validator =
  av_SystemNamespace :: string
  av_RESTMapper :: "(GroupKind \<Rightarrow> string + RESTMapping) option"
  av_lib :: k8s_lib
  av_listAccessManagements :: "api_error + AccessManagement list"
  av_listManagementsDeleting :: "api_error + bool list"
  av_listNamespaces :: list_namespaces
  av_listSystemTemplates :: "api_error + ClusterTemplate list"
  av_listManagedTemplates :: "api_error + ClusterTemplate list"
  av_client :: webhook_client

datatype am_admission_error =
    AccessManagementExists
  | AccessManagementDeletionForbidden
  | ReadFailed api_error
  | KindNotResolved GroupKind string
  | KindClusterScoped GroupKind
  | AtResource nat nat am_admission_error
  | RemovalsUnknown access_error
  | WouldRemove ObjectKey webhook_error
  | RemovalCheckFailed ObjectKey webhook_error

definition validateResourceRule :: "am_validator \<Rightarrow> ResourceRule \<Rightarrow> am_admission_error option" where
  "validateResourceRule v res =
     (let gk = rule_GroupKind res
      in case av_RESTMapper v of
           None \<Rightarrow> None
         | Some mapper \<Rightarrow>
             (case mapper gk of
                Inl e \<Rightarrow> Some (KindNotResolved gk e)
              | Inr mapping \<Rightarrow> if \<not> rm_Namespaced mapping then Some (KindClusterScoped gk) else None))"

definition system_namespace_warning :: "nat \<Rightarrow> string \<Rightarrow> string" where
  "system_namespace_warning i systemNamespace = ''accessRules['' @ format_nat i @ ''].targetNamespaces.list: '' @ systemNamespace
     @ '' is the KCM system namespace and will be skipped; objects are never distributed into the namespace they are read from''"

definition validateAccessRules :: "am_validator \<Rightarrow> AccessRule list \<Rightarrow> string list \<times> am_admission_error list" where
  "validateAccessRules v rules =
     (concat (map (\<lambda>(i, rule). if av_SystemNamespace v \<noteq> [] \<and> av_SystemNamespace v \<in> set (rsel_List (ar_TargetNamespaces rule))
                               then [system_namespace_warning i (av_SystemNamespace v)] else []) (enumerate 0 rules)),
      concat (map (\<lambda>(i, rule). concat (map (\<lambda>(j, res). case validateResourceRule v res of None \<Rightarrow> [] | Some e \<Rightarrow> [AtResource i j e])
                                          (enumerate 0 (ar_Resources rule)))) (enumerate 0 rules)))"

definition removals :: "am_validator \<Rightarrow> AccessManagement \<Rightarrow> access_error + ClusterTemplate list" where
  "removals v am = ClusterTemplatesToRemove (av_lib v) (av_listNamespaces v) (av_listSystemTemplates v) (av_listManagedTemplates v)
     (av_SystemNamespace v) am"

abbreviation po_key :: "'m PartialObject_scheme \<Rightarrow> ObjectKey" where
  "po_key ob \<equiv> ObjectKey (po_Namespace ob) (po_Name ob)"

definition check_removal ::
  "am_validator \<Rightarrow> ClusterTemplate \<Rightarrow> string list \<times> am_admission_error list \<Rightarrow> string list \<times> am_admission_error list" where
  "check_removal v template acc =
     (case acc of (warnings, errs) \<Rightarrow>
        case ClusterTemplate_ValidateDelete (av_SystemNamespace v) (av_client v) template of
          (templateWarnings, None) \<Rightarrow> (warnings, errs)
        | (templateWarnings, Some e) \<Rightarrow>
            if e = TemplateDeletionForbidden
            then (warnings @ map (\<lambda>w. po_Namespace template @ ''/'' @ po_Name template @ '': '' @ w) templateWarnings,
                  errs @ [WouldRemove (po_key template) e])
            else (warnings, errs @ [RemovalCheckFailed (po_key template) e]))"

definition validateClusterTemplateRemovals ::
  "am_validator \<Rightarrow> AccessManagement option \<Rightarrow> AccessManagement \<Rightarrow> string list \<times> am_admission_error list" where
  "validateClusterTemplateRemovals v old am =
     (case removals v am of
        Inl e \<Rightarrow> ([], [RemovalsUnknown e])
      | Inr toRemove \<Rightarrow>
          let toRemove' =
            (case old of
               None \<Rightarrow> toRemove
             | Some oldAM \<Rightarrow>
                 if length toRemove > 0 then
                   (case removals v oldAM of
                      Inl _ \<Rightarrow> toRemove
                    | Inr pending \<Rightarrow> filter (\<lambda>template. po_key template \<notin> po_key ` set pending) toRemove)
                 else toRemove)
          in fold (check_removal v) toRemove' ([], []))"

text \<open>
  \<open>equality.Semantic.DeepEqual\<close> on rules: as equality, but a nil and an empty slice are the same.
  Only the names of a resource tell the two apart here.
\<close>

definition semantic_resource :: "ResourceRule \<Rightarrow> ResourceRule" where
  "semantic_resource res = (if rr_Names res = Some [] then res\<lparr>rr_Names := None\<rparr> else res)"

definition semantic_rule :: "AccessRule \<Rightarrow> AccessRule" where
  "semantic_rule rule = rule\<lparr>ar_Resources := map semantic_resource (ar_Resources rule)\<rparr>"

definition accessRulesUnchanged :: "AccessManagement \<Rightarrow> AccessManagement \<Rightarrow> bool" where
  "accessRulesUnchanged oldAM newAM \<longleftrightarrow>
     map semantic_rule (am_AccessRules (fst (MigrateAccessRules oldAM))) = map semantic_rule (am_AccessRules (fst (MigrateAccessRules newAM)))"

definition AM_ValidateCreate :: "am_validator \<Rightarrow> AccessManagement \<Rightarrow> string list \<times> am_admission_error list" where
  "AM_ValidateCreate v am =
     (case av_listAccessManagements v of
        Inl e \<Rightarrow> ([], [ReadFailed e])
      | Inr items \<Rightarrow>
          if length items > 0 then ([], [AccessManagementExists])
          else case validateAccessRules v (am_AccessRules am) of
                 (warnings, errs) \<Rightarrow>
                   if errs \<noteq> [] then (warnings, errs)
                   else case validateClusterTemplateRemovals v None am of
                          (removalWarnings, errs') \<Rightarrow> (warnings @ removalWarnings, errs'))"

text \<open>The updated object with the status of the stored one.\<close>

definition with_status :: "AccessManagement \<Rightarrow> AccessManagement \<Rightarrow> AccessManagement" where
  "with_status newAM oldAM = newAM\<lparr>am_Error := am_Error oldAM, am_Current := am_Current oldAM,
     am_StatusResources := am_StatusResources oldAM, am_ObservedGeneration := am_ObservedGeneration oldAM\<rparr>"

definition AM_ValidateUpdate :: "am_validator \<Rightarrow> AccessManagement \<Rightarrow> AccessManagement \<Rightarrow> string list \<times> am_admission_error list" where
  "AM_ValidateUpdate v oldAM newAM =
     (case validateAccessRules v (am_AccessRules newAM) of
        (warnings, errs) \<Rightarrow>
          if errs \<noteq> [] then (warnings, errs)
          else if accessRulesUnchanged oldAM newAM then (warnings, [])
          else let updated = with_status newAM oldAM
               in case validateClusterTemplateRemovals v (Some oldAM) updated of
                    (removalWarnings, errs') \<Rightarrow> (warnings @ removalWarnings, errs'))"

definition AM_ValidateDelete :: "am_validator \<Rightarrow> string list \<times> am_admission_error list" where
  "AM_ValidateDelete v =
     (case av_listManagementsDeleting v of
        Inl e \<Rightarrow> ([], [ReadFailed e])
      | Inr items \<Rightarrow>
          (case items of
             [] \<Rightarrow> ([], [])
           | deleting # _ \<Rightarrow> if \<not> deleting then ([], [AccessManagementDeletionForbidden]) else ([], [])))"

definition AM_Default :: "AccessManagement \<Rightarrow> AccessManagement" where
  "AM_Default am = fst (MigrateAccessRules am)"

section \<open>The checks of removals\<close>

lemma fold_check_removal:
  assumes "snd (fold (check_removal v) ts acc) = []"
  shows "snd acc = []" and "t \<in> set ts \<Longrightarrow> snd (ClusterTemplate_ValidateDelete (av_SystemNamespace v) (av_client v) t) = None"
  using assms
proof (induction ts arbitrary: acc)
  case (Cons t' ts)
  {
    case 1
    then have "snd (check_removal v t' acc) = []" using Cons.IH(1) by simp
    then show ?case by (auto simp: check_removal_def split: prod.splits option.splits if_splits)
  next
    case 2
    then have rest: "snd (fold (check_removal v) ts (check_removal v t' acc)) = []" by simp
    from Cons.IH(1) [OF rest]
    have "snd (ClusterTemplate_ValidateDelete (av_SystemNamespace v) (av_client v) t') = None"
      by (auto simp: check_removal_def split: prod.splits option.splits if_splits)
    with 2 Cons.IH(2) [OF _ rest] show ?case by auto
  }
qed simp_all

lemma validated_removals:
  assumes "snd (validateClusterTemplateRemovals v old am) = []" and "removals v am = Inr ts" and "t \<in> set ts"
  shows "snd (ClusterTemplate_ValidateDelete (av_SystemNamespace v) (av_client v) t) = None
     \<or> (\<exists>o' pending. old = Some o' \<and> removals v o' = Inr pending \<and> po_key t \<in> po_key ` set pending)"
proof (cases "\<exists>o' pending. old = Some o' \<and> removals v o' = Inr pending \<and> po_key t \<in> po_key ` set pending")
  case False
  let ?ts = "case old of None \<Rightarrow> ts
     | Some oldAM \<Rightarrow> if length ts > 0 then
         (case removals v oldAM of Inl _ \<Rightarrow> ts | Inr pending \<Rightarrow> filter (\<lambda>template. po_key template \<notin> po_key ` set pending) ts) else ts"
  have "t \<in> set ?ts" using False assms(3) by (auto split: option.splits sum.splits)
  moreover have "snd (fold (check_removal v) ?ts ([], [])) = []"
    using assms(1,2) by (simp add: validateClusterTemplateRemovals_def Let_def)
  ultimately show ?thesis using fold_check_removal(2) by blast
qed simp

section \<open>Rules left as they are remove nothing new\<close>

lemma migrate_unchanged: "\<not> snd (migrateAccessRule r) \<Longrightarrow> fst (migrateAccessRule r) = r"
proof -
  assume "\<not> snd (migrateAccessRule r)"
  then have "synthesizeResourceRules r = []" "\<not> HasDeprecatedFields r"
    "\<forall>res\<in>set (ar_Resources r). \<not> (rr_APIGroup res = [] \<and> isBuiltinResourceKind (rr_Kind res))"
    by (auto simp: migrateAccessRule_def Let_def list_ex_iff synthesize_empty)
  moreover then have "map default_group (ar_Resources r) = ar_Resources r"
    by (intro map_idI) (auto simp: default_group_def)
  ultimately show ?thesis by (simp add: migrateAccessRule_def Let_def)
qed

lemma MigrateAccessRules_rules: "am_AccessRules (fst (MigrateAccessRules am)) = map (\<lambda>r. fst (migrateAccessRule r)) (am_AccessRules am)"
proof (cases "list_ex snd (map migrateAccessRule (am_AccessRules am))")
  case False
  then have "map (\<lambda>r. fst (migrateAccessRule r)) (am_AccessRules am) = am_AccessRules am"
    by (intro map_idI) (auto simp: list_ex_iff migrate_unchanged)
  with False show ?thesis by (simp add: MigrateAccessRules_def Let_def)
qed (auto simp: MigrateAccessRules_def Let_def)

lemma EffectiveResources_migrated:
  "EffectiveResources (fst (migrateAccessRule r)) = map default_group (ar_Resources r @ synthesizeResourceRules r)"
  using migrateAccessRule_deprecated [of r]
  by (auto simp: EffectiveResources_def migrateAccessRule_fst synthesize_empty simp flip: synthesize_empty)

text \<open>The deprecated selectors never select ClusterTemplates.\<close>

abbreviation of_kind :: "GroupKind \<Rightarrow> ResourceRule list \<Rightarrow> ResourceRule list" where
  "of_kind gk ress \<equiv> map default_group (filter (\<lambda>res. rule_GroupKind res = gk) ress)"

lemma synthesize_no_template: "of_kind clusterTemplateGK (synthesizeResourceRules r) = []"
  by (auto simp: synthesizeResourceRules_def appendResourceRule_def clusterTemplateGK_def rule_GroupKind_def)

lemma of_kind_default: "of_kind gk (map default_group ress) = of_kind gk ress"
  by (induction ress) auto

lemma templates_migrated:
  "of_kind clusterTemplateGK (EffectiveResources (fst (migrateAccessRule r))) = of_kind clusterTemplateGK (EffectiveResources r)"
  using synthesize_no_template [of r] unfolding EffectiveResources_migrated of_kind_default
  by (auto simp: EffectiveResources_def)

lemma ResolveNames_default [simp]: "ResolveNames lib f (default_group res) system = ResolveNames lib f res system"
  by (cases "rr_Names res") (simp_all add: ResolveNames_def default_group_def)

lemma targets_of_kind:
  "foldE (add_resource_targets lib f gk system nss) ress d = foldE (add_resource_targets lib f gk system nss) (of_kind gk ress) d"
proof (induction ress arbitrary: d)
  case (Cons res ress)
  have "add_resource_targets lib f gk system nss (default_group res) d = add_resource_targets lib f gk system nss res d"
    by (simp add: add_resource_targets_def)
  moreover have "rule_GroupKind res \<noteq> gk \<Longrightarrow> add_resource_targets lib f gk system nss res d = Inr d"
    by (simp add: add_resource_targets_def)
  ultimately show ?case by (auto simp: Cons.IH bindE_def split: sum.splits)
qed simp

definition same_plan :: "GroupKind \<Rightarrow> Rule \<Rightarrow> Rule \<Rightarrow> bool" where
  "same_plan gk rule rule' \<longleftrightarrow> rule_Namespaces rule = rule_Namespaces rule' \<and> of_kind gk (rule_Resources rule) = of_kind gk (rule_Resources rule')"

lemma desiredTargets_same_plan:
  assumes "list_all2 (same_plan gk) rules rules'"
  shows "desiredTargets lib f rules gk system = desiredTargets lib f rules' gk system"
proof -
  let ?f = "\<lambda>rule. foldE (add_resource_targets lib f gk system (rule_Namespaces rule)) (rule_Resources rule)"
  have "foldE ?f rules d = foldE ?f rules' d" for d
    using assms
  proof (induction arbitrary: d rule: list_all2_induct)
    case (Cons rule rules rule' rules')
    then have "?f rule = ?f rule'"
      using targets_of_kind [of lib f gk system "rule_Namespaces rule'"] by (auto simp: same_plan_def fun_eq_iff) metis
    then show ?case using Cons.IH by (simp add: bindE_def split: sum.splits)
  qed simp
  then show ?thesis by (simp add: desiredTargets_def)
qed

lemma migrate_targets [simp]: "ar_TargetNamespaces (fst (migrateAccessRule r)) = ar_TargetNamespaces r"
  by (simp add: migrateAccessRule_fst clear_deprecated_def)

lemma ResolveRules_migrated:
  assumes "ResolveRules lib listNs sys rules = Inr rs"
  shows "\<exists>rs'. ResolveRules lib listNs sys (map (\<lambda>r. fst (migrateAccessRule r)) rules) = Inr rs' \<and> list_all2 (same_plan clusterTemplateGK) rs rs'"
  using assms
proof (induction rules arbitrary: rs)
  case (Cons r rules)
  then obtain nss rs1 where r: "TargetNamespaces lib listNs sys (ar_TargetNamespaces r) = Inr nss"
    "ResolveRules lib listNs sys rules = Inr rs1" "rs = \<lparr>rule_Namespaces = nss, rule_Resources = EffectiveResources r\<rparr> # rs1"
    by (auto simp: ResolveRules_def result_simps)
  with Cons.IH [OF r(2)] templates_migrated [of r] show ?case
    by (auto simp: ResolveRules_def same_plan_def)
qed (simp add: ResolveRules_def)

lemma ResolveRules_migrated_error:
  assumes "ResolveRules lib listNs sys rules = Inl e"
  shows "ResolveRules lib listNs sys (map (\<lambda>r. fst (migrateAccessRule r)) rules) = Inl e"
  using assms by (induction rules) (auto simp: ResolveRules_def result_simps)

lemma tracks_templates_migrated:
  "TracksGroupKind (am\<lparr>am_AccessRules := map (\<lambda>r. fst (migrateAccessRule r)) (am_AccessRules am)\<rparr>) clusterTemplateGK
     \<longleftrightarrow> TracksGroupKind am clusterTemplateGK"
proof -
  have "set (ReferencedGroupKinds a) = (\<Union>r\<in>set (am_AccessRules a). rule_GroupKind ` set (EffectiveResources r))" for a
  proof -
    have "set (fold (\<lambda>rule. fold (\<lambda>res. add_new (rule_GroupKind res)) (EffectiveResources rule)) rs gks) =
        set gks \<union> (\<Union>r\<in>set rs. rule_GroupKind ` set (EffectiveResources r))" for rs gks
    proof (induction rs arbitrary: gks)
      case (Cons r rs)
      have "set (fold (\<lambda>res. add_new (rule_GroupKind res)) ress gks) = set gks \<union> rule_GroupKind ` set ress" for ress
        by (induction ress arbitrary: gks) auto
      with Cons show ?case by auto
    qed simp
    then show ?thesis by (simp add: ReferencedGroupKinds_def)
  qed
  moreover have occurs: "clusterTemplateGK \<in> rule_GroupKind ` set ress \<longleftrightarrow> of_kind clusterTemplateGK ress \<noteq> []" for ress
    by (simp add: filter_empty_conv image_iff) metis
  have "clusterTemplateGK \<in> rule_GroupKind ` set (EffectiveResources (fst (migrateAccessRule r)))
      \<longleftrightarrow> clusterTemplateGK \<in> rule_GroupKind ` set (EffectiveResources r)" for r
    by (simp only: occurs templates_migrated)
  ultimately show ?thesis by (simp add: TracksGroupKind_def)
qed

lemma removals_migrated:
  "removals v (am\<lparr>am_AccessRules := map (\<lambda>r. fst (migrateAccessRule r)) (am_AccessRules am)\<rparr>) = removals v am"
proof -
  let ?am = "am\<lparr>am_AccessRules := map (\<lambda>r. fst (migrateAccessRule r)) (am_AccessRules am)\<rparr>"
  have foreign: "HasForeignOwnerReference lib refs ?am = HasForeignOwnerReference lib refs am" for lib refs
    by (simp add: HasForeignOwnerReference_def IsAccessManagementOwnerReference_def)
  have plan: "PlanGroupKind lib f rs clusterTemplateGK system managed am = PlanGroupKind lib f rs' clusterTemplateGK system managed ?am"
    if "list_all2 (same_plan clusterTemplateGK) rs rs'" for lib rs rs' and f :: "ClusterTemplate \<Rightarrow> _" and system and managed :: "ClusterTemplate list"
    by (simp add: PlanGroupKind_def fold_plan_object foreign desiredTargets_same_plan [OF that])
  show ?thesis
  proof (cases "ResolveRules (av_lib v) (av_listNamespaces v) (av_SystemNamespace v) (am_AccessRules am)")
    case (Inl e)
    then show ?thesis
      using ResolveRules_migrated_error [OF Inl] by (simp add: removals_def ClusterTemplatesToRemove_def tracks_templates_migrated)
  next
    case (Inr rs)
    then obtain rs' where rs': "ResolveRules (av_lib v) (av_listNamespaces v) (av_SystemNamespace v)
        (map (\<lambda>r. fst (migrateAccessRule r)) (am_AccessRules am)) = Inr rs'"
      "list_all2 (same_plan clusterTemplateGK) rs rs'" using ResolveRules_migrated by blast
    show ?thesis
      using rs' Inr plan [OF rs'(2)] by (simp add: removals_def ClusterTemplatesToRemove_def tracks_templates_migrated Let_def)
  qed
qed

text \<open>What the schema of the custom resource demands of the names of a resource.\<close>

definition schema_ok :: "AccessManagement \<Rightarrow> bool" where
  "schema_ok am \<longleftrightarrow> (\<forall>rule\<in>set (am_AccessRules am). \<forall>res\<in>set (ar_Resources rule). rr_Names res \<noteq> Some [])"

lemma semantic_migrated:
  assumes "schema_ok am" and "rule \<in> set (am_AccessRules am)"
  shows "semantic_rule (fst (migrateAccessRule rule)) = fst (migrateAccessRule rule)"
proof -
  have "rr_Names res \<noteq> Some []" if "res \<in> set (synthesizeResourceRules rule)" for res
    using that by (auto simp: synthesizeResourceRules_def appendResourceRule_def split: if_splits)
  moreover have "rr_Names (default_group res) = rr_Names res" for res by (simp add: default_group_def)
  ultimately have "map semantic_resource (ar_Resources (fst (migrateAccessRule rule))) = ar_Resources (fst (migrateAccessRule rule))"
    using assms by (intro map_idI) (auto simp: migrateAccessRule_fst schema_ok_def semantic_resource_def)
  then show ?thesis by (simp add: semantic_rule_def)
qed

lemma removals_unchanged:
  assumes "accessRulesUnchanged old new" and "schema_ok old" and "schema_ok new" and "am_Name new = am_Name old"
    and "am_StatusResources new = am_StatusResources old"
  shows "removals v new = removals v old"
proof -
  have migrated: "map semantic_rule (am_AccessRules (fst (MigrateAccessRules am))) = map (\<lambda>r. fst (migrateAccessRule r)) (am_AccessRules am)"
    if "schema_ok am" for am
    using semantic_migrated [OF that] by (simp add: MigrateAccessRules_rules)
  have "removals v a = removals v b"
    if "am_AccessRules a = am_AccessRules b" "am_Name a = am_Name b" "am_StatusResources a = am_StatusResources b" for a b
  proof -
    have "TracksGroupKind a clusterTemplateGK = TracksGroupKind b clusterTemplateGK"
      using that by (simp add: TracksGroupKind_def ReferencedGroupKinds_def)
    moreover have "HasForeignOwnerReference lib refs a = HasForeignOwnerReference lib refs b" for lib refs
      using that by (simp add: HasForeignOwnerReference_def IsAccessManagementOwnerReference_def)
    ultimately show ?thesis using that by (simp add: removals_def ClusterTemplatesToRemove_def PlanGroupKind_def fold_plan_object)
  qed
  then have "removals v (new\<lparr>am_AccessRules := map (\<lambda>r. fst (migrateAccessRule r)) (am_AccessRules new)\<rparr>)
      = removals v (old\<lparr>am_AccessRules := map (\<lambda>r. fst (migrateAccessRule r)) (am_AccessRules old)\<rparr>)"
    using assms migrated by (simp add: accessRulesUnchanged_def)
  then show ?thesis by (simp only: removals_migrated)
qed

text \<open>
  C13: an admitted update of an AccessManagement newly removes only ClusterTemplates that nothing
  refers to. Every copy that reconciling the updated rules would delete either is not used by a
  ClusterDeployment, not owned by an existing chain and not the source of other copies, or the
  stored rules would delete it already; in particular skipping the check when the rules are the same
  after migration is safe.
\<close>

theorem AM_ValidateUpdate_safe:
  assumes "webhook_laws (av_client v) cds cts mcss" and "\<forall>t\<in>set ts. plain_charts (po_Namespace t) cts"
    and "schema_ok old" and "schema_ok new" and "am_Name new = am_Name old"
    and admitted: "snd (AM_ValidateUpdate v old new) = []"
    and ts: "removals v (with_status new old) = Inr ts" and t: "t \<in> set ts"
  shows "\<not> template_referenced (av_client v) cds cts (av_SystemNamespace v) t
     \<or> (\<exists>pending. removals v old = Inr pending \<and> po_key t \<in> po_key ` set pending)"
proof (cases "accessRulesUnchanged old new")
  case True
  then have "accessRulesUnchanged old (with_status new old)" "schema_ok (with_status new old)"
    using assms(4) by (simp_all add: accessRulesUnchanged_def MigrateAccessRules_rules with_status_def schema_ok_def)
  then have "removals v old = Inr ts" using removals_unchanged assms(3,5) ts by (simp add: with_status_def)
  with t show ?thesis by blast
next
  case False
  obtain warnings errs where rules: "validateAccessRules v (am_AccessRules new) = (warnings, errs)" by (metis surj_pair)
  with admitted False have "snd (validateClusterTemplateRemovals v (Some old) (with_status new old)) = []"
    by (auto simp: AM_ValidateUpdate_def split: if_splits prod.splits)
  from validated_removals [OF this ts t] show ?thesis
    using ClusterTemplate_ValidateDelete_spec(1) [OF assms(1)] assms(2) t by blast
qed

section \<open>Admission and controller agree\<close>

abbreviation erase :: "('o \<Rightarrow> (string \<times> string) list) \<Rightarrow> (string \<times> 'o) list \<Rightarrow> (string \<times> (string \<times> string) list) list" where
  "erase f system \<equiv> map (\<lambda>(n, ob). (n, f ob)) system"

lemma ResolveNames_erase: "ResolveNames lib f res system = ResolveNames lib id res (erase f system)"
proof -
  have same: "map fst (filter (\<lambda>(n, ob). P (f ob)) system) = map fst (filter (\<lambda>(n, l). P (id l)) (erase f system))" for P
    by (induction system) auto
  show ?thesis
  proof (cases "rr_Names res")
    case None
    show ?thesis
    proof (cases "labelSelector lib (rr_Selector res) (rr_StringSelector res)")
      case (Inr p)
      obtain sel ne where p: "p = (sel, ne)" by (metis surj_pair)
      show ?thesis
        using same [of "\<lambda>l. \<not> ne \<or> sel_Matches sel l"] unfolding ResolveNames_def None option.case Inr p bindE_simps prod.case
        by (rule arg_cong)
    qed (simp add: ResolveNames_def None)
  qed (simp add: ResolveNames_def)
qed

lemma desiredTargets_erase: "desiredTargets lib f rules gk system = desiredTargets lib id rules gk (erase f system)"
proof -
  have "add_resource_targets lib f gk system = add_resource_targets lib id gk (erase f system)"
    by (intro ext) (simp only: add_resource_targets_def ResolveNames_erase [of lib f])
  then show ?thesis by (simp add: desiredTargets_def)
qed

lemma erase_update: "erase f (AList.update k ob al) = AList.update k (f ob) (erase f al)"
  by (induction al) auto

lemma erase_fold: "erase f (fold (\<lambda>x. AList.update (g x) x) xs al) = fold (\<lambda>(n, l). AList.update n l) (map (\<lambda>x. (g x, f x)) xs) (erase f al)"
  by (induction xs arbitrary: al) (simp_all add: erase_update)

text \<open>
  The admission webhook and the controller look at the same cluster: they read it through different
  clients, the one typed objects and the other unstructured ones and their metadata.
\<close>

definition same_cluster ::
  "am_validator \<Rightarrow> am_reconciler \<Rightarrow> 'w am_api \<Rightarrow> 'w \<Rightarrow> bool" where
  "same_cluster v r api w \<longleftrightarrow>
     av_lib v = al_k8s (amr_lib r) \<and> av_SystemNamespace v = amr_SystemNamespace r
     \<and> (\<exists>gvr sts mts objs.
          al_restMapping (amr_lib r) clusterTemplateGK = Inr \<lparr>rm_Resource = gvr, rm_Namespaced = True\<rparr>
          \<and> av_listSystemTemplates v = Inr sts \<and> av_listManagedTemplates v = Inr mts
          \<and> d_list api gvr (amr_SystemNamespace r) w = Inr objs
          \<and> map (\<lambda>ob. (ob_Name ob, ob_Labels ob)) objs = map (\<lambda>t. (po_Name t, po_Labels t)) sts
          \<and> d_listManaged api gvr w = Inr (map PartialObject.truncate mts))"


section \<open>A concrete update\<close>

definition example_bare_helm :: HelmSpec where
  "example_bare_helm = \<lparr>helm_ChartSpec = None, helm_ChartRef = None\<rparr>"

abbreviation example_distributed :: ClusterTemplate where
  "example_distributed \<equiv> example_template ''dev'' ''cred'' example_bare_helm"

definition example_validator :: am_validator where
  "example_validator = \<lparr>av_SystemNamespace = ''kcm-system'', av_RESTMapper = None, av_lib = example_lib,
     av_listAccessManagements = Inr [], av_listManagementsDeleting = Inr [], av_listNamespaces = example_list_namespaces,
     av_listSystemTemplates = Inr [example_template ''kcm-system'' ''cred'' example_bare_helm],
     av_listManagedTemplates = Inr [example_distributed], av_client = example_webhook_client [example_distributed]\<rparr>"

text \<open>An AccessManagement that distributes the named ClusterTemplates, or all, into namespace \<open>dev\<close>.\<close>

definition example_templates_am :: "string list option \<Rightarrow> AccessManagement" where
  "example_templates_am names = example_am\<lparr>am_AccessRules :=
     [\<lparr>ar_TargetNamespaces = \<lparr>rsel_Selector = None, rsel_StringSelector = [], rsel_List = [''dev'']\<rparr>,
       ar_Resources = [\<lparr>rr_Selector = None, rr_APIGroup = [], rr_Kind = ''ClusterTemplate'', rr_StringSelector = [], rr_Names = names\<rparr>],
       ar_ClusterTemplateChains = [], ar_ServiceTemplateChains = [], ar_Credentials = [], ar_ClusterAuthentications = [],
       ar_DataSources = [], ar_ClusterAuditPolicies = []\<rparr>]\<rparr>"

lemma example_removals:
  "removals example_validator (with_status (example_templates_am (Some [''other''])) (example_templates_am None)) = Inr [example_distributed]"
  "removals example_validator (example_templates_am None) = Inr []"
  "removals example_validator (example_templates_am (Some [''other''])) = Inr [example_distributed]"
  by code_simp+

theorem AM_ValidateUpdate_safe_witness:
  "removals example_validator (with_status (example_templates_am (Some [''other''])) (example_templates_am None)) = Inr [example_distributed]
   \<and> \<not> template_referenced (example_webhook_client [example_distributed]) [] [example_distributed] ''kcm-system'' example_distributed"
proof -
  let ?old = "example_templates_am None" and ?new = "example_templates_am (Some [''other''])"
  have client: "av_client example_validator = example_webhook_client [example_distributed]"
    "av_SystemNamespace example_validator = ''kcm-system''" by (simp_all add: example_validator_def)
  have "webhook_laws (av_client example_validator) [] [example_distributed] example_users"
    unfolding client by (rule example_webhook_laws)
  moreover have "\<forall>t\<in>set [example_distributed]. plain_charts (po_Namespace t) [example_distributed]"
    by (simp add: plain_charts_def example_template_def example_meta_def example_bare_helm_def PartialObject.defs ClusterTemplate.defs)
  moreover have "schema_ok ?old" "schema_ok ?new" "am_Name ?new = am_Name ?old"
    by (simp_all add: schema_ok_def example_templates_am_def)
  moreover have "snd (AM_ValidateUpdate example_validator ?old ?new) = []" by code_simp
  moreover note example_removals(1)
  ultimately have "\<not> template_referenced (av_client example_validator) [] [example_distributed] (av_SystemNamespace example_validator) example_distributed
     \<or> (\<exists>pending. removals example_validator ?old = Inr pending \<and> po_key example_distributed \<in> po_key ` set pending)"
    by (rule AM_ValidateUpdate_safe) simp
  with example_removals show ?thesis by (simp add: client)
qed

definition example_templates_api :: "example_store am_api" where
  "example_templates_api = (example_am_api example_am)\<lparr>d_listManaged := (\<lambda>_ _. Inr [PartialObject.truncate example_distributed])\<rparr>"

lemma example_same_cluster: "same_cluster example_validator example_am_reconciler example_templates_api (\<lambda>_. None)"
  by (simp add: same_cluster_def example_validator_def example_am_reconciler_def example_templates_api_def example_am_api_def
      example_object_def example_template_def example_meta_def PartialObject.defs ClusterTemplate.defs)


end
