(* ===== verification/ClusterAdmission.thy ===== *)
theory ClusterAdmission
  imports TemplateWebhook TemplateValidation
begin

text \<open>
  Admission of ClusterDeployments: \<^verbatim>\<open>internal/webhook/clusterdeployment_webhook.go\<close> and the checks it
  shares with the controllers, \<^verbatim>\<open>internal/util/validation/cluster_template.go\<close>, \<^verbatim>\<open>cd.go\<close> and \<^verbatim>\<open>util.go\<close>,
  with the lookup of provider interfaces in \<^verbatim>\<open>internal/providerinterface/util.go\<close>.

  The compatibility of a template with its parent cluster is characterised exactly and does not depend
  on the order of any map; whatever sequence of admitted requests leads to a ClusterDeployment, its
  service dependencies are acyclic and complete and its data source was there from the beginning or
  never.
\<close>

section \<open>Objects and reads\<close>

record Credential =
  cred_Name :: string
  cred_Namespace :: string
  cred_Region :: string
  cred_IdentityKind :: "string option"
  cred_Ready :: bool

text \<open>
  \<open>ComponentsCommonStatus\<close>: the exposed providers; per provider its CAPI contracts, from CAPI version
  to the provider's versions joined by underscores; per component the providers it exposes.
\<close>

record ComponentsStatus =
  cs_AvailableProviders :: "string list"
  cs_CAPIContracts :: "(string \<times> (string \<times> string) list) list"
  cs_Components :: "(string \<times> string list) list"

text \<open>\<open>ClusterParent\<close>: a Region or the Management.\<close>

record ClusterParent =
  par_Name :: string
  par_HelmReleasePrefix :: string
  par_Status :: ComponentsStatus

record ProviderInterface =
  pi_ClusterIdentities :: "string list"
  pi_ClusterIdentityKinds :: "string list"

text \<open>The lists by label of a regional client are limited to one object.\<close>

record regional_client =
  rc_byProvider :: "string \<Rightarrow> api_error + ProviderInterface list"
  rc_byChart :: "string \<Rightarrow> api_error + ProviderInterface list"

record cluster_client =
  cc_getCredential :: "ObjectKey \<Rightarrow> api_error + Credential"
  cc_getRegion :: "string \<Rightarrow> api_error + ClusterParent"
  cc_getManagement :: "api_error + ClusterParent"
  cc_getClusterTemplate :: "ObjectKey \<Rightarrow> api_error + ClusterTemplate"
  cc_regional :: "string \<Rightarrow> string + regional_client"
  cc_listRegions :: "api_error + (string \<times> ObjectKey option) list"
  cc_svc :: svc_client

text \<open>
  Library code: versions and constraints (\<^verbatim>\<open>Masterminds/semver\<close>) and the
  validation of names.
\<close>

record 'v cluster_lib =
  cl_NewVersion :: "string \<Rightarrow> 'v option"
  cl_NewConstraint :: "string \<Rightarrow> ('v \<Rightarrow> bool) option"
  cl_validateName :: "string \<Rightarrow> string list"

datatype cluster_error =
    GetFailed string ObjectKey api_error
  | MissingProviders "string list"
  | UnsatisfiedContracts "string list"
  | K8sVersionUnparsable string
  | ConstraintUnparsable string
  | K8sConstraintViolated ObjectKey
  | NoProviders
  | NoInfrastructureProviders
  | CredentialNotReady
  | CredentialWithoutIdentity
  | RegionalClientFailed string
  | IdentityUnsupported string string
  | InfrastructureUnsupported string
  | ReferencedByRegion string
  | RegionListFailed api_error
  | TemplateInvalid string
  | ServicesInvalid "TemplateValidation.template_error list"
  | DependenciesInvalid
  | UpgradeForbidden string string
  | DataSourceChanged

section \<open>Compatibility\<close>

text \<open>\<open>strings.Split(s, "_")\<close>: never empty.\<close>

fun split_underscore :: "string \<Rightarrow> string list" where
  "split_underscore [] = [[]]"
| "split_underscore (c # s) =
     (if c = CHR ''_'' then [] # split_underscore s
      else case split_underscore s of [] \<Rightarrow> [[c]] | p # ps \<Rightarrow> (c # p) # ps)"

definition getParent :: "cluster_client \<Rightarrow> Credential \<Rightarrow> cluster_error + ClusterParent" where
  "getParent cl cred =
     (if cred_Region cred \<noteq> [] then wrapE (GetFailed ''Region'' (ObjectKey [] (cred_Region cred))) (cc_getRegion cl (cred_Region cred))
      else wrapE (GetFailed ''Management'' (ObjectKey [] ''kcm'')) (cc_getManagement cl))"

text \<open>
  The errors that are joined. \<open>contracts\<close> is the map of required contracts in the order Go ranges
  over it; the contracts of a provider are ranged over in the order of their list.
\<close>

definition unsatisfied :: "ComponentsStatus \<Rightarrow> string \<times> string \<Rightarrow> bool" where
  "unsatisfied st = (\<lambda>(providerName, requiredContract).
     case alookup (cs_CAPIContracts st) providerName of
       None \<Rightarrow> False
     | Some providerCAPIContracts \<Rightarrow>
         requiredContract \<notin> set (concat (map (\<lambda>(_, supportedVersions). split_underscore supportedVersions) providerCAPIContracts)))"

definition unsatisfied_text :: "string \<times> string \<Rightarrow> string" where
  "unsatisfied_text = (\<lambda>(providerName, requiredContract). ''provider '' @ providerName @ '' does not support '' @ requiredContract)"

definition validateCompatibilityAttrs ::
  "(string \<times> string) list \<Rightarrow> ClusterTemplate \<Rightarrow> ClusterParent \<Rightarrow> cluster_error list" where
  "validateCompatibilityAttrs contracts clusterTemplate parent =
     (let st = par_Status parent;
          missing = filter (\<lambda>v. v \<notin> set (cs_AvailableProviders st)) (ct_StatusProviders clusterTemplate);
          nonSatisfying = map unsatisfied_text (filter (unsatisfied st) contracts)
      in (if length missing > 0 then [MissingProviders (sort missing)] else [])
         @ (if length nonSatisfying > 0 then [UnsatisfiedContracts (sort nonSatisfying)] else []))"

definition ClusterTemplateProviders ::
  "(string \<times> string) list \<Rightarrow> cluster_client \<Rightarrow> ClusterTemplate \<Rightarrow> ClusterDeployment \<Rightarrow> cluster_error list" where
  "ClusterTemplateProviders contracts cl clusterTemplate cd =
     (let credKey = ObjectKey (cd_Namespace cd) (cd_Credential cd)
      in case cc_getCredential cl credKey of
           Inl e \<Rightarrow> [GetFailed ''Credential'' credKey e]
         | Inr cred \<Rightarrow>
             (case getParent cl cred of
                Inl e \<Rightarrow> [e]
              | Inr parent \<Rightarrow> validateCompatibilityAttrs contracts clusterTemplate parent))"

fun check_constraints :: "'v cluster_lib \<Rightarrow> svc_client \<Rightarrow> string \<Rightarrow> 'v \<Rightarrow> string list \<Rightarrow> cluster_error option" where
  "check_constraints lib cl namespace kubeVersion [] = None"
| "check_constraints lib cl namespace kubeVersion (template # templates) =
     (let key = ObjectKey namespace template
      in case getServiceTemplate cl key of
           Inl e \<Rightarrow> Some (GetFailed ''ServiceTemplate'' key e)
         | Inr svcTpl \<Rightarrow>
             if st_KubernetesConstraint svcTpl = [] then check_constraints lib cl namespace kubeVersion templates
             else case cl_NewConstraint lib (st_KubernetesConstraint svcTpl) of
                    None \<Rightarrow> Some (ConstraintUnparsable (st_KubernetesConstraint svcTpl))
                  | Some check \<Rightarrow>
                      if \<not> check kubeVersion then Some (K8sConstraintViolated key)
                      else check_constraints lib cl namespace kubeVersion templates)"

definition ServiceTemplatesK8sCompatibility ::
  "'v cluster_lib \<Rightarrow> svc_client \<Rightarrow> string \<Rightarrow> string \<Rightarrow> string list \<Rightarrow> cluster_error option" where
  "ServiceTemplatesK8sCompatibility lib cl k8sVersion namespace templates =
     (if length templates = 0 \<or> k8sVersion = [] then None
      else case cl_NewVersion lib k8sVersion of
             None \<Rightarrow> Some (K8sVersionUnparsable k8sVersion)
           | Some kubeVersion \<Rightarrow> check_constraints lib cl namespace kubeVersion templates)"

definition ClusterTemplateK8sCompatibility ::
  "'v cluster_lib \<Rightarrow> svc_client \<Rightarrow> ClusterTemplate \<Rightarrow> ClusterDeployment \<Rightarrow> cluster_error option" where
  "ClusterTemplateK8sCompatibility lib cl clusterTemplate cd =
     ServiceTemplatesK8sCompatibility lib cl (ct_StatusKubernetesVersion clusterTemplate) (cd_Namespace cd)
       (map svc_Template (filter (\<lambda>svc. \<not> svc_Disable svc) (sp_Services (cd_ServiceSpec cd))))"

section \<open>Credentials\<close>

text \<open>The components of the parent, in the order Go ranges over the map.\<close>

definition findComponentForInfra :: "(string \<times> string list) list \<Rightarrow> string \<Rightarrow> string" where
  "findComponentForInfra exposedComponents infra =
     (case find (\<lambda>(_, providers). infra \<in> set providers) exposedComponents of None \<Rightarrow> [] | Some (name, _) \<Rightarrow> name)"

text \<open>\<open>helm.ReleaseName\<close>.\<close>

definition ReleaseName :: "string \<Rightarrow> string \<Rightarrow> string" where
  "ReleaseName prefix name = (if prefix \<noteq> [] then prefix @ ''-'' @ name else name)"

definition FindProviderInterfaceForInfra ::
  "'v cluster_lib \<Rightarrow> regional_client \<Rightarrow> ClusterParent \<Rightarrow> string \<Rightarrow> ProviderInterface option" where
  "FindProviderInterfaceForInfra lib rgn parent infra =
     (let fallback =
            (let componentName = findComponentForInfra (cs_Components (par_Status parent)) infra
             in if componentName = [] then None
                else case rc_byChart rgn (ReleaseName (par_HelmReleasePrefix parent) componentName) of
                       Inr (pi # _) \<Rightarrow> Some pi
                     | _ \<Rightarrow> None)
      in case rc_byProvider rgn infra of
           Inr (pi # _) \<Rightarrow> Some pi
         | _ \<Rightarrow> fallback)"

definition getProviderClusterIdentityKinds ::
  "'v cluster_lib \<Rightarrow> regional_client \<Rightarrow> ClusterParent \<Rightarrow> string \<Rightarrow> string list" where
  "getProviderClusterIdentityKinds lib rgn parent infraProviderName =
     (case FindProviderInterfaceForInfra lib rgn parent infraProviderName of
        None \<Rightarrow> []
      | Some pi \<Rightarrow> if length (pi_ClusterIdentities pi) > 0 then pi_ClusterIdentities pi else pi_ClusterIdentityKinds pi)"

definition is_infra :: "string \<Rightarrow> bool" where
  "is_infra v \<longleftrightarrow> take (length ''infrastructure-'') v = ''infrastructure-''"

fun check_identities :: "(string \<Rightarrow> string list) \<Rightarrow> string \<Rightarrow> string list \<Rightarrow> cluster_error option" where
  "check_identities kinds idtyKind [] = None"
| "check_identities kinds idtyKind (providerName # providers) =
     (if \<not> is_infra providerName then check_identities kinds idtyKind providers
      else if providerName = ''infrastructure-internal'' then
        (if idtyKind \<noteq> ''Secret'' then Some (IdentityUnsupported providerName idtyKind) else check_identities kinds idtyKind providers)
      else let idtys = kinds providerName
           in if length idtys = 0 then Some (InfrastructureUnsupported providerName)
              else if idtyKind \<notin> set idtys then Some (IdentityUnsupported providerName idtyKind)
              else check_identities kinds idtyKind providers)"

definition isCredIdentitySupportsClusterTemplate ::
  "'v cluster_lib \<Rightarrow> cluster_client \<Rightarrow> Credential \<Rightarrow> string \<Rightarrow> ClusterTemplate \<Rightarrow> cluster_error option" where
  "isCredIdentitySupportsClusterTemplate lib cl cred idtyKind clusterTemplate =
     (case cc_regional cl (cred_Region cred) of
        Inl e \<Rightarrow> Some (RegionalClientFailed e)
      | Inr rgn \<Rightarrow>
          (case getParent cl cred of
             Inl e \<Rightarrow> Some e
           | Inr parent \<Rightarrow>
               check_identities (getProviderClusterIdentityKinds lib rgn parent) idtyKind (ct_StatusProviders clusterTemplate)))"

definition ClusterDeployCredential ::
  "'v cluster_lib \<Rightarrow> cluster_client \<Rightarrow> ClusterDeployment \<Rightarrow> ClusterTemplate \<Rightarrow> cluster_error option" where
  "ClusterDeployCredential lib cl cd clusterTemplate =
     (if length (ct_StatusProviders clusterTemplate) = 0 then Some NoProviders
      else if \<not> list_ex is_infra (ct_StatusProviders clusterTemplate) then Some NoInfrastructureProviders
      else let credKey = ObjectKey (cd_Namespace cd) (cd_Credential cd)
           in case cc_getCredential cl credKey of
                Inl e \<Rightarrow> Some (GetFailed ''Credential'' credKey e)
              | Inr cred \<Rightarrow>
                  if \<not> cred_Ready cred then Some CredentialNotReady
                  else (case cred_IdentityKind cred of
                          None \<Rightarrow> Some CredentialWithoutIdentity
                        | Some idtyKind \<Rightarrow> isCredIdentitySupportsClusterTemplate lib cl cred idtyKind clusterTemplate))"

definition ClusterDeploymentDeletionAllowed :: "cluster_client \<Rightarrow> ClusterDeployment \<Rightarrow> cluster_error option" where
  "ClusterDeploymentDeletionAllowed cl cld =
     (case cc_listRegions cl of
        Inl e \<Rightarrow> Some (RegionListFailed e)
      | Inr regions \<Rightarrow>
          (case find (\<lambda>(_, ref). ref = Some (ObjectKey (cd_Namespace cld) (cd_Name cld))) regions of
             None \<Rightarrow> None
           | Some (name, _) \<Rightarrow> Some (ReferencedByRegion name)))"

section \<open>The validator\<close>

definition isClusterTemplateValid :: "ClusterTemplate \<Rightarrow> cluster_error option" where
  "isClusterTemplateValid ct = (if \<not> ct_Valid ct then Some (TemplateInvalid (ct_ValidationError ct)) else None)"

definition getClusterDeploymentTemplate :: "cluster_client \<Rightarrow> string \<Rightarrow> string \<Rightarrow> cluster_error + ClusterTemplate" where
  "getClusterDeploymentTemplate cl templateNamespace templateName =
     wrapE (GetFailed ''ClusterTemplate'' (ObjectKey templateNamespace templateName)) (cc_getClusterTemplate cl (ObjectKey templateNamespace templateName))"

text \<open>The validator, with the orders in which Go ranges over the maps of the dependency validation.\<close>

record 'v cd_validator =
  cv_client :: cluster_client
  cv_lib :: "'v cluster_lib"
  cv_ValidateClusterUpgradePath :: bool
  cv_order :: "Service list \<Rightarrow> ObjectKey list"
  cv_graphOrder :: "Service list \<Rightarrow> ObjectKey list"

definition validate_services :: "'v cd_validator \<Rightarrow> string \<Rightarrow> Service list \<Rightarrow> cluster_error option" where
  "validate_services v namespace services =
     (let errs = ServicesHaveValidTemplates (cl_validateName (cv_lib v)) (cc_svc (cv_client v)) services namespace
      in if errs \<noteq> [] then Some (ServicesInvalid errs)
         else case ValidateServiceDependencyOverall (cv_order v services) (cv_graphOrder v services) services of
                Inl _ \<Rightarrow> Some DependenciesInvalid
              | Inr _ \<Rightarrow> None)"

text \<open>Errors are listed; each branch but the check of the providers returns at most one.\<close>

abbreviation fails :: "cluster_error option \<Rightarrow> cluster_error list" where
  "fails e \<equiv> (case e of None \<Rightarrow> [] | Some err \<Rightarrow> [err])"

definition validate_template :: "'v cd_validator \<Rightarrow> ClusterTemplate \<Rightarrow> ClusterDeployment \<Rightarrow> cluster_error list verdict" where
  "validate_template v template cd =
     (case isClusterTemplateValid template of
        Some e \<Rightarrow> ([], Some [e])
      | None \<Rightarrow>
          let errs = ClusterTemplateProviders (ct_StatusProviderContracts template) (cv_client v) template cd
          in if errs \<noteq> [] then ([''Failed to validate required providers''], Some errs)
             else case ClusterTemplateK8sCompatibility (cv_lib v) (cc_svc (cv_client v)) template cd of
                    Some e \<Rightarrow> ([''Failed to validate k8s version compatibility with ServiceTemplates''], Some [e])
                  | None \<Rightarrow> ([], None))"

definition CD_ValidateCreate :: "'v cd_validator \<Rightarrow> ClusterDeployment \<Rightarrow> cluster_error list verdict" where
  "CD_ValidateCreate v cd =
     (case getClusterDeploymentTemplate (cv_client v) (cd_Namespace cd) (cd_Template cd) of
        Inl e \<Rightarrow> ([], Some [e])
      | Inr template \<Rightarrow>
          (case validate_template v template cd of
             (warnings, Some errs) \<Rightarrow> (warnings, Some errs)
           | (_, None) \<Rightarrow>
               (case ClusterDeployCredential (cv_lib v) (cv_client v) cd template of
                  Some e \<Rightarrow> ([], Some [e])
                | None \<Rightarrow>
                    (case validate_services v (cd_Namespace cd) (sp_Services (cd_ServiceSpec cd)) of
                       Some e \<Rightarrow> ([], Some [e])
                     | None \<Rightarrow> ([], None)))))"

definition detectHelmChartNameChange :: "cluster_client \<Rightarrow> string \<Rightarrow> string \<Rightarrow> ClusterTemplate \<Rightarrow> string list" where
  "detectHelmChartNameChange cl namespace oldTemplateName newTemplate =
     (case getClusterDeploymentTemplate cl namespace oldTemplateName of
        Inl _ \<Rightarrow> []
      | Inr oldTemplate \<Rightarrow>
          (case (ct_StatusChartRef oldTemplate, ct_StatusChartRef newTemplate) of
             (Some o', Some n') \<Rightarrow>
               if src_Name o' \<noteq> src_Name n'
               then [''Helm chart name changed from '' @ src_Name o' @ '' to '' @ src_Name n'
                     @ '': Flux will uninstall the existing release and reinstall it as a new release, which may cause service disruption or resource recreation'']
               else []
           | _ \<Rightarrow> []))"

text \<open>The block of \<open>ValidateUpdate\<close> that a change of the template enters.\<close>

definition check_upgrade ::
  "'v cd_validator \<Rightarrow> ClusterDeployment \<Rightarrow> ClusterDeployment \<Rightarrow> ClusterTemplate \<Rightarrow> cluster_error list verdict" where
  "check_upgrade v old new template =
     (let oldTemplate = cd_Template old; newTemplate = cd_Template new
      in if cv_ValidateClusterUpgradePath v \<and> newTemplate \<notin> set (cd_AvailableUpgrades old)
         then ([''Cluster can't be upgraded from '' @ oldTemplate @ '' to '' @ newTemplate @ ''. This upgrade sequence is not allowed''],
               Some [UpgradeForbidden oldTemplate newTemplate])
         else case validate_template v template new of
                (warnings, Some errs) \<Rightarrow> (warnings, Some errs)
              | (_, None) \<Rightarrow>
                  (if cd_DryRun new then detectHelmChartNameChange (cv_client v) (cd_Namespace old) oldTemplate template else [], None))"

definition CD_ValidateUpdate :: "'v cd_validator \<Rightarrow> ClusterDeployment \<Rightarrow> ClusterDeployment \<Rightarrow> cluster_error list verdict" where
  "CD_ValidateUpdate v old new =
     (case getClusterDeploymentTemplate (cv_client v) (cd_Namespace new) (cd_Template new) of
        Inl e \<Rightarrow> ([], Some [e])
      | Inr template \<Rightarrow>
          (case (if cd_Template old \<noteq> cd_Template new then check_upgrade v old new template else ([], None)) of
             (warnings, Some errs) \<Rightarrow> (warnings, Some errs)
           | (warnings, None) \<Rightarrow>
               (case (if cd_Credential old \<noteq> cd_Credential new then ClusterDeployCredential (cv_lib v) (cv_client v) new template else None) of
                  Some e \<Rightarrow> ([], Some [e])
                | None \<Rightarrow>
                    if (cd_DataSource old \<noteq> []) \<noteq> (cd_DataSource new \<noteq> []) then ([], Some [DataSourceChanged])
                    else if sp_Services (cd_ServiceSpec old) \<noteq> sp_Services (cd_ServiceSpec new) then
                      (case validate_services v (cd_Namespace new) (sp_Services (cd_ServiceSpec new)) of
                         Some e \<Rightarrow> ([], Some [e])
                       | None \<Rightarrow> (warnings, None))
                    else (warnings, None))))"

definition CD_ValidateDelete :: "'v cd_validator \<Rightarrow> ClusterDeployment \<Rightarrow> cluster_error list verdict" where
  "CD_ValidateDelete v cd = ([], case ClusterDeploymentDeletionAllowed (cv_client v) cd of None \<Rightarrow> None | Some e \<Rightarrow> Some [e])"

definition CD_Default :: "'v cd_validator \<Rightarrow> ClusterDeployment \<Rightarrow> cluster_error + ClusterDeployment" where
  "CD_Default v cd =
     (if cd_Config cd \<noteq> None \<or> cd_Template cd = [] then Inr cd
      else bindE (getClusterDeploymentTemplate (cv_client v) (cd_Namespace cd) (cd_Template cd)) (\<lambda>template.
             case isClusterTemplateValid template of
               Some e \<Rightarrow> Inl e
             | None \<Rightarrow>
                 (case ct_StatusConfig template of
                    None \<Rightarrow> Inr cd
                  | Some config \<Rightarrow> Inr (cd\<lparr>cd_DryRun := True, cd_Config := Some config\<rparr>))))"

section \<open>What is compatible\<close>

lemma split_underscore_nonempty: "split_underscore s \<noteq> []"
  by (induction s) (auto split: list.splits)

lemma split_underscore_join: "join_strings ''_'' (split_underscore s) = s"
proof (induction s)
  case (Cons c s)
  obtain p ps where ps: "split_underscore s = p # ps" using split_underscore_nonempty by (metis list.exhaust)
  with Cons show ?case by (cases ps) auto
qed simp

lemma split_underscore_parts: "p \<in> set (split_underscore s) \<Longrightarrow> CHR ''_'' \<notin> set p"
  by (induction s arbitrary: p) (fastforce split: list.splits if_splits)+

text \<open>
  The template asks for providers that the parent exposes, and every contract version it asks for is
  one of the parent's, if the parent lists contracts for that provider.
\<close>

definition compatible :: "ClusterTemplate \<Rightarrow> ClusterParent \<Rightarrow> bool" where
  "compatible t parent \<longleftrightarrow>
     set (ct_StatusProviders t) \<subseteq> set (cs_AvailableProviders (par_Status parent))
     \<and> (\<forall>(provider, contract)\<in>set (ct_StatusProviderContracts t). \<forall>contracts.
          alookup (cs_CAPIContracts (par_Status parent)) provider = Some contracts \<longrightarrow>
            (\<exists>(_, versions)\<in>set contracts. contract \<in> set (split_underscore versions)))"

lemma satisfied_iff:
  "\<not> unsatisfied st (provider, contract) \<longleftrightarrow>
     (\<forall>contracts. alookup (cs_CAPIContracts st) provider = Some contracts \<longrightarrow>
        (\<exists>(_, versions)\<in>set contracts. contract \<in> set (split_underscore versions)))"
  by (cases "alookup (cs_CAPIContracts st) provider") (auto simp: unsatisfied_def)

lemma validateCompatibilityAttrs_Nil:
  "validateCompatibilityAttrs (ct_StatusProviderContracts t) t parent = [] \<longleftrightarrow> compatible t parent"
proof -
  have "validateCompatibilityAttrs (ct_StatusProviderContracts t) t parent = [] \<longleftrightarrow>
      set (ct_StatusProviders t) \<subseteq> set (cs_AvailableProviders (par_Status parent))
      \<and> (\<forall>pc\<in>set (ct_StatusProviderContracts t). \<not> unsatisfied (par_Status parent) pc)"
    by (auto simp: validateCompatibilityAttrs_def Let_def filter_empty_conv)
  also have "\<dots> \<longleftrightarrow> compatible t parent"
  proof -
    have "\<not> unsatisfied (par_Status parent) pc \<longleftrightarrow>
        (case pc of (provider, contract) \<Rightarrow> \<forall>contracts. alookup (cs_CAPIContracts (par_Status parent)) provider = Some contracts \<longrightarrow>
           (\<exists>(_, versions)\<in>set contracts. contract \<in> set (split_underscore versions)))" for pc
      by (cases pc) (simp only: satisfied_iff prod.case)
    then show ?thesis unfolding compatible_def by (simp only:)
  qed
  finally show ?thesis .
qed

text \<open>
  A template passes exactly if it is compatible with the parent of the credential; the errors, which
  list every missing provider and every unsatisfied contract, are the same in whatever order the map
  of contracts is visited.
\<close>

theorem validateCompatibilityAttrs_correct:
  assumes "mset order = mset (ct_StatusProviderContracts t)"
  shows "validateCompatibilityAttrs order t parent = validateCompatibilityAttrs (ct_StatusProviderContracts t) t parent
     \<and> (validateCompatibilityAttrs order t parent = [] \<longleftrightarrow> compatible t parent)"
proof -
  let ?st = "par_Status parent"
  have "mset (map unsatisfied_text (filter (unsatisfied ?st) order)) = mset (map unsatisfied_text (filter (unsatisfied ?st) (ct_StatusProviderContracts t)))"
    using assms by simp
  then have "sort (map unsatisfied_text (filter (unsatisfied ?st) order)) = sort (map unsatisfied_text (filter (unsatisfied ?st) (ct_StatusProviderContracts t)))"
    "length (map unsatisfied_text (filter (unsatisfied ?st) order)) = length (map unsatisfied_text (filter (unsatisfied ?st) (ct_StatusProviderContracts t)))"
    by (metis properties_for_sort sorted_sort mset_sort, metis mset_eq_length)
  then have "validateCompatibilityAttrs order t parent = validateCompatibilityAttrs (ct_StatusProviderContracts t) t parent"
    unfolding validateCompatibilityAttrs_def Let_def by simp
  then show ?thesis by (simp add: validateCompatibilityAttrs_Nil)
qed

definition satisfies_constraints :: "'v cluster_lib \<Rightarrow> svc_client \<Rightarrow> string \<Rightarrow> 'v \<Rightarrow> string \<Rightarrow> bool" where
  "satisfies_constraints lib cl ns version template \<longleftrightarrow>
     (\<exists>st. getServiceTemplate cl (ObjectKey ns template) = Inr st
        \<and> (st_KubernetesConstraint st = [] \<or> (\<exists>check. cl_NewConstraint lib (st_KubernetesConstraint st) = Some check \<and> check version)))"

definition k8s_compatible :: "'v cluster_lib \<Rightarrow> svc_client \<Rightarrow> ClusterTemplate \<Rightarrow> ClusterDeployment \<Rightarrow> bool" where
  "k8s_compatible lib cl t cd \<longleftrightarrow>
     (let enabled = filter (\<lambda>svc. \<not> svc_Disable svc) (sp_Services (cd_ServiceSpec cd))
      in enabled = [] \<or> ct_StatusKubernetesVersion t = []
         \<or> (\<exists>version. cl_NewVersion lib (ct_StatusKubernetesVersion t) = Some version
              \<and> (\<forall>svc\<in>set enabled. satisfies_constraints lib cl (cd_Namespace cd) version (svc_Template svc))))"

lemma check_constraints_None:
  "check_constraints lib cl ns version templates = None \<longleftrightarrow> (\<forall>t\<in>set templates. satisfies_constraints lib cl ns version t)"
  by (induction templates) (auto simp: satisfies_constraints_def Let_def split: sum.splits option.splits)

lemma ClusterTemplateK8sCompatibility_None:
  "ClusterTemplateK8sCompatibility lib cl t cd = None \<longleftrightarrow> k8s_compatible lib cl t cd"
  by (auto simp: ClusterTemplateK8sCompatibility_def ServiceTemplatesK8sCompatibility_def k8s_compatible_def check_constraints_None Let_def
      split: option.splits)

definition identity_supported :: "(string \<Rightarrow> string list) \<Rightarrow> string \<Rightarrow> string \<Rightarrow> bool" where
  "identity_supported kinds idtyKind p \<longleftrightarrow>
     \<not> is_infra p \<or> (if p = ''infrastructure-internal'' then idtyKind = ''Secret'' else idtyKind \<in> set (kinds p))"

lemma check_identities_Cons:
  "check_identities kinds idtyKind (p # ps) = None \<longleftrightarrow> identity_supported kinds idtyKind p \<and> check_identities kinds idtyKind ps = None"
  by (cases "kinds p") (simp_all add: identity_supported_def)

lemma check_identities_None:
  "check_identities kinds idtyKind providers = None \<longleftrightarrow> (\<forall>p\<in>set providers. identity_supported kinds idtyKind p)"
  by (induction providers) (simp_all add: check_identities_Cons del: check_identities.simps(2))

text \<open>
  What it takes to deploy: a valid template that its parent cluster can serve, Kubernetes versions
  that suit the enabled services, a ready credential whose identity every infrastructure provider of
  the template supports, and valid services.
\<close>

definition deployable :: "'v cd_validator \<Rightarrow> ClusterDeployment \<Rightarrow> bool" where
  "deployable v cd \<longleftrightarrow>
     (\<exists>t cred parent rgn idtyKind.
        cc_getClusterTemplate (cv_client v) (ObjectKey (cd_Namespace cd) (cd_Template cd)) = Inr t \<and> ct_Valid t
        \<and> cc_getCredential (cv_client v) (ObjectKey (cd_Namespace cd) (cd_Credential cd)) = Inr cred
        \<and> getParent (cv_client v) cred = Inr parent \<and> compatible t parent
        \<and> k8s_compatible (cv_lib v) (cc_svc (cv_client v)) t cd
        \<and> cred_Ready cred \<and> cred_IdentityKind cred = Some idtyKind \<and> cc_regional (cv_client v) (cred_Region cred) = Inr rgn
        \<and> (\<exists>p\<in>set (ct_StatusProviders t). is_infra p)
        \<and> (\<forall>p\<in>set (ct_StatusProviders t). identity_supported (getProviderClusterIdentityKinds (cv_lib v) rgn parent) idtyKind p))
     \<and> ServicesHaveValidTemplates (cl_validateName (cv_lib v)) (cc_svc (cv_client v)) (sp_Services (cd_ServiceSpec cd)) (cd_Namespace cd) = []"

definition sound_dependencies :: "ClusterDeployment \<Rightarrow> bool" where
  "sound_dependencies cd \<longleftrightarrow>
     (let services = sp_Services (cd_ServiceSpec cd)
      in snd ` service_deps services \<subseteq> svc_key ` set services \<and> acyclic (service_deps services))"

text \<open>The map orders are orders of the maps, and services are a list map of the custom resource.\<close>

definition validator_orders :: "'v cd_validator \<Rightarrow> bool" where
  "validator_orders v \<longleftrightarrow>
     (\<forall>services. set (cv_order v services) = svc_key ` set services \<and> set (cv_graphOrder v services) = fst ` set (service_graph services))"

definition keyed_services :: "ClusterDeployment \<Rightarrow> bool" where
  "keyed_services cd \<longleftrightarrow> distinct (map svc_key (sp_Services (cd_ServiceSpec cd)))"

lemma validate_services_None:
  assumes "validator_orders v" and "keyed_services cd"
  shows "validate_services v ns (sp_Services (cd_ServiceSpec cd)) = None \<longleftrightarrow>
     ServicesHaveValidTemplates (cl_validateName (cv_lib v)) (cc_svc (cv_client v)) (sp_Services (cd_ServiceSpec cd)) ns = []
     \<and> sound_dependencies cd"
proof -
  let ?services = "sp_Services (cd_ServiceSpec cd)"
  have "ValidateServiceDependencyOverall (cv_order v ?services) (cv_graphOrder v ?services) ?services = Inr () \<longleftrightarrow> sound_dependencies cd"
    using ValidateServiceDependencyOverall_spec assms unfolding validator_orders_def keyed_services_def sound_dependencies_def Let_def by metis
  then show ?thesis
    by (cases "ValidateServiceDependencyOverall (cv_order v ?services) (cv_graphOrder v ?services) ?services")
      (auto simp: validate_services_def Let_def)
qed

lemma validate_template_None:
  "snd (validate_template v t cd) = None \<longleftrightarrow> ct_Valid t
     \<and> (\<exists>cred parent. cc_getCredential (cv_client v) (ObjectKey (cd_Namespace cd) (cd_Credential cd)) = Inr cred
          \<and> getParent (cv_client v) cred = Inr parent \<and> compatible t parent)
     \<and> k8s_compatible (cv_lib v) (cc_svc (cv_client v)) t cd"
  by (auto simp: validate_template_def isClusterTemplateValid_def ClusterTemplateProviders_def Let_def validateCompatibilityAttrs_Nil
      ClusterTemplateK8sCompatibility_None [symmetric] split: option.splits sum.splits)

lemma ClusterDeployCredential_None:
  "ClusterDeployCredential lib cl cd t = None \<longleftrightarrow>
     (\<exists>p\<in>set (ct_StatusProviders t). is_infra p)
     \<and> (\<exists>cred parent rgn idtyKind. cc_getCredential cl (ObjectKey (cd_Namespace cd) (cd_Credential cd)) = Inr cred \<and> cred_Ready cred
          \<and> cred_IdentityKind cred = Some idtyKind \<and> cc_regional cl (cred_Region cred) = Inr rgn \<and> getParent cl cred = Inr parent
          \<and> (\<forall>p\<in>set (ct_StatusProviders t). identity_supported (getProviderClusterIdentityKinds lib rgn parent) idtyKind p))"
  by (auto simp: ClusterDeployCredential_def isCredIdentitySupportsClusterTemplate_def check_identities_None list_ex_iff Let_def
      split: option.splits sum.splits)

lemma CD_ValidateCreate_spec:
  assumes "validator_orders v" and "keyed_services cd"
  shows "snd (CD_ValidateCreate v cd) = None \<longleftrightarrow> deployable v cd \<and> sound_dependencies cd"
proof -
  have "snd (CD_ValidateCreate v cd) = None \<longleftrightarrow>
      (\<exists>t. cc_getClusterTemplate (cv_client v) (ObjectKey (cd_Namespace cd) (cd_Template cd)) = Inr t
         \<and> snd (validate_template v t cd) = None \<and> ClusterDeployCredential (cv_lib v) (cv_client v) cd t = None
         \<and> validate_services v (cd_Namespace cd) (sp_Services (cd_ServiceSpec cd)) = None)"
    by (auto simp: CD_ValidateCreate_def getClusterDeploymentTemplate_def wrapE_def split: sum.splits option.splits prod.splits)
  note steps = this [unfolded validate_template_None ClusterDeployCredential_None validate_services_None [OF assms]]
  show ?thesis
  proof (cases "cc_getCredential (cv_client v) (ObjectKey (cd_Namespace cd) (cd_Credential cd))")
    case (Inr cred)
    then show ?thesis
      unfolding steps deployable_def by (cases "getParent (cv_client v) cred") (simp_all, blast)
  qed (simp add: steps deployable_def)
qed

text \<open>
  C16: a new ClusterDeployment is admitted exactly if it can be deployed: its template is valid and
  compatible with the parent cluster of its credential, the Kubernetes version suits every enabled
  service, the credential is ready and every infrastructure provider supports its identity, its
  services have valid templates and their dependencies are complete and acyclic.
\<close>

theorem CD_ValidateCreate_iff:
  assumes "validator_orders v" and "keyed_services cd"
  shows "snd (CD_ValidateCreate v cd) = None \<longleftrightarrow> deployable v cd \<and> sound_dependencies cd"
  using assms by (rule CD_ValidateCreate_spec)

section \<open>Histories\<close>

text \<open>
  A ClusterDeployment as admission lets it evolve: created, then updated any number of times, the
  cluster changing between requests in any way.
\<close>

inductive admitted :: "ClusterDeployment list \<Rightarrow> bool" where
  created: "admitted [cd]" if "validator_orders (v :: nat cd_validator)" "keyed_services cd" "snd (CD_ValidateCreate v cd) = None"
| updated: "admitted (new # old # history)" if "admitted (old # history)" "validator_orders (v :: nat cd_validator)" "keyed_services new"
    "snd (CD_ValidateUpdate v old new) = None"

lemma check_upgrade_None:
  "snd (check_upgrade v old new t) = None \<longleftrightarrow>
     (cv_ValidateClusterUpgradePath v \<longrightarrow> cd_Template new \<in> set (cd_AvailableUpgrades old)) \<and> snd (validate_template v t new) = None"
  by (auto simp: check_upgrade_def Let_def split: prod.splits option.splits)

lemma CD_ValidateUpdate_None:
  "snd (CD_ValidateUpdate v old new) = None \<longleftrightarrow>
     (\<exists>t. cc_getClusterTemplate (cv_client v) (ObjectKey (cd_Namespace new) (cd_Template new)) = Inr t
        \<and> (cd_Template old = cd_Template new \<or> snd (check_upgrade v old new t) = None)
        \<and> (cd_Credential old = cd_Credential new \<or> ClusterDeployCredential (cv_lib v) (cv_client v) new t = None)
        \<and> (cd_DataSource old \<noteq> [] \<longleftrightarrow> cd_DataSource new \<noteq> [])
        \<and> (sp_Services (cd_ServiceSpec old) = sp_Services (cd_ServiceSpec new)
           \<or> validate_services v (cd_Namespace new) (sp_Services (cd_ServiceSpec new)) = None))"
proof (cases "cc_getClusterTemplate (cv_client v) (ObjectKey (cd_Namespace new) (cd_Template new))")
  case (Inl e)
  then show ?thesis by (simp add: CD_ValidateUpdate_def getClusterDeploymentTemplate_def)
next
  case (Inr t)
  obtain w e where c: "(if cd_Template old \<noteq> cd_Template new then check_upgrade v old new t else ([], None)) = (w, e)" by (metis surj_pair)
  then have e: "e = None \<longleftrightarrow> cd_Template old = cd_Template new \<or> snd (check_upgrade v old new t) = None" by (auto split: if_splits)
  show ?thesis
    unfolding CD_ValidateUpdate_def getClusterDeploymentTemplate_def Inr wrapE_simps sum.case c prod.case
    by (cases e) (use e in \<open>auto split: option.splits\<close>)
qed

text \<open>
  C17: whatever admitted requests a ClusterDeployment went through, its service dependencies are complete
  and acyclic at every point, although an update that leaves the services alone does not check them
  again, and a data source is there at every point or at none.
\<close>

theorem admitted_invariant:
  assumes "admitted history" and "cd \<in> set history"
  shows "sound_dependencies cd \<and> (cd_DataSource cd \<noteq> [] \<longleftrightarrow> cd_DataSource (last history) \<noteq> [])"
proof -
  have "\<forall>cd\<in>set history. sound_dependencies cd \<and> (cd_DataSource cd \<noteq> [] \<longleftrightarrow> cd_DataSource (last history) \<noteq> [])"
    using assms(1)
  proof (induction rule: admitted.induct)
    case (created v cd)
    then show ?case by (simp add: CD_ValidateCreate_spec)
  next
    case (updated old history v new)
    from updated.hyps(4) [unfolded CD_ValidateUpdate_None] obtain data: "cd_DataSource old \<noteq> [] \<longleftrightarrow> cd_DataSource new \<noteq> []"
      and services: "sp_Services (cd_ServiceSpec old) = sp_Services (cd_ServiceSpec new)
         \<or> validate_services v (cd_Namespace new) (sp_Services (cd_ServiceSpec new)) = None"
      by (elim exE conjE) (rule that; assumption)
    have "sound_dependencies new"
    proof (cases "validate_services v (cd_Namespace new) (sp_Services (cd_ServiceSpec new)) = None")
      case True
      then show ?thesis unfolding validate_services_None [OF updated.hyps(2,3)] by simp
    next
      case False
      with services have same: "sp_Services (cd_ServiceSpec old) = sp_Services (cd_ServiceSpec new)" by blast
      have "sound_dependencies old" using updated.IH by (meson list.set_intros(1))
      then show ?thesis unfolding sound_dependencies_def same .
    qed
    moreover have "cd_DataSource new \<noteq> [] \<longleftrightarrow> cd_DataSource (last (old # history)) \<noteq> []"
      using data updated.IH by (meson list.set_intros(1))
    moreover have "last (new # old # history) = last (old # history)" by simp
    ultimately show ?case using updated.IH by (metis set_ConsD)
  qed
  with assms(2) show ?thesis by blast
qed

text \<open>
  When upgrade paths are validated, an admitted update moves to another template only along an
  upgrade that the status of the stored object offers, and only to a template that is valid and
  compatible at that time.
\<close>

theorem CD_ValidateUpdate_upgrade:
  assumes "snd (CD_ValidateUpdate v old new) = None" and "cd_Template old \<noteq> cd_Template new"
  shows "(cv_ValidateClusterUpgradePath v \<longrightarrow> cd_Template new \<in> set (cd_AvailableUpgrades old))
     \<and> (\<exists>t cred parent. cc_getClusterTemplate (cv_client v) (ObjectKey (cd_Namespace new) (cd_Template new)) = Inr t \<and> ct_Valid t
          \<and> cc_getCredential (cv_client v) (ObjectKey (cd_Namespace new) (cd_Credential new)) = Inr cred
          \<and> getParent (cv_client v) cred = Inr parent \<and> compatible t parent
          \<and> k8s_compatible (cv_lib v) (cc_svc (cv_client v)) t new)"
  using assms unfolding CD_ValidateUpdate_None check_upgrade_None validate_template_None by blast

section \<open>A concrete cluster\<close>

definition example_parent :: ClusterParent where
  "example_parent = \<lparr>par_Name = ''kcm'', par_HelmReleasePrefix = [], par_Status =
     \<lparr>cs_AvailableProviders = [''infrastructure-aws'', ''bootstrap-k0s''], cs_CAPIContracts = [(''infrastructure-aws'', [(''v1beta1'', ''v1beta1_v1beta2'')])],
      cs_Components = [(''aws'', [''infrastructure-aws''])]\<rparr>\<rparr>"

definition example_aws_template :: ClusterTemplate where
  "example_aws_template = (example_template ''dev'' ''aws'' \<lparr>helm_ChartSpec = None, helm_ChartRef = None\<rparr>)
     \<lparr>ct_StatusProviders := [''infrastructure-aws''], ct_StatusProviderContracts := [(''infrastructure-aws'', ''v1beta2'')]\<rparr>"

definition example_cluster_client :: cluster_client where
  "example_cluster_client =
     \<lparr>cc_getCredential = (\<lambda>_. Inr \<lparr>cred_Name = ''c'', cred_Namespace = ''dev'', cred_Region = [], cred_IdentityKind = Some ''AWSIdentity'', cred_Ready = True\<rparr>),
      cc_getRegion = (\<lambda>_. Inl NotFound), cc_getManagement = Inr example_parent, cc_getClusterTemplate = (\<lambda>_. Inr example_aws_template),
      cc_regional = (\<lambda>_. Inr \<lparr>rc_byProvider = (\<lambda>_. Inr []),
         rc_byChart = (\<lambda>_. Inr [\<lparr>pi_ClusterIdentities = [''AWSIdentity''], pi_ClusterIdentityKinds = []\<rparr>])\<rparr>),
      cc_listRegions = Inr [], cc_svc = example_client []\<rparr>"

definition example_cd_validator :: "nat cd_validator" where
  "example_cd_validator = \<lparr>cv_client = example_cluster_client,
     cv_lib = \<lparr>cl_NewVersion = (\<lambda>_. None), cl_NewConstraint = (\<lambda>_. None), cl_validateName = (\<lambda>_. [])\<rparr>,
     cv_ValidateClusterUpgradePath = True,
     cv_order = map (\<lambda>s. svc_key s), cv_graphOrder = (\<lambda>services. map fst (service_graph services))\<rparr>"

definition example_cd :: "string \<Rightarrow> ClusterDeployment" where
  "example_cd template = \<lparr>cd_Name = ''cd'', cd_Namespace = ''dev'', cd_UID = ''u'', cd_Labels = [], cd_Deleting = False,
     cd_Template = template, cd_Credential = ''c'', cd_DataSource = [], cd_DryRun = False, cd_Config = None,
     cd_ServiceSpec = example_spec\<lparr>sp_Services := []\<rparr>, cd_AvailableUpgrades = [''aws-2''], cd_StatusRegion = []\<rparr>"

lemma example_cd_orders: "validator_orders example_cd_validator"
  by (simp add: validator_orders_def example_cd_validator_def)

lemma example_cd_keyed: "keyed_services (example_cd t)"
  by (simp add: keyed_services_def example_cd_def)

lemma example_cd_admitted:
  "snd (CD_ValidateCreate example_cd_validator (example_cd ''aws-1'')) = None"
  "snd (CD_ValidateUpdate example_cd_validator (example_cd ''aws-1'') (example_cd ''aws-2'')) = None"
  by code_simp+

theorem validateCompatibilityAttrs_correct_witness:
  "compatible example_aws_template example_parent"
proof -
  have "validateCompatibilityAttrs (ct_StatusProviderContracts example_aws_template) example_aws_template example_parent = []" by code_simp
  with validateCompatibilityAttrs_correct [OF refl, of example_aws_template example_parent] show ?thesis by simp
qed

theorem CD_ValidateCreate_iff_witness:
  "deployable example_cd_validator (example_cd ''aws-1'') \<and> sound_dependencies (example_cd ''aws-1'')"
  using CD_ValidateCreate_iff [OF example_cd_orders example_cd_keyed] example_cd_admitted(1) by blast

theorem admitted_invariant_witness:
  "sound_dependencies (example_cd ''aws-2'') \<and> (cd_DataSource (example_cd ''aws-2'') \<noteq> [] \<longleftrightarrow> cd_DataSource (example_cd ''aws-1'') \<noteq> [])"
proof -
  have "admitted [example_cd ''aws-1'']" using example_cd_orders example_cd_keyed example_cd_admitted(1) by (rule created)
  then have "admitted [example_cd ''aws-2'', example_cd ''aws-1'']"
    using example_cd_orders example_cd_keyed example_cd_admitted(2) by (rule updated)
  from admitted_invariant [OF this, of "example_cd ''aws-2''"] show ?thesis by simp
qed

theorem CD_ValidateUpdate_upgrade_witness:
  "''aws-2'' \<in> set (cd_AvailableUpgrades (example_cd ''aws-1''))
   \<and> (\<exists>t parent. cc_getClusterTemplate example_cluster_client (ObjectKey ''dev'' ''aws-2'') = Inr t \<and> compatible t parent)"
proof -
  have "cd_Template (example_cd ''aws-1'') \<noteq> cd_Template (example_cd ''aws-2'')" by (simp add: example_cd_def)
  from CD_ValidateUpdate_upgrade [OF example_cd_admitted(2) this] show ?thesis
    by (auto simp: example_cd_def example_cd_validator_def)
qed

end
