(* ===== verification/ProviderContracts.thy ===== *)
theory ProviderContracts
  imports ClusterAdmission
begin

text \<open>
  Admission of the Management and of Regions: the CAPI contracts of their provider templates
  (\<^verbatim>\<open>internal/util/validation/mgmt.go\<close>, \<^verbatim>\<open>provider_template.go\<close>), the removal of components
  (\<^verbatim>\<open>internal/webhook/management_webhook.go\<close>, \<^verbatim>\<open>region_webhook.go\<close>) and their deletion
  (\<^verbatim>\<open>internal/util/validation/region.go\<close>, \<^verbatim>\<open>deletion.go\<close>).

  A provider is taken to be in use in a region only if some ClusterDeployment there uses it, and found
  whenever the clusters of each template share a region. Two defects are proved as theorems: the
  lookup reads one ClusterDeployment per template, so that the clusters of another region go
  unnoticed, and a ClusterTemplate that asks for no contract of a provider counts as asking for an
  empty one, which no provider exposes.
\<close>

section \<open>Objects and reads\<close>

record ProviderTemplate =
  pt_Name :: string
  pt_Providers :: "string list"
  pt_CAPIContracts :: "(string \<times> string) list"
  pt_Valid :: bool

text \<open>\<open>ComponentsManager\<close>: the Management or a Region, told apart by the kind.\<close>

record ComponentsManager =
  cm_Kind :: string
  cm_Name :: string
  cm_Deleting :: bool
  cm_Release :: string
  cm_Core :: "Core option"
  cm_Providers :: "Component list"

record Region =
  rgn_Name :: string
  rgn_KubeConfig :: "(string \<times> string) option"
  rgn_ClusterDeployment :: "ObjectKey option"

text \<open>
  The reads. \<open>pc_clusterDeployments\<close> lists the ClusterDeployments of a namespace that use a template,
  \<open>pc_byCredential\<close> those with a credential, both limited to one, as are the last two.
\<close>

record contracts_client =
  pc_getProviderTemplate :: "string \<Rightarrow> api_error + ProviderTemplate"
  pc_clusterTemplates :: "string \<Rightarrow> api_error + ClusterTemplate list"
  pc_clusterDeployments :: "string \<Rightarrow> string \<Rightarrow> api_error + ClusterDeployment list"
  pc_getRelease :: "string \<Rightarrow> api_error + Release"
  pc_getManagement :: "api_error + Management"
  pc_getSecretKeys :: "ObjectKey \<Rightarrow> api_error + string list"
  pc_getClusterDeployment :: "ObjectKey \<Rightarrow> api_error option"
  pc_credentialsOfRegion :: "string \<Rightarrow> api_error + ObjectKey list"
  pc_byCredential :: "ObjectKey \<Rightarrow> api_error + ClusterDeployment list"
  pc_anyRegion :: "api_error + string list"
  pc_anyClusterDeployment :: "api_error + ClusterDeployment list"

text \<open>What is reported of incompatible contracts: the clauses of the message.\<close>

datatype problem =
    CoreDoesNotSupport string string
  | MissingContract string string

datatype contracts_error =
    ReadFailed string api_error
  | ProviderIsNotReady string
  | UnsupportedKind string
  | ReleaseNotReady string
  | ProvidersRequired "string list"
  | Incompatible "problem list"
  | DeletionForbidden string
  | SecretKeyMissing string

section \<open>Providers in use\<close>

record InUseProviderParams =
  iup_Regions :: "string list"
  iup_ProviderContracts :: "string list"

definition in_use_step ::
  "contracts_client \<Rightarrow> string \<Rightarrow> ClusterTemplate \<Rightarrow> InUseProviderParams \<Rightarrow> contracts_error + InUseProviderParams" where
  "in_use_step cl providerName cltpl params =
     bindE (wrapE (ReadFailed ''ClusterDeployments'') (pc_clusterDeployments cl (po_Name cltpl) (po_Namespace cltpl))) (\<lambda>clds.
       if length clds = 0 then Inr params
       else Inr (params\<lparr>iup_Regions := iup_Regions params @ map cd_StatusRegion clds,
                        iup_ProviderContracts := iup_ProviderContracts params
                          @ [get_or [] (alookup (ct_StatusProviderContracts cltpl)) providerName]\<rparr>))"

definition getInUseProvidersWithContracts ::
  "contracts_client \<Rightarrow> ProviderTemplate \<Rightarrow> contracts_error + (string \<times> InUseProviderParams) list" where
  "getInUseProvidersWithContracts cl pTpl =
     foldE (\<lambda>providerName inUse.
         bindE (wrapE (ReadFailed ''ClusterTemplates'') (pc_clusterTemplates cl providerName)) (\<lambda>clusterTemplates.
           if length clusterTemplates = 0 then Inr inUse
           else bindE (foldE (in_use_step cl providerName) clusterTemplates \<lparr>iup_Regions = [], iup_ProviderContracts = []\<rparr>)
                  (\<lambda>params. Inr (AList.update providerName params inUse))))
       (pt_Providers pTpl) []"

definition ProvidersInUseFor ::
  "contracts_client \<Rightarrow> ProviderTemplate \<Rightarrow> ComponentsManager \<Rightarrow> contracts_error + (string \<times> string list) list" where
  "ProvidersInUseFor cl pTpl obj =
     bindE (if cm_Kind obj = ''Management'' then Inr []
            else if cm_Kind obj = ''Region'' then Inr (cm_Name obj)
            else Inl (UnsupportedKind (cm_Kind obj))) (\<lambda>regionName.
       bindE (getInUseProvidersWithContracts cl pTpl) (\<lambda>inUseProviders.
         Inr (map (\<lambda>(providerName, params). (providerName, iup_ProviderContracts params))
                (filter (\<lambda>(_, params). regionName \<in> set (iup_Regions params)) inUseProviders))))"

section \<open>Contracts\<close>

definition Release_ProviderTemplate :: "Release \<Rightarrow> string \<Rightarrow> string" where
  "Release_ProviderTemplate r name =
     (case find (\<lambda>p. comp_Name p = name) (rel_Providers r) of None \<Rightarrow> [] | Some p \<Rightarrow> comp_Template p)"

definition findCAPITemplateName :: "Release \<Rightarrow> ComponentsManager \<Rightarrow> string" where
  "findCAPITemplateName release obj =
     (case cm_Core obj of
        Some core \<Rightarrow> if core_CAPI core \<noteq> [] then core_CAPI core else rel_CAPI release
      | None \<Rightarrow> rel_CAPI release)"

definition findProviderTemplateName :: "Release \<Rightarrow> Component \<Rightarrow> string" where
  "findProviderTemplateName release p =
     (if comp_Template p \<noteq> [] then comp_Template p else Release_ProviderTemplate release (comp_Name p))"

definition template_problems :: "ProviderTemplate \<Rightarrow> ProviderTemplate \<Rightarrow> (string \<times> string list) list \<Rightarrow> problem list" where
  "template_problems capiTpl pTpl inUseProviders =
     (let exposedContracts = concat (map (\<lambda>(_, providerContracts). split_underscore providerContracts) (pt_CAPIContracts pTpl))
      in concat (map (\<lambda>(capiVersion, _).
             if length (pt_CAPIContracts capiTpl) > 0 \<and> alookup (pt_CAPIContracts capiTpl) capiVersion = None
             then [CoreDoesNotSupport capiVersion (pt_Name pTpl)] else []) (pt_CAPIContracts pTpl))
         @ concat (map (\<lambda>(provider, contracts).
             concat (map (\<lambda>contract. if contract \<notin> set exposedContracts then [MissingContract contract provider] else []) contracts))
             inUseProviders))"

fun getIncompatibleContractsForProviderTemplates ::
  "contracts_client \<Rightarrow> ComponentsManager \<Rightarrow> ProviderTemplate \<Rightarrow> string list \<Rightarrow> contracts_error + problem list" where
  "getIncompatibleContractsForProviderTemplates cl obj capiTpl [] = Inr []"
| "getIncompatibleContractsForProviderTemplates cl obj capiTpl (tplName # templateNames) =
     bindE (wrapE (ReadFailed tplName) (pc_getProviderTemplate cl tplName)) (\<lambda>pTpl.
       if length (pt_CAPIContracts pTpl) = 0 then getIncompatibleContractsForProviderTemplates cl obj capiTpl templateNames
       else if \<not> pt_Valid pTpl then Inl (ProviderIsNotReady tplName)
       else bindE (ProvidersInUseFor cl pTpl obj) (\<lambda>inUseProviders.
              bindE (getIncompatibleContractsForProviderTemplates cl obj capiTpl templateNames) (\<lambda>problems.
                Inr (template_problems capiTpl pTpl inUseProviders @ problems))))"

definition ValidateProviderContracts ::
  "contracts_client \<Rightarrow> Release \<Rightarrow> ComponentsManager \<Rightarrow> contracts_error + problem list" where
  "ValidateProviderContracts cl release obj =
     (let capiTplName = findCAPITemplateName release obj
      in bindE (wrapE (ReadFailed capiTplName) (pc_getProviderTemplate cl capiTplName)) (\<lambda>capiTpl.
           if length (pt_CAPIContracts capiTpl) > 0 \<and> \<not> pt_Valid capiTpl then Inl (ProviderIsNotReady (pt_Name capiTpl))
           else getIncompatibleContractsForProviderTemplates cl obj capiTpl
                  (filter (\<lambda>tplName. tplName \<noteq> [] \<and> tplName \<noteq> pt_Name capiTpl) (map (findProviderTemplateName release) (cm_Providers obj)))))"

definition changed_templates :: "Release \<Rightarrow> ComponentsManager \<Rightarrow> ComponentsManager \<Rightarrow> string list" where
  "changed_templates release oldObj newObj =
     (let oldProviderTpls = index_by comp_Name (findProviderTemplateName release) (cm_Providers oldObj)
      in map (findProviderTemplateName release)
           (filter (\<lambda>p. let newTpl = findProviderTemplateName release p
                        in newTpl \<noteq> [] \<and> newTpl \<noteq> findCAPITemplateName release newObj
                           \<and> oldProviderTpls (comp_Name p) \<noteq> Some newTpl) (cm_Providers newObj)))"

definition ValidateChangedProviderContracts ::
  "contracts_client \<Rightarrow> Release \<Rightarrow> ComponentsManager \<Rightarrow> ComponentsManager \<Rightarrow> contracts_error + problem list" where
  "ValidateChangedProviderContracts cl release oldObj newObj =
     (let oldCAPITplName = findCAPITemplateName release oldObj; newCAPITplName = findCAPITemplateName release newObj
      in bindE (wrapE (ReadFailed newCAPITplName) (pc_getProviderTemplate cl newCAPITplName)) (\<lambda>capiTpl.
           if oldCAPITplName \<noteq> newCAPITplName \<and> \<not> pt_Valid capiTpl then Inl (ProviderIsNotReady (pt_Name capiTpl))
           else getIncompatibleContractsForProviderTemplates cl newObj capiTpl (changed_templates release oldObj newObj)))"

section \<open>Webhooks\<close>

definition removedComponents :: "ComponentsManager \<Rightarrow> ComponentsManager \<Rightarrow> Component list" where
  "removedComponents oldObj newObj =
     filter (\<lambda>oldComp. \<not> contains_func (\<lambda>newComp. comp_Name oldComp = comp_Name newComp) (cm_Providers newObj)) (cm_Providers oldObj)"

definition component_in_use ::
  "contracts_client \<Rightarrow> Release \<Rightarrow> ComponentsManager \<Rightarrow> Component \<Rightarrow> string list \<Rightarrow> contracts_error + string list" where
  "component_in_use cl release newObj m inUse =
     (let tplRef = findProviderTemplateName release m
      in if tplRef = [] then Inr inUse
         else case pc_getProviderTemplate cl tplRef of
                Inl e \<Rightarrow> if e = NotFound then Inr inUse else Inl (ReadFailed tplRef e)
              | Inr prTpl \<Rightarrow> bindE (ProvidersInUseFor cl prTpl newObj) (\<lambda>providers. Inr (fold add_new (map fst providers) inUse)))"

text \<open>The names of the providers are the keys of a map; their order in the message is arbitrary.\<close>

definition checkComponentsRemoval ::
  "contracts_client \<Rightarrow> Release \<Rightarrow> ComponentsManager \<Rightarrow> ComponentsManager \<Rightarrow> contracts_error option" where
  "checkComponentsRemoval cl release oldObj newObj =
     (case foldE (component_in_use cl release newObj) (removedComponents oldObj newObj) [] of
        Inl e \<Rightarrow> Some e
      | Inr inUse \<Rightarrow> if inUse = [] then None else Some (ProvidersRequired inUse))"

definition validateRelease :: "contracts_client \<Rightarrow> string \<Rightarrow> contracts_error option" where
  "validateRelease cl releaseName =
     (case pc_getRelease cl releaseName of
        Inl e \<Rightarrow> Some (ReadFailed releaseName e)
      | Inr release \<Rightarrow> if \<not> rel_Ready release then Some (ReleaseNotReady releaseName) else None)"

definition Management_ValidateCreate :: "contracts_client \<Rightarrow> ComponentsManager \<Rightarrow> contracts_error verdict" where
  "Management_ValidateCreate cl obj = ([], validateRelease cl (cm_Release obj))"

definition check_components ::
  "contracts_client \<Rightarrow> Release \<Rightarrow> string \<Rightarrow> ComponentsManager \<Rightarrow> ComponentsManager \<Rightarrow> contracts_error verdict" where
  "check_components cl release kind oldObj newObj =
     (case checkComponentsRemoval cl release oldObj newObj of
        Some e \<Rightarrow> ([''Some of the providers cannot be removed''], Some e)
      | None \<Rightarrow>
          (case ValidateChangedProviderContracts cl release oldObj newObj of
             Inl e \<Rightarrow> ([], Some e)
           | Inr incompatibleContracts \<Rightarrow>
               if incompatibleContracts \<noteq> []
               then ([''The '' @ kind @ '' object has incompatible CAPI contract versions in ProviderTemplates''],
                     Some (Incompatible incompatibleContracts))
               else ([], None)))"

definition Management_ValidateUpdate :: "contracts_client \<Rightarrow> ComponentsManager \<Rightarrow> ComponentsManager \<Rightarrow> contracts_error verdict" where
  "Management_ValidateUpdate cl oldObj newObj =
     (if cm_Deleting newObj then ([], None)
      else case (if cm_Release oldObj \<noteq> cm_Release newObj then validateRelease cl (cm_Release newObj) else None) of
             Some e \<Rightarrow> ([], Some e)
           | None \<Rightarrow>
               (case pc_getRelease cl (cm_Release newObj) of
                  Inl e \<Rightarrow> ([], Some (ReadFailed (cm_Release newObj) e))
                | Inr release \<Rightarrow> check_components cl release ''Management'' oldObj newObj))"

definition Region_ValidateUpdate :: "contracts_client \<Rightarrow> ComponentsManager \<Rightarrow> ComponentsManager \<Rightarrow> contracts_error verdict" where
  "Region_ValidateUpdate cl oldObj newObj =
     (if cm_Deleting newObj then ([], None)
      else case pc_getManagement cl of
             Inl e \<Rightarrow> ([], Some (ReadFailed ''Management'' e))
           | Inr mgmt \<Rightarrow>
               (case pc_getRelease cl (mgmt_Release mgmt) of
                  Inl e \<Rightarrow> ([], Some (ReadFailed (mgmt_Release mgmt) e))
                | Inr release \<Rightarrow> check_components cl release ''Region'' oldObj newObj))"

definition ManagementDeletionAllowed :: "contracts_client \<Rightarrow> contracts_error option" where
  "ManagementDeletionAllowed cl =
     (case pc_anyRegion cl of
        Inl e \<Rightarrow> Some (ReadFailed ''Regions'' e)
      | Inr regions \<Rightarrow>
          if length regions > 0 then Some (DeletionForbidden ''the Management object can't be removed if Region objects still exist'')
          else case pc_anyClusterDeployment cl of
                 Inl e \<Rightarrow> Some (ReadFailed ''ClusterDeployments'' e)
               | Inr clusterDeployments \<Rightarrow>
                   if length clusterDeployments > 0
                   then Some (DeletionForbidden ''the Management object can't be removed if ClusterDeployment objects still exist'') else None)"

definition RegionClusterReference :: "contracts_client \<Rightarrow> string \<Rightarrow> Region \<Rightarrow> contracts_error option" where
  "RegionClusterReference cl systemNamespace rgn =
     (case (case rgn_KubeConfig rgn of
              None \<Rightarrow> None
            | Some (name, key) \<Rightarrow>
                (case pc_getSecretKeys cl (ObjectKey systemNamespace name) of
                   Inl e \<Rightarrow> Some (ReadFailed name e)
                 | Inr keys \<Rightarrow> if key \<notin> set keys then Some (SecretKeyMissing key) else None)) of
        Some e \<Rightarrow> Some e
      | None \<Rightarrow>
          (case rgn_ClusterDeployment rgn of
             None \<Rightarrow> None
           | Some cldKey \<Rightarrow> (case pc_getClusterDeployment cl cldKey of None \<Rightarrow> None | Some e \<Rightarrow> Some (ReadFailed ''ClusterDeployment'' e))))"

fun credentials_unused :: "contracts_client \<Rightarrow> ObjectKey list \<Rightarrow> contracts_error option" where
  "credentials_unused cl [] = None"
| "credentials_unused cl (cred # creds) =
     (case pc_byCredential cl cred of
        Inl e \<Rightarrow> Some (ReadFailed ''ClusterDeployments'' e)
      | Inr clusterDeployments \<Rightarrow>
          if length clusterDeployments > 0
          then Some (DeletionForbidden ''the Region object can't be removed while any ClusterDeployment objects deployed in that Region still exist'')
          else credentials_unused cl creds)"

definition RegionDeletionAllowed :: "contracts_client \<Rightarrow> Region \<Rightarrow> contracts_error option" where
  "RegionDeletionAllowed cl rgn =
     (case pc_credentialsOfRegion cl (rgn_Name rgn) of
        Inl e \<Rightarrow> Some (ReadFailed ''Credentials'' e)
      | Inr creds \<Rightarrow> credentials_unused cl creds)"

section \<open>Which providers are found in use\<close>

definition ExtractProvidersFromClusterTemplate :: "ClusterTemplate \<Rightarrow> string list" where
  "ExtractProvidersFromClusterTemplate ct = ct_StatusProviders ct"

text \<open>What the API server answers: the templates by index, and one ClusterDeployment of a template.\<close>

definition users_of :: "ClusterDeployment list \<Rightarrow> string \<Rightarrow> string \<Rightarrow> ClusterDeployment set" where
  "users_of cds name namespace = {d \<in> set cds. cd_Namespace d = namespace \<and> name \<in> set (ExtractTemplateNameFromClusterDeployment d)}"

definition contracts_laws :: "contracts_client \<Rightarrow> ClusterTemplate list \<Rightarrow> ClusterDeployment list \<Rightarrow> bool" where
  "contracts_laws cl cts cds \<longleftrightarrow>
     (\<forall>p items. pc_clusterTemplates cl p = Inr items \<longrightarrow> set items = {t \<in> set cts. p \<in> set (ExtractProvidersFromClusterTemplate t)})
   \<and> (\<forall>name ns items. pc_clusterDeployments cl name ns = Inr items \<longrightarrow> first_of items (users_of cds name ns))"

text \<open>A provider is used in a region: some ClusterDeployment there uses a template that needs it.\<close>

definition used_in :: "ClusterTemplate list \<Rightarrow> ClusterDeployment list \<Rightarrow> string \<Rightarrow> string \<Rightarrow> bool" where
  "used_in cts cds region p \<longleftrightarrow>
     (\<exists>t\<in>set cts. p \<in> set (ExtractProvidersFromClusterTemplate t)
        \<and> (\<exists>d\<in>users_of cds (po_Name t) (po_Namespace t). cd_StatusRegion d = region))"

definition same_region :: "ClusterTemplate list \<Rightarrow> ClusterDeployment list \<Rightarrow> bool" where
  "same_region cts cds \<longleftrightarrow>
     (\<forall>t\<in>set cts. \<forall>d\<in>users_of cds (po_Name t) (po_Namespace t). \<forall>d'\<in>users_of cds (po_Name t) (po_Namespace t).
        cd_StatusRegion d = cd_StatusRegion d')"

definition region_of :: "ComponentsManager \<Rightarrow> string" where
  "region_of obj = (if cm_Kind obj = ''Management'' then [] else cm_Name obj)"

text \<open>The regions one template contributes, and those a provider ends up with.\<close>

definition regions_read :: "contracts_client \<Rightarrow> ClusterTemplate \<Rightarrow> string set" where
  "regions_read cl t = (case pc_clusterDeployments cl (po_Name t) (po_Namespace t) of Inl _ \<Rightarrow> {} | Inr clds \<Rightarrow> set (map cd_StatusRegion clds))"

lemma in_use_step_regions:
  "in_use_step cl p t params = Inr params' \<Longrightarrow> set (iup_Regions params') = set (iup_Regions params) \<union> regions_read cl t"
  by (cases "pc_clusterDeployments cl (po_Name t) (po_Namespace t)")
    (auto simp: in_use_step_def regions_read_def split: if_splits)

lemma fold_in_use_regions:
  "foldE (in_use_step cl p) ts params = Inr params' \<Longrightarrow>
     set (iup_Regions params') = set (iup_Regions params) \<union> (\<Union>t\<in>set ts. regions_read cl t)"
proof (induction ts arbitrary: params)
  case (Cons t ts)
  then obtain params1 where "in_use_step cl p t params = Inr params1" "foldE (in_use_step cl p) ts params1 = Inr params'"
    by (auto simp: result_simps)
  with Cons.IH in_use_step_regions show ?case by fastforce
qed simp

text \<open>Entry by entry: the map holds a provider exactly with the regions read for its templates.\<close>

definition provider_regions :: "contracts_client \<Rightarrow> string \<Rightarrow> string set" where
  "provider_regions cl p = (case pc_clusterTemplates cl p of Inl _ \<Rightarrow> {} | Inr ts \<Rightarrow> \<Union>t\<in>set ts. regions_read cl t)"

definition readable :: "contracts_client \<Rightarrow> string \<Rightarrow> bool" where
  "readable cl p \<longleftrightarrow>
     (\<exists>ts. pc_clusterTemplates cl p = Inr ts \<and> (\<forall>t\<in>set ts. \<exists>items. pc_clusterDeployments cl (po_Name t) (po_Namespace t) = Inr items))"

definition entry_ok :: "contracts_client \<Rightarrow> string set \<Rightarrow> (string \<times> InUseProviderParams) list \<Rightarrow> bool" where
  "entry_ok cl ps inUse \<longleftrightarrow>
     (\<forall>p params. (p, params) \<in> set inUse \<longrightarrow> p \<in> ps \<and> set (iup_Regions params) = provider_regions cl p)
   \<and> (\<forall>p\<in>ps. readable cl p \<and> (provider_regions cl p \<noteq> {} \<longrightarrow> p \<in> fst ` set inUse))"

lemma fold_in_use_readable:
  "foldE (in_use_step cl p) ts params = Inr params' \<Longrightarrow>
     \<forall>t\<in>set ts. \<exists>items. pc_clusterDeployments cl (po_Name t) (po_Namespace t) = Inr items"
  by (induction ts arbitrary: params) (auto simp: result_simps in_use_step_def split: if_splits)

lemma set_AList_update_subset: "set (AList.update k v al) \<subseteq> insert (k, v) (set al)"
  by (induction al) auto

lemma entry_ok_update:
  assumes "entry_ok cl ps inUse" and "set (iup_Regions params) = provider_regions cl p" and "readable cl p"
  shows "entry_ok cl (insert p ps) (AList.update p params inUse)"
proof -
  have "q \<in> insert p ps \<and> set (iup_Regions params') = provider_regions cl q"
    if "(q, params') \<in> set (AList.update p params inUse)" for q params'
  proof -
    from that set_AList_update_subset have "(q, params') \<in> insert (p, params) (set inUse)" by (rule rev_subsetD)
    with assms show ?thesis by (auto simp: entry_ok_def)
  qed
  moreover from assms(1,3) have "\<forall>q\<in>insert p ps. readable cl q \<and> (provider_regions cl q \<noteq> {} \<longrightarrow> q \<in> insert p (fst ` set inUse))"
    by (auto simp: entry_ok_def)
  ultimately show ?thesis unfolding entry_ok_def keys_update by blast
qed

lemma getInUse_entries:
  assumes "getInUseProvidersWithContracts cl pTpl = Inr inUse"
  shows "entry_ok cl (set (pt_Providers pTpl)) inUse"
proof -
  let ?step = "\<lambda>providerName inUse. bindE (wrapE (ReadFailed ''ClusterTemplates'') (pc_clusterTemplates cl providerName)) (\<lambda>clusterTemplates.
           if length clusterTemplates = 0 then Inr inUse
           else bindE (foldE (in_use_step cl providerName) clusterTemplates \<lparr>iup_Regions = [], iup_ProviderContracts = []\<rparr>)
                  (\<lambda>params. Inr (AList.update providerName params inUse)))"
  have step: "entry_ok cl (insert p ps) m'" if "?step p m = Inr m'" and "entry_ok cl ps m" for p ps m m'
  proof -
    from that(1) obtain ts where ts: "pc_clusterTemplates cl p = Inr ts"
      by (auto simp: result_simps)
    show ?thesis
    proof (cases "ts = []")
      case True
      with that ts show ?thesis by (auto simp: entry_ok_def provider_regions_def readable_def)
    next
      case False
      with that(1) ts obtain params where params: "foldE (in_use_step cl p) ts \<lparr>iup_Regions = [], iup_ProviderContracts = []\<rparr> = Inr params"
        and m': "m' = AList.update p params m"
        by (auto simp: result_simps)
      from fold_in_use_regions [OF params] ts have "set (iup_Regions params) = provider_regions cl p"
        by (simp add: provider_regions_def)
      moreover from fold_in_use_readable [OF params] ts have "readable cl p" by (simp add: readable_def)
      ultimately show ?thesis using entry_ok_update [OF that(2)] m' by simp
    qed
  qed
  have "entry_ok cl (ps \<union> set providers) m'" if "foldE ?step providers m = Inr m'" and "entry_ok cl ps m" for providers ps m m'
    using that
  proof (induction providers arbitrary: ps m)
    case (Cons p providers)
    from Cons.prems(1) obtain m1 where m1: "?step p m = Inr m1" and rest: "foldE ?step providers m1 = Inr m'"
      by (auto simp: result_simps simp del: wrapE_simps)
    from Cons.IH [OF rest step [OF m1 Cons.prems(2)]] show ?case by simp
  qed simp
  from this [of "pt_Providers pTpl" "[]" inUse "{}"] assms show ?thesis
    by (simp add: getInUseProvidersWithContracts_def entry_ok_def)
qed

lemma ProvidersInUseFor_keys:
  assumes "ProvidersInUseFor cl pTpl obj = Inr m"
  shows "fst ` set m = {p \<in> set (pt_Providers pTpl). region_of obj \<in> provider_regions cl p}"
    and "\<forall>p\<in>set (pt_Providers pTpl). readable cl p"
proof -
  from assms obtain inUse where inUse: "getInUseProvidersWithContracts cl pTpl = Inr inUse"
    and m: "m = map (\<lambda>(providerName, params). (providerName, iup_ProviderContracts params))
              (filter (\<lambda>(_, params). region_of obj \<in> set (iup_Regions params)) inUse)"
    by (auto simp: ProvidersInUseFor_def region_of_def result_simps split: if_splits)
  from getInUse_entries [OF inUse] have ok: "entry_ok cl (set (pt_Providers pTpl)) inUse" .
  then show "\<forall>p\<in>set (pt_Providers pTpl). readable cl p" by (simp add: entry_ok_def)
  show "fst ` set m = {p \<in> set (pt_Providers pTpl). region_of obj \<in> provider_regions cl p}"
  proof (intro set_eqI iffI)
    fix p assume "p \<in> fst ` set m"
    then obtain params where "(p, params) \<in> set inUse" "region_of obj \<in> set (iup_Regions params)"
      by (auto simp: m)
    with ok show "p \<in> {p \<in> set (pt_Providers pTpl). region_of obj \<in> provider_regions cl p}"
      by (auto simp: entry_ok_def)
  next
    fix p assume p: "p \<in> {p \<in> set (pt_Providers pTpl). region_of obj \<in> provider_regions cl p}"
    with ok obtain params where "(p, params) \<in> set inUse" by (fastforce simp: entry_ok_def)
    moreover from this ok p have "region_of obj \<in> set (iup_Regions params)" by (auto simp: entry_ok_def)
    ultimately show "p \<in> fst ` set m" by (force simp: m)
  qed
qed

text \<open>Against the contents of the API server.\<close>

lemma contracts_lawsD:
  assumes "contracts_laws cl cts cds"
  shows "pc_clusterTemplates cl p = Inr items \<Longrightarrow> set items = {t \<in> set cts. p \<in> set (ExtractProvidersFromClusterTemplate t)}"
    and "pc_clusterDeployments cl name ns = Inr ds \<Longrightarrow> first_of ds (users_of cds name ns)"
  using assms unfolding contracts_laws_def by blast+

lemma regions_read_used:
  assumes "contracts_laws cl cts cds" and "region \<in> provider_regions cl p"
  shows "used_in cts cds region p"
proof -
  from assms(2) obtain ts t where ts: "pc_clusterTemplates cl p = Inr ts" "t \<in> set ts" "region \<in> regions_read cl t"
    by (auto simp: provider_regions_def split: sum.splits)
  from ts(3) obtain items d where items: "pc_clusterDeployments cl (po_Name t) (po_Namespace t) = Inr items"
    "d \<in> set items" "cd_StatusRegion d = region"
    by (auto simp: regions_read_def split: sum.splits)
  from contracts_lawsD(1) [OF assms(1) ts(1)] ts(2) have "t \<in> set cts" "p \<in> set (ExtractProvidersFromClusterTemplate t)" by simp_all
  moreover from contracts_lawsD(2) [OF assms(1) items(1)] items(2) have "d \<in> users_of cds (po_Name t) (po_Namespace t)"
    by (auto simp: first_of_def)
  ultimately show ?thesis using items(3) by (auto simp: used_in_def)
qed

lemma used_regions_read:
  assumes "contracts_laws cl cts cds" and "same_region cts cds" and "readable cl p" and "used_in cts cds region p"
  shows "region \<in> provider_regions cl p"
proof -
  from assms(4) obtain t d where t: "t \<in> set cts" "p \<in> set (ExtractProvidersFromClusterTemplate t)"
    and d: "d \<in> users_of cds (po_Name t) (po_Namespace t)" "cd_StatusRegion d = region"
    by (auto simp: used_in_def)
  from assms(3) obtain ts where ts: "pc_clusterTemplates cl p = Inr ts"
    and reads: "\<forall>t\<in>set ts. \<exists>items. pc_clusterDeployments cl (po_Name t) (po_Namespace t) = Inr items"
    by (auto simp: readable_def)
  from contracts_lawsD(1) [OF assms(1) ts] t have "t \<in> set ts" by simp
  with reads obtain items where items: "pc_clusterDeployments cl (po_Name t) (po_Namespace t) = Inr items" by blast
  then have first: "first_of items (users_of cds (po_Name t) (po_Namespace t))" by (rule contracts_lawsD(2) [OF assms(1)])
  from first_of_nonempty [OF this] d obtain d' where d': "d' \<in> set items" by (cases items) auto
  with first have "d' \<in> users_of cds (po_Name t) (po_Namespace t)" by (auto simp: first_of_def)
  with assms(2) t(1) d(1) have "cd_StatusRegion d' = cd_StatusRegion d" unfolding same_region_def by blast
  with d(2) have "cd_StatusRegion d' = region" by simp
  with d' items have "region \<in> regions_read cl t" by (auto simp: regions_read_def)
  with ts \<open>t \<in> set ts\<close> show ?thesis by (auto simp: provider_regions_def)
qed

lemma ProvidersInUseFor_sound:
  assumes "contracts_laws cl cts cds" and "ProvidersInUseFor cl pTpl obj = Inr m" and "p \<in> fst ` set m"
  shows "p \<in> set (pt_Providers pTpl) \<and> used_in cts cds (region_of obj) p"
  using assms ProvidersInUseFor_keys(1) [OF assms(2)] regions_read_used by blast

lemma ProvidersInUseFor_exact_spec:
  assumes "contracts_laws cl cts cds" and "same_region cts cds" and "ProvidersInUseFor cl pTpl obj = Inr m"
  shows "fst ` set m = {p \<in> set (pt_Providers pTpl). used_in cts cds (region_of obj) p}"
  using ProvidersInUseFor_keys [OF assms(3)] regions_read_used [OF assms(1)] used_regions_read [OF assms(1,2)] by blast

section \<open>Removing components\<close>

lemma component_in_use_grows:
  "component_in_use cl release obj m inUse = Inr inUse' \<Longrightarrow> set inUse \<subseteq> set inUse'"
  by (auto simp: component_in_use_def Let_def result_simps set_fold_add_new split: if_splits sum.splits)

lemma fold_component_in_use_Nil:
  assumes "foldE (component_in_use cl release obj) ms inUse = Inr []" and "m \<in> set ms"
  shows "component_in_use cl release obj m [] = Inr []"
  using assms
proof (induction ms arbitrary: inUse)
  case (Cons m' ms)
  then obtain inUse1 where one: "component_in_use cl release obj m' inUse = Inr inUse1"
    and rest: "foldE (component_in_use cl release obj) ms inUse1 = Inr []"
    by (auto simp: result_simps)
  have "set inUse1 \<subseteq> set []"
    by (rule foldE_invariant [OF rest, where P = "\<lambda>b. set inUse1 \<subseteq> set b"]) (use component_in_use_grows in blast)+
  with component_in_use_grows [OF one] have "inUse1 = []" "inUse = []" by auto
  with Cons one rest show ?case by auto
qed simp

text \<open>The template a component names, and the providers it brings.\<close>

definition provides :: "contracts_client \<Rightarrow> Release \<Rightarrow> Component \<Rightarrow> string \<Rightarrow> bool" where
  "provides cl release m p \<longleftrightarrow>
     findProviderTemplateName release m \<noteq> []
   \<and> (\<exists>prTpl. pc_getProviderTemplate cl (findProviderTemplateName release m) = Inr prTpl \<and> p \<in> set (pt_Providers prTpl))"

lemma component_unused:
  assumes "contracts_laws cl cts cds" and "same_region cts cds"
    and "component_in_use cl release obj m [] = Inr []" and "provides cl release m p"
  shows "\<not> used_in cts cds (region_of obj) p"
proof -
  from assms(4) obtain prTpl where prTpl: "pc_getProviderTemplate cl (findProviderTemplateName release m) = Inr prTpl"
    "p \<in> set (pt_Providers prTpl)" "findProviderTemplateName release m \<noteq> []"
    by (auto simp: provides_def)
  with assms(3) obtain providers where providers: "ProvidersInUseFor cl prTpl obj = Inr providers" "fold add_new (map fst providers) [] = []"
    by (auto simp: component_in_use_def Let_def result_simps)
  from providers(2) have "set (map fst providers) = {}" using set_fold_add_new [of "map fst providers" "[]"] by simp
  with ProvidersInUseFor_exact_spec [OF assms(1,2) providers(1)] prTpl(2) show ?thesis by auto
qed

lemma checkComponentsRemoval_None:
  assumes "contracts_laws cl cts cds" and "same_region cts cds" and "checkComponentsRemoval cl release oldObj newObj = None"
    and "m \<in> set (removedComponents oldObj newObj)" and "provides cl release m p"
  shows "\<not> used_in cts cds (region_of newObj) p"
proof -
  from assms(3) have "foldE (component_in_use cl release newObj) (removedComponents oldObj newObj) [] = Inr []"
    by (auto simp: checkComponentsRemoval_def split: sum.splits if_splits)
  from component_unused [OF assms(1,2) fold_component_in_use_Nil [OF this assms(4)] assms(5)] show ?thesis .
qed

lemma check_components_None: "snd (check_components cl release kind oldObj newObj) = None \<longleftrightarrow>
    checkComponentsRemoval cl release oldObj newObj = None \<and> ValidateChangedProviderContracts cl release oldObj newObj = Inr []"
  by (auto simp: check_components_def split: option.splits sum.splits)

text \<open>
  Examples. The ClusterDeployments of the template \<open>aws\<close> are in the regions \<open>west\<close> and \<open>east\<close>, or all in
  one; the component \<open>aws\<close> brings the provider.
\<close>

definition example_fleet :: "string list \<Rightarrow> ClusterDeployment list" where
  "example_fleet regions = map (\<lambda>r. (example_cd ''aws'')\<lparr>cd_Name := r, cd_StatusRegion := r\<rparr>) regions"

definition example_provider :: "string \<Rightarrow> ProviderTemplate" where
  "example_provider name = \<lparr>pt_Name = name, pt_Providers = [''infrastructure-aws''], pt_CAPIContracts = [(''v1beta1'', ''v1beta2'')], pt_Valid = True\<rparr>"

definition example_release :: Release where
  "example_release = \<lparr>rel_Name = ''r'', rel_Annotations = [], rel_Version = ''1'', rel_KCM = ''kcm'', rel_CAPI = ''capi'', rel_Regional = [],
     rel_Providers = [\<lparr>comp_Name = ''aws'', comp_Template = ''aws-1''\<rparr>], rel_Ready = True\<rparr>"

definition example_contracts_client :: "ClusterTemplate list \<Rightarrow> ClusterDeployment list \<Rightarrow> contracts_client" where
  "example_contracts_client cts cds =
     \<lparr>pc_getProviderTemplate = (\<lambda>name. Inr (example_provider name)),
      pc_clusterTemplates = (\<lambda>p. Inr (filter (\<lambda>t. p \<in> set (ExtractProvidersFromClusterTemplate t)) cts)),
      pc_clusterDeployments = (\<lambda>name ns. Inr (take 1 (filter (\<lambda>d. cd_Namespace d = ns \<and> name \<in> set (ExtractTemplateNameFromClusterDeployment d)) cds))),
      pc_getRelease = (\<lambda>_. Inr example_release), pc_getManagement = Inr example_mgmt, pc_getSecretKeys = (\<lambda>_. Inl NotFound),
      pc_getClusterDeployment = (\<lambda>_. Some NotFound), pc_credentialsOfRegion = (\<lambda>_. Inr []), pc_byCredential = (\<lambda>_. Inr []),
      pc_anyRegion = Inr [], pc_anyClusterDeployment = Inr []\<rparr>"

lemma example_contracts_laws: "contracts_laws (example_contracts_client cts cds) cts cds"
  by (simp add: contracts_laws_def example_contracts_client_def users_of_def first_of_take)

definition example_region :: "Component list \<Rightarrow> ComponentsManager" where
  "example_region providers = \<lparr>cm_Kind = ''Region'', cm_Name = ''east'', cm_Deleting = False, cm_Release = [], cm_Core = None, cm_Providers = providers\<rparr>"

abbreviation example_component :: Component where
  "example_component \<equiv> \<lparr>comp_Name = ''aws'', comp_Template = []\<rparr>"

lemmas example_contracts_defs = example_contracts_client_def example_provider_def example_release_def example_region_def example_fleet_def
  example_mgmt_def example_cd_def example_aws_template_def example_template_def example_meta_def PartialObject.defs ClusterTemplate.defs
  ExtractProvidersFromClusterTemplate_def ExtractTemplateNameFromClusterDeployment_def

lemmas contracts_run = Region_ValidateUpdate_def check_components_def checkComponentsRemoval_def removedComponents_def component_in_use_def
  findProviderTemplateName_def findCAPITemplateName_def Release_ProviderTemplate_def ProvidersInUseFor_def getInUseProvidersWithContracts_def
  in_use_step_def ValidateChangedProviderContracts_def changed_templates_def template_problems_def

section \<open>Theorems\<close>

text \<open>
  When the ClusterDeployments of each template share a region, the providers reported in use for
  the Management or a Region are exactly those of the provider template that a ClusterTemplate of
  some ClusterDeployment in that region asks for.
\<close>

theorem ProvidersInUseFor_exact:
  assumes "contracts_laws cl cts cds" and "same_region cts cds" and "ProvidersInUseFor cl pTpl obj = Inr m"
  shows "fst ` set m = {p \<in> set (pt_Providers pTpl). used_in cts cds (region_of obj) p}"
  by (rule ProvidersInUseFor_exact_spec) (fact assms)+

text \<open>
  C18: an accepted update of a Region or of the Management removes no component whose provider
  template brings a provider in use there, when the ClusterDeployments of each template share a
  region.
\<close>

theorem component_removal_safe:
  assumes laws: "contracts_laws cl cts cds" "same_region cts cds" and live: "\<not> cm_Deleting newObj"
    and accepted: "snd (Region_ValidateUpdate cl oldObj newObj) = None \<and> pc_getManagement cl = Inr mgmt \<and> pc_getRelease cl (mgmt_Release mgmt) = Inr release
       \<or> snd (Management_ValidateUpdate cl oldObj newObj) = None \<and> pc_getRelease cl (cm_Release newObj) = Inr release"
    and removed: "m \<in> set (removedComponents oldObj newObj)" and provides: "provides cl release m p"
  shows "\<not> used_in cts cds (region_of newObj) p"
proof -
  from accepted live have "checkComponentsRemoval cl release oldObj newObj = None"
    by (auto simp: Region_ValidateUpdate_def Management_ValidateUpdate_def check_components_None split: option.splits)
  from checkComponentsRemoval_None [OF laws this removed provides] show ?thesis .
qed


text \<open>
  A ClusterTemplate that states no contract for one of its providers is compatible with every
  parent that has the provider, and yet makes an update of the Region report that the provider
  template lacks the empty contract.
\<close>

theorem absent_contract_reported:
  "\<exists>cl t cds oldObj newObj. contracts_laws cl [t] cds
     \<and> ct_StatusProviderContracts t = [] \<and> validateCompatibilityAttrs [] t example_parent = []
     \<and> ValidateChangedProviderContracts cl example_release oldObj newObj = Inr [MissingContract [] ''infrastructure-aws'']"
proof (intro exI conjI)
  let ?t = "example_aws_template\<lparr>ct_StatusProviderContracts := []\<rparr>"
  let ?cds = "example_fleet [''east'']"
  show "contracts_laws (example_contracts_client [?t] ?cds) [?t] ?cds" by (rule example_contracts_laws)
  show "ct_StatusProviderContracts ?t = []" by simp
  show "validateCompatibilityAttrs [] ?t example_parent = []"
    by (simp add: validateCompatibilityAttrs_def example_parent_def example_contracts_defs)
  show "ValidateChangedProviderContracts (example_contracts_client [?t] ?cds) example_release (example_region []) (example_region [example_component])
      = Inr [MissingContract [] ''infrastructure-aws'']"
    by (simp add: contracts_run example_contracts_defs)
qed

theorem ProvidersInUseFor_exact_witness:
  "\<exists>m. ProvidersInUseFor (example_contracts_client [example_aws_template] (example_fleet [''east''])) (example_provider ''aws-1'') (example_region []) = Inr m
     \<and> fst ` set m = {p \<in> {''infrastructure-aws''}. used_in [example_aws_template] (example_fleet [''east'']) ''east'' p}"
proof -
  let ?cds = "example_fleet [''east'']"
  have same: "same_region [example_aws_template] ?cds" by (simp add: same_region_def users_of_def example_fleet_def)
  have run: "ProvidersInUseFor (example_contracts_client [example_aws_template] ?cds) (example_provider ''aws-1'') (example_region [])
      = Inr [(''infrastructure-aws'', [''v1beta2''])]"
    by (simp add: contracts_run example_contracts_defs)
  from ProvidersInUseFor_exact [OF example_contracts_laws same run] run show ?thesis
    by (simp add: region_of_def example_region_def example_provider_def)
qed

theorem component_removal_safe_witness:
  "\<not> used_in [example_aws_template] (example_fleet [''west'']) ''east'' ''infrastructure-aws''"
proof -
  let ?cds = "example_fleet [''west'']"
  let ?cl = "example_contracts_client [example_aws_template] ?cds"
  have same: "same_region [example_aws_template] ?cds" by (simp add: same_region_def users_of_def example_fleet_def)
  have "snd (Region_ValidateUpdate ?cl (example_region [example_component]) (example_region [])) = None"
    "pc_getManagement ?cl = Inr example_mgmt" "pc_getRelease ?cl (mgmt_Release example_mgmt) = Inr example_release"
    by (simp_all add: contracts_run example_contracts_defs)
  then have accepted: "snd (Region_ValidateUpdate ?cl (example_region [example_component]) (example_region [])) = None
      \<and> pc_getManagement ?cl = Inr example_mgmt \<and> pc_getRelease ?cl (mgmt_Release example_mgmt) = Inr example_release
    \<or> snd (Management_ValidateUpdate ?cl (example_region [example_component]) (example_region [])) = None
      \<and> pc_getRelease ?cl (cm_Release (example_region [])) = Inr example_release"
    by simp
  have "\<not> cm_Deleting (example_region [])" "example_component \<in> set (removedComponents (example_region [example_component]) (example_region []))"
    "provides ?cl example_release example_component ''infrastructure-aws''"
    by (simp_all add: removedComponents_def provides_def findProviderTemplateName_def Release_ProviderTemplate_def example_contracts_defs)
  from component_removal_safe [OF example_contracts_laws same this(1) accepted this(2,3)] show ?thesis
    by (simp add: region_of_def example_region_def)
qed

end
