(* ===== verification/RBACSync.thy ===== *)
theory RBACSync
  imports KcmTypes
begin

text \<open>
  The ClusterRoles and ClusterRoleBindings of an RBACPolicy in a child cluster:
  \<^verbatim>\<open>internal/controller/rbac/rbacpolicy.go\<close>, with the types of \<^verbatim>\<open>api/v1beta1/rbacpolicy_types.go\<close> and
  the validation of \<^verbatim>\<open>internal/util/validation/rbacpolicy.go\<close>.

  The client of the child cluster is a parameter: a record of the operations on one kind, over a
  state of which only an observation is known. Any operation may fail, and a failed write may or may
  not have happened. Whatever fails, \<open>Sync\<close> and \<open>Prune\<close> never touch an object this code does not
  manage (a binding is taken over by its name); without failure the managed objects are those of the policy.
\<close>

section \<open>Policies\<close>

record RBACRule =
  rule_Verbs :: "string list"
  rule_APIGroups :: "string list"
  rule_Resources :: "string list"
  rule_ResourceNames :: "string list"
  rule_NonResourceURLs :: "string list"

record RBACPolicySubject =
  rps_Kind :: string
  rps_Name :: string

record RBACPolicyBinding =
  rpb_Name :: string
  rpb_ClusterRole :: string
  rpb_Rules :: "RBACRule list"
  rpb_Subjects :: "RBACPolicySubject list"

record RBACPolicy =
  rp_Name :: string
  rp_UID :: string
  rp_Generation :: int
  rp_Bindings :: "RBACPolicyBinding list"

definition ClusterRoleBindingNamePrefix :: string where
  "ClusterRoleBindingNamePrefix = ''k0rdent-''"

abbreviation binding_name :: "RBACPolicyBinding \<Rightarrow> string" where
  "binding_name b \<equiv> ClusterRoleBindingNamePrefix @ rpb_Name b"

text \<open>
  Validation. \<open>IsDNS1123Subdomain\<close> is library code; the loop keeps the sets \<open>names\<close> and
  \<open>rolesWithRules\<close>.
\<close>

datatype policy_error =
    DuplicateBinding string
  | InvalidBindingName string "string list"
  | DuplicateSubject string RBACPolicySubject
  | InvalidRoleName string "string list"
  | RulesDefinedTwice string

fun duplicate_subject :: "RBACPolicySubject list \<Rightarrow> RBACPolicySubject list \<Rightarrow> RBACPolicySubject option" where
  "duplicate_subject seen [] = None"
| "duplicate_subject seen (subject # subjects) =
     (if subject \<in> set seen then Some subject else duplicate_subject (subject # seen) subjects)"

fun validate_bindings ::
  "(string \<Rightarrow> string list) \<Rightarrow> string list \<Rightarrow> string list \<Rightarrow> RBACPolicyBinding list \<Rightarrow> policy_error option" where
  "validate_bindings isDNS names rolesWithRules [] = None"
| "validate_bindings isDNS names rolesWithRules (binding # bindings) =
     (if rpb_Name binding \<in> set names then Some (DuplicateBinding (rpb_Name binding))
      else if isDNS (binding_name binding) \<noteq> [] then Some (InvalidBindingName (rpb_Name binding) (isDNS (binding_name binding)))
      else case duplicate_subject [] (rpb_Subjects binding) of
             Some subject \<Rightarrow> Some (DuplicateSubject (rpb_Name binding) subject)
           | None \<Rightarrow>
               if length (rpb_Rules binding) = 0 then validate_bindings isDNS (rpb_Name binding # names) rolesWithRules bindings
               else if isDNS (rpb_ClusterRole binding) \<noteq> [] then Some (InvalidRoleName (rpb_ClusterRole binding) (isDNS (rpb_ClusterRole binding)))
               else if rpb_ClusterRole binding \<in> set rolesWithRules then Some (RulesDefinedTwice (rpb_ClusterRole binding))
               else validate_bindings isDNS (rpb_Name binding # names) (rpb_ClusterRole binding # rolesWithRules) bindings)"

definition ValidateRBACPolicy :: "(string \<Rightarrow> string list) \<Rightarrow> RBACPolicy \<Rightarrow> policy_error option" where
  "ValidateRBACPolicy isDNS policy = validate_bindings isDNS [] [] (rp_Bindings policy)"

section \<open>The child cluster\<close>

record ChildRole =
  role_Labels :: "(string \<times> string) list"
  role_Rules :: "RBACRule list"

record Subject =
  sub_Kind :: string
  sub_Name :: string
  sub_APIGroup :: string

record RoleRef =
  ref_APIGroup :: string
  ref_Kind :: string
  ref_Name :: string

record ChildBinding =
  crb_Labels :: "(string \<times> string) list"
  crb_RoleRef :: RoleRef
  crb_Subjects :: "Subject list"

text \<open>
  The operations on one kind. \<open>kc_patch name base obj\<close> sends the merge patch from \<open>base\<close> to \<open>obj\<close>;
  \<open>kc_listManaged\<close> lists the names of the objects with the managed-by label.
\<close>

record ('o, 's) kind_client =
  kc_get :: "string \<Rightarrow> 's \<Rightarrow> (api_error + 'o) \<times> 's"
  kc_create :: "string \<Rightarrow> 'o \<Rightarrow> 's \<Rightarrow> api_error option \<times> 's"
  kc_patch :: "string \<Rightarrow> 'o \<Rightarrow> 'o \<Rightarrow> 's \<Rightarrow> api_error option \<times> 's"
  kc_delete :: "string \<Rightarrow> 's \<Rightarrow> api_error option \<times> 's"
  kc_listManaged :: "'s \<Rightarrow> (api_error + string list) \<times> 's"

record 's child_client =
  ch_roles :: "(ChildRole, 's) kind_client"
  ch_bindings :: "(ChildBinding, 's) kind_client"

text \<open>Errors with their wrapping, which \<open>Retriable\<close> looks through.\<close>

datatype rbac_error =
    APIFailure api_error
  | ErrTerminal
  | Wrapped string rbac_error
  | Joined "rbac_error list"

fun Retriable :: "rbac_error \<Rightarrow> bool" where
  "Retriable (Joined errs) \<longleftrightarrow> list_ex Retriable errs"
| "Retriable (Wrapped _ err) \<longleftrightarrow> Retriable err"
| "Retriable (APIFailure _) \<longleftrightarrow> True"
| "Retriable ErrTerminal \<longleftrightarrow> False"

text \<open>\<open>errors.Join\<close>: nil if there is nothing to join.\<close>

definition errors_Join :: "rbac_error list \<Rightarrow> rbac_error option" where
  "errors_Join errs = (if errs = [] then None else Some (Joined errs))"

section \<open>Sync\<close>

definition ManagedByLabelKey :: string where "ManagedByLabelKey = ''k0rdent.mirantis.com/managed-by''"
definition ManagedByLabelValue :: string where "ManagedByLabelValue = ''rbac-operator''"
definition KCMManagedLabelKey :: string where "KCMManagedLabelKey = ''k0rdent.mirantis.com/managed''"
definition KCMManagedLabelValue :: string where "KCMManagedLabelValue = ''true''"

definition mergeManagedLabels :: "(string \<times> string) list \<Rightarrow> (string \<times> string) list" where
  "mergeManagedLabels existing =
     AList.update ManagedByLabelKey ManagedByLabelValue (AList.update KCMManagedLabelKey KCMManagedLabelValue existing)"

definition is_managed :: "(string \<times> string) list \<Rightarrow> bool" where
  "is_managed ls \<longleftrightarrow> alookup ls ManagedByLabelKey = Some ManagedByLabelValue"

definition toSubjects :: "RBACPolicySubject list \<Rightarrow> Subject list" where
  "toSubjects subjects = map (\<lambda>s. \<lparr>sub_Kind = rps_Kind s, sub_Name = rps_Name s, sub_APIGroup = ''rbac.authorization.k8s.io''\<rparr>) subjects"

definition patchIfChanged :: "('o, 's) kind_client \<Rightarrow> string \<Rightarrow> 'o \<Rightarrow> 'o \<Rightarrow> 's \<Rightarrow> (rbac_error + bool) \<times> 's" where
  "patchIfChanged kc name base obj s =
     (if obj = base then (Inr False, s)
      else case kc_patch kc name base obj s of
             (Some e, s') \<Rightarrow> (Inl (APIFailure e), s')
           | (None, s') \<Rightarrow> (Inr True, s'))"

definition create_object :: "('o, 's) kind_client \<Rightarrow> string \<Rightarrow> 'o \<Rightarrow> 's \<Rightarrow> (rbac_error + bool) \<times> 's" where
  "create_object kc name obj s =
     (case kc_create kc name obj s of
        (Some e, s') \<Rightarrow> (Inl (APIFailure e), s')
      | (None, s') \<Rightarrow> (Inr True, s'))"

definition applyClusterRole :: "(ChildRole, 's) kind_client \<Rightarrow> string \<Rightarrow> RBACRule list \<Rightarrow> 's \<Rightarrow> (rbac_error + bool) \<times> 's" where
  "applyClusterRole kc name rules s =
     (case kc_get kc name s of
        (Inl e, s1) \<Rightarrow>
          if e = NotFound then create_object kc name \<lparr>role_Labels = mergeManagedLabels [], role_Rules = rules\<rparr> s1
          else (Inl (APIFailure e), s1)
      | (Inr role, s1) \<Rightarrow>
          if \<not> is_managed (role_Labels role) then (Inl (Wrapped name ErrTerminal), s1)
          else patchIfChanged kc name role \<lparr>role_Labels = mergeManagedLabels (role_Labels role), role_Rules = rules\<rparr> s1)"

definition desired_role_ref :: "string \<Rightarrow> RoleRef" where
  "desired_role_ref clusterRoleName = \<lparr>ref_APIGroup = ''rbac.authorization.k8s.io'', ref_Kind = ''ClusterRole'', ref_Name = clusterRoleName\<rparr>"

definition desired_binding :: "string \<Rightarrow> Subject list \<Rightarrow> (string \<times> string) list \<Rightarrow> ChildBinding" where
  "desired_binding clusterRoleName subjects ls =
     \<lparr>crb_Labels = mergeManagedLabels ls, crb_RoleRef = desired_role_ref clusterRoleName, crb_Subjects = subjects\<rparr>"

definition applyClusterRoleBinding ::
  "(ChildBinding, 's) kind_client \<Rightarrow> string \<Rightarrow> string \<Rightarrow> Subject list \<Rightarrow> 's \<Rightarrow> (rbac_error + bool) \<times> 's" where
  "applyClusterRoleBinding kc name clusterRoleName subjects s =
     (case kc_get kc name s of
        (Inl e, s1) \<Rightarrow>
          if e = NotFound then create_object kc name (desired_binding clusterRoleName subjects []) s1
          else (Inl (APIFailure e), s1)
      | (Inr binding, s1) \<Rightarrow>
          if crb_RoleRef binding \<noteq> desired_role_ref clusterRoleName
          then (case kc_delete kc name s1 of
                  (Some e, s2) \<Rightarrow> (Inl (Wrapped ''deleting outdated ClusterRoleBinding to change roleRef'' (APIFailure e)), s2)
                | (None, s2) \<Rightarrow>
                    (case create_object kc name (desired_binding clusterRoleName subjects []) s2 of
                       (Inl e, s3) \<Rightarrow> (Inl (Wrapped ''creating ClusterRoleBinding after deleting the outdated one'' e), s3)
                     | (Inr b, s3) \<Rightarrow> (Inr b, s3)))
          else patchIfChanged kc name binding (binding\<lparr>crb_Labels := mergeManagedLabels (crb_Labels binding), crb_Subjects := subjects\<rparr>) s1)"

text \<open>One turn of the loop of \<open>Sync\<close> over the bindings; the state is \<open>(errs, changed, s)\<close>.\<close>

definition sync_role :: "'s child_client \<Rightarrow> RBACPolicyBinding \<Rightarrow> 's \<Rightarrow> (rbac_error + bool) \<times> 's" where
  "sync_role cl binding s =
     (if length (rpb_Rules binding) > 0 then applyClusterRole (ch_roles cl) (rpb_ClusterRole binding) (rpb_Rules binding) s else (Inr False, s))"

definition sync_binding :: "'s child_client \<Rightarrow> RBACPolicyBinding \<Rightarrow> rbac_error list \<times> bool \<times> 's \<Rightarrow> rbac_error list \<times> bool \<times> 's" where
  "sync_binding cl binding acc =
     (case acc of (errs, changed, s) \<Rightarrow>
        case sync_role cl binding s of
          (Inl e, s1) \<Rightarrow> (errs @ [Wrapped (''applying ClusterRole '' @ rpb_ClusterRole binding) e], changed, s1)
        | (Inr roleChanged, s1) \<Rightarrow>
            (case applyClusterRoleBinding (ch_bindings cl) (binding_name binding) (rpb_ClusterRole binding) (toSubjects (rpb_Subjects binding)) s1 of
               (Inl e, s2) \<Rightarrow> (errs @ [Wrapped (''applying ClusterRoleBinding '' @ binding_name binding) e], changed \<or> roleChanged, s2)
             | (Inr bindingChanged, s2) \<Rightarrow> (errs, changed \<or> roleChanged \<or> bindingChanged, s2)))"

text \<open>The desired names, whether anything changed, the error, and the state.\<close>

definition Sync ::
  "'s child_client \<Rightarrow> RBACPolicy \<Rightarrow> 's \<Rightarrow> (string list \<times> string list \<times> bool \<times> rbac_error option) \<times> 's" where
  "Sync cl policy s =
     (case fold (sync_binding cl) (rp_Bindings policy) ([], False, s) of
        (errs, changed, s') \<Rightarrow>
          ((map rpb_ClusterRole (rp_Bindings policy), map (\<lambda>b. binding_name b) (rp_Bindings policy), changed, errors_Join errs), s'))"

section \<open>Prune\<close>

fun prune_loop :: "('o, 's) kind_client \<Rightarrow> string \<Rightarrow> string list \<Rightarrow> bool \<Rightarrow> string list \<Rightarrow> 's \<Rightarrow> (bool \<times> rbac_error option) \<times> 's" where
  "prune_loop kc kind desired changed [] s = ((changed, None), s)"
| "prune_loop kc kind desired changed (name # names) s =
     (if name \<in> set desired then prune_loop kc kind desired changed names s
      else case kc_delete kc name s of
             (Some e, s') \<Rightarrow>
               if e = NotFound then prune_loop kc kind desired True names s'
               else ((changed, Some (Wrapped (''deleting stale '' @ kind @ '' '' @ name) (APIFailure e))), s')
           | (None, s') \<Rightarrow> prune_loop kc kind desired True names s')"

definition pruneManaged :: "('o, 's) kind_client \<Rightarrow> string \<Rightarrow> string list \<Rightarrow> 's \<Rightarrow> (bool \<times> rbac_error option) \<times> 's" where
  "pruneManaged kc kind desired s =
     (case kc_listManaged kc s of
        (Inl e, s') \<Rightarrow> ((False, Some (Wrapped (''listing '' @ kind @ ''s'') (APIFailure e))), s')
      | (Inr names, s') \<Rightarrow> prune_loop kc kind desired False names s')"

definition Prune :: "'s child_client \<Rightarrow> string list \<Rightarrow> string list \<Rightarrow> 's \<Rightarrow> (bool \<times> rbac_error option) \<times> 's" where
  "Prune cl desiredRoles desiredBindings s =
     (case pruneManaged (ch_roles cl) ''ClusterRole'' desiredRoles s of
        ((rolesChanged, Some e), s1) \<Rightarrow> ((rolesChanged, Some e), s1)
      | ((rolesChanged, None), s1) \<Rightarrow>
          (case pruneManaged (ch_bindings cl) ''ClusterRoleBinding'' desiredBindings s1 of
             ((bindingsChanged, e), s2) \<Rightarrow> ((rolesChanged \<or> bindingsChanged, e), s2)))"

section \<open>Laws of the child cluster\<close>

text \<open>
  \<open>obs\<close> is what the cluster holds of the kind and \<open>frame\<close> what it holds of everything else. A read
  changes nothing; a write that reports an error happened or did not; a patch from the stored object
  stores the new one.
\<close>

definition reads_ok :: "('o, 's) kind_client \<Rightarrow> ('o \<Rightarrow> (string \<times> string) list) \<Rightarrow> ('s \<Rightarrow> string \<Rightarrow> 'o option) \<Rightarrow> ('s \<Rightarrow> 'x) \<Rightarrow> bool" where
  "reads_ok kc labels_of obs frame \<longleftrightarrow>
     (\<forall>n s. case kc_get kc n s of (res, s') \<Rightarrow> obs s' = obs s \<and> frame s' = frame s
        \<and> (\<forall>x. res = Inr x \<longrightarrow> obs s n = Some x) \<and> (res = Inl NotFound \<longrightarrow> obs s n = None))
   \<and> (\<forall>s. case kc_listManaged kc s of (res, s') \<Rightarrow> obs s' = obs s \<and> frame s' = frame s
        \<and> (\<forall>names. res = Inr names \<longrightarrow> set names = {n. \<exists>x. obs s n = Some x \<and> is_managed (labels_of x)}))"

definition writes_ok :: "('o, 's) kind_client \<Rightarrow> ('s \<Rightarrow> string \<Rightarrow> 'o option) \<Rightarrow> ('s \<Rightarrow> 'x) \<Rightarrow> bool" where
  "writes_ok kc obs frame \<longleftrightarrow>
     (\<forall>n x s. case kc_create kc n x s of (e, s') \<Rightarrow> frame s' = frame s
        \<and> (e = None \<longrightarrow> obs s' = (obs s)(n \<mapsto> x)) \<and> (obs s' = obs s \<or> obs s n = None \<and> obs s' = (obs s)(n \<mapsto> x)))
   \<and> (\<forall>n b x s. obs s n = Some b \<longrightarrow> (case kc_patch kc n b x s of (e, s') \<Rightarrow> frame s' = frame s
        \<and> (e = None \<longrightarrow> obs s' = (obs s)(n \<mapsto> x)) \<and> (obs s' = obs s \<or> obs s' = (obs s)(n \<mapsto> x))))
   \<and> (\<forall>n s. case kc_delete kc n s of (e, s') \<Rightarrow> frame s' = frame s
        \<and> (e = None \<or> e = Some NotFound \<longrightarrow> obs s' = (obs s)(n := None)) \<and> (obs s' = obs s \<or> obs s' = (obs s)(n := None)))"

definition kind_laws ::
  "('o, 's) kind_client \<Rightarrow> ('o \<Rightarrow> (string \<times> string) list) \<Rightarrow> ('s \<Rightarrow> string \<Rightarrow> 'o option) \<Rightarrow> ('s \<Rightarrow> 'x) \<Rightarrow> bool" where
  "kind_laws kc labels_of obs frame \<longleftrightarrow> reads_ok kc labels_of obs frame \<and> writes_ok kc obs frame"

definition child_laws :: "'s child_client \<Rightarrow> ('s \<Rightarrow> string \<Rightarrow> ChildRole option) \<Rightarrow> ('s \<Rightarrow> string \<Rightarrow> ChildBinding option) \<Rightarrow> bool" where
  "child_laws cl roles bindings \<longleftrightarrow>
     kind_laws (ch_roles cl) role_Labels roles bindings \<and> kind_laws (ch_bindings cl) crb_Labels bindings roles"

lemma get_law:
  assumes "kind_laws kc labels_of obs frame" and "kc_get kc n s = (res, s')"
  shows "obs s' = obs s \<and> frame s' = frame s \<and> (\<forall>x. res = Inr x \<longrightarrow> obs s n = Some x) \<and> (res = Inl NotFound \<longrightarrow> obs s n = None)"
proof -
  have "case kc_get kc n s of (res, s') \<Rightarrow> obs s' = obs s \<and> frame s' = frame s
        \<and> (\<forall>x. res = Inr x \<longrightarrow> obs s n = Some x) \<and> (res = Inl NotFound \<longrightarrow> obs s n = None)"
    by (rule assms(1) [unfolded kind_laws_def reads_ok_def, THEN conjunct1, THEN conjunct1, THEN spec, THEN spec])
  then show ?thesis unfolding assms(2) prod.case .
qed

lemma list_law:
  assumes "kind_laws kc labels_of obs frame" and "kc_listManaged kc s = (res, s')"
  shows "obs s' = obs s \<and> frame s' = frame s
     \<and> (\<forall>names. res = Inr names \<longrightarrow> set names = {n. \<exists>x. obs s n = Some x \<and> is_managed (labels_of x)})"
proof -
  have "case kc_listManaged kc s of (res, s') \<Rightarrow> obs s' = obs s \<and> frame s' = frame s
        \<and> (\<forall>names. res = Inr names \<longrightarrow> set names = {n. \<exists>x. obs s n = Some x \<and> is_managed (labels_of x)})"
    by (rule assms(1) [unfolded kind_laws_def reads_ok_def, THEN conjunct1, THEN conjunct2, THEN spec])
  then show ?thesis unfolding assms(2) prod.case .
qed

lemma create_law:
  assumes "kind_laws kc labels_of obs frame" and "kc_create kc n x s = (e, s')"
  shows "frame s' = frame s \<and> (e = None \<longrightarrow> obs s' = (obs s)(n \<mapsto> x)) \<and> (obs s' = obs s \<or> obs s n = None \<and> obs s' = (obs s)(n \<mapsto> x))"
proof -
  have "case kc_create kc n x s of (e, s') \<Rightarrow> frame s' = frame s
        \<and> (e = None \<longrightarrow> obs s' = (obs s)(n \<mapsto> x)) \<and> (obs s' = obs s \<or> obs s n = None \<and> obs s' = (obs s)(n \<mapsto> x))"
    by (rule assms(1) [unfolded kind_laws_def writes_ok_def, THEN conjunct2, THEN conjunct1, THEN spec, THEN spec, THEN spec])
  then show ?thesis unfolding assms(2) prod.case .
qed

lemma patch_law:
  assumes "kind_laws kc labels_of obs frame" and "kc_patch kc n b x s = (e, s')" and "obs s n = Some b"
  shows "frame s' = frame s \<and> (e = None \<longrightarrow> obs s' = (obs s)(n \<mapsto> x)) \<and> (obs s' = obs s \<or> obs s' = (obs s)(n \<mapsto> x))"
proof -
  have "case kc_patch kc n b x s of (e, s') \<Rightarrow> frame s' = frame s
        \<and> (e = None \<longrightarrow> obs s' = (obs s)(n \<mapsto> x)) \<and> (obs s' = obs s \<or> obs s' = (obs s)(n \<mapsto> x))"
    by (rule assms(1) [unfolded kind_laws_def writes_ok_def, THEN conjunct2, THEN conjunct2, THEN conjunct1, THEN spec, THEN spec, THEN spec, THEN spec, THEN mp]) (fact assms(3))
  then show ?thesis unfolding assms(2) prod.case .
qed

lemma delete_law:
  assumes "kind_laws kc labels_of obs frame" and "kc_delete kc n s = (e, s')"
  shows "frame s' = frame s \<and> (e = None \<or> e = Some NotFound \<longrightarrow> obs s' = (obs s)(n := None)) \<and> (obs s' = obs s \<or> obs s' = (obs s)(n := None))"
proof -
  have "case kc_delete kc n s of (e, s') \<Rightarrow> frame s' = frame s
        \<and> (e = None \<or> e = Some NotFound \<longrightarrow> obs s' = (obs s)(n := None)) \<and> (obs s' = obs s \<or> obs s' = (obs s)(n := None))"
    by (rule assms(1) [unfolded kind_laws_def writes_ok_def, THEN conjunct2, THEN conjunct2, THEN conjunct2, THEN spec, THEN spec])
  then show ?thesis unfolding assms(2) prod.case .
qed

lemma is_managed_merge [simp]: "is_managed (mergeManagedLabels ls)"
  by (simp add: is_managed_def mergeManagedLabels_def)

section \<open>One object\<close>

text \<open>
  What one write attempt on \<open>n\<close> does: nothing else changes, and \<open>n\<close> is as before, gone, or one of
  the objects \<open>new\<close>; \<open>new\<close> holds if it succeeds.
\<close>

definition attempt :: "('s \<Rightarrow> string \<Rightarrow> 'o option) \<Rightarrow> ('s \<Rightarrow> 'x) \<Rightarrow> string \<Rightarrow> ('o \<Rightarrow> bool) \<Rightarrow> 's \<Rightarrow> (rbac_error + bool) \<times> 's \<Rightarrow> bool" where
  "attempt obs frame n new s r \<longleftrightarrow>
     frame (snd r) = frame s \<and> (\<forall>m. m \<noteq> n \<longrightarrow> obs (snd r) m = obs s m)
   \<and> (obs (snd r) n = obs s n \<or> obs (snd r) n = None \<or> (\<exists>x. obs (snd r) n = Some x \<and> new x))
   \<and> (\<forall>b. fst r = Inr b \<longrightarrow> (\<exists>x. obs (snd r) n = Some x \<and> new x))"

lemma create_attempt:
  assumes "kind_laws kc labels_of obs frame" and "new x"
  shows "attempt obs frame n new s (create_object kc n x s)"
proof -
  obtain e s' where "kc_create kc n x s = (e, s')" by (cases "kc_create kc n x s")
  with create_law [OF assms(1) this] assms(2) show ?thesis
    by (cases e) (auto simp: attempt_def create_object_def)
qed

lemma patch_attempt:
  assumes "kind_laws kc labels_of obs frame" and "new x" and "obs s n = Some b"
  shows "attempt obs frame n new s (patchIfChanged kc n b x s)"
proof -
  obtain e s' where "kc_patch kc n b x s = (e, s')" by (cases "kc_patch kc n b x s")
  with patch_law [OF assms(1) this assms(3)] assms(2,3) show ?thesis
    by (cases e) (auto simp: attempt_def patchIfChanged_def)
qed

lemma attempt_same_start: "obs s1 = obs s \<Longrightarrow> frame s1 = frame s \<Longrightarrow> attempt obs frame n new s1 r \<Longrightarrow> attempt obs frame n new s r"
  by (simp add: attempt_def)

text \<open>A role is written only if it is missing or managed.\<close>

definition good_role :: "RBACRule list \<Rightarrow> ChildRole \<Rightarrow> bool" where
  "good_role rules r \<longleftrightarrow> is_managed (role_Labels r) \<and> role_Rules r = rules"

definition good_binding :: "string \<Rightarrow> Subject list \<Rightarrow> ChildBinding \<Rightarrow> bool" where
  "good_binding role subjects b \<longleftrightarrow> is_managed (crb_Labels b) \<and> crb_RoleRef b = desired_role_ref role \<and> crb_Subjects b = subjects"

lemma applyClusterRole_attempt:
  assumes laws: "kind_laws kc role_Labels obs frame" and run: "r = applyClusterRole kc n rules s"
  shows "attempt obs frame n (good_role rules) s r"
    and "obs s n = Some x \<Longrightarrow> \<not> is_managed (role_Labels x) \<Longrightarrow> obs (snd r) = obs s"
proof -
  obtain res s1 where get: "kc_get kc n s = (res, s1)" by (cases "kc_get kc n s")
  note law = get_law [OF laws get]
  then have same: "obs s1 = obs s" "frame s1 = frame s" by simp_all
  show "attempt obs frame n (good_role rules) s r"
  proof (cases res)
    case (Inl e)
    show ?thesis
    proof (cases "e = NotFound")
      case True
      have "r = create_object kc n \<lparr>role_Labels = mergeManagedLabels [], role_Rules = rules\<rparr> s1"
        using run get Inl True by (simp add: applyClusterRole_def)
      then show ?thesis using attempt_same_start [OF same create_attempt [OF laws]] by (simp add: good_role_def)
    next
      case False
      then show ?thesis using run get Inl same by (simp add: applyClusterRole_def attempt_def)
    qed
  next
    case (Inr role)
    with law have role: "obs s1 n = Some role" by simp
    show ?thesis
    proof (cases "is_managed (role_Labels role)")
      case True
      then have "r = patchIfChanged kc n role \<lparr>role_Labels = mergeManagedLabels (role_Labels role), role_Rules = rules\<rparr> s1"
        using run get Inr by (simp add: applyClusterRole_def)
      then show ?thesis using attempt_same_start [OF same patch_attempt [OF laws _ role]] by (simp add: good_role_def)
    next
      case False
      then show ?thesis using run get Inr same by (simp add: applyClusterRole_def attempt_def)
    qed
  qed
  show "obs (snd r) = obs s" if "obs s n = Some x" "\<not> is_managed (role_Labels x)"
    using that law run get by (cases res) (auto simp: applyClusterRole_def)
qed

lemma applyClusterRoleBinding_attempt:
  assumes laws: "kind_laws kc crb_Labels obs frame" and run: "r = applyClusterRoleBinding kc n role subjects s"
  shows "attempt obs frame n (good_binding role subjects) s r"
proof -
  obtain res s1 where get: "kc_get kc n s = (res, s1)" by (cases "kc_get kc n s")
  note law = get_law [OF laws get]
  then have same: "obs s1 = obs s" "frame s1 = frame s" by simp_all
  have new: "good_binding role subjects (desired_binding role subjects [])"
    by (simp add: good_binding_def desired_binding_def)
  show ?thesis
  proof (cases res)
    case (Inl e)
    then show ?thesis
      using run get same attempt_same_start [OF same create_attempt [OF laws, of "good_binding role subjects" _ n], OF new]
      by (cases "e = NotFound") (simp_all add: applyClusterRoleBinding_def attempt_def)
  next
    case (Inr b)
    with law have b: "obs s1 n = Some b" by simp
    show ?thesis
    proof (cases "crb_RoleRef b = desired_role_ref role")
      case True
      have "r = patchIfChanged kc n b (b\<lparr>crb_Labels := mergeManagedLabels (crb_Labels b), crb_Subjects := subjects\<rparr>) s1"
        using run get Inr True by (simp add: applyClusterRoleBinding_def)
      then show ?thesis using attempt_same_start [OF same patch_attempt [OF laws _ b]] True by (simp add: good_binding_def)
    next
      case False
      obtain e s2 where del: "kc_delete kc n s1 = (e, s2)" by (cases "kc_delete kc n s1")
      note dlaw = delete_law [OF laws del]
      show ?thesis
      proof (cases e)
        case (Some err)
        then have "r = (Inl (Wrapped ''deleting outdated ClusterRoleBinding to change roleRef'' (APIFailure err)), s2)"
          using run get Inr False del by (simp add: applyClusterRoleBinding_def)
        then show ?thesis using dlaw same by (auto simp: attempt_def)
      next
        case None
        obtain c s3 where create: "create_object kc n (desired_binding role subjects []) s2 = (c, s3)"
          by (cases "create_object kc n (desired_binding role subjects []) s2")
        have at: "attempt obs frame n (good_binding role subjects) s2 (c, s3)"
          using create_attempt [OF laws, of "good_binding role subjects" _ n s2, OF new] by (simp add: create)
        have "snd r = s3" "(\<exists>x. fst r = Inr x) \<longrightarrow> (\<exists>x. c = Inr x)"
          using run get Inr False del None create by (cases c; simp add: applyClusterRoleBinding_def)+
        moreover from dlaw None same have "obs s2 = (obs s)(n := None)" "frame s2 = frame s" by simp_all
        ultimately show ?thesis using at by (auto simp: attempt_def)
      qed
    qed
  qed
qed

section \<open>Sync and Prune\<close>

text \<open>The names \<open>Sync\<close> may write, and what it never changes.\<close>

definition written_roles :: "RBACPolicyBinding list \<Rightarrow> string set" where
  "written_roles bs = rpb_ClusterRole ` {b \<in> set bs. rpb_Rules b \<noteq> []}"

definition foreign_role :: "ChildRole option \<Rightarrow> bool" where
  "foreign_role r \<longleftrightarrow> (\<exists>x. r = Some x \<and> \<not> is_managed (role_Labels x))"

definition synced :: "('s \<Rightarrow> string \<Rightarrow> ChildRole option) \<Rightarrow> ('s \<Rightarrow> string \<Rightarrow> ChildBinding option) \<Rightarrow> RBACPolicyBinding \<Rightarrow> 's \<Rightarrow> bool" where
  "synced R B b s \<longleftrightarrow>
     (\<exists>x. B s (binding_name b) = Some x \<and> good_binding (rpb_ClusterRole b) (toSubjects (rpb_Subjects b)) x)
   \<and> (rpb_Rules b \<noteq> [] \<longrightarrow> (\<exists>x. R s (rpb_ClusterRole b) = Some x \<and> good_role (rpb_Rules b) x))"

lemma sync_role_spec:
  assumes "child_laws cl R B" and "sync_role cl b s = (res, s')"
  shows "B s' = B s" and "m \<notin> written_roles [b] \<or> foreign_role (R s m) \<Longrightarrow> R s' m = R s m"
    and "res = Inr c \<Longrightarrow> rpb_Rules b \<noteq> [] \<Longrightarrow> \<exists>x. R s' (rpb_ClusterRole b) = Some x \<and> good_role (rpb_Rules b) x"
proof -
  from assms(1) have laws: "kind_laws (ch_roles cl) role_Labels R B" by (simp add: child_laws_def)
  let ?r = "applyClusterRole (ch_roles cl) (rpb_ClusterRole b) (rpb_Rules b) s"
  note at = applyClusterRole_attempt [OF laws refl, where n = "rpb_ClusterRole b" and rules = "rpb_Rules b" and s = s]
  have run: "if rpb_Rules b = [] then res = Inr False \<and> s' = s else ?r = (res, s')"
    using assms(2) by (simp add: sync_role_def split: if_splits)
  then show "B s' = B s" using at(1) by (auto simp: attempt_def split: if_splits)
  show "R s' m = R s m" if "m \<notin> written_roles [b] \<or> foreign_role (R s m)"
    using that run at by (cases "m = rpb_ClusterRole b") (auto simp: attempt_def written_roles_def foreign_role_def split: if_splits)
  show "\<exists>x. R s' (rpb_ClusterRole b) = Some x \<and> good_role (rpb_Rules b) x" if "res = Inr c" "rpb_Rules b \<noteq> []"
    using that run at(1) by (auto simp: attempt_def)
qed

lemma sync_binding_spec:
  assumes laws: "child_laws cl R B" and run: "sync_binding cl b (errs, changed, s) = (errs', changed', s')"
  shows "m \<noteq> binding_name b \<Longrightarrow> B s' m = B s m"
    and "m \<notin> written_roles [b] \<or> foreign_role (R s m) \<Longrightarrow> R s' m = R s m"
    and "\<exists>more. errs' = errs @ more \<and> (more = [] \<longrightarrow> synced R B b s')"
proof -
  obtain res s1 where role: "sync_role cl b s = (res, s1)" by (cases "sync_role cl b s")
  note spec = sync_role_spec [OF laws role]
  from laws have blaws: "kind_laws (ch_bindings cl) crb_Labels B R" by (simp add: child_laws_def)
  let ?r = "applyClusterRoleBinding (ch_bindings cl) (binding_name b) (rpb_ClusterRole b) (toSubjects (rpb_Subjects b)) s1"
  note at = applyClusterRoleBinding_attempt [OF blaws refl, where n = "binding_name b" and role = "rpb_ClusterRole b" and subjects = "toSubjects (rpb_Subjects b)" and s = s1]
  obtain res2 s2 where binding: "?r = (res2, s2)" by (cases ?r)
  have cases: "(\<exists>e. res = Inl e \<and> s' = s1 \<and> (\<exists>e'. errs' = errs @ [e']))
     \<or> (\<exists>c. res = Inr c \<and> s' = s2 \<and> ((\<exists>e e'. res2 = Inl e \<and> errs' = errs @ [e']) \<or> (\<exists>d. res2 = Inr d \<and> errs' = errs)))"
    using run role binding by (cases res; cases res2) (auto simp: sync_binding_def)
  from at binding have frame: "R s2 = R s1" "\<And>m. m \<noteq> binding_name b \<Longrightarrow> B s2 m = B s1 m"
    and finished: "\<And>d. res2 = Inr d \<Longrightarrow> \<exists>x. B s2 (binding_name b) = Some x \<and> good_binding (rpb_ClusterRole b) (toSubjects (rpb_Subjects b)) x"
    by (simp_all add: attempt_def)
  show "B s' m = B s m" if "m \<noteq> binding_name b"
    using cases spec(1) frame(2) that by auto
  show "R s' m = R s m" if "m \<notin> written_roles [b] \<or> foreign_role (R s m)"
    using cases spec(2) [OF that] frame(1) by auto
  show "\<exists>more. errs' = errs @ more \<and> (more = [] \<longrightarrow> synced R B b s')"
    using cases
  proof (elim disjE exE conjE)
    fix c d assume "res = Inr c" "s' = s2" "res2 = Inr d" "errs' = errs"
    then show ?thesis using spec(3) finished frame(1) by (simp add: synced_def)
  qed auto
qed

text \<open>The loop over the bindings.\<close>

lemma fold_sync_spec:
  assumes "child_laws cl R B" and "fold (sync_binding cl) bs (errs, changed, s) = (errs', changed', s')"
  shows "(\<forall>m. m \<notin> (\<lambda>b. binding_name b) ` set bs \<longrightarrow> B s' m = B s m)
     \<and> (\<forall>m. m \<notin> written_roles bs \<or> foreign_role (R s m) \<longrightarrow> R s' m = R s m)
     \<and> (\<exists>more. errs' = errs @ more \<and> (more = [] \<and> distinct (map rpb_Name bs)
          \<and> distinct (map rpb_ClusterRole (filter (\<lambda>b. rpb_Rules b \<noteq> []) bs)) \<longrightarrow> (\<forall>b\<in>set bs. synced R B b s')))"
  using assms(2)
proof (induction bs arbitrary: errs changed s)
  case (Cons b bs)
  obtain errs1 changed1 s1 where one: "sync_binding cl b (errs, changed, s) = (errs1, changed1, s1)" by (metis prod_cases3)
  then have rest: "fold (sync_binding cl) bs (errs1, changed1, s1) = (errs', changed', s')" using Cons.prems by simp
  note IH = Cons.IH [OF rest]
  note first = sync_binding_spec [OF assms(1) one]
  have roles: "R s' m = R s m" if "m \<notin> written_roles (b # bs) \<or> foreign_role (R s m)" for m
  proof -
    from that have "m \<notin> written_roles [b] \<or> foreign_role (R s m)" by (auto simp: written_roles_def)
    from first(2) [OF this] have "R s1 m = R s m" .
    moreover from this that have "m \<notin> written_roles bs \<or> foreign_role (R s1 m)" by (auto simp: written_roles_def)
    ultimately show ?thesis using IH by simp
  qed
  have bindings: "B s' m = B s m" if "m \<notin> (\<lambda>b. binding_name b) ` set (b # bs)" for m
    using that IH first(1) by simp
  obtain more where more: "errs1 = errs @ more" "more = [] \<longrightarrow> synced R B b s1" using first(3) by blast
  from IH obtain more' where more': "errs' = errs1 @ more'" "more' = [] \<and> distinct (map rpb_Name bs)
      \<and> distinct (map rpb_ClusterRole (filter (\<lambda>b. rpb_Rules b \<noteq> []) bs)) \<longrightarrow> (\<forall>b\<in>set bs. synced R B b s')" by blast
  have "\<forall>x\<in>set (b # bs). synced R B x s'" if none: "more @ more' = []" and dist: "distinct (map rpb_Name (b # bs))"
    "distinct (map rpb_ClusterRole (filter (\<lambda>b. rpb_Rules b \<noteq> []) (b # bs)))"
  proof -
    from none dist more(2) have sb: "synced R B b s1" by simp
    have "binding_name b \<notin> (\<lambda>b. binding_name b) ` set bs" using dist(1) by auto
    with IH have "B s' (binding_name b) = B s1 (binding_name b)" by simp
    moreover have "R s' (rpb_ClusterRole b) = R s1 (rpb_ClusterRole b)" if "rpb_Rules b \<noteq> []"
    proof -
      from dist(2) that have "rpb_ClusterRole b \<notin> written_roles bs" by (auto simp: written_roles_def)
      with IH show ?thesis by simp
    qed
    ultimately have "synced R B b s'" using sb by (auto simp: synced_def)
    moreover have "\<forall>x\<in>set bs. synced R B x s'" using more'(2) none dist by (auto split: if_splits)
    ultimately show ?thesis by simp
  qed
  with roles bindings more more' show ?case by (intro conjI allI impI exI [of _ "more @ more'"]) auto
qed simp

lemma validate_bindings_distinct:
  "validate_bindings isDNS names roles bs = None \<Longrightarrow>
     distinct (map rpb_Name bs) \<and> set (map rpb_Name bs) \<inter> set names = {}
   \<and> distinct (map rpb_ClusterRole (filter (\<lambda>b. rpb_Rules b \<noteq> []) bs))
   \<and> set (map rpb_ClusterRole (filter (\<lambda>b. rpb_Rules b \<noteq> []) bs)) \<inter> set roles = {}"
proof (induction bs arbitrary: names roles)
  case (Cons b bs)
  let ?roles = "if rpb_Rules b = [] then roles else rpb_ClusterRole b # roles"
  from Cons.prems have new: "rpb_Name b \<notin> set names" "rpb_Rules b \<noteq> [] \<longrightarrow> rpb_ClusterRole b \<notin> set roles"
    and rest: "validate_bindings isDNS (rpb_Name b # names) ?roles bs = None"
    by (auto split: if_splits option.splits)
  from Cons.IH [OF rest] new show ?case by (cases "rpb_Rules b = []") auto
qed simp

lemma ValidateRBACPolicy_distinct:
  "ValidateRBACPolicy isDNS policy = None \<Longrightarrow>
     distinct (map rpb_Name (rp_Bindings policy)) \<and> distinct (map rpb_ClusterRole (filter (\<lambda>b. rpb_Rules b \<noteq> []) (rp_Bindings policy)))"
  using validate_bindings_distinct [of isDNS "[]" "[]"] by (simp add: ValidateRBACPolicy_def)

text \<open>Pruning one kind.\<close>

definition managed_in :: "('o \<Rightarrow> (string \<times> string) list) \<Rightarrow> (string \<Rightarrow> 'o option) \<Rightarrow> string set" where
  "managed_in labels_of m = {n. \<exists>x. m n = Some x \<and> is_managed (labels_of x)}"

lemma prune_loop_spec:
  assumes "kind_laws kc labels_of obs frame" and "prune_loop kc kind desired changed names s = ((changed', e), s')"
  shows "frame s' = frame s \<and> (\<forall>m. m \<notin> set names - set desired \<longrightarrow> obs s' m = obs s m)
     \<and> (\<forall>m. obs s' m = obs s m \<or> obs s' m = None) \<and> (e = None \<longrightarrow> (\<forall>m\<in>set names - set desired. obs s' m = None))"
  using assms(2)
proof (induction names arbitrary: changed s)
  case (Cons name names)
  show ?case
  proof (cases "name \<in> set desired")
    case True
    with Cons show ?thesis by auto
  next
    case False
    obtain d s1 where del: "kc_delete kc name s = (d, s1)" by (cases "kc_delete kc name s")
    note law = delete_law [OF assms(1) del]
    show ?thesis
    proof (cases "d = None \<or> d = Some NotFound")
      case True
      with Cons.prems del False have rest: "prune_loop kc kind desired True names s1 = ((changed', e), s')" by auto
      from law True have upd: "obs s1 = (obs s)(name := None)" and fr: "frame s1 = frame s" by auto
      note IH = Cons.IH [OF rest]
      have "obs s' name = None" using IH upd by (metis fun_upd_same)
      moreover have "\<forall>m. m \<notin> set (name # names) - set desired \<longrightarrow> obs s' m = obs s m"
        using IH upd False by auto
      moreover have "\<forall>m. obs s' m = obs s m \<or> obs s' m = None" using IH upd by (metis fun_upd_apply)
      ultimately show ?thesis using IH fr by auto
    next
      case other: False
      with Cons.prems del False have "e \<noteq> None" "s' = s1" by (auto split: option.splits if_splits)
      moreover from law have "obs s1 m = obs s m \<or> m = name \<and> obs s1 m = None" for m by (metis fun_upd_apply)
      moreover from law have "frame s1 = frame s" by simp
      ultimately show ?thesis using False by (simp only: not_None_eq) (metis DiffI list.set_intros(1) option.distinct(1))
    qed
  qed
qed simp

lemma pruneManaged_spec:
  assumes "kind_laws kc labels_of obs frame" and "pruneManaged kc kind desired s = ((changed, e), s')"
  shows "frame s' = frame s"
    and "m \<notin> managed_in labels_of (obs s) - set desired \<Longrightarrow> obs s' m = obs s m"
    and "obs s' m = obs s m \<or> obs s' m = None"
    and "e = None \<Longrightarrow> m \<in> managed_in labels_of (obs s) - set desired \<Longrightarrow> obs s' m = None"
proof -
  obtain res s1 where list: "kc_listManaged kc s = (res, s1)" by (cases "kc_listManaged kc s")
  note law = list_law [OF assms(1) list]
  have "frame s' = frame s \<and> (\<forall>m. m \<notin> managed_in labels_of (obs s) - set desired \<longrightarrow> obs s' m = obs s m)
     \<and> (\<forall>m. obs s' m = obs s m \<or> obs s' m = None) \<and> (e = None \<longrightarrow> (\<forall>m\<in>managed_in labels_of (obs s) - set desired. obs s' m = None))"
  proof (cases res)
    case (Inl err)
    then have "s' = s1" "e \<noteq> None" using assms(2) list by (auto simp: pruneManaged_def)
    with law show ?thesis by auto
  next
    case (Inr names)
    with assms(2) list have "prune_loop kc kind desired False names s1 = ((changed, e), s')" by (simp add: pruneManaged_def)
    from prune_loop_spec [OF assms(1) this] law Inr show ?thesis by (simp add: managed_in_def)
  qed
  then show "frame s' = frame s" "m \<notin> managed_in labels_of (obs s) - set desired \<Longrightarrow> obs s' m = obs s m"
    "obs s' m = obs s m \<or> obs s' m = None" "e = None \<Longrightarrow> m \<in> managed_in labels_of (obs s) - set desired \<Longrightarrow> obs s' m = None"
    by metis+
qed

lemma Prune_spec:
  assumes laws: "child_laws cl R B" and run: "Prune cl dr db s = ((changed, e), s')"
  shows "m \<notin> managed_in role_Labels (R s) - set dr \<Longrightarrow> R s' m = R s m"
    and "m \<notin> managed_in crb_Labels (B s) - set db \<Longrightarrow> B s' m = B s m"
    and "e = None \<Longrightarrow> managed_in role_Labels (R s') = managed_in role_Labels (R s) \<inter> set dr"
    and "e = None \<Longrightarrow> managed_in crb_Labels (B s') = managed_in crb_Labels (B s) \<inter> set db"
    and "R s' m = R s m \<or> R s' m = None" and "B s' m = B s m \<or> B s' m = None"
proof -
  from laws have rlaws: "kind_laws (ch_roles cl) role_Labels R B" and blaws: "kind_laws (ch_bindings cl) crb_Labels B R"
    by (simp_all add: child_laws_def)
  obtain c1 e1 s1 where one: "pruneManaged (ch_roles cl) ''ClusterRole'' dr s = ((c1, e1), s1)" by (metis prod.exhaust)
  obtain c2 e2 s2 where two: "pruneManaged (ch_bindings cl) ''ClusterRoleBinding'' db s1 = ((c2, e2), s2)" by (metis prod.exhaust)
  note r = pruneManaged_spec [OF rlaws one] and b = pruneManaged_spec [OF blaws two]
  have cases: "e1 \<noteq> None \<and> s' = s1 \<and> e \<noteq> None \<or> e1 = None \<and> s' = s2 \<and> e = e2"
    using run one two by (cases e1) (auto simp: Prune_def)
  show "R s' m = R s m" if "m \<notin> managed_in role_Labels (R s) - set dr"
    using cases r(2) [OF that] b(1) by auto
  show "B s' m = B s m" if "m \<notin> managed_in crb_Labels (B s) - set db"
    using cases b(2) r(1) that by auto
  show "R s' m = R s m \<or> R s' m = None" using cases r(3) b(1) by metis
  show "B s' m = B s m \<or> B s' m = None" using cases b(3) r(1) by metis
  have inter: "managed_in f o2 = managed_in f o1 \<inter> D"
    if "\<And>m. m \<notin> managed_in f o1 - D \<Longrightarrow> o2 m = o1 m" and "\<And>m. m \<in> managed_in f o1 - D \<Longrightarrow> o2 m = None"
    for f and o1 o2 :: "string \<Rightarrow> 'z option" and D
  proof (intro set_eqI)
    fix m
    show "m \<in> managed_in f o2 \<longleftrightarrow> m \<in> managed_in f o1 \<inter> D"
      using that(1) [of m] that(2) [of m] by (cases "m \<in> managed_in f o1 - D") (auto simp: managed_in_def)
  qed
  show "managed_in role_Labels (R s') = managed_in role_Labels (R s) \<inter> set dr" if "e = None"
  proof -
    from cases that have "e1 = None" "R s' = R s1" using b(1) by auto
    with inter [of role_Labels "R s" "set dr" "R s1"] r(2,4) show ?thesis by simp
  qed
  show "managed_in crb_Labels (B s') = managed_in crb_Labels (B s) \<inter> set db" if "e = None"
  proof -
    from cases that have "e2 = None" "B s' = B s2" by auto
    with inter [of crb_Labels "B s1" "set db" "B s2"] b(2,4) r(1) show ?thesis by simp
  qed
qed

lemma Sync_desired:
  "Sync cl policy s = ((dr, db, changed, e), s') \<Longrightarrow>
     dr = map rpb_ClusterRole (rp_Bindings policy) \<and> db = map (\<lambda>b. binding_name b) (rp_Bindings policy)"
  by (auto simp: Sync_def split: prod.splits)

lemma Sync_spec:
  assumes "child_laws cl R B" and "Sync cl policy s = ((dr, db, changed, e), s')"
  shows "foreign_role (R s m) \<Longrightarrow> R s' m = R s m"
    and "m \<notin> set dr \<Longrightarrow> R s' m = R s m" and "m \<notin> set db \<Longrightarrow> B s' m = B s m"
    and "e = None \<Longrightarrow> ValidateRBACPolicy isDNS policy = None \<Longrightarrow> b \<in> set (rp_Bindings policy) \<Longrightarrow> synced R B b s'"
proof -
  obtain errs where run: "fold (sync_binding cl) (rp_Bindings policy) ([], False, s) = (errs, changed, s')" "e = errors_Join errs"
    using assms(2) by (auto simp: Sync_def split: prod.splits)
  note names = Sync_desired [OF assms(2)] and spec = fold_sync_spec [OF assms(1) run(1)]
  show "R s' m = R s m" if "foreign_role (R s m)" using spec that by simp
  show "R s' m = R s m" if "m \<notin> set dr" using spec names that by (auto simp: written_roles_def)
  show "B s' m = B s m" if "m \<notin> set db" using spec names that by simp
  show "synced R B b s'" if "e = None" "ValidateRBACPolicy isDNS policy = None" "b \<in> set (rp_Bindings policy)"
    using spec run(2) that ValidateRBACPolicy_distinct [OF that(2)] by (auto simp: errors_Join_def split: if_splits)
qed

lemma Sync_Prune_spec:
  assumes laws: "child_laws cl R B" and valid: "ValidateRBACPolicy isDNS policy = None"
    and sync: "Sync cl policy s = ((dr, db, c1, None), s1)" and prune: "Prune cl dr db s1 = ((c2, None), s2)"
  shows "(\<forall>b\<in>set (rp_Bindings policy). synced R B b s2)
     \<and> managed_in crb_Labels (B s2) = (\<lambda>b. binding_name b) ` set (rp_Bindings policy)
     \<and> managed_in role_Labels (R s2) \<subseteq> rpb_ClusterRole ` set (rp_Bindings policy)"
proof -
  note names = Sync_desired [OF sync] and p = Prune_spec [OF laws prune]
  have kept: "synced R B b s2" if "b \<in> set (rp_Bindings policy)" for b
  proof -
    from Sync_spec(4) [OF laws sync refl valid that] have "synced R B b s1" .
    moreover have "B s2 (binding_name b) = B s1 (binding_name b)" "R s2 (rpb_ClusterRole b) = R s1 (rpb_ClusterRole b)"
      using p(1,2) names that by auto
    ultimately show ?thesis by (simp add: synced_def)
  qed
  then have "(\<lambda>b. binding_name b) ` set (rp_Bindings policy) \<subseteq> managed_in crb_Labels (B s2)"
    by (auto simp: synced_def good_binding_def managed_in_def)
  with kept p(3,4) names show ?thesis by auto
qed

section \<open>Theorems\<close>


text \<open>
  Whatever fails on the way, no ClusterRole that this code did not create is changed, no object
  outside the policy is created, and pruning takes away nothing the policy wants.
\<close>

theorem Sync_Prune_safe:
  assumes laws: "child_laws cl R B" and sync: "Sync cl policy s = ((dr, db, c1, e1), s1)"
    and prune: "Prune cl dr db s1 = ((c2, e2), s2)"
  shows "(foreign_role (R s m) \<longrightarrow> R s2 m = R s m)
     \<and> (m \<notin> rpb_ClusterRole ` set (rp_Bindings policy) \<longrightarrow> R s2 m = R s m \<or> R s2 m = None)
     \<and> (m \<notin> (\<lambda>b. binding_name b) ` set (rp_Bindings policy) \<longrightarrow> B s2 m = B s m \<or> B s2 m = None)
     \<and> (m \<in> (\<lambda>b. binding_name b) ` set (rp_Bindings policy) \<longrightarrow> B s2 m = B s1 m)"
proof -
  note names = Sync_desired [OF sync] and p = Prune_spec [OF laws prune] and y = Sync_spec [OF laws sync]
  have "R s2 m = R s m" if "foreign_role (R s m)"
  proof -
    from y(1) [OF that] that have "m \<notin> managed_in role_Labels (R s1)" by (auto simp: foreign_role_def managed_in_def)
    with p(1) y(1) [OF that] show ?thesis by auto
  qed
  moreover have "R s2 m = R s m \<or> R s2 m = None" if "m \<notin> rpb_ClusterRole ` set (rp_Bindings policy)"
    using y(2) [of m] p(5) [of m] names that by auto
  moreover have "B s2 m = B s m \<or> B s2 m = None" if "m \<notin> (\<lambda>b. binding_name b) ` set (rp_Bindings policy)"
    using y(3) [of m] p(6) [of m] names that by auto
  moreover have "B s2 m = B s1 m" if "m \<in> (\<lambda>b. binding_name b) ` set (rp_Bindings policy)"
    using p(2) [of m] names that by auto
  ultimately show ?thesis by blast
qed

section \<open>Examples\<close>

text \<open>A child cluster as two association lists, whose API server refuses operations on given names.\<close>

record example_cluster =
  ec_roles :: "(string \<times> ChildRole) list"
  ec_bindings :: "(string \<times> ChildBinding) list"

definition example_kind ::
  "(string \<Rightarrow> bool) \<Rightarrow> ('o \<Rightarrow> (string \<times> string) list) \<Rightarrow> ('s \<Rightarrow> (string \<times> 'o) list) \<Rightarrow> ((string \<times> 'o) list \<Rightarrow> 's \<Rightarrow> 's) \<Rightarrow> ('o, 's) kind_client" where
  "example_kind refused labels_of get put =
     (let no = OtherAPIError ''refused''
      in \<lparr>kc_get = (\<lambda>n s. (if refused n then Inl no else case alookup (get s) n of None \<Rightarrow> Inl NotFound | Some x \<Rightarrow> Inr x, s)),
          kc_create = (\<lambda>n x s. if refused n then (Some no, s) else if alookup (get s) n \<noteq> None then (Some AlreadyExists, s)
                                else (None, put (AList.update n x (get s)) s)),
          kc_patch = (\<lambda>n b x s. if refused n then (Some no, s) else (None, put (AList.update n x (get s)) s)),
          kc_delete = (\<lambda>n s. if refused n then (Some no, s) else (None, put (AList.delete n (get s)) s)),
          kc_listManaged = (\<lambda>s. (Inr (filter (\<lambda>n. case alookup (get s) n of None \<Rightarrow> False | Some x \<Rightarrow> is_managed (labels_of x)) (map fst (get s))), s))\<rparr>)"

lemma example_kind_laws:
  assumes "\<And>v s. get (put v s) = v" and "\<And>v s. frame (put v s) = frame s"
  shows "kind_laws (example_kind refused labels_of get put) labels_of (\<lambda>s. alookup (get s)) frame"
proof -
  have "reads_ok (example_kind refused labels_of get put) labels_of (\<lambda>s. alookup (get s)) frame"
    by (auto simp: reads_ok_def example_kind_def Let_def alookup_def dest: map_of_SomeD split: option.splits)
      (metis fst_conv image_eqI map_of_SomeD)
  moreover have "writes_ok (example_kind refused labels_of get put) (\<lambda>s. alookup (get s)) frame"
    by (auto simp: writes_ok_def example_kind_def Let_def assms alookup_def delete_conv' update_conv' split: if_splits)
  ultimately show ?thesis by (simp add: kind_laws_def)
qed

definition example_child :: "(string \<Rightarrow> bool) \<Rightarrow> example_cluster child_client" where
  "example_child refused = \<lparr>ch_roles = example_kind refused role_Labels ec_roles (\<lambda>v s. s\<lparr>ec_roles := v\<rparr>),
     ch_bindings = example_kind refused crb_Labels ec_bindings (\<lambda>v s. s\<lparr>ec_bindings := v\<rparr>)\<rparr>"

lemma example_child_laws: "child_laws (example_child refused) (\<lambda>s. alookup (ec_roles s)) (\<lambda>s. alookup (ec_bindings s))"
  by (simp add: child_laws_def example_child_def example_kind_laws)

definition example_policy :: RBACPolicy where
  "example_policy = \<lparr>rp_Name = ''p'', rp_UID = ''u'', rp_Generation = 1, rp_Bindings =
     [\<lparr>rpb_Name = ''dev'', rpb_ClusterRole = ''deployer'', rpb_Rules = [\<lparr>rule_Verbs = [''get''], rule_APIGroups = [], rule_Resources = [''pods''],
        rule_ResourceNames = [], rule_NonResourceURLs = []\<rparr>], rpb_Subjects = [\<lparr>rps_Kind = ''Group'', rps_Name = ''devs''\<rparr>]\<rparr>]\<rparr>"

definition example_stale :: example_cluster where
  "example_stale = \<lparr>ec_roles = [(''admin'', \<lparr>role_Labels = [], role_Rules = []\<rparr>)],
     ec_bindings = [(''k0rdent-old'', desired_binding ''view'' [] [])]\<rparr>"

lemmas example_rbac_defs = example_child_def example_kind_def example_policy_def example_stale_def Sync_def Prune_def pruneManaged_def
  sync_binding_def sync_role_def applyClusterRole_def applyClusterRoleBinding_def create_object_def errors_Join_def
  ClusterRoleBindingNamePrefix_def toSubjects_def desired_binding_def desired_role_ref_def mergeManagedLabels_def is_managed_def
  ManagedByLabelKey_def ManagedByLabelValue_def KCMManagedLabelKey_def KCMManagedLabelValue_def

lemma example_sync_run:
  "\<exists>s1 s2. Sync (example_child (\<lambda>_. False)) example_policy example_stale = (([''deployer''], [''k0rdent-dev''], True, None), s1)
     \<and> Prune (example_child (\<lambda>_. False)) [''deployer''] [''k0rdent-dev''] s1 = ((True, None), s2)"
  by (simp add: example_rbac_defs)


theorem Sync_Prune_safe_witness:
  "\<exists>dr db c1 e1 s1 c2 e2 s2. Sync (example_child (\<lambda>n. n = ''k0rdent-dev'')) example_policy example_stale = ((dr, db, c1, e1), s1)
     \<and> Prune (example_child (\<lambda>n. n = ''k0rdent-dev'')) dr db s1 = ((c2, e2), s2)
     \<and> alookup (ec_roles s2) ''admin'' = Some \<lparr>role_Labels = [], role_Rules = []\<rparr>"
proof -
  obtain dr db c1 e1 s1 where sync: "Sync (example_child (\<lambda>n. n = ''k0rdent-dev'')) example_policy example_stale = ((dr, db, c1, e1), s1)"
    by (metis prod.exhaust)
  obtain c2 e2 s2 where prune: "Prune (example_child (\<lambda>n. n = ''k0rdent-dev'')) dr db s1 = ((c2, e2), s2)" by (metis prod.exhaust)
  have admin: "alookup (ec_roles example_stale) ''admin'' = Some \<lparr>role_Labels = [], role_Rules = []\<rparr>" by (simp add: example_stale_def)
  then have "foreign_role (alookup (ec_roles example_stale) ''admin'')" by (simp add: foreign_role_def is_managed_def)
  with Sync_Prune_safe [OF example_child_laws sync prune, of "''admin''", THEN conjunct1] admin
  have "alookup (ec_roles s2) ''admin'' = Some \<lparr>role_Labels = [], role_Rules = []\<rparr>" by simp
  with sync prune show ?thesis by blast
qed

end
