(* ===== verification/ClusterStatus.thy ===== *)
theory ClusterStatus
  imports StatusConditions TemplateWebhook ServiceVersions
begin

text \<open>
  The status of a ClusterDeployment: the conditions, the summary of its services, the available
  upgrades and the write of the status of \<^verbatim>\<open>internal/controller/clusterdeployment_controller.go\<close>, and the
  summary of the CAPI Cluster of \<^verbatim>\<open>internal/util/conditions/capi.go\<close>.

  Conditions are set and removed by library functions, and the summary of a CAPI Cluster is computed
  by the Cluster API library: all three are parameters.
\<close>

section \<open>The object\<close>

text \<open>The fields of a ClusterDeployment that only its controller reads or writes.\<close>

record Cld = ClusterDeployment +
  cld_Generation :: int
  cld_Finalizers :: "string list"
  cld_ClusterAuth :: string
  cld_AuditPolicy :: string
  cld_RBACPolicy :: string
  cld_CleanupOnDeletion :: bool
  cld_Conditions :: "Condition list"
  cld_Services :: "ServiceState list"
  cld_ServicesUpgradePaths :: "ServiceUpgradePaths list"
  cld_KubernetesVersion :: string
  cld_RBACPolicyGrant :: string
  cld_ObservedGeneration :: int

definition CredentialReadyCondition :: string where "CredentialReadyCondition = ''CredentialReady''"
definition HelmReleaseReadyCondition :: string where "HelmReleaseReadyCondition = ''HelmReleaseReady''"
definition HelmChartReadyCondition :: string where "HelmChartReadyCondition = ''HelmChartReady''"
definition TemplateReadyCondition :: string where "TemplateReadyCondition = ''TemplateReady''"
definition CAPIClusterSummaryCondition :: string where "CAPIClusterSummaryCondition = ''CAPIClusterSummary''"
definition ServicesInReadyStateCondition :: string where "ServicesInReadyStateCondition = ''ServicesInReadyState''"
definition CloudResourcesDeletedCondition :: string where "CloudResourcesDeletedCondition = ''CloudResourcesDeletedCondition''"
definition HelmChartNameChangedCondition :: string where "HelmChartNameChangedCondition = ''HelmChartNameChanged''"

definition DeletionCompletedReason :: string where "DeletionCompletedReason = ''DeletionCompleted''"
definition CAPIClusterMissingReason :: string where "CAPIClusterMissingReason = ''CAPIClusterMissing''"
definition WaitingForCloudResourcesDeletionReason :: string where "WaitingForCloudResourcesDeletionReason = ''WaitingForCloudResourcesDeletion''"
definition WaitingForClusterDeletionReason :: string where "WaitingForClusterDeletionReason = ''WaitingForClusterDeletion''"
definition WaitingForHelmReleaseDeletionReason :: string where "WaitingForHelmReleaseDeletionReason = ''WaitingForHelmReleaseDeletion''"
definition WaitingForServiceSetsDeletionReason :: string where "WaitingForServiceSetsDeletionReason = ''WaitingForServiceSetsDeletion''"
definition WaitingForClusterDataSourceDeletionReason :: string where
  "WaitingForClusterDataSourceDeletionReason = ''WaitingForClusterDataSourceDeletion''"

lemmas cld_condition_types = CredentialReadyCondition_def HelmReleaseReadyCondition_def HelmChartReadyCondition_def
  TemplateReadyCondition_def CAPIClusterSummaryCondition_def ServicesInReadyStateCondition_def CloudResourcesDeletedCondition_def
  HelmChartNameChangedCondition_def

section \<open>Conditions\<close>

text \<open>\<open>apimeta.SetStatusCondition\<close> and \<open>RemoveStatusCondition\<close>.\<close>

record cond_lib =
  cnd_set :: set_condition
  cnd_remove :: "Condition list \<Rightarrow> string \<Rightarrow> Condition list"

definition cond_laws :: "cond_lib \<Rightarrow> bool" where
  "cond_laws lib \<longleftrightarrow> sets_condition (cnd_set lib)
     \<and> (\<forall>cs t t'. find_condition (cnd_remove lib cs t) t' = (if t' = t then None else find_condition cs t'))"

definition cld_condition :: "'m Cld_scheme \<Rightarrow> string \<Rightarrow> ConditionStatus \<Rightarrow> string \<Rightarrow> string \<Rightarrow> Condition" where
  "cld_condition cd typ status reason msg =
     \<lparr>cond_Type = typ, cond_Status = status, cond_ObservedGeneration = cld_Generation cd, cond_Reason = reason, cond_Message = msg\<rparr>"

definition cld_setCondition :: "cond_lib \<Rightarrow> Cld \<Rightarrow> string \<Rightarrow> string \<Rightarrow> ConditionStatus \<Rightarrow> string \<Rightarrow> Cld" where
  "cld_setCondition lib cd typ reason status msg =
     cd\<lparr>cld_Conditions := cnd_set lib (cld_Conditions cd) (cld_condition cd typ status reason msg)\<rparr>"

definition initClusterConditions :: "cond_lib \<Rightarrow> Cld \<Rightarrow> Cld" where
  "initClusterConditions lib cd =
     fold (\<lambda>typ cd'.
         if find_condition (cld_Conditions cd') typ \<noteq> None then cd'
         else if typ = HelmReleaseReadyCondition \<and> cd_DryRun cd' then cd'
         else cld_setCondition lib cd' typ ProgressingReason ConditionUnknown [])
       [CredentialReadyCondition, HelmReleaseReadyCondition, HelmChartReadyCondition, TemplateReadyCondition, ReadyCondition] cd"

definition handleClusterDeploymentFailedConditions :: "Condition \<Rightarrow> string \<times> string" where
  "handleClusterDeploymentFailedConditions cond =
     (if cond_Type cond = CAPIClusterSummaryCondition then ([], cond_Message cond)
      else if cond_Type cond = ServicesInReadyStateCondition then ([], cond_Message cond @ '' Services are ready.'')
      else (cond_Message cond, []))"

section \<open>The CAPI Cluster\<close>

text \<open>
  \<open>Merge\<close> of the custom strategy: the default strategy of the library, with the reason replaced when
  a Deleting condition is among those merged. \<open>summary\<close> is \<open>capiconditions.NewSummaryCondition\<close>.
\<close>

type_synonym merge_strategy = "Condition list \<Rightarrow> string list \<Rightarrow> string + ConditionStatus \<times> string \<times> string"

definition custom_Merge :: "merge_strategy \<Rightarrow> merge_strategy" where
  "custom_Merge dflt conditions conditionTypes =
     bindE (dflt conditions conditionTypes) (\<lambda>(status, reason, message).
       Inr (status, if contains_func (\<lambda>c. cond_Type c = ''Deleting'') conditions then ''Deleting'' else reason, message))"

record 'c capi_lib =
  capi_defaultMerge :: "string list \<Rightarrow> merge_strategy"
  capi_summary :: "merge_strategy \<Rightarrow> string list \<Rightarrow> string list \<Rightarrow> string \<Rightarrow> 'c \<Rightarrow> string + Condition"

definition GetCAPIClusterSummaryCondition :: "'c capi_lib \<Rightarrow> Cld \<Rightarrow> 'c \<Rightarrow> string + Condition" where
  "GetCAPIClusterSummaryCondition lib cd cluster =
     (let (capiConditionTypes, negativePolarityConditionTypes) =
            (if \<not> cd_Deleting cd
             then ([''InfrastructureReady'', ''ControlPlaneInitialized'', ''ControlPlaneAvailable'', ''ControlPlaneMachinesReady'',
                    ''WorkersAvailable'', ''WorkerMachinesReady'', ''RemoteConnectionProbe''], [])
             else ([''Deleting''], [''Deleting'']))
      in bindE (capi_summary lib (custom_Merge (capi_defaultMerge lib negativePolarityConditionTypes)) capiConditionTypes
                  negativePolarityConditionTypes CAPIClusterSummaryCondition cluster)
           (\<lambda>c. Inr (c\<lparr>cond_ObservedGeneration := cld_Generation cd\<rparr>)))"

text \<open>The event for an update of the summary; the events themselves are not part of the state.\<close>

definition capiClusterEvent :: "Condition option \<Rightarrow> Condition \<Rightarrow> bool \<Rightarrow> (string \<times> string) option" where
  "capiClusterEvent previous current deleting =
     (if (case previous of None \<Rightarrow> False | Some p \<Rightarrow> cond_Status p = cond_Status current \<and> cond_Reason p = cond_Reason current) then None
      else if cond_Status current = ConditionTrue then Some (''CAPIClusterIsReady'', ''Cluster has been provisioned'')
      else if deleting then Some (''CAPIClusterIsDeleting'', ''Cluster is deleting'')
      else Some (''CAPIClusterIsProvisioning'', ''Cluster is provisioning''))"

text \<open>
  The read lists the Clusters of the ClusterDeployment, limited to one. The result: whether to
  requeue or the error, the object, and whether the Cluster was found gone.
\<close>

definition aggregateCapiConditions ::
  "cond_lib \<Rightarrow> 'c capi_lib \<Rightarrow> api_error + 'c list \<Rightarrow> (api_error \<Rightarrow> string) \<Rightarrow> Cld \<Rightarrow> (string + bool) \<times> Cld \<times> bool" where
  "aggregateCapiConditions lib capi clusters show_err cd =
     (let put = (\<lambda>status reason msg. cld_setCondition lib cd CAPIClusterSummaryCondition reason status msg)
      in case clusters of
           Inl e \<Rightarrow> (Inl (show_err e), put ConditionFalse FailedReason (show_err e), False)
         | Inr [] \<Rightarrow>
             (Inr False,
              (case find_condition (cld_Conditions cd) CAPIClusterSummaryCondition of
                 None \<Rightarrow> cd
               | Some cond \<Rightarrow>
                   if cond_Reason cond = DeletingReason then put ConditionTrue DeletionCompletedReason ''Cluster was deleted''
                   else if cond_Reason cond = CAPIClusterMissingReason \<or> cond_Reason cond = DeletionCompletedReason then cd
                   else put ConditionFalse CAPIClusterMissingReason ''Underlying CAPI Cluster object is missing''),
              True)
         | Inr (cluster # _) \<Rightarrow>
             (case GetCAPIClusterSummaryCondition capi cd cluster of
                Inl e \<Rightarrow> (Inl e, put ConditionFalse FailedReason e, False)
              | Inr capiCondition \<Rightarrow>
                  (Inr (cond_Status capiCondition \<noteq> ConditionTrue),
                   cd\<lparr>cld_Conditions := cnd_set lib (cld_Conditions cd) capiCondition\<rparr>, False)))"

section \<open>Services\<close>

definition serviceStateMap :: "ServiceSet list \<Rightarrow> (ObjectKey \<times> ServiceState list) list" where
  "serviceStateMap serviceSets =
     fold (\<lambda>serviceSet m.
         if sset_Deleting serviceSet then m
         else fold (\<lambda>svc m'. if ss_State svc = ServiceStateDeleting then m' else aappend (ss_key svc) svc m')
                (ssst_Services (sset_Status serviceSet)) m)
       serviceSets []"

definition setServicesCondition :: "cond_lib \<Rightarrow> Cld \<Rightarrow> ServiceSet list \<Rightarrow> Cld" where
  "setServicesCondition lib cd serviceSets =
     (let m = serviceStateMap serviceSets;
          totalServices = length m;
          readyServices = length (filter (\<lambda>(_, svcStates). list_ex (\<lambda>s. ss_State s = ServiceStateDeployed) svcStates) m);
          ok = \<not> readyServices < totalServices
      in cd\<lparr>cld_Conditions := cnd_set lib (cld_Conditions cd)
              \<lparr>cond_Type = ServicesInReadyStateCondition, cond_Status = (if ok then ConditionTrue else ConditionFalse),
               cond_ObservedGeneration = 0, cond_Reason = (if ok then SucceededReason else FailedReason),
               cond_Message = format_nat readyServices @ ''/'' @ format_nat totalServices\<rparr>\<rparr>)"

text \<open>\<open>slices.SortStableFunc\<close> by type, namespace and name: strings are compared lexicographically.\<close>

definition service_less :: "ServiceState \<Rightarrow> ServiceState \<Rightarrow> bool" where
  "service_less a b \<longleftrightarrow>
     ss_Type a < ss_Type b
     \<or> ss_Type a = ss_Type b \<and> (ss_Namespace a < ss_Namespace b \<or> ss_Namespace a = ss_Namespace b \<and> ss_Name a < ss_Name b)"

fun insert_service :: "ServiceState \<Rightarrow> ServiceState list \<Rightarrow> ServiceState list" where
  "insert_service s [] = [s]"
| "insert_service s (x # xs) = (if service_less x s then x # insert_service s xs else s # x # xs)"

definition collectServicesStatuses :: "ServiceSet list \<Rightarrow> ServiceState list" where
  "collectServicesStatuses serviceSets = foldr insert_service (concat (map (\<lambda>s. ssst_Services (sset_Status s)) serviceSets)) []"

section \<open>Upgrades and the write of the status\<close>

text \<open>The upgrades of all chains in the namespace of the template that support it, as a sorted list.\<close>

definition upgrades_from :: "string \<Rightarrow> TemplateChainSpec list \<Rightarrow> string list" where
  "upgrades_from name chs =
     fold (\<lambda>chain. fold (\<lambda>supportedTemplate.
         if stpl_Name supportedTemplate = name then fold (\<lambda>u. add_new (au_Name u)) (stpl_AvailableUpgrades supportedTemplate) else id)
       (tcs_SupportedTemplates chain)) chs []"

definition setAvailableUpgrades ::
  "(string \<Rightarrow> string \<Rightarrow> api_error + TemplateChainSpec list) \<Rightarrow> Cld \<Rightarrow> ClusterTemplate option \<Rightarrow> api_error + Cld" where
  "setAvailableUpgrades listChains cd clusterTpl =
     (case clusterTpl of
        None \<Rightarrow> Inr cd
      | Some tpl \<Rightarrow>
          bindE (listChains (po_Namespace tpl) (po_Name tpl)) (\<lambda>chs.
            Inr (cd\<lparr>cd_AvailableUpgrades := sort (upgrades_from (po_Name tpl) chs)\<rparr>)))"

text \<open>The status of the object, as \<open>Semantic.DeepEqual\<close> compares it.\<close>

definition cld_status where
  "cld_status cd = (cld_Conditions cd, cd_AvailableUpgrades cd, cd_StatusRegion cd, cld_Services cd, cld_ServicesUpgradePaths cd,
     cld_KubernetesVersion cd, cld_RBACPolicyGrant cd, cld_ObservedGeneration cd)"

record 'w cld_writer =
  cw_updateStatus :: "Cld \<Rightarrow> 'w \<Rightarrow> api_error option \<times> 'w"
  cw_update :: "Cld \<Rightarrow> 'w \<Rightarrow> api_error option \<times> 'w"

definition cld_updateStatus ::
  "cond_lib \<Rightarrow> (string \<Rightarrow> string \<Rightarrow> api_error + TemplateChainSpec list) \<Rightarrow> 'w cld_writer \<Rightarrow> Cld \<Rightarrow> Cld \<Rightarrow> ClusterTemplate option \<Rightarrow> 'w
     \<Rightarrow> api_error option \<times> Cld \<times> 'w" where
  "cld_updateStatus lib listChains wr oldObj newObj template w =
     (let new1 = newObj\<lparr>cld_ObservedGeneration := cld_Generation newObj,
            cld_Conditions := UpdateReadyCondition (cnd_set lib) (cld_Conditions newObj) (cld_Generation newObj) handleClusterDeploymentFailedConditions\<rparr>
      in case setAvailableUpgrades listChains new1 template of
           Inl e \<Rightarrow> (Some e, new1, w)
         | Inr new2 \<Rightarrow>
             if cld_status oldObj = cld_status new2 then (None, new2, w)
             else (case cw_updateStatus wr new2 w of (e, w') \<Rightarrow> (e, new2, w')))"

definition setStatusRegion :: "string option \<Rightarrow> Cld \<Rightarrow> Cld" where
  "setStatusRegion region cd =
     (case region of
        Some name \<Rightarrow> cd\<lparr>cd_StatusRegion := name\<rparr>
      | None \<Rightarrow> if cd_StatusRegion cd \<noteq> [] then cd\<lparr>cd_StatusRegion := []\<rparr> else cd)"

section \<open>Deletion\<close>

record clusterDeletionState =
  ds_capiClusterDeleted :: bool
  ds_cloudResourcesDeleted :: bool
  ds_helmReleaseDeleted :: bool
  ds_serviceSetsDeleted :: bool
  ds_clusterDataSourceDeleted :: bool

definition ensureDeletingCondition :: "cond_lib \<Rightarrow> clusterDeletionState \<Rightarrow> string option \<Rightarrow> Cld \<Rightarrow> Cld" where
  "ensureDeletingCondition lib st err cd =
     (let cd1 = (if find_condition (cld_Conditions cd) DeletingCondition = None
                 then cld_setCondition lib cd DeletingCondition DeletingReason ConditionTrue ''deletion has been requested'' else cd)
      in case err of
           Some e \<Rightarrow> cld_setCondition lib cd1 DeletingCondition FailedReason ConditionTrue e
         | None \<Rightarrow>
             let (reason, msg) =
               (if \<not> ds_cloudResourcesDeleted st then (WaitingForCloudResourcesDeletionReason, ''Waiting for cloud resources to be deleted'')
                else if \<not> ds_capiClusterDeleted st then
                  (WaitingForClusterDeletionReason,
                   case find_condition (cld_Conditions cd1) CAPIClusterSummaryCondition of
                     Some c \<Rightarrow> cond_Message c | None \<Rightarrow> ''Waiting for CAPI Cluster to be deleted'')
                else if \<not> ds_helmReleaseDeleted st then (WaitingForHelmReleaseDeletionReason, ''Waiting for HelmRelease to be deleted'')
                else if \<not> ds_serviceSetsDeleted st then (WaitingForServiceSetsDeletionReason, ''Waiting for ServiceSets to be deleted'')
                else if \<not> ds_clusterDataSourceDeleted st then
                  (WaitingForClusterDataSourceDeletionReason, ''Waiting for ClusterDataSource to be deleted'')
                else (DeletionCompletedReason, ''Deletion has been completed''))
             in cld_setCondition lib cd1 DeletingCondition reason ConditionTrue msg)"

text \<open>Durations in nanoseconds; 0 is the absence of a requeue.\<close>

definition soonerResult :: "nat \<Rightarrow> nat \<Rightarrow> nat" where
  "soonerResult a b = (if a = 0 then b else if b = 0 then a else min a b)"

section \<open>The services condition\<close>

text \<open>The states that count, one after the other.\<close>

definition counted_states :: "ServiceSet list \<Rightarrow> ServiceState list" where
  "counted_states serviceSets =
     concat (map (\<lambda>s. filter (\<lambda>svc. ss_State svc \<noteq> ServiceStateDeleting) (ssst_Services (sset_Status s)))
       (filter (\<lambda>s. \<not> sset_Deleting s) serviceSets))"

lemma fold_if_filter: "fold (\<lambda>x m. if P x then m else f x m) xs m = fold f (filter (\<lambda>x. \<not> P x) xs) m"
  by (induction xs arbitrary: m) auto

lemma fold_concat: "fold (\<lambda>x. fold f (g x)) xs m = fold f (concat (map g xs)) m"
  by (induction xs arbitrary: m) auto

lemma serviceStateMap_fold: "serviceStateMap serviceSets = fold (\<lambda>svc. aappend (ss_key svc) svc) (counted_states serviceSets) []"
  unfolding serviceStateMap_def counted_states_def fold_if_filter fold_concat ..

lemma distinct_aappend: "distinct (map fst m) \<Longrightarrow> distinct (map fst (aappend k v m))"
  by (simp add: aappend_def distinct_update)

lemma fold_aappend:
  assumes "distinct (map fst m)"
  shows "distinct (map fst (fold (\<lambda>x. aappend (f x) x) xs m))"
    and "fst ` set (fold (\<lambda>x. aappend (f x) x) xs m) = fst ` set m \<union> f ` set xs"
    and "get_or [] (alookup (fold (\<lambda>x. aappend (f x) x) xs m)) k = get_or [] (alookup m) k @ filter (\<lambda>x. f x = k) xs"
  using assms by (induction xs arbitrary: m) (auto simp: distinct_aappend keys_aappend get_aappend)

lemma alookup_entry: "distinct (map fst m) \<Longrightarrow> (k, v) \<in> set m \<Longrightarrow> get_or d (alookup m) k = v"
  by (simp add: alookup_def)

lemma serviceStateMap_spec:
  fixes serviceSets defines "states \<equiv> counted_states serviceSets"
  shows "distinct (map fst (serviceStateMap serviceSets))"
    and "fst ` set (serviceStateMap serviceSets) = (\<lambda>s. ss_key s) ` set states"
    and "(k, v) \<in> set (serviceStateMap serviceSets) \<Longrightarrow> v = filter (\<lambda>s. ss_key s = k) states"
proof -
  note f = fold_aappend [of "[]" "\<lambda>s. ss_key s" states]
  show d: "distinct (map fst (serviceStateMap serviceSets))" using f(1) by (simp add: serviceStateMap_fold states_def)
  show "fst ` set (serviceStateMap serviceSets) = (\<lambda>s. ss_key s) ` set states"
    using f(2) by (simp add: serviceStateMap_fold states_def)
  show "v = filter (\<lambda>s. ss_key s = k) states" if "(k, v) \<in> set (serviceStateMap serviceSets)"
    using alookup_entry [OF d that, of "[]"] f(3) [of k] by (simp add: serviceStateMap_fold states_def get_or_def)
qed

text \<open>How many services there are, and how many of them some ServiceSet reports as deployed.\<close>

definition all_services :: "ServiceSet list \<Rightarrow> ObjectKey set" where
  "all_services serviceSets = (\<lambda>s. ss_key s) ` set (counted_states serviceSets)"

definition deployed_services :: "ServiceSet list \<Rightarrow> ObjectKey set" where
  "deployed_services serviceSets = (\<lambda>s. ss_key s) ` {s \<in> set (counted_states serviceSets). ss_State s = ServiceStateDeployed}"

lemma counts:
  fixes serviceSets defines "m \<equiv> serviceStateMap serviceSets"
  shows "length m = card (all_services serviceSets)"
    and "length (filter (\<lambda>(_, svcStates). list_ex (\<lambda>s. ss_State s = ServiceStateDeployed) svcStates) m) = card (deployed_services serviceSets)"
proof -
  note spec = serviceStateMap_spec [where serviceSets = serviceSets]
  have "length m = card (fst ` set m)" using distinct_card [OF spec(1)] by (simp add: m_def)
  then show "length m = card (all_services serviceSets)" using spec(2) by (simp add: m_def all_services_def)
  let ?P = "\<lambda>(_, svcStates). list_ex (\<lambda>s. ss_State s = ServiceStateDeployed) svcStates"
  have dist: "distinct (map fst (filter ?P m))" using spec(1) by (simp add: m_def distinct_map_filter)
  have "fst ` set (filter ?P m) = deployed_services serviceSets"
  proof (intro set_eqI iffI)
    fix k assume "k \<in> fst ` set (filter ?P m)"
    then obtain v where "(k, v) \<in> set m" "list_ex (\<lambda>s. ss_State s = ServiceStateDeployed) v" by auto
    with spec(3) [of k v] show "k \<in> deployed_services serviceSets"
      by (auto simp: m_def deployed_services_def list_ex_iff)
  next
    fix k assume "k \<in> deployed_services serviceSets"
    then obtain s where s: "s \<in> set (counted_states serviceSets)" "ss_State s = ServiceStateDeployed" "k = ss_key s"
      by (auto simp: deployed_services_def)
    then have "k \<in> fst ` set m" using spec(2) by (auto simp: m_def)
    then obtain v where v: "(k, v) \<in> set m" by auto
    with spec(3) [of k v] s have "s \<in> set v" by (auto simp: m_def)
    with v s(2) show "k \<in> fst ` set (filter ?P m)" by (force simp: list_ex_iff)
  qed
  with distinct_card [OF dist] show "length (filter ?P m) = card (deployed_services serviceSets)" by simp
qed

lemma deployed_subset: "deployed_services serviceSets \<subseteq> all_services serviceSets"
  by (auto simp: deployed_services_def all_services_def)

lemma finite_all_services: "finite (all_services serviceSets)"
  by (simp add: all_services_def)

section \<open>Sorting the service states\<close>

definition same_place :: "ServiceState \<Rightarrow> ServiceState \<Rightarrow> bool" where
  "same_place a b \<longleftrightarrow> ss_Type a = ss_Type b \<and> ss_Namespace a = ss_Namespace b \<and> ss_Name a = ss_Name b"

text \<open>Facts of the lexicographic order on triples, for the three strings compared.\<close>

lemma lex3_asym:
  fixes a b :: "'a::linorder" and c d :: "'b::linorder" and e f :: "'c::linorder"
  shows "a < b \<or> a = b \<and> (c < d \<or> c = d \<and> e < f) \<Longrightarrow> \<not> (b < a \<or> b = a \<and> (d < c \<or> d = c \<and> f < e))"
  by auto

lemma lex3_not_less_trans:
  fixes a b g :: "'a::linorder" and c d h :: "'b::linorder" and e f i :: "'c::linorder"
  shows "\<not> (b < a \<or> b = a \<and> (d < c \<or> d = c \<and> f < e)) \<Longrightarrow> \<not> (g < b \<or> g = b \<and> (h < d \<or> h = d \<and> i < f))
    \<Longrightarrow> \<not> (g < a \<or> g = a \<and> (h < c \<or> h = c \<and> i < e))"
  by (meson dual_order.strict_trans1 leD leI order.strict_trans order_le_less)

lemma service_less_asym: "service_less a b \<Longrightarrow> \<not> service_less b a"
  unfolding service_less_def by (rule lex3_asym)

lemma not_less_trans: "\<not> service_less b a \<Longrightarrow> \<not> service_less c b \<Longrightarrow> \<not> service_less c a"
  unfolding service_less_def by (rule lex3_not_less_trans)

lemma mset_insert_service: "mset (insert_service s xs) = add_mset s (mset xs)"
  by (induction xs) auto

lemma set_insert_service: "set (insert_service s xs) = insert s (set xs)"
  by (induction xs) auto

lemma sorted_insert_service:
  "sorted_wrt (\<lambda>a b. \<not> service_less b a) xs \<Longrightarrow> sorted_wrt (\<lambda>a b. \<not> service_less b a) (insert_service s xs)"
proof (induction xs)
  case (Cons x xs)
  then show ?case
    using service_less_asym [of x s] not_less_trans [of x s]
    by (simp add: set_insert_service)
qed simp

lemma filter_insert_service:
  "sorted_wrt (\<lambda>a b. \<not> service_less b a) xs \<Longrightarrow>
     filter (same_place k) (insert_service s xs) = filter (same_place k) (s # xs)"
proof (induction xs)
  case (Cons x xs)
  have "\<not> (same_place k x \<and> same_place k s)" if "service_less x s"
    using that unfolding service_less_def same_place_def by (metis less_irrefl)
  with Cons show ?case by simp
qed simp

lemma collect_sorted: "sorted_wrt (\<lambda>a b. \<not> service_less b a) (foldr insert_service xs [])"
  by (induction xs) (simp_all add: sorted_insert_service)

section \<open>Conditions after an update\<close>

lemma find_set [simp]: "cond_laws lib \<Longrightarrow> find_condition (cnd_set lib cs c) t = (if t = cond_Type c then Some c else find_condition cs t)"
  by (simp add: cond_laws_def sets_condition_def)

lemma find_setCondition [simp]:
  "cond_laws lib \<Longrightarrow> find_condition (cld_Conditions (cld_setCondition lib cd typ reason status msg)) t =
     (if t = typ then Some (cld_condition cd typ status reason msg) else find_condition (cld_Conditions cd) t)"
  by (simp add: cld_setCondition_def cld_condition_def)

text \<open>The stage of a deletion: the first thing that is not yet gone.\<close>

definition deletion_stage :: "clusterDeletionState \<Rightarrow> string" where
  "deletion_stage st =
     (if \<not> ds_cloudResourcesDeleted st then WaitingForCloudResourcesDeletionReason
      else if \<not> ds_capiClusterDeleted st then WaitingForClusterDeletionReason
      else if \<not> ds_helmReleaseDeleted st then WaitingForHelmReleaseDeletionReason
      else if \<not> ds_serviceSetsDeleted st then WaitingForServiceSetsDeletionReason
      else if \<not> ds_clusterDataSourceDeleted st then WaitingForClusterDataSourceDeletionReason
      else DeletionCompletedReason)"

lemma ensureDeletingCondition_spec:
  assumes "cond_laws lib"
  shows "\<exists>c. find_condition (cld_Conditions (ensureDeletingCondition lib st err cd)) DeletingCondition = Some c
     \<and> cond_Type c = DeletingCondition \<and> cond_Status c = ConditionTrue
     \<and> cond_Reason c = (if err = None then deletion_stage st else FailedReason) \<and> (\<forall>e. err = Some e \<longrightarrow> cond_Message c = e)"
  using assms by (cases err) (simp_all add: ensureDeletingCondition_def Let_def deletion_stage_def cld_condition_def split: prod.splits)

lemma UpdateReadyCondition_deleting:
  assumes "cond_laws lib" and "find_condition cs DeletingCondition = Some c" and "cond_Status c = ConditionTrue"
  shows "find_condition (UpdateReadyCondition (cnd_set lib) cs gen h) ReadyCondition =
     Some \<lparr>cond_Type = ReadyCondition, cond_Status = ConditionFalse, cond_ObservedGeneration = gen, cond_Reason = DeletingReason,
       cond_Message = cond_Message c\<rparr>"
proof -
  let ?p = "\<lambda>c. cond_Type c = DeletingCondition \<and> cond_Status c = ConditionTrue"
  from assms(2) obtain i where i: "i < length cs" "cs ! i = c" "cond_Type c = DeletingCondition"
    "\<forall>j<i. cond_Type (cs ! j) \<noteq> DeletingCondition"
    by (auto simp: find_condition_def find_Some_iff)
  then have "index_func ?p cs = Some i" using assms(3) by (auto simp: index_func_Some)
  with i(2) assms(1) show ?thesis by (simp add: UpdateReadyCondition_def)
qed

lemma upgrades_from_fold:
  "set (fold (\<lambda>u. add_new (au_Name u)) us acc) = set acc \<union> au_Name ` set us"
  "distinct (fold (\<lambda>u. add_new (au_Name u)) us acc) = distinct acc"
  by (induction us arbitrary: acc) auto

lemma upgrades_from_templates:
  "set (fold (\<lambda>t. if stpl_Name t = name then fold (\<lambda>u. add_new (au_Name u)) (stpl_AvailableUpgrades t) else id) ts acc)
     = set acc \<union> au_Name ` (\<Union>t\<in>{t \<in> set ts. stpl_Name t = name}. set (stpl_AvailableUpgrades t))"
  "distinct (fold (\<lambda>t. if stpl_Name t = name then fold (\<lambda>u. add_new (au_Name u)) (stpl_AvailableUpgrades t) else id) ts acc) = distinct acc"
  by (induction ts arbitrary: acc) (auto simp: upgrades_from_fold)

definition offered :: "string \<Rightarrow> TemplateChainSpec list \<Rightarrow> string set" where
  "offered name chs = {au_Name u | u t ch. ch \<in> set chs \<and> t \<in> set (tcs_SupportedTemplates ch) \<and> stpl_Name t = name \<and> u \<in> set (stpl_AvailableUpgrades t)}"

lemma upgrades_from_spec: "set (upgrades_from name chs) = offered name chs" "distinct (upgrades_from name chs)"
proof -
  let ?f = "\<lambda>chain. fold (\<lambda>t. if stpl_Name t = name then fold (\<lambda>u. add_new (au_Name u)) (stpl_AvailableUpgrades t) else id) (tcs_SupportedTemplates chain)"
  have "set (fold ?f chs acc) = set acc \<union> offered name chs" for acc
    by (induction chs arbitrary: acc) (auto simp: upgrades_from_templates offered_def)
  then show "set (upgrades_from name chs) = offered name chs" by (simp add: upgrades_from_def)
  have "distinct (fold ?f chs acc) = distinct acc" for acc
    by (induction chs arbitrary: acc) (simp_all add: upgrades_from_templates)
  then show "distinct (upgrades_from name chs)" by (simp add: upgrades_from_def)
qed

section \<open>Theorems\<close>

text \<open>
  The condition of the services counts each service once, whatever number of ServiceSets
  reports it: a service is ready if some ServiceSet that is not being deleted reports it as
  deployed, services being deleted do not count, the count never exceeds the total, and the
  condition is True exactly if all are ready.
\<close>

theorem setServicesCondition_correct:
  assumes "cond_laws lib"
  shows "\<exists>c. find_condition (cld_Conditions (setServicesCondition lib cd serviceSets)) ServicesInReadyStateCondition = Some c
     \<and> (cond_Status c = ConditionTrue \<longleftrightarrow> all_services serviceSets \<subseteq> deployed_services serviceSets)
     \<and> cond_Message c = format_nat (card (deployed_services serviceSets)) @ ''/'' @ format_nat (card (all_services serviceSets))
     \<and> card (deployed_services serviceSets) \<le> card (all_services serviceSets)"
proof -
  have "all_services serviceSets \<subseteq> deployed_services serviceSets \<longleftrightarrow> \<not> card (deployed_services serviceSets) < card (all_services serviceSets)"
    using deployed_subset finite_all_services by (metis card_mono card_seteq finite_subset linorder_not_less)
  with assms show ?thesis
    by (simp add: setServicesCondition_def Let_def counts card_mono [OF finite_all_services deployed_subset])
qed

text \<open>
  The states of the services in the status are those of all ServiceSets, sorted by type,
  namespace and name, and states of the same service keep the order of the ServiceSets.
\<close>

theorem collectServicesStatuses_correct:
  "mset (collectServicesStatuses serviceSets) = mset (concat (map (\<lambda>s. ssst_Services (sset_Status s)) serviceSets))
   \<and> sorted_wrt (\<lambda>a b. \<not> service_less b a) (collectServicesStatuses serviceSets)
   \<and> filter (same_place k) (collectServicesStatuses serviceSets)
       = filter (same_place k) (concat (map (\<lambda>s. ssst_Services (sset_Status s)) serviceSets))"
proof -
  have "mset (foldr insert_service xs []) = mset xs" for xs by (induction xs) (simp_all add: mset_insert_service)
  moreover have "filter (same_place k) (foldr insert_service xs []) = filter (same_place k) xs" for xs
    by (induction xs) (simp_all add: filter_insert_service collect_sorted)
  ultimately show ?thesis by (simp add: collectServicesStatuses_def collect_sorted)
qed

text \<open>
  The available upgrades of a ClusterDeployment are, sorted and without duplicates, those that
  some chain in the namespace of the template offers from it; the order of the chains does not
  matter.
\<close>

theorem setAvailableUpgrades_correct:
  assumes "listChains (po_Namespace tpl) (po_Name tpl) = Inr chs" and "setAvailableUpgrades listChains cd (Some tpl) = Inr cd'"
  shows "sorted (cd_AvailableUpgrades cd') \<and> distinct (cd_AvailableUpgrades cd')
     \<and> set (cd_AvailableUpgrades cd') = offered (po_Name tpl) chs"
  using assms by (auto simp: setAvailableUpgrades_def upgrades_from_spec)

text \<open>
  While a ClusterDeployment is being deleted its Ready condition is False and carries the
  message of the deletion, whose reason is the first stage not yet completed, or Failed with the
  error.
\<close>

theorem deletion_reported:
  assumes "cond_laws lib"
  shows "\<exists>c r. find_condition (cld_Conditions (ensureDeletingCondition lib st err cd)) DeletingCondition = Some c
     \<and> find_condition (UpdateReadyCondition (cnd_set lib) (cld_Conditions (ensureDeletingCondition lib st err cd)) gen
          handleClusterDeploymentFailedConditions) ReadyCondition = Some r
     \<and> cond_Reason c = (if err = None then deletion_stage st else FailedReason)
     \<and> cond_Status r = ConditionFalse \<and> cond_Reason r = DeletingReason \<and> cond_Message r = cond_Message c"
proof -
  from ensureDeletingCondition_spec [OF assms] obtain c where
    c: "find_condition (cld_Conditions (ensureDeletingCondition lib st err cd)) DeletingCondition = Some c" "cond_Status c = ConditionTrue"
      "cond_Reason c = (if err = None then deletion_stage st else FailedReason)" by blast
  from UpdateReadyCondition_deleting [OF assms c(1,2)] c show ?thesis by simp
qed

section \<open>Examples\<close>

definition example_conditions :: cond_lib where
  "example_conditions = \<lparr>cnd_set = example_setc, cnd_remove = (\<lambda>cs t. filter (\<lambda>x. cond_Type x \<noteq> t) cs)\<rparr>"

lemma find_filter_type: "find_condition (filter (\<lambda>x. cond_Type x \<noteq> t) cs) t' = (if t' = t then None else find_condition cs t')"
  by (induction cs) (auto simp: find_condition_def)

lemma example_cond_laws: "cond_laws example_conditions"
  by (simp add: cond_laws_def example_conditions_def example_setc_sets find_filter_type)

definition example_cld :: Cld where
  "example_cld = ClusterDeployment.extend \<lparr>cd_Name = ''cd'', cd_Namespace = ''dev'', cd_UID = ''u'', cd_Labels = [], cd_Deleting = False,
       cd_Template = ''aws'', cd_Credential = ''c'', cd_DataSource = [], cd_DryRun = False, cd_Config = None,
       cd_ServiceSpec = example_spec\<lparr>sp_Services := []\<rparr>, cd_AvailableUpgrades = [], cd_StatusRegion = []\<rparr>
     (Cld.fields 1 [] [] [] [] False [] [] [] [] [] 0)"

definition example_served :: "ServiceStateValue list \<Rightarrow> ServiceSet list" where
  "example_served states = map (\<lambda>st. \<lparr>sset_Name = ''s'', sset_Namespace = ''dev'', sset_Deleting = False, sset_Labels = [], sset_OwnerReferences = [],
     sset_Spec = \<lparr>sss_Cluster = ''cd'', sss_MultiClusterService = [], sss_Provider = \<lparr>smpc_Config = None, smpc_Name = [], smpc_SelfManagement = False\<rparr>, sss_Services = []\<rparr>,
     sset_Status = \<lparr>ssst_Conditions = [], ssst_Cluster = None,
       ssst_Services = [\<lparr>ss_Type = ''Helm'', ss_Version = ''1'', ss_Name = ''ingress'', ss_Namespace = ''web'', ss_Template = ''t'', ss_State = st,
         ss_FailureMessage = [], ss_LastDeployedHash = [], ss_Conditions = []\<rparr>], ssst_Deployed = False\<rparr>\<rparr>) states"

lemma deployed_services_list:
  "deployed_services serviceSets = set (map (\<lambda>s. ss_key s) (filter (\<lambda>s. ss_State s = ServiceStateDeployed) (counted_states serviceSets)))"
  by (simp add: deployed_services_def)

lemma offered_list:
  "offered name chs = set (map au_Name (concat (map stpl_AvailableUpgrades (filter (\<lambda>t. stpl_Name t = name) (concat (map tcs_SupportedTemplates chs))))))"
  by (auto simp: offered_def)

theorem setServicesCondition_correct_witness:
  "let sets = example_served [ServiceStateDeployed, ServiceStateFailed, ServiceStateDeployed]
   in \<exists>c. find_condition (cld_Conditions (setServicesCondition example_conditions example_cld sets)) ServicesInReadyStateCondition = Some c
      \<and> cond_Status c = ConditionTrue \<and> cond_Message c = ''1/1''"
proof -
  let ?sets = "example_served [ServiceStateDeployed, ServiceStateFailed, ServiceStateDeployed]"
  have sets: "all_services ?sets = {ServiceKey ''web'' ''ingress''}" "deployed_services ?sets = {ServiceKey ''web'' ''ingress''}"
    by (simp_all add: all_services_def deployed_services_list counted_states_def example_served_def del: set_map)
  have one: "format_nat (Suc 0) = ''1''" by code_simp
  from setServicesCondition_correct [OF example_cond_laws, of example_cld ?sets] show ?thesis
    unfolding sets by (auto simp: Let_def one)
qed

theorem setAvailableUpgrades_correct_witness:
  "\<exists>cd'. setAvailableUpgrades (\<lambda>_ _. Inr [\<lparr>tcs_SupportedTemplates = [\<lparr>stpl_Name = ''aws'', stpl_AvailableUpgrades =
        [\<lparr>au_Name = ''aws-3'', au_Version = []\<rparr>, \<lparr>au_Name = ''aws-2'', au_Version = []\<rparr>]\<rparr>]\<rparr>]) example_cld
      (Some (example_template ''dev'' ''aws'' \<lparr>helm_ChartSpec = None, helm_ChartRef = None\<rparr>)) = Inr cd'
    \<and> set (cd_AvailableUpgrades cd') = {''aws-2'', ''aws-3''}"
proof -
  let ?chs = "[\<lparr>tcs_SupportedTemplates = [\<lparr>stpl_Name = ''aws'', stpl_AvailableUpgrades =
        [\<lparr>au_Name = ''aws-3'', au_Version = []\<rparr>, \<lparr>au_Name = ''aws-2'', au_Version = []\<rparr>]\<rparr>]\<rparr>]"
  let ?tpl = "example_template ''dev'' ''aws'' \<lparr>helm_ChartSpec = None, helm_ChartRef = None\<rparr>"
  obtain cd' where run: "setAvailableUpgrades (\<lambda>_ _. Inr ?chs) example_cld (Some ?tpl) = Inr cd'"
    by (simp add: setAvailableUpgrades_def)
  have "po_Name ?tpl = ''aws''" by (simp add: example_template_def example_meta_def PartialObject.defs)
  with setAvailableUpgrades_correct [OF refl run] run show ?thesis by (auto simp: offered_list)
qed

theorem deletion_reported_witness:
  "\<exists>c r. find_condition (cld_Conditions (ensureDeletingCondition example_conditions
        \<lparr>ds_capiClusterDeleted = True, ds_cloudResourcesDeleted = True, ds_helmReleaseDeleted = False, ds_serviceSetsDeleted = False,
         ds_clusterDataSourceDeleted = True\<rparr> None example_cld)) DeletingCondition = Some c
     \<and> cond_Reason c = WaitingForHelmReleaseDeletionReason
     \<and> find_condition (UpdateReadyCondition (cnd_set example_conditions) (cld_Conditions (ensureDeletingCondition example_conditions
        \<lparr>ds_capiClusterDeleted = True, ds_cloudResourcesDeleted = True, ds_helmReleaseDeleted = False, ds_serviceSetsDeleted = False,
         ds_clusterDataSourceDeleted = True\<rparr> None example_cld)) 1 handleClusterDeploymentFailedConditions) ReadyCondition = Some r
     \<and> cond_Status r = ConditionFalse \<and> cond_Message r = cond_Message c"
proof -
  let ?st = "\<lparr>ds_capiClusterDeleted = True, ds_cloudResourcesDeleted = True, ds_helmReleaseDeleted = False, ds_serviceSetsDeleted = False,
         ds_clusterDataSourceDeleted = True\<rparr>"
  have "deletion_stage ?st = WaitingForHelmReleaseDeletionReason" by (simp add: deletion_stage_def)
  with deletion_reported [OF example_cond_laws, of ?st None example_cld 1] show ?thesis by auto
qed

end
