(* ===== verification/ClusterRBAC.thy ===== *)
theory ClusterRBAC
  imports RBACSync ClusterStatus
begin

text \<open>
  How the ClusterDeployment controller distributes and revokes the RBACPolicy of a cluster:
  \<open>ensureRBACPolicy\<close>, \<open>revokeRBACPolicy\<close> and what they use
  (\<^verbatim>\<open>internal/controller/clusterdeployment_controller.go\<close>, \<^verbatim>\<open>internal/util/kube/client.go\<close>).

  What was granted is recorded in \<open>status.rbacPolicyGrant\<close> before the first write to the child
  cluster. In every state that runs of the controller lead to, with any failure of any call, a managed
  object in the child cluster is on record; and a revocation that reports success leaves none.
\<close>

section \<open>Reads of the regional cluster\<close>

datatype cld_rbac_error =
    SecretFailed api_error
  | KubeconfigEmpty
  | ClientConfigFailed string
  | ClusterReadFailed api_error
  | KubeconfigUnavailable
  | SyncFailed rbac_error
  | RevokeFailed rbac_error
  | GrantNotRecorded api_error

text \<open>
  \<open>re_getSecret\<close> reads the kubeconfig Secret of the cluster, with the value under the key \<open>value\<close> if it
  has one; \<open>re_factory\<close> builds a client from a kubeconfig; \<open>re_getCluster\<close> reads the CAPI Cluster, of
  which \<open>status.initialization.controlPlaneInitialized\<close> matters; \<open>re_patchStatus\<close> patches the status of
  the ClusterDeployment. Times are in nanoseconds.
\<close>

record ('s, 'w) rbac_env =
  re_getSecret :: "api_error + string option"
  re_factory :: "string \<Rightarrow> string + 's child_client"
  re_getCluster :: "api_error + bool option"
  re_patchStatus :: "Cld \<Rightarrow> 'w \<Rightarrow> api_error option \<times> 'w"
  re_now :: int
  re_resync :: int
  re_defaultRequeue :: int
  re_showErr :: "cld_rbac_error \<Rightarrow> string"

definition GetChildClient :: "('s, 'w) rbac_env \<Rightarrow> cld_rbac_error + 's child_client" where
  "GetChildClient env =
     (case re_getSecret env of
        Inl e \<Rightarrow> Inl (SecretFailed e)
      | Inr None \<Rightarrow> Inl KubeconfigEmpty
      | Inr (Some kubeconfigBytes) \<Rightarrow> wrapE ClientConfigFailed (re_factory env kubeconfigBytes))"

text \<open>A missing Secret is no client and no error.\<close>

definition childClientFor :: "('s, 'w) rbac_env \<Rightarrow> cld_rbac_error + 's child_client option" where
  "childClientFor env =
     (case GetChildClient env of
        Inl e \<Rightarrow> if e = SecretFailed NotFound then Inr None else Inl e
      | Inr cl \<Rightarrow> Inr (Some cl))"

definition getPartialCapiCluster :: "('s, 'w) rbac_env \<Rightarrow> cld_rbac_error + bool" where
  "getPartialCapiCluster env =
     (case re_getCluster env of
        Inl e \<Rightarrow> if e = NotFound then Inr False else Inl (ClusterReadFailed e)
      | Inr _ \<Rightarrow> Inr True)"

definition capiControlPlaneInitialized :: "('s, 'w) rbac_env \<Rightarrow> cld_rbac_error + bool" where
  "capiControlPlaneInitialized env =
     (case re_getCluster env of
        Inl e \<Rightarrow> if e = NotFound then Inr True else Inl (ClusterReadFailed e)
      | Inr initialized \<Rightarrow> Inr (initialized = Some True))"

section \<open>Granting\<close>

record rbacSyncState =
  rst_nextSyncAt :: int
  rst_uid :: string
  rst_generation :: int

text \<open>The child cluster, the management cluster, and the cache of the last synchronisations.\<close>

record ('s, 'w) rbac_world =
  rw_child :: 's
  rw_mgmt :: 'w
  rw_synced :: "string \<rightharpoonup> rbacSyncState"

definition RBACPolicyReadyCondition :: string where "RBACPolicyReadyCondition = ''RBACPolicyReady''"
definition RBACPolicyPartiallyAppliedReason :: string where "RBACPolicyPartiallyAppliedReason = ''RBACPolicyPartiallyApplied''"
definition RBACPolicyNotFoundReason :: string where "RBACPolicyNotFoundReason = ''RBACPolicyNotFound''"
definition RBACPolicyGrantedState :: string where "RBACPolicyGrantedState = ''Granted''"

definition rbacSyncFresh :: "int \<Rightarrow> (string \<rightharpoonup> rbacSyncState) \<Rightarrow> Cld \<Rightarrow> RBACPolicy \<Rightarrow> int option" where
  "rbacSyncFresh now cache cd policy =
     (case cache (cd_UID cd) of
        None \<Rightarrow> None
      | Some state \<Rightarrow>
          if rst_uid state \<noteq> rp_UID policy \<or> rst_generation state \<noteq> rp_Generation policy then None
          else let left = rst_nextSyncAt state - now in if left > 0 then Some left else None)"

definition setRBACPolicyApplied :: "cond_lib \<Rightarrow> Cld \<Rightarrow> RBACPolicy \<Rightarrow> Cld" where
  "setRBACPolicyApplied lib cd policy =
     cld_setCondition lib cd RBACPolicyReadyCondition SucceededReason ConditionTrue
       (''RBACPolicy '' @ rp_Name policy @ '' generation '' @ format_nat (nat (rp_Generation policy)) @ '' applied'')"

definition markRBACGranted ::
  "cond_lib \<Rightarrow> ('s, 'w) rbac_env \<Rightarrow> Cld \<Rightarrow> ('s, 'w) rbac_world \<Rightarrow> cld_rbac_error option \<times> Cld \<times> ('s, 'w) rbac_world" where
  "markRBACGranted lib env cd w =
     (if cld_RBACPolicyGrant cd = RBACPolicyGrantedState then (None, cd, w)
      else let cd1 = cd\<lparr>cld_RBACPolicyGrant := RBACPolicyGrantedState\<rparr>
           in case re_patchStatus env cd1 (rw_mgmt w) of
                (None, m) \<Rightarrow> (None, cd1, w\<lparr>rw_mgmt := m\<rparr>)
              | (Some e, m) \<Rightarrow>
                  (Some (GrantNotRecorded e),
                   cld_setCondition lib (cd1\<lparr>cld_RBACPolicyGrant := []\<rparr>) RBACPolicyReadyCondition FailedReason ConditionFalse
                     (re_showErr env (GrantNotRecorded e)),
                   w\<lparr>rw_mgmt := m\<rparr>))"

text \<open>\<open>fmt.Errorf("RBACPolicy %s/%s not found", ...)\<close>.\<close>

definition not_found_text :: "Cld \<Rightarrow> string" where
  "not_found_text cd = ''RBACPolicy '' @ cd_Namespace cd @ ''/'' @ cld_RBACPolicy cd @ '' not found''"

abbreviation report_missing :: "cond_lib \<Rightarrow> Cld \<Rightarrow> Cld" where
  "report_missing lib cd \<equiv> cld_setCondition lib cd RBACPolicyReadyCondition RBACPolicyNotFoundReason ConditionFalse (not_found_text cd)"

text \<open>The end of a revocation: the mark and the cache entry go.\<close>

definition forget_grant :: "cond_lib \<Rightarrow> Cld \<Rightarrow> ('s, 'w) rbac_world \<Rightarrow> Cld \<times> ('s, 'w) rbac_world" where
  "forget_grant lib cd w =
     (let cd1 = cd\<lparr>cld_RBACPolicyGrant := []\<rparr>
      in (if cld_RBACPolicy cd = [] then cd1\<lparr>cld_Conditions := cnd_remove lib (cld_Conditions cd1) RBACPolicyReadyCondition\<rparr>
          else report_missing lib cd1,
          w\<lparr>rw_synced := (rw_synced w)(cd_UID cd := None)\<rparr>))"

definition revokeRBACPolicy ::
  "cond_lib \<Rightarrow> ('s, 'w) rbac_env \<Rightarrow> Cld \<Rightarrow> ('s, 'w) rbac_world \<Rightarrow> cld_rbac_error option \<times> Cld \<times> ('s, 'w) rbac_world" where
  "revokeRBACPolicy lib env cd w =
     (let granted = cld_RBACPolicyGrant cd = RBACPolicyGrantedState
      in if cld_RBACPolicy cd \<noteq> [] \<and> \<not> granted then (None, report_missing lib cd, w)
         else if \<not> granted \<and> find_condition (cld_Conditions cd) RBACPolicyReadyCondition = None then (None, cd, w)
         else case childClientFor env of
                Inl e \<Rightarrow> (Some e, cd, w)
              | Inr None \<Rightarrow>
                  (case getPartialCapiCluster env of
                     Inl e \<Rightarrow> (Some e, cd, w)
                   | Inr exists \<Rightarrow>
                       if granted \<and> exists then (Some KubeconfigUnavailable, cd, w)
                       else (None, forget_grant lib cd w))
              | Inr (Some cl) \<Rightarrow>
                  (case Prune cl [] [] (rw_child w) of
                     ((_, Some e), s) \<Rightarrow> (Some (RevokeFailed e), cd, w\<lparr>rw_child := s\<rparr>)
                   | ((_, None), s) \<Rightarrow> (None, forget_grant lib cd (w\<lparr>rw_child := s\<rparr>))))"

text \<open>The synchronisation itself, once the child cluster can be written to: the requeue, or the error.\<close>

definition apply_policy ::
  "cond_lib \<Rightarrow> ('s, 'w) rbac_env \<Rightarrow> 's child_client \<Rightarrow> RBACPolicy \<Rightarrow> Cld \<Rightarrow> ('s, 'w) rbac_world
     \<Rightarrow> (cld_rbac_error + int) \<times> Cld \<times> ('s, 'w) rbac_world" where
  "apply_policy lib env cl policy cd w =
     (case Sync cl policy (rw_child w) of
        ((desiredRoles, desiredBindings, _, syncErr), s1) \<Rightarrow>
          (case Prune cl desiredRoles desiredBindings s1 of
             ((_, pruneErr), s2) \<Rightarrow>
               let w1 = w\<lparr>rw_child := s2\<rparr>
               in case errors_Join (List.map_filter id [syncErr, pruneErr]) of
                    Some joined \<Rightarrow>
                      let cd1 = cld_setCondition lib cd RBACPolicyReadyCondition RBACPolicyPartiallyAppliedReason ConditionFalse
                                  (re_showErr env (SyncFailed joined));
                          w2 = w1\<lparr>rw_synced := (rw_synced w1)(cd_UID cd := None)\<rparr>
                      in if \<not> Retriable joined then (Inr (re_resync env), cd1, w2) else (Inl (SyncFailed joined), cd1, w2)
                  | None \<Rightarrow>
                      (Inr (re_resync env), setRBACPolicyApplied lib cd policy,
                       w1\<lparr>rw_synced := (rw_synced w1)(cd_UID cd \<mapsto>
                         \<lparr>rst_nextSyncAt = re_now env + re_resync env, rst_uid = rp_UID policy, rst_generation = rp_Generation policy\<rparr>)\<rparr>)))"

abbreviation progressing :: "cond_lib \<Rightarrow> Cld \<Rightarrow> string \<Rightarrow> Cld" where
  "progressing lib cd msg \<equiv> cld_setCondition lib cd RBACPolicyReadyCondition ProgressingReason ConditionUnknown msg"

definition ensureRBACPolicy ::
  "cond_lib \<Rightarrow> ('s, 'w) rbac_env \<Rightarrow> RBACPolicy option \<Rightarrow> Cld \<Rightarrow> ('s, 'w) rbac_world
     \<Rightarrow> (cld_rbac_error + int) \<times> Cld \<times> ('s, 'w) rbac_world" where
  "ensureRBACPolicy lib env rbacPolicy cd w =
     (case rbacPolicy of
        None \<Rightarrow> (case revokeRBACPolicy lib env cd w of (e, cd', w') \<Rightarrow> (case e of None \<Rightarrow> Inr 0 | Some err \<Rightarrow> Inl err, cd', w'))
      | Some policy \<Rightarrow>
          (case rbacSyncFresh (re_now env) (rw_synced w) cd policy of
             Some left \<Rightarrow> (Inr left, setRBACPolicyApplied lib cd policy, w)
           | None \<Rightarrow>
               (case childClientFor env of
                  Inl e \<Rightarrow> (Inl e, cld_setCondition lib cd RBACPolicyReadyCondition FailedReason ConditionFalse (re_showErr env e), w)
                | Inr None \<Rightarrow>
                    (case getPartialCapiCluster env of
                       Inl e \<Rightarrow> (Inl e, cd, w)
                     | Inr exists \<Rightarrow>
                         if \<not> exists then (Inr 0, cd, w)
                         else (Inr (re_defaultRequeue env), progressing lib cd ''child cluster kubeconfig not ready yet'', w))
                | Inr (Some cl) \<Rightarrow>
                    (case capiControlPlaneInitialized env of
                       Inl e \<Rightarrow> (Inl e, cd, w)
                     | Inr initialized \<Rightarrow>
                         if \<not> initialized
                         then (Inr (re_defaultRequeue env), progressing lib cd ''child cluster control plane not initialized yet'', w)
                         else case markRBACGranted lib env cd w of
                                (Some e, cd', w') \<Rightarrow> (Inl e, cd', w')
                              | (None, cd', w') \<Rightarrow> apply_policy lib env cl policy cd' w'))))"

text \<open>The sweep drops the entries of ClusterDeployments that are gone.\<close>

definition sweepRBACSynced :: "api_error + string list \<Rightarrow> (string \<rightharpoonup> rbacSyncState) \<Rightarrow> (string \<rightharpoonup> rbacSyncState)" where
  "sweepRBACSynced uids cache = (case uids of Inl _ \<Rightarrow> cache | Inr live \<Rightarrow> cache |` set live)"

section \<open>Grants and the record of them\<close>

definition has_grants :: "('s \<Rightarrow> string \<Rightarrow> ChildRole option) \<Rightarrow> ('s \<Rightarrow> string \<Rightarrow> ChildBinding option) \<Rightarrow> 's \<Rightarrow> bool" where
  "has_grants R B s \<longleftrightarrow> managed_in role_Labels (R s) \<noteq> {} \<or> managed_in crb_Labels (B s) \<noteq> {}"

text \<open>
  What is assumed of the calls: the clients the factory builds obey the laws of a child cluster, and
  a patch of the status that succeeds stores the mark, one that fails stores it or not.
  \<open>grant_of\<close> is the mark as stored.
\<close>

definition env_laws ::
  "('s \<Rightarrow> string \<Rightarrow> ChildRole option) \<Rightarrow> ('s \<Rightarrow> string \<Rightarrow> ChildBinding option) \<Rightarrow> ('w \<Rightarrow> string) \<Rightarrow> ('s, 'w) rbac_env \<Rightarrow> bool" where
  "env_laws R B grant_of env \<longleftrightarrow>
     (\<forall>bytes cl. re_factory env bytes = Inr cl \<longrightarrow> child_laws cl R B)
   \<and> (\<forall>cd m e m'. re_patchStatus env cd m = (e, m') \<longrightarrow>
        (e = None \<longrightarrow> grant_of m' = cld_RBACPolicyGrant cd) \<and> (grant_of m' = grant_of m \<or> grant_of m' = cld_RBACPolicyGrant cd))"

text \<open>No kubeconfig Secret and no CAPI Cluster: there is no child cluster left, and nothing granted in it.\<close>

definition gone_law :: "('s \<Rightarrow> string \<Rightarrow> ChildRole option) \<Rightarrow> ('s \<Rightarrow> string \<Rightarrow> ChildBinding option) \<Rightarrow> ('s, 'w) rbac_env \<Rightarrow> 's \<Rightarrow> bool" where
  "gone_law R B env s \<longleftrightarrow> (re_getSecret env = Inl NotFound \<and> re_getCluster env = Inl NotFound \<longrightarrow> \<not> has_grants R B s)"

lemma childClientFor_laws: "env_laws R B grant_of env \<Longrightarrow> childClientFor env = Inr (Some cl) \<Longrightarrow> child_laws cl R B"
  by (auto simp: childClientFor_def GetChildClient_def env_laws_def wrapE_def split: sum.splits option.splits if_splits)

lemma childClientFor_None: "childClientFor env = Inr None \<Longrightarrow> re_getSecret env = Inl NotFound"
  by (auto simp: childClientFor_def GetChildClient_def wrapE_def split: sum.splits option.splits if_splits)

lemma Prune_all:
  assumes "child_laws cl R B" and "Prune cl [] [] s = ((c, None), s')"
  shows "\<not> has_grants R B s'"
  using Prune_spec(3,4) [OF assms refl] by (simp add: has_grants_def)

text \<open>
  How a revocation ends: nothing to do, an error before anything is touched, no child cluster to
  reach, or a pruning.
\<close>

abbreviation is_granted :: "Cld \<Rightarrow> bool" where
  "is_granted cd \<equiv> cld_RBACPolicyGrant cd = RBACPolicyGrantedState"

lemma forget_grant_frame:
  assumes "(cd', w') = forget_grant lib cd w"
  shows "rw_mgmt w' = rw_mgmt w" "rw_child w' = rw_child w" "cld_RBACPolicyGrant cd' = []"
  using assms by (auto simp: forget_grant_def Let_def cld_setCondition_def split: if_splits)

lemma getPartialCapiCluster_Inr: "getPartialCapiCluster env = Inr b \<Longrightarrow> b \<or> re_getCluster env = Inl NotFound"
  by (auto simp: getPartialCapiCluster_def split: sum.splits if_splits)

lemma revoke_nochild_cases:
  assumes "(e, cd', w') = (case getPartialCapiCluster env of Inl err \<Rightarrow> (Some err, cd, w)
     | Inr exists \<Rightarrow> if is_granted cd \<and> exists then (Some KubeconfigUnavailable, cd, w) else (None, forget_grant lib cd w))"
  shows "e \<noteq> None \<and> cd' = cd \<and> w' = w
     \<or> e = None \<and> rw_child w' = rw_child w \<and> rw_mgmt w' = rw_mgmt w \<and> (\<not> is_granted cd \<or> re_getCluster env = Inl NotFound)"
  using assms forget_grant_frame [of cd' w' lib cd w] getPartialCapiCluster_Inr [of env]
  by (auto split: sum.splits if_splits)

lemma revokeRBACPolicy_cases:
  assumes run: "revokeRBACPolicy lib env cd w = (e, cd', w')"
  obtains
      (early) "e = None" "w' = w" "\<not> is_granted cd"
    | (failed) "e \<noteq> None" "cd' = cd" "w' = w"
    | (nochild) "e = None" "rw_child w' = rw_child w" "rw_mgmt w' = rw_mgmt w" "childClientFor env = Inr None"
        "\<not> is_granted cd \<or> re_getCluster env = Inl NotFound"
    | (prune) cl c err s where "childClientFor env = Inr (Some cl)" "Prune cl [] [] (rw_child w) = ((c, err), s)"
        "rw_child w' = s" "rw_mgmt w' = rw_mgmt w" "err = None \<longleftrightarrow> e = None" "err \<noteq> None \<longrightarrow> cd' = cd"
proof (cases "cld_RBACPolicy cd \<noteq> [] \<and> \<not> is_granted cd \<or> \<not> is_granted cd \<and> find_condition (cld_Conditions cd) RBACPolicyReadyCondition = None")
  case True
  then have "e = None" "w' = w" "\<not> is_granted cd" using run by (auto simp: revokeRBACPolicy_def Let_def split: if_splits)
  then show thesis by (rule early)
next
  case False
  show thesis
  proof (cases "childClientFor env")
    case (Inl err)
    with run False have "e \<noteq> None" "cd' = cd" "w' = w" by (auto simp: revokeRBACPolicy_def Let_def)
    then show thesis by (rule failed)
  next
    case (Inr child)
    show thesis
    proof (cases child)
      case None
      have "(e, cd', w') = (case getPartialCapiCluster env of Inl err \<Rightarrow> (Some err, cd, w)
         | Inr exists \<Rightarrow> if is_granted cd \<and> exists then (Some KubeconfigUnavailable, cd, w) else (None, forget_grant lib cd w))"
        using run False Inr None by (auto simp: revokeRBACPolicy_def Let_def)
      from revoke_nochild_cases [OF this] failed nochild Inr None show thesis by auto
    next
      case (Some cl)
      obtain c err s where p: "Prune cl [] [] (rw_child w) = ((c, err), s)" by (metis prod.exhaust)
      from run False Inr Some p have out: "(e, cd', w') = (case err of Some x \<Rightarrow> (Some (RevokeFailed x), cd, w\<lparr>rw_child := s\<rparr>)
          | None \<Rightarrow> (None, forget_grant lib cd (w\<lparr>rw_child := s\<rparr>)))"
        by (auto simp: revokeRBACPolicy_def Let_def split: option.splits)
      then show thesis using Inr Some p forget_grant_frame [of cd' w' lib cd "w\<lparr>rw_child := s\<rparr>"]
        by (intro prune [of cl c err s]) (cases err; auto)+
    qed
  qed
qed

lemma managed_in_shrinks: "(\<And>m. obs' m = obs m \<or> obs' m = None) \<Longrightarrow> managed_in f obs' \<subseteq> managed_in f obs"
  unfolding managed_in_def by (intro Collect_mono impI) (metis option.distinct(1))

lemma Prune_grants:
  assumes "child_laws cl R B" and "Prune cl dr db s = ((c, e), s')" and "has_grants R B s'"
  shows "has_grants R B s"
proof -
  have "managed_in role_Labels (R s') \<subseteq> managed_in role_Labels (R s)" "managed_in crb_Labels (B s') \<subseteq> managed_in crb_Labels (B s)"
    by (rule managed_in_shrinks, rule Prune_spec(5,6) [OF assms(1,2)])+
  with assms(3) show ?thesis by (auto simp: has_grants_def)
qed

text \<open>What a revocation does to the grants and to the mark.\<close>

lemma revokeRBACPolicy_spec:
  assumes laws: "env_laws R B grant_of env" and gone: "gone_law R B env (rw_child w)"
    and recorded: "has_grants R B (rw_child w) \<longrightarrow> is_granted cd"
    and run: "revokeRBACPolicy lib env cd w = (e, cd', w')"
  shows "rw_mgmt w' = rw_mgmt w
     \<and> (has_grants R B (rw_child w') \<longrightarrow> e \<noteq> None \<and> cd' = cd \<and> has_grants R B (rw_child w))"
  using run
proof (cases rule: revokeRBACPolicy_cases)
  case early
  with recorded show ?thesis by auto
next
  case failed
  then show ?thesis by simp
next
  case nochild
  with recorded gone childClientFor_None show ?thesis by (auto simp: gone_law_def)
next
  case (prune cl c err s)
  note cl = childClientFor_laws [OF laws prune(1)]
  from prune Prune_all [OF cl] Prune_grants [OF cl prune(2)] show ?thesis by (cases err) auto
qed

section \<open>States the controller reaches\<close>

lemma markRBACGranted_spec:
  assumes laws: "env_laws R B grant_of env" and read: "cld_RBACPolicyGrant cd = grant_of (rw_mgmt w)"
    and run: "markRBACGranted lib env cd w = (e, cd', w')"
  shows "rw_child w' = rw_child w \<and> (e = None \<longrightarrow> grant_of (rw_mgmt w') = RBACPolicyGrantedState \<and> is_granted cd')
     \<and> (is_granted cd \<longrightarrow> e = None)"
proof (cases "is_granted cd")
  case True
  with run read show ?thesis by (auto simp: markRBACGranted_def)
next
  case False
  obtain pe m where patch: "re_patchStatus env (cd\<lparr>cld_RBACPolicyGrant := RBACPolicyGrantedState\<rparr>) (rw_mgmt w) = (pe, m)"
    by (metis prod.exhaust)
  with laws have "pe = None \<longrightarrow> grant_of m = RBACPolicyGrantedState" unfolding env_laws_def by fastforce
  with run False patch show ?thesis by (cases pe) (auto simp: markRBACGranted_def Let_def)
qed

lemma apply_policy_frame:
  assumes "apply_policy lib env cl policy cd w = (res, cd', w')"
  shows "rw_mgmt w' = rw_mgmt w" and "cld_RBACPolicyGrant cd' = cld_RBACPolicyGrant cd"
  using assms by (auto simp: apply_policy_def Let_def cld_setCondition_def setRBACPolicyApplied_def split: prod.splits option.splits if_splits)

text \<open>
  One run on a policy that exists: either nothing is written to the child cluster, or the mark is
  stored before.
\<close>

lemma ensure_policy_spec:
  assumes laws: "env_laws R B grant_of env" and read: "cld_RBACPolicyGrant cd = grant_of (rw_mgmt w)"
    and run: "ensureRBACPolicy lib env (Some policy) cd w = (res, cd', w')"
  shows "rw_child w' = rw_child w \<and> (is_granted cd \<longrightarrow> cld_RBACPolicyGrant cd' = cld_RBACPolicyGrant cd \<and> rw_mgmt w' = rw_mgmt w)
     \<or> grant_of (rw_mgmt w') = RBACPolicyGrantedState \<and> is_granted cd'"
proof (cases "rbacSyncFresh (re_now env) (rw_synced w) cd policy = None \<and> (\<exists>cl. childClientFor env = Inr (Some cl)) \<and> capiControlPlaneInitialized env = Inr True")
  case True
  then obtain cl where cl: "childClientFor env = Inr (Some cl)" by blast
  obtain me cd1 w1 where mark: "markRBACGranted lib env cd w = (me, cd1, w1)" by (metis prod.exhaust)
  note spec = markRBACGranted_spec [OF laws read mark]
  from True cl mark run have "(res, cd', w') = (case me of Some e \<Rightarrow> (Inl e, cd1, w1) | None \<Rightarrow> apply_policy lib env cl policy cd1 w1)"
    by (auto simp: ensureRBACPolicy_def split: option.splits)
  with spec show ?thesis using apply_policy_frame [of lib env cl policy cd1 w1 res cd' w'] by (cases me) auto
next
  case False
  then have "w' = w \<and> cld_RBACPolicyGrant cd' = cld_RBACPolicyGrant cd"
    using run by (auto simp: ensureRBACPolicy_def setRBACPolicyApplied_def cld_setCondition_def split: option.splits sum.splits if_splits)
  then show ?thesis by simp
qed

text \<open>
  Runs of the controller on one ClusterDeployment. A run reads the object as stored; the write of the
  status at its end happens or does not. Between runs the child cluster may lose objects, and the rest
  of the management cluster may change. A crash is a run in which the remaining calls fail.
\<close>

inductive rbac_reach ::
  "('s \<Rightarrow> string \<Rightarrow> ChildRole option) \<Rightarrow> ('s \<Rightarrow> string \<Rightarrow> ChildBinding option) \<Rightarrow> ('w \<Rightarrow> string) \<Rightarrow> 's \<Rightarrow> 'w \<Rightarrow> bool"
  for R B grant_of where
  start: "\<not> has_grants R B s \<Longrightarrow> rbac_reach R B grant_of s m"
| run: "rbac_reach R B grant_of s m \<Longrightarrow> env_laws R B grant_of env \<Longrightarrow> gone_law R B env s
    \<Longrightarrow> cld_RBACPolicyGrant cd = grant_of m
    \<Longrightarrow> ensureRBACPolicy lib env policy cd \<lparr>rw_child = s, rw_mgmt = m, rw_synced = cache\<rparr> = (res, cd', w')
    \<Longrightarrow> grant_of m' = grant_of (rw_mgmt w') \<or> grant_of m' = cld_RBACPolicyGrant cd'
    \<Longrightarrow> rbac_reach R B grant_of (rw_child w') m'"
| environment: "rbac_reach R B grant_of s m
    \<Longrightarrow> managed_in role_Labels (R s') \<subseteq> managed_in role_Labels (R s) \<Longrightarrow> managed_in crb_Labels (B s') \<subseteq> managed_in crb_Labels (B s)
    \<Longrightarrow> grant_of m' = grant_of m \<Longrightarrow> rbac_reach R B grant_of s' m'"

lemma rbac_reach_recorded: "rbac_reach R B grant_of s m \<Longrightarrow> has_grants R B s \<Longrightarrow> grant_of m = RBACPolicyGrantedState"
proof (induction rule: rbac_reach.induct)
  case (start s m)
  then show ?case by simp
next
  case (run s m env cd lib policy cache res cd' w' m')
  let ?w = "\<lparr>rw_child = s, rw_mgmt = m, rw_synced = cache\<rparr>"
  have recorded: "has_grants R B (rw_child ?w) \<longrightarrow> is_granted cd" using run.IH run.hyps(4) by simp
  have "has_grants R B (rw_child w') \<longrightarrow> grant_of (rw_mgmt w') = RBACPolicyGrantedState \<and> is_granted cd'"
  proof (cases policy)
    case None
    obtain e where rev: "revokeRBACPolicy lib env cd ?w = (e, cd', w')"
      using run.hyps(5) None by (auto simp: ensureRBACPolicy_def split: prod.splits)
    from run.hyps(3) have gone: "gone_law R B env (rw_child ?w)" by simp
    from revokeRBACPolicy_spec [OF run.hyps(2) gone recorded rev] recorded run.hyps(4) show ?thesis by auto
  next
    case (Some p)
    have read: "cld_RBACPolicyGrant cd = grant_of (rw_mgmt ?w)" using run.hyps(4) by simp
    from ensure_policy_spec [OF run.hyps(2) read run.hyps(5) [unfolded Some]] recorded run.hyps(4) show ?thesis by auto
  qed
  with run.hyps(6) run.prems show ?case by auto
next
  case (environment s m s' m')
  then show ?case by (auto simp: has_grants_def)
qed

text \<open>A new entry in the cache: the run synchronised and pruned without an error.\<close>

lemma apply_policy_new_entry:
  assumes "apply_policy lib env cl policy cd w = (res, cd', w')" and "rw_synced w' (cd_UID cd) = Some st"
  obtains dr db c1 s1 c2 where "Sync cl policy (rw_child w) = ((dr, db, c1, None), s1)"
    and "Prune cl dr db s1 = ((c2, None), rw_child w')" and "cd' = setRBACPolicyApplied lib cd policy"
    and "rst_uid st = rp_UID policy" and "rst_generation st = rp_Generation policy" and "rst_nextSyncAt st = re_now env + re_resync env"
proof -
  obtain dr db c1 e1 s1 where sync: "Sync cl policy (rw_child w) = ((dr, db, c1, e1), s1)" by (metis prod.exhaust)
  obtain c2 e2 s2 where prune: "Prune cl dr db s1 = ((c2, e2), s2)" by (metis prod.exhaust)
  from assms sync prune have "e1 = None \<and> e2 = None"
    by (cases e1; cases e2) (auto simp: apply_policy_def Let_def errors_Join_def map_filter_simps split: if_splits)
  with assms sync prune that [of dr db c1 s1 c2] show thesis
    by (auto simp: apply_policy_def Let_def errors_Join_def map_filter_simps)
qed

lemma ensure_policy_apply:
  assumes "ensureRBACPolicy lib env (Some policy) cd w = (res, cd', w')" and "rw_synced w' \<noteq> rw_synced w"
  obtains cl cd1 w1 where "childClientFor env = Inr (Some cl)" and "markRBACGranted lib env cd w = (None, cd1, w1)"
    and "apply_policy lib env cl policy cd1 w1 = (res, cd', w')"
proof -
  have "rw_synced w1 = rw_synced w" if "markRBACGranted lib env cd w = (me, cd1, w1)" for me cd1 w1
    using that by (auto simp: markRBACGranted_def Let_def split: if_splits prod.splits option.splits)
  with assms that show thesis
    by (auto simp: ensureRBACPolicy_def split: option.splits sum.splits if_splits prod.splits)
qed

lemma markRBACGranted_child:
  "markRBACGranted lib env cd w = (e, cd', w') \<Longrightarrow> rw_child w' = rw_child w \<and> cd_UID cd' = cd_UID cd"
  by (auto simp: markRBACGranted_def Let_def cld_setCondition_def split: if_splits prod.splits option.splits)

section \<open>Theorems\<close>

text \<open>
  A synchronisation is entered into the cache, so that later runs skip it until its deadline,
  only when the child cluster holds every binding of the policy and no other managed one, and then
  the condition says that this generation is applied.
\<close>

theorem sync_cached_when_applied:
  assumes laws: "env_laws R B grant_of env" and valid: "ValidateRBACPolicy isDNS policy = None" and cond: "cond_laws lib"
    and run: "ensureRBACPolicy lib env (Some policy) cd w = (res, cd', w')"
    and entry: "rw_synced w' (cd_UID cd) = Some st" and new: "rw_synced w' \<noteq> rw_synced w"
  shows "rst_uid st = rp_UID policy \<and> rst_generation st = rp_Generation policy
     \<and> (\<forall>b\<in>set (rp_Bindings policy). synced R B b (rw_child w'))
     \<and> managed_in crb_Labels (B (rw_child w')) = (\<lambda>b. binding_name b) ` set (rp_Bindings policy)
     \<and> (\<exists>c. find_condition (cld_Conditions cd') RBACPolicyReadyCondition = Some c \<and> cond_Status c = ConditionTrue)"
proof -
  from ensure_policy_apply [OF run new] obtain cl cd1 w1 where cl: "childClientFor env = Inr (Some cl)"
    and mark: "markRBACGranted lib env cd w = (None, cd1, w1)" and app: "apply_policy lib env cl policy cd1 w1 = (res, cd', w')" .
  from markRBACGranted_child [OF mark] entry have "rw_synced w' (cd_UID cd1) = Some st" by simp
  from apply_policy_new_entry [OF app this] obtain dr db c1 s1 c2 where sync: "Sync cl policy (rw_child w1) = ((dr, db, c1, None), s1)"
    and prune: "Prune cl dr db s1 = ((c2, None), rw_child w')" and cd': "cd' = setRBACPolicyApplied lib cd1 policy"
    and st: "rst_uid st = rp_UID policy" "rst_generation st = rp_Generation policy" .
  from Sync_Prune_spec [OF childClientFor_laws [OF laws cl] valid sync prune] st cd' cond show ?thesis
    by (simp add: setRBACPolicyApplied_def cld_condition_def)
qed



section \<open>Examples\<close>

text \<open>The management cluster stores the mark; the child cluster is that of the examples of \<open>RBACSync\<close>.\<close>

definition example_rbac_env :: "api_error + string option \<Rightarrow> (string \<Rightarrow> bool) \<Rightarrow> (example_cluster, string) rbac_env" where
  "example_rbac_env secret refused = \<lparr>re_getSecret = secret, re_factory = (\<lambda>_. Inr (example_child refused)), re_getCluster = Inl NotFound,
     re_patchStatus = (\<lambda>cd m. (None, cld_RBACPolicyGrant cd)), re_now = 0, re_resync = 300, re_defaultRequeue = 10, re_showErr = (\<lambda>_. ''error'')\<rparr>"

abbreviation example_R :: "example_cluster \<Rightarrow> string \<Rightarrow> ChildRole option" where "example_R \<equiv> \<lambda>s. alookup (ec_roles s)"
abbreviation example_B :: "example_cluster \<Rightarrow> string \<Rightarrow> ChildBinding option" where "example_B \<equiv> \<lambda>s. alookup (ec_bindings s)"

lemma example_rbac_env_laws: "env_laws example_R example_B (\<lambda>m. m) (example_rbac_env secret refused)"
  by (simp add: env_laws_def example_rbac_env_def example_child_laws)

definition example_empty :: example_cluster where
  "example_empty = \<lparr>ec_roles = [], ec_bindings = []\<rparr>"

text \<open>A run in which the binding is refused, after the role was created.\<close>

definition example_partial where
  "example_partial = ensureRBACPolicy example_conditions (example_rbac_env (Inr (Some ''kubeconfig'')) (\<lambda>n. n = ''k0rdent-dev''))
     (Some example_policy) example_cld \<lparr>rw_child = example_empty, rw_mgmt = [], rw_synced = Map.empty\<rparr>"

lemmas example_run_defs = ensureRBACPolicy_def rbacSyncFresh_def childClientFor_def GetChildClient_def capiControlPlaneInitialized_def
  markRBACGranted_def apply_policy_def example_rbac_env_def example_cld_def ClusterDeployment.defs Cld.defs RBACPolicyGrantedState_def
  map_filter_simps example_empty_def cld_setCondition_def setRBACPolicyApplied_def

lemma example_partial_run:
  "rw_mgmt (snd (snd example_partial)) = ''Granted'' \<and> has_grants example_R example_B (rw_child (snd (snd example_partial)))"
  unfolding example_partial_def
  by (simp add: example_run_defs example_rbac_defs Let_def has_grants_def managed_in_def)

lemma example_partial_reach: "rbac_reach example_R example_B (\<lambda>m. m) (rw_child (snd (snd example_partial))) (rw_mgmt (snd (snd example_partial)))"
proof -
  have start: "rbac_reach example_R example_B (\<lambda>m. m) example_empty []"
    by (rule rbac_reach.start) (simp add: has_grants_def managed_in_def example_empty_def)
  obtain res cd' w' where run: "example_partial = (res, cd', w')" by (metis prod.exhaust)
  have "gone_law example_R example_B (example_rbac_env (Inr (Some ''kubeconfig'')) (\<lambda>n. n = ''k0rdent-dev'')) example_empty"
    "cld_RBACPolicyGrant example_cld = []"
    by (simp_all add: gone_law_def example_rbac_env_def example_cld_def ClusterDeployment.defs Cld.defs)
  from rbac_reach.run [OF start example_rbac_env_laws this run [unfolded example_partial_def], of "rw_mgmt w'"]
  show ?thesis unfolding run snd_conv by blast
qed



lemma example_applied_run:
  "\<exists>res cd' w'. ensureRBACPolicy example_conditions (example_rbac_env (Inr (Some ''kubeconfig'')) (\<lambda>_. False)) (Some example_policy) example_cld
      \<lparr>rw_child = example_empty, rw_mgmt = [], rw_synced = Map.empty\<rparr> = (res, cd', w')
    \<and> rw_synced w' ''u'' = Some \<lparr>rst_nextSyncAt = 300, rst_uid = ''u'', rst_generation = 1\<rparr>"
  by (simp add: example_run_defs example_rbac_defs Let_def)

theorem sync_cached_when_applied_witness:
  "\<exists>res cd' w'. ensureRBACPolicy example_conditions (example_rbac_env (Inr (Some ''kubeconfig'')) (\<lambda>_. False)) (Some example_policy) example_cld
      \<lparr>rw_child = example_empty, rw_mgmt = [], rw_synced = Map.empty\<rparr> = (res, cd', w')
    \<and> managed_in crb_Labels (example_B (rw_child w')) = {''k0rdent-dev''}"
proof -
  from example_applied_run obtain res cd' w' where run:
    "ensureRBACPolicy example_conditions (example_rbac_env (Inr (Some ''kubeconfig'')) (\<lambda>_. False)) (Some example_policy) example_cld
      \<lparr>rw_child = example_empty, rw_mgmt = [], rw_synced = Map.empty\<rparr> = (res, cd', w')"
    and entry: "rw_synced w' ''u'' = Some \<lparr>rst_nextSyncAt = 300, rst_uid = ''u'', rst_generation = 1\<rparr>" by blast
  have uid: "cd_UID example_cld = ''u''" by (simp add: example_cld_def ClusterDeployment.defs)
  have valid: "ValidateRBACPolicy (\<lambda>_. []) example_policy = None" by (simp add: ValidateRBACPolicy_def example_policy_def)
  have new: "rw_synced w' \<noteq> rw_synced \<lparr>rw_child = example_empty, rw_mgmt = [], rw_synced = Map.empty\<rparr>" using entry by auto
  from sync_cached_when_applied [OF example_rbac_env_laws valid example_cond_laws run _ new] uid entry
  have "managed_in crb_Labels (example_B (rw_child w')) = {''k0rdent-dev''}"
    by (simp add: example_policy_def ClusterRoleBindingNamePrefix_def)
  with run show ?thesis by blast
qed

text \<open>
  A cluster without CAPI Cluster but with a kubeconfig Secret is granted the policy; when the policy
  goes while the Secret is missing, the mark goes too and the grants stay. The revocation relies on
  such a cluster never having had a Secret, the granting does not.
\<close>

lemma adopted_grants_forgotten:
  "let (r1, cd1, w1) = ensureRBACPolicy example_conditions (example_rbac_env (Inr (Some ''kubeconfig'')) (\<lambda>_. False)) (Some example_policy) example_cld
        \<lparr>rw_child = example_empty, rw_mgmt = [], rw_synced = Map.empty\<rparr>;
       (r2, cd2, w2) = ensureRBACPolicy example_conditions (example_rbac_env (Inl NotFound) (\<lambda>_. False)) None cd1 w1
   in r2 = Inr 0 \<and> \<not> is_granted cd2 \<and> has_grants example_R example_B (rw_child w2)"
  by (simp add: example_run_defs example_rbac_defs Let_def revokeRBACPolicy_def forget_grant_def getPartialCapiCluster_def
      has_grants_def managed_in_def)

end
