(* ===== verification/ClusterValues.thy ===== *)
theory ClusterValues
  imports ClusterStatus
begin

text \<open>
  The Helm values of a ClusterDeployment: how they are read and stored
  (\<^verbatim>\<open>api/v1beta1/clusterdeployment_types.go\<close>), what the controller adds to them, and the values from
  IP address management (\<^verbatim>\<open>internal/controller/clusterdeployment_controller.go\<close>).

  Values are JSON objects, here association lists. Parsing and printing of JSON and YAML are library
  functions; what the proofs use of them is that printing an object and parsing it gives it back.
\<close>

section \<open>Reading and storing values\<close>

type_synonym helm_values = "(string \<times> json) list"

record json_lib =
  jl_unmarshal :: "string \<Rightarrow> string + json"
  jl_unmarshalYAML :: "string \<Rightarrow> string + json"
  jl_marshal :: "json \<Rightarrow> string + string"

datatype values_error = UnmarshalFailed string | NotAnObject | MarshalFailed string

definition is_space :: "char \<Rightarrow> bool" where
  "is_space c \<longleftrightarrow> c \<in> set [CHR 0x20, CHR 0x09, CHR 0x0A, CHR 0x0B, CHR 0x0C, CHR 0x0D]"

definition trim_space :: "string \<Rightarrow> string" where
  "trim_space s = rev (dropWhile is_space (rev (dropWhile is_space s)))"

text \<open>Unmarshalling into a map: an object, or \<open>null\<close>, which leaves the map as it is.\<close>

definition into_map :: "helm_values \<Rightarrow> string + json \<Rightarrow> values_error + helm_values" where
  "into_map old r =
     (case r of Inl e \<Rightarrow> Inl (UnmarshalFailed e)
      | Inr (JObj m) \<Rightarrow> Inr m
      | Inr JNull \<Rightarrow> Inr old
      | Inr _ \<Rightarrow> Inl NotAnObject)"

definition HelmValues :: "json_lib \<Rightarrow> 'm ClusterDeployment_scheme \<Rightarrow> values_error + helm_values" where
  "HelmValues lib cd =
     (case cd_Config cd of
        None \<Rightarrow> Inr []
      | Some config \<Rightarrow>
          let raw = trim_space config
          in if raw = [] \<or> raw = ''null'' then Inr [] else into_map [] (jl_unmarshalYAML lib raw))"

definition SetHelmValues :: "json_lib \<Rightarrow> helm_values \<Rightarrow> 'm ClusterDeployment_scheme \<Rightarrow> values_error + 'm ClusterDeployment_scheme" where
  "SetHelmValues lib vals cd = bindE (wrapE MarshalFailed (jl_marshal lib (JObj vals))) (\<lambda>b. Inr (cd\<lparr>cd_Config := Some b\<rparr>))"

definition AddHelmValues ::
  "json_lib \<Rightarrow> (helm_values \<Rightarrow> helm_values) \<Rightarrow> 'm ClusterDeployment_scheme \<Rightarrow> values_error + 'm ClusterDeployment_scheme" where
  "AddHelmValues lib f cd = bindE (HelmValues lib cd) (\<lambda>vals. SetHelmValues lib (f vals) cd)"

section \<open>The values the controller adds\<close>

text \<open>
  What the scope holds of the authentication configuration (whether it has an anonymous part, and the
  hash), of the audit policy (the hash), and of the data source. The identity is the reference of the
  Credential; the globals are settings of the controller.
\<close>

record auth_values =
  av_Anonymous :: bool
  av_Hash :: string

record data_source_values =
  dsv_KineSecret :: string
  dsv_CASecret :: string
  dsv_CAKey :: string

record identity_ref =
  idr_APIVersion :: string
  idr_Kind :: string
  idr_Name :: string
  idr_Namespace :: string

record global_values =
  gv_Registry :: string
  gv_K0sURL :: string
  gv_RegistryCertSecret :: string
  gv_K0sURLCertSecret :: string
  gv_RegistryCredentialSecret :: string

record values_scope =
  vs_auth :: "auth_values option"
  vs_audit :: "string option"
  vs_dataSource :: "data_source_values option"
  vs_identity :: identity_ref
  vs_global :: global_values

definition getAuthConfigSecretName :: "string \<Rightarrow> string" where "getAuthConfigSecretName cdName = cdName @ ''-auth-config''"
definition getAuditPolicyConfigMapName :: "string \<Rightarrow> string" where "getAuditPolicyConfigMapName cdName = cdName @ ''-audit-policy''"

definition fillClusterAuthenticationValues :: "auth_values option \<Rightarrow> string \<Rightarrow> helm_values \<Rightarrow> helm_values" where
  "fillClusterAuthenticationValues auth cdName vals =
     (case auth of
        None \<Rightarrow> vals
      | Some a \<Rightarrow>
          AList.update ''auth'' (JObj
            ((''configSecret'', JObj [(''name'', JStr (getAuthConfigSecretName cdName)), (''key'', JStr ''config''), (''hash'', JStr (av_Hash a))])
             # (if av_Anonymous a then [(''configWithAnon'', JBool True)] else []))) vals)"

definition fillClusterAuditPolicyValues :: "string option \<Rightarrow> string \<Rightarrow> helm_values \<Rightarrow> helm_values" where
  "fillClusterAuditPolicyValues audit cdName vals =
     (case audit of
        None \<Rightarrow> (case alookup vals ''audit'' of
                   Some (JObj m) \<Rightarrow> AList.update ''audit'' (JObj (AList.delete ''policyRef'' m)) vals
                 | _ \<Rightarrow> vals)
      | Some hash \<Rightarrow>
          let policyRef = JObj [(''name'', JStr (getAuditPolicyConfigMapName cdName)), (''key'', JStr ''policy''), (''hash'', JStr hash)]
          in case alookup vals ''audit'' of
               Some (JObj m) \<Rightarrow> AList.update ''audit'' (JObj (AList.update ''policyRef'' policyRef m)) vals
             | _ \<Rightarrow> AList.update ''audit'' (JObj [(''policyRef'', policyRef)]) vals)"

definition fillDataSourceValues :: "data_source_values option \<Rightarrow> helm_values \<Rightarrow> helm_values" where
  "fillDataSourceValues ds vals =
     (case ds of
        None \<Rightarrow> vals
      | Some d \<Rightarrow>
          AList.update ''dataSource'' (JObj
            ((''kineDataSourceSecretName'', JStr (dsv_KineSecret d))
             # (if dsv_CAKey d \<noteq> [] then [(''caSecret'', JObj [(''name'', JStr (dsv_CASecret d)), (''key'', JStr (dsv_CAKey d))])] else []))) vals)"

definition global_json :: "global_values \<Rightarrow> helm_values" where
  "global_json g =
     [(''registry'', JStr (gv_Registry g)), (''k0sURL'', JStr (gv_K0sURL g)), (''registryCertSecret'', JStr (gv_RegistryCertSecret g)),
      (''k0sURLCertSecret'', JStr (gv_K0sURLCertSecret g))]
     @ (if gv_RegistryCredentialSecret g \<noteq> [] then [(''registryCredentialSecret'', JStr (gv_RegistryCredentialSecret g))] else [])"

definition identity_json :: "identity_ref \<Rightarrow> json" where
  "identity_json i = JObj [(''apiVersion'', JStr (idr_APIVersion i)), (''kind'', JStr (idr_Kind i)), (''name'', JStr (idr_Name i)),
     (''namespace'', JStr (idr_Namespace i))]"

text \<open>A nil map of labels is printed as \<open>null\<close>.\<close>

definition labels_json :: "(string \<times> string) list \<Rightarrow> json" where
  "labels_json labels = (if labels = [] then JNull else JObj (map (\<lambda>(k, v). (k, JStr v)) labels))"

definition fill_values :: "values_scope \<Rightarrow> string \<Rightarrow> (string \<times> string) list \<Rightarrow> helm_values \<Rightarrow> helm_values" where
  "fill_values scope cdName labels vals =
     (let v1 = fillDataSourceValues (vs_dataSource scope) (fillClusterAuditPolicyValues (vs_audit scope) cdName
                 (fillClusterAuthenticationValues (vs_auth scope) cdName vals));
          v2 = AList.update ''clusterIdentity'' (identity_json (vs_identity scope)) v1;
          gs = global_json (vs_global scope);
          v3 = (if list_ex (\<lambda>(_, v). v \<noteq> JStr []) gs then AList.update ''global'' (JObj gs) v2 else v2)
      in if alookup v3 ''clusterLabels'' = None then AList.update ''clusterLabels'' (labels_json labels) v3 else v3)"

definition fillHelmValues :: "json_lib \<Rightarrow> values_scope \<Rightarrow> 'm ClusterDeployment_scheme \<Rightarrow> values_error + 'm ClusterDeployment_scheme" where
  "fillHelmValues lib scope cd = AddHelmValues lib (fill_values scope (cd_Name cd) (cd_Labels cd)) cd"

section \<open>IP address management\<close>

text \<open>The data of a provider, with the JSON form of the struct.\<close>

record ClusterIPAMProviderData =
  ipd_Name :: string
  ipd_JSON :: json

record 'p ClusterIPAMClaimSpec =
  ics_Cluster :: string
  ics_ClusterIPAMRef :: string
  ics_Networks :: 'p

record 'p ClusterIPAMClaim =
  icl_Spec :: "'p ClusterIPAMClaimSpec"
  icl_Bound :: bool

text \<open>The claim of a ClusterDeployment: a reference or an inline specification.\<close>

record 'p ClusterIPAMClaimType =
  ict_Ref :: string
  ict_Spec :: "'p ClusterIPAMClaimSpec option"

datatype ipam_outcome =
    IPAMDone
  | IPAMNotReady
  | IPAMSpecUpdated
  | IPAMInvalidClaimRef
  | IPAMFailed string api_error
  | IPAMValuesFailed values_error

record ('p, 'w) ipam_api =
  ia_createOrUpdateClaim :: "string \<Rightarrow> 'p ClusterIPAMClaimSpec \<Rightarrow> 'w \<Rightarrow> (api_error + 'p ClusterIPAMClaim) \<times> 'w"
  ia_getClaim :: "string \<Rightarrow> 'w \<Rightarrow> api_error + 'p ClusterIPAMClaim"
  ia_getIPAM :: "string \<Rightarrow> 'w \<Rightarrow> api_error + ClusterIPAMProviderData list"
  ia_update :: "Cld \<Rightarrow> 'p ClusterIPAMClaimType \<Rightarrow> 'w \<Rightarrow> api_error option \<times> 'w"

definition configNeedsUpdate :: "json_lib \<Rightarrow> string option \<Rightarrow> ClusterIPAMProviderData list \<Rightarrow> values_error + bool" where
  "configNeedsUpdate lib config providerData =
     bindE (case config of None \<Rightarrow> Inr [] | Some raw \<Rightarrow> into_map [] (jl_unmarshal lib raw)) (\<lambda>currentValues.
       Inr (if alookup currentValues ''ipamEnabled'' \<noteq> Some (JBool True) then True
            else list_ex (\<lambda>v. alookup currentValues (ipd_Name v) = None) providerData))"

definition ipam_values :: "ClusterIPAMProviderData list \<Rightarrow> helm_values \<Rightarrow> helm_values" where
  "ipam_values providerData vals = fold (\<lambda>v. AList.update (ipd_Name v) (ipd_JSON v)) providerData (AList.update ''ipamEnabled'' (JBool True) vals)"

text \<open>Once there is a claim: wait until it is bound, then bring its data into the values.\<close>

definition apply_ipam ::
  "json_lib \<Rightarrow> ('p, 'w) ipam_api \<Rightarrow> 'p ClusterIPAMClaim \<Rightarrow> Cld \<Rightarrow> 'p ClusterIPAMClaimType \<Rightarrow> 'w \<Rightarrow> ipam_outcome \<times> Cld \<times> 'p ClusterIPAMClaimType \<times> 'w" where
  "apply_ipam lib api claim cd ict w =
     (if \<not> icl_Bound claim then (IPAMNotReady, cd, ict, w)
      else case ia_getIPAM api (ics_ClusterIPAMRef (icl_Spec claim)) w of
             Inl e \<Rightarrow> (IPAMFailed ''failed to fetch ClusterIPAM'' e, cd, ict, w)
           | Inr providerData \<Rightarrow>
               (case configNeedsUpdate lib (cd_Config cd) providerData of
                  Inl e \<Rightarrow> (IPAMValuesFailed e, cd, ict, w)
                | Inr needsUpdate \<Rightarrow>
                    if \<not> needsUpdate then (IPAMDone, cd, ict, w)
                    else case AddHelmValues lib (ipam_values providerData) cd of
                           Inl e \<Rightarrow> (IPAMValuesFailed e, cd, ict, w)
                         | Inr cd1 \<Rightarrow>
                             (case ia_update api cd1 ict w of
                                (Some e, w') \<Rightarrow> (IPAMFailed ''failed to update ClusterDeployment'' e, cd1, ict, w')
                              | (None, w') \<Rightarrow> (IPAMSpecUpdated, cd1, ict, w'))))"

definition processClusterIPAM ::
  "json_lib \<Rightarrow> ('p, 'w) ipam_api \<Rightarrow> Cld \<Rightarrow> 'p ClusterIPAMClaimType \<Rightarrow> 'w \<Rightarrow> ipam_outcome \<times> Cld \<times> 'p ClusterIPAMClaimType \<times> 'w" where
  "processClusterIPAM lib api cd ict w =
     (if ict_Ref ict = [] \<and> ict_Spec ict = None then (IPAMDone, cd, ict, w)
      else case ict_Spec ict of
             Some spec \<Rightarrow>
               (let claimName = cd_Name cd @ ''-ipam''
                in case ia_createOrUpdateClaim api claimName (spec\<lparr>ics_ClusterIPAMRef := claimName\<rparr>) w of
                     (Inl e, w1) \<Rightarrow> (IPAMFailed ''failed to create or update ClusterIPAMClaim'' e, cd, ict, w1)
                   | (Inr claim, w1) \<Rightarrow>
                       if ict_Ref ict \<noteq> claimName
                       then (let ict1 = ict\<lparr>ict_Ref := claimName\<rparr>
                             in case ia_update api cd ict1 w1 of
                                  (Some e, w2) \<Rightarrow> (IPAMFailed ''failed to update ClusterDeployment'' e, cd, ict1, w2)
                                | (None, w2) \<Rightarrow> (IPAMSpecUpdated, cd, ict1, w2))
                       else apply_ipam lib api claim cd ict w1)
           | None \<Rightarrow>
               (case ia_getClaim api (ict_Ref ict) w of
                  Inl e \<Rightarrow> (IPAMFailed ''failed to fetch ClusterIPAMClaim'' e, cd, ict, w)
                | Inr claim \<Rightarrow>
                    if ics_Cluster (icl_Spec claim) \<noteq> cd_Name cd then (IPAMInvalidClaimRef, cd, ict, w)
                    else apply_ipam lib api claim cd ict w))"

section \<open>Which values are set\<close>

lemma alookup_delete: "alookup (AList.delete k m) k' = (if k' = k then None else alookup m k')"
  by (simp add: alookup_def delete_conv')

definition reserved_values :: "string list" where
  "reserved_values = [''auth'', ''audit'', ''dataSource'', ''clusterIdentity'', ''global'', ''clusterLabels'']"

lemma alookup_fillAuth: "k \<noteq> ''auth'' \<Longrightarrow> alookup (fillClusterAuthenticationValues auth n vals) k = alookup vals k"
  by (simp add: fillClusterAuthenticationValues_def split: option.splits)

lemma alookup_fillAudit: "k \<noteq> ''audit'' \<Longrightarrow> alookup (fillClusterAuditPolicyValues audit n vals) k = alookup vals k"
  by (simp add: fillClusterAuditPolicyValues_def Let_def split: option.splits json.splits)

lemma alookup_fillDataSource: "k \<noteq> ''dataSource'' \<Longrightarrow> alookup (fillDataSourceValues ds vals) k = alookup vals k"
  by (simp add: fillDataSourceValues_def split: option.splits)

lemmas alookup_fill = alookup_fillAuth alookup_fillAudit alookup_fillDataSource

text \<open>The entries under \<open>audit\<close>: all but the reference are the user's.\<close>

lemma fillAudit_keeps:
  assumes "alookup vals ''audit'' = Some (JObj m)"
  shows "\<exists>m'. alookup (fillClusterAuditPolicyValues audit n vals) ''audit'' = Some (JObj m')
     \<and> (\<forall>k. k \<noteq> ''policyRef'' \<longrightarrow> alookup m' k = alookup m k) \<and> (alookup m' ''policyRef'' = None \<longleftrightarrow> audit = None)"
  using assms by (cases audit) (simp_all add: fillClusterAuditPolicyValues_def Let_def alookup_delete)

lemma alookup_fill_values:
  "alookup (fill_values scope n labels vals) k =
     (if k = ''clusterIdentity'' then Some (identity_json (vs_identity scope))
      else if k = ''global'' \<and> list_ex (\<lambda>(_, v). v \<noteq> JStr []) (global_json (vs_global scope)) then Some (JObj (global_json (vs_global scope)))
      else if k = ''clusterLabels'' \<and> alookup vals k = None then Some (labels_json labels)
      else alookup (fillDataSourceValues (vs_dataSource scope) (fillClusterAuditPolicyValues (vs_audit scope) n
             (fillClusterAuthenticationValues (vs_auth scope) n vals))) k)"
  by (auto simp: fill_values_def Let_def alookup_fill)

section \<open>Values that settle\<close>

definition json_laws :: "json_lib \<Rightarrow> bool" where
  "json_laws lib \<longleftrightarrow> (\<forall>m b. jl_marshal lib (JObj m) = Inr b \<longrightarrow> jl_unmarshal lib b = Inr (JObj m))"

lemma alookup_ipam_values:
  "alookup (ipam_values ds vals) k = (case map_of (rev (map (\<lambda>v. (ipd_Name v, ipd_JSON v)) ds)) k of
     Some j \<Rightarrow> Some j | None \<Rightarrow> if k = ''ipamEnabled'' then Some (JBool True) else alookup vals k)"
proof -
  have "alookup (fold (\<lambda>v. AList.update (ipd_Name v) (ipd_JSON v)) ds acc) k =
      (case map_of (rev (map (\<lambda>v. (ipd_Name v, ipd_JSON v)) ds)) k of Some j \<Rightarrow> Some j | None \<Rightarrow> alookup acc k)" for acc
    by (induction ds arbitrary: acc) (auto simp: map_of_append map_add_def split: option.splits)
  then show ?thesis by (auto simp: ipam_values_def split: option.splits)
qed

lemma ipam_values_present: "v \<in> set ds \<Longrightarrow> alookup (ipam_values ds vals) (ipd_Name v) \<noteq> None"
proof -
  assume "v \<in> set ds"
  then have "map_of (rev (map (\<lambda>v. (ipd_Name v, ipd_JSON v)) ds)) (ipd_Name v) \<noteq> None"
    unfolding map_of_eq_None_iff by (auto simp: image_iff)
  then show ?thesis by (auto simp: alookup_ipam_values split: option.splits)
qed

text \<open>No data of a provider is called \<open>ipamEnabled\<close>.\<close>

lemma configNeedsUpdate_after:
  assumes laws: "json_laws lib" and add: "AddHelmValues lib (ipam_values ds) cd = Inr cd'"
    and names: "''ipamEnabled'' \<notin> ipd_Name ` set ds"
  shows "configNeedsUpdate lib (cd_Config cd') ds = Inr False"
proof -
  from add obtain vals b where b: "jl_marshal lib (JObj (ipam_values ds vals)) = Inr b" and cd': "cd' = cd\<lparr>cd_Config := Some b\<rparr>"
    by (auto simp: AddHelmValues_def SetHelmValues_def result_simps)
  from laws b have "jl_unmarshal lib b = Inr (JObj (ipam_values ds vals))" unfolding json_laws_def by blast
  moreover have "alookup (ipam_values ds vals) ''ipamEnabled'' = Some (JBool True)"
    using names by (auto simp: alookup_ipam_values map_of_eq_None_iff image_iff split: option.splits dest!: map_of_SomeD)
  ultimately show ?thesis using ipam_values_present
    by (auto simp: configNeedsUpdate_def into_map_def cd' list_ex_iff)
qed

lemma apply_ipam_updated:
  assumes "apply_ipam lib api claim cd ict w = (IPAMSpecUpdated, cd', ict', w')"
  obtains ds where "ia_getIPAM api (ics_ClusterIPAMRef (icl_Spec claim)) w = Inr ds" "AddHelmValues lib (ipam_values ds) cd = Inr cd'" "ict' = ict"
    "configNeedsUpdate lib (cd_Config cd) ds = Inr True"
  using assms by (auto simp: apply_ipam_def split: if_splits sum.splits prod.splits option.splits)

text \<open>An update is of the reference to the claim, or of the values.\<close>

lemma processClusterIPAM_updated:
  assumes run: "processClusterIPAM lib api cd ict w = (IPAMSpecUpdated, cd', ict', w')"
  obtains (reference) "cd' = cd" "ict_Spec ict \<noteq> None" "ict' = ict\<lparr>ict_Ref := cd_Name cd @ ''-ipam''\<rparr>" "ict_Ref ict \<noteq> cd_Name cd @ ''-ipam''"
    | (vals) n u ds where "ict' = ict" "ict_Spec ict \<noteq> None \<longrightarrow> ict_Ref ict = cd_Name cd @ ''-ipam''" "ia_getIPAM api n u = Inr ds"
        "configNeedsUpdate lib (cd_Config cd) ds = Inr True" "AddHelmValues lib (ipam_values ds) cd = Inr cd'"
proof (cases "ict_Spec ict")
  case None
  with run obtain claim where "apply_ipam lib api claim cd ict w = (IPAMSpecUpdated, cd', ict', w')"
    by (auto simp: processClusterIPAM_def split: if_splits sum.splits)
  with None vals show thesis by (auto elim: apply_ipam_updated)
next
  case (Some spec)
  let ?n = "cd_Name cd @ ''-ipam''"
  show thesis
  proof (cases "ict_Ref ict = ?n")
    case True
    with run Some obtain claim w1 where "apply_ipam lib api claim cd ict w1 = (IPAMSpecUpdated, cd', ict', w')"
      by (auto simp: processClusterIPAM_def Let_def split: if_splits sum.splits prod.splits)
    with True vals show thesis by (auto elim: apply_ipam_updated)
  next
    case False
    with run Some have "cd' = cd" "ict' = ict\<lparr>ict_Ref := ?n\<rparr>"
      by (auto simp: processClusterIPAM_def Let_def split: if_splits sum.splits prod.splits option.splits)
    with False Some reference show thesis by auto
  qed
qed

lemma AddHelmValues_name: "AddHelmValues lib f cd = Inr cd' \<Longrightarrow> cd_Name cd' = cd_Name cd"
  by (auto simp: AddHelmValues_def SetHelmValues_def result_simps)

section \<open>Theorems\<close>

text \<open>
  Filling in the Helm values of a cluster changes no value of the user outside the reserved names;
  labels the user gives win over those of the object, and of the user's audit settings only the
  reference to the policy is replaced, or removed when there is no policy.
\<close>

theorem fillHelmValues_keeps:
  assumes run: "fillHelmValues lib scope cd = Inr cd'" and vals: "HelmValues lib cd = Inr vals"
  shows "\<exists>vals' b. jl_marshal lib (JObj vals') = Inr b \<and> cd' = cd\<lparr>cd_Config := Some b\<rparr>
     \<and> (\<forall>k. k \<notin> set reserved_values \<longrightarrow> alookup vals' k = alookup vals k)
     \<and> (\<forall>l. alookup vals ''clusterLabels'' = Some l \<longrightarrow> alookup vals' ''clusterLabels'' = Some l)
     \<and> (\<forall>m. alookup vals ''audit'' = Some (JObj m) \<longrightarrow> (\<exists>m'. alookup vals' ''audit'' = Some (JObj m')
          \<and> (\<forall>k. k \<noteq> ''policyRef'' \<longrightarrow> alookup m' k = alookup m k) \<and> (alookup m' ''policyRef'' = None \<longleftrightarrow> vs_audit scope = None)))"
proof -
  let ?v = "fill_values scope (cd_Name cd) (cd_Labels cd) vals"
  from run vals obtain b where b: "jl_marshal lib (JObj ?v) = Inr b" "cd' = cd\<lparr>cd_Config := Some b\<rparr>"
    by (auto simp: fillHelmValues_def AddHelmValues_def SetHelmValues_def result_simps)
  moreover have "\<forall>k. k \<notin> set reserved_values \<longrightarrow> alookup ?v k = alookup vals k"
    by (auto simp: alookup_fill_values reserved_values_def alookup_fill)
  moreover have "\<forall>l. alookup vals ''clusterLabels'' = Some l \<longrightarrow> alookup ?v ''clusterLabels'' = Some l"
    by (simp add: alookup_fill_values alookup_fill)
  moreover have "\<exists>m'. alookup ?v ''audit'' = Some (JObj m') \<and> (\<forall>k. k \<noteq> ''policyRef'' \<longrightarrow> alookup m' k = alookup m k)
      \<and> (alookup m' ''policyRef'' = None \<longleftrightarrow> vs_audit scope = None)" if "alookup vals ''audit'' = Some (JObj m)" for m
  proof -
    let ?w = "fillClusterAuthenticationValues (vs_auth scope) (cd_Name cd) vals"
    have "alookup ?w ''audit'' = Some (JObj m)" using that by (simp add: alookup_fill)
    from fillAudit_keeps [OF this, of "vs_audit scope" "cd_Name cd"] show ?thesis by (simp add: alookup_fill_values alookup_fill)
  qed
  ultimately show ?thesis by blast
qed

text \<open>
  Bringing IP address management into a ClusterDeployment settles: as long as the data of the
  provider stays the same, at most two runs update the specification, one the reference to the claim
  and one the values, and the next does not.
\<close>

theorem ipam_settles:
  assumes laws: "json_laws lib" and same: "\<And>n u d. ia_getIPAM api n u = Inr d \<Longrightarrow> d = ds" and names: "''ipamEnabled'' \<notin> ipd_Name ` set ds"
    and run1: "processClusterIPAM lib api cd ict w = (IPAMSpecUpdated, cd1, ict1, w1)"
    and run2: "processClusterIPAM lib api cd1 ict1 u1 = (IPAMSpecUpdated, cd2, ict2, w2)"
    and run3: "processClusterIPAM lib api cd2 ict2 u2 = (outcome, cd3, ict3, w3)"
  shows "outcome \<noteq> IPAMSpecUpdated"
proof
  assume "outcome = IPAMSpecUpdated"
  have quiet: "configNeedsUpdate lib (cd_Config b) ds = Inr False" if "AddHelmValues lib (ipam_values ds) a = Inr b" for a b :: Cld
    by (rule configNeedsUpdate_after [OF laws that names])
  from run1 have first: "cd1 = cd \<and> ict_Spec ict1 \<noteq> None \<and> ict_Ref ict1 = cd_Name cd1 @ ''-ipam''"
  proof (cases rule: processClusterIPAM_updated)
    case (vals n u d)
    with same quiet have "configNeedsUpdate lib (cd_Config cd1) ds = Inr False" by blast
    note no = this
    from run2 have False
    proof (cases rule: processClusterIPAM_updated)
      case reference
      with vals AddHelmValues_name [OF vals(5)] show ?thesis by simp
    next
      case (vals m v d')
      with same [OF vals(3)] no show ?thesis by simp
    qed
    then show ?thesis ..
  qed auto
  from run2 have second: "ict2 = ict1 \<and> AddHelmValues lib (ipam_values ds) cd1 = Inr cd2"
  proof (cases rule: processClusterIPAM_updated)
    case reference
    with first show ?thesis by simp
  next
    case (vals n u d)
    with same [OF vals(3)] show ?thesis by simp
  qed
  from run3 [unfolded \<open>outcome = IPAMSpecUpdated\<close>] show False
  proof (cases rule: processClusterIPAM_updated)
    case reference
    with first second AddHelmValues_name [OF second [THEN conjunct2]] show ?thesis by simp
  next
    case (vals n u d)
    with same [OF vals(3)] quiet [OF second [THEN conjunct2]] show ?thesis by simp
  qed
qed

section \<open>Examples\<close>

text \<open>A printer that knows a few objects, and the parser for what it prints.\<close>

definition example_objects :: "(json \<times> string) list" where
  "example_objects = map (\<lambda>(vals, text). (JObj vals, text))
     [([(''ipamEnabled'', JBool True), (''pool'', JStr ''10.0.0.0/24'')], ''ipam''),
      ([(''workers'', JNum 3)], ''plain''),
      ([(''workers'', JNum 3), (''clusterIdentity'', identity_json \<lparr>idr_APIVersion = ''v1'', idr_Kind = ''Secret'', idr_Name = ''s'', idr_Namespace = ''dev''\<rparr>),
        (''clusterLabels'', JNull)], ''filled'')]"

definition example_parse :: "string \<Rightarrow> string + json" where
  "example_parse t = (case find (\<lambda>(_, t'). t' = t) example_objects of Some (j, _) \<Rightarrow> Inr j | None \<Rightarrow> Inl ''syntax error'')"

definition example_json :: json_lib where
  "example_json = \<lparr>jl_unmarshal = example_parse, jl_unmarshalYAML = example_parse,
     jl_marshal = (\<lambda>j. case alookup example_objects j of Some t \<Rightarrow> Inr t | None \<Rightarrow> Inl ''unsupported value'')\<rparr>"

lemma example_json_laws: "json_laws example_json"
  by (auto simp: json_laws_def example_json_def example_parse_def example_objects_def alookup_def split: if_splits)

definition example_ipam :: "(nat, nat) ipam_api" where
  "example_ipam = \<lparr>ia_createOrUpdateClaim = (\<lambda>n spec w. (Inr \<lparr>icl_Spec = spec, icl_Bound = True\<rparr>, w)), ia_getClaim = (\<lambda>_ _. Inl NotFound),
     ia_getIPAM = (\<lambda>_ _. Inr [\<lparr>ipd_Name = ''pool'', ipd_JSON = JStr ''10.0.0.0/24''\<rparr>]), ia_update = (\<lambda>_ _ w. (None, Suc w))\<rparr>"

definition example_claim_type :: "nat ClusterIPAMClaimType" where
  "example_claim_type = \<lparr>ict_Ref = [], ict_Spec = Some \<lparr>ics_Cluster = ''cd'', ics_ClusterIPAMRef = [], ics_Networks = 0\<rparr>\<rparr>"

definition example_ipam_run where
  "example_ipam_run s = (case s of (_, cd, ict, w) \<Rightarrow> processClusterIPAM example_json example_ipam cd ict w)"

abbreviation example_ipam_start where
  "example_ipam_start \<equiv> (IPAMDone, example_cld, example_claim_type, 0)"

lemma example_ipam_runs:
  "fst (example_ipam_run example_ipam_start) = IPAMSpecUpdated"
  "fst (example_ipam_run (example_ipam_run example_ipam_start)) = IPAMSpecUpdated"
  by code_simp+

theorem ipam_settles_witness:
  "fst (example_ipam_run (example_ipam_run (example_ipam_run example_ipam_start))) \<noteq> IPAMSpecUpdated"
proof -
  obtain cd1 ict1 w1 where one: "example_ipam_run example_ipam_start = (IPAMSpecUpdated, cd1, ict1, w1)"
    using example_ipam_runs(1) by (metis prod.collapse)
  obtain cd2 ict2 w2 where two: "example_ipam_run (IPAMSpecUpdated, cd1, ict1, w1) = (IPAMSpecUpdated, cd2, ict2, w2)"
    using example_ipam_runs(2) unfolding one by (metis prod.collapse)
  obtain r cd3 ict3 w3 where three: "example_ipam_run (IPAMSpecUpdated, cd2, ict2, w2) = (r, cd3, ict3, w3)" by (metis prod.collapse)
  have same: "ia_getIPAM example_ipam n u = Inr d \<Longrightarrow> d = [\<lparr>ipd_Name = ''pool'', ipd_JSON = JStr ''10.0.0.0/24''\<rparr>]" for n u d
    by (simp add: example_ipam_def)
  have "r \<noteq> IPAMSpecUpdated"
    by (rule ipam_settles [OF example_json_laws same _ one [unfolded example_ipam_run_def prod.case] two [unfolded example_ipam_run_def prod.case]
          three [unfolded example_ipam_run_def prod.case]]) simp_all
  with one two three show ?thesis by simp
qed

definition example_values_scope :: values_scope where
  "example_values_scope = \<lparr>vs_auth = None, vs_audit = None, vs_dataSource = None,
     vs_identity = \<lparr>idr_APIVersion = ''v1'', idr_Kind = ''Secret'', idr_Name = ''s'', idr_Namespace = ''dev''\<rparr>,
     vs_global = \<lparr>gv_Registry = [], gv_K0sURL = [], gv_RegistryCertSecret = [], gv_K0sURLCertSecret = [], gv_RegistryCredentialSecret = []\<rparr>\<rparr>"

theorem fillHelmValues_keeps_witness:
  "\<exists>vals' b. jl_marshal example_json (JObj vals') = Inr b \<and> alookup vals' ''workers'' = Some (JNum 3)"
proof -
  let ?cd = "example_cld\<lparr>cd_Config := Some ''plain''\<rparr>"
  have vals: "HelmValues example_json ?cd = Inr [(''workers'', JNum 3)]" by code_simp
  obtain cd' where run: "fillHelmValues example_json example_values_scope ?cd = Inr cd'"
  proof -
    have "\<not> isl (fillHelmValues example_json example_values_scope ?cd)" by code_simp
    then show thesis using that by (cases "fillHelmValues example_json example_values_scope ?cd") auto
  qed
  have "''workers'' \<notin> set reserved_values" by code_simp
  moreover have "alookup [(''workers'', JNum 3)] ''workers'' = Some (JNum 3)" by code_simp
  ultimately show ?thesis using fillHelmValues_keeps [OF run vals] by metis
qed

end
