(* ===== verification/ClusterResources.thy ===== *)
theory ClusterResources
  imports ClusterRBAC ClusterValues ProviderContracts
begin

text \<open>
  The objects a ClusterDeployment needs before its Helm release: copies of Secrets
  (\<^verbatim>\<open>internal/util/kube/secrets.go\<close>), the configuration of authentication and audit, and the data source
  (\<^verbatim>\<open>internal/controller/clusterdeployment_controller.go\<close>).
\<close>

section \<open>Secrets\<close>

record Secret =
  sec_Namespace :: string
  sec_Name :: string
  sec_Data :: "(string \<times> string) list"
  sec_Labels :: "(string \<times> string) list"
  sec_OwnerReferences :: "string list"
  sec_Finalizers :: "string list"
  sec_UID :: string

abbreviation sec_key :: "Secret \<Rightarrow> ObjectKey" where
  "sec_key s \<equiv> ObjectKey (sec_Namespace s) (sec_Name s)"

text \<open>
  A client of one cluster, for namespaces and for Secrets (or ConfigMaps). \<open>sa_createOrUpdate\<close> is
  \<open>controllerutil.CreateOrUpdate\<close> with the function that sets the fields.
\<close>

record 'w secret_api =
  sa_getNamespace :: "string \<Rightarrow> 'w \<Rightarrow> api_error option"
  sa_createNamespace :: "string \<Rightarrow> 'w \<Rightarrow> api_error option \<times> 'w"
  sa_get :: "ObjectKey \<Rightarrow> 'w \<Rightarrow> api_error + Secret"
  sa_create :: "Secret \<Rightarrow> 'w \<Rightarrow> api_error option \<times> 'w"
  sa_delete :: "ObjectKey \<Rightarrow> 'w \<Rightarrow> api_error option \<times> 'w"
  sa_createOrUpdate :: "ObjectKey \<Rightarrow> (Secret \<Rightarrow> string + Secret) \<Rightarrow> 'w \<Rightarrow> string option \<times> 'w"

datatype resource_error =
    NamespaceFailed string api_error
  | SecretGetFailed ObjectKey api_error
  | SecretCreateFailed ObjectKey api_error
  | SetOwnerReferenceFailed string
  | KubeconfigRefInvalid string
  | ConfigDeleteFailed ObjectKey api_error
  | ConfigUnavailable string
  | CapiOwnerFailed cld_rbac_error
  | CreateOrUpdateFailed string
  | CDSGetFailed api_error
  | CDSUpdateFailed api_error
  | CDSCreateFailed api_error
  | HelmValuesFailed values_error

definition ensure_namespace :: "'w secret_api \<Rightarrow> string \<Rightarrow> 'w \<Rightarrow> resource_error option \<times> 'w" where
  "ensure_namespace api namespace w =
     (case sa_getNamespace api namespace w of
        None \<Rightarrow> (None, w)
      | Some e \<Rightarrow> if e \<noteq> NotFound then (Some (NamespaceFailed namespace e), w)
                  else case sa_createNamespace api namespace w of (e', w') \<Rightarrow> (map_option (NamespaceFailed namespace) e', w'))"

text \<open>\<open>owner\<close> sets the owner reference, if there is an owner.\<close>

definition scrubbed_secret :: "string \<Rightarrow> string \<Rightarrow> Secret \<Rightarrow> Secret" where
  "scrubbed_secret toNamespace nameOverride s =
     s\<lparr>sec_Namespace := toNamespace, sec_Name := (if nameOverride \<noteq> [] then nameOverride else sec_Name s), sec_OwnerReferences := [],
       sec_Finalizers := [], sec_UID := []\<rparr>"

definition CopySecret ::
  "'w secret_api \<Rightarrow> 'w secret_api \<Rightarrow> ObjectKey \<Rightarrow> string \<Rightarrow> string \<Rightarrow> (Secret \<Rightarrow> string + Secret) option \<Rightarrow> (string \<times> string) list \<Rightarrow> 'w
     \<Rightarrow> resource_error option \<times> 'w" where
  "CopySecret source target key toNamespace nameOverride owner extraLabels w =
     (if ok_Name key = [] then (None, w)
      else case ensure_namespace target toNamespace w of
             (Some e, w1) \<Rightarrow> (Some e, w1)
           | (None, w1) \<Rightarrow>
               (case sa_get source key w1 of
                  Inl e \<Rightarrow> (Some (SecretGetFailed key e), w1)
                | Inr secret \<Rightarrow>
                    (let newSecret = scrubbed_secret toNamespace nameOverride secret
                     in case (case owner of None \<Rightarrow> Inr newSecret | Some set_owner \<Rightarrow> set_owner newSecret) of
                          Inl e \<Rightarrow> (Some (SetOwnerReferenceFailed e), w1)
                        | Inr owned \<Rightarrow>
                            (let labelled = owned\<lparr>sec_Labels := fold (\<lambda>(k, v). AList.update k v) extraLabels (sec_Labels owned)\<rparr>
                             in case sa_create target labelled w1 of
                                  (None, w2) \<Rightarrow> (None, w2)
                                | (Some e, w2) \<Rightarrow> (if e = AlreadyExists then None else Some (SecretCreateFailed (sec_key labelled) e), w2)))))"

fun copy_secrets :: "'w secret_api \<Rightarrow> 'w secret_api \<Rightarrow> string \<Rightarrow> string \<Rightarrow> string list \<Rightarrow> 'w \<Rightarrow> resource_error option \<times> 'w" where
  "copy_secrets source target from to [] w = (None, w)"
| "copy_secrets source target from to (name # names) w =
     (case CopySecret source target (ObjectKey from name) to [] None [] w of
        (Some e, w') \<Rightarrow> (Some e, w')
      | (None, w') \<Rightarrow> copy_secrets source target from to names w')"

text \<open>\<open>names\<close> are the three Secrets of the controller's settings, empty ones included.\<close>

definition handleCertificateSecrets ::
  "'w secret_api \<Rightarrow> 'w secret_api \<Rightarrow> string \<Rightarrow> string list \<Rightarrow> Cld \<Rightarrow> 'w \<Rightarrow> resource_error option \<times> 'w" where
  "handleCertificateSecrets mgmt rgn systemNamespace names cd w =
     (if cd_Namespace cd = systemNamespace then (None, w) else copy_secrets mgmt rgn systemNamespace (cd_Namespace cd) names w)"

section \<open>The kubeconfig of a region\<close>

text \<open>Name and key of the Secret.\<close>

definition GetRegionalKubeconfigSecretRef :: "Region \<Rightarrow> string + string \<times> string" where
  "GetRegionalKubeconfigSecretRef region =
     (case (rgn_KubeConfig region, rgn_ClusterDeployment region) of
        (None, None) \<Rightarrow> Inl ''either spec.kubeConfig or spec.clusterDeployment must be set''
      | (Some _, Some _) \<Rightarrow> Inl ''only one of spec.kubeConfig and spec.clusterDeployment is allowed''
      | (Some ref, None) \<Rightarrow> Inr ref
      | (None, Some cld) \<Rightarrow> Inr (ok_Name (GetKubeconfigSecretKey (ObjectKey [] (ok_Name cld))), ''value''))"

text \<open>\<open>region\<close> is the region of the scope; \<open>owner\<close> makes the ClusterDeployment the owner of the copy.\<close>

definition copyRegionalKubeConfigSecret ::
  "'w secret_api \<Rightarrow> string \<Rightarrow> string \<Rightarrow> Region option \<Rightarrow> (Secret \<Rightarrow> string + Secret) \<Rightarrow> Cld \<Rightarrow> 'w \<Rightarrow> resource_error option \<times> 'w" where
  "copyRegionalKubeConfigSecret mgmt systemNamespace credRegion region owner cd w =
     (case region of
        None \<Rightarrow> (None, w)
      | Some rgn \<Rightarrow>
          if credRegion = [] \<or> cd_Namespace cd = systemNamespace then (None, w)
          else case GetRegionalKubeconfigSecretRef rgn of
                 Inl e \<Rightarrow> (Some (KubeconfigRefInvalid e), w)
               | Inr (name, _) \<Rightarrow>
                   (let (nameOverride, sourceName) =
                      (case rgn_ClusterDeployment rgn of None \<Rightarrow> ([], name) | Some cldRef \<Rightarrow> (name, ok_Namespace cldRef @ ''.'' @ name))
                    in CopySecret mgmt mgmt (ObjectKey systemNamespace sourceName) (cd_Namespace cd) nameOverride (Some owner) [] w))"

section \<open>Authentication and audit\<close>

definition ClusterAuthenticationReadyCondition :: string where "ClusterAuthenticationReadyCondition = ''ClusterAuthenticationReady''"
definition ClusterAuditPolicyReadyCondition :: string where "ClusterAuditPolicyReadyCondition = ''ClusterAuditPolicyReady''"

text \<open>
  The common part: without a configuration the object is deleted if the condition tells that there
  may be one; with one the object is written. \<open>config\<close> is what is to be stored, or why it could not be
  computed, \<open>hash\<close> the short hash of it, and \<open>owner\<close> sets the CAPI Cluster as an owner.
\<close>

definition ensure_config ::
  "cond_lib \<Rightarrow> 'w secret_api \<Rightarrow> ('w \<Rightarrow> ('s, 'v) rbac_env) \<Rightarrow> (Secret \<Rightarrow> string + Secret) \<Rightarrow> string \<Rightarrow> string \<Rightarrow> ObjectKey
     \<Rightarrow> (string + string) option \<Rightarrow> (string \<Rightarrow> string) \<Rightarrow> Cld \<Rightarrow> 'w \<Rightarrow> (resource_error + string option) \<times> Cld \<times> 'w" where
  "ensure_config lib api rbac owner condition dataKey key config hash cd w =
     (case config of
        None \<Rightarrow>
          if find_condition (cld_Conditions cd) condition = None then (Inr None, cd, w)
          else (case sa_delete api key w of (e, w') \<Rightarrow>
                  if e \<noteq> None \<and> e \<noteq> Some NotFound then (Inl (ConfigDeleteFailed key (the e)), cd, w')
                  else (Inr None, cd\<lparr>cld_Conditions := cnd_remove lib (cld_Conditions cd) condition\<rparr>, w'))
      | Some (Inl e) \<Rightarrow> (Inl (ConfigUnavailable e), cd, w)
      | Some (Inr text) \<Rightarrow>
          (case getPartialCapiCluster (rbac w) of
             Inl e \<Rightarrow> (Inl (CapiOwnerFailed e), cd, w)
           | Inr has_owner \<Rightarrow>
               (case sa_createOrUpdate api key (\<lambda>s. let s' = s\<lparr>sec_Data := [(dataKey, text)]\<rparr> in if has_owner then owner s' else Inr s') w of
                  (Some e, w') \<Rightarrow> (Inl (CreateOrUpdateFailed e), cd, w')
                | (None, w') \<Rightarrow> (Inr (Some (hash text)), cld_setCondition lib cd condition SucceededReason ConditionTrue [], w'))))"

definition ensureAuthConfigSecret ::
  "cond_lib \<Rightarrow> 'w secret_api \<Rightarrow> ('w \<Rightarrow> ('s, 'v) rbac_env) \<Rightarrow> (Secret \<Rightarrow> string + Secret) \<Rightarrow> (string + string) option \<Rightarrow> (string \<Rightarrow> string) \<Rightarrow> Cld \<Rightarrow> 'w
     \<Rightarrow> (resource_error + string option) \<times> Cld \<times> 'w" where
  "ensureAuthConfigSecret lib rgn rbac owner authConf hash cd w =
     ensure_config lib rgn rbac owner ClusterAuthenticationReadyCondition ''config'' (ObjectKey (cd_Namespace cd) (getAuthConfigSecretName (cd_Name cd)))
       authConf hash cd w"

definition ensureAuditPolicyConfigMap ::
  "cond_lib \<Rightarrow> 'w secret_api \<Rightarrow> ('w \<Rightarrow> ('s, 'v) rbac_env) \<Rightarrow> (Secret \<Rightarrow> string + Secret) \<Rightarrow> (string + string) option \<Rightarrow> (string \<Rightarrow> string) \<Rightarrow> Cld \<Rightarrow> 'w
     \<Rightarrow> (resource_error + string option) \<times> Cld \<times> 'w" where
  "ensureAuditPolicyConfigMap lib rgn rbac owner policy hash cd w =
     ensure_config lib rgn rbac owner ClusterAuditPolicyReadyCondition ''policy'' (ObjectKey (cd_Namespace cd) (getAuditPolicyConfigMapName (cd_Name cd)))
       policy hash cd w"

section \<open>Data sources\<close>

definition ClusterDataSourceReadyCondition :: string where "ClusterDataSourceReadyCondition = ''ClusterDataSourceReady''"

record ClusterDataSource =
  cds_Generation :: int
  cds_Schema :: string
  cds_DataSource :: string
  cds_KineDataSourceSecret :: string
  cds_CASecret :: string
  cds_Error :: string
  cds_ObservedGeneration :: int
  cds_Ready :: bool

text \<open>
  \<open>da_create\<close> stores a new ClusterDataSource with the given schema for the data source, owned by the
  ClusterDeployment; \<open>da_random\<close> is the random suffix.
\<close>

record 'w data_api =
  da_get :: "'w \<Rightarrow> api_error + ClusterDataSource"
  da_update :: "ClusterDataSource \<Rightarrow> 'w \<Rightarrow> api_error option \<times> 'w"
  da_setOwner :: "string option"
  da_create :: "string \<Rightarrow> string \<Rightarrow> 'w \<Rightarrow> api_error option \<times> 'w"
  da_random :: string

text \<open>\<open>strings.ReplaceAll(s, "-", "_")\<close>.\<close>

definition schema_name :: "Cld \<Rightarrow> string \<Rightarrow> string" where
  "schema_name cd suffix = map (\<lambda>c. if c = CHR ''-'' then CHR ''_'' else c) (cd_Namespace cd @ ''_'' @ cd_Name cd @ ''_'' @ suffix)"

definition cds_current :: "ClusterDataSource \<Rightarrow> bool" where
  "cds_current cds \<longleftrightarrow> cds_Ready cds \<and> cds_Error cds = [] \<and> cds_ObservedGeneration cds = cds_Generation cds"

fun regional_secrets ::
  "'w secret_api \<Rightarrow> 'w secret_api \<Rightarrow> (Secret \<Rightarrow> string + Secret) option \<Rightarrow> string \<Rightarrow> string list \<Rightarrow> 'w \<Rightarrow> resource_error option \<times> 'w" where
  "regional_secrets mgmt rgn owner namespace [] w = (None, w)"
| "regional_secrets mgmt rgn owner namespace (name # names) w =
     (if name = [] then regional_secrets mgmt rgn owner namespace names w
      else let key = ObjectKey namespace name in
           case sa_createOrUpdate rgn key (\<lambda>s.
                  case sa_get mgmt key w of
                    Inl e \<Rightarrow> Inl ''failed to get Secret on the mgmt cluster''
                  | Inr m \<Rightarrow> bindE (case owner of None \<Rightarrow> Inr s | Some set_owner \<Rightarrow> set_owner s) (\<lambda>s'. Inr (s'\<lparr>sec_Data := sec_Data m\<rparr>))) w of
             (Some e, w') \<Rightarrow> (Some (CreateOrUpdateFailed e), w')
           | (None, w') \<Rightarrow> regional_secrets mgmt rgn owner namespace names w')"

text \<open>The result: an error, or whether to requeue.\<close>

definition ensureClusterDataSourceRegionalSecrets ::
  "'w secret_api \<Rightarrow> 'w secret_api \<Rightarrow> ('w \<Rightarrow> ('s, 'v) rbac_env) \<Rightarrow> (Secret \<Rightarrow> string + Secret) \<Rightarrow> bool \<Rightarrow> ClusterDataSource \<Rightarrow> Cld \<Rightarrow> 'w
     \<Rightarrow> (resource_error + bool) \<times> 'w" where
  "ensureClusterDataSourceRegionalSecrets mgmt rgn rbac owner regional cds cd w =
     (if \<not> cds_current cds then (Inr True, w)
      else if \<not> regional then (Inr False, w)
      else case ensure_namespace rgn (cd_Namespace cd) w of
             (Some e, w1) \<Rightarrow> (Inl e, w1)
           | (None, w1) \<Rightarrow>
               (case getPartialCapiCluster (rbac w1) of
                  Inl e \<Rightarrow> (Inl (CapiOwnerFailed e), w1)
                | Inr exists \<Rightarrow>
                    (case regional_secrets mgmt rgn (if exists then Some owner else None) (cd_Namespace cd) [cds_CASecret cds, cds_KineDataSourceSecret cds] w1 of
                       (Some e, w2) \<Rightarrow> (Inl e, w2)
                     | (None, w2) \<Rightarrow> (Inr False, w2))))"

definition ensure_cds ::
  "'w secret_api \<Rightarrow> 'w secret_api \<Rightarrow> 'w data_api \<Rightarrow> ('w \<Rightarrow> ('s, 'v) rbac_env) \<Rightarrow> (Secret \<Rightarrow> string + Secret) \<Rightarrow> bool \<Rightarrow> Cld \<Rightarrow> 'w
     \<Rightarrow> (resource_error + bool) \<times> ClusterDataSource option \<times> 'w" where
  "ensure_cds mgmt rgn da rbac owner regional cd w =
     (case da_get da w of
        Inr cds \<Rightarrow>
          if cds_DataSource cds \<noteq> cd_DataSource cd
          then (case da_update da (cds\<lparr>cds_DataSource := cd_DataSource cd\<rparr>) w of
                  (Some e, w') \<Rightarrow> (Inl (CDSUpdateFailed e), None, w')
                | (None, w') \<Rightarrow> (Inr True, None, w'))
          else (case ensureClusterDataSourceRegionalSecrets mgmt rgn rbac owner regional cds cd w of (r, w') \<Rightarrow> (r, Some cds, w'))
      | Inl e \<Rightarrow>
          if e \<noteq> NotFound then (Inl (CDSGetFailed e), None, w)
          else case da_setOwner da of
                 Some err \<Rightarrow> (Inl (SetOwnerReferenceFailed err), None, w)
               | None \<Rightarrow>
                   (case da_create da (schema_name cd (da_random da)) (cd_DataSource cd) w of
                      (Some e', w') \<Rightarrow> (if e' = AlreadyExists then Inr True else Inl (CDSCreateFailed e'), None, w')
                    | (None, w') \<Rightarrow> (Inr True, None, w')))"

text \<open>\<open>kine\<close>: the scope has the DataSource. The deferred function reports readiness.\<close>

definition ensureDataSourceReferences ::
  "cond_lib \<Rightarrow> 'w secret_api \<Rightarrow> 'w secret_api \<Rightarrow> 'w data_api \<Rightarrow> ('w \<Rightarrow> ('s, 'v) rbac_env) \<Rightarrow> (Secret \<Rightarrow> string + Secret) \<Rightarrow> bool \<Rightarrow> bool \<Rightarrow> Cld \<Rightarrow> 'w
     \<Rightarrow> (resource_error + bool) \<times> ClusterDataSource option \<times> Cld \<times> 'w" where
  "ensureDataSourceReferences lib mgmt rgn da rbac owner regional kine cd w =
     (if \<not> kine \<or> cd_DataSource cd = [] then (Inr False, None, cd, w)
      else case ensure_cds mgmt rgn da rbac owner regional cd w of
             (r, cds, w') \<Rightarrow>
               (r, cds,
                if r = Inr False then cld_setCondition lib cd ClusterDataSourceReadyCondition SucceededReason ConditionTrue [] else cd, w'))"

section \<open>Copies\<close>

text \<open>
  What is assumed of a cluster: \<open>secrets\<close> are its Secrets. A creation that succeeds stores the Secret
  where there was none, one that finds it existing changes nothing, one that fails otherwise stores it
  or not; a namespace is created without touching Secrets.
\<close>

definition secret_laws :: "'w secret_api \<Rightarrow> ('w \<Rightarrow> ObjectKey \<rightharpoonup> Secret) \<Rightarrow> bool" where
  "secret_laws api secrets \<longleftrightarrow>
     (\<forall>ns w e w'. sa_createNamespace api ns w = (e, w') \<longrightarrow> secrets w' = secrets w)
   \<and> (\<forall>s w w'. sa_create api s w = (None, w') \<longrightarrow> secrets w (sec_key s) = None \<and> secrets w' = (secrets w)(sec_key s \<mapsto> s))
   \<and> (\<forall>s w w'. sa_create api s w = (Some AlreadyExists, w') \<longrightarrow> secrets w (sec_key s) \<noteq> None \<and> secrets w' = secrets w)
   \<and> (\<forall>s w e w'. sa_create api s w = (Some e, w') \<longrightarrow> secrets w' = secrets w
        \<or> secrets w (sec_key s) = None \<and> secrets w' = (secrets w)(sec_key s \<mapsto> s))"

definition only_adds :: "('w \<Rightarrow> ObjectKey \<rightharpoonup> Secret) \<Rightarrow> 'w \<Rightarrow> 'w \<Rightarrow> bool" where
  "only_adds secrets w w' \<longleftrightarrow> (\<forall>k s. secrets w k = Some s \<longrightarrow> secrets w' k = Some s)"

lemma only_adds_refl [simp]: "only_adds secrets w w"
  by (simp add: only_adds_def)

lemma only_adds_trans: "only_adds secrets a b \<Longrightarrow> only_adds secrets b c \<Longrightarrow> only_adds secrets a c"
  by (simp add: only_adds_def)

lemma ensure_namespace_secrets:
  assumes "secret_laws api secrets" and "ensure_namespace api ns w = (e, w')"
  shows "secrets w' = secrets w"
  using assms by (auto simp: ensure_namespace_def secret_laws_def split: option.splits if_splits prod.splits)

lemma sa_create_spec:
  assumes "secret_laws api secrets" and "sa_create api s w = (e, w')"
  shows "only_adds secrets w w'" "e = None \<or> e = Some AlreadyExists \<Longrightarrow> secrets w' (sec_key s) \<noteq> None"
proof -
  have "secrets w' = secrets w \<or> secrets w (sec_key s) = None \<and> secrets w' = (secrets w)(sec_key s \<mapsto> s)"
    using assms unfolding secret_laws_def by (cases e) metis+
  then show "only_adds secrets w w'" unfolding only_adds_def by auto
  show "secrets w' (sec_key s) \<noteq> None" if "e = None \<or> e = Some AlreadyExists"
    using that
  proof
    assume "e = None"
    with assms have "secrets w' = (secrets w)(sec_key s \<mapsto> s)" unfolding secret_laws_def by blast
    then show ?thesis by simp
  next
    assume "e = Some AlreadyExists"
    with assms have "secrets w (sec_key s) \<noteq> None \<and> secrets w' = secrets w" unfolding secret_laws_def by blast
    then show ?thesis by simp
  qed
qed

text \<open>The parts of a copy that set owner and labels keep its key.\<close>

definition keeps_key :: "(Secret \<Rightarrow> string + Secret) option \<Rightarrow> bool" where
  "keeps_key owner \<longleftrightarrow> (\<forall>f s s'. owner = Some f \<and> f s = Inr s' \<longrightarrow> sec_key s' = sec_key s)"

lemma CopySecret_cases:
  assumes run: "CopySecret source target key to ovr owner extra w = (e, w')" and name: "ok_Name key \<noteq> []"
  obtains (namespace) err where "ensure_namespace target to w = (Some err, w')" "e \<noteq> None"
    | (early) "ensure_namespace target to w = (None, w')" "e \<noteq> None"
    | (create) secret owned labelled w1 e2 where "ensure_namespace target to w = (None, w1)" "sa_get source key w1 = Inr secret"
        "(case owner of None \<Rightarrow> Inr (scrubbed_secret to ovr secret) | Some f \<Rightarrow> f (scrubbed_secret to ovr secret)) = Inr owned"
        "labelled = owned\<lparr>sec_Labels := fold (\<lambda>(k, v). AList.update k v) extra (sec_Labels owned)\<rparr>"
        "sa_create target labelled w1 = (e2, w')" "e = None \<longleftrightarrow> e2 = None \<or> e2 = Some AlreadyExists"
proof -
  obtain e0 w1 where ns: "ensure_namespace target to w = (e0, w1)" by fastforce
  show thesis
  proof (cases e0)
    case (Some err)
    with run ns name have "e = Some err" "w' = w1" by (auto simp: CopySecret_def)
    with ns Some namespace show thesis by blast
  next
    case None
    show thesis
    proof (cases "sa_get source key w1")
      case (Inl err)
      with run ns None name have "e \<noteq> None" "w' = w1" by (auto simp: CopySecret_def)
      with ns None early show thesis by blast
    next
      case (Inr secret)
      let ?o = "case owner of None \<Rightarrow> Inr (scrubbed_secret to ovr secret) | Some f \<Rightarrow> f (scrubbed_secret to ovr secret)"
      show thesis
      proof (cases ?o)
        case o: (Inl err)
        with run ns None name Inr have "e \<noteq> None" "w' = w1" by (auto simp: CopySecret_def Let_def)
        with ns None early show thesis by blast
      next
        case o: (Inr owned)
        let ?l = "owned\<lparr>sec_Labels := fold (\<lambda>(k, v). AList.update k v) extra (sec_Labels owned)\<rparr>"
        obtain e2 w2 where c: "sa_create target ?l w1 = (e2, w2)" by fastforce
        with run ns None name Inr o have "w' = w2" "e = None \<longleftrightarrow> e2 = None \<or> e2 = Some AlreadyExists"
          by (auto simp: CopySecret_def Let_def split: option.splits if_splits)
        with create [OF _ Inr o refl] ns None c show thesis by blast
      qed
    qed
  qed
qed

lemma CopySecret_spec:
  assumes laws: "secret_laws target secrets" and run: "CopySecret source target key to ovr owner extra w = (e, w')" and owner: "keeps_key owner"
    and src: "\<And>u s. sa_get source key u = Inr s \<Longrightarrow> sec_Name s = ok_Name key"
  shows "only_adds secrets w w'"
    and "e = None \<Longrightarrow> ok_Name key \<noteq> [] \<Longrightarrow> secrets w' (ObjectKey to (if ovr \<noteq> [] then ovr else ok_Name key)) \<noteq> None"
proof -
  have "only_adds secrets w w' \<and> (e = None \<longrightarrow> secrets w' (ObjectKey to (if ovr \<noteq> [] then ovr else ok_Name key)) \<noteq> None)" if name: "ok_Name key \<noteq> []"
    using run name
  proof (cases rule: CopySecret_cases)
    case (namespace err)
    with ensure_namespace_secrets [OF laws namespace(1)] show ?thesis by (auto simp: only_adds_def)
  next
    case early
    with ensure_namespace_secrets [OF laws early(1)] show ?thesis by (auto simp: only_adds_def)
  next
    case (create secret owned labelled w1 e2)
    from create(3) owner have "sec_key owned = sec_key (scrubbed_secret to ovr secret)"
      by (auto simp: keeps_key_def split: option.splits)
    with create(4) src [OF create(2)] have key: "sec_key labelled = ObjectKey to (if ovr \<noteq> [] then ovr else ok_Name key)"
      by (simp add: scrubbed_secret_def)
    from ensure_namespace_secrets [OF laws create(1)] have "only_adds secrets w w1" by (simp add: only_adds_def)
    with sa_create_spec [OF laws create(5)] create(6) key show ?thesis by (auto intro: only_adds_trans)
  qed
  moreover have "only_adds secrets w w'" if "ok_Name key = []" using run that by (simp add: CopySecret_def)
  ultimately show "only_adds secrets w w'"
    and "e = None \<Longrightarrow> ok_Name key \<noteq> [] \<Longrightarrow> secrets w' (ObjectKey to (if ovr \<noteq> [] then ovr else ok_Name key)) \<noteq> None" by blast+
qed

lemma copy_secrets_spec:
  assumes laws: "secret_laws target secrets" and src: "\<forall>k u s. sa_get source k u = Inr s \<longrightarrow> sec_Name s = ok_Name k"
    and run: "copy_secrets source target from to names w = (e, w')"
  shows "only_adds secrets w w'" and "e = None \<Longrightarrow> n \<in> set names \<Longrightarrow> n \<noteq> [] \<Longrightarrow> secrets w' (ObjectKey to n) \<noteq> None"
proof -
  have "only_adds secrets w w' \<and> (e = None \<longrightarrow> n \<in> set names \<longrightarrow> n \<noteq> [] \<longrightarrow> secrets w' (ObjectKey to n) \<noteq> None)"
    using run
  proof (induction names arbitrary: w)
    case (Cons name names)
    obtain e1 w1 where one: "CopySecret source target (ObjectKey from name) to [] None [] w = (e1, w1)" by fastforce
    have src': "sec_Name s = ok_Name (ObjectKey from name)" if "sa_get source (ObjectKey from name) u = Inr s" for u s using src that by blast
    have copy: "only_adds secrets w w1" "e1 = None \<Longrightarrow> name \<noteq> [] \<Longrightarrow> secrets w1 (ObjectKey to name) \<noteq> None"
      using CopySecret_spec [OF laws one _ src'] by (auto simp: keeps_key_def)
    show ?case
    proof (cases e1)
      case None
      with Cons.prems one have rest: "copy_secrets source target from to names w1 = (e, w')" by simp
      note ih = Cons.IH [OF rest]
      have "secrets w' (ObjectKey to name) \<noteq> None" if "name \<noteq> []"
        using copy(2) [OF None that] ih unfolding only_adds_def by blast
      with ih copy(1) show ?thesis by (auto intro: only_adds_trans)
    next
      case (Some err)
      with Cons.prems one copy(1) show ?thesis by auto
    qed
  qed simp
  then show "only_adds secrets w w'" and "e = None \<Longrightarrow> n \<in> set names \<Longrightarrow> n \<noteq> [] \<Longrightarrow> secrets w' (ObjectKey to n) \<noteq> None" by blast+
qed

section \<open>Objects written\<close>

text \<open>
  \<open>CreateOrUpdate\<close> that succeeds has applied the function to the object there was, or to a new one, and
  stored the result; a deletion that succeeds, or finds nothing, leaves no object. The management
  cluster does not change when the regional cluster is written to.
\<close>

definition write_laws :: "'w secret_api \<Rightarrow> ('w \<Rightarrow> ObjectKey \<rightharpoonup> Secret) \<Rightarrow> bool" where
  "write_laws api secrets \<longleftrightarrow>
     (\<forall>k f w w'. sa_createOrUpdate api k f w = (None, w') \<longrightarrow> (\<exists>s s'. f s = Inr s' \<and> secrets w' = (secrets w)(k \<mapsto> s')))
   \<and> (\<forall>k w e w'. sa_delete api k w = (e, w') \<and> (e = None \<or> e = Some NotFound) \<longrightarrow> secrets w' k = None)"

definition separate :: "'w secret_api \<Rightarrow> 'w secret_api \<Rightarrow> bool" where
  "separate mgmt rgn \<longleftrightarrow>
     (\<forall>k f k' w. sa_get mgmt k' (snd (sa_createOrUpdate rgn k f w)) = sa_get mgmt k' w)
   \<and> (\<forall>ns k' w. sa_get mgmt k' (snd (sa_createNamespace rgn ns w)) = sa_get mgmt k' w)"

definition mirrored :: "'w secret_api \<Rightarrow> ('w \<Rightarrow> ObjectKey \<rightharpoonup> Secret) \<Rightarrow> ObjectKey \<Rightarrow> 'w \<Rightarrow> bool" where
  "mirrored mgmt secrets key w \<longleftrightarrow> (\<exists>m s. sa_get mgmt key w = Inr m \<and> secrets w key = Some s \<and> sec_Data s = sec_Data m)"

lemma regional_secrets_spec:
  assumes laws: "write_laws rgn secrets" and sep: "separate mgmt rgn"
    and run: "regional_secrets mgmt rgn owner ns names w = (None, w')" and n: "n \<in> set names \<and> n \<noteq> [] \<or> mirrored mgmt secrets (ObjectKey ns n) w"
  shows "mirrored mgmt secrets (ObjectKey ns n) w'"
  using run n
proof (induction names arbitrary: w)
  case (Cons name names)
  show ?case
  proof (cases "name = []")
    case True
    with Cons show ?thesis by auto
  next
    case False
    define f where "f s = (case sa_get mgmt (ObjectKey ns name) w of Inl e \<Rightarrow> Inl ''failed to get Secret on the mgmt cluster''
      | Inr m \<Rightarrow> bindE (case owner of None \<Rightarrow> Inr s | Some set_owner \<Rightarrow> set_owner s) (\<lambda>s'. Inr (s'\<lparr>sec_Data := sec_Data m\<rparr>)))" for s
    from Cons.prems(1) False obtain w1 where one: "sa_createOrUpdate rgn (ObjectKey ns name) f w = (None, w1)"
      and rest: "regional_secrets mgmt rgn owner ns names w1 = (None, w')"
      by (auto simp: f_def [abs_def] Let_def split: prod.splits option.splits)
    from laws one obtain s s' where fs: "f s = Inr s'" and w1: "secrets w1 = (secrets w)(ObjectKey ns name \<mapsto> s')"
      unfolding write_laws_def by blast
    have keep: "sa_get mgmt k w1 = sa_get mgmt k w" for k using sep one unfolding separate_def by (metis snd_conv)
    from fs obtain m where "sa_get mgmt (ObjectKey ns name) w = Inr m" "sec_Data s' = sec_Data m"
      by (auto simp: f_def result_simps split: sum.splits)
    with w1 keep have now: "mirrored mgmt secrets (ObjectKey ns name) w1" by (simp add: mirrored_def)
    have "mirrored mgmt secrets (ObjectKey ns n) w1" if "mirrored mgmt secrets (ObjectKey ns n) w" "n \<noteq> name"
      using that w1 keep by (simp add: mirrored_def)
    with now Cons.prems(2) have "n \<in> set names \<and> n \<noteq> [] \<or> mirrored mgmt secrets (ObjectKey ns n) w1" by auto
    then show ?thesis by (rule Cons.IH [OF rest])
  qed
qed simp

lemma ensureClusterDataSourceRegionalSecrets_spec:
  assumes laws: "write_laws rgn secrets" and sep: "separate mgmt rgn"
    and run: "ensureClusterDataSourceRegionalSecrets mgmt rgn rbac owner regional cds cd w = (Inr False, w')"
  shows "cds_current cds" and "regional \<Longrightarrow> n \<in> {cds_CASecret cds, cds_KineDataSourceSecret cds} \<Longrightarrow> n \<noteq> []
    \<Longrightarrow> mirrored mgmt secrets (ObjectKey (cd_Namespace cd) n) w'"
proof -
  show "cds_current cds" using run by (auto simp: ensureClusterDataSourceRegionalSecrets_def split: if_splits)
  assume reg: regional and n: "n \<in> {cds_CASecret cds, cds_KineDataSourceSecret cds}" "n \<noteq> []"
  with run obtain w1 o' where "regional_secrets mgmt rgn o' (cd_Namespace cd) [cds_CASecret cds, cds_KineDataSourceSecret cds] w1 = (None, w')"
    by (auto simp: ensureClusterDataSourceRegionalSecrets_def split: if_splits prod.splits option.splits sum.splits)
  from regional_secrets_spec [OF laws sep this, of n] n show "mirrored mgmt secrets (ObjectKey (cd_Namespace cd) n) w'" by auto
qed

section \<open>Theorems\<close>

text \<open>
  Copying the Secrets of the controller for a cluster never changes a Secret that exists, and when
  it reports success each of them is there in the namespace of the cluster.
\<close>

theorem handleCertificateSecrets_correct:
  assumes laws: "secret_laws rgn secrets" and src: "\<forall>k u s. sa_get mgmt k u = Inr s \<longrightarrow> sec_Name s = ok_Name k"
    and run: "handleCertificateSecrets mgmt rgn systemNamespace names cd w = (e, w')"
  shows "(\<forall>k s. secrets w k = Some s \<longrightarrow> secrets w' k = Some s)
     \<and> (e = None \<and> cd_Namespace cd \<noteq> systemNamespace \<longrightarrow> (\<forall>n\<in>set names. n \<noteq> [] \<longrightarrow> secrets w' (ObjectKey (cd_Namespace cd) n) \<noteq> None))"
proof (cases "cd_Namespace cd = systemNamespace")
  case False
  with run have "copy_secrets mgmt rgn systemNamespace (cd_Namespace cd) names w = (e, w')" by (simp add: handleCertificateSecrets_def)
  from copy_secrets_spec [OF laws src this] show ?thesis unfolding only_adds_def by blast
qed (use run in \<open>simp add: handleCertificateSecrets_def\<close>)

text \<open>
  The data source of a cluster counts as in place only when its ClusterDataSource refers to the
  data source asked for, is ready, without an error and up to date, and, for a regional cluster, its
  Secrets there hold the data they hold in the management cluster.
\<close>

theorem data_source_ready:
  assumes laws: "write_laws rgn secrets" and sep: "separate mgmt rgn" and ds: "cd_DataSource cd \<noteq> []"
    and run: "ensureDataSourceReferences lib mgmt rgn da rbac owner regional True cd w = (Inr False, cds, cd', w')"
  shows "\<exists>c. cds = Some c \<and> da_get da w = Inr c \<and> cds_DataSource c = cd_DataSource cd \<and> cds_current c
     \<and> (regional \<longrightarrow> (\<forall>n\<in>{cds_CASecret c, cds_KineDataSourceSecret c}. n \<noteq> [] \<longrightarrow> mirrored mgmt secrets (ObjectKey (cd_Namespace cd) n) w'))"
proof -
  from run ds have "ensure_cds mgmt rgn da rbac owner regional cd w = (Inr False, cds, w')"
    by (auto simp: ensureDataSourceReferences_def split: prod.splits if_splits)
  then obtain c where c: "da_get da w = Inr c" "cds = Some c" "cds_DataSource c = cd_DataSource cd"
    "ensureClusterDataSourceRegionalSecrets mgmt rgn rbac owner regional c cd w = (Inr False, w')"
    by (auto simp: ensure_cds_def split: sum.splits if_splits prod.splits option.splits)
  from ensureClusterDataSourceRegionalSecrets_spec [OF laws sep c(4)] c(1-3) show ?thesis by blast
qed

text \<open>
  When the authentication configuration is in place, the Secret holds exactly the configuration and
  the condition is True; when there is none, a Secret the condition told of is gone, and so is the
  condition.
\<close>

theorem ensureAuthConfigSecret_correct:
  assumes conds: "cond_laws lib" and laws: "write_laws rgn secrets" and owner: "\<And>s s'. owner s = Inr s' \<Longrightarrow> sec_Data s' = sec_Data s"
    and run: "ensureAuthConfigSecret lib rgn rbac owner authConf hash cd w = (Inr h, cd', w')"
  shows "case authConf of
       None \<Rightarrow> find_condition (cld_Conditions cd') ClusterAuthenticationReadyCondition = None
         \<and> (find_condition (cld_Conditions cd) ClusterAuthenticationReadyCondition \<noteq> None \<longrightarrow>
              secrets w' (ObjectKey (cd_Namespace cd) (getAuthConfigSecretName (cd_Name cd))) = None)
     | Some c \<Rightarrow> \<exists>text s cond. c = Inr text \<and> h = Some (hash text)
         \<and> secrets w' (ObjectKey (cd_Namespace cd) (getAuthConfigSecretName (cd_Name cd))) = Some s \<and> sec_Data s = [(''config'', text)]
         \<and> find_condition (cld_Conditions cd') ClusterAuthenticationReadyCondition = Some cond \<and> cond_Status cond = ConditionTrue"
proof (cases authConf)
  case None
  let ?k = "ObjectKey (cd_Namespace cd) (getAuthConfigSecretName (cd_Name cd))"
  show ?thesis
  proof (cases "find_condition (cld_Conditions cd) ClusterAuthenticationReadyCondition")
    case cond: None
    with None run show ?thesis by (simp add: ensureAuthConfigSecret_def ensure_config_def)
  next
    case cond: (Some c)
    obtain e w1 where del: "sa_delete rgn ?k w = (e, w1)" by fastforce
    with None cond run have out: "e = None \<or> e = Some NotFound" "w' = w1"
      "cd' = cd\<lparr>cld_Conditions := cnd_remove lib (cld_Conditions cd) ClusterAuthenticationReadyCondition\<rparr>"
      by (auto simp: ensureAuthConfigSecret_def ensure_config_def split: if_splits)
    have "secrets w' ?k = None"
      by (rule laws [unfolded write_laws_def, THEN conjunct2, rule_format, OF conjI, OF del [folded out(2)] out(1)])
    with None out(3) conds show ?thesis by (simp add: cond_laws_def)
  qed
next
  case (Some c)
  let ?k = "ObjectKey (cd_Namespace cd) (getAuthConfigSecretName (cd_Name cd))"
  from run Some obtain conf ownerExists where conf: "c = Inr conf" "h = Some (hash conf)"
    and cd': "cd' = cld_setCondition lib cd ClusterAuthenticationReadyCondition SucceededReason ConditionTrue []"
    and cou: "sa_createOrUpdate rgn ?k (\<lambda>s. let s' = s\<lparr>sec_Data := [(''config'', conf)]\<rparr> in if ownerExists then owner s' else Inr s') w = (None, w')"
    by (auto simp: ensureAuthConfigSecret_def ensure_config_def split: sum.splits prod.splits option.splits)
  from laws cou obtain s s' where fs: "(let s' = s\<lparr>sec_Data := [(''config'', conf)]\<rparr> in if ownerExists then owner s' else Inr s') = Inr s'"
    and stored: "secrets w' ?k = Some s'" unfolding write_laws_def by fastforce
  from fs owner have "sec_Data s' = [(''config'', conf)]" by (fastforce simp: Let_def split: if_splits)
  with conf stored cd' conds Some show ?thesis by (simp add: cld_condition_def)
qed

section \<open>Examples\<close>

text \<open>Two stores, of the management and of the regional cluster.\<close>

type_synonym secret_store = "ObjectKey \<Rightarrow> Secret option"

definition example_secret :: "string \<Rightarrow> string \<Rightarrow> Secret" where
  "example_secret ns name = \<lparr>sec_Namespace = ns, sec_Name = name, sec_Data = [(''ca.crt'', ''pem'')], sec_Labels = [], sec_OwnerReferences = [],
     sec_Finalizers = [], sec_UID = ''u''\<rparr>"

definition example_secret_api :: "('w \<Rightarrow> secret_store) \<Rightarrow> (secret_store \<Rightarrow> 'w \<Rightarrow> 'w) \<Rightarrow> 'w secret_api" where
  "example_secret_api look put =
     \<lparr>sa_getNamespace = (\<lambda>_ _. None), sa_createNamespace = (\<lambda>_ w. (None, w)),
      sa_get = (\<lambda>k w. case look w k of None \<Rightarrow> Inl NotFound | Some s \<Rightarrow> if sec_Name s = ok_Name k then Inr s else Inl NotFound),
      sa_create = (\<lambda>s w. if look w (sec_key s) \<noteq> None then (Some AlreadyExists, w) else (None, put ((look w)(sec_key s \<mapsto> s)) w)),
      sa_delete = (\<lambda>k w. (None, put ((look w)(k := None)) w)),
      sa_createOrUpdate = (\<lambda>k f w. case f (case look w k of None \<Rightarrow> example_secret (ok_Namespace k) (ok_Name k) | Some s \<Rightarrow> s) of
          Inl e \<Rightarrow> (Some e, w) | Inr s \<Rightarrow> (None, put ((look w)(k \<mapsto> s)) w))\<rparr>"

abbreviation example_mgmt :: "(secret_store \<times> secret_store) secret_api" where
  "example_mgmt \<equiv> example_secret_api fst (\<lambda>m w. (m, snd w))"

abbreviation example_rgn :: "(secret_store \<times> secret_store) secret_api" where
  "example_rgn \<equiv> example_secret_api snd (\<lambda>m w. (fst w, m))"

lemma example_rgn_laws:
  "secret_laws example_rgn snd" "write_laws example_rgn snd" "separate example_mgmt example_rgn"
  "\<forall>k u s. sa_get example_mgmt k u = Inr s \<longrightarrow> sec_Name s = ok_Name k"
proof -
  show "write_laws example_rgn snd"
    unfolding write_laws_def by (auto simp: example_secret_api_def split: sum.splits if_splits option.splits)
qed (auto simp: secret_laws_def separate_def example_secret_api_def split: if_splits option.splits sum.splits)

definition example_source :: secret_store where
  "example_source k = (if k = ObjectKey ''kcm-system'' ''registry'' then Some (example_secret ''kcm-system'' ''registry'')
     else if k = ObjectKey ''dev'' ''ca'' then Some (example_secret ''dev'' ''ca'') else None)"

abbreviation example_copy :: "resource_error option \<times> (secret_store \<times> secret_store)" where
  "example_copy \<equiv> handleCertificateSecrets example_mgmt example_rgn ''kcm-system'' [''registry'', []] (example_cld\<lparr>cd_Namespace := ''dev''\<rparr>) (example_source, Map.empty)"

theorem handleCertificateSecrets_correct_witness:
  "fst example_copy = None \<and> snd (snd example_copy) (ObjectKey ''dev'' ''registry'') \<noteq> None"
proof -
  have ok: "fst example_copy = None"
    by (simp add: handleCertificateSecrets_def CopySecret_def ensure_namespace_def example_secret_api_def example_source_def example_secret_def
        scrubbed_secret_def)
  have "''registry'' \<in> set [''registry'', []]" "''registry'' \<noteq> []" "cd_Namespace (example_cld\<lparr>cd_Namespace := ''dev''\<rparr>) \<noteq> ''kcm-system''" by simp_all
  with handleCertificateSecrets_correct [where systemNamespace = "''kcm-system''" and names = "[''registry'', []]" and
      cd = "example_cld\<lparr>cd_Namespace := ''dev''\<rparr>" and w = "(example_source, Map.empty)", OF example_rgn_laws(1,4) prod.collapse [symmetric]] ok
  show ?thesis by auto
qed

definition example_cds :: ClusterDataSource where
  "example_cds = \<lparr>cds_Generation = 1, cds_Schema = ''dev_cd_abcde'', cds_DataSource = ''pg'', cds_KineDataSourceSecret = [], cds_CASecret = ''ca'',
     cds_Error = [], cds_ObservedGeneration = 1, cds_Ready = True\<rparr>"

definition example_data_api :: "'w data_api" where
  "example_data_api = \<lparr>da_get = (\<lambda>_. Inr example_cds), da_update = (\<lambda>_ w. (None, w)), da_setOwner = None, da_create = (\<lambda>_ _ w. (None, w)),
     da_random = ''abcde''\<rparr>"

definition example_owner_env :: "(unit, unit) rbac_env" where
  "example_owner_env = \<lparr>re_getSecret = Inl NotFound, re_factory = (\<lambda>_. Inl []), re_getCluster = Inl NotFound, re_patchStatus = (\<lambda>_ w. (None, w)),
     re_now = 0, re_resync = 0, re_defaultRequeue = 0, re_showErr = (\<lambda>_. [])\<rparr>"

definition example_data_cld :: Cld where
  "example_data_cld = example_cld\<lparr>cd_Namespace := ''dev'', cd_DataSource := ''pg''\<rparr>"

abbreviation example_data_run :: "(resource_error + bool) \<times> ClusterDataSource option \<times> Cld \<times> (secret_store \<times> secret_store)" where
  "example_data_run \<equiv> ensureDataSourceReferences example_conditions example_mgmt example_rgn example_data_api (\<lambda>_. example_owner_env) Inr True True
     example_data_cld (example_source, Map.empty)"

theorem data_source_ready_witness:
  "fst example_data_run = Inr False \<and> mirrored example_mgmt snd (ObjectKey ''dev'' ''ca'') (snd (snd (snd example_data_run)))"
proof -
  have ok: "fst example_data_run = Inr False"
    by (simp add: ensureDataSourceReferences_def ensure_cds_def ensureClusterDataSourceRegionalSecrets_def ensure_namespace_def example_secret_api_def
        example_source_def example_secret_def example_data_api_def example_cds_def cds_current_def example_owner_env_def getPartialCapiCluster_def
        example_data_cld_def result_simps)
  obtain r c cd' w' where run: "example_data_run = (r, c, cd', w')" by (metis prod_cases4)
  with ok have run': "example_data_run = (Inr False, c, cd', w')" by simp
  have "cd_DataSource example_data_cld \<noteq> []" by (simp add: example_data_cld_def)
  from data_source_ready [OF example_rgn_laws(2,3) this run'] ok run show ?thesis
    by (auto simp: example_data_api_def example_cds_def example_data_cld_def)
qed

abbreviation example_auth_run :: "(resource_error + string option) \<times> Cld \<times> (secret_store \<times> secret_store)" where
  "example_auth_run \<equiv> ensureAuthConfigSecret example_conditions example_rgn (\<lambda>_. example_owner_env) Inr (Some (Inr ''jwt'')) (\<lambda>s. s) example_data_cld (example_source, Map.empty)"

theorem ensureAuthConfigSecret_correct_witness:
  "fst example_auth_run = Inr (Some ''jwt'') \<and> map_option sec_Data (snd (snd (snd example_auth_run)) (ObjectKey ''dev'' (getAuthConfigSecretName (cd_Name example_data_cld))))
     = Some [(''config'', ''jwt'')]"
proof -
  have ok: "fst example_auth_run = Inr (Some ''jwt'')"
    by (simp add: ensureAuthConfigSecret_def ensure_config_def example_secret_api_def example_owner_env_def getPartialCapiCluster_def Let_def)
  obtain r cd' w' where run: "example_auth_run = (r, cd', w')" by (metis prod_cases3)
  with ok have run': "example_auth_run = (Inr (Some ''jwt''), cd', w')" by simp
  have owner: "sec_Data s' = sec_Data s" if "Inr s = Inr s'" for s s' :: Secret using that by simp
  from ensureAuthConfigSecret_correct [OF example_cond_laws example_rgn_laws(2) owner run'] ok run show ?thesis
    by (auto simp: example_data_cld_def)
qed

end
