(* ===== verification/ClusterScope.thy ===== *)
theory ClusterScope
  imports ClusterResources
begin

text \<open>
  What a run on a ClusterDeployment reads first: its Credential, data source, authentication
  configuration, RBAC and audit policy and region (\<open>getClusterScope\<close> of
  \<^verbatim>\<open>internal/controller/clusterdeployment_controller.go\<close>), with the validation of these objects
  (\<^verbatim>\<open>internal/util/validation\<close>, \<^verbatim>\<open>internal/util/auth\<close>), their admission (\<^verbatim>\<open>internal/webhook\<close>), and the
  client of a region (\<^verbatim>\<open>internal/util/kube/client.go\<close>).
\<close>

section \<open>Authentication\<close>

text \<open>Of a JWT authenticator only the certificate authority is looked at. The slice may be nil.\<close>

record JWTAuthenticator =
  jwt_CertificateAuthority :: string
  jwt_Config :: string

record ClusterAuthentication =
  ca_Namespace :: string
  ca_Name :: string
  ca_JWT :: "JWTAuthenticator list option"
  ca_Anonymous :: "string option"
  ca_CASecret :: ObjectKey
  ca_CASecretKey :: string

record AuthenticationConfiguration =
  acf_APIVersion :: string
  acf_Kind :: string
  acf_JWT :: "JWTAuthenticator list"
  acf_Anonymous :: "string option"

definition HasAuthenticationConfiguration :: "ClusterAuthentication \<Rightarrow> bool" where
  "HasAuthenticationConfiguration s \<longleftrightarrow> ca_JWT s \<noteq> None \<or> ca_Anonymous s \<noteq> None"

definition HasCASecret :: "ClusterAuthentication \<Rightarrow> bool" where
  "HasCASecret s \<longleftrightarrow> ca_CASecretKey s \<noteq> []"

definition empty_configuration :: AuthenticationConfiguration where
  "empty_configuration = \<lparr>acf_APIVersion = [], acf_Kind = [], acf_JWT = [], acf_Anonymous = None\<rparr>"

definition GetAuthConfig :: "ClusterAuthentication \<Rightarrow> AuthenticationConfiguration" where
  "GetAuthConfig s =
     (if \<not> HasAuthenticationConfiguration s then empty_configuration
      else \<lparr>acf_APIVersion = ''apiserver.config.k8s.io/v1'', acf_Kind = ''AuthenticationConfiguration'',
            acf_JWT = (case ca_JWT s of None \<Rightarrow> [] | Some js \<Rightarrow> js), acf_Anonymous = ca_Anonymous s\<rparr>)"

datatype auth_error =
    CASecretFailed ObjectKey api_error
  | CAKeyMissing ObjectKey string
  | AuthConversionFailed string
  | AuthInvalid "string list"

definition GetAuthenticationConfiguration ::
  "'w secret_api \<Rightarrow> ClusterAuthentication \<Rightarrow> 'w \<Rightarrow> auth_error + AuthenticationConfiguration" where
  "GetAuthenticationConfiguration api clAuth w =
     (if \<not> HasAuthenticationConfiguration clAuth then Inr empty_configuration
      else let result = GetAuthConfig clAuth
           in if \<not> HasCASecret clAuth then Inr result
              else let key = ObjectKey (if ok_Namespace (ca_CASecret clAuth) \<noteq> [] then ok_Namespace (ca_CASecret clAuth) else ca_Namespace clAuth)
                               (ok_Name (ca_CASecret clAuth))
                   in case sa_get api key w of
                        Inl e \<Rightarrow> Inl (CASecretFailed key e)
                      | Inr caSecret \<Rightarrow>
                          (case alookup (sec_Data caSecret) (ca_CASecretKey clAuth) of
                             None \<Rightarrow> Inl (CAKeyMissing key (ca_CASecretKey clAuth))
                           | Some caCert \<Rightarrow>
                               Inr (if length caCert > 0
                                    then result\<lparr>acf_JWT := map (\<lambda>j. j\<lparr>jwt_CertificateAuthority := caCert\<rparr>) (acf_JWT result)\<rparr>
                                    else result)))"

text \<open>
  The conversion to the internal type of the API server goes through JSON; that and the validation
  are library code.
\<close>

record auth_lib =
  al_convert :: "AuthenticationConfiguration \<Rightarrow> string + AuthenticationConfiguration"
  al_validate :: "AuthenticationConfiguration \<Rightarrow> string list"

definition ValidateClusterAuthentication ::
  "auth_lib \<Rightarrow> 'w secret_api \<Rightarrow> ClusterAuthentication \<Rightarrow> 'w \<Rightarrow> auth_error option" where
  "ValidateClusterAuthentication lib api clAuth w =
     (case GetAuthenticationConfiguration api clAuth w of
        Inl e \<Rightarrow> Some e
      | Inr authConf \<Rightarrow>
          (case al_convert lib authConf of
             Inl e \<Rightarrow> Some (AuthConversionFailed e)
           | Inr conf \<Rightarrow> if al_validate lib conf \<noteq> [] then Some (AuthInvalid (al_validate lib conf)) else None))"

section \<open>Audit policies\<close>

record ClusterAuditPolicy =
  cap_Namespace :: string
  cap_Name :: string
  cap_Rules :: string

record AuditPolicy =
  adp_APIVersion :: string
  adp_Kind :: string
  adp_Rules :: string

definition GetPolicy :: "ClusterAuditPolicy \<Rightarrow> AuditPolicy" where
  "GetPolicy p = \<lparr>adp_APIVersion = ''audit.k8s.io/v1'', adp_Kind = ''Policy'', adp_Rules = cap_Rules p\<rparr>"

record audit_lib =
  adl_convert :: "AuditPolicy \<Rightarrow> string + AuditPolicy"
  adl_validate :: "AuditPolicy \<Rightarrow> string list"

datatype audit_error = AuditConversionFailed string | AuditInvalid "string list"

definition ValidateClusterAuditPolicy :: "audit_lib \<Rightarrow> ClusterAuditPolicy \<Rightarrow> audit_error option" where
  "ValidateClusterAuditPolicy lib clPolicy =
     (case adl_convert lib (GetPolicy clPolicy) of
        Inl e \<Rightarrow> Some (AuditConversionFailed e)
      | Inr p \<Rightarrow> if adl_validate lib p \<noteq> [] then Some (AuditInvalid (adl_validate lib p)) else None)"

section \<open>Deletion of referenced objects\<close>

text \<open>
  The list of ClusterDeployments of a namespace by an index, limited to one, as a parameter.
\<close>

datatype reference_index = AuthenticationIndex | RBACPolicyIndex | AuditPolicyIndex

type_synonym index_client = "reference_index \<Rightarrow> string \<Rightarrow> string \<Rightarrow> api_error + Cld list"

datatype reference_error = ReferenceListFailed api_error | StillReferenced ObjectKey

definition deletionAllowedIfUnreferenced :: "index_client \<Rightarrow> ObjectKey \<Rightarrow> reference_index \<Rightarrow> reference_error option" where
  "deletionAllowedIfUnreferenced list obj indexKey =
     (case list indexKey (ok_Namespace obj) (ok_Name obj) of
        Inl e \<Rightarrow> Some (ReferenceListFailed e)
      | Inr items \<Rightarrow> if length items > 0 then Some (StillReferenced obj) else None)"

definition ClusterAuthenticationDeletionAllowed :: "index_client \<Rightarrow> ClusterAuthentication \<Rightarrow> reference_error option" where
  "ClusterAuthenticationDeletionAllowed list clAuth = deletionAllowedIfUnreferenced list (ObjectKey (ca_Namespace clAuth) (ca_Name clAuth)) AuthenticationIndex"

definition ClusterAuditPolicyDeletionAllowed :: "index_client \<Rightarrow> ClusterAuditPolicy \<Rightarrow> reference_error option" where
  "ClusterAuditPolicyDeletionAllowed list clPolicy = deletionAllowedIfUnreferenced list (ObjectKey (cap_Namespace clPolicy) (cap_Name clPolicy)) AuditPolicyIndex"

text \<open>The namespace of an RBACPolicy is that of the request.\<close>

definition RBACPolicyDeletionAllowed :: "index_client \<Rightarrow> string \<Rightarrow> RBACPolicy \<Rightarrow> reference_error option" where
  "RBACPolicyDeletionAllowed list namespace policy = deletionAllowedIfUnreferenced list (ObjectKey namespace (rp_Name policy)) RBACPolicyIndex"

text \<open>The keys of the indexes: the reference of a ClusterDeployment, if there is one.\<close>

definition index_keys :: "reference_index \<Rightarrow> Cld \<Rightarrow> string list" where
  "index_keys i cd =
     (let name = (case i of AuthenticationIndex \<Rightarrow> cld_ClusterAuth cd | RBACPolicyIndex \<Rightarrow> cld_RBACPolicy cd | AuditPolicyIndex \<Rightarrow> cld_AuditPolicy cd)
      in if name = [] then [] else [name])"

section \<open>Admission\<close>

definition ClusterAuthentication_ValidateCreate :: "auth_lib \<Rightarrow> 'w secret_api \<Rightarrow> ClusterAuthentication \<Rightarrow> 'w \<Rightarrow> auth_error option" where
  "ClusterAuthentication_ValidateCreate lib api obj w = ValidateClusterAuthentication lib api obj w"

definition ClusterAuthentication_ValidateUpdate ::
  "auth_lib \<Rightarrow> 'w secret_api \<Rightarrow> ClusterAuthentication \<Rightarrow> ClusterAuthentication \<Rightarrow> 'w \<Rightarrow> auth_error option" where
  "ClusterAuthentication_ValidateUpdate lib api old new w = ValidateClusterAuthentication lib api new w"

definition ClusterAuthentication_ValidateDelete :: "index_client \<Rightarrow> ClusterAuthentication \<Rightarrow> reference_error option" where
  "ClusterAuthentication_ValidateDelete list obj = ClusterAuthenticationDeletionAllowed list obj"

definition ClusterAuditPolicy_ValidateCreate :: "audit_lib \<Rightarrow> ClusterAuditPolicy \<Rightarrow> audit_error option" where
  "ClusterAuditPolicy_ValidateCreate lib obj = ValidateClusterAuditPolicy lib obj"

definition ClusterAuditPolicy_ValidateUpdate :: "ClusterAuditPolicy \<Rightarrow> ClusterAuditPolicy \<Rightarrow> audit_error option" where
  "ClusterAuditPolicy_ValidateUpdate old new = None"

definition ClusterAuditPolicy_ValidateDelete :: "index_client \<Rightarrow> ClusterAuditPolicy \<Rightarrow> reference_error option" where
  "ClusterAuditPolicy_ValidateDelete list obj = ClusterAuditPolicyDeletionAllowed list obj"

definition RBACPolicy_ValidateCreate :: "(string \<Rightarrow> string list) \<Rightarrow> RBACPolicy \<Rightarrow> policy_error option" where
  "RBACPolicy_ValidateCreate isDNS obj = ValidateRBACPolicy isDNS obj"

definition RBACPolicy_ValidateUpdate :: "(string \<Rightarrow> string list) \<Rightarrow> RBACPolicy \<Rightarrow> RBACPolicy \<Rightarrow> policy_error option" where
  "RBACPolicy_ValidateUpdate isDNS old new = ValidateRBACPolicy isDNS new"

definition RBACPolicy_ValidateDelete :: "index_client \<Rightarrow> string \<Rightarrow> RBACPolicy \<Rightarrow> reference_error option" where
  "RBACPolicy_ValidateDelete list namespace obj = RBACPolicyDeletionAllowed list namespace obj"

section \<open>The scope\<close>

text \<open>The Credential with its identity, the Region with its annotations.\<close>

record CredentialObject = Credential +
  crd_IdentityRef :: identity_ref

record RegionObject = Region +
  rgo_Annotations :: "(string \<times> string) list"

datatype scope_error =
    ScopeReadFailed string ObjectKey api_error
  | ScopeNoRetrigger
  | RegionSchemeFailed string
  | RegionKubeconfigInvalid string
  | RegionUnreachable cld_rbac_error

record ('s, 'w) scope_env =
  se_conds :: cond_lib
  se_showRead :: "string \<Rightarrow> ObjectKey \<Rightarrow> api_error \<Rightarrow> string"
  se_showAuth :: "auth_error \<Rightarrow> string"
  se_showPolicy :: "policy_error \<Rightarrow> string"
  se_showAudit :: "audit_error \<Rightarrow> string"
  se_webhookDisabled :: bool
  se_systemNamespace :: string
  se_getCredential :: "ObjectKey \<Rightarrow> 'w \<Rightarrow> api_error + CredentialObject"
  se_getDataSource :: "ObjectKey \<Rightarrow> 'w \<Rightarrow> api_error + string"
  se_getClusterAuthentication :: "ObjectKey \<Rightarrow> 'w \<Rightarrow> api_error + ClusterAuthentication"
  se_getRBACPolicy :: "ObjectKey \<Rightarrow> 'w \<Rightarrow> api_error + RBACPolicy"
  se_getClusterAuditPolicy :: "ObjectKey \<Rightarrow> 'w \<Rightarrow> api_error + ClusterAuditPolicy"
  se_getRegion :: "string \<Rightarrow> 'w \<Rightarrow> api_error + RegionObject"
  se_secrets :: "'w secret_api"
  se_authLib :: auth_lib
  se_auditLib :: audit_lib
  se_isDNS :: "string \<Rightarrow> string list"
  se_scheme :: "string option"
  se_client :: "('s, 'w) rbac_env"

text \<open>The DataSource is represented by the key of its certificate authority.\<close>

record clusterScope =
  sc_cred :: CredentialObject
  sc_kine :: "string option"
  sc_auth :: "ClusterAuthentication option"
  sc_rbacPolicy :: "RBACPolicy option"
  sc_audit :: "AuditPolicy option"
  sc_region :: "RegionObject option"

definition DataSourceReadyCondition :: string where "DataSourceReadyCondition = ''DataSourceReady''"

text \<open>Reads the kubeconfig of a region and builds a client from it.\<close>

definition GetRegionalClient :: "('s, 'w) scope_env \<Rightarrow> RegionObject \<Rightarrow> 'w \<Rightarrow> scope_error + 's child_client" where
  "GetRegionalClient env region w =
     (case se_scheme env of
        Some e \<Rightarrow> Inl (RegionSchemeFailed e)
      | None \<Rightarrow>
          bindE (wrapE RegionKubeconfigInvalid (GetRegionalKubeconfigSecretRef (Region.truncate region))) (\<lambda>(name, key).
            let namespace = (case rgn_ClusterDeployment region of
                               Some cld \<Rightarrow> if ok_Namespace cld \<noteq> [] then ok_Namespace cld else se_systemNamespace env
                             | None \<Rightarrow> se_systemNamespace env);
                read = (case sa_get (se_secrets env) (ObjectKey namespace name) w of
                          Inl e \<Rightarrow> Inl e | Inr secret \<Rightarrow> Inr (alookup (sec_Data secret) key))
            in wrapE RegionUnreachable (GetChildClient ((se_client env)\<lparr>re_getSecret := read\<rparr>))))"

text \<open>With an empty name the result is the client of the management cluster, here \<open>None\<close>.\<close>

definition GetRegionalClientByRegionName :: "('s, 'w) scope_env \<Rightarrow> string \<Rightarrow> 'w \<Rightarrow> scope_error + 's child_client option" where
  "GetRegionalClientByRegionName env region w =
     (if region = [] then Inr None
      else case se_getRegion env region w of
             Inl e \<Rightarrow> Inl (ScopeReadFailed ''Region'' (ObjectKey [] region) e)
           | Inr rgn \<Rightarrow> bindE (GetRegionalClient env rgn w) (\<lambda>c. Inr (Some c)))"

abbreviation cld_failed :: "('s, 'w) scope_env \<Rightarrow> Cld \<Rightarrow> string \<Rightarrow> string \<Rightarrow> Cld" where
  "cld_failed env cd condition msg \<equiv> cld_setCondition (se_conds env) cd condition FailedReason ConditionFalse msg"

abbreviation cld_succeeded :: "('s, 'w) scope_env \<Rightarrow> Cld \<Rightarrow> string \<Rightarrow> Cld" where
  "cld_succeeded env cd condition \<equiv> cld_setCondition (se_conds env) cd condition SucceededReason ConditionTrue []"

definition scope_dataSource :: "('s, 'w) scope_env \<Rightarrow> Cld \<Rightarrow> 'w \<Rightarrow> (scope_error + string option) \<times> Cld" where
  "scope_dataSource env cd w =
     (if cd_DataSource cd = [] then (Inr None, cd)
      else let key = ObjectKey (cd_Namespace cd) (cd_DataSource cd)
           in case se_getDataSource env key w of
                Inl e \<Rightarrow> (Inl (ScopeReadFailed ''DataSource'' key e), cld_failed env cd DataSourceReadyCondition (se_showRead env ''DataSource'' key e))
              | Inr ds \<Rightarrow> (Inr (Some ds), cld_succeeded env cd DataSourceReadyCondition))"

definition scope_auth :: "('s, 'w) scope_env \<Rightarrow> Cld \<Rightarrow> 'w \<Rightarrow> (scope_error + ClusterAuthentication option) \<times> Cld" where
  "scope_auth env cd w =
     (if cld_ClusterAuth cd = [] then (Inr None, cd)
      else let key = ObjectKey (cd_Namespace cd) (cld_ClusterAuth cd)
           in case se_getClusterAuthentication env key w of
                Inl e \<Rightarrow> (Inl (ScopeReadFailed ''ClusterAuthentication'' key e),
                          cld_failed env cd ClusterAuthenticationReadyCondition (se_showRead env ''ClusterAuthentication'' key e))
              | Inr clAuth \<Rightarrow>
                  (case (if se_webhookDisabled env then ValidateClusterAuthentication (se_authLib env) (se_secrets env) clAuth w else None) of
                     Some e \<Rightarrow> (Inl ScopeNoRetrigger, cld_failed env cd ClusterAuthenticationReadyCondition (se_showAuth env e))
                   | None \<Rightarrow> (Inr (Some clAuth), cld_succeeded env cd ClusterAuthenticationReadyCondition)))"

definition scope_rbacPolicy :: "('s, 'w) scope_env \<Rightarrow> Cld \<Rightarrow> 'w \<Rightarrow> (scope_error + RBACPolicy option) \<times> Cld" where
  "scope_rbacPolicy env cd w =
     (if cld_RBACPolicy cd = [] then (Inr None, cd)
      else let key = ObjectKey (cd_Namespace cd) (cld_RBACPolicy cd)
           in case se_getRBACPolicy env key w of
                Inl e \<Rightarrow>
                  if e = NotFound then (Inr None, cd)
                  else (Inl (ScopeReadFailed ''RBACPolicy'' key e), cld_failed env cd RBACPolicyReadyCondition (se_showRead env ''RBACPolicy'' key e))
              | Inr policy \<Rightarrow>
                  (case (if se_webhookDisabled env then ValidateRBACPolicy (se_isDNS env) policy else None) of
                     Some e \<Rightarrow> (Inl ScopeNoRetrigger, cld_failed env cd RBACPolicyReadyCondition (se_showPolicy env e))
                   | None \<Rightarrow> (Inr (Some policy), cd)))"

definition scope_audit :: "('s, 'w) scope_env \<Rightarrow> Cld \<Rightarrow> 'w \<Rightarrow> (scope_error + AuditPolicy option) \<times> Cld" where
  "scope_audit env cd w =
     (if cld_AuditPolicy cd = [] then (Inr None, cd)
      else let key = ObjectKey (cd_Namespace cd) (cld_AuditPolicy cd)
           in case se_getClusterAuditPolicy env key w of
                Inl e \<Rightarrow> (Inl (ScopeReadFailed ''ClusterAuditPolicy'' key e),
                          cld_failed env cd ClusterAuditPolicyReadyCondition (se_showRead env ''ClusterAuditPolicy'' key e))
              | Inr policy \<Rightarrow>
                  (case (if se_webhookDisabled env then ValidateClusterAuditPolicy (se_auditLib env) policy else None) of
                     Some e \<Rightarrow> (Inl ScopeNoRetrigger, cld_failed env cd ClusterAuditPolicyReadyCondition (se_showAudit env e))
                   | None \<Rightarrow> (Inr (Some (GetPolicy policy)), cld_succeeded env cd ClusterAuditPolicyReadyCondition)))"

definition scope_region :: "('s, 'w) scope_env \<Rightarrow> string \<Rightarrow> 'w \<Rightarrow> scope_error + RegionObject option" where
  "scope_region env region w =
     (if region = [] then Inr None
      else case se_getRegion env region w of
             Inl e \<Rightarrow> Inl (ScopeReadFailed ''Region'' (ObjectKey [] region) e)
           | Inr rgn \<Rightarrow> bindE (GetRegionalClient env rgn w) (\<lambda>_. Inr (Some rgn)))"

text \<open>One step after the other; the first that fails ends the run, keeping the conditions set so far.\<close>

abbreviation scope_bind ::
  "(scope_error + 'a) \<times> Cld \<Rightarrow> ('a \<Rightarrow> Cld \<Rightarrow> (scope_error + 'b) \<times> Cld) \<Rightarrow> (scope_error + 'b) \<times> Cld" where
  "scope_bind r f \<equiv> (case r of (Inl e, cd') \<Rightarrow> (Inl e, cd') | (Inr x, cd') \<Rightarrow> f x cd')"

definition getClusterScope :: "('s, 'w) scope_env \<Rightarrow> Cld \<Rightarrow> 'w \<Rightarrow> (scope_error + clusterScope) \<times> Cld" where
  "getClusterScope env cd w =
     (let credKey = ObjectKey (cd_Namespace cd) (cd_Credential cd)
      in case se_getCredential env credKey w of
           Inl e \<Rightarrow> (Inl (ScopeReadFailed ''Credential'' credKey e), cld_failed env cd CredentialReadyCondition (se_showRead env ''Credential'' credKey e))
         | Inr cred \<Rightarrow>
             scope_bind (scope_dataSource env cd w) (\<lambda>kine cd1.
               scope_bind (scope_auth env cd1 w) (\<lambda>auth cd2.
                 scope_bind (scope_rbacPolicy env cd2 w) (\<lambda>policy cd3.
                   scope_bind (scope_audit env cd3 w) (\<lambda>audit cd4.
                     case scope_region env (cred_Region cred) w of
                       Inl e \<Rightarrow> (Inl e, cd4)
                     | Inr region \<Rightarrow>
                         (Inr \<lparr>sc_cred = cred, sc_kine = kine, sc_auth = auth, sc_rbacPolicy = policy, sc_audit = audit, sc_region = region\<rparr>,
                          cd4))))))"

section \<open>What a scope holds\<close>

lemma setCondition_keeps [simp]:
  "cd_Namespace (cld_setCondition lib cd t r s m) = cd_Namespace cd" "cd_Name (cld_setCondition lib cd t r s m) = cd_Name cd"
  "cd_DataSource (cld_setCondition lib cd t r s m) = cd_DataSource cd" "cld_ClusterAuth (cld_setCondition lib cd t r s m) = cld_ClusterAuth cd"
  "cld_RBACPolicy (cld_setCondition lib cd t r s m) = cld_RBACPolicy cd" "cld_AuditPolicy (cld_setCondition lib cd t r s m) = cld_AuditPolicy cd"
  by (simp_all add: cld_setCondition_def)

text \<open>The object differs in its conditions only.\<close>

definition conditions_only :: "Cld \<Rightarrow> Cld \<Rightarrow> bool" where
  "conditions_only cd cd' \<longleftrightarrow> cd' = cd\<lparr>cld_Conditions := cld_Conditions cd'\<rparr>"

lemma conditions_only_refl [simp]: "conditions_only cd cd"
  by (simp add: conditions_only_def)

lemma conditions_only_set [simp]: "conditions_only cd (cld_setCondition lib cd t r s m)"
  by (simp add: conditions_only_def cld_setCondition_def)

lemma conditions_only_trans [trans]:
  assumes "conditions_only a b" and "conditions_only b c" shows "conditions_only a c"
proof -
  have "c = b\<lparr>cld_Conditions := cld_Conditions c\<rparr>" "b = a\<lparr>cld_Conditions := cld_Conditions b\<rparr>" using assms by (simp_all only: conditions_only_def)
  then have "c = (a\<lparr>cld_Conditions := cld_Conditions b\<rparr>)\<lparr>cld_Conditions := cld_Conditions c\<rparr>" by metis
  then show ?thesis by (simp add: conditions_only_def)
qed

lemma conditions_only_fields:
  assumes "conditions_only cd cd'"
  shows "cd_Namespace cd' = cd_Namespace cd" "cd_Name cd' = cd_Name cd" "cd_DataSource cd' = cd_DataSource cd"
    "cld_ClusterAuth cd' = cld_ClusterAuth cd" "cld_RBACPolicy cd' = cld_RBACPolicy cd" "cld_AuditPolicy cd' = cld_AuditPolicy cd"
  using assms by (cases cd; cases cd'; simp add: conditions_only_def)+

text \<open>Each step: what it reads is what the specification refers to.\<close>

definition reads :: "(ObjectKey \<Rightarrow> 'w \<Rightarrow> api_error + 'a) \<Rightarrow> string \<Rightarrow> string \<Rightarrow> 'w \<Rightarrow> 'a option \<Rightarrow> bool" where
  "reads get ns name w r \<longleftrightarrow> (case r of None \<Rightarrow> name = [] | Some x \<Rightarrow> name \<noteq> [] \<and> get (ObjectKey ns name) w = Inr x)"

lemma scope_dataSource_spec:
  assumes "scope_dataSource env cd w = (r, cd')"
  shows "conditions_only cd cd'" "r = Inr ds \<Longrightarrow> reads (se_getDataSource env) (cd_Namespace cd) (cd_DataSource cd) w ds" "r \<noteq> Inl ScopeNoRetrigger"
  using assms by (auto simp: scope_dataSource_def reads_def Let_def split: if_splits sum.splits)

lemma scope_auth_spec:
  assumes "scope_auth env cd w = (r, cd')"
  shows "conditions_only cd cd'"
    "r = Inr a \<Longrightarrow> reads (se_getClusterAuthentication env) (cd_Namespace cd) (cld_ClusterAuth cd) w a"
    "r = Inr (Some c) \<Longrightarrow> se_webhookDisabled env \<Longrightarrow> ValidateClusterAuthentication (se_authLib env) (se_secrets env) c w = None"
  using assms by (auto simp: scope_auth_def reads_def Let_def split: if_splits sum.splits option.splits)

lemma scope_rbacPolicy_spec:
  assumes "scope_rbacPolicy env cd w = (r, cd')"
  shows "conditions_only cd cd'"
    "r = Inr (Some p) \<Longrightarrow> cld_RBACPolicy cd \<noteq> [] \<and> se_getRBACPolicy env (ObjectKey (cd_Namespace cd) (cld_RBACPolicy cd)) w = Inr p"
    "r = Inr None \<Longrightarrow> cld_RBACPolicy cd = [] \<or> se_getRBACPolicy env (ObjectKey (cd_Namespace cd) (cld_RBACPolicy cd)) w = Inl NotFound"
    "r = Inr (Some p) \<Longrightarrow> se_webhookDisabled env \<Longrightarrow> ValidateRBACPolicy (se_isDNS env) p = None"
  using assms by (auto simp: scope_rbacPolicy_def Let_def split: if_splits sum.splits option.splits)

lemma scope_audit_spec:
  assumes "scope_audit env cd w = (r, cd')"
  shows "conditions_only cd cd'"
    "r = Inr a \<Longrightarrow> reads (\<lambda>k u. bindE (se_getClusterAuditPolicy env k u) (\<lambda>p. Inr (GetPolicy p))) (cd_Namespace cd) (cld_AuditPolicy cd) w a"
  using assms by (auto simp: scope_audit_def reads_def Let_def result_simps split: if_splits sum.splits option.splits)

lemma scope_region_spec:
  assumes "scope_region env region w = Inr r"
  shows "case r of None \<Rightarrow> region = [] | Some rgn \<Rightarrow> region \<noteq> [] \<and> se_getRegion env region w = Inr rgn \<and> (\<exists>c. GetRegionalClient env rgn w = Inr c)"
  using assms by (cases "GetRegionalClient env (projr (se_getRegion env region w)) w")
    (auto simp: scope_region_def result_simps split: if_splits sum.splits)

lemma scope_bind_Inr: "scope_bind r f = (Inr x, cd') \<longleftrightarrow> (\<exists>y cd1. r = (Inr y, cd1) \<and> f y cd1 = (Inr x, cd'))"
  by (auto split: prod.splits sum.splits)

text \<open>
  A scope is built only when every object the ClusterDeployment refers to was read, and holds
  exactly these; only a missing RBACPolicy counts as none. With the webhooks disabled the
  authentication configuration and the RBACPolicy in it are valid. Of the ClusterDeployment only
  conditions change.
\<close>

theorem getClusterScope_correct:
  assumes run: "getClusterScope env cd w = (Inr scope, cd')"
  shows "se_getCredential env (ObjectKey (cd_Namespace cd) (cd_Credential cd)) w = Inr (sc_cred scope)
     \<and> reads (se_getDataSource env) (cd_Namespace cd) (cd_DataSource cd) w (sc_kine scope)
     \<and> reads (se_getClusterAuthentication env) (cd_Namespace cd) (cld_ClusterAuth cd) w (sc_auth scope)
     \<and> (case sc_rbacPolicy scope of
          None \<Rightarrow> cld_RBACPolicy cd = [] \<or> se_getRBACPolicy env (ObjectKey (cd_Namespace cd) (cld_RBACPolicy cd)) w = Inl NotFound
        | Some p \<Rightarrow> se_getRBACPolicy env (ObjectKey (cd_Namespace cd) (cld_RBACPolicy cd)) w = Inr p)
     \<and> reads (\<lambda>k u. bindE (se_getClusterAuditPolicy env k u) (\<lambda>p. Inr (GetPolicy p))) (cd_Namespace cd) (cld_AuditPolicy cd) w (sc_audit scope)
     \<and> (case sc_region scope of
          None \<Rightarrow> cred_Region (sc_cred scope) = []
        | Some rgn \<Rightarrow> se_getRegion env (cred_Region (sc_cred scope)) w = Inr rgn \<and> (\<exists>c. GetRegionalClient env rgn w = Inr c))
     \<and> (se_webhookDisabled env \<longrightarrow>
          (\<forall>c. sc_auth scope = Some c \<longrightarrow> ValidateClusterAuthentication (se_authLib env) (se_secrets env) c w = None)
        \<and> (\<forall>p. sc_rbacPolicy scope = Some p \<longrightarrow> ValidateRBACPolicy (se_isDNS env) p = None))
     \<and> conditions_only cd cd'"
proof -
  from run obtain cred where cred: "se_getCredential env (ObjectKey (cd_Namespace cd) (cd_Credential cd)) w = Inr cred"
    by (auto simp: getClusterScope_def Let_def split: sum.splits)
  with run obtain kine cd1 auth cd2 policy cd3 audit region where
    s1: "scope_dataSource env cd w = (Inr kine, cd1)" and s2: "scope_auth env cd1 w = (Inr auth, cd2)"
    and s3: "scope_rbacPolicy env cd2 w = (Inr policy, cd3)" and s4: "scope_audit env cd3 w = (Inr audit, cd')"
    and s5: "scope_region env (cred_Region cred) w = Inr region"
    and scope: "scope = \<lparr>sc_cred = cred, sc_kine = kine, sc_auth = auth, sc_rbacPolicy = policy, sc_audit = audit, sc_region = region\<rparr>"
    by (cases "scope_region env (cred_Region cred) w") (auto simp: getClusterScope_def Let_def scope_bind_Inr)
  note d = scope_dataSource_spec [OF s1] and a = scope_auth_spec [OF s2] and r = scope_rbacPolicy_spec [OF s3] and u = scope_audit_spec [OF s4]
  have c2: "conditions_only cd cd2" using d(1) a(1) by (rule conditions_only_trans)
  have c3: "conditions_only cd cd3" using c2 r(1) by (rule conditions_only_trans)
  have "conditions_only cd cd'" using c3 u(1) by (rule conditions_only_trans)
  moreover note conditions_only_fields [OF d(1)] conditions_only_fields [OF c2] conditions_only_fields [OF c3]
  ultimately show ?thesis
    using cred d(2) [OF refl] a(2) [OF refl] a(3) r(2-4) u(2) [OF refl] scope_region_spec [OF s5]
    by (cases policy) (auto simp: scope split: option.splits)
qed

lemma getClusterScope_frame:
  assumes run: "getClusterScope env cd w = (r, cd')"
  shows "conditions_only cd cd'"
proof (cases "se_getCredential env (ObjectKey (cd_Namespace cd) (cd_Credential cd)) w")
  case (Inr cred)
  obtain r1 cd1 where s1: "scope_dataSource env cd w = (r1, cd1)" by fastforce
  obtain r2 cd2 where s2: "scope_auth env cd1 w = (r2, cd2)" by fastforce
  obtain r3 cd3 where s3: "scope_rbacPolicy env cd2 w = (r3, cd3)" by fastforce
  obtain r4 cd4 where s4: "scope_audit env cd3 w = (r4, cd4)" by fastforce
  have "cd' = cd1 \<or> cd' = cd2 \<or> cd' = cd3 \<or> cd' = cd4"
    using run by (cases r1; cases r2; cases r3; cases r4; cases "scope_region env (cred_Region cred) w")
      (simp_all add: getClusterScope_def Let_def Inr s1 s2 s3 s4)
  moreover have c1: "conditions_only cd cd1" by (rule scope_dataSource_spec(1) [OF s1])
  moreover have c2: "conditions_only cd cd2" using c1 scope_auth_spec(1) [OF s2] by (rule conditions_only_trans)
  moreover have c3: "conditions_only cd cd3" using c2 scope_rbacPolicy_spec(1) [OF s3] by (rule conditions_only_trans)
  moreover have "conditions_only cd cd4" using c3 scope_audit_spec(1) [OF s4] by (rule conditions_only_trans)
  ultimately show ?thesis by (elim disjE) simp_all
qed (use run in \<open>auto simp: getClusterScope_def Let_def\<close>)

text \<open>
  What can be invalid: the three objects are validated here only when the webhooks are disabled.
\<close>

definition invalid_object :: "('s, 'w) scope_env \<Rightarrow> Cld \<Rightarrow> 'w \<Rightarrow> string \<Rightarrow> bool" where
  "invalid_object env cd w condition \<longleftrightarrow>
     condition = ClusterAuthenticationReadyCondition \<and> (\<exists>a. se_getClusterAuthentication env (ObjectKey (cd_Namespace cd) (cld_ClusterAuth cd)) w = Inr a
        \<and> ValidateClusterAuthentication (se_authLib env) (se_secrets env) a w \<noteq> None)
   \<or> condition = RBACPolicyReadyCondition \<and> (\<exists>p. se_getRBACPolicy env (ObjectKey (cd_Namespace cd) (cld_RBACPolicy cd)) w = Inr p
        \<and> ValidateRBACPolicy (se_isDNS env) p \<noteq> None)
   \<or> condition = ClusterAuditPolicyReadyCondition \<and> (\<exists>p. se_getClusterAuditPolicy env (ObjectKey (cd_Namespace cd) (cld_AuditPolicy cd)) w = Inr p
        \<and> ValidateClusterAuditPolicy (se_auditLib env) p \<noteq> None)"

definition reported_failed :: "Cld \<Rightarrow> string \<Rightarrow> bool" where
  "reported_failed cd condition \<longleftrightarrow>
     (\<exists>c. find_condition (cld_Conditions cd) condition = Some c \<and> cond_Status c = ConditionFalse \<and> cond_Reason c = FailedReason)"

lemma reported_failed_set [simp]: "cond_laws lib \<Longrightarrow> reported_failed (cld_setCondition lib cd t FailedReason ConditionFalse m) t"
  by (simp add: reported_failed_def cld_condition_def)

lemma scope_auth_stops:
  assumes "cond_laws (se_conds env)" and "scope_auth env cd w = (Inl ScopeNoRetrigger, cd')"
  shows "se_webhookDisabled env \<and> invalid_object env cd w ClusterAuthenticationReadyCondition \<and> reported_failed cd' ClusterAuthenticationReadyCondition"
  using assms by (auto simp: scope_auth_def invalid_object_def Let_def split: if_splits sum.splits option.splits)

lemma scope_rbacPolicy_stops:
  assumes "cond_laws (se_conds env)" and "scope_rbacPolicy env cd w = (Inl ScopeNoRetrigger, cd')"
  shows "se_webhookDisabled env \<and> invalid_object env cd w RBACPolicyReadyCondition \<and> reported_failed cd' RBACPolicyReadyCondition"
  using assms by (auto simp: scope_rbacPolicy_def invalid_object_def Let_def split: if_splits sum.splits option.splits)

lemma scope_audit_stops:
  assumes "cond_laws (se_conds env)" and "scope_audit env cd w = (Inl ScopeNoRetrigger, cd')"
  shows "se_webhookDisabled env \<and> invalid_object env cd w ClusterAuditPolicyReadyCondition \<and> reported_failed cd' ClusterAuditPolicyReadyCondition"
  using assms by (auto simp: scope_audit_def invalid_object_def Let_def split: if_splits sum.splits option.splits)

lemma GetRegionalClient_retriggers: "GetRegionalClient env rgn w \<noteq> Inl ScopeNoRetrigger"
  by (auto simp: GetRegionalClient_def bindE_def wrapE_def Let_def split: option.splits sum.splits)

lemma scope_region_retriggers: "scope_region env region w \<noteq> Inl ScopeNoRetrigger"
  by (auto simp: scope_region_def bindE_def GetRegionalClient_retriggers split: sum.splits)

lemma scope_bind_Inl: "scope_bind r f = (Inl e, cd') \<longleftrightarrow> r = (Inl e, cd') \<or> (\<exists>y cd1. r = (Inr y, cd1) \<and> f y cd1 = (Inl e, cd'))"
  by (auto split: prod.splits sum.splits)

lemma gives_upI:
  assumes "conditions_only cd cd1" and "se_webhookDisabled env \<and> invalid_object env cd1 w t \<and> reported_failed cd' t"
  shows "se_webhookDisabled env \<and> (\<exists>condition. invalid_object env cd w condition \<and> reported_failed cd' condition)"
proof -
  have "invalid_object env cd w t = invalid_object env cd1 w t" by (simp add: invalid_object_def conditions_only_fields [OF assms(1)])
  with assms(2) show ?thesis by (intro conjI exI [where x = t]) simp_all
qed

text \<open>
  A run gives up on a ClusterDeployment without being repeated only when the webhooks are
  disabled and an object it refers to is invalid, and the condition for that object says so.
\<close>

theorem scope_gives_up:
  assumes laws: "cond_laws (se_conds env)" and run: "getClusterScope env cd w = (Inl ScopeNoRetrigger, cd')"
  shows "se_webhookDisabled env \<and> (\<exists>condition. invalid_object env cd w condition \<and> reported_failed cd' condition)"
proof -
  from run obtain cred where cred: "se_getCredential env (ObjectKey (cd_Namespace cd) (cd_Credential cd)) w = Inr cred"
    by (auto simp: getClusterScope_def Let_def split: sum.splits)
  obtain r1 cd1 where s1: "scope_dataSource env cd w = (r1, cd1)" by fastforce
  obtain r2 cd2 where s2: "scope_auth env cd1 w = (r2, cd2)" by fastforce
  obtain r3 cd3 where s3: "scope_rbacPolicy env cd2 w = (r3, cd3)" by fastforce
  obtain r4 cd4 where s4: "scope_audit env cd3 w = (r4, cd4)" by fastforce
  note defs = getClusterScope_def Let_def cred s1 s2 s3 s4
  have c2: "conditions_only cd cd2" using scope_dataSource_spec(1) [OF s1] scope_auth_spec(1) [OF s2] by (rule conditions_only_trans)
  have c3: "conditions_only cd cd3" using c2 scope_rbacPolicy_spec(1) [OF s3] by (rule conditions_only_trans)
  obtain kine where r1: "r1 = Inr kine"
  proof (cases r1)
    case (Inl e)
    with run have "r1 = Inl ScopeNoRetrigger" by (simp add: getClusterScope_def Let_def cred s1)
    with scope_dataSource_spec(3) [OF s1] show thesis by contradiction
  qed
  show ?thesis
  proof (cases r2)
    case (Inl e)
    with run r1 have "scope_auth env cd1 w = (Inl ScopeNoRetrigger, cd')" by (simp add: defs)
    from scope_dataSource_spec(1) [OF s1] scope_auth_stops [OF laws this] show ?thesis by (rule gives_upI)
  next
    case r2: (Inr auth)
    show ?thesis
    proof (cases r3)
      case (Inl e)
      with run r1 r2 have "scope_rbacPolicy env cd2 w = (Inl ScopeNoRetrigger, cd')" by (simp add: defs)
      from c2 scope_rbacPolicy_stops [OF laws this] show ?thesis by (rule gives_upI)
    next
      case r3: (Inr policy)
      with run r1 r2 have "scope_audit env cd3 w = (Inl ScopeNoRetrigger, cd')"
        using scope_region_retriggers [of env "cred_Region cred" w]
        by (cases r4; cases "scope_region env (cred_Region cred) w") (simp_all add: defs)
      from c3 scope_audit_stops [OF laws this] show ?thesis by (rule gives_upI)
    qed
  qed
qed

section \<open>References\<close>

text \<open>
  What is assumed of the index: the list is empty exactly if no ClusterDeployment of the namespace
  has the name among its keys.
\<close>

definition index_law :: "index_client \<Rightarrow> Cld set \<Rightarrow> bool" where
  "index_law list clds \<longleftrightarrow>
     (\<forall>i ns name items. list i ns name = Inr items \<longrightarrow> (items = [] \<longleftrightarrow> (\<forall>cd\<in>clds. cd_Namespace cd = ns \<longrightarrow> name \<notin> set (index_keys i cd))))"

lemma deletionAllowedIfUnreferenced_None:
  assumes "index_law list clds" and "deletionAllowedIfUnreferenced list (ObjectKey ns name) i = None" and "cd \<in> clds" and "cd_Namespace cd = ns"
  shows "name \<notin> set (index_keys i cd)"
  using assms by (auto simp: deletionAllowedIfUnreferenced_def index_law_def split: sum.splits if_splits)

text \<open>
  The deletion of a ClusterAuthentication, RBACPolicy or ClusterAuditPolicy is admitted only when
  no ClusterDeployment of its namespace refers to it, so that no run can miss it.
\<close>

theorem referenced_objects_kept:
  assumes index: "index_law list clds" and cd: "cd \<in> clds"
  shows "(ClusterAuthentication_ValidateDelete list a = None \<and> ca_Namespace a = cd_Namespace cd \<and> ca_Name a \<noteq> [] \<longrightarrow> cld_ClusterAuth cd \<noteq> ca_Name a)
     \<and> (RBACPolicy_ValidateDelete list (cd_Namespace cd) p = None \<and> rp_Name p \<noteq> [] \<longrightarrow> cld_RBACPolicy cd \<noteq> rp_Name p)
     \<and> (ClusterAuditPolicy_ValidateDelete list u = None \<and> cap_Namespace u = cd_Namespace cd \<and> cap_Name u \<noteq> [] \<longrightarrow> cld_AuditPolicy cd \<noteq> cap_Name u)"
proof (intro conjI impI; elim conjE)
  note free = deletionAllowedIfUnreferenced_None [OF index _ cd refl]
  show "cld_ClusterAuth cd \<noteq> ca_Name a" if "ClusterAuthentication_ValidateDelete list a = None" "ca_Namespace a = cd_Namespace cd" "ca_Name a \<noteq> []"
    using free [of "ca_Name a" AuthenticationIndex] that
    by (auto simp: ClusterAuthentication_ValidateDelete_def ClusterAuthenticationDeletionAllowed_def index_keys_def)
  show "cld_RBACPolicy cd \<noteq> rp_Name p" if "RBACPolicy_ValidateDelete list (cd_Namespace cd) p = None" "rp_Name p \<noteq> []"
    using free [of "rp_Name p" RBACPolicyIndex] that by (auto simp: RBACPolicy_ValidateDelete_def RBACPolicyDeletionAllowed_def index_keys_def)
  show "cld_AuditPolicy cd \<noteq> cap_Name u" if "ClusterAuditPolicy_ValidateDelete list u = None" "cap_Namespace u = cd_Namespace cd" "cap_Name u \<noteq> []"
    using free [of "cap_Name u" AuditPolicyIndex] that
    by (auto simp: ClusterAuditPolicy_ValidateDelete_def ClusterAuditPolicyDeletionAllowed_def index_keys_def)
qed

definition example_index :: "Cld list \<Rightarrow> index_client" where
  "example_index clds i ns name = Inr (take 1 (filter (\<lambda>cd. cd_Namespace cd = ns \<and> name \<in> set (index_keys i cd)) clds))"

lemma example_index_law: "index_law (example_index clds) (set clds)"
  by (auto simp: index_law_def example_index_def filter_empty_conv)

theorem referenced_objects_kept_witness:
  "let cd = example_cld\<lparr>cld_ClusterAuth := ''auth''\<rparr>;
       a = \<lparr>ca_Namespace = ''dev'', ca_Name = ''auth'', ca_JWT = None, ca_Anonymous = None, ca_CASecret = ObjectKey [] [], ca_CASecretKey = []\<rparr>
   in ClusterAuthentication_ValidateDelete (example_index [cd]) a \<noteq> None"
proof -
  let ?cd = "example_cld\<lparr>cld_ClusterAuth := ''auth''\<rparr>"
  have "?cd \<in> set [?cd]" "cd_Namespace ?cd = ''dev''" by (simp_all add: example_cld_def ClusterDeployment.defs)
  from referenced_objects_kept [OF example_index_law this(1), THEN conjunct1, rule_format] this(2) show ?thesis by fastforce
qed

end
