(* ===== verification/ClusterServices.thy ===== *)
theory ClusterServices
  imports ClusterStatus ClusterAdmission ServiceSetPipeline
begin

text \<open>
  The services of a ClusterDeployment: \<open>updateServices\<close> and the ServiceSet it writes
  (\<^verbatim>\<open>internal/controller/clusterdeployment_controller.go\<close>). The ServiceSet comes from the pipeline that
  also serves MultiClusterServices; here it is checked against the Kubernetes version of the cluster
  before it is written, once for the services asked for and once for those the ServiceSet carries,
  which may be intermediate steps of an upgrade.
\<close>

section \<open>Definitions\<close>

datatype service_update_error =
    RequestedCheckFailed cluster_error
  | GetServiceSetFailed svcset_error
  | ConstraintViolated cluster_error
  | ResolvedCheckFailed cluster_error
  | ServiceSetWriteFailed svcset_error
  | DependencyCheckFailed dependency_error
  | ListServiceSetsFailed api_error
  | ServiceUpgradePathsFailed svcset_error

definition ServicesK8sCompatibleCondition :: string where "ServicesK8sCompatibleCondition = ''ServicesK8sCompatible''"

text \<open>\<open>errors.Is(err, ErrK8sConstraintViolated)\<close>.\<close>

fun is_violation :: "cluster_error \<Rightarrow> bool" where
  "is_violation (K8sConstraintViolated _) = True"
| "is_violation _ = False"

text \<open>
  The calls: reads of the service pipeline, the ServiceSets of the cluster, and writes of ServiceSets.
  \<open>su_order\<close> and \<open>su_graphOrder\<close> are orders of Go maps in the validation of the dependencies.
\<close>

record ('u, 'v, 'w) service_env =
  su_conds :: cond_lib
  su_lib :: "'u cluster_lib"
  su_pipeline :: "'v pipeline_env"
  su_client :: "'w \<Rightarrow> svc_client"
  su_writer :: "'w write_client"
  su_listServiceSets :: "'w \<Rightarrow> api_error + ServiceSet list"
  su_systemNamespace :: string
  su_webhookDisabled :: bool
  su_order :: "Service list \<Rightarrow> ObjectKey list"
  su_graphOrder :: "Service list \<Rightarrow> ObjectKey list"
  su_show :: "service_update_error \<Rightarrow> string"

text \<open>The templates of a ServiceSet that are checked: those of services the specification does not disable.\<close>

definition checked_templates :: "Cld \<Rightarrow> ServiceSet \<Rightarrow> string list" where
  "checked_templates cd serviceSet =
     (let disabled = map (\<lambda>svc. svc_key svc) (filter svc_Disable (sp_Services (cd_ServiceSpec cd)))
      in map swv_Template (filter (\<lambda>svc. swv_key svc \<notin> set disabled) (sss_Services (sset_Spec serviceSet))))"

definition validateServiceSetK8sCompatibility ::
  "('u, 'v, 'w) service_env \<Rightarrow> svc_client \<Rightarrow> Cld \<Rightarrow> ServiceSet \<Rightarrow> service_update_error option" where
  "validateServiceSetK8sCompatibility env c cd serviceSet =
     (case ServiceTemplatesK8sCompatibility (su_lib env) c (cld_KubernetesVersion cd) (sset_Namespace serviceSet) (checked_templates cd serviceSet) of
        None \<Rightarrow> None
      | Some e \<Rightarrow> Some (if is_violation e then ConstraintViolated e else ResolvedCheckFailed e))"

definition cld_requisites :: "('u, 'v, 'w) service_env \<Rightarrow> Cld \<Rightarrow> OperationRequisites" where
  "cld_requisites env cd =
     \<lparr>op_ObjectKey = ObjectKey (cd_Namespace cd) (cd_Name cd), op_MCS = None, op_CD = Some (ClusterDeployment.truncate cd),
      op_SystemNamespace = su_systemNamespace env\<rparr>"

definition createOrUpdateServiceSet ::
  "('u, 'v, 'w) service_env \<Rightarrow> Cld \<Rightarrow> 'w \<Rightarrow> service_update_error option \<times> 'w" where
  "createOrUpdateServiceSet env cd w =
     (case GetServiceSetWithOperation (su_pipeline env) (su_client env w) (cld_requisites env cd) of
        Inl e \<Rightarrow> (Some (GetServiceSetFailed e), w)
      | Inr (serviceSet, op) \<Rightarrow>
          (case validateServiceSetK8sCompatibility env (su_client env w) cd serviceSet of
             Some e \<Rightarrow> (Some e, w)
           | None \<Rightarrow>
               if op = ServiceSetOperationNone then (None, w)
               else case CreateOrUpdateServiceSet (su_writer env) op serviceSet w of (e, w') \<Rightarrow> (map_option ServiceSetWriteFailed e, w')))"

text \<open>Once the ServiceSet is written: the states of the services and their upgrade paths.\<close>

definition report_services ::
  "('u, 'v, 'w) service_env \<Rightarrow> Cld \<Rightarrow> 'w \<Rightarrow> service_update_error list \<times> Cld" where
  "report_services env cd w =
     (case su_listServiceSets env w of
        Inl e \<Rightarrow> ([ListServiceSetsFailed e], cd)
      | Inr serviceSets \<Rightarrow>
          (case ServicesUpgradePaths (env_order (su_pipeline env)) (su_client env w) (sp_Services (cd_ServiceSpec cd)) (cd_Namespace cd) of
             (upgradePaths, errs) \<Rightarrow>
               (map ServiceUpgradePathsFailed errs,
                setServicesCondition (su_conds env)
                  (cd\<lparr>cld_Services := collectServicesStatuses serviceSets, cld_ServicesUpgradePaths := upgradePaths\<rparr>) serviceSets)))"

definition k8s_condition :: "('u, 'v, 'w) service_env \<Rightarrow> Cld \<Rightarrow> string \<Rightarrow> ConditionStatus \<Rightarrow> string \<Rightarrow> Cld" where
  "k8s_condition env cd reason status msg = cld_setCondition (su_conds env) cd ServicesK8sCompatibleCondition reason status msg"

text \<open>After the requested services and their dependencies were accepted.\<close>

definition write_services ::
  "('u, 'v, 'w) service_env \<Rightarrow> Cld \<Rightarrow> 'w \<Rightarrow> service_update_error list \<times> Cld \<times> 'w" where
  "write_services env cd w =
     (case createOrUpdateServiceSet env cd w of
        (Some e, w') \<Rightarrow>
          (case e of
             ConstraintViolated _ \<Rightarrow> ([], k8s_condition env cd FailedReason ConditionFalse (su_show env e), w')
           | ResolvedCheckFailed _ \<Rightarrow> ([e], k8s_condition env cd ProgressingReason ConditionUnknown (su_show env e), w')
           | _ \<Rightarrow> ([e], cd, w'))
      | (None, w') \<Rightarrow>
          (case report_services env (k8s_condition env cd SucceededReason ConditionTrue []) w' of (errs, cd') \<Rightarrow> (errs, cd', w')))"

definition updateServices ::
  "('u, 'v, 'w) service_env \<Rightarrow> ClusterTemplate \<Rightarrow> Cld \<Rightarrow> 'w \<Rightarrow> service_update_error list \<times> Cld \<times> 'w" where
  "updateServices env clusterTpl cd w =
     (case ClusterTemplateK8sCompatibility (su_lib env) (su_client env w) clusterTpl (ClusterDeployment.truncate cd) of
        Some e \<Rightarrow>
          if is_violation e then ([], k8s_condition env cd FailedReason ConditionFalse (su_show env (RequestedCheckFailed e)), w)
          else ([RequestedCheckFailed e], k8s_condition env cd ProgressingReason ConditionUnknown (su_show env (RequestedCheckFailed e)), w)
      | None \<Rightarrow>
          if \<not> su_webhookDisabled env then write_services env cd w
          else (let services = sp_Services (cd_ServiceSpec cd);
                    put = (\<lambda>reason status msg. cld_setCondition (su_conds env) cd ''ServicesDependencyValidation'' reason status msg)
                in case ValidateServiceDependencyOverall (su_order env services) (su_graphOrder env services) services of
                     Inl e \<Rightarrow> ([], put FailedReason ConditionFalse (su_show env (DependencyCheckFailed e)), w)
                   | Inr _ \<Rightarrow> write_services env (put SucceededReason ConditionTrue []) w))"

section \<open>What is written\<close>

text \<open>The services a ServiceSet carries suit the Kubernetes version of the cluster, as far as it is known.\<close>

definition set_compatible :: "('u, 'v, 'w) service_env \<Rightarrow> svc_client \<Rightarrow> Cld \<Rightarrow> ServiceSet \<Rightarrow> bool" where
  "set_compatible env c cd serviceSet \<longleftrightarrow>
     cld_KubernetesVersion cd = [] \<or> checked_templates cd serviceSet = []
     \<or> (\<exists>version. cl_NewVersion (su_lib env) (cld_KubernetesVersion cd) = Some version
          \<and> (\<forall>t\<in>set (checked_templates cd serviceSet). satisfies_constraints (su_lib env) c (sset_Namespace serviceSet) version t))"

lemma ServiceTemplatesK8sCompatibility_None:
  "ServiceTemplatesK8sCompatibility lib c v ns templates = None \<longleftrightarrow>
     v = [] \<or> templates = [] \<or> (\<exists>version. cl_NewVersion lib v = Some version \<and> (\<forall>t\<in>set templates. satisfies_constraints lib c ns version t))"
  by (cases "cl_NewVersion lib v") (auto simp: ServiceTemplatesK8sCompatibility_def check_constraints_None)

lemma validateServiceSetK8sCompatibility_None:
  "validateServiceSetK8sCompatibility env c cd serviceSet = None \<longleftrightarrow> set_compatible env c cd serviceSet"
  unfolding set_compatible_def ServiceTemplatesK8sCompatibility_None [symmetric]
  by (simp add: validateServiceSetK8sCompatibility_def split: option.splits)

lemma set_condition_irrelevant [simp]:
  "checked_templates (cld_setCondition lib cd t r s m) = checked_templates cd"
  "cld_requisites env (cld_setCondition lib cd t r s m) = cld_requisites env cd"
  "cld_KubernetesVersion (cld_setCondition lib cd t r s m) = cld_KubernetesVersion cd"
  by (auto simp: cld_setCondition_def checked_templates_def cld_requisites_def ClusterDeployment.truncate_def fun_eq_iff)

lemma set_compatible_irrelevant [simp]: "set_compatible env c (cld_setCondition lib cd t r s m) = set_compatible env c cd"
  by (simp add: set_compatible_def fun_eq_iff)

lemma validate_irrelevant [simp]:
  "validateServiceSetK8sCompatibility env c (cld_setCondition lib cd t r s m) = validateServiceSetK8sCompatibility env c cd"
  by (simp add: validateServiceSetK8sCompatibility_def fun_eq_iff)

lemma createOrUpdate_irrelevant [simp]: "createOrUpdateServiceSet env (cld_setCondition lib cd t r s m) = createOrUpdateServiceSet env cd"
  by (rule ext) (simp only: createOrUpdateServiceSet_def set_condition_irrelevant validate_irrelevant)

text \<open>A ServiceSet from the pipeline that is written, and the state after the write.\<close>

definition writes_set :: "('u, 'v, 'w) service_env \<Rightarrow> Cld \<Rightarrow> 'w \<Rightarrow> ServiceSet \<Rightarrow> 'w \<Rightarrow> bool" where
  "writes_set env cd w serviceSet w' \<longleftrightarrow>
     (\<exists>op. GetServiceSetWithOperation (su_pipeline env) (su_client env w) (cld_requisites env cd) = Inr (serviceSet, op)
        \<and> op \<noteq> ServiceSetOperationNone \<and> w' = snd (CreateOrUpdateServiceSet (su_writer env) op serviceSet w))"

lemma createOrUpdateServiceSet_cases:
  assumes "createOrUpdateServiceSet env cd w = (e, w')"
  shows "w' = w \<or> (\<exists>serviceSet. writes_set env cd w serviceSet w' \<and> set_compatible env (su_client env w) cd serviceSet)"
  using assms
  by (auto simp: createOrUpdateServiceSet_def writes_set_def validateServiceSetK8sCompatibility_None [symmetric]
      split: sum.splits prod.splits option.splits if_splits)

lemma createOrUpdateServiceSet_None:
  assumes "createOrUpdateServiceSet env cd w = (None, w')"
  shows "\<exists>serviceSet op. GetServiceSetWithOperation (su_pipeline env) (su_client env w) (cld_requisites env cd) = Inr (serviceSet, op)
     \<and> set_compatible env (su_client env w) cd serviceSet"
  using assms
  by (auto simp: createOrUpdateServiceSet_def validateServiceSetK8sCompatibility_None [symmetric]
      split: sum.splits prod.splits option.splits if_splits)

lemma createOrUpdateServiceSet_violated:
  assumes "createOrUpdateServiceSet env cd w = (Some (ConstraintViolated e), w')"
  shows "w' = w \<and> (\<exists>serviceSet op. GetServiceSetWithOperation (su_pipeline env) (su_client env w) (cld_requisites env cd) = Inr (serviceSet, op)
     \<and> \<not> set_compatible env (su_client env w) cd serviceSet)"
  using assms
  by (auto simp: createOrUpdateServiceSet_def validateServiceSetK8sCompatibility_None [symmetric]
      split: sum.splits prod.splits option.splits if_splits)

lemma write_services_world: "write_services env cd w = (errs, cd', w') \<Longrightarrow> \<exists>e. createOrUpdateServiceSet env cd w = (e, w')"
  by (auto simp: write_services_def split: prod.splits option.splits service_update_error.splits)

lemma report_services_find:
  assumes "cond_laws (su_conds env)" and "report_services env cd w = (errs, cd')"
  shows "find_condition (cld_Conditions cd') ServicesK8sCompatibleCondition = find_condition (cld_Conditions cd) ServicesK8sCompatibleCondition"
  using assms by (auto simp: report_services_def setServicesCondition_def Let_def ServicesK8sCompatibleCondition_def
      ServicesInReadyStateCondition_def split: sum.splits prod.splits)

text \<open>The verdict on the ServiceSet, when no error is reported.\<close>

lemma write_services_verdict:
  assumes laws: "cond_laws (su_conds env)" and run: "write_services env cd w = ([], cd', w')"
  shows "\<exists>serviceSet op c. GetServiceSetWithOperation (su_pipeline env) (su_client env w) (cld_requisites env cd) = Inr (serviceSet, op)
     \<and> find_condition (cld_Conditions cd') ServicesK8sCompatibleCondition = Some c
     \<and> cond_Status c = (if set_compatible env (su_client env w) cd serviceSet then ConditionTrue else ConditionFalse)"
proof -
  obtain e w1 where one: "createOrUpdateServiceSet env cd w = (e, w1)" by fastforce
  show ?thesis
  proof (cases e)
    case None
    obtain errs2 cd2 where rep: "report_services env (k8s_condition env cd SucceededReason ConditionTrue []) w1 = (errs2, cd2)" by fastforce
    with run one None have "cd' = cd2" by (simp add: write_services_def)
    with report_services_find [OF laws rep] laws createOrUpdateServiceSet_None [OF one [unfolded None]] show ?thesis
      by (auto simp: k8s_condition_def cld_condition_def)
  next
    case (Some err)
    with run one obtain x where err: "err = ConstraintViolated x" "cd' = k8s_condition env cd FailedReason ConditionFalse (su_show env err)"
      by (auto simp: write_services_def split: service_update_error.splits)
    with laws createOrUpdateServiceSet_violated [of env cd w x w1] one Some show ?thesis by (auto simp: k8s_condition_def cld_condition_def)
  qed
qed

section \<open>Theorems\<close>

text \<open>
  A ServiceSet is written for a ClusterDeployment only if the services asked for suit the
  Kubernetes version of its template, the services the ServiceSet carries, which an upgrade chain may
  have substituted, suit the version of the cluster, and, without the webhook, the dependencies are
  complete and acyclic. Nothing else is ever written.
\<close>

theorem services_held_back:
  assumes run: "updateServices env clusterTpl cd w = (errs, cd', w')" and written: "w' \<noteq> w"
  shows "k8s_compatible (su_lib env) (su_client env w) clusterTpl (ClusterDeployment.truncate cd)
     \<and> (su_webhookDisabled env \<longrightarrow> ValidateServiceDependencyOverall (su_order env (sp_Services (cd_ServiceSpec cd)))
          (su_graphOrder env (sp_Services (cd_ServiceSpec cd))) (sp_Services (cd_ServiceSpec cd)) = Inr ())
     \<and> (\<exists>serviceSet. writes_set env cd w serviceSet w' \<and> set_compatible env (su_client env w) cd serviceSet)"
proof -
  let ?v = "ValidateServiceDependencyOverall (su_order env (sp_Services (cd_ServiceSpec cd)))
          (su_graphOrder env (sp_Services (cd_ServiceSpec cd))) (sp_Services (cd_ServiceSpec cd))"
  from run written have ok: "ClusterTemplateK8sCompatibility (su_lib env) (su_client env w) clusterTpl (ClusterDeployment.truncate cd) = None"
    by (auto simp: updateServices_def split: option.splits if_splits)
  have deps: "su_webhookDisabled env \<longrightarrow> ?v = Inr ()"
    using run written ok by (cases ?v) (auto simp: updateServices_def Let_def)
  have "\<exists>cd1. write_services env cd1 w = (errs, cd', w') \<and> (cd1 = cd \<or> (\<exists>r s m t. cd1 = cld_setCondition (su_conds env) cd t r s m))"
    using run ok deps by (auto simp: updateServices_def Let_def split: if_splits) blast
  then obtain cd1 where cd1: "cd1 = cd \<or> (\<exists>r s m t. cd1 = cld_setCondition (su_conds env) cd t r s m)"
    and ws: "write_services env cd1 w = (errs, cd', w')" by blast
  from write_services_world [OF ws] obtain e where "createOrUpdateServiceSet env cd1 w = (e, w')" ..
  with cd1 have "createOrUpdateServiceSet env cd w = (e, w')" by auto
  from createOrUpdateServiceSet_cases [OF this] written ok deps show ?thesis by (simp add: ClusterTemplateK8sCompatibility_None)
qed

text \<open>
  When the update of the services reports no error and the dependencies are in order, the
  condition on Kubernetes versions is True or False, and True exactly if both the services asked for
  and those of the ServiceSet computed from them suit the version.
\<close>

theorem k8s_verdict_correct:
  assumes laws: "cond_laws (su_conds env)" and run: "updateServices env clusterTpl cd w = ([], cd', w')"
    and deps: "su_webhookDisabled env \<longrightarrow> ValidateServiceDependencyOverall (su_order env (sp_Services (cd_ServiceSpec cd)))
          (su_graphOrder env (sp_Services (cd_ServiceSpec cd))) (sp_Services (cd_ServiceSpec cd)) = Inr ()"
  shows "\<exists>c. find_condition (cld_Conditions cd') ServicesK8sCompatibleCondition = Some c
     \<and> cond_Status c = (if k8s_compatible (su_lib env) (su_client env w) clusterTpl (ClusterDeployment.truncate cd)
          \<and> (\<exists>serviceSet op. GetServiceSetWithOperation (su_pipeline env) (su_client env w) (cld_requisites env cd) = Inr (serviceSet, op)
               \<and> set_compatible env (su_client env w) cd serviceSet) then ConditionTrue else ConditionFalse)"
proof (cases "ClusterTemplateK8sCompatibility (su_lib env) (su_client env w) clusterTpl (ClusterDeployment.truncate cd)")
  case (Some e)
  with run have "is_violation e" "cd' = k8s_condition env cd FailedReason ConditionFalse (su_show env (RequestedCheckFailed e))"
    by (auto simp: updateServices_def split: if_splits)
  with laws Some show ?thesis
    by (simp add: k8s_condition_def cld_condition_def ClusterTemplateK8sCompatibility_None [symmetric])
next
  case None
  with run deps have "\<exists>cd1. write_services env cd1 w = ([], cd', w') \<and> (cd1 = cd \<or> (\<exists>r s m t. cd1 = cld_setCondition (su_conds env) cd t r s m))"
    by (auto simp: updateServices_def Let_def split: if_splits) blast
  then obtain cd1 where ws: "write_services env cd1 w = ([], cd', w')"
    and cd1: "cd1 = cd \<or> (\<exists>r s m t. cd1 = cld_setCondition (su_conds env) cd t r s m)" by blast
  from cd1 have same: "cld_requisites env cd1 = cld_requisites env cd" "set_compatible env (su_client env w) cd1 = set_compatible env (su_client env w) cd"
    by (auto simp: fun_eq_iff)
  from write_services_verdict [OF laws ws] None show ?thesis unfolding same by (auto simp: ClusterTemplateK8sCompatibility_None)
qed

section \<open>Examples\<close>

text \<open>The cluster of the pipeline example, with templates that have a constraint; the state counts the writes.\<close>

definition example_constrained :: svc_client where
  "example_constrained = example_api\<lparr>getServiceTemplate := (\<lambda>_. Inr \<lparr>st_Version = [], st_Helm = None, st_Valid = True, st_ValidationError = [],
     st_KubernetesConstraint = ''>=1.30''\<rparr>)\<rparr>"

definition example_service_env :: "(nat, nat, nat) service_env" where
  "example_service_env =
     \<lparr>su_conds = example_conditions, su_lib = \<lparr>cl_NewVersion = (\<lambda>s. Some (length s)), cl_NewConstraint = (\<lambda>c. Some (\<lambda>v. length c \<le> v)), cl_validateName = (\<lambda>_. [])\<rparr>,
      su_pipeline = example_env, su_client = (\<lambda>_. example_constrained),
      su_writer = \<lparr>createServiceSet = (\<lambda>_ w. (None, Suc w)), updateServiceSet = (\<lambda>_ w. (None, Suc w))\<rparr>,
      su_listServiceSets = (\<lambda>_. Inr [example_stored_set]), su_systemNamespace = ''kcm-system'', su_webhookDisabled = True,
      su_order = map (\<lambda>s. svc_key s), su_graphOrder = (\<lambda>services. map fst (service_graph services)), su_show = (\<lambda>_. [])\<rparr>"

definition example_served_cld :: Cld where
  "example_served_cld = example_cld\<lparr>cd_Namespace := ''ns'', cd_ServiceSpec := example_spec, cld_KubernetesVersion := ''1.31.0''\<rparr>"

definition example_update :: "service_update_error list \<times> Cld \<times> nat" where
  "example_update = updateServices example_service_env example_aws_template example_served_cld 0"

lemma example_update_run: "fst example_update = [] \<and> snd (snd example_update) = Suc 0"
  by code_simp

lemma example_update_eq: "updateServices example_service_env example_aws_template example_served_cld 0 = ([], fst (snd example_update), Suc 0)"
  using example_update_run unfolding example_update_def by (metis prod.collapse)

lemma example_update_deps:
  "ValidateServiceDependencyOverall (su_order example_service_env (sp_Services (cd_ServiceSpec example_served_cld)))
     (su_graphOrder example_service_env (sp_Services (cd_ServiceSpec example_served_cld))) (sp_Services (cd_ServiceSpec example_served_cld)) = Inr ()"
  by code_simp

theorem services_held_back_witness:
  "\<exists>serviceSet. writes_set example_service_env example_served_cld 0 serviceSet (Suc 0)
     \<and> set_compatible example_service_env example_constrained example_served_cld serviceSet"
  using services_held_back [OF example_update_eq] by (simp add: example_service_env_def)

theorem k8s_verdict_correct_witness:
  "\<exists>c. find_condition (cld_Conditions (fst (snd example_update))) ServicesK8sCompatibleCondition = Some c \<and> cond_Status c \<noteq> ConditionUnknown"
proof -
  have "cond_laws (su_conds example_service_env)" by (simp add: example_service_env_def example_cond_laws)
  from k8s_verdict_correct [OF this example_update_eq] example_update_deps show ?thesis by auto
qed

end
