(* ===== verification/KubeDelete.thy ===== *)
theory KubeDelete
  imports KcmTypes
begin

text \<open>
  The cleanup of a child cluster before it is deleted (\<^verbatim>\<open>internal/util/kube/delete.go\<close>): deletion of all
  objects of a kind but those excluded, and of PersistentVolumeClaims together with the controllers
  of the Pods that use them, each followed by a wait with a timeout.

  Time passes only while the code waits: \<open>tick\<close> is what happens in the cluster between two checks,
  whatever it is. A wait checks at once and then once per interval until the timeout.
\<close>

section \<open>Errors, loops and waits\<close>

text \<open>An API call that failed, with the stage it belongs to; an ownership chain too deep; a timeout.\<close>

datatype cleanup_error =
    CleanupFailed string api_error
  | OwnerChainTooDeep ObjectKey
  | WaitTimedOut

definition found_error :: "string \<Rightarrow> api_error option \<Rightarrow> cleanup_error option" where
  "found_error stage e = (case e of None \<Rightarrow> None | Some NotFound \<Rightarrow> None | Some x \<Rightarrow> Some (CleanupFailed stage x))"

text \<open>A list call whose \<open>NotFound\<close> is ignored leaves the list variable as it was.\<close>

definition relist :: "string \<Rightarrow> 'o list \<Rightarrow> api_error + 'o list \<Rightarrow> cleanup_error + 'o list" where
  "relist stage old r = (case r of Inr xs \<Rightarrow> Inr xs | Inl NotFound \<Rightarrow> Inr old | Inl e \<Rightarrow> Inl (CleanupFailed stage e))"

text \<open>A loop over a slice that ends at the first error.\<close>

fun each :: "('a \<Rightarrow> 'w \<Rightarrow> 'e option \<times> 'w) \<Rightarrow> 'a list \<Rightarrow> 'w \<Rightarrow> 'e option \<times> 'w" where
  "each f [] w = (None, w)"
| "each f (x # xs) w = (case f x w of (Some e, w') \<Rightarrow> (Some e, w') | (None, w') \<Rightarrow> each f xs w')"

text \<open>
  \<open>wait.PollUntilContextTimeout\<close> with an immediate first check. The condition has a state of its own
  (the variable it lists into); an error of it ends the wait.
\<close>

definition interval :: nat where "interval = 500"

fun poll :: "('w \<Rightarrow> 'w) \<Rightarrow> ('l \<Rightarrow> 'w \<Rightarrow> (cleanup_error + bool) \<times> 'l) \<Rightarrow> nat \<Rightarrow> 'l \<Rightarrow> 'w \<Rightarrow> cleanup_error option \<times> 'w" where
  "poll tick cond n l w =
     (case cond l w of
        (Inl e, _) \<Rightarrow> (Some e, w)
      | (Inr True, _) \<Rightarrow> (None, w)
      | (Inr False, l') \<Rightarrow> (case n of 0 \<Rightarrow> (Some WaitTimedOut, w) | Suc m \<Rightarrow> poll tick cond m l' (tick w)))"

declare poll.simps [simp del]

lemma poll_None:
  assumes "poll tick cond n l w = (None, w')"
  shows "\<exists>l1. fst (cond l1 w') = Inr True"
  using assms
proof (induction n arbitrary: l w)
  case 0
  then show ?case
    by (auto simp: poll.simps [of _ _ 0] split: prod.splits sum.splits bool.splits intro!: exI [of _ l])
next
  case (Suc n)
  obtain r l1 where c: "cond l w = (r, l1)" by fastforce
  show ?case
  proof (cases "r = Inr True")
    case True
    with Suc.prems c have "w' = w" by (simp add: poll.simps [of _ _ "Suc n"])
    with c True show ?thesis by (metis fst_conv)
  next
    case False
    with Suc.prems c have "poll tick cond n l1 (tick w) = (None, w')"
      by (auto simp: poll.simps [of _ _ "Suc n"] split: sum.splits bool.splits)
    then show ?thesis by (rule Suc.IH)
  qed
qed

section \<open>Deleting all objects of a kind\<close>

text \<open>
  The calls on one kind of objects. \<open>co_list\<close> lists a namespace, or all of them. The items of a typed
  list have the type of the list, so that the extraction of its items does not fail.
\<close>

record ('o, 'w) coll =
  co_namespaces :: "'w \<Rightarrow> api_error + string list"
  co_list :: "string option \<Rightarrow> 'w \<Rightarrow> api_error + 'o list"
  co_delete :: "'o \<Rightarrow> 'w \<Rightarrow> api_error option \<times> 'w"
  co_deleteAllOf :: "string \<Rightarrow> 'w \<Rightarrow> api_error option \<times> 'w"

definition preserved :: "('o \<Rightarrow> bool) option \<Rightarrow> 'o \<Rightarrow> bool" where
  "preserved exclude x = (case exclude of None \<Rightarrow> False | Some ex \<Rightarrow> ex x)"

definition delete_item :: "('o, 'w) coll \<Rightarrow> ('o \<Rightarrow> bool) option \<Rightarrow> 'o \<Rightarrow> 'w \<Rightarrow> cleanup_error option \<times> 'w" where
  "delete_item c exclude x w =
     (if preserved exclude x then (None, w)
      else case co_delete c x w of (e, w') \<Rightarrow> (found_error ''failed to delete'' e, w'))"

fun delete_namespaces ::
  "('o, 'w) coll \<Rightarrow> ('o \<Rightarrow> bool) option \<Rightarrow> string list \<Rightarrow> 'o list \<Rightarrow> 'w \<Rightarrow> cleanup_error option \<times> 'o list \<times> 'w" where
  "delete_namespaces c exclude [] l w = (None, l, w)"
| "delete_namespaces c exclude (ns # nss) l w =
     (if exclude = None
      then (case co_deleteAllOf c ns w of (e, w') \<Rightarrow>
             (case found_error ''failed to delete collection'' e of
                Some err \<Rightarrow> (Some err, l, w')
              | None \<Rightarrow> delete_namespaces c exclude nss l w'))
      else case relist ''failed to list'' l (co_list c (Some ns) w) of
             Inl e \<Rightarrow> (Some e, l, w)
           | Inr items \<Rightarrow>
               (case each (delete_item c exclude) items w of
                  (Some e, w') \<Rightarrow> (Some e, items, w')
                | (None, w') \<Rightarrow> delete_namespaces c exclude nss items w'))"

definition all_gone :: "('o, 'w) coll \<Rightarrow> ('o \<Rightarrow> bool) option \<Rightarrow> 'o list \<Rightarrow> 'w \<Rightarrow> (cleanup_error + bool) \<times> 'o list" where
  "all_gone c exclude l w =
     (case relist ''failed to list during wait'' l (co_list c None w) of
        Inl e \<Rightarrow> (Inl e, l)
      | Inr objs \<Rightarrow> (Inr (list_all (preserved exclude) objs), objs))"

definition DeleteAllExceptAndWait ::
  "('w \<Rightarrow> 'w) \<Rightarrow> ('o, 'w) coll \<Rightarrow> nat \<Rightarrow> ('o \<Rightarrow> bool) option \<Rightarrow> 'w \<Rightarrow> cleanup_error option \<times> 'w" where
  "DeleteAllExceptAndWait tick c timeout exclude w =
     (case relist ''failed to list namespaces'' [] (co_namespaces c w) of
        Inl e \<Rightarrow> (Some e, w)
      | Inr namespaces \<Rightarrow>
          (case delete_namespaces c exclude namespaces [] w of
             (Some e, _, w') \<Rightarrow> (Some e, w')
           | (None, l, w') \<Rightarrow> poll tick (all_gone c exclude) (timeout div interval) l w'))"

section \<open>The controller of a Pod\<close>

record owner_ref =
  oref_APIVersion :: string
  oref_Kind :: string
  oref_Name :: string
  oref_Controller :: bool

record Owner =
  own_Key :: ObjectKey
  own_Kind :: string
  own_References :: "owner_ref list"
  own_Finalizers :: "string list"

record Pod =
  pod_Key :: ObjectKey
  pod_References :: "owner_ref list"
  pod_Claims :: "string option list"
  pod_Finalizers :: "string list"

record PersistentVolume =
  pv_Name :: string
  pv_ClaimRef :: "ObjectKey option"
  pv_ReclaimPolicy :: string
  pv_Phase :: string

text \<open>\<open>strings.SplitN(apiVersion, "/", 2)\<close>.\<close>

definition split_slash :: "string \<Rightarrow> (string \<times> string) option" where
  "split_slash s =
     (case dropWhile (\<lambda>c. c \<noteq> CHR ''/'') s of [] \<Rightarrow> None | _ # rest \<Rightarrow> Some (takeWhile (\<lambda>c. c \<noteq> CHR ''/'') s, rest))"

definition groupFromAPIVersion :: "string \<Rightarrow> string" where
  "groupFromAPIVersion apiVersion = (case split_slash apiVersion of Some (g, _) \<Rightarrow> g | None \<Rightarrow> [])"

definition versionFromAPIVersion :: "string \<Rightarrow> string" where
  "versionFromAPIVersion apiVersion = (case split_slash apiVersion of Some (_, v) \<Rightarrow> v | None \<Rightarrow> apiVersion)"

definition allowedOwnerKinds :: "string list" where
  "allowedOwnerKinds = [''apps/Deployment'', ''apps/StatefulSet'', ''apps/ReplicaSet'', ''apps/DaemonSet'', ''batch/Job'', ''batch/CronJob'']"

definition allowed_owner :: "owner_ref \<Rightarrow> bool" where
  "allowed_owner r = (groupFromAPIVersion (oref_APIVersion r) @ ''/'' @ oref_Kind r \<in> set allowedOwnerKinds)"

definition controller_of :: "owner_ref list \<Rightarrow> owner_ref option" where
  "controller_of refs = find oref_Controller refs"

text \<open>Reading an owner: not found, not permitted, another error, or the object.\<close>

datatype owner_read = OwnerNotFound | OwnerForbidden | OwnerUnreadable api_error | OwnerRead Owner

text \<open>\<open>getOwner\<close> takes group, version, kind and key. The number is how many references may still be followed.\<close>

type_synonym owner_reader = "string \<Rightarrow> string \<Rightarrow> string \<Rightarrow> ObjectKey \<Rightarrow> owner_read"

definition read_owner :: "owner_reader \<Rightarrow> string \<Rightarrow> owner_ref \<Rightarrow> owner_read" where
  "read_owner getOwner ns r =
     getOwner (groupFromAPIVersion (oref_APIVersion r)) (versionFromAPIVersion (oref_APIVersion r)) (oref_Kind r) (ObjectKey ns (oref_Name r))"

fun walk_owners :: "owner_reader \<Rightarrow> ObjectKey \<Rightarrow> nat \<Rightarrow> owner_ref \<Rightarrow> Owner option \<Rightarrow> cleanup_error + Owner option" where
  "walk_owners getOwner key 0 r lastAllowed = Inl (OwnerChainTooDeep key)"
| "walk_owners getOwner key (Suc n) r lastAllowed =
     (if \<not> allowed_owner r then Inr lastAllowed
      else case read_owner getOwner (ok_Namespace key) r of
             OwnerNotFound \<Rightarrow> Inr lastAllowed
           | OwnerForbidden \<Rightarrow> Inr lastAllowed
           | OwnerUnreadable e \<Rightarrow> Inl (CleanupFailed ''failed to get owner'' e)
           | OwnerRead u \<Rightarrow>
               (case controller_of (own_References u) of
                  None \<Rightarrow> Inr (Some u)
                | Some next \<Rightarrow> walk_owners getOwner key n next (Some u)))"

definition maxDepth :: nat where "maxDepth = 10"

definition findTopLevelAllowedController :: "owner_reader \<Rightarrow> ObjectKey \<Rightarrow> owner_ref list \<Rightarrow> cleanup_error + Owner option" where
  "findTopLevelAllowedController getOwner key refs =
     (case controller_of refs of None \<Rightarrow> Inr None | Some r \<Rightarrow> walk_owners getOwner key maxDepth r None)"

section \<open>Deleting claims\<close>

text \<open>
  The calls on claims, Pods, their owners and volumes. A PersistentVolumeClaim is given by its key.
  \<open>ck_getPod\<close> and \<open>ck_rereadOwner\<close> read an object again before its finalizers are removed.
\<close>

record 'w child_kube =
  ck_namespaces :: "'w \<Rightarrow> api_error + string list"
  ck_listPVCs :: "string \<Rightarrow> 'w \<Rightarrow> api_error + ObjectKey list"
  ck_getPVC :: "ObjectKey \<Rightarrow> 'w \<Rightarrow> api_error + ObjectKey"
  ck_listPods :: "string \<Rightarrow> 'w \<Rightarrow> api_error + Pod list"
  ck_getOwner :: "'w \<Rightarrow> owner_reader"
  ck_listPVs :: "'w \<Rightarrow> api_error + PersistentVolume list"
  ck_getPV :: "string \<Rightarrow> 'w \<Rightarrow> api_error + PersistentVolume"
  ck_deletePod :: "Pod \<Rightarrow> 'w \<Rightarrow> api_error option \<times> 'w"
  ck_deleteOwner :: "Owner \<Rightarrow> 'w \<Rightarrow> api_error option \<times> 'w"
  ck_deletePVC :: "ObjectKey \<Rightarrow> 'w \<Rightarrow> api_error option \<times> 'w"
  ck_getPod :: "Pod \<Rightarrow> 'w \<Rightarrow> api_error + Pod"
  ck_rereadOwner :: "Owner \<Rightarrow> 'w \<Rightarrow> api_error + Owner"
  ck_updatePod :: "Pod \<Rightarrow> 'w \<Rightarrow> api_error option \<times> 'w"
  ck_updateOwner :: "Owner \<Rightarrow> 'w \<Rightarrow> api_error option \<times> 'w"

text \<open>
  \<open>removeFinalizers\<close> for an object with the finalizers \<open>fins\<close>. A \<open>NotFound\<close> is ignored, and the object
  is then updated as it was. \<open>strip\<close> is \<open>SetFinalizers(nil)\<close>.
\<close>

definition removeFinalizers ::
  "string list \<Rightarrow> ('a \<Rightarrow> 'w \<Rightarrow> api_error + 'a) \<Rightarrow> ('a \<Rightarrow> 'a) \<Rightarrow> ('a \<Rightarrow> 'w \<Rightarrow> api_error option \<times> 'w) \<Rightarrow> 'a \<Rightarrow> 'w
     \<Rightarrow> cleanup_error option \<times> 'w" where
  "removeFinalizers fins get strip upd obj w =
     (if fins = [] then (None, w)
      else case get obj w of
             Inl NotFound \<Rightarrow> (case upd (strip obj) w of (e, w') \<Rightarrow> (found_error ''failed to update'' e, w'))
           | Inl e \<Rightarrow> (Some (CleanupFailed ''failed to get'' e), w)
           | Inr obj1 \<Rightarrow> (case upd (strip obj1) w of (e, w') \<Rightarrow> (found_error ''failed to update'' e, w')))"

definition findPodsUsingPVC :: "'w child_kube \<Rightarrow> string \<Rightarrow> string \<Rightarrow> 'w \<Rightarrow> cleanup_error + Pod list" where
  "findPodsUsingPVC ck ns claimName w =
     (case relist ''failed to list pods'' [] (ck_listPods ck ns w) of
        Inl e \<Rightarrow> Inl e
      | Inr pods \<Rightarrow> Inr (filter (\<lambda>p. Some claimName \<in> set (pod_Claims p)) pods))"

text \<open>A failure to remove finalizers is logged only.\<close>

definition release_pod :: "'w child_kube \<Rightarrow> Pod \<Rightarrow> 'w \<Rightarrow> cleanup_error option \<times> 'w" where
  "release_pod ck pod w =
     (case findTopLevelAllowedController (ck_getOwner ck w) (pod_Key pod) (pod_References pod) of
        Inl e \<Rightarrow> (Some e, w)
      | Inr None \<Rightarrow>
          (case ck_deletePod ck pod w of (e, w1) \<Rightarrow>
             (case found_error ''failed to delete pod'' e of
                Some err \<Rightarrow> (Some err, w1)
              | None \<Rightarrow> (None, snd (removeFinalizers (pod_Finalizers pod) (ck_getPod ck) (\<lambda>p. p\<lparr>pod_Finalizers := []\<rparr>) (ck_updatePod ck) pod w1))))
      | Inr (Some topOwner) \<Rightarrow>
          (case ck_deleteOwner ck topOwner w of (e, w1) \<Rightarrow>
             (case found_error ''failed to delete owner'' e of
                Some err \<Rightarrow> (Some err, w1)
              | None \<Rightarrow> (None, snd (removeFinalizers (own_Finalizers topOwner) (ck_rereadOwner ck) (\<lambda>u. u\<lparr>own_Finalizers := []\<rparr>)
                           (ck_updateOwner ck) topOwner w1)))))"

definition delete_claim :: "'w child_kube \<Rightarrow> (ObjectKey \<Rightarrow> bool) option \<Rightarrow> string \<Rightarrow> ObjectKey \<Rightarrow> 'w \<Rightarrow> cleanup_error option \<times> 'w" where
  "delete_claim ck exclude ns pvc w =
     (if preserved exclude pvc then (None, w)
      else case findPodsUsingPVC ck ns (ok_Name pvc) w of
             Inl e \<Rightarrow> (Some e, w)
           | Inr pods \<Rightarrow>
               (case each (release_pod ck) pods w of
                  (Some e, w') \<Rightarrow> (Some e, w')
                | (None, w') \<Rightarrow> (case ck_deletePVC ck pvc w' of (e, w'') \<Rightarrow> (found_error ''failed to delete pvc'' e, w''))))"

definition delete_claims_in :: "'w child_kube \<Rightarrow> (ObjectKey \<Rightarrow> bool) option \<Rightarrow> string \<Rightarrow> 'w \<Rightarrow> cleanup_error option \<times> 'w" where
  "delete_claims_in ck exclude ns w =
     (case relist ''failed to list PVCs'' [] (ck_listPVCs ck ns w) of
        Inl e \<Rightarrow> (Some e, w)
      | Inr pvcs \<Rightarrow> each (delete_claim ck exclude ns) pvcs w)"

text \<open>The volumes to wait for, with their reclaim policies, in the order in which they are listed.\<close>

definition waits_for :: "'w child_kube \<Rightarrow> (ObjectKey \<Rightarrow> bool) option \<Rightarrow> 'w \<Rightarrow> PersistentVolume \<Rightarrow> cleanup_error + bool" where
  "waits_for ck exclude w pv =
     (case pv_ClaimRef pv of
        None \<Rightarrow> Inr False
      | Some claim \<Rightarrow>
          (case ck_getPVC ck claim w of
             Inl NotFound \<Rightarrow> Inr True
           | Inl e \<Rightarrow> Inl (CleanupFailed ''failed to get PVC'' e)
           | Inr pvc \<Rightarrow> Inr (\<not> preserved exclude pvc)))"

definition collectPersistentVolumeNames ::
  "'w child_kube \<Rightarrow> (ObjectKey \<Rightarrow> bool) option \<Rightarrow> 'w \<Rightarrow> cleanup_error + (string \<times> string) list" where
  "collectPersistentVolumeNames ck exclude w =
     (case ck_listPVs ck w of
        Inl e \<Rightarrow> Inl (CleanupFailed ''failed to list PVs'' e)
      | Inr pvs \<Rightarrow>
          foldE (\<lambda>pv m. bindE (waits_for ck exclude w pv) (\<lambda>b. Inr (if b then AList.update (pv_Name pv) (pv_ReclaimPolicy pv) m else m))) pvs [])"

definition volume_done :: "'w child_kube \<Rightarrow> string \<Rightarrow> string \<Rightarrow> 'w \<Rightarrow> cleanup_error + bool" where
  "volume_done ck pvName reclaim w =
     (if reclaim = ''Recycle'' then Inr True
      else case ck_getPV ck pvName w of
             Inl NotFound \<Rightarrow> Inr True
           | Inl e \<Rightarrow> Inl (CleanupFailed ''failed to get PV'' e)
           | Inr pv \<Rightarrow> Inr (reclaim \<noteq> ''Delete'' \<and> (pv_Phase pv = ''Released'' \<or> pv_ClaimRef pv = None)))"

definition wait_volume :: "('w \<Rightarrow> 'w) \<Rightarrow> 'w child_kube \<Rightarrow> nat \<Rightarrow> string \<times> string \<Rightarrow> 'w \<Rightarrow> cleanup_error option \<times> 'w" where
  "wait_volume tick ck timeout = (\<lambda>(pvName, reclaim). poll tick (\<lambda>_ w. (volume_done ck pvName reclaim w, ())) (timeout div interval) ())"

text \<open>\<open>order\<close> is the order in which Go ranges over the map of volumes.\<close>

definition DeletePVCsAndOwnersAndWait ::
  "('w \<Rightarrow> 'w) \<Rightarrow> 'w child_kube \<Rightarrow> ((string \<times> string) list \<Rightarrow> (string \<times> string) list) \<Rightarrow> nat \<Rightarrow> (ObjectKey \<Rightarrow> bool) option \<Rightarrow> 'w
     \<Rightarrow> cleanup_error option \<times> 'w" where
  "DeletePVCsAndOwnersAndWait tick ck order timeout exclude w =
     (case relist ''failed to list namespaces'' [] (ck_namespaces ck w) of
        Inl e \<Rightarrow> (Some e, w)
      | Inr namespaces \<Rightarrow>
          (case collectPersistentVolumeNames ck exclude w of
             Inl e \<Rightarrow> (Some e, w)
           | Inr pvWaitList \<Rightarrow>
               (case each (delete_claims_in ck exclude) namespaces w of
                  (Some e, w') \<Rightarrow> (Some e, w')
                | (None, w') \<Rightarrow> each (wait_volume tick ck timeout) (order pvWaitList) w')))"


section \<open>What a run leaves in order\<close>

text \<open>
  A relation between an earlier and a later state of a cluster that is kept along a run: every loop
  and every wait keeps it if the calls and the passing of time do.
\<close>

locale run_order =
  fixes R :: "'w \<Rightarrow> 'w \<Rightarrow> bool"
  assumes refl: "R w w" and trans: "R a b \<Longrightarrow> R b c \<Longrightarrow> R a c"
begin

lemma each_rel:
  assumes step: "\<And>x w e w'. x \<in> set xs \<Longrightarrow> f x w = (e, w') \<Longrightarrow> R w w'" and run: "each f xs w = (e, w')"
  shows "R w w'"
  using run step
proof (induction xs arbitrary: w)
  case Nil
  then show ?case by (simp add: refl)
next
  case (Cons x xs)
  obtain e1 w1 where one: "f x w = (e1, w1)" by fastforce
  then have "R w w1" by (rule Cons.prems(2) [rotated]) simp
  moreover have "R w1 w'"
  proof (cases e1)
    case None
    with Cons.prems(1) one have "each f xs w1 = (e, w')" by simp
    then show ?thesis by (rule Cons.IH) (auto intro: Cons.prems(2))
  qed (use Cons.prems(1) one in \<open>simp add: refl\<close>)
  ultimately show ?case by (rule trans)
qed

lemma poll_rel:
  assumes tick: "\<And>w. R w (tick w)" and run: "poll tick cond n l w = (e, w')"
  shows "R w w'"
  using run
proof (induction n arbitrary: l w)
  case 0
  then show ?case by (auto simp: poll.simps [of _ _ 0] refl split: prod.splits sum.splits bool.splits)
next
  case (Suc n)
  then show ?case
    using trans [OF tick] by (auto simp: poll.simps [of _ _ "Suc n"] refl split: prod.splits sum.splits bool.splits)
qed

lemma delete_namespaces_rel:
  assumes del: "\<And>x w e w'. delete_item c (Some ex) x w = (e, w') \<Longrightarrow> R w w'"
    and run: "delete_namespaces c (Some ex) nss l w = (e, l', w')"
  shows "R w w'"
  using run
proof (induction nss arbitrary: l w)
  case (Cons ns nss)
  show ?case
  proof (cases "relist ''failed to list'' l (co_list c (Some ns) w)")
    case (Inr items)
    obtain e1 w1 where one: "each (delete_item c (Some ex)) items w = (e1, w1)" by fastforce
    from each_rel [OF del this] have "R w w1" .
    with Cons Inr one show ?thesis by (cases e1) (auto intro: trans)
  qed (use Cons.prems in \<open>simp add: refl\<close>)
qed (simp add: refl)

text \<open>How a run of the deletion of all objects of a kind is put together.\<close>

lemma DeleteAllExceptAndWait_rel:
  assumes del: "\<And>x w e w'. delete_item c (Some ex) x w = (e, w') \<Longrightarrow> R w w'" and tick: "\<And>w. R w (tick w)"
    and run: "DeleteAllExceptAndWait tick c timeout (Some ex) w = (e, w')"
  shows "R w w'"
proof (cases "relist ''failed to list namespaces'' [] (co_namespaces c w)")
  case (Inr nss)
  obtain e1 l w1 where one: "delete_namespaces c (Some ex) nss [] w = (e1, l, w1)" by (metis prod_cases3)
  from delete_namespaces_rel [OF del one] have "R w w1" .
  with run Inr one show ?thesis
    by (cases e1) (auto simp: DeleteAllExceptAndWait_def intro: trans poll_rel [OF tick])
qed (use run in \<open>simp add: DeleteAllExceptAndWait_def refl\<close>)

lemma removeFinalizers_rel:
  assumes "\<And>x w e w'. upd x w = (e, w') \<Longrightarrow> R w w'" and "removeFinalizers fins get strip upd x w = (e, w')"
  shows "R w w'"
  using assms(2) by (auto simp: removeFinalizers_def refl dest: assms(1) split: if_splits sum.splits api_error.splits prod.splits)

text \<open>The calls that write to the child cluster keep the relation.\<close>

definition writes_rel :: "'w child_kube \<Rightarrow> bool" where
  "writes_rel ck \<longleftrightarrow>
     (\<forall>x w e w'. ck_deletePod ck x w = (e, w') \<longrightarrow> R w w') \<and> (\<forall>x w e w'. ck_deleteOwner ck x w = (e, w') \<longrightarrow> R w w')
   \<and> (\<forall>x w e w'. ck_deletePVC ck x w = (e, w') \<longrightarrow> R w w') \<and> (\<forall>x w e w'. ck_updatePod ck x w = (e, w') \<longrightarrow> R w w')
   \<and> (\<forall>x w e w'. ck_updateOwner ck x w = (e, w') \<longrightarrow> R w w')"

lemma release_step_rel:
  assumes del: "R w w1" and upd: "\<And>x w e w'. upd x w = (e, w') \<Longrightarrow> R w w'"
    and out: "(case err of Some e \<Rightarrow> (Some e, w1) | None \<Rightarrow> (None, snd (removeFinalizers fins get strip upd x w1))) = (e, w')"
  shows "R w w'"
proof -
  obtain e2 w2 where "removeFinalizers fins get strip upd x w1 = (e2, w2)" by fastforce
  with removeFinalizers_rel [OF upd this] out trans [OF del] del show ?thesis by (cases err) auto
qed

lemma release_pod_rel:
  assumes laws: "writes_rel ck" and run: "release_pod ck pod w = (e, w')"
  shows "R w w'"
proof (cases "findTopLevelAllowedController (ck_getOwner ck w) (pod_Key pod) (pod_References pod)")
  case (Inl err)
  with run show ?thesis by (simp add: release_pod_def refl)
next
  case (Inr top_owner)
  show ?thesis
  proof (cases top_owner)
    case None
    obtain e1 w1 where del: "ck_deletePod ck pod w = (e1, w1)" by fastforce
    with laws have one: "R w w1" unfolding writes_rel_def by blast
    have upd: "R a b" if "ck_updatePod ck x a = (e, b)" for x a e b using laws that unfolding writes_rel_def by blast
    show ?thesis by (rule release_step_rel [where upd = "ck_updatePod ck", OF one upd run [unfolded release_pod_def Inr None del sum.case option.case prod.case]])
  next
    case (Some u)
    obtain e1 w1 where del: "ck_deleteOwner ck u w = (e1, w1)" by fastforce
    with laws have one: "R w w1" unfolding writes_rel_def by blast
    have upd: "R a b" if "ck_updateOwner ck x a = (e, b)" for x a e b using laws that unfolding writes_rel_def by blast
    show ?thesis by (rule release_step_rel [where upd = "ck_updateOwner ck", OF one upd run [unfolded release_pod_def Inr Some del sum.case option.case prod.case]])
  qed
qed

lemma delete_claim_rel:
  assumes laws: "writes_rel ck" and run: "delete_claim ck exclude ns pvc w = (e, w')"
  shows "R w w'"
proof (cases "preserved exclude pvc")
  case False
  show ?thesis
  proof (cases "findPodsUsingPVC ck ns (ok_Name pvc) w")
    case (Inr pods)
    obtain e1 w1 where one: "each (release_pod ck) pods w = (e1, w1)" by fastforce
    have first: "R w w1" by (rule each_rel [OF release_pod_rel [OF laws] one])
    obtain e2 w2 where two: "ck_deletePVC ck pvc w1 = (e2, w2)" by fastforce
    with laws have "R w1 w2" unfolding writes_rel_def by blast
    with run False Inr one two first trans [OF first] show ?thesis by (cases e1) (auto simp: delete_claim_def)
  qed (use run False in \<open>simp add: delete_claim_def refl\<close>)
qed (use run in \<open>simp add: delete_claim_def refl\<close>)

lemma delete_claims_in_rel:
  assumes laws: "writes_rel ck" and run: "delete_claims_in ck exclude ns w = (e, w')"
  shows "R w w'"
  using run each_rel [OF delete_claim_rel [OF laws]] by (auto simp: delete_claims_in_def refl split: sum.splits)

lemma wait_volume_rel:
  assumes tick: "\<And>w. R w (tick w)" and run: "wait_volume tick ck timeout x w = (e, w')"
  shows "R w w'"
proof -
  obtain n r where x: "x = (n, r)" by fastforce
  show ?thesis by (rule poll_rel [OF tick run [unfolded x wait_volume_def prod.case]])
qed

lemma DeletePVCsAndOwnersAndWait_rel:
  assumes laws: "writes_rel ck" and tick: "\<And>w. R w (tick w)"
    and run: "DeletePVCsAndOwnersAndWait tick ck order timeout exclude w = (e, w')"
  shows "R w w'"
proof (cases "relist ''failed to list namespaces'' [] (ck_namespaces ck w)")
  case (Inr nss)
  show ?thesis
  proof (cases "collectPersistentVolumeNames ck exclude w")
    case two: (Inr m)
    obtain e1 w1 where one: "each (delete_claims_in ck exclude) nss w = (e1, w1)" by fastforce
    have first: "R w w1" by (rule each_rel [OF delete_claims_in_rel [OF laws] one])
    show ?thesis
    proof (cases e1)
      case None
      with run Inr one two have waits: "each (wait_volume tick ck timeout) (order m) w1 = (e, w')"
        by (simp add: DeletePVCsAndOwnersAndWait_def)
      have "R w1 w'" by (rule each_rel [OF wait_volume_rel [OF tick] waits])
      with first show ?thesis by (rule trans)
    qed (use run Inr one two first in \<open>simp add: DeletePVCsAndOwnersAndWait_def\<close>)
  qed (use run Inr in \<open>simp add: DeletePVCsAndOwnersAndWait_def refl\<close>)
qed (use run in \<open>simp add: DeletePVCsAndOwnersAndWait_def refl\<close>)

end

section \<open>Objects of a kind\<close>

text \<open>
  What is assumed of the calls: \<open>objs\<close> are the objects there are; a list of all namespaces returns them,
  and finds nothing only if there is none; a deletion touches no other object.
\<close>

definition coll_laws :: "('o, 'w) coll \<Rightarrow> ('w \<Rightarrow> 'o set) \<Rightarrow> bool" where
  "coll_laws c objs \<longleftrightarrow>
     (\<forall>w xs. co_list c None w = Inr xs \<longrightarrow> set xs = objs w)
   \<and> (\<forall>w. co_list c None w = Inl NotFound \<longrightarrow> objs w = {})
   \<and> (\<forall>x w e w'. co_delete c x w = (e, w') \<longrightarrow> objs w - {x} \<subseteq> objs w')"

text \<open>The excluded objects of a state are still there in a later one.\<close>

definition keeps :: "('w \<Rightarrow> 'o set) \<Rightarrow> ('o \<Rightarrow> bool) \<Rightarrow> 'w \<Rightarrow> 'w \<Rightarrow> bool" where
  "keeps objs ex w w' \<longleftrightarrow> (\<forall>x\<in>objs w. ex x \<longrightarrow> x \<in> objs w')"

lemma keeps_refl [simp]: "keeps objs ex w w"
  by (simp add: keeps_def)

lemma keeps_trans: "keeps objs ex a b \<Longrightarrow> keeps objs ex b c \<Longrightarrow> keeps objs ex a c"
  by (auto simp: keeps_def)

interpretation kept: run_order "keeps objs ex" for objs ex
  by unfold_locales (simp, rule keeps_trans)

lemma delete_item_keeps:
  assumes "coll_laws c objs" and "delete_item c (Some ex) x w = (e, w')"
  shows "keeps objs ex w w'"
proof (cases "ex x")
  case False
  obtain e1 w1 where "co_delete c x w = (e1, w1)" by fastforce
  with assms(2) False have del: "co_delete c x w = (e1, w')" by (simp add: delete_item_def preserved_def)
  have "objs w - {x} \<subseteq> objs w'" by (rule assms(1) [unfolded coll_laws_def, THEN conjunct2, THEN conjunct2, rule_format, OF del])
  with False show ?thesis by (auto simp: keeps_def)
qed (use assms in \<open>simp add: delete_item_def preserved_def\<close>)

lemma all_gone_sound:
  assumes "coll_laws c objs" and "fst (all_gone c exclude l w) = Inr True"
  shows "\<forall>x\<in>objs w. preserved exclude x"
  using assms by (auto simp: all_gone_def relist_def coll_laws_def list_all_iff split: sum.splits api_error.splits)

lemma DeleteAllExceptAndWait_spec:
  assumes laws: "coll_laws c objs" and run: "DeleteAllExceptAndWait tick c timeout (Some ex) w = (e, w')"
  shows "e = None \<Longrightarrow> \<forall>x\<in>objs w'. ex x" and "(\<And>w. keeps objs ex w (tick w)) \<Longrightarrow> keeps objs ex w w'"
proof -
  show "\<forall>x\<in>objs w'. ex x" if "e = None"
  proof -
    from run that obtain l w1 where p: "poll tick (all_gone c (Some ex)) (timeout div interval) l w1 = (None, w')"
      by (auto simp: DeleteAllExceptAndWait_def split: sum.splits prod.splits option.splits)
    from poll_None [OF p] all_gone_sound [OF laws, of "Some ex"] show ?thesis by (auto simp: preserved_def)
  qed
  show "keeps objs ex w w'" if "\<And>w. keeps objs ex w (tick w)"
    by (rule kept.DeleteAllExceptAndWait_rel [OF delete_item_keeps [OF laws] that run])
qed

section \<open>Owners\<close>

text \<open>
  Going up from a reference: \<open>climbs r us\<close> if \<open>us\<close> are the owners read one after the other, each of an
  allowed kind and each the controller of the one before. \<open>stops\<close> is where the way ends.
\<close>

inductive climbs :: "owner_reader \<Rightarrow> string \<Rightarrow> owner_ref \<Rightarrow> Owner list \<Rightarrow> bool" for getOwner ns where
  first: "allowed_owner r \<Longrightarrow> read_owner getOwner ns r = OwnerRead u \<Longrightarrow> climbs getOwner ns r [u]"
| up: "allowed_owner r \<Longrightarrow> read_owner getOwner ns r = OwnerRead u \<Longrightarrow> controller_of (own_References u) = Some next
    \<Longrightarrow> climbs getOwner ns next us \<Longrightarrow> climbs getOwner ns r (u # us)"

definition stops :: "owner_reader \<Rightarrow> string \<Rightarrow> owner_ref option \<Rightarrow> bool" where
  "stops getOwner ns ref =
     (case ref of None \<Rightarrow> True | Some r \<Rightarrow> \<not> allowed_owner r \<or> read_owner getOwner ns r \<in> {OwnerNotFound, OwnerForbidden})"

lemma climbs_nonempty: "climbs getOwner ns r us \<Longrightarrow> us \<noteq> []"
  by (induction rule: climbs.induct) auto

lemma walk_owners_Inr:
  assumes "walk_owners getOwner key n r lst = Inr res"
  shows "res = lst \<and> stops getOwner (ok_Namespace key) (Some r)
     \<or> (\<exists>us. climbs getOwner (ok_Namespace key) r us \<and> length us \<le> n \<and> res = Some (last us)
          \<and> stops getOwner (ok_Namespace key) (controller_of (own_References (last us))))"
  using assms
proof (induction getOwner key n r lst rule: walk_owners.induct)
  case (2 getOwner key n r lst)
  show ?case
  proof (cases "allowed_owner r \<and> (\<exists>u. read_owner getOwner (ok_Namespace key) r = OwnerRead u)")
    case True
    then obtain u where u: "allowed_owner r" "read_owner getOwner (ok_Namespace key) r = OwnerRead u" by blast
    show ?thesis
    proof (cases "controller_of (own_References u)")
      case None
      with 2(2) u have "res = Some u" by simp
      with u None show ?thesis by (intro disjI2 exI [of _ "[u]"]) (simp add: climbs.first stops_def)
    next
      case (Some nxt)
      with 2(2) u have "walk_owners getOwner key n nxt (Some u) = Inr res" by simp
      from 2(1) [OF _ u(2) Some this] u(1) consider "res = Some u" "stops getOwner (ok_Namespace key) (Some nxt)"
        | us where "climbs getOwner (ok_Namespace key) nxt us" "length us \<le> n" "res = Some (last us)"
            "stops getOwner (ok_Namespace key) (controller_of (own_References (last us)))" by auto
      then show ?thesis
      proof cases
        case 1
        with u Some show ?thesis by (intro disjI2 exI [of _ "[u]"]) (simp add: climbs.first)
      next
        case (2 us)
        with climbs_nonempty [OF 2(1)] u Some show ?thesis
          by (intro disjI2 exI [of _ "u # us"]) (auto intro: climbs.up)
      qed
    qed
  next
    case False
    with 2(2) show ?thesis by (auto simp: stops_def split: if_splits owner_read.splits)
  qed
qed simp

text \<open>The way up from a reference is unique as far as it goes, so that running into the limit means a long way.\<close>

lemma walk_owners_deep:
  assumes "walk_owners getOwner key (Suc n) r lst = Inl (OwnerChainTooDeep k)"
  shows "k = key \<and> (\<exists>us. climbs getOwner (ok_Namespace key) r us \<and> length us = Suc n \<and> controller_of (own_References (last us)) \<noteq> None)"
  using assms
proof (induction n arbitrary: r lst)
  case (Suc n)
  from Suc.prems obtain u nxt where u: "allowed_owner r" "read_owner getOwner (ok_Namespace key) r = OwnerRead u"
    "controller_of (own_References u) = Some nxt" and rest: "walk_owners getOwner key (Suc n) nxt (Some u) = Inl (OwnerChainTooDeep k)"
    by (auto simp del: walk_owners.simps(2) simp: walk_owners.simps(2) [of _ _ "Suc n"] split: if_splits owner_read.splits option.splits)
  from Suc.IH [OF rest] obtain us where us: "k = key" "climbs getOwner (ok_Namespace key) nxt us" "length us = Suc n"
    "controller_of (own_References (last us)) \<noteq> None" by blast
  with climbs_nonempty [OF us(2)] u show ?case by (auto intro!: exI [of _ "u # us"] intro: climbs.up)
next
  case 0
  then obtain u nxt where "allowed_owner r" "read_owner getOwner (ok_Namespace key) r = OwnerRead u"
    "controller_of (own_References u) = Some nxt" "k = key"
    by (auto split: if_splits owner_read.splits option.splits)
  then show ?case by (auto intro!: exI [of _ "[u]"] intro: climbs.first)
qed

section \<open>Volumes\<close>

text \<open>A volume that needs no more waiting: recycled, gone, or, unless it is to be deleted, released.\<close>

definition volume_settled :: "('w \<Rightarrow> PersistentVolume list) \<Rightarrow> string \<Rightarrow> string \<Rightarrow> 'w \<Rightarrow> bool" where
  "volume_settled vols name reclaim w \<longleftrightarrow>
     reclaim = ''Recycle'' \<or> (\<forall>pv\<in>set (vols w). pv_Name pv = name \<longrightarrow>
       reclaim \<noteq> ''Delete'' \<and> (pv_Phase pv = ''Released'' \<or> pv_ClaimRef pv = None))"

text \<open>
  \<open>vols\<close> are the volumes there are, each with a name of its own; reading one finds it or finds nothing,
  and a volume that is settled stays so while time passes.
\<close>

definition volume_laws :: "('w \<Rightarrow> 'w) \<Rightarrow> 'w child_kube \<Rightarrow> ('w \<Rightarrow> PersistentVolume list) \<Rightarrow> bool" where
  "volume_laws tick ck vols \<longleftrightarrow>
     (\<forall>w. distinct (map pv_Name (vols w)))
   \<and> (\<forall>w xs. ck_listPVs ck w = Inr xs \<longrightarrow> xs = vols w)
   \<and> (\<forall>w n pv. ck_getPV ck n w = Inr pv \<longrightarrow> pv \<in> set (vols w) \<and> pv_Name pv = n)
   \<and> (\<forall>w n. ck_getPV ck n w = Inl NotFound \<longrightarrow> n \<notin> pv_Name ` set (vols w))
   \<and> (\<forall>w n r. volume_settled vols n r w \<longrightarrow> volume_settled vols n r (tick w))"

lemma volume_done_sound:
  assumes "volume_laws tick ck vols" and "volume_done ck n r w = Inr True"
  shows "volume_settled vols n r w"
proof -
  have uniq: "pv = pv'" if "pv \<in> set (vols w)" "pv' \<in> set (vols w)" "pv_Name pv = pv_Name pv'" for pv pv'
    using assms(1) that by (auto simp: volume_laws_def dest: inj_onD distinct_map [THEN iffD1, THEN conjunct2])
  show ?thesis
  proof (cases "r = ''Recycle''")
    case False
    with assms(2) consider "ck_getPV ck n w = Inl NotFound"
      | pv where "ck_getPV ck n w = Inr pv" "r \<noteq> ''Delete''" "pv_Phase pv = ''Released'' \<or> pv_ClaimRef pv = None"
      by (auto simp: volume_done_def split: sum.splits api_error.splits)
    then show ?thesis
    proof cases
      case 1
      with assms(1) have "n \<notin> pv_Name ` set (vols w)" unfolding volume_laws_def by blast
      then show ?thesis unfolding volume_settled_def by blast
    next
      case (2 pv)
      from assms(1) 2(1) have "pv \<in> set (vols w)" "pv_Name pv = n" unfolding volume_laws_def by blast+
      with 2 uniq show ?thesis unfolding volume_settled_def by metis
    qed
  qed (simp add: volume_settled_def)
qed

interpretation settling: run_order "\<lambda>a b. volume_settled vols m q a \<longrightarrow> volume_settled vols m q b" for vols m q
  by unfold_locales simp_all

lemma wait_volume_spec:
  assumes laws: "volume_laws tick ck vols" and run: "wait_volume tick ck timeout (n, r) w = (e, w')"
  shows "e = None \<Longrightarrow> volume_settled vols n r w'" and "volume_settled vols m q w \<Longrightarrow> volume_settled vols m q w'"
proof -
  note p = run [unfolded wait_volume_def prod.case]
  show "volume_settled vols n r w'" if "e = None"
    using poll_None [OF p [unfolded that]] volume_done_sound [OF laws] by auto
  have stays: "volume_settled vols m q (tick x)" if "volume_settled vols m q x" for x
    using laws that unfolding volume_laws_def by blast
  have "volume_settled vols m q w \<longrightarrow> volume_settled vols m q w'"
    by (rule settling.poll_rel [OF _ p]) (use stays in blast)
  then show "volume_settled vols m q w \<Longrightarrow> volume_settled vols m q w'" by blast
qed

lemma wait_volumes_spec:
  assumes laws: "volume_laws tick ck vols" and "each (wait_volume tick ck timeout) xs w = (None, w')"
  shows "volume_settled vols m q w \<or> (m, q) \<in> set xs \<Longrightarrow> volume_settled vols m q w'"
  using assms(2)
proof (induction xs arbitrary: w)
  case (Cons x xs)
  obtain n r where x: "x = (n, r)" by fastforce
  obtain w1 where one: "wait_volume tick ck timeout (n, r) w = (None, w1)" and rest: "each (wait_volume tick ck timeout) xs w1 = (None, w')"
    using Cons.prems(2) x by (auto split: prod.splits option.splits)
  from Cons.prems(1) x wait_volume_spec [OF laws one] have "volume_settled vols m q w1 \<or> (m, q) \<in> set xs" by auto
  then show ?case using rest by (rule Cons.IH)
qed simp

lemma update_other: "(a, b) \<in> set m \<Longrightarrow> a \<noteq> k \<Longrightarrow> (a, b) \<in> set (AList.update k v m)"
  by (induction m) auto

lemma collect_volumes:
  assumes laws: "volume_laws tick ck vols" and run: "collectPersistentVolumeNames ck exclude w = Inr m"
    and pv: "pv \<in> set (vols w)" "waits_for ck exclude w pv = Inr True"
  shows "(pv_Name pv, pv_ReclaimPolicy pv) \<in> set m"
proof -
  define step where "step pv m = bindE (waits_for ck exclude w pv)
    (\<lambda>b. Inr (if b then AList.update (pv_Name pv) (pv_ReclaimPolicy pv) m else m))" for pv m
  have fold: "(pv_Name pv, pv_ReclaimPolicy pv) \<in> set m"
    if "foldE step pvs m0 = Inr m" "distinct (map pv_Name pvs)" "pv \<in> set pvs \<or> pv_Name pv \<notin> pv_Name ` set pvs \<and> (pv_Name pv, pv_ReclaimPolicy pv) \<in> set m0"
    for pvs m0
    using that
  proof (induction pvs arbitrary: m0)
    case (Cons x pvs)
    from Cons.prems(1) obtain m1 where one: "step x m0 = Inr m1" and rest: "foldE step pvs m1 = Inr m" by (auto simp: result_simps)
    show ?case
    proof (rule Cons.IH [OF rest])
      show "distinct (map pv_Name pvs)" using Cons.prems(2) by simp
      show "pv \<in> set pvs \<or> pv_Name pv \<notin> pv_Name ` set pvs \<and> (pv_Name pv, pv_ReclaimPolicy pv) \<in> set m1"
      proof (cases "pv = x")
        case True
        with one pv(2) have m1: "m1 = AList.update (pv_Name pv) (pv_ReclaimPolicy pv) m0" by (simp add: step_def)
        have "(pv_Name pv, pv_ReclaimPolicy pv) \<in> set m1" by (rule map_of_SomeD) (simp add: m1 update_conv')
        with True Cons.prems(2) show ?thesis by auto
      next
        case False
        have "(pv_Name pv, pv_ReclaimPolicy pv) \<in> set m1" if "pv_Name pv \<noteq> pv_Name x" "(pv_Name pv, pv_ReclaimPolicy pv) \<in> set m0"
          using one that by (auto simp: step_def result_simps update_other split: if_splits)
        with False Cons.prems(2,3) show ?thesis by auto
      qed
    qed
  qed simp
  from run obtain pvs where pvs: "ck_listPVs ck w = Inr pvs" and f: "foldE step pvs [] = Inr m"
    by (auto simp: collectPersistentVolumeNames_def step_def [abs_def] split: sum.splits)
  from laws pvs have "pvs = vols w" "distinct (map pv_Name pvs)" unfolding volume_laws_def by auto
  with fold [OF f] pv(1) show ?thesis by blast
qed

section \<open>API versions\<close>

lemma split_slash_join:
  assumes "CHR ''/'' \<notin> set g"
  shows "split_slash (g @ CHR ''/'' # v) = Some (g, v)"
proof -
  have "takeWhile (\<lambda>c. c \<noteq> CHR ''/'') (g @ CHR ''/'' # v) = g" "dropWhile (\<lambda>c. c \<noteq> CHR ''/'') (g @ CHR ''/'' # v) = CHR ''/'' # v"
    using assms by (induction g) auto
  then show ?thesis by (simp add: split_slash_def)
qed

section \<open>Theorems\<close>

text \<open>
  When the deletion of all objects of a kind reports success, only excluded objects are left;
  whatever it reports, no excluded object is lost to it.
\<close>

theorem DeleteAllExceptAndWait_correct:
  assumes "coll_laws c objs" and "DeleteAllExceptAndWait tick c timeout (Some ex) w = (e, w')"
    and "\<And>w. keeps objs ex w (tick w)"
  shows "(e = None \<longrightarrow> (\<forall>x\<in>objs w'. ex x)) \<and> (\<forall>x\<in>objs w. ex x \<longrightarrow> x \<in> objs w')"
  using DeleteAllExceptAndWait_spec [OF assms(1,2)] assms(3) by (auto simp: keeps_def)


text \<open>
  When the deletion of claims reports success, in whatever order the volumes are waited for, every
  volume that was bound when it began, to a claim that is not excluded, is gone, recycled or released.
\<close>

theorem DeletePVCsAndOwnersAndWait_correct:
  assumes laws: "volume_laws tick ck vols" and order: "\<And>m. set (order m) = set m"
    and run: "DeletePVCsAndOwnersAndWait tick ck order timeout exclude w = (None, w')"
    and pv: "pv \<in> set (vols w)" and bound: "waits_for ck exclude w pv = Inr True"
  shows "volume_settled vols (pv_Name pv) (pv_ReclaimPolicy pv) w'"
proof -
  from run obtain m w1 where m: "collectPersistentVolumeNames ck exclude w = Inr m"
    and waits: "each (wait_volume tick ck timeout) (order m) w1 = (None, w')"
    by (auto simp: DeletePVCsAndOwnersAndWait_def split: sum.splits prod.splits option.splits)
  from collect_volumes [OF laws m pv bound] order have "(pv_Name pv, pv_ReclaimPolicy pv) \<in> set (order m)" by simp
  with wait_volumes_spec [OF laws waits] show ?thesis by blast
qed

text \<open>
  An API version is split into group and version so that joining them gives it back, and joining a
  group and a version and splitting the result gives them back.
\<close>

theorem apiVersion_roundtrip:
  "(if CHR ''/'' \<in> set s then groupFromAPIVersion s @ ''/'' @ versionFromAPIVersion s = s
    else groupFromAPIVersion s = [] \<and> versionFromAPIVersion s = s)
   \<and> (CHR ''/'' \<notin> set g \<longrightarrow> groupFromAPIVersion (g @ ''/'' @ v) = g \<and> versionFromAPIVersion (g @ ''/'' @ v) = v)"
proof (intro conjI impI)
  show "if CHR ''/'' \<in> set s then groupFromAPIVersion s @ ''/'' @ versionFromAPIVersion s = s
    else groupFromAPIVersion s = [] \<and> versionFromAPIVersion s = s"
  proof (cases "CHR ''/'' \<in> set s")
    case True
    then obtain a b where "s = a @ CHR ''/'' # b" "CHR ''/'' \<notin> set a" by (meson split_list_first)
    with split_slash_join [of a b] show ?thesis by (simp add: groupFromAPIVersion_def versionFromAPIVersion_def)
  next
    case False
    then have "dropWhile (\<lambda>c. c \<noteq> CHR ''/'') s = []" by (induction s) auto
    then have "split_slash s = None" unfolding split_slash_def by (simp only: list.case)
    with False show ?thesis by (simp add: groupFromAPIVersion_def versionFromAPIVersion_def)
  qed
  assume "CHR ''/'' \<notin> set g"
  from split_slash_join [OF this, of v] show "groupFromAPIVersion (g @ ''/'' @ v) = g" "versionFromAPIVersion (g @ ''/'' @ v) = v"
    by (simp_all add: groupFromAPIVersion_def versionFromAPIVersion_def)
qed

section \<open>Examples\<close>

text \<open>A cluster with two Services, of which the load balancer disappears when time passes.\<close>

definition example_services :: "((string \<times> bool) , (string \<times> bool) list \<times> (string \<times> bool) list) coll" where
  "example_services =
     \<lparr>co_namespaces = (\<lambda>_. Inr [''default'']), co_list = (\<lambda>_ w. Inr (fst w @ snd w)),
      co_delete = (\<lambda>x w. (None, if x \<in> set (fst w) then (removeAll x (fst w), x # snd w) else w)), co_deleteAllOf = (\<lambda>_ w. (None, w))\<rparr>"

abbreviation example_there :: "(string \<times> bool) list \<times> (string \<times> bool) list \<Rightarrow> (string \<times> bool) set" where
  "example_there w \<equiv> set (fst w) \<union> set (snd w)"

definition example_tick :: "(string \<times> bool) list \<times> (string \<times> bool) list \<Rightarrow> (string \<times> bool) list \<times> (string \<times> bool) list" where
  "example_tick w = (fst w, filter (\<lambda>x. \<not> snd x) (snd w))"

definition example_before :: "(string \<times> bool) list \<times> (string \<times> bool) list" where
  "example_before = ([(''kubernetes'', False), (''ingress'', True)], [])"

lemma example_services_laws: "coll_laws example_services example_there"
  by (auto simp: coll_laws_def example_services_def split: if_splits)

lemma example_services_run:
  "DeleteAllExceptAndWait example_tick example_services 10000 (Some (\<lambda>x. \<not> snd x)) example_before = (None, ([(''kubernetes'', False)], []))"
  by code_simp

theorem DeleteAllExceptAndWait_correct_witness:
  "fst (DeleteAllExceptAndWait example_tick example_services 10000 (Some (\<lambda>x. \<not> snd x)) example_before) = None
   \<and> (''kubernetes'', False) \<in> example_there (snd (DeleteAllExceptAndWait example_tick example_services 10000 (Some (\<lambda>x. \<not> snd x)) example_before))"
proof -
  have "keeps example_there (\<lambda>x. \<not> snd x) w (example_tick w)" for w
    by (auto simp: keeps_def example_tick_def)
  from DeleteAllExceptAndWait_correct [OF example_services_laws example_services_run this] show ?thesis
    unfolding example_services_run by (simp add: example_before_def)
qed

text \<open>A volume bound to the claim of a Pod that a ReplicaSet of a Deployment controls.\<close>

definition example_claim :: ObjectKey where "example_claim = ObjectKey ''default'' ''data''"

definition example_volume :: PersistentVolume where
  "example_volume = \<lparr>pv_Name = ''pv'', pv_ClaimRef = Some example_claim, pv_ReclaimPolicy = ''Delete'', pv_Phase = ''Bound''\<rparr>"

definition example_ref :: "string \<Rightarrow> string \<Rightarrow> owner_ref" where
  "example_ref kind name = \<lparr>oref_APIVersion = ''apps/v1'', oref_Kind = kind, oref_Name = name, oref_Controller = True\<rparr>"

definition example_pod :: Pod where
  "example_pod = \<lparr>pod_Key = ObjectKey ''default'' ''web-0'', pod_References = [example_ref ''ReplicaSet'' ''rs''],
     pod_Claims = [None, Some ''data''], pod_Finalizers = []\<rparr>"

definition example_owners :: owner_reader where
  "example_owners g v k key =
     (if ok_Name key = ''rs'' then OwnerRead \<lparr>own_Key = key, own_Kind = k, own_References = [example_ref ''Deployment'' ''web''], own_Finalizers = []\<rparr>
      else if ok_Name key = ''web'' then OwnerRead \<lparr>own_Key = key, own_Kind = k, own_References = [], own_Finalizers = [''keep'']\<rparr>
      else OwnerNotFound)"

text \<open>The state: whether the claim is still there, whether the owner is, and whether the volume is.\<close>

type_synonym example_state = "bool \<times> bool \<times> bool"

definition example_vols :: "example_state \<Rightarrow> PersistentVolume list" where
  "example_vols w = (if snd (snd w) then [example_volume] else [])"

definition example_kube :: "example_state child_kube" where
  "example_kube =
     \<lparr>ck_namespaces = (\<lambda>_. Inr [''default'']), ck_listPVCs = (\<lambda>_ w. Inr (if fst w then [example_claim] else [])),
      ck_getPVC = (\<lambda>k w. if fst w \<and> k = example_claim then Inr k else Inl NotFound), ck_listPods = (\<lambda>_ w. Inr (if fst (snd w) then [example_pod] else [])),
      ck_getOwner = (\<lambda>w. if fst (snd w) then example_owners else (\<lambda>_ _ _ _. OwnerNotFound)), ck_listPVs = (\<lambda>w. Inr (example_vols w)),
      ck_getPV = (\<lambda>n w. if snd (snd w) \<and> n = ''pv'' then Inr example_volume else Inl NotFound),
      ck_deletePod = (\<lambda>_ w. (Some NotFound, w)), ck_deleteOwner = (\<lambda>u (c, ow, v). (None, (c, ok_Name (own_Key u) \<noteq> ''web'' \<and> ow, v))),
      ck_deletePVC = (\<lambda>k (c, ow, v). (None, (c \<and> ow, ow, v))), ck_getPod = (\<lambda>_ _. Inl NotFound), ck_rereadOwner = (\<lambda>_ _. Inl NotFound),
      ck_updatePod = (\<lambda>_ w. (Some NotFound, w)), ck_updateOwner = (\<lambda>_ w. (Some NotFound, w))\<rparr>"

text \<open>The volume goes once the claim is gone.\<close>

definition example_release :: "example_state \<Rightarrow> example_state" where
  "example_release w = (fst w, fst (snd w), fst w \<and> snd (snd w))"

lemma example_pvc_run:
  "DeletePVCsAndOwnersAndWait example_release example_kube rev 10000 None (True, True, True) = (None, (False, False, False))"
  by code_simp

lemma example_volume_laws: "volume_laws example_release example_kube example_vols"
  by (auto simp: volume_laws_def example_kube_def example_vols_def example_release_def volume_settled_def example_volume_def split: if_splits)

theorem DeletePVCsAndOwnersAndWait_correct_witness: "volume_settled example_vols ''pv'' ''Delete'' (False, False, False)"
proof -
  have "waits_for example_kube None (True, True, True) example_volume = Inr True" by code_simp
  from DeletePVCsAndOwnersAndWait_correct [OF example_volume_laws _ example_pvc_run _ this] show ?thesis
    by (simp add: example_vols_def) (simp add: example_volume_def)
qed

theorem apiVersion_roundtrip_witness:
  "groupFromAPIVersion ''apps/v1'' = ''apps'' \<and> versionFromAPIVersion ''apps/v1'' = ''v1'' \<and> versionFromAPIVersion ''v1'' = ''v1''"
  using apiVersion_roundtrip [of "''v1''" "''apps''" "''v1''"] by simp

end
