(* ===== verification/ClusterDelete.thy ===== *)
theory ClusterDelete
  imports ClusterRBAC ClusterAdmission KubeDelete
begin

text \<open>
  The deletion of a ClusterDeployment: \<open>reconcileDelete\<close> and the steps it is made of
  (\<^verbatim>\<open>internal/controller/clusterdeployment_controller.go\<close>, \<open>DeleteHelmRelease\<close> of
  \<^verbatim>\<open>internal/helm/release.go\<close>).

  A step that has to wait ends the run with a requeue, and every run starts from the beginning. The
  finalizer goes only when the HelmRelease, the ServiceSets, the ClusterDataSource and the CAPI
  Cluster are gone and the cleanup of the child cluster was concluded.
\<close>

section \<open>State and calls\<close>

datatype del_error =
    DeletionNotAllowed cluster_error
  | AggregateFailed string
  | CapiClusterFailed api_error
  | InfraFailed api_error
  | MachinesFailed api_error
  | InfraPatchFailed api_error
  | ServiceSetsFailed api_error
  | ChildUnreachable cld_rbac_error
  | ChildCleanupFailed cleanup_error
  | HelmReleaseFailed api_error
  | ClusterDataSourceFailed api_error
  | CapiClusterCheckFailed cld_rbac_error
  | FinalizerUpdateFailed api_error
  | StatusUpdateFailed api_error

definition BlockingFinalizer :: string where "BlockingFinalizer = ''k0rdent.mirantis.com/cleanup''"
definition ClusterDeploymentFinalizer :: string where "ClusterDeploymentFinalizer = ''k0rdent.mirantis.com/cluster-deployment''"

record ChildService =
  csvc_Key :: ObjectKey
  csvc_Type :: string

text \<open>The infrastructure object a CAPI Cluster refers to: missing, of an unknown kind, unreadable, or its finalizers.\<close>

datatype infra_read = InfraNotFound | InfraNoMatch | InfraUnreadable api_error | InfraRead "string list"

text \<open>
  The calls of a run. \<open>de_capiInfraRef\<close> reads the CAPI Cluster and tells whether its infrastructure
  reference is defined; \<open>de_machines\<close> lists the Machines of the cluster, limited to one; \<open>de_services\<close> and
  \<open>de_kube\<close> are the kinds of the child cluster a client gives access to. The two cleanups run in
  goroutines and work on different kinds of objects: \<open>de_servicesFirst\<close> says which of them is first.
\<close>

record ('c, 's, 'w) del_env =
  de_conds :: cond_lib
  de_capi :: "'c capi_lib"
  de_show :: "del_error \<Rightarrow> string"
  de_showApi :: "api_error \<Rightarrow> string"
  de_listChains :: "string \<Rightarrow> string \<Rightarrow> api_error + TemplateChainSpec list"
  de_writer :: "'w cld_writer"
  de_requeue :: nat
  de_webhookDisabled :: bool
  de_client :: "'w \<Rightarrow> cluster_client"
  de_rbac :: "'w \<Rightarrow> ('s, 'w) rbac_env"
  de_listClusters :: "'w \<Rightarrow> api_error + 'c list"
  de_capiInfraRef :: "'w \<Rightarrow> api_error + bool"
  de_getInfra :: "'w \<Rightarrow> infra_read"
  de_machines :: "'w \<Rightarrow> api_error + string list"
  de_patchInfra :: "string list \<Rightarrow> 'w \<Rightarrow> api_error option \<times> 'w"
  de_listServiceSets :: "'w \<Rightarrow> api_error + ServiceSet list"
  de_deleteServiceSet :: "ServiceSet \<Rightarrow> 'w \<Rightarrow> api_error option \<times> 'w"
  de_tick :: "'w \<Rightarrow> 'w"
  de_services :: "'s child_client \<Rightarrow> (ChildService, 'w) coll"
  de_kube :: "'s child_client \<Rightarrow> 'w child_kube"
  de_volumeOrder :: "(string \<times> string) list \<Rightarrow> (string \<times> string) list"
  de_servicesFirst :: bool
  de_isDeadline :: "api_error \<Rightarrow> bool"
  de_getHelmRelease :: "'w \<Rightarrow> api_error option"
  de_deleteHelmRelease :: "'w \<Rightarrow> api_error option \<times> 'w"
  de_getDataSource :: "'w \<Rightarrow> api_error option"
  de_deleteDataSource :: "'w \<Rightarrow> api_error option \<times> 'w"

section \<open>Steps\<close>

definition removeInfraRefFinalizer :: "('c, 's, 'w) del_env \<Rightarrow> string list \<Rightarrow> 'w \<Rightarrow> del_error option \<times> 'w" where
  "removeInfraRefFinalizer env finalizers w =
     (if BlockingFinalizer \<notin> set finalizers then (None, w)
      else case de_patchInfra env (removeAll BlockingFinalizer finalizers) w of (e, w') \<Rightarrow> (map_option InfraPatchFailed e, w'))"

definition clusterCAPIMachinesExist :: "('c, 's, 'w) del_env \<Rightarrow> 'w \<Rightarrow> api_error + bool" where
  "clusterCAPIMachinesExist env w = bindE (de_machines env w) (\<lambda>items. Inr (items \<noteq> []))"

definition releaseProviderCluster :: "('c, 's, 'w) del_env \<Rightarrow> 'w \<Rightarrow> del_error option \<times> 'w" where
  "releaseProviderCluster env w =
     (case de_capiInfraRef env w of
        Inl e \<Rightarrow> (if e = NotFound then None else Some (CapiClusterFailed e), w)
      | Inr isDefined \<Rightarrow>
          if \<not> isDefined then (None, w)
          else case de_getInfra env w of
                 InfraNotFound \<Rightarrow> (None, w)
               | InfraNoMatch \<Rightarrow> (None, w)
               | InfraUnreadable e \<Rightarrow> (Some (InfraFailed e), w)
               | InfraRead finalizers \<Rightarrow>
                   (case clusterCAPIMachinesExist env w of
                      Inl e \<Rightarrow> (Some (MachinesFailed e), w)
                    | Inr found \<Rightarrow> if found then (None, w) else removeInfraRefFinalizer env finalizers w))"

definition deleteServiceSets :: "('c, 's, 'w) del_env \<Rightarrow> 'w \<Rightarrow> (del_error + bool) \<times> 'w" where
  "deleteServiceSets env w =
     (case de_listServiceSets env w of
        Inl e \<Rightarrow> (Inl (ServiceSetsFailed e), w)
      | Inr items \<Rightarrow>
          if items = [] then (Inr False, w)
          else case each (de_deleteServiceSet env) items w of
                 (Some e, w') \<Rightarrow> (Inl (ServiceSetsFailed e), w')
               | (None, w') \<Rightarrow> (Inr True, w'))"

text \<open>
  \<open>eg.Wait\<close> of the group of the two cleanups: both run, and the first error to occur is the result.
  \<open>errors.Is(err, context.DeadlineExceeded)\<close> holds for a wait that timed out and for calls that did.
\<close>

definition eg_wait :: "('w \<Rightarrow> 'e option \<times> 'w) \<Rightarrow> ('w \<Rightarrow> 'e option \<times> 'w) \<Rightarrow> 'w \<Rightarrow> 'e option \<times> 'w" where
  "eg_wait f g w = (case f w of (e1, w1) \<Rightarrow> case g w1 of (e2, w2) \<Rightarrow> (if e1 = None then e2 else e1, w2))"

fun deadline_exceeded :: "(api_error \<Rightarrow> bool) \<Rightarrow> cleanup_error \<Rightarrow> bool" where
  "deadline_exceeded isDeadline WaitTimedOut = True"
| "deadline_exceeded isDeadline (CleanupFailed _ e) = isDeadline e"
| "deadline_exceeded isDeadline (OwnerChainTooDeep _) = False"

definition deletionTimeout :: nat where "deletionTimeout = 10000"

definition cleanup_services :: "('c, 's, 'w) del_env \<Rightarrow> 's child_client \<Rightarrow> 'w \<Rightarrow> cleanup_error option \<times> 'w" where
  "cleanup_services env cl = DeleteAllExceptAndWait (de_tick env) (de_services env cl) deletionTimeout (Some (\<lambda>s. csvc_Type s \<noteq> ''LoadBalancer''))"

definition cleanup_volumes :: "('c, 's, 'w) del_env \<Rightarrow> 's child_client \<Rightarrow> 'w \<Rightarrow> cleanup_error option \<times> 'w" where
  "cleanup_volumes env cl = DeletePVCsAndOwnersAndWait (de_tick env) (de_kube env cl) (de_volumeOrder env) deletionTimeout None"

definition deleteChildResources :: "('c, 's, 'w) del_env \<Rightarrow> 'w \<Rightarrow> (del_error + bool) \<times> 'w" where
  "deleteChildResources env w =
     (case childClientFor (de_rbac env w) of
        Inl e \<Rightarrow> (Inl (ChildUnreachable e), w)
      | Inr None \<Rightarrow> (Inr False, w)
      | Inr (Some cl) \<Rightarrow>
          (let both = (if de_servicesFirst env then eg_wait (cleanup_services env cl) (cleanup_volumes env cl)
                       else eg_wait (cleanup_volumes env cl) (cleanup_services env cl))
           in case both w of
                (Some e, w') \<Rightarrow> (if deadline_exceeded (de_isDeadline env) e then Inr True else Inl (ChildCleanupFailed e), w')
              | (None, w') \<Rightarrow> (Inr False, w')))"

text \<open>
  A step of the run: \<open>None\<close> to go on, or how the run ends: an error, or the time after which to requeue.
\<close>

type_synonym verdict_of = "(del_error + nat) option"

definition cleanup_step ::
  "('c, 's, 'w) del_env \<Rightarrow> Cld \<Rightarrow> clusterDeletionState \<Rightarrow> 'w \<Rightarrow> verdict_of \<times> Cld \<times> clusterDeletionState \<times> 'w" where
  "cleanup_step env cd st w =
     (let put = (\<lambda>reason status msg. cld_setCondition (de_conds env) cd CloudResourcesDeletedCondition reason status msg)
      in if \<not> cld_CleanupOnDeletion cd then (None, cd, st, w)
         else if (case find_condition (cld_Conditions cd) CloudResourcesDeletedCondition of None \<Rightarrow> False | Some c \<Rightarrow> cond_Status c = ConditionTrue)
         then (None, cd, st\<lparr>ds_cloudResourcesDeleted := True\<rparr>, w)
         else case deleteChildResources env w of
                (Inl e, w') \<Rightarrow> (Some (Inl e), put FailedReason ConditionFalse (de_show env e), st, w')
              | (Inr True, w') \<Rightarrow> (Some (Inr (de_requeue env)), put ProgressingReason ConditionFalse ''waiting for cloud resources to be deleted'', st, w')
              | (Inr False, w') \<Rightarrow> (None, put SucceededReason ConditionTrue [], st, w'))"

definition DeleteHelmRelease :: "('c, 's, 'w) del_env \<Rightarrow> 'w \<Rightarrow> del_error option \<times> 'w" where
  "DeleteHelmRelease env w =
     (case de_deleteHelmRelease env w of
        (Some e, w') \<Rightarrow> (if e = NotFound then None else Some (HelmReleaseFailed e), w')
      | (None, w') \<Rightarrow> (None, w'))"

definition helm_step :: "('c, 's, 'w) del_env \<Rightarrow> 'w \<Rightarrow> verdict_of \<times> 'w" where
  "helm_step env w =
     (case de_getHelmRelease env w of
        None \<Rightarrow> (case DeleteHelmRelease env w of
                   (Some e, w') \<Rightarrow> (Some (Inl e), w')
                 | (None, w') \<Rightarrow> (Some (Inr (de_requeue env)), w'))
      | Some e \<Rightarrow> (if e = NotFound then None else Some (Inl (HelmReleaseFailed e)), w))"

text \<open>\<open>kine\<close>: the scope has the DataSource of the cluster.\<close>

definition deleteClusterDataSource ::
  "('c, 's, 'w) del_env \<Rightarrow> bool \<Rightarrow> Cld \<Rightarrow> clusterDeletionState \<Rightarrow> 'w \<Rightarrow> (del_error + bool) \<times> clusterDeletionState \<times> 'w" where
  "deleteClusterDataSource env kine cd st w =
     (if \<not> kine \<or> cd_DataSource cd = [] then (Inr False, st, w)
      else case de_getDataSource env w of
             None \<Rightarrow> (case de_deleteDataSource env w of
                        (Some e, w') \<Rightarrow> (if e = NotFound then Inr True else Inl (ClusterDataSourceFailed e), st, w')
                      | (None, w') \<Rightarrow> (Inr True, st, w'))
           | Some e \<Rightarrow> if e \<noteq> NotFound then (Inl (ClusterDataSourceFailed e), st, w)
                       else (Inr False, st\<lparr>ds_clusterDataSourceDeleted := True\<rparr>, w))"

text \<open>The end of the run: the finalizer is removed and the cache entry dropped.\<close>

definition finish_step ::
  "('c, 's, 'w) del_env \<Rightarrow> Cld \<Rightarrow> 'w \<Rightarrow> (string \<rightharpoonup> rbacSyncState) \<Rightarrow> (del_error + nat) \<times> Cld \<times> 'w \<times> (string \<rightharpoonup> rbacSyncState)" where
  "finish_step env cd w cache =
     (if ClusterDeploymentFinalizer \<notin> set (cld_Finalizers cd) then (Inr 0, cd, w, cache(cd_UID cd := None))
      else let cd1 = cd\<lparr>cld_Finalizers := removeAll ClusterDeploymentFinalizer (cld_Finalizers cd)\<rparr>
           in case cw_update (de_writer env) cd1 w of
                (Some e, w') \<Rightarrow> (Inl (FinalizerUpdateFailed e), cd1, w', cache)
              | (None, w') \<Rightarrow> (Inr 0, cd1, w', cache(cd_UID cd := None)))"

section \<open>The run\<close>

text \<open>After the cleanup: the HelmRelease, the ServiceSets, the ClusterDataSource and the CAPI Cluster, in this order.\<close>

definition teardown_steps ::
  "('c, 's, 'w) del_env \<Rightarrow> bool \<Rightarrow> bool \<Rightarrow> Cld \<Rightarrow> clusterDeletionState \<Rightarrow> 'w \<Rightarrow> (string \<rightharpoonup> rbacSyncState)
     \<Rightarrow> (del_error + nat) \<times> Cld \<times> clusterDeletionState \<times> 'w \<times> (string \<rightharpoonup> rbacSyncState)" where
  "teardown_steps env kine ssExists cd st w cache =
     (case helm_step env w of
        (Some v, w') \<Rightarrow> (v, cd, st, w', cache)
      | (None, w1) \<Rightarrow>
          (let st1 = st\<lparr>ds_helmReleaseDeleted := True\<rparr>
           in if ssExists then (Inr (de_requeue env), cd, st1, w1, cache)
              else case deleteClusterDataSource env kine cd (st1\<lparr>ds_serviceSetsDeleted := True\<rparr>) w1 of
                     (Inl e, st2, w2) \<Rightarrow> (Inl e, cd, st2, w2, cache)
                   | (Inr True, st2, w2) \<Rightarrow> (Inr (de_requeue env), cd, st2, w2, cache)
                   | (Inr False, st2, w2) \<Rightarrow>
                       (case getPartialCapiCluster (de_rbac env w2) of
                          Inr True \<Rightarrow> (Inr (de_requeue env), cd, st2, w2, cache)
                        | Inl e \<Rightarrow> (Inl (CapiClusterCheckFailed e), cd, st2, w2, cache)
                        | Inr False \<Rightarrow> (case finish_step env cd w2 cache of (v, cd', w3, cache') \<Rightarrow> (v, cd', st2, w3, cache')))))"

definition delete_steps ::
  "('c, 's, 'w) del_env \<Rightarrow> bool \<Rightarrow> Cld \<Rightarrow> 'w \<Rightarrow> (string \<rightharpoonup> rbacSyncState)
     \<Rightarrow> (del_error + nat) \<times> Cld \<times> clusterDeletionState \<times> 'w \<times> (string \<rightharpoonup> rbacSyncState)" where
  "delete_steps env kine cd w cache =
     (let st = \<lparr>ds_capiClusterDeleted = False, ds_cloudResourcesDeleted = (\<not> cld_CleanupOnDeletion cd), ds_helmReleaseDeleted = False,
            ds_serviceSetsDeleted = False, ds_clusterDataSourceDeleted = (cd_DataSource cd = [])\<rparr>
      in case (if de_webhookDisabled env then ClusterDeploymentDeletionAllowed (de_client env w) (ClusterDeployment.truncate cd) else None) of
           Some e \<Rightarrow> (Inl (DeletionNotAllowed e), cd, st, w, cache)
         | None \<Rightarrow>
             (case aggregateCapiConditions (de_conds env) (de_capi env) (de_listClusters env w) (de_showApi env) cd of
                (Inl e, cd1, _) \<Rightarrow> (Inl (AggregateFailed e), cd1, st, w, cache)
              | (Inr _, cd1, gone) \<Rightarrow>
                  (let st1 = st\<lparr>ds_capiClusterDeleted := gone\<rparr>
                   in case releaseProviderCluster env w of
                        (Some e, w1) \<Rightarrow> (Inl e, cd1, st1, w1, cache)
                      | (None, w1) \<Rightarrow>
                          (case deleteServiceSets env w1 of
                             (Inl e, w2) \<Rightarrow> (Inl e, cd1, st1, w2, cache)
                           | (Inr ssExists, w2) \<Rightarrow>
                               (case cleanup_step env cd1 st1 w2 of
                                  (Some v, cd2, st2, w3) \<Rightarrow> (v, cd2, st2, w3, cache)
                                | (None, cd2, st2, w3) \<Rightarrow> teardown_steps env kine ssExists cd2 st2 w3 cache)))))"

text \<open>
  The deferred function: the Deleting condition, and the status if the finalizer is still there. The
  result: the joined errors, and when to requeue if there are none.
\<close>

definition cld_reconcileDelete ::
  "('c, 's, 'w) del_env \<Rightarrow> bool \<Rightarrow> Cld \<Rightarrow> 'w \<Rightarrow> (string \<rightharpoonup> rbacSyncState)
     \<Rightarrow> del_error list \<times> nat \<times> Cld \<times> 'w \<times> (string \<rightharpoonup> rbacSyncState)" where
  "cld_reconcileDelete env kine cd w cache =
     (case delete_steps env kine cd w cache of
        (v, cd1, st, w1, cache1) \<Rightarrow>
          (let errs = (case v of Inl e \<Rightarrow> [e] | Inr _ \<Rightarrow> []);
               result = (case v of Inl _ \<Rightarrow> 0 | Inr r \<Rightarrow> r);
               cd2 = ensureDeletingCondition (de_conds env) st (case v of Inl e \<Rightarrow> Some (de_show env e) | Inr _ \<Rightarrow> None) cd1
           in if ClusterDeploymentFinalizer \<notin> set (cld_Finalizers cd2) then (errs, result, cd2, w1, cache1)
              else case cld_updateStatus (de_conds env) (de_listChains env) (de_writer env) cd cd2 None w1 of
                     (e, cd3, w2) \<Rightarrow> (errs @ (case e of None \<Rightarrow> [] | Some x \<Rightarrow> [StatusUpdateFailed x]), result, cd3, w2, cache1)))"

section \<open>What is left of a cluster\<close>

text \<open>
  The objects the deletion waits for. \<open>alive\<close> gives those that exist; a read that finds nothing means
  that there is nothing, and no call of a deletion, nor time, brings any of them back.
\<close>

datatype teardown_object = HelmReleaseObject | ServiceSetObjects | ClusterDataSourceObject | CapiClusterObject

definition vanishes :: "('w \<Rightarrow> teardown_object set) \<Rightarrow> 'w \<Rightarrow> 'w \<Rightarrow> bool" where
  "vanishes alive w w' \<longleftrightarrow> alive w' \<subseteq> alive w"

interpretation vanishing: run_order "vanishes alive" for alive
  by unfold_locales (auto simp: vanishes_def)

definition del_reads :: "('c, 's, 'w) del_env \<Rightarrow> ('w \<Rightarrow> teardown_object set) \<Rightarrow> bool" where
  "del_reads env alive \<longleftrightarrow>
     (\<forall>w. de_getHelmRelease env w = Some NotFound \<longrightarrow> HelmReleaseObject \<notin> alive w)
   \<and> (\<forall>w. de_listServiceSets env w = Inr [] \<longrightarrow> ServiceSetObjects \<notin> alive w)
   \<and> (\<forall>w. de_getDataSource env w = Some NotFound \<longrightarrow> ClusterDataSourceObject \<notin> alive w)
   \<and> (\<forall>w. re_getCluster (de_rbac env w) = Inl NotFound \<longrightarrow> CapiClusterObject \<notin> alive w)"

definition del_writes :: "('c, 's, 'w) del_env \<Rightarrow> ('w \<Rightarrow> teardown_object set) \<Rightarrow> bool" where
  "del_writes env alive \<longleftrightarrow>
     (\<forall>x w. vanishes alive w (snd (de_patchInfra env x w)))
   \<and> (\<forall>x w. vanishes alive w (snd (de_deleteServiceSet env x w)))
   \<and> (\<forall>w. vanishes alive w (snd (de_deleteHelmRelease env w)))
   \<and> (\<forall>w. vanishes alive w (snd (de_deleteDataSource env w)))
   \<and> (\<forall>x w. vanishes alive w (snd (cw_update (de_writer env) x w)))
   \<and> (\<forall>x w. vanishes alive w (snd (cw_updateStatus (de_writer env) x w)))
   \<and> (\<forall>w. vanishes alive w (de_tick env w))
   \<and> (\<forall>cl x w. vanishes alive w (snd (co_delete (de_services env cl) x w)))
   \<and> (\<forall>cl. vanishing.writes_rel alive (de_kube env cl))"

lemmas del_writes_laws = del_writes_def [THEN iffD1]

lemma releaseProviderCluster_vanishes:
  assumes "del_writes env alive" and "releaseProviderCluster env w = (e, w')"
  shows "vanishes alive w w'"
proof (cases "w' = w")
  case False
  with assms(2) obtain fins where "removeInfraRefFinalizer env fins w = (e, w')"
    by (auto simp: releaseProviderCluster_def split: sum.splits if_splits infra_read.splits)
  with False have "w' = snd (de_patchInfra env (removeAll BlockingFinalizer fins) w)"
    by (auto simp: removeInfraRefFinalizer_def split: if_splits prod.splits)
  with assms(1) show ?thesis unfolding del_writes_def by blast
qed (simp add: vanishing.refl)

lemma deleteServiceSets_vanishes:
  assumes laws: "del_writes env alive" and run: "deleteServiceSets env w = (r, w')"
  shows "vanishes alive w w'"
proof (cases "de_listServiceSets env w")
  case (Inr items)
  have step: "vanishes alive a b" if "de_deleteServiceSet env x a = (e, b)" for x a e b
    using laws that unfolding del_writes_def by (metis snd_conv)
  obtain e1 w1 where one: "each (de_deleteServiceSet env) items w = (e1, w1)" by fastforce
  have "vanishes alive w w1" by (rule vanishing.each_rel [OF step one])
  with run Inr one show ?thesis
    by (cases e1) (auto simp: deleteServiceSets_def vanishing.refl split: if_splits)
qed (use run in \<open>simp add: deleteServiceSets_def vanishing.refl\<close>)

lemma eg_wait_vanishes:
  assumes "\<And>w e w'. f w = (e, w') \<Longrightarrow> vanishes alive w w'" and "\<And>w e w'. g w = (e, w') \<Longrightarrow> vanishes alive w w'"
    and "eg_wait f g w = (e, w')"
  shows "vanishes alive w w'"
proof -
  obtain e1 w1 e2 w2 where "f w = (e1, w1)" "g w1 = (e2, w2)" by (meson surj_pair)
  moreover from this have "vanishes alive w w1" "vanishes alive w1 w2" by (blast intro: assms(1,2))+
  ultimately show ?thesis using assms(3) by (auto simp: eg_wait_def intro: vanishing.trans)
qed

lemma deleteChildResources_vanishes:
  assumes laws: "del_writes env alive" and run: "deleteChildResources env w = (r, w')"
  shows "vanishes alive w w'"
proof -
  have del: "vanishes alive a b" if "delete_item (de_services env cl) (Some ex) x a = (e, b)" for cl ex x a e b
  proof (cases "preserved (Some ex) x")
    case False
    with that have "b = snd (co_delete (de_services env cl) x a)" by (auto simp: delete_item_def split: prod.splits)
    with laws show ?thesis unfolding del_writes_def by blast
  qed (use that in \<open>simp add: delete_item_def vanishing.refl\<close>)
  have tick: "vanishes alive a (de_tick env a)" for a using laws unfolding del_writes_def by blast
  have kube: "vanishing.writes_rel alive (de_kube env cl)" for cl using laws unfolding del_writes_def by blast
  have sv: "vanishes alive a b" if "cleanup_services env cl a = (e, b)" for cl a e b
    by (rule vanishing.DeleteAllExceptAndWait_rel [OF del tick that [unfolded cleanup_services_def]])
  have vo: "vanishes alive a b" if "cleanup_volumes env cl a = (e, b)" for cl a e b
    by (rule vanishing.DeletePVCsAndOwnersAndWait_rel [OF kube tick that [unfolded cleanup_volumes_def]])
  show ?thesis
  proof (cases "\<exists>cl. childClientFor (de_rbac env w) = Inr (Some cl)")
    case True
    then obtain cl where cl: "childClientFor (de_rbac env w) = Inr (Some cl)" by blast
    define both where "both = (if de_servicesFirst env then eg_wait (cleanup_services env cl) (cleanup_volumes env cl)
                       else eg_wait (cleanup_volumes env cl) (cleanup_services env cl))"
    obtain e1 w1 where one: "both w = (e1, w1)" by fastforce
    with run cl have "w' = w1" unfolding both_def by (cases e1) (auto simp: deleteChildResources_def Let_def split: if_splits)
    moreover have "vanishes alive w w1"
      using one eg_wait_vanishes [OF sv vo] eg_wait_vanishes [OF vo sv] unfolding both_def by (auto split: if_splits)
    ultimately show ?thesis by simp
  next
    case False
    with run show ?thesis by (auto simp: deleteChildResources_def vanishing.refl split: sum.splits option.splits)
  qed
qed

lemma cleanup_step_vanishes:
  assumes laws: "del_writes env alive" and run: "cleanup_step env cd st w = (v, cd', st', w')"
  shows "vanishes alive w w'"
proof (cases "w' = w")
  case False
  with run obtain r where "deleteChildResources env w = (r, w')"
    by (auto simp: cleanup_step_def Let_def split: if_splits prod.splits sum.splits bool.splits option.splits)
  then show ?thesis by (rule deleteChildResources_vanishes [OF laws])
qed (simp add: vanishing.refl)

text \<open>When the cleanup lets the run go on, its condition is True, or none was asked for.\<close>

definition cloud_resources_done :: "Cld \<Rightarrow> bool" where
  "cloud_resources_done cd \<longleftrightarrow> \<not> cld_CleanupOnDeletion cd
     \<or> (\<exists>c. find_condition (cld_Conditions cd) CloudResourcesDeletedCondition = Some c \<and> cond_Status c = ConditionTrue)"

lemma cleanup_step_done:
  assumes "cond_laws (de_conds env)" and "cleanup_step env cd st w = (None, cd', st', w')"
  shows "cloud_resources_done cd'"
  using assms
  by (auto simp: cleanup_step_def Let_def cloud_resources_done_def cld_condition_def
      split: if_splits prod.splits sum.splits bool.splits option.splits)

section \<open>Cases of a run\<close>

text \<open>A step that changes the object changes its conditions only.\<close>

definition same_but_conditions :: "Cld \<Rightarrow> Cld \<Rightarrow> bool" where
  "same_but_conditions cd cd' \<longleftrightarrow> cd' = cd\<lparr>cld_Conditions := cld_Conditions cd'\<rparr>"

lemma same_but_conditions_refl [simp]: "same_but_conditions cd cd"
  by (simp add: same_but_conditions_def)

lemma same_but_conditions_trans: "same_but_conditions a b \<Longrightarrow> same_but_conditions b c \<Longrightarrow> same_but_conditions a c"
  unfolding same_but_conditions_def by (metis Cld.update_convs(7) Cld.surjective)

lemma same_but_conditions_fields:
  assumes "same_but_conditions cd cd'"
  shows "cld_Finalizers cd' = cld_Finalizers cd" "cd_DataSource cd' = cd_DataSource cd" "cld_CleanupOnDeletion cd' = cld_CleanupOnDeletion cd"
  by (subst assms [unfolded same_but_conditions_def], simp)+

lemma same_setCondition [simp]: "same_but_conditions cd (cld_setCondition lib cd typ reason status msg)"
  by (simp add: same_but_conditions_def cld_setCondition_def)

lemma aggregateCapiConditions_frame:
  assumes "aggregateCapiConditions lib capi clusters show_err cd = (r, cd', gone)"
  shows "same_but_conditions cd cd'"
  using assms by (auto simp: aggregateCapiConditions_def Let_def same_but_conditions_def cld_setCondition_def
      split: sum.splits list.splits option.splits if_splits)

lemma cleanup_step_frame:
  assumes "cleanup_step env cd st w = (v, cd', st', w')"
  shows "same_but_conditions cd cd'" "v \<noteq> None \<longrightarrow> (\<exists>e. v = Some (Inl e)) \<or> v = Some (Inr (de_requeue env))"
  using assms by (auto simp: cleanup_step_def Let_def split: if_splits prod.splits sum.splits bool.splits)

lemma ensureDeletingCondition_shape:
  "\<exists>reason msg. ensureDeletingCondition lib st err cd = cld_setCondition lib
     (if find_condition (cld_Conditions cd) DeletingCondition = None
      then cld_setCondition lib cd DeletingCondition DeletingReason ConditionTrue ''deletion has been requested'' else cd)
     DeletingCondition reason ConditionTrue msg"
  unfolding ensureDeletingCondition_def Let_def by (cases err) (simp_all only: option.case case_prod_unfold, blast+)

lemma ensureDeletingCondition_frame: "same_but_conditions cd (ensureDeletingCondition lib st err cd)"
proof -
  obtain reason msg where eq: "ensureDeletingCondition lib st err cd = cld_setCondition lib
     (if find_condition (cld_Conditions cd) DeletingCondition = None
      then cld_setCondition lib cd DeletingCondition DeletingReason ConditionTrue ''deletion has been requested'' else cd)
     DeletingCondition reason ConditionTrue msg"
    using ensureDeletingCondition_shape [of lib st err cd] by blast
  show ?thesis unfolding eq by (rule same_but_conditions_trans [OF _ same_setCondition]) simp
qed

lemma find_ensureDeletingCondition:
  assumes "cond_laws lib" and "t \<noteq> DeletingCondition"
  shows "find_condition (cld_Conditions (ensureDeletingCondition lib st err cd)) t = find_condition (cld_Conditions cd) t"
  using ensureDeletingCondition_shape [of lib st err cd] assms by auto

lemma helm_step_cases:
  assumes "helm_step env w = (v, w')"
  obtains "v \<noteq> None" "(\<exists>e. v = Some (Inl e)) \<or> v = Some (Inr (de_requeue env))"
    | "v = None" "w' = w" "de_getHelmRelease env w = Some NotFound"
  using assms by (auto simp: helm_step_def split: option.splits prod.splits if_splits)

lemma deleteClusterDataSource_done:
  assumes "deleteClusterDataSource env kine cd st w = (Inr False, st', w')"
  shows "w' = w" "kine \<and> cd_DataSource cd \<noteq> [] \<longrightarrow> de_getDataSource env w = Some NotFound"
  using assms by (auto simp: deleteClusterDataSource_def split: if_splits option.splits prod.splits)

lemma getPartialCapiCluster_gone: "getPartialCapiCluster env = Inr False \<Longrightarrow> re_getCluster env = Inl NotFound"
  by (auto simp: getPartialCapiCluster_def split: sum.splits if_splits)

text \<open>The teardown waits or fails with the object as it is, or everything was found gone and the finalizer goes.\<close>

lemma teardown_steps_cases:
  assumes run: "teardown_steps env kine ssExists cd st w cache = (v, cd', st', w', cache')"
  obtains (waiting) "cd' = cd" "isl v \<or> v = Inr (de_requeue env)"
    | (finish) "\<not> ssExists" "de_getHelmRelease env w = Some NotFound"
        "kine \<and> cd_DataSource cd \<noteq> [] \<longrightarrow> de_getDataSource env w = Some NotFound" "re_getCluster (de_rbac env w) = Inl NotFound"
        "finish_step env cd w cache = (v, cd', w', cache')"
proof -
  obtain hv w1 where helm: "helm_step env w = (hv, w1)" by fastforce
  let ?st = "st\<lparr>ds_helmReleaseDeleted := True, ds_serviceSetsDeleted := True\<rparr>"
  show thesis
  proof (cases "hv = None \<and> \<not> ssExists")
    case False
    with run helm have "cd' = cd" "hv = Some v \<or> v = Inr (de_requeue env)"
      by (auto simp: teardown_steps_def Let_def split: option.splits)
    with helm waiting show thesis by (auto elim!: helm_step_cases)
  next
    case True
    from helm True have gone: "w1 = w" "de_getHelmRelease env w = Some NotFound" by (auto elim!: helm_step_cases)
    obtain r st2 w2 where ds: "deleteClusterDataSource env kine cd ?st w = (r, st2, w2)" by (metis prod_cases3)
    show thesis
    proof (cases "r = Inr False \<and> getPartialCapiCluster (de_rbac env w2) = Inr False")
      case False
      with run helm True gone ds have "cd' = cd" "isl v \<or> v = Inr (de_requeue env)"
        by (auto simp: teardown_steps_def Let_def split: sum.splits bool.splits)
      then show thesis by (rule waiting)
    next
      case last: True
      with deleteClusterDataSource_done [OF ds [unfolded last [THEN conjunct1]]]
      have ds2: "w2 = w" "kine \<and> cd_DataSource cd \<noteq> [] \<longrightarrow> de_getDataSource env w = Some NotFound" by blast+
      from last ds2 have capi: "re_getCluster (de_rbac env w) = Inl NotFound" by (auto dest: getPartialCapiCluster_gone)
      from run helm True gone ds last ds2 have "finish_step env cd w cache = (v, cd', w', cache')"
        by (auto simp: teardown_steps_def Let_def split: prod.splits)
      with True gone ds2 capi show thesis by (intro finish) auto
    qed
  qed
qed

lemma finish_step_spec:
  assumes "finish_step env cd w cache = (v, cd', w', cache')"
  shows "ClusterDeploymentFinalizer \<notin> set (cld_Finalizers cd')" "cld_Conditions cd' = cld_Conditions cd"
    "cld_CleanupOnDeletion cd' = cld_CleanupOnDeletion cd" "w' = w \<or> (\<exists>e x. cw_update (de_writer env) x w = (e, w'))"
  using assms by (auto simp: finish_step_def Let_def split: if_splits prod.splits option.splits)

text \<open>The whole run: it waits or fails before the finalizer is touched, or reaches the end of the teardown.\<close>

lemma delete_steps_cases:
  assumes run: "delete_steps env kine cd w cache = (v, cd', st', w', cache')"
  obtains (waiting) "same_but_conditions cd cd'" "isl v \<or> v = Inr (de_requeue env)"
    | (finish) cd1 st1 w1 w2 cd2 st2 w3 where "same_but_conditions cd cd1" "releaseProviderCluster env w = (None, w1)"
        "deleteServiceSets env w1 = (Inr False, w2)" "cleanup_step env cd1 st1 w2 = (None, cd2, st2, w3)"
        "de_getHelmRelease env w3 = Some NotFound" "kine \<and> cd_DataSource cd2 \<noteq> [] \<longrightarrow> de_getDataSource env w3 = Some NotFound"
        "re_getCluster (de_rbac env w3) = Inl NotFound" "finish_step env cd2 w3 cache = (v, cd', w', cache')"
proof -
  obtain r1 cd1 gone where agg: "aggregateCapiConditions (de_conds env) (de_capi env) (de_listClusters env w) (de_showApi env) cd = (r1, cd1, gone)"
    by (metis prod_cases3)
  note frame1 = aggregateCapiConditions_frame [OF agg]
  obtain r2 w1 where rel: "releaseProviderCluster env w = (r2, w1)" by fastforce
  obtain r3 w2 where sets: "deleteServiceSets env w1 = (r3, w2)" by fastforce
  define st1 where "st1 = \<lparr>ds_capiClusterDeleted = gone, ds_cloudResourcesDeleted = (\<not> cld_CleanupOnDeletion cd), ds_helmReleaseDeleted = False,
            ds_serviceSetsDeleted = False, ds_clusterDataSourceDeleted = (cd_DataSource cd = [])\<rparr>"
  obtain r4 cd2 st2 w3 where clean: "cleanup_step env cd1 st1 w2 = (r4, cd2, st2, w3)" by (metis prod_cases4)
  note frame2 = cleanup_step_frame [OF clean]
  let ?guard = "if de_webhookDisabled env then ClusterDeploymentDeletionAllowed (de_client env w) (ClusterDeployment.truncate cd) else None"
  show thesis
  proof (cases "?guard = None \<and> \<not> isl r1 \<and> r2 = None \<and> \<not> isl r3 \<and> r4 = None")
    case False
    have "same_but_conditions cd cd' \<and> (isl v \<or> v = Inr (de_requeue env))"
    proof (cases "?guard = None \<and> \<not> isl r1 \<and> r2 = None \<and> \<not> isl r3")
      case True
      with False obtain x where r4: "r4 = Some x" by auto
      from True obtain a b where "r1 = Inr a" "r3 = Inr b" by (metis sum.collapse(2))
      with run True r4 agg rel sets clean have "v = x" "cd' = cd2"
        by (auto simp: delete_steps_def Let_def st1_def)
      with frame1 frame2 r4 show ?thesis by (auto intro: same_but_conditions_trans)
    next
      case False
      with run agg rel sets have "isl v" "cd' = cd \<or> cd' = cd1"
        by (auto simp: delete_steps_def Let_def split: option.splits sum.splits if_splits)
      with frame1 show ?thesis by auto
    qed
    then show thesis using waiting by blast
  next
    case True
    then obtain a ss where r: "r1 = Inr a" "r3 = Inr ss" by (metis sum.collapse(2))
    with run True agg rel sets clean have td: "teardown_steps env kine ss cd2 st2 w3 cache = (v, cd', st', w', cache')"
      by (auto simp: delete_steps_def Let_def st1_def)
    from td show thesis
    proof (cases rule: teardown_steps_cases)
      case waiting
      with frame1 frame2(1) show thesis by (intro that(1)) (auto intro: same_but_conditions_trans)
    next
      case finish
      with True r rel sets clean frame1 show thesis by (intro that(2) [of cd1 w1 w2 st1 cd2 st2 w3]) auto
    qed
  qed
qed

section \<open>Theorems\<close>

lemma find_UpdateReadyCondition:
  assumes "cond_laws lib" and "t \<noteq> ReadyCondition"
  shows "find_condition (UpdateReadyCondition (cnd_set lib) cs gen h) t = find_condition cs t"
  using assms by (auto simp: UpdateReadyCondition_def buildReadyCondition_def split: option.splits prod.splits)

text \<open>The write of the status: finalizers and cleanup stay, the Ready condition aside the conditions do.\<close>

lemma cld_updateStatus_None:
  assumes "cld_updateStatus lib listChains wr old cd None w = (e, cd', w')"
  shows "cld_Finalizers cd' = cld_Finalizers cd" "cld_CleanupOnDeletion cd' = cld_CleanupOnDeletion cd"
    "w' = w \<or> w' = snd (cw_updateStatus wr cd' w)"
    "cond_laws lib \<Longrightarrow> t \<noteq> ReadyCondition \<Longrightarrow> find_condition (cld_Conditions cd') t = find_condition (cld_Conditions cd) t"
  using assms by (auto simp: cld_updateStatus_def setAvailableUpgrades_def Let_def find_UpdateReadyCondition split: if_splits prod.splits)

lemma reconcileDelete_cases:
  assumes run: "cld_reconcileDelete env kine cd w cache = (errs, r, cd', w', cache')"
  obtains v cd1 st w1 where "delete_steps env kine cd w cache = (v, cd1, st, w1, cache')"
    "r = (case v of Inl _ \<Rightarrow> 0 | Inr x \<Rightarrow> x)" "isl v \<longrightarrow> errs \<noteq> []"
    "ClusterDeploymentFinalizer \<in> set (cld_Finalizers cd') \<longleftrightarrow> ClusterDeploymentFinalizer \<in> set (cld_Finalizers cd1)"
    "ClusterDeploymentFinalizer \<notin> set (cld_Finalizers cd1) \<longrightarrow> w' = w1"
    "cld_CleanupOnDeletion cd' = cld_CleanupOnDeletion cd1"
    "\<And>t. cond_laws (de_conds env) \<Longrightarrow> t \<noteq> ReadyCondition \<Longrightarrow> find_condition (cld_Conditions cd') t = find_condition
       (cld_Conditions (ensureDeletingCondition (de_conds env) st (case v of Inl e \<Rightarrow> Some (de_show env e) | Inr _ \<Rightarrow> None) cd1)) t"
proof -
  obtain v cd1 st w1 cache1 where steps: "delete_steps env kine cd w cache = (v, cd1, st, w1, cache1)" by (metis prod_cases5)
  define cd2 where "cd2 = ensureDeletingCondition (de_conds env) st (case v of Inl e \<Rightarrow> Some (de_show env e) | Inr _ \<Rightarrow> None) cd1"
  note same = same_but_conditions_fields [OF ensureDeletingCondition_frame, of "de_conds env" st _ cd1]
  have fin: "cld_Finalizers cd2 = cld_Finalizers cd1" "cld_CleanupOnDeletion cd2 = cld_CleanupOnDeletion cd1"
    unfolding cd2_def by (rule same)+
  show thesis
  proof (cases "ClusterDeploymentFinalizer \<in> set (cld_Finalizers cd2)")
    case False
    with run steps have "errs = (case v of Inl e \<Rightarrow> [e] | Inr _ \<Rightarrow> [])" "r = (case v of Inl _ \<Rightarrow> 0 | Inr x \<Rightarrow> x)" "cd' = cd2" "w' = w1" "cache' = cache1"
      by (simp_all add: cld_reconcileDelete_def Let_def cd2_def)
    with steps fin False show thesis by (intro that [of v cd1 st w1]) (auto simp: cd2_def split: sum.splits)
  next
    case True
    obtain e cd3 w2 where up: "cld_updateStatus (de_conds env) (de_listChains env) (de_writer env) cd cd2 None w1 = (e, cd3, w2)" by (metis prod_cases3)
    with run steps True have res: "errs = (case v of Inl e \<Rightarrow> [e] | Inr _ \<Rightarrow> []) @ (case e of None \<Rightarrow> [] | Some x \<Rightarrow> [StatusUpdateFailed x])"
      "r = (case v of Inl _ \<Rightarrow> 0 | Inr x \<Rightarrow> x)" "cd' = cd3" "cache' = cache1"
      by (simp_all add: cld_reconcileDelete_def Let_def cd2_def)
    note u = cld_updateStatus_None [OF up]
    from steps fin True res u show thesis by (intro that [of v cd1 st w1]) (auto simp: cd2_def split: sum.splits)
  qed
qed

text \<open>
  C24: a run of the deletion that takes the finalizer away, or only tries to, leaves no HelmRelease, no
  ServiceSet, no CAPI Cluster and, for a cluster with a data source, no ClusterDataSource; and the
  cleanup of the child cluster, if asked for, was concluded in this run or before.
\<close>

theorem deletion_safe:
  assumes conds: "cond_laws (de_conds env)" and reads: "del_reads env alive" and writes: "del_writes env alive"
    and run: "cld_reconcileDelete env kine cd w cache = (errs, r, cd', w', cache')"
    and had: "ClusterDeploymentFinalizer \<in> set (cld_Finalizers cd)"
    and removed: "ClusterDeploymentFinalizer \<notin> set (cld_Finalizers cd')"
  shows "alive w' \<subseteq> (if kine \<and> cd_DataSource cd \<noteq> [] then {} else {ClusterDataSourceObject}) \<and> cloud_resources_done cd'"
proof -
  from run obtain v cd1 st w1 where steps: "delete_steps env kine cd w cache = (v, cd1, st, w1, cache')"
    and fin: "ClusterDeploymentFinalizer \<notin> set (cld_Finalizers cd1)" "w' = w1" "cld_CleanupOnDeletion cd' = cld_CleanupOnDeletion cd1"
    and find: "find_condition (cld_Conditions cd') CloudResourcesDeletedCondition = find_condition
       (cld_Conditions (ensureDeletingCondition (de_conds env) st (case v of Inl e \<Rightarrow> Some (de_show env e) | Inr _ \<Rightarrow> None) cd1)) CloudResourcesDeletedCondition"
    using removed conds by (elim reconcileDelete_cases) (auto simp: CloudResourcesDeletedCondition_def ReadyCondition_def)
  from steps show ?thesis
  proof (cases rule: delete_steps_cases)
    case waiting
    with fin(1) had same_but_conditions_fields [OF waiting(1)] show ?thesis by simp
  next
    case (finish cda sta wa wb cdb stb wc)
    from finish(3) have "de_listServiceSets env wa = Inr []" "wb = wa"
      by (auto simp: deleteServiceSets_def split: sum.splits if_splits prod.splits option.splits)
    then have "ServiceSetObjects \<notin> alive wb" using reads unfolding del_reads_def by blast
    moreover have "vanishes alive wb wc" by (rule cleanup_step_vanishes [OF writes finish(4)])
    moreover have "vanishes alive wc w1"
      using finish_step_spec(4) [OF finish(8)] writes unfolding del_writes_def by (metis snd_conv vanishing.refl)
    moreover have "HelmReleaseObject \<notin> alive wc" "CapiClusterObject \<notin> alive wc"
      using reads finish(5,7) unfolding del_reads_def by blast+
    moreover have "ClusterDataSourceObject \<notin> alive wc" if "kine \<and> cd_DataSource cd \<noteq> []"
    proof -
      from same_but_conditions_fields(2) [OF finish(1)] same_but_conditions_fields(2) [OF cleanup_step_frame(1) [OF finish(4)]]
      have "cd_DataSource cdb = cd_DataSource cd" by simp
      with finish(6) that reads show ?thesis unfolding del_reads_def by metis
    qed
    ultimately have "x \<notin> alive w1" if "x \<noteq> ClusterDataSourceObject \<or> kine \<and> cd_DataSource cd \<noteq> []" for x
      using that unfolding vanishes_def by (cases x) auto
    then have alive: "alive w' \<subseteq> (if kine \<and> cd_DataSource cd \<noteq> [] then {} else {ClusterDataSourceObject})" using fin(2) by auto
    have "find_condition (cld_Conditions cd') CloudResourcesDeletedCondition = find_condition (cld_Conditions cd1) CloudResourcesDeletedCondition"
      using find find_ensureDeletingCondition [OF conds] by (simp add: CloudResourcesDeletedCondition_def DeletingCondition_def)
    with cleanup_step_done [OF conds finish(4)] finish_step_spec(2,3) [OF finish(8)] fin(3)
    have "cloud_resources_done cd'" by (simp add: cloud_resources_done_def)
    with alive show ?thesis by blast
  qed
qed

text \<open>
  A run of the deletion never just ends: it returns an error, asks to be run again after the
  default time, or has taken the finalizer away.
\<close>

theorem deletion_progress:
  assumes run: "cld_reconcileDelete env kine cd w cache = (errs, r, cd', w', cache')"
  shows "errs \<noteq> [] \<or> r = de_requeue env \<or> ClusterDeploymentFinalizer \<notin> set (cld_Finalizers cd')"
proof -
  from run obtain v cd1 st w1 where steps: "delete_steps env kine cd w cache = (v, cd1, st, w1, cache')"
    and out: "r = (case v of Inl _ \<Rightarrow> 0 | Inr x \<Rightarrow> x)" "isl v \<longrightarrow> errs \<noteq> []"
      "ClusterDeploymentFinalizer \<in> set (cld_Finalizers cd') \<longleftrightarrow> ClusterDeploymentFinalizer \<in> set (cld_Finalizers cd1)"
    by (elim reconcileDelete_cases) auto
  from steps show ?thesis
  proof (cases rule: delete_steps_cases)
    case waiting
    with out(1,2) show ?thesis by auto
  next
    case finish
    with out(3) finish_step_spec(1) [OF finish(8)] show ?thesis by blast
  qed
qed

text \<open>The summary the library computes has the type asked for.\<close>

definition capi_typed :: "'c capi_lib \<Rightarrow> bool" where
  "capi_typed lib \<longleftrightarrow> (\<forall>m ts ns typ c cond. capi_summary lib m ts ns typ c = Inr cond \<longrightarrow> cond_Type cond = typ)"

lemma aggregateCapiConditions_find:
  assumes "cond_laws lib" and "capi_typed capi" and "aggregateCapiConditions lib capi clusters show_err cd = (r, cd', gone)"
    and "t \<noteq> CAPIClusterSummaryCondition"
  shows "find_condition (cld_Conditions cd') t = find_condition (cld_Conditions cd) t"
proof -
  have ty: "cond_Type c = CAPIClusterSummaryCondition" if "GetCAPIClusterSummaryCondition capi cd x = Inr c" for x c
    using that assms(2) by (auto simp: GetCAPIClusterSummaryCondition_def capi_typed_def Let_def result_simps split: prod.splits if_splits)
  then show ?thesis using assms(1,3,4) by (auto simp: aggregateCapiConditions_def Let_def split: sum.splits list.splits option.splits if_splits)
qed

lemma teardown_steps_cloud:
  "teardown_steps env kine ss cd st w cache = (v, cd', st', w', cache') \<Longrightarrow> ds_cloudResourcesDeleted st' = ds_cloudResourcesDeleted st"
  by (auto simp: teardown_steps_def deleteClusterDataSource_def Let_def split: option.splits prod.splits sum.splits bool.splits if_splits)

lemma cleanup_step_cloud:
  assumes "\<not> cloud_resources_done cd" and "cleanup_step env cd st w = (v, cd', st', w')"
  shows "st' = st"
  using assms by (auto simp: cleanup_step_def cloud_resources_done_def Let_def split: if_splits prod.splits sum.splits bool.splits option.splits)

lemma delete_steps_cloud:
  assumes conds: "cond_laws (de_conds env)" and typed: "capi_typed (de_capi env)" and before: "\<not> cloud_resources_done cd"
    and run: "delete_steps env kine cd w cache = (v, cd', st', w', cache')"
  shows "\<not> ds_cloudResourcesDeleted st'"
proof -
  obtain r1 cd1 gone where agg: "aggregateCapiConditions (de_conds env) (de_capi env) (de_listClusters env w) (de_showApi env) cd = (r1, cd1, gone)"
    by (metis prod_cases3)
  obtain r2 w1 where rel: "releaseProviderCluster env w = (r2, w1)" by fastforce
  obtain r3 w2 where sets: "deleteServiceSets env w1 = (r3, w2)" by fastforce
  define st1 where "st1 = \<lparr>ds_capiClusterDeleted = gone, ds_cloudResourcesDeleted = (\<not> cld_CleanupOnDeletion cd), ds_helmReleaseDeleted = False,
            ds_serviceSetsDeleted = False, ds_clusterDataSourceDeleted = (cd_DataSource cd = [])\<rparr>"
  obtain r4 cd2 st2 w3 where clean: "cleanup_step env cd1 st1 w2 = (r4, cd2, st2, w3)" by (metis prod_cases4)
  from before same_but_conditions_fields(3) [OF aggregateCapiConditions_frame [OF agg]]
    aggregateCapiConditions_find [OF conds typed agg, of CloudResourcesDeletedCondition]
  have "\<not> cloud_resources_done cd1"
    by (simp add: cloud_resources_done_def CloudResourcesDeletedCondition_def CAPIClusterSummaryCondition_def)
  from cleanup_step_cloud [OF this clean] before have st2: "\<not> ds_cloudResourcesDeleted st2" "\<not> ds_cloudResourcesDeleted st1"
    by (auto simp: st1_def cloud_resources_done_def)
  have td: "\<not> ds_cloudResourcesDeleted st'" if "teardown_steps env kine ss cd2 st2 w3 cache = (v, cd', st', w', cache')" for ss
    using teardown_steps_cloud [OF that] st2 by simp
  from run st2 agg rel sets clean td show ?thesis
    unfolding delete_steps_def Let_def st1_def
    by (auto split: option.splits sum.splits if_splits)
qed

text \<open>
  When the cleanup of the child cluster is concluded in a run that ends without an error and the
  object stays, its Deleting condition still says that cloud resources are to be deleted, although
  the condition of the cleanup itself is True.
\<close>

theorem cleanup_misreported:
  assumes conds: "cond_laws (de_conds env)" and typed: "capi_typed (de_capi env)"
    and run: "cld_reconcileDelete env kine cd w cache = ([], r, cd', w', cache')"
    and "\<not> cloud_resources_done cd" and "cloud_resources_done cd'" and "ClusterDeploymentFinalizer \<in> set (cld_Finalizers cd')"
  shows "\<exists>c. find_condition (cld_Conditions cd') DeletingCondition = Some c \<and> cond_Reason c = WaitingForCloudResourcesDeletionReason"
proof -
  from run obtain v cd1 st w1 where steps: "delete_steps env kine cd w cache = (v, cd1, st, w1, cache')" and "\<not> isl v"
    and find: "find_condition (cld_Conditions cd') DeletingCondition = find_condition
       (cld_Conditions (ensureDeletingCondition (de_conds env) st (case v of Inl e \<Rightarrow> Some (de_show env e) | Inr _ \<Rightarrow> None) cd1)) DeletingCondition"
    using conds by (elim reconcileDelete_cases) (auto simp: DeletingCondition_def ReadyCondition_def)
  from delete_steps_cloud [OF conds typed assms(4) steps] have "deletion_stage st = WaitingForCloudResourcesDeletionReason"
    by (simp add: deletion_stage_def)
  with find \<open>\<not> isl v\<close> ensureDeletingCondition_spec [OF conds, of st None cd1] show ?thesis by (cases v) auto
qed

section \<open>Examples\<close>

text \<open>
  A cluster whose kubeconfig is gone, so that there is nothing to clean up; the state is the list of
  objects that are left.
\<close>

type_synonym example_world = "teardown_object list"

definition example_child_kube :: "'w child_kube" where
  "example_child_kube =
     \<lparr>ck_namespaces = (\<lambda>_. Inr []), ck_listPVCs = (\<lambda>_ _. Inr []), ck_getPVC = (\<lambda>_ _. Inl NotFound), ck_listPods = (\<lambda>_ _. Inr []),
      ck_getOwner = (\<lambda>_ _ _ _ _. OwnerNotFound), ck_listPVs = (\<lambda>_. Inr []), ck_getPV = (\<lambda>_ _. Inl NotFound),
      ck_deletePod = (\<lambda>_ w. (None, w)), ck_deleteOwner = (\<lambda>_ w. (None, w)), ck_deletePVC = (\<lambda>_ w. (None, w)),
      ck_getPod = (\<lambda>_ _. Inl NotFound), ck_rereadOwner = (\<lambda>_ _. Inl NotFound), ck_updatePod = (\<lambda>_ w. (None, w)), ck_updateOwner = (\<lambda>_ w. (None, w))\<rparr>"

definition example_del_env :: "(unit, unit, example_world) del_env" where
  "example_del_env =
     \<lparr>de_conds = example_conditions, de_capi = \<lparr>capi_defaultMerge = (\<lambda>_ _ _. Inl []), capi_summary = (\<lambda>_ _ _ _ _. Inl [])\<rparr>,
      de_show = (\<lambda>_. ''error''), de_showApi = (\<lambda>_. ''error''), de_listChains = (\<lambda>_ _. Inr []),
      de_writer = \<lparr>cw_updateStatus = (\<lambda>_ w. (None, w)), cw_update = (\<lambda>_ w. (None, w))\<rparr>, de_requeue = 10, de_webhookDisabled = False,
      de_client = (\<lambda>_. example_cluster_client),
      de_rbac = (\<lambda>w. \<lparr>re_getSecret = Inl NotFound, re_factory = (\<lambda>_. Inl []),
         re_getCluster = (if CapiClusterObject \<in> set w then Inr None else Inl NotFound), re_patchStatus = (\<lambda>_ w. (None, w)), re_now = 0, re_resync = 1,
         re_defaultRequeue = 1, re_showErr = (\<lambda>_. [])\<rparr>),
      de_listClusters = (\<lambda>_. Inr []), de_capiInfraRef = (\<lambda>_. Inl NotFound), de_getInfra = (\<lambda>_. InfraNotFound), de_machines = (\<lambda>_. Inr []),
      de_patchInfra = (\<lambda>_ w. (None, w)), de_listServiceSets = (\<lambda>w. Inr (if ServiceSetObjects \<in> set w then example_served [ServiceStateDeployed] else [])),
      de_deleteServiceSet = (\<lambda>_ w. (None, removeAll ServiceSetObjects w)), de_tick = (\<lambda>w. w),
      de_services = (\<lambda>_. \<lparr>co_namespaces = (\<lambda>_. Inr []), co_list = (\<lambda>_ _. Inr []), co_delete = (\<lambda>_ w. (None, w)), co_deleteAllOf = (\<lambda>_ w. (None, w))\<rparr>),
      de_kube = (\<lambda>_. example_child_kube), de_volumeOrder = (\<lambda>x. x), de_servicesFirst = True, de_isDeadline = (\<lambda>_. False),
      de_getHelmRelease = (\<lambda>w. if HelmReleaseObject \<in> set w then None else Some NotFound), de_deleteHelmRelease = (\<lambda>w. (None, removeAll HelmReleaseObject w)),
      de_getDataSource = (\<lambda>w. if ClusterDataSourceObject \<in> set w then None else Some NotFound), de_deleteDataSource = (\<lambda>w. (None, removeAll ClusterDataSourceObject w))\<rparr>"

lemma example_del_reads: "del_reads example_del_env set"
  by (auto simp: del_reads_def example_del_env_def example_served_def split: if_splits)

lemma example_del_writes: "del_writes example_del_env set"
  by (auto simp: del_writes_def example_del_env_def example_child_kube_def vanishes_def vanishing.writes_rel_def)

definition example_doomed :: Cld where
  "example_doomed = example_cld\<lparr>cld_Finalizers := [ClusterDeploymentFinalizer], cld_CleanupOnDeletion := True\<rparr>"

abbreviation example_run :: "example_world \<Rightarrow> del_error list \<times> nat \<times> Cld \<times> example_world \<times> (string \<rightharpoonup> rbacSyncState)" where
  "example_run w \<equiv> cld_reconcileDelete example_del_env False example_doomed w (\<lambda>_. None)"

definition example_summary :: "example_world \<Rightarrow> bool \<times> nat \<times> bool \<times> bool \<times> example_world" where
  "example_summary w = (case example_run w of (errs, r, cd', w', _) \<Rightarrow>
     (errs = [], r, ClusterDeploymentFinalizer \<in> set (cld_Finalizers cd'),
      (case find_condition (cld_Conditions cd') CloudResourcesDeletedCondition of None \<Rightarrow> False | Some c \<Rightarrow> cond_Status c = ConditionTrue), w'))"

lemma example_summaries:
  "example_summary [] = (True, 0, False, True, [])"
  "example_summary [HelmReleaseObject, CapiClusterObject] = (True, 10, True, True, [CapiClusterObject])"
  by code_simp+

text \<open>The runs of the example, opened up.\<close>

lemma example_run_end:
  obtains cd' cache' where "example_run [] = ([], 0, cd', [], cache')" "ClusterDeploymentFinalizer \<notin> set (cld_Finalizers cd')"
  using example_summaries(1) by (auto simp: example_summary_def split: prod.splits)

lemma example_run_waits:
  obtains cd' cache' where "example_run [HelmReleaseObject, CapiClusterObject] = ([], 10, cd', [CapiClusterObject], cache')"
    "ClusterDeploymentFinalizer \<in> set (cld_Finalizers cd')" "cloud_resources_done cd'"
  using example_summaries(2) by (auto simp: example_summary_def cloud_resources_done_def split: prod.splits option.splits)

lemma example_conds: "cond_laws (de_conds example_del_env)"
  by (simp add: example_del_env_def example_cond_laws)

theorem deletion_safe_witness:
  "fst (snd (snd (snd (example_run [])))) = [] \<and> cloud_resources_done (fst (snd (snd (example_run []))))"
proof -
  obtain cd' cache' where run: "example_run [] = ([], 0, cd', [], cache')" and fin: "ClusterDeploymentFinalizer \<notin> set (cld_Finalizers cd')"
    by (rule example_run_end)
  have "ClusterDeploymentFinalizer \<in> set (cld_Finalizers example_doomed)" by code_simp
  from deletion_safe [OF example_conds example_del_reads example_del_writes run this fin] run show ?thesis by simp
qed

theorem deletion_progress_witness:
  "fst (example_run [HelmReleaseObject, CapiClusterObject]) = [] \<and> fst (snd (example_run [HelmReleaseObject, CapiClusterObject])) = de_requeue example_del_env"
proof -
  obtain cd' cache' where run: "example_run [HelmReleaseObject, CapiClusterObject] = ([], 10, cd', [CapiClusterObject], cache')"
    and fin: "ClusterDeploymentFinalizer \<in> set (cld_Finalizers cd')" by (rule example_run_waits)
  from deletion_progress [OF run] fin run show ?thesis by simp
qed

theorem cleanup_misreported_witness:
  "\<exists>c. find_condition (cld_Conditions (fst (snd (snd (example_run [HelmReleaseObject, CapiClusterObject]))))) DeletingCondition = Some c
     \<and> cond_Reason c = WaitingForCloudResourcesDeletionReason"
proof -
  obtain cd' cache' where run: "example_run [HelmReleaseObject, CapiClusterObject] = ([], 10, cd', [CapiClusterObject], cache')"
    and fin: "ClusterDeploymentFinalizer \<in> set (cld_Finalizers cd')" and after: "cloud_resources_done cd'" by (rule example_run_waits)
  have "capi_typed (de_capi example_del_env)" by (simp add: capi_typed_def example_del_env_def)
  moreover have "\<not> cloud_resources_done example_doomed"
    by (simp add: cloud_resources_done_def example_doomed_def example_cld_def ClusterDeployment.defs Cld.defs find_condition_def)
  ultimately show ?thesis using cleanup_misreported [OF example_conds _ run _ after fin] run by simp
qed

end
