(* ===== verification/HelmRelease.thy ===== *)
theory HelmRelease
  imports RBACSync ClusterStatus
begin

text \<open>
  How a HelmRelease is written (\<^verbatim>\<open>internal/helm/release.go\<close>). Of a release the fields that are set are
  modelled, and the conditions Flux reports in its status. Installation and upgrade settings are
  opaque.
\<close>

section \<open>Definitions\<close>

record HelmRelease =
  hr_Labels :: "(string \<times> string) list"
  hr_OwnerReferences :: "OwnerReference list"
  hr_ChartRef :: "SourceReference option"
  hr_Interval :: int
  hr_ReleaseName :: string
  hr_Values :: "string option"
  hr_DependsOn :: "string list"
  hr_TargetNamespace :: string
  hr_Timeout :: "int option"
  hr_Install :: "string option"
  hr_Upgrade :: "string option"
  hr_KubeConfig :: "(string \<times> string) option"
  hr_Conditions :: "Condition list"

record ReconcileHelmReleaseOpts =
  ho_Values :: "string option"
  ho_OwnerReference :: "OwnerReference option"
  ho_ChartRef :: "SourceReference option"
  ho_ReconcileInterval :: "int option"
  ho_Install :: "string option"
  ho_Upgrade :: "string option"
  ho_KubeConfigRef :: "(string \<times> string) option"
  ho_Labels :: "(string \<times> string) list"
  ho_ReleaseName :: string
  ho_TargetNamespace :: string
  ho_DependsOn :: "string list option"
  ho_Timeout :: int

text \<open>Ten minutes, in nanoseconds.\<close>

definition DefaultReconcileInterval :: int where "DefaultReconcileInterval = 600000000000"

definition set_release :: "string \<Rightarrow> ReconcileHelmReleaseOpts \<Rightarrow> HelmRelease \<Rightarrow> HelmRelease" where
  "set_release name opts hr =
     hr\<lparr>hr_Labels := fold (\<lambda>(k, v). AList.update k v) (ho_Labels opts) (AList.update KCMManagedLabelKey KCMManagedLabelValue (hr_Labels hr)),
        hr_OwnerReferences := (case ho_OwnerReference opts of None \<Rightarrow> hr_OwnerReferences hr | Some r \<Rightarrow> [r]),
        hr_ChartRef := ho_ChartRef opts,
        hr_Interval := (case ho_ReconcileInterval opts of None \<Rightarrow> DefaultReconcileInterval | Some i \<Rightarrow> i),
        hr_ReleaseName := (if ho_ReleaseName opts \<noteq> [] then ho_ReleaseName opts else name),
        hr_Values := (case ho_Values opts of None \<Rightarrow> hr_Values hr | Some v \<Rightarrow> Some v),
        hr_DependsOn := (case ho_DependsOn opts of None \<Rightarrow> hr_DependsOn hr | Some d \<Rightarrow> d),
        hr_TargetNamespace := (if ho_TargetNamespace opts \<noteq> [] then ho_TargetNamespace opts else hr_TargetNamespace hr),
        hr_Timeout := (if ho_Timeout opts \<noteq> 0 then Some (ho_Timeout opts) else hr_Timeout hr),
        hr_Install := (case ho_Install opts of None \<Rightarrow> hr_Install hr | Some i \<Rightarrow> Some i),
        hr_Upgrade := (case ho_Upgrade opts of None \<Rightarrow> hr_Upgrade hr | Some u \<Rightarrow> Some u),
        hr_KubeConfig := (case ho_KubeConfigRef opts of None \<Rightarrow> hr_KubeConfig hr | Some r \<Rightarrow> Some r)\<rparr>"

text \<open>
  \<open>ctrl.CreateOrUpdate\<close> with the function that sets the fields; the result is the object as stored.
\<close>

record 'w helm_api =
  ha_createOrUpdate :: "ObjectKey \<Rightarrow> (HelmRelease \<Rightarrow> HelmRelease) \<Rightarrow> 'w \<Rightarrow> (api_error + HelmRelease) \<times> 'w"
  ha_get :: "ObjectKey \<Rightarrow> 'w \<Rightarrow> api_error + HelmRelease"

definition ReconcileHelmRelease ::
  "'w helm_api \<Rightarrow> string \<Rightarrow> string \<Rightarrow> ReconcileHelmReleaseOpts \<Rightarrow> 'w \<Rightarrow> (api_error + HelmRelease) \<times> 'w" where
  "ReconcileHelmRelease api name namespace opts w = ha_createOrUpdate api (ObjectKey namespace name) (set_release name opts) w"

text \<open>\<open>fluxconditions.IsReady\<close>.\<close>

definition hr_isReady :: "HelmRelease \<Rightarrow> bool" where
  "hr_isReady hr \<longleftrightarrow> (case find_condition (hr_Conditions hr) ReadyCondition of None \<Rightarrow> False | Some c \<Rightarrow> cond_Status c = ConditionTrue)"

section \<open>Laws\<close>

text \<open>
  A successful write has applied the function to the release there was, or to an empty one, and
  stored the result.
\<close>

definition no_release :: HelmRelease where
  "no_release = \<lparr>hr_Labels = [], hr_OwnerReferences = [], hr_ChartRef = None, hr_Interval = 0, hr_ReleaseName = [], hr_Values = None,
     hr_DependsOn = [], hr_TargetNamespace = [], hr_Timeout = None, hr_Install = None, hr_Upgrade = None, hr_KubeConfig = None, hr_Conditions = []\<rparr>"

definition helm_laws :: "'w helm_api \<Rightarrow> ('w \<Rightarrow> ObjectKey \<rightharpoonup> HelmRelease) \<Rightarrow> bool" where
  "helm_laws api releases \<longleftrightarrow>
     (\<forall>k f w hr w'. ha_createOrUpdate api k f w = (Inr hr, w') \<longrightarrow>
        hr = f (case releases w k of None \<Rightarrow> no_release | Some r \<Rightarrow> r) \<and> releases w' = (releases w)(k \<mapsto> hr))"

lemma ReconcileHelmRelease_stored:
  assumes "helm_laws api releases" and "ReconcileHelmRelease api name ns opts w = (Inr hr, w')"
  shows "releases w' = (releases w)(ObjectKey ns name \<mapsto> hr)"
    and "hr = set_release name opts (case releases w (ObjectKey ns name) of None \<Rightarrow> no_release | Some r \<Rightarrow> r)"
  using assms unfolding helm_laws_def ReconcileHelmRelease_def by blast+

end
