(* ===== verification/ClusterReconcile.thy ===== *)
theory ClusterReconcile
  imports ClusterScope ClusterServices ClusterDelete HelmRelease
begin

text \<open>
  A run of the ClusterDeployment controller: \<open>Reconcile\<close>, \<open>reconcileUpdate\<close> and \<open>updateCluster\<close> of
  \<^verbatim>\<open>internal/controller/clusterdeployment_controller.go\<close>, composed of the parts in the theories above.

  The state of a run is the child cluster, the management cluster with the region, and the cache of
  RBAC synchronisations. Operations on a region take the Region of the scope, or \<open>None\<close> for the
  management cluster itself. Events and logs are left out.
\<close>

section \<open>Environment\<close>

text \<open>\<open>Panicked\<close> is a nil dereference: the run ends there, but for deferred functions.\<close>

datatype upd_error =
    NoRetrigger
  | Panicked
  | CldReadFailed api_error
  | ManagementReadFailed api_error
  | ScopeFailed scope_error
  | FinalizerAddFailed api_error
  | LabelFailed api_error
  | CertificatesFailed resource_error
  | TemplateReadFailed api_error
  | IPAMProblem ipam_outcome
  | TemplateInvalid
  | ChartSourceMissing
  | ChartReadFailed api_error
  | ChartDownloadFailed string
  | HelmClientFailed string
  | ConfigInvalid string
  | ReleaseReadFailed api_error
  | ResourcesFailed resource_error
  | RegionRefInvalid string
  | ReleaseWriteFailed api_error
  | CapiFailed string
  | RBACFailed cld_rbac_error
  | ServicesFailed service_update_error
  | StatusFailed api_error
  | DeleteFailed del_error

text \<open>
  \<open>ue_getHelmChart\<close> gives the artifact of a HelmChart, its URL and digest, if it has one. \<open>ue_download\<close>,
  \<open>ue_initConfiguration\<close> and \<open>ue_ensureRelease\<close> are calls of the Helm library, \<open>ue_capiOwner\<close> and \<open>ue_cldOwner\<close>
  set owner references, and \<open>ue_contracts\<close> is the order in which the contracts of a template are read.
\<close>

record ('c, 's, 'u, 'v, 'p, 'm) upd_env =
  ue_scope :: "('s, 'm) scope_env"
  ue_services :: "('u, 'v, 'm) service_env"
  ue_delete :: "RegionObject option \<Rightarrow> ('c, 's, 's \<times> 'm) del_env"
  ue_capi :: "'c capi_lib"
  ue_json :: json_lib
  ue_lib :: "'u cluster_lib"
  ue_client :: "'m \<Rightarrow> cluster_client"
  ue_contracts :: "ClusterTemplate \<Rightarrow> (string \<times> string) list"
  ue_ipam :: "('p, 'm) ipam_api"
  ue_data :: "'m data_api"
  ue_helm :: "'m helm_api"
  ue_getHelmChart :: "ObjectKey \<Rightarrow> 'm \<Rightarrow> api_error + (string \<times> string) option"
  ue_download :: "string \<Rightarrow> string \<Rightarrow> string + string"
  ue_initConfiguration :: "Cld \<Rightarrow> string option"
  ue_ensureRelease :: "string \<Rightarrow> Cld \<Rightarrow> string option"
  ue_rgnSecrets :: "RegionObject option \<Rightarrow> 'm secret_api"
  ue_rgnConfigMaps :: "RegionObject option \<Rightarrow> 'm secret_api"
  ue_rbac :: "RegionObject option \<Rightarrow> 'm \<Rightarrow> ('s, 'm) rbac_env"
  ue_listClusters :: "RegionObject option \<Rightarrow> 'm \<Rightarrow> api_error + 'c list"
  ue_capiOwner :: "Secret \<Rightarrow> string + Secret"
  ue_cldOwner :: "Secret \<Rightarrow> string + Secret"
  ue_marshalAuth :: "AuthenticationConfiguration \<Rightarrow> string + string"
  ue_marshalAudit :: "AuditPolicy \<Rightarrow> string + string"
  ue_hash :: "string \<Rightarrow> string"
  ue_global :: global_values
  ue_certificateSecrets :: "string list"
  ue_helmTimeout :: int
  ue_requeue :: nat
  ue_writer :: "'m cld_writer"
  ue_patchLabel :: "Cld \<Rightarrow> 'm \<Rightarrow> api_error option \<times> 'm"
  ue_listChains :: "'m \<Rightarrow> string \<Rightarrow> string \<Rightarrow> api_error + TemplateChainSpec list"
  ue_getCld :: "'m \<Rightarrow> api_error + Cld \<times> 'p ClusterIPAMClaimType"
  ue_getManagement :: "'m \<Rightarrow> api_error + Management"
  ue_getClusterTemplate :: "ObjectKey \<Rightarrow> 'm \<Rightarrow> api_error + ClusterTemplate"
  ue_show :: "upd_error \<Rightarrow> string"
  ue_showApi :: "api_error \<Rightarrow> string"
  ue_showClusterErrors :: "cluster_error list \<Rightarrow> string"

abbreviation ue_conds :: "('c, 's, 'u, 'v, 'p, 'm) upd_env \<Rightarrow> cond_lib" where
  "ue_conds env \<equiv> se_conds (ue_scope env)"

abbreviation ue_failed :: "('c, 's, 'u, 'v, 'p, 'm) upd_env \<Rightarrow> Cld \<Rightarrow> string \<Rightarrow> string \<Rightarrow> Cld" where
  "ue_failed env cd condition msg \<equiv> cld_setCondition (ue_conds env) cd condition FailedReason ConditionFalse msg"

section \<open>Validation\<close>

definition setInvalidTemplateCondition :: "('c, 's, 'u, 'v, 'p, 'm) upd_env \<Rightarrow> ClusterTemplate \<Rightarrow> Cld \<Rightarrow> upd_error list \<times> Cld" where
  "setInvalidTemplateCondition env clusterTpl cd =
     (let msg = ''ClusterTemplate '' @ po_Namespace clusterTpl @ ''/'' @ po_Name clusterTpl @ '' is not marked as valid''
            @ (if ct_ValidationError clusterTpl \<noteq> [] then '': '' @ ct_ValidationError clusterTpl else [])
      in (if se_webhookDisabled (ue_scope env) then [] else [TemplateInvalid], ue_failed env cd TemplateReadyCondition msg))"

definition validateDeployOnce ::
  "('c, 's, 'u, 'v, 'p, 'm) upd_env \<Rightarrow> ClusterTemplate \<Rightarrow> Cld \<Rightarrow> 'm \<Rightarrow> cluster_error list \<times> Cld" where
  "validateDeployOnce env clusterTpl cd w =
     (let base = ClusterDeployment.truncate cd;
          ctErr = ClusterTemplateProviders (ue_contracts env clusterTpl) (ue_client env w) clusterTpl base;
          compErr = (case ClusterTemplateK8sCompatibility (ue_lib env) (cc_svc (ue_client env w)) clusterTpl base of None \<Rightarrow> [] | Some e \<Rightarrow> [e])
      in case ClusterDeployCredential (ue_lib env) (ue_client env w) base clusterTpl of
           Some e \<Rightarrow> (ctErr @ compErr @ [e], ue_failed env cd CredentialReadyCondition (ue_showClusterErrors env [e]))
         | None \<Rightarrow> (ctErr @ compErr, cld_setCondition (ue_conds env) cd CredentialReadyCondition SucceededReason ConditionTrue []))"

definition getSourceArtifact :: "('c, 's, 'u, 'v, 'p, 'm) upd_env \<Rightarrow> SourceReference option \<Rightarrow> 'm \<Rightarrow> upd_error + (string \<times> string) option" where
  "getSourceArtifact env ref w =
     (case ref of
        None \<Rightarrow> Inl ChartSourceMissing
      | Some r \<Rightarrow> wrapE ChartReadFailed (ue_getHelmChart env (ObjectKey (src_Namespace r) (src_Name r)) w))"

definition DownloadChartFromArtifact :: "('c, 's, 'u, 'v, 'p, 'm) upd_env \<Rightarrow> (string \<times> string) option \<Rightarrow> string + string" where
  "DownloadChartFromArtifact env artifact =
     (case artifact of None \<Rightarrow> Inl ''helm chart artifact is not ready yet'' | Some (url, digest) \<Rightarrow> ue_download env url digest)"

text \<open>The message about a failed download names the URL of the artifact, which is a nil dereference without one.\<close>

definition validateConfig ::
  "('c, 's, 'u, 'v, 'p, 'm) upd_env \<Rightarrow> Cld \<Rightarrow> ClusterTemplate \<Rightarrow> 'm \<Rightarrow> upd_error option \<times> Cld" where
  "validateConfig env cd clusterTpl w =
     (let fail = (\<lambda>e. (Some e, ue_failed env cd HelmChartReadyCondition (ue_show env e)))
      in case getSourceArtifact env (ct_StatusChartRef clusterTpl) w of
           Inl e \<Rightarrow> fail e
         | Inr artifact \<Rightarrow>
             (case DownloadChartFromArtifact env artifact of
                Inl e \<Rightarrow> if artifact = None then (Some Panicked, cd) else fail (ChartDownloadFailed e)
              | Inr hcChart \<Rightarrow>
                  (case ue_initConfiguration env cd of
                     Some e \<Rightarrow> (Some (HelmClientFailed e), cd)
                   | None \<Rightarrow>
                       (case ue_ensureRelease env hcChart cd of
                          Some e \<Rightarrow> fail (ConfigInvalid e)
                        | None \<Rightarrow> (None, cld_setCondition (ue_conds env) cd HelmChartReadyCondition SucceededReason ConditionTrue [])))))"

definition report_credential :: "('c, 's, 'u, 'v, 'p, 'm) upd_env \<Rightarrow> clusterScope \<Rightarrow> Cld \<Rightarrow> Cld" where
  "report_credential env scope cd =
     (if se_webhookDisabled (ue_scope env) then cd
      else if \<not> cred_Ready (sc_cred scope)
      then ue_failed env cd CredentialReadyCondition
             (''the Credential '' @ cred_Namespace (sc_cred scope) @ ''/'' @ cred_Name (sc_cred scope) @ '' is not ready'')
      else cld_setCondition (ue_conds env) cd CredentialReadyCondition SucceededReason ConditionTrue [])"

definition validateAndPrepareCluster ::
  "('c, 's, 'u, 'v, 'p, 'm) upd_env \<Rightarrow> ClusterTemplate \<Rightarrow> clusterScope \<Rightarrow> Cld \<Rightarrow> 'm \<Rightarrow> upd_error option \<times> Cld" where
  "validateAndPrepareCluster env clusterTpl scope cd w =
     (case (if se_webhookDisabled (ue_scope env) then validateDeployOnce env clusterTpl cd w else ([], cd)) of
        (errs, cd1) \<Rightarrow>
          if errs \<noteq> [] then (Some NoRetrigger, cd1)
          else case validateConfig env cd1 clusterTpl w of
                 (Some e, cd2) \<Rightarrow> (Some e, cd2)
               | (None, cd2) \<Rightarrow> (None, report_credential env scope cd2))"

section \<open>Dry run\<close>

definition cld_detectHelmChartNameChange ::
  "('c, 's, 'u, 'v, 'p, 'm) upd_env \<Rightarrow> Cld \<Rightarrow> ClusterTemplate \<Rightarrow> 'm \<Rightarrow> upd_error option \<times> Cld" where
  "cld_detectHelmChartNameChange env cd clusterTpl w =
     (let cleared = cd\<lparr>cld_Conditions := cnd_remove (ue_conds env) (cld_Conditions cd) HelmChartNameChangedCondition\<rparr>
      in case ct_StatusChartRef clusterTpl of
           None \<Rightarrow> (None, cd)
         | Some ref \<Rightarrow>
             (case ha_get (ue_helm env) (ObjectKey (cd_Namespace cd) (cd_Name cd)) w of
                Inl e \<Rightarrow> if e = NotFound then (None, cleared) else (Some (ReleaseReadFailed e), cd)
              | Inr existing \<Rightarrow>
                  (case hr_ChartRef existing of
                     None \<Rightarrow> (None, cleared)
                   | Some old \<Rightarrow>
                       if src_Name old \<noteq> src_Name ref
                       then (None, cld_setCondition (ue_conds env) cd HelmChartNameChangedCondition ''HelmChartNameChanged'' ConditionTrue
                               (''Helm chart name changed from '' @ src_Name old @ '' to '' @ src_Name ref))
                       else (None, cleared))))"

definition handleDryRun ::
  "('c, 's, 'u, 'v, 'p, 'm) upd_env \<Rightarrow> Cld \<Rightarrow> ClusterTemplate \<Rightarrow> 'm \<Rightarrow> upd_error option \<times> Cld" where
  "handleDryRun env cd clusterTpl w = cld_detectHelmChartNameChange env cd clusterTpl w"

section \<open>Resources and release\<close>

definition auth_config :: "('c, 's, 'u, 'v, 'p, 'm) upd_env \<Rightarrow> clusterScope \<Rightarrow> 'm \<Rightarrow> (string + string) option" where
  "auth_config env scope w =
     (case sc_auth scope of
        None \<Rightarrow> None
      | Some clAuth \<Rightarrow>
          if \<not> HasAuthenticationConfiguration clAuth then None
          else Some (bindE (wrapE (se_showAuth (ue_scope env)) (GetAuthenticationConfiguration (se_secrets (ue_scope env)) clAuth w)) (ue_marshalAuth env)))"

definition is_regional :: "clusterScope \<Rightarrow> bool" where
  "is_regional scope \<longleftrightarrow> cred_Region (sc_cred scope) \<noteq> [] \<and> sc_region scope \<noteq> None"

definition values_of_scope ::
  "('c, 's, 'u, 'v, 'p, 'm) upd_env \<Rightarrow> clusterScope \<Rightarrow> string option \<Rightarrow> string option \<Rightarrow> ClusterDataSource option \<Rightarrow> Cld \<Rightarrow> values_scope" where
  "values_of_scope env scope authHash auditHash cds cd =
     \<lparr>vs_auth = map_option (\<lambda>h. \<lparr>av_Anonymous = (case sc_auth scope of None \<Rightarrow> False | Some a \<Rightarrow> ca_Anonymous a \<noteq> None), av_Hash = h\<rparr>) authHash,
      vs_audit = auditHash,
      vs_dataSource = (case (sc_kine scope, cds) of
          (Some caKey, Some c) \<Rightarrow>
            if cd_DataSource cd = [] then None
            else Some \<lparr>dsv_KineSecret = cds_KineDataSourceSecret c, dsv_CASecret = cds_CASecret c, dsv_CAKey = caKey\<rparr>
        | _ \<Rightarrow> None),
      vs_identity = crd_IdentityRef (sc_cred scope), vs_global = ue_global env\<rparr>"

text \<open>The last part: the Helm values, and the kubeconfig of the region.\<close>

definition prepare_release ::
  "('c, 's, 'u, 'v, 'p, 'm) upd_env \<Rightarrow> clusterScope \<Rightarrow> values_scope \<Rightarrow> Cld \<Rightarrow> 'm \<Rightarrow> (upd_error + bool) \<times> Cld \<times> 'm" where
  "prepare_release env scope vals cd w =
     (case fillHelmValues (ue_json env) vals cd of
        Inl e \<Rightarrow> (Inl (ResourcesFailed (HelmValuesFailed e)), cd, w)
      | Inr cd1 \<Rightarrow>
          (case copyRegionalKubeConfigSecret (se_secrets (ue_scope env)) (se_systemNamespace (ue_scope env)) (cred_Region (sc_cred scope))
                  (map_option Region.truncate (sc_region scope)) (ue_cldOwner env) cd1 w of
             (Some e, w') \<Rightarrow> (Inl (ResourcesFailed e), cd1, w')
           | (None, w') \<Rightarrow> (Inr False, cd1, w')))"

definition ensure_data ::
  "('c, 's, 'u, 'v, 'p, 'm) upd_env \<Rightarrow> clusterScope \<Rightarrow> string option \<Rightarrow> string option \<Rightarrow> Cld \<Rightarrow> 'm \<Rightarrow> (upd_error + bool) \<times> Cld \<times> 'm" where
  "ensure_data env scope authHash auditHash cd w =
     (case ensureDataSourceReferences (ue_conds env) (se_secrets (ue_scope env)) (ue_rgnSecrets env (sc_region scope)) (ue_data env)
             (ue_rbac env (sc_region scope)) (ue_capiOwner env) (is_regional scope) (sc_kine scope \<noteq> None) cd w of
        (Inl e, _, cd', w') \<Rightarrow>
          (Inl (ResourcesFailed e), ue_failed env cd' ClusterDataSourceReadyCondition (ue_show env (ResourcesFailed e)), w')
      | (Inr True, _, cd', w') \<Rightarrow>
          (Inr True, cld_setCondition (ue_conds env) cd' ClusterDataSourceReadyCondition ProgressingReason ConditionFalse
             (''cross-referenced ClusterDataSource '' @ cd_Namespace cd @ ''/'' @ cd_Name cd @ '' is not yet ready''), w')
      | (Inr False, cds, cd', w') \<Rightarrow> prepare_release env scope (values_of_scope env scope authHash auditHash cds cd') cd' w')"

definition ensureClusterResources ::
  "('c, 's, 'u, 'v, 'p, 'm) upd_env \<Rightarrow> clusterScope \<Rightarrow> Cld \<Rightarrow> 'm \<Rightarrow> (upd_error + bool) \<times> Cld \<times> 'm" where
  "ensureClusterResources env scope cd w =
     (case ensureAuthConfigSecret (ue_conds env) (ue_rgnSecrets env (sc_region scope)) (ue_rbac env (sc_region scope)) (ue_capiOwner env)
             (auth_config env scope w) (ue_hash env) cd w of
        (Inl e, cd1, w1) \<Rightarrow>
          (Inl (ResourcesFailed e), ue_failed env cd1 ClusterAuthenticationReadyCondition (ue_show env (ResourcesFailed e)), w1)
      | (Inr authHash, cd1, w1) \<Rightarrow>
          (case ensureAuditPolicyConfigMap (ue_conds env) (ue_rgnConfigMaps env (sc_region scope)) (ue_rbac env (sc_region scope)) (ue_capiOwner env)
                  (map_option (ue_marshalAudit env) (sc_audit scope)) (ue_hash env) cd1 w1 of
             (Inl e, cd2, w2) \<Rightarrow>
               (Inl (ResourcesFailed e), ue_failed env cd2 ClusterAuditPolicyReadyCondition (ue_show env (ResourcesFailed e)), w2)
           | (Inr auditHash, cd2, w2) \<Rightarrow> ensure_data env scope authHash auditHash cd2 w2))"

definition getHelmReleaseReconcileOpts ::
  "('c, 's, 'u, 'v, 'p, 'm) upd_env \<Rightarrow> ClusterTemplate \<Rightarrow> clusterScope \<Rightarrow> Cld \<Rightarrow> upd_error + ReconcileHelmReleaseOpts" where
  "getHelmReleaseReconcileOpts env clusterTpl scope cd =
     (let opts = \<lparr>ho_Values = cd_Config cd,
            ho_OwnerReference = Some \<lparr>or_APIVersion = ''k0rdent.mirantis.com/v1beta1'', or_Kind = ''ClusterDeployment'', or_Name = cd_Name cd, or_UID = cd_UID cd\<rparr>,
            ho_ChartRef = ct_StatusChartRef clusterTpl, ho_ReconcileInterval = map_option hc_Interval (helm_ChartSpec (ct_Helm clusterTpl)),
            ho_Install = None, ho_Upgrade = None, ho_KubeConfigRef = None, ho_Labels = [], ho_ReleaseName = [], ho_TargetNamespace = [],
            ho_DependsOn = None, ho_Timeout = ue_helmTimeout env\<rparr>
      in case sc_region scope of
           None \<Rightarrow> Inr opts
         | Some region \<Rightarrow>
             bindE (wrapE RegionRefInvalid (GetRegionalKubeconfigSecretRef (Region.truncate region))) (\<lambda>ref.
               Inr (opts\<lparr>ho_KubeConfigRef := Some ref\<rparr>)))"

definition report_release :: "('c, 's, 'u, 'v, 'p, 'm) upd_env \<Rightarrow> HelmRelease \<Rightarrow> Cld \<Rightarrow> Cld" where
  "report_release env hr cd =
     (case find_condition (hr_Conditions hr) ReadyCondition of
        None \<Rightarrow> cd
      | Some c \<Rightarrow> cld_setCondition (ue_conds env) cd HelmReleaseReadyCondition (cond_Reason c) (cond_Status c) (cond_Message c))"

text \<open>The result: an error, or when to requeue.\<close>

definition reconcileHelmRelease ::
  "('c, 's, 'u, 'v, 'p, 'm) upd_env \<Rightarrow> ClusterTemplate \<Rightarrow> clusterScope \<Rightarrow> Cld \<Rightarrow> 'm \<Rightarrow> (upd_error + nat) \<times> Cld \<times> 'm" where
  "reconcileHelmRelease env clusterTpl scope cd w =
     (case getHelmReleaseReconcileOpts env clusterTpl scope cd of
        Inl e \<Rightarrow> (Inl e, cd, w)
      | Inr opts \<Rightarrow>
          (case ReconcileHelmRelease (ue_helm env) (cd_Name cd) (cd_Namespace cd) opts w of
             (Inl e, w') \<Rightarrow>
               (Inl (ReleaseWriteFailed e), ue_failed env cd HelmReleaseReadyCondition (ue_show env (ReleaseWriteFailed e)), w')
           | (Inr hr, w') \<Rightarrow>
               (case aggregateCapiConditions (ue_conds env) (ue_capi env) (ue_listClusters env (sc_region scope) w') (ue_showApi env)
                       (report_release env hr cd) of
                  (Inl e, cd2, _) \<Rightarrow> (Inl (CapiFailed e), cd2, w')
                | (Inr requeue, cd2, _) \<Rightarrow> (Inr (if requeue \<or> \<not> hr_isReady hr then ue_requeue env else 0), cd2, w'))))"

section \<open>The run\<close>

text \<open>
  The result of the steps: the joined errors, and when to requeue. The template is never nil here.
  RBAC is distributed whatever becomes of the release.
\<close>

definition apply_cluster ::
  "('c, 's, 'u, 'v, 'p, 'm) upd_env \<Rightarrow> ClusterTemplate \<Rightarrow> clusterScope \<Rightarrow> Cld \<Rightarrow> ('s, 'm) rbac_world \<Rightarrow> upd_error list \<times> nat \<times> Cld \<times> ('s, 'm) rbac_world" where
  "apply_cluster env clusterTpl scope cd st =
     (case ensureClusterResources env scope cd (rw_mgmt st) of
        (Inl e, cd1, w1) \<Rightarrow> ([e], 0, cd1, st\<lparr>rw_mgmt := w1\<rparr>)
      | (Inr True, cd1, w1) \<Rightarrow> ([], ue_requeue env, cd1, st\<lparr>rw_mgmt := w1\<rparr>)
      | (Inr False, cd1, w1) \<Rightarrow>
          (case reconcileHelmRelease env clusterTpl scope cd1 w1 of
             (helm, cd2, w2) \<Rightarrow>
               (case ensureRBACPolicy (ue_conds env) (ue_rbac env (sc_region scope) w2) (sc_rbacPolicy scope) cd2 (st\<lparr>rw_mgmt := w2\<rparr>) of
                  (rbac, cd3, st') \<Rightarrow>
                    (case (helm, rbac) of
                       (Inr a, Inr b) \<Rightarrow> ([], soonerResult a (nat b), cd3, st')
                     | (Inl e, Inr _) \<Rightarrow> ([e], 0, cd3, st')
                     | (Inr _, Inl e) \<Rightarrow> ([RBACFailed e], 0, cd3, st')
                     | (Inl e, Inl e') \<Rightarrow> ([e, RBACFailed e'], 0, cd3, st')))))"

definition updateCluster ::
  "('c, 's, 'u, 'v, 'p, 'm) upd_env \<Rightarrow> ClusterTemplate \<Rightarrow> clusterScope \<Rightarrow> Cld \<Rightarrow> ('s, 'm) rbac_world \<Rightarrow> upd_error list \<times> nat \<times> Cld \<times> ('s, 'm) rbac_world" where
  "updateCluster env clusterTpl scope cd st =
     (let cd1 = initClusterConditions (ue_conds env) cd
      in if \<not> ct_Valid clusterTpl then (case setInvalidTemplateCondition env clusterTpl cd1 of (errs, cd2) \<Rightarrow> (errs, 0, cd2, st))
         else let cd2 = cld_setCondition (ue_conds env) cd1 TemplateReadyCondition SucceededReason ConditionTrue [];
                  cd3 = setStatusRegion (map_option rgn_Name (sc_region scope)) cd2
              in case validateAndPrepareCluster env clusterTpl scope cd3 (rw_mgmt st) of
                   (Some e, cd4) \<Rightarrow> (if e = NoRetrigger then [] else [e], 0, cd4, st)
                 | (None, cd4) \<Rightarrow>
                     (let cd5 = cd4\<lparr>cld_KubernetesVersion := ct_StatusKubernetesVersion clusterTpl\<rparr>
                      in if cd_DryRun cd5
                         then (case handleDryRun env cd5 clusterTpl (rw_mgmt st) of
                                 (e, cd6) \<Rightarrow> (case e of None \<Rightarrow> [] | Some x \<Rightarrow> [x], 0, cd6, st))
                         else apply_cluster env clusterTpl scope cd5 st))"

definition PausedCondition :: string where "PausedCondition = ''Paused''"

definition RegionPauseAnnotation :: string where "RegionPauseAnnotation = ''k0rdent.mirantis.com/region-pause''"

text \<open>The zero value of a ClusterTemplate, which the status is written with when none was read.\<close>

definition no_template :: ClusterTemplate where
  "no_template = \<lparr>po_Namespace = [], po_Name = [], po_Labels = [], po_OwnerReferences = [], po_Deleting = False,
     ct_Helm = \<lparr>helm_ChartSpec = None, helm_ChartRef = None\<rparr>, ct_StatusProviders = [], ct_StatusProviderContracts = [],
     ct_StatusKubernetesVersion = [], ct_StatusConfig = None, ct_StatusChartRef = None, ct_Valid = False, ct_ValidationError = []\<rparr>"

text \<open>
  The steps between the deferred function and the end: the errors, when to requeue, the object, the
  template that was read, the claim, and the state.
\<close>

definition update_services ::
  "('c, 's, 'u, 'v, 'p, 'm) upd_env \<Rightarrow> ClusterTemplate \<Rightarrow> Cld \<Rightarrow> ('s, 'm) rbac_world \<Rightarrow> upd_error list \<times> Cld \<times> ('s, 'm) rbac_world" where
  "update_services env clusterTpl cd st =
     (case updateServices (ue_services env) clusterTpl cd (rw_mgmt st) of (errs, cd', w') \<Rightarrow> (map ServicesFailed errs, cd', st\<lparr>rw_mgmt := w'\<rparr>))"

definition update_both ::
  "('c, 's, 'u, 'v, 'p, 'm) upd_env \<Rightarrow> ClusterTemplate \<Rightarrow> clusterScope \<Rightarrow> Cld \<Rightarrow> ('s, 'm) rbac_world \<Rightarrow> upd_error list \<times> nat \<times> Cld \<times> ('s, 'm) rbac_world" where
  "update_both env clusterTpl scope cd st =
     (case updateCluster env clusterTpl scope cd st of
        (errs1, requeue, cd1, st1) \<Rightarrow>
          if Panicked \<in> set errs1 then (errs1, 0, cd1, st1)
          else case update_services env clusterTpl cd1 st1 of
                 (errs2, cd2, st2) \<Rightarrow> if errs1 @ errs2 \<noteq> [] then (errs1 @ errs2, 0, cd2, st2) else ([], requeue, cd2, st2))"

definition update_steps ::
  "('c, 's, 'u, 'v, 'p, 'm) upd_env \<Rightarrow> clusterScope \<Rightarrow> Cld \<Rightarrow> 'p ClusterIPAMClaimType \<Rightarrow> ('s, 'm) rbac_world
     \<Rightarrow> upd_error list \<times> nat \<times> Cld \<times> ClusterTemplate \<times> 'p ClusterIPAMClaimType \<times> ('s, 'm) rbac_world" where
  "update_steps env scope cd ict st =
     (let paused = (case sc_region scope of None \<Rightarrow> False | Some rgn \<Rightarrow> alookup (rgo_Annotations rgn) RegionPauseAnnotation \<noteq> None);
          cd1 = (case sc_region scope of
                   None \<Rightarrow> cd
                 | Some rgn \<Rightarrow>
                     if paused then cld_setCondition (ue_conds env) cd PausedCondition ''Paused'' ConditionTrue (''Related Region '' @ rgn_Name rgn @ '' is paused'')
                     else cld_setCondition (ue_conds env) cd PausedCondition ''NotPaused'' ConditionFalse [])
      in if paused then ([], 0, cd1, no_template, ict, st)
         else case handleCertificateSecrets (se_secrets (ue_scope env)) (ue_rgnSecrets env (sc_region scope)) (se_systemNamespace (ue_scope env))
                     (ue_certificateSecrets env) cd1 (rw_mgmt st) of
                (Some e, w1) \<Rightarrow> ([CertificatesFailed e], 0, cd1, no_template, ict, st\<lparr>rw_mgmt := w1\<rparr>)
              | (None, w1) \<Rightarrow>
                  (case ue_getClusterTemplate env (ObjectKey (cd_Namespace cd1) (cd_Template cd1)) w1 of
                     Inl e \<Rightarrow>
                       (if se_webhookDisabled (ue_scope env) then [] else [TemplateReadFailed e], 0,
                        ue_failed env cd1 TemplateReadyCondition (ue_show env (TemplateReadFailed e)), no_template, ict, st\<lparr>rw_mgmt := w1\<rparr>)
                   | Inr clusterTpl \<Rightarrow>
                       (case (if ict_Ref ict \<noteq> [] \<or> ict_Spec ict \<noteq> None then processClusterIPAM (ue_json env) (ue_ipam env) cd1 ict w1
                              else (IPAMDone, cd1, ict, w1)) of
                          (outcome, cd2, ict2, w2) \<Rightarrow>
                            (let st2 = st\<lparr>rw_mgmt := w2\<rparr>
                             in case outcome of
                                  IPAMNotReady \<Rightarrow> ([], ue_requeue env, cd2, clusterTpl, ict2, st2)
                                | IPAMSpecUpdated \<Rightarrow> ([], 0, cd2, clusterTpl, ict2, st2)
                                | IPAMInvalidClaimRef \<Rightarrow> ([], 0, cd2, clusterTpl, ict2, st2)
                                | IPAMDone \<Rightarrow>
                                    (case update_both env clusterTpl scope cd2 st2 of
                                       (errs, requeue, cd3, st3) \<Rightarrow> (errs, requeue, cd3, clusterTpl, ict2, st3))
                                | _ \<Rightarrow> ([IPAMProblem outcome], 0, cd2, clusterTpl, ict2, st2)))))"

definition GenericComponentNameLabel :: string where "GenericComponentNameLabel = ''k0rdent.mirantis.com/component''"

text \<open>Whether the label was set, or the error.\<close>

definition AddKCMComponentLabel :: "(Cld \<Rightarrow> 'm \<Rightarrow> api_error option \<times> 'm) \<Rightarrow> Cld \<Rightarrow> 'm \<Rightarrow> (api_error + bool) \<times> 'm" where
  "AddKCMComponentLabel patch cd w =
     (if alookup (cd_Labels cd) GenericComponentNameLabel = Some ''kcm'' then (Inr False, w)
      else case patch cd w of (Some e, w') \<Rightarrow> (Inl e, w') | (None, w') \<Rightarrow> (Inr True, w'))"

definition cld_reconcileUpdate ::
  "('c, 's, 'u, 'v, 'p, 'm) upd_env \<Rightarrow> clusterScope \<Rightarrow> Cld \<Rightarrow> 'p ClusterIPAMClaimType \<Rightarrow> ('s, 'm) rbac_world
     \<Rightarrow> upd_error list \<times> nat \<times> Cld \<times> ('s, 'm) rbac_world" where
  "cld_reconcileUpdate env scope cd ict st =
     (if ClusterDeploymentFinalizer \<notin> set (cld_Finalizers cd)
      then let cd1 = cd\<lparr>cld_Finalizers := cld_Finalizers cd @ [ClusterDeploymentFinalizer]\<rparr>
           in case cw_update (ue_writer env) cd1 (rw_mgmt st) of
                (e, w') \<Rightarrow> (case e of None \<Rightarrow> [] | Some x \<Rightarrow> [FinalizerAddFailed x], 0, cd1, st\<lparr>rw_mgmt := w'\<rparr>)
      else case AddKCMComponentLabel (ue_patchLabel env) cd (rw_mgmt st) of
             (Inl e, w') \<Rightarrow> ([LabelFailed e], 0, cd, st\<lparr>rw_mgmt := w'\<rparr>)
           | (Inr True, w') \<Rightarrow> ([], 0, cd, st\<lparr>rw_mgmt := w'\<rparr>)
           | (Inr False, w') \<Rightarrow>
               (case update_steps env scope cd ict (st\<lparr>rw_mgmt := w'\<rparr>) of
                  (errs, requeue, cd1, clusterTpl, ict1, st1) \<Rightarrow>
                    (case cld_updateStatus (ue_conds env) (ue_listChains env (rw_mgmt st1)) (ue_writer env) cd cd1 (Some clusterTpl) (rw_mgmt st1) of
                       (e, cd2, w2) \<Rightarrow>
                         (case e of
                            None \<Rightarrow> (errs, requeue, cd2, st1\<lparr>rw_mgmt := w2\<rparr>)
                          | Some x \<Rightarrow> (errs @ [StatusFailed x], requeue, cd2, st1\<lparr>rw_mgmt := w2\<rparr>)))))"

text \<open>The result: the errors, when to requeue, the object if there is one, and the state.\<close>

definition cld_Reconcile ::
  "('c, 's, 'u, 'v, 'p, 'm) upd_env \<Rightarrow> ('s, 'm) rbac_world \<Rightarrow> upd_error list \<times> nat \<times> Cld option \<times> ('s, 'm) rbac_world" where
  "cld_Reconcile env st =
     (case ue_getCld env (rw_mgmt st) of
        Inl e \<Rightarrow> (if e = NotFound then [] else [CldReadFailed e], 0, None, st)
      | Inr (cd, ict) \<Rightarrow>
          (case ue_getManagement env (rw_mgmt st) of
             Inl e \<Rightarrow> ([ManagementReadFailed e], 0, Some cd, st)
           | Inr management \<Rightarrow>
               (case getClusterScope (ue_scope env) cd (rw_mgmt st) of
                  (Inl e, cd1) \<Rightarrow>
                    (case cld_updateStatus (ue_conds env) (ue_listChains env (rw_mgmt st)) (ue_writer env) cd cd1 None (rw_mgmt st) of
                       (statusErr, cd2, w') \<Rightarrow>
                         ((if e = ScopeNoRetrigger then [] else [ScopeFailed e]) @ (case statusErr of None \<Rightarrow> [] | Some x \<Rightarrow> [StatusFailed x]),
                          0, Some cd2, st\<lparr>rw_mgmt := w'\<rparr>))
                | (Inr scope, cd1) \<Rightarrow>
                    if cd_Deleting cd1
                    then (case cld_reconcileDelete (ue_delete env (sc_region scope)) (sc_kine scope \<noteq> None) cd1 (rw_child st, rw_mgmt st) (rw_synced st) of
                            (errs, requeue, cd2, (child, w'), cache) \<Rightarrow>
                              (map DeleteFailed errs, requeue, Some cd2, \<lparr>rw_child = child, rw_mgmt = w', rw_synced = cache\<rparr>))
                    else if mgmt_Deleting management then ([], 0, Some cd1, st)
                    else (case cld_reconcileUpdate env scope cd1 ict st of
                            (errs, requeue, cd2, st') \<Rightarrow> (errs, requeue, Some cd2, st')))))"

section \<open>What a validation keeps\<close>

text \<open>The parts of the specification that the proofs compare; no validation changes them.\<close>

definition spec_of :: "Cld \<Rightarrow> string option \<times> bool \<times> string \<times> string \<times> string" where
  "spec_of cd = (cd_Config cd, cd_DryRun cd, cd_Template cd, cd_Namespace cd, cd_Name cd)"

lemma spec_of_set [simp]:
  "spec_of (cld_setCondition lib cd t r s m) = spec_of cd" "spec_of (cd\<lparr>cld_Conditions := cs\<rparr>) = spec_of cd"
  "spec_of (cd\<lparr>cld_KubernetesVersion := v\<rparr>) = spec_of cd" "spec_of (setStatusRegion region cd) = spec_of cd"
  by (simp_all add: spec_of_def cld_setCondition_def setStatusRegion_def split: option.splits)

lemma fold_keeps: "(\<And>x a. g (f x a) = g a) \<Longrightarrow> g (fold f xs a) = g a"
  by (induction xs arbitrary: a) auto

lemma spec_of_init [simp]: "spec_of (initClusterConditions lib cd) = spec_of cd"
  unfolding initClusterConditions_def by (rule fold_keeps) auto

lemma validateDeployOnce_spec:
  assumes "validateDeployOnce env clusterTpl cd w = (errs, cd')"
  shows "spec_of cd' = spec_of cd"
    and "errs = [] \<longleftrightarrow> ClusterTemplateProviders (ue_contracts env clusterTpl) (ue_client env w) clusterTpl (ClusterDeployment.truncate cd) = []
       \<and> ClusterTemplateK8sCompatibility (ue_lib env) (cc_svc (ue_client env w)) clusterTpl (ClusterDeployment.truncate cd) = None
       \<and> ClusterDeployCredential (ue_lib env) (ue_client env w) (ClusterDeployment.truncate cd) clusterTpl = None"
  using assms by (auto simp: validateDeployOnce_def Let_def split: option.splits)

definition chart_accepts :: "('c, 's, 'u, 'v, 'p, 'm) upd_env \<Rightarrow> ClusterTemplate \<Rightarrow> string option \<Rightarrow> 'm \<Rightarrow> bool" where
  "chart_accepts env clusterTpl config w \<longleftrightarrow>
     (\<exists>artifact chart cd. getSourceArtifact env (ct_StatusChartRef clusterTpl) w = Inr (Some artifact)
        \<and> DownloadChartFromArtifact env (Some artifact) = Inr chart \<and> cd_Config cd = config \<and> ue_ensureRelease env chart cd = None)"

lemma validateConfig_spec:
  assumes "validateConfig env cd clusterTpl w = (e, cd')"
  shows "spec_of cd' = spec_of cd" and "e = None \<Longrightarrow> chart_accepts env clusterTpl (cd_Config cd) w"
proof -
  show "spec_of cd' = spec_of cd"
    using assms by (auto simp: validateConfig_def Let_def split: sum.splits option.splits if_splits)
  assume ok: "e = None"
  from assms ok obtain artifact chart where "getSourceArtifact env (ct_StatusChartRef clusterTpl) w = Inr artifact"
    and "DownloadChartFromArtifact env artifact = Inr chart" and "ue_ensureRelease env chart cd = None"
    by (auto simp: validateConfig_def Let_def split: sum.splits option.splits if_splits)
  then show "chart_accepts env clusterTpl (cd_Config cd) w"
    unfolding chart_accepts_def by (cases artifact) (auto simp: DownloadChartFromArtifact_def)
qed

text \<open>
  What is accepted before anything is applied: without the webhook also the providers, the Kubernetes
  version and the credential.
\<close>

definition accepted :: "('c, 's, 'u, 'v, 'p, 'm) upd_env \<Rightarrow> ClusterTemplate \<Rightarrow> Cld \<Rightarrow> 'm \<Rightarrow> bool" where
  "accepted env clusterTpl cd w \<longleftrightarrow>
     chart_accepts env clusterTpl (cd_Config cd) w
   \<and> (se_webhookDisabled (ue_scope env) \<longrightarrow> (\<exists>cd'. spec_of cd' = spec_of cd
        \<and> ClusterTemplateProviders (ue_contracts env clusterTpl) (ue_client env w) clusterTpl (ClusterDeployment.truncate cd') = []
        \<and> ClusterTemplateK8sCompatibility (ue_lib env) (cc_svc (ue_client env w)) clusterTpl (ClusterDeployment.truncate cd') = None
        \<and> ClusterDeployCredential (ue_lib env) (ue_client env w) (ClusterDeployment.truncate cd') clusterTpl = None))"

lemma validateAndPrepareCluster_spec:
  assumes run: "validateAndPrepareCluster env clusterTpl scope cd w = (e, cd')"
  shows "spec_of cd' = spec_of cd" and "e = None \<Longrightarrow> accepted env clusterTpl cd w"
proof -
  obtain errs cd1 where one: "(if se_webhookDisabled (ue_scope env) then validateDeployOnce env clusterTpl cd w else ([], cd)) = (errs, cd1)" by fastforce
  obtain e2 cd2 where two: "validateConfig env cd1 clusterTpl w = (e2, cd2)" by fastforce
  have s1: "spec_of cd1 = spec_of cd" using one validateDeployOnce_spec(1) by (auto split: if_splits)
  have s2: "spec_of cd2 = spec_of cd" using validateConfig_spec(1) [OF two] s1 by simp
  have s3: "spec_of (report_credential env scope cd2) = spec_of cd" using s2 by (simp add: report_credential_def)
  have out: "(e, cd') = (if errs \<noteq> [] then (Some NoRetrigger, cd1) else case e2 of None \<Rightarrow> (None, report_credential env scope cd2) | Some x \<Rightarrow> (Some x, cd2))"
    using run unfolding validateAndPrepareCluster_def one two prod.case by (cases e2) simp_all
  have "cd' = cd1 \<or> cd' = cd2 \<or> cd' = report_credential env scope cd2" using out by (cases e2) (simp_all split: if_splits)
  then show "spec_of cd' = spec_of cd" using s1 s2 s3 by (elim disjE) simp_all
  assume "e = None"
  with out have ok: "errs = []" "e2 = None" by (cases e2; simp split: if_splits)+
  have "chart_accepts env clusterTpl (cd_Config cd) w"
    using validateConfig_spec(2) [OF two ok(2)] s1 by (simp add: spec_of_def)
  moreover have "validateDeployOnce env clusterTpl cd w = ([], cd1)" if "se_webhookDisabled (ue_scope env)" using one ok(1) that by simp
  note validateDeployOnce_spec(2) [OF this]
  ultimately show "accepted env clusterTpl cd w" unfolding accepted_def by (intro conjI impI exI [of _ cd]) simp_all
qed

section \<open>Theorems\<close>


text \<open>
  A chart without an artifact, one not yet downloaded by Flux, makes the run panic: the condition
  of the chart is not set, and the services are not looked at.
\<close>

theorem artifact_missing_panics:
  assumes valid: "ct_Valid clusterTpl" and webhook: "\<not> se_webhookDisabled (ue_scope env)" and ref: "ct_StatusChartRef clusterTpl = Some r"
    and pending: "ue_getHelmChart env (ObjectKey (src_Namespace r) (src_Name r)) (rw_mgmt st) = Inr None"
    and conds: "cond_laws (ue_conds env)"
    and run: "update_both env clusterTpl scope cd st = (errs, requeue, cd', st')"
  shows "errs = [Panicked] \<and> st' = st
     \<and> find_condition (cld_Conditions cd') HelmChartReadyCondition
         = find_condition (cld_Conditions (initClusterConditions (ue_conds env) cd)) HelmChartReadyCondition"
proof -
  let ?cd3 = "setStatusRegion (map_option rgn_Name (sc_region scope))
    (cld_setCondition (ue_conds env) (initClusterConditions (ue_conds env) cd) TemplateReadyCondition SucceededReason ConditionTrue [])"
  have conf: "validateConfig env cd0 clusterTpl (rw_mgmt st) = (Some Panicked, cd0)" for cd0
    using ref pending by (simp add: validateConfig_def Let_def getSourceArtifact_def DownloadChartFromArtifact_def wrapE_def)
  from webhook conf have "validateAndPrepareCluster env clusterTpl scope ?cd3 (rw_mgmt st) = (Some Panicked, ?cd3)"
    by (simp add: validateAndPrepareCluster_def)
  with valid have "updateCluster env clusterTpl scope cd st = ([Panicked], 0, ?cd3, st)"
    by (simp add: updateCluster_def Let_def)
  with run have out: "errs = [Panicked]" "st' = st" "cd' = ?cd3" by (auto simp: update_both_def)
  have "TemplateReadyCondition \<noteq> HelmChartReadyCondition" by (simp add: TemplateReadyCondition_def HelmChartReadyCondition_def)
  with out conds show ?thesis by (auto simp: setStatusRegion_def cld_condition_def split: option.splits)
qed

text \<open>
  When the release of a cluster was reconciled, the stored release has the chart of the template,
  the configuration, name and ownership of the ClusterDeployment, is aimed at the region if there is
  one, and nothing else changed; the run asks for no repetition only if the release is ready.
\<close>

theorem release_follows_template:
  assumes laws: "helm_laws (ue_helm env) releases" and positive: "ue_requeue env > 0"
    and run: "reconcileHelmRelease env clusterTpl scope cd w = (Inr requeue, cd', w')"
  shows "\<exists>hr. releases w' = (releases w)(ObjectKey (cd_Namespace cd) (cd_Name cd) \<mapsto> hr)
     \<and> hr_ChartRef hr = ct_StatusChartRef clusterTpl \<and> (\<forall>v. cd_Config cd = Some v \<longrightarrow> hr_Values hr = Some v)
     \<and> map or_UID (hr_OwnerReferences hr) = [cd_UID cd] \<and> hr_ReleaseName hr = cd_Name cd
     \<and> (\<forall>rgn. sc_region scope = Some rgn \<longrightarrow> (\<exists>ref. GetRegionalKubeconfigSecretRef (Region.truncate rgn) = Inr ref \<and> hr_KubeConfig hr = Some ref))
     \<and> (requeue = 0 \<longrightarrow> hr_isReady hr)"
proof -
  from run obtain opts where opts: "getHelmReleaseReconcileOpts env clusterTpl scope cd = Inr opts"
    by (auto simp: reconcileHelmRelease_def split: sum.splits)
  obtain r w1 where rel: "ReconcileHelmRelease (ue_helm env) (cd_Name cd) (cd_Namespace cd) opts w = (r, w1)" by fastforce
  with run opts obtain hr where r: "r = Inr hr" by (cases r) (auto simp: reconcileHelmRelease_def)
  obtain x cd2 g where agg: "aggregateCapiConditions (ue_conds env) (ue_capi env) (ue_listClusters env (sc_region scope) w1) (ue_showApi env)
      (report_release env hr cd) = (x, cd2, g)" by (metis prod_cases3)
  from run opts rel r agg have w1: "w' = w1" and rq: "requeue = 0 \<longrightarrow> hr_isReady hr"
    using positive by (cases x; auto simp: reconcileHelmRelease_def split: if_splits)+
  note stored = ReconcileHelmRelease_stored [OF laws rel [unfolded r]]
  have "ho_ChartRef opts = ct_StatusChartRef clusterTpl \<and> ho_Values opts = cd_Config cd \<and> ho_ReleaseName opts = []
      \<and> map_option or_UID (ho_OwnerReference opts) = Some (cd_UID cd)
      \<and> (\<forall>rgn. sc_region scope = Some rgn \<longrightarrow> (\<exists>ref. GetRegionalKubeconfigSecretRef (Region.truncate rgn) = Inr ref \<and> ho_KubeConfigRef opts = Some ref))"
    using opts by (cases "sc_region scope")
      (auto simp: getHelmReleaseReconcileOpts_def Let_def bindE_def wrapE_def split: sum.splits)
  then have "hr_ChartRef hr = ct_StatusChartRef clusterTpl \<and> (\<forall>v. cd_Config cd = Some v \<longrightarrow> hr_Values hr = Some v)
     \<and> map or_UID (hr_OwnerReferences hr) = [cd_UID cd] \<and> hr_ReleaseName hr = cd_Name cd
     \<and> (\<forall>rgn. sc_region scope = Some rgn \<longrightarrow> (\<exists>ref. GetRegionalKubeconfigSecretRef (Region.truncate rgn) = Inr ref \<and> hr_KubeConfig hr = Some ref))"
    unfolding stored(2) by (auto simp: set_release_def split: option.splits)
  with stored(1) w1 rq show ?thesis by (intro exI [of _ hr]) simp
qed

text \<open>
  A ClusterDeployment that moves from a Credential of a region to one of the management cluster
  keeps its release aimed at the region.
\<close>

theorem region_left_behind:
  assumes laws: "helm_laws (ue_helm env) releases" and region: "sc_region scope = None"
    and old: "releases w (ObjectKey (cd_Namespace cd) (cd_Name cd)) = Some old" "hr_KubeConfig old = Some ref"
    and run: "reconcileHelmRelease env clusterTpl scope cd w = (Inr requeue, cd', w')"
  shows "\<exists>hr. releases w' (ObjectKey (cd_Namespace cd) (cd_Name cd)) = Some hr \<and> hr_KubeConfig hr = Some ref"
proof -
  from run obtain opts where opts: "getHelmReleaseReconcileOpts env clusterTpl scope cd = Inr opts"
    by (auto simp: reconcileHelmRelease_def split: sum.splits)
  obtain r w1 where rel: "ReconcileHelmRelease (ue_helm env) (cd_Name cd) (cd_Namespace cd) opts w = (r, w1)" by fastforce
  with run opts obtain hr where r: "r = Inr hr" by (cases r) (auto simp: reconcileHelmRelease_def)
  have "w' = w1" using run opts rel r by (auto simp: reconcileHelmRelease_def split: prod.splits sum.splits)
  moreover have "ho_KubeConfigRef opts = None" using opts region by (auto simp: getHelmReleaseReconcileOpts_def Let_def)
  ultimately show ?thesis
    using ReconcileHelmRelease_stored [OF laws rel [unfolded r]] old by (simp add: set_release_def)
qed

text \<open>The record of grants is not touched on the way to them.\<close>

lemma grant_init [simp]: "cld_RBACPolicyGrant (cld_setCondition lib cd t r s m) = cld_RBACPolicyGrant cd"
  by (simp add: cld_setCondition_def)

lemma grant_values: "fillHelmValues lib vals cd = Inr cd' \<Longrightarrow> cld_RBACPolicyGrant cd' = cld_RBACPolicyGrant cd"
  by (auto simp: fillHelmValues_def AddHelmValues_def SetHelmValues_def bindE_def split: sum.splits)

lemma grant_config: "ensure_config lib api rbac owner c k key conf h cd w = (r, cd', w') \<Longrightarrow> cld_RBACPolicyGrant cd' = cld_RBACPolicyGrant cd"
  by (auto simp: ensure_config_def split: option.splits sum.splits if_splits prod.splits)

lemma grant_data: "ensureDataSourceReferences lib m g da rbac owner reg kine cd w = (r, cds, cd', w') \<Longrightarrow> cld_RBACPolicyGrant cd' = cld_RBACPolicyGrant cd"
  by (auto simp: ensureDataSourceReferences_def split: prod.splits if_splits)

lemma grant_resources:
  assumes "ensureClusterResources env scope cd w = (r, cd', w')"
  shows "cld_RBACPolicyGrant cd' = cld_RBACPolicyGrant cd"
proof -
  have prep: "cld_RBACPolicyGrant b = cld_RBACPolicyGrant a" if "prepare_release env scope vals a u = (x, b, u')" for vals a b u u' x
    using that grant_values by (fastforce simp: prepare_release_def split: sum.splits prod.splits option.splits)
  have data: "cld_RBACPolicyGrant b = cld_RBACPolicyGrant a" if "ensure_data env scope h1 h2 a u = (x, b, u')" for h1 h2 a b u u' x
  proof -
    obtain r1 cds cd1 w1 where d: "ensureDataSourceReferences (ue_conds env) (se_secrets (ue_scope env)) (ue_rgnSecrets env (sc_region scope)) (ue_data env)
        (ue_rbac env (sc_region scope)) (ue_capiOwner env) (is_regional scope) (sc_kine scope \<noteq> None) a u = (r1, cds, cd1, w1)" by (metis prod_cases4)
    note g = grant_data [OF d]
    show ?thesis
    proof (cases r1)
      case (Inr b1)
      then show ?thesis using that d g prep by (cases b1) (auto simp: ensure_data_def)
    qed (use that d g in \<open>auto simp: ensure_data_def\<close>)
  qed
  obtain r1 cd1 w1 where a: "ensureAuthConfigSecret (ue_conds env) (ue_rgnSecrets env (sc_region scope)) (ue_rbac env (sc_region scope)) (ue_capiOwner env)
      (auth_config env scope w) (ue_hash env) cd w = (r1, cd1, w1)" by (metis prod_cases3)
  obtain r2 cd2 w2 where u: "ensureAuditPolicyConfigMap (ue_conds env) (ue_rgnConfigMaps env (sc_region scope)) (ue_rbac env (sc_region scope))
      (ue_capiOwner env) (map_option (ue_marshalAudit env) (sc_audit scope)) (ue_hash env) cd1 w1 = (r2, cd2, w2)" by (metis prod_cases3)
  have g: "cld_RBACPolicyGrant cd1 = cld_RBACPolicyGrant cd" "cld_RBACPolicyGrant cd2 = cld_RBACPolicyGrant cd1"
    by (rule grant_config [OF a [unfolded ensureAuthConfigSecret_def]] grant_config [OF u [unfolded ensureAuditPolicyConfigMap_def]])+
  show ?thesis
    using assms a u g data by (cases r1; cases r2) (auto simp: ensureClusterResources_def)
qed

lemma grant_aggregate: "aggregateCapiConditions lib capi cs sh cd = (r, cd', g) \<Longrightarrow> cld_RBACPolicyGrant cd' = cld_RBACPolicyGrant cd"
  by (auto simp: aggregateCapiConditions_def Let_def split: sum.splits list.splits option.splits if_splits)

lemma grant_release:
  assumes "reconcileHelmRelease env clusterTpl scope cd w = (r, cd', w')"
  shows "cld_RBACPolicyGrant cd' = cld_RBACPolicyGrant cd"
proof -
  have report: "cld_RBACPolicyGrant (report_release env hr cd) = cld_RBACPolicyGrant cd" for hr by (simp add: report_release_def split: option.splits)
  show ?thesis
  proof (cases "getHelmReleaseReconcileOpts env clusterTpl scope cd")
    case (Inr opts)
    obtain x w1 where rel: "ReconcileHelmRelease (ue_helm env) (cd_Name cd) (cd_Namespace cd) opts w = (x, w1)" by fastforce
    show ?thesis
    proof (cases x)
      case x: (Inr hr)
      obtain y cd2 g where agg: "aggregateCapiConditions (ue_conds env) (ue_capi env) (ue_listClusters env (sc_region scope) w1) (ue_showApi env)
          (report_release env hr cd) = (y, cd2, g)" by (metis prod_cases3)
      from assms Inr rel x agg have "cd' = cd2" by (cases y) (auto simp: reconcileHelmRelease_def)
      with grant_aggregate [OF agg] report show ?thesis by simp
    qed (use assms Inr rel in \<open>auto simp: reconcileHelmRelease_def\<close>)
  qed (use assms in \<open>auto simp: reconcileHelmRelease_def\<close>)
qed


text \<open>
  A pause of the region makes the controller forget the available upgrades of its clusters: the
  status is written with the empty template, so that none are left and the webhook refuses every
  change of the template.
\<close>

theorem paused_region_forgets_upgrades:
  assumes region: "sc_region scope = Some rgn" "alookup (rgo_Annotations rgn) RegionPauseAnnotation = Some v"
    and settled: "ClusterDeploymentFinalizer \<in> set (cld_Finalizers cd)" "alookup (cd_Labels cd) GenericComponentNameLabel = Some ''kcm''"
    and chains: "ue_listChains env (rw_mgmt st) [] [] = Inr []" and upgrades: "cd_AvailableUpgrades cd \<noteq> []"
    and run: "cld_reconcileUpdate env scope cd ict st = (errs, requeue, cd', st')"
  shows "cd_AvailableUpgrades cd' = [] \<and> rw_mgmt st' = snd (cw_updateStatus (ue_writer env) cd' (rw_mgmt st))
     \<and> (cv_ValidateClusterUpgradePath va \<and> cd_Template new \<noteq> cd_Template cd \<longrightarrow> snd (CD_ValidateUpdate va (ClusterDeployment.truncate cd') new) \<noteq> None)"
proof -
  define cd1 where "cd1 = cld_setCondition (ue_conds env) cd PausedCondition ''Paused'' ConditionTrue (''Related Region '' @ rgn_Name rgn @ '' is paused'')"
  have steps: "update_steps env scope cd ict st = ([], 0, cd1, no_template, ict, st)"
    using region by (simp add: update_steps_def cd1_def)
  define cd2 where "cd2 = cd1\<lparr>cld_ObservedGeneration := cld_Generation cd1, cld_Conditions := UpdateReadyCondition (cnd_set (ue_conds env)) (cld_Conditions cd1)
    (cld_Generation cd1) handleClusterDeploymentFailedConditions, cd_AvailableUpgrades := []\<rparr>"
  have "upgrades_from [] [] = []" by (simp add: upgrades_from_def)
  then have av: "setAvailableUpgrades (ue_listChains env (rw_mgmt st)) c (Some no_template) = Inr (c\<lparr>cd_AvailableUpgrades := []\<rparr>)" for c
    using chains by (simp add: setAvailableUpgrades_def no_template_def bindE_def)
  have "cld_status cd \<noteq> cld_status cd2" using upgrades by (simp add: cld_status_def cd2_def)
  with av have upd: "cld_updateStatus (ue_conds env) (ue_listChains env (rw_mgmt st)) (ue_writer env) cd cd1 (Some no_template) (rw_mgmt st)
      = (case cw_updateStatus (ue_writer env) cd2 (rw_mgmt st) of (e, w') \<Rightarrow> (e, cd2, w'))"
    by (simp add: cld_updateStatus_def Let_def cd2_def)
  have label: "AddKCMComponentLabel (ue_patchLabel env) cd (rw_mgmt st) = (Inr False, rw_mgmt st)" using settled(2) by (simp add: AddKCMComponentLabel_def)
  have out: "cd' = cd2" "rw_mgmt st' = snd (cw_updateStatus (ue_writer env) cd2 (rw_mgmt st))"
    using run settled(1) steps label upd by (auto simp: cld_reconcileUpdate_def split: prod.splits option.splits)
  have tpl: "cd_Template (ClusterDeployment.truncate cd') = cd_Template cd" "cd_AvailableUpgrades (ClusterDeployment.truncate cd') = []"
    by (simp_all add: out(1) cd2_def cd1_def cld_setCondition_def ClusterDeployment.truncate_def)
  have "snd (CD_ValidateUpdate va (ClusterDeployment.truncate cd') new) \<noteq> None" if "cv_ValidateClusterUpgradePath va" "cd_Template new \<noteq> cd_Template cd"
    using that tpl by (auto simp: CD_ValidateUpdate_def check_upgrade_def Let_def split: sum.splits)
  with out show ?thesis by (simp add: cd2_def)
qed


section \<open>Examples\<close>

text \<open>A management cluster that stores the mark of grants and the releases; the child cluster is that of \<open>ClusterRBAC\<close>.\<close>

type_synonym example_store = "string \<times> (ObjectKey \<times> HelmRelease) list"

definition example_helm :: "example_store helm_api" where
  "example_helm =
     \<lparr>ha_createOrUpdate = (\<lambda>k f (m, rs). let hr = f (case alookup rs k of None \<Rightarrow> no_release | Some r \<Rightarrow> r) in (Inr hr, (m, AList.update k hr rs))),
      ha_get = (\<lambda>k (m, rs). case alookup rs k of None \<Rightarrow> Inl NotFound | Some r \<Rightarrow> Inr r)\<rparr>"

abbreviation example_releases :: "example_store \<Rightarrow> ObjectKey \<Rightarrow> HelmRelease option" where
  "example_releases \<equiv> \<lambda>w. alookup (snd w)"

lemma example_helm_laws: "helm_laws example_helm example_releases"
  by (auto simp: helm_laws_def example_helm_def Let_def split: option.splits)

definition example_grants :: "(example_cluster, example_store) rbac_env" where
  "example_grants = \<lparr>re_getSecret = Inr (Some ''kubeconfig''), re_factory = (\<lambda>_. Inr (example_child (\<lambda>_. False))), re_getCluster = Inl NotFound,
     re_patchStatus = (\<lambda>cd (m, rs). (None, (cld_RBACPolicyGrant cd, rs))), re_now = 0, re_resync = 300, re_defaultRequeue = 10, re_showErr = (\<lambda>_. ''error'')\<rparr>"

definition example_no_secrets :: "'w secret_api" where
  "example_no_secrets = \<lparr>sa_getNamespace = (\<lambda>_ _. None), sa_createNamespace = (\<lambda>_ w. (None, w)), sa_get = (\<lambda>_ _. Inl NotFound),
     sa_create = (\<lambda>_ w. (None, w)), sa_delete = (\<lambda>_ w. (None, w)), sa_createOrUpdate = (\<lambda>_ _ w. (Some [], w))\<rparr>"

definition example_credential :: CredentialObject where
  "example_credential = \<lparr>cred_Name = ''c'', cred_Namespace = ''dev'', cred_Region = [], cred_IdentityKind = Some ''Secret'', cred_Ready = True,
     crd_IdentityRef = \<lparr>idr_APIVersion = ''v1'', idr_Kind = ''Secret'', idr_Name = ''s'', idr_Namespace = ''dev''\<rparr>\<rparr>"

text \<open>An authentication configuration whose CA is missing; it is invalid.\<close>

definition example_bad_auth :: ClusterAuthentication where
  "example_bad_auth = \<lparr>ca_Namespace = ''dev'', ca_Name = ''auth'', ca_JWT = Some [], ca_Anonymous = None, ca_CASecret = ObjectKey [] ''ca'', ca_CASecretKey = ''ca.crt''\<rparr>"

definition example_scope_env :: "bool \<Rightarrow> (example_cluster, example_store) scope_env" where
  "example_scope_env disabled =
     \<lparr>se_conds = example_conditions, se_showRead = (\<lambda>_ _ _. []), se_showAuth = (\<lambda>_. []), se_showPolicy = (\<lambda>_. []), se_showAudit = (\<lambda>_. []),
      se_webhookDisabled = disabled, se_systemNamespace = ''kcm-system'', se_getCredential = (\<lambda>_ _. Inr example_credential),
      se_getDataSource = (\<lambda>_ _. Inl NotFound), se_getClusterAuthentication = (\<lambda>_ _. Inr example_bad_auth), se_getRBACPolicy = (\<lambda>_ _. Inl NotFound),
      se_getClusterAuditPolicy = (\<lambda>_ _. Inl NotFound), se_getRegion = (\<lambda>_ _. Inl NotFound), se_secrets = example_no_secrets,
      se_authLib = \<lparr>al_convert = Inr, al_validate = (\<lambda>_. [])\<rparr>, se_auditLib = \<lparr>adl_convert = Inr, adl_validate = (\<lambda>_. [])\<rparr>, se_isDNS = (\<lambda>_. []),
      se_scheme = None, se_client = example_grants\<rparr>"

definition example_no_deletion :: "(unit, example_cluster, example_cluster \<times> example_store) del_env" where
  "example_no_deletion =
     \<lparr>de_conds = example_conditions, de_capi = \<lparr>capi_defaultMerge = (\<lambda>_ _ _. Inl []), capi_summary = (\<lambda>_ _ _ _ _. Inl [])\<rparr>,
      de_show = (\<lambda>_. ''error''), de_showApi = (\<lambda>_. ''error''), de_listChains = (\<lambda>_ _. Inr []),
      de_writer = \<lparr>cw_updateStatus = (\<lambda>_ w. (None, w)), cw_update = (\<lambda>_ w. (None, w))\<rparr>, de_requeue = 10, de_webhookDisabled = False,
      de_client = (\<lambda>_. example_cluster_client),
      de_rbac = (\<lambda>_. \<lparr>re_getSecret = Inl NotFound, re_factory = (\<lambda>_. Inl []), re_getCluster = Inl NotFound, re_patchStatus = (\<lambda>_ w. (None, w)), re_now = 0,
         re_resync = 1, re_defaultRequeue = 1, re_showErr = (\<lambda>_. [])\<rparr>),
      de_listClusters = (\<lambda>_. Inr []), de_capiInfraRef = (\<lambda>_. Inl NotFound), de_getInfra = (\<lambda>_. InfraNotFound), de_machines = (\<lambda>_. Inr []),
      de_patchInfra = (\<lambda>_ w. (None, w)), de_listServiceSets = (\<lambda>_. Inr []), de_deleteServiceSet = (\<lambda>_ w. (None, w)), de_tick = (\<lambda>w. w),
      de_services = (\<lambda>_. \<lparr>co_namespaces = (\<lambda>_. Inr []), co_list = (\<lambda>_ _. Inr []), co_delete = (\<lambda>_ w. (None, w)), co_deleteAllOf = (\<lambda>_ w. (None, w))\<rparr>),
      de_kube = (\<lambda>_. example_child_kube), de_volumeOrder = (\<lambda>x. x), de_servicesFirst = True, de_isDeadline = (\<lambda>_. False),
      de_getHelmRelease = (\<lambda>_. Some NotFound), de_deleteHelmRelease = (\<lambda>w. (None, w)), de_getDataSource = (\<lambda>_. Some NotFound),
      de_deleteDataSource = (\<lambda>w. (None, w))\<rparr>"

definition example_plain_cld :: Cld where
  "example_plain_cld = example_cld\<lparr>cd_Config := Some ''plain''\<rparr>"

definition example_upd_env :: "bool \<Rightarrow> Cld \<Rightarrow> (string \<times> string) option \<Rightarrow> (unit, example_cluster, nat, nat, unit, example_store) upd_env" where
  "example_upd_env disabled stored artifact =
     \<lparr>ue_scope = example_scope_env disabled,
      ue_services = \<lparr>su_conds = example_conditions, su_lib = su_lib example_service_env, su_pipeline = example_env, su_client = (\<lambda>_. example_constrained),
         su_writer = \<lparr>createServiceSet = (\<lambda>_ w. (None, w)), updateServiceSet = (\<lambda>_ w. (None, w))\<rparr>, su_listServiceSets = (\<lambda>_. Inr []),
         su_systemNamespace = ''kcm-system'', su_webhookDisabled = disabled, su_order = map (\<lambda>s. svc_key s),
         su_graphOrder = (\<lambda>services. map fst (service_graph services)), su_show = (\<lambda>_. [])\<rparr>,
      ue_delete = (\<lambda>_. example_no_deletion), ue_capi = \<lparr>capi_defaultMerge = (\<lambda>_ _ _. Inl []), capi_summary = (\<lambda>_ _ _ _ _. Inl [])\<rparr>,
      ue_json = example_json, ue_lib = su_lib example_service_env, ue_client = (\<lambda>_. example_cluster_client), ue_contracts = ct_StatusProviderContracts,
      ue_ipam = \<lparr>ia_createOrUpdateClaim = (\<lambda>_ _ w. (Inl NotFound, w)), ia_getClaim = (\<lambda>_ _. Inl NotFound), ia_getIPAM = (\<lambda>_ _. Inl NotFound), ia_update = (\<lambda>_ _ w. (None, w))\<rparr>,
      ue_data = example_data_api, ue_helm = example_helm, ue_getHelmChart = (\<lambda>_ _. Inr artifact), ue_download = (\<lambda>_ _. Inr ''chart''),
      ue_initConfiguration = (\<lambda>_. None), ue_ensureRelease = (\<lambda>_ _. None), ue_rgnSecrets = (\<lambda>_. example_no_secrets), ue_rgnConfigMaps = (\<lambda>_. example_no_secrets),
      ue_rbac = (\<lambda>_ _. example_grants), ue_listClusters = (\<lambda>_ _. Inr []), ue_capiOwner = Inr, ue_cldOwner = Inr, ue_marshalAuth = (\<lambda>_. Inr []),
      ue_marshalAudit = (\<lambda>_. Inr []), ue_hash = (\<lambda>s. s), ue_global = vs_global example_values_scope, ue_certificateSecrets = [], ue_helmTimeout = 0, ue_requeue = 10,
      ue_writer = \<lparr>cw_updateStatus = (\<lambda>_ w. (None, w)), cw_update = (\<lambda>_ w. (None, w))\<rparr>, ue_patchLabel = (\<lambda>_ w. (None, w)), ue_listChains = (\<lambda>_ _ _. Inr []),
      ue_getCld = (\<lambda>_. Inr (stored, \<lparr>ict_Ref = [], ict_Spec = None\<rparr>)), ue_getManagement = (\<lambda>_. Inr TemplateWebhook.example_mgmt),
      ue_getClusterTemplate = (\<lambda>_ _. Inr example_aws_template), ue_show = (\<lambda>_. []), ue_showApi = (\<lambda>_. []), ue_showClusterErrors = (\<lambda>_. [])\<rparr>"

definition example_scope :: "RegionObject option \<Rightarrow> clusterScope" where
  "example_scope region = \<lparr>sc_cred = example_credential, sc_kine = None, sc_auth = None, sc_rbacPolicy = None, sc_audit = None, sc_region = region\<rparr>"

definition example_charted :: ClusterTemplate where
  "example_charted = example_aws_template\<lparr>ct_StatusChartRef := Some \<lparr>src_Kind = ''HelmChart'', src_Name = ''aws'', src_Namespace = ''dev''\<rparr>\<rparr>"

text \<open>A child cluster with a stale grant, and a release that is aimed at a region.\<close>

definition example_state :: "(ObjectKey \<times> HelmRelease) list \<Rightarrow> (example_cluster, example_store) rbac_world" where
  "example_state rs = \<lparr>rw_child = example_stale, rw_mgmt = (''Granted'', rs), rw_synced = Map.empty\<rparr>"

definition example_apply where
  "example_apply artifact = updateCluster (example_upd_env False example_plain_cld artifact) example_charted (example_scope None) example_plain_cld (example_state [])"

lemma example_apply_writes: "snd (rw_mgmt (snd (snd (snd (example_apply (Some (''url'', ''sha256''))))))) \<noteq> []"
  by code_simp


theorem artifact_missing_panics_witness:
  "fst (update_both (example_upd_env False example_plain_cld None) example_charted (example_scope None) example_plain_cld (example_state [])) = [Panicked]"
proof -
  obtain errs requeue cd' st' where run: "update_both (example_upd_env False example_plain_cld None) example_charted (example_scope None) example_plain_cld (example_state [])
      = (errs, requeue, cd', st')" by (metis prod_cases4)
  have "ct_Valid example_charted" by code_simp
  from artifact_missing_panics [OF this _ _ _ _ run] run show ?thesis
    by (simp add: example_upd_env_def example_scope_env_def example_charted_def example_cond_laws)
qed

definition example_regional :: HelmRelease where
  "example_regional = no_release\<lparr>hr_KubeConfig := Some (''eu-kubeconfig'', ''value'')\<rparr>"

abbreviation example_key :: ObjectKey where "example_key \<equiv> ObjectKey ''dev'' ''cd''"

abbreviation example_release_run where
  "example_release_run \<equiv> reconcileHelmRelease (example_upd_env False example_plain_cld None) example_charted (example_scope None) example_plain_cld ([], [(example_key, example_regional)])"

lemma example_release_run_ok: "fst example_release_run = Inr 10" by code_simp

lemma example_plain_key: "ObjectKey (cd_Namespace example_plain_cld) (cd_Name example_plain_cld) = example_key" by code_simp

theorem region_left_behind_witness:
  "\<exists>hr. example_releases (snd (snd example_release_run)) example_key = Some hr \<and> hr_KubeConfig hr = Some (''eu-kubeconfig'', ''value'')"
proof -
  obtain r cd' w' where run: "example_release_run = (r, cd', w')" by (metis prod_cases3)
  with example_release_run_ok have run': "example_release_run = (Inr 10, cd', w')" by simp
  have old: "example_releases ([], [(example_key, example_regional)]) (ObjectKey (cd_Namespace example_plain_cld) (cd_Name example_plain_cld)) = Some example_regional"
    unfolding example_plain_key by (simp add: alookup_def)
  have laws: "helm_laws (ue_helm (example_upd_env False example_plain_cld None)) example_releases" by (simp add: example_upd_env_def example_helm_laws)
  have "sc_region (example_scope None) = None" "hr_KubeConfig example_regional = Some (''eu-kubeconfig'', ''value'')"
    by (simp_all add: example_scope_def example_regional_def)
  from region_left_behind [OF laws this(1) old this(2) run'] run show ?thesis by (simp add: example_plain_key)
qed

theorem release_follows_template_witness:
  "\<exists>hr. example_releases (snd (snd example_release_run)) example_key = Some hr \<and> hr_ChartRef hr = ct_StatusChartRef example_charted \<and> hr_Values hr = Some ''plain''"
proof -
  obtain r cd' w' where run: "example_release_run = (r, cd', w')" by (metis prod_cases3)
  with example_release_run_ok have run': "example_release_run = (Inr 10, cd', w')" by simp
  have laws: "helm_laws (ue_helm (example_upd_env False example_plain_cld None)) example_releases" "ue_requeue (example_upd_env False example_plain_cld None) > 0"
    by (simp_all add: example_upd_env_def example_helm_laws)
  have "cd_Config example_plain_cld = Some ''plain''" by (simp add: example_plain_cld_def)
  with release_follows_template [OF laws run'] run show ?thesis by (auto simp: example_plain_key)
qed

definition example_granted_cld :: Cld where
  "example_granted_cld = example_plain_cld\<lparr>cld_RBACPolicyGrant := ''Granted''\<rparr>"

abbreviation example_revocation where
  "example_revocation \<equiv> apply_cluster (example_upd_env False example_plain_cld None) example_charted (example_scope None) example_granted_cld (example_state [])"


definition example_eu :: RegionObject where
  "example_eu = \<lparr>rgn_Name = ''eu'', rgn_KubeConfig = Some (''eu-kubeconfig'', ''value''), rgn_ClusterDeployment = None,
     rgo_Annotations = [(RegionPauseAnnotation, ''true'')]\<rparr>"

definition example_upgradable :: Cld where
  "example_upgradable = example_plain_cld\<lparr>cd_Labels := [(GenericComponentNameLabel, ''kcm'')], cd_AvailableUpgrades := [''aws-2''],
     cld_Finalizers := [ClusterDeploymentFinalizer]\<rparr>"

theorem paused_region_forgets_upgrades_witness:
  "cd_AvailableUpgrades (fst (snd (snd (cld_reconcileUpdate (example_upd_env False example_plain_cld None) (example_scope (Some example_eu)) example_upgradable
     \<lparr>ict_Ref = [], ict_Spec = None\<rparr> (example_state []))))) = []"
proof -
  obtain errs requeue cd' st' where run: "cld_reconcileUpdate (example_upd_env False example_plain_cld None) (example_scope (Some example_eu)) example_upgradable
     \<lparr>ict_Ref = [], ict_Spec = None\<rparr> (example_state []) = (errs, requeue, cd', st')" by (metis prod_cases4)
  have "sc_region (example_scope (Some example_eu)) = Some example_eu" "alookup (rgo_Annotations example_eu) RegionPauseAnnotation = Some ''true''"
    "ClusterDeploymentFinalizer \<in> set (cld_Finalizers example_upgradable)" "alookup (cd_Labels example_upgradable) GenericComponentNameLabel = Some ''kcm''"
    "ue_listChains (example_upd_env False example_plain_cld None) (rw_mgmt (example_state [])) [] [] = Inr []" "cd_AvailableUpgrades example_upgradable \<noteq> []"
    by (simp_all add: example_scope_def example_eu_def example_upgradable_def example_upd_env_def alookup_def)
  from paused_region_forgets_upgrades [OF this run, THEN conjunct1] run show ?thesis by simp
qed

definition example_going :: Cld where
  "example_going = example_upgradable\<lparr>cd_Deleting := True, cld_ClusterAuth := ''auth''\<rparr>"


end
