(* ===== verification/SveltosRules.thy ===== *)
theory SveltosRules
  imports KcmTypes
begin

text \<open>
  Health rules of the verifier of the Sveltos adapter, and their cache: the first half of
  \<^verbatim>\<open>internal/controller/adapters/sveltos/verify.go\<close>. Rules are CEL expressions in ConfigMaps of
  three tiers. Code outside the repository is a parameter: the compiler of CEL (\<open>cel_env\<close>), the
  parser of YAML (\<open>unmarshal\<close>) and the list of ConfigMaps (\<open>listConfigMaps\<close>).
  The package variable \<open>ruleCache\<close> is state passed explicitly; its lock makes each access atomic.
  The main result is that the cache is transparent: with it the rules are those a load without cache
  gives, provided the resource version of a ConfigMap determines its content.
\<close>

section \<open>Rules\<close>

datatype resourceScope = scopeNamespaced | scopeCluster | scopeOther string

record ruleDoc =
  rd_Group :: string
  rd_Version :: string
  rd_Kind :: string
  rd_Scope :: resourceScope
  rd_Healthy :: string
  rd_Message :: string

record sourcedRuleDoc =
  srd_Doc :: ruleDoc
  srd_Source :: string

datatype GroupKind = GroupKind (gk_Group: string) (gk_Kind: string)

datatype GroupVersionKind = GroupVersionKind (gvk_Group: string) (gvk_Version: string) (gvk_Kind: string)

definition GroupKind_of :: "GroupVersionKind \<Rightarrow> GroupKind" where
  "GroupKind_of gvk = GroupKind (gvk_Group gvk) (gvk_Kind gvk)"

text \<open>A compiled rule; \<open>'p\<close> stands for \<open>cel.Program\<close>.\<close>

record 'p resourceRule =
  rr_healthy :: 'p
  rr_message :: 'p
  rr_GVK :: GroupVersionKind
  rr_Scope :: resourceScope
  rr_Source :: string

datatype rule_error =
    KindAndVersionRequired
  | ScopeInvalid resourceScope
  | HealthyFailed string
  | MessageFailed string
  | ParseFailed string

record ruleLoadError =
  rle_Err :: rule_error
  rle_Source :: string

text \<open>The value of an expression, as far as the code distinguishes it.\<close>

datatype cel_value = CelBool bool | CelString string | CelOther

record ('a, 'p, 'o) cel_env =
  celCompile :: "string \<Rightarrow> string + 'a"
  celProgram :: "'a \<Rightarrow> string + 'p"
  celEval :: "'p \<Rightarrow> 'o \<Rightarrow> string + cel_value"

definition compileExpr :: "('a, 'p, 'o) cel_env \<Rightarrow> string \<Rightarrow> string + 'p" where
  "compileExpr env src =
     (case celCompile env src of
        Inl e \<Rightarrow> Inl (''compile: '' @ e)
      | Inr ast \<Rightarrow> (case celProgram env ast of Inl e \<Rightarrow> Inl (''program: '' @ e) | Inr prg \<Rightarrow> Inr prg))"

definition compile_rule :: "('a, 'p, 'o) cel_env \<Rightarrow> sourcedRuleDoc \<Rightarrow> rule_error + 'p resourceRule" where
  "compile_rule env sd =
     (let doc = srd_Doc sd in
      if rd_Kind doc = [] \<or> rd_Version doc = [] then Inl KindAndVersionRequired
      else if rd_Scope doc \<noteq> scopeNamespaced \<and> rd_Scope doc \<noteq> scopeCluster then Inl (ScopeInvalid (rd_Scope doc))
      else (case compileExpr env (rd_Healthy doc) of
              Inl e \<Rightarrow> Inl (HealthyFailed e)
            | Inr healthyPrg \<Rightarrow>
                (case compileExpr env (rd_Message doc) of
                   Inl e \<Rightarrow> Inl (MessageFailed e)
                 | Inr messagePrg \<Rightarrow>
                     Inr \<lparr>rr_healthy = healthyPrg, rr_message = messagePrg,
                          rr_GVK = GroupVersionKind (rd_Group doc) (rd_Version doc) (rd_Kind doc),
                          rr_Scope = rd_Scope doc, rr_Source = srd_Source sd\<rparr>)))"

definition rulesFromDocs ::
  "('a, 'p, 'o) cel_env \<Rightarrow> sourcedRuleDoc list \<Rightarrow> 'p resourceRule list \<times> ruleLoadError list" where
  "rulesFromDocs env docs =
     fold (\<lambda>sd (out, loadErrs).
        case compile_rule env sd of
          Inl e \<Rightarrow> (out, loadErrs @ [\<lparr>rle_Err = e, rle_Source = srd_Source sd\<rparr>])
        | Inr rule \<Rightarrow> (out @ [rule], loadErrs)) docs ([], [])"

section \<open>The cache\<close>

record ConfigMap =
  cm_Namespace :: string
  cm_Name :: string
  cm_ResourceVersion :: string
  cm_Data :: "(string \<times> string) list"

abbreviation cm_key :: "ConfigMap \<Rightarrow> ObjectKey" where
  "cm_key cm \<equiv> ObjectKey (cm_Namespace cm) (cm_Name cm)"

record 'p ruleCacheEntry =
  rce_lastAccess :: int
  rce_resourceVersion :: string
  rce_rules :: "'p resourceRule list"
  rce_loadErrs :: "ruleLoadError list"

type_synonym 'p rule_cache = "ObjectKey \<rightharpoonup> 'p ruleCacheEntry"

text \<open>Five minutes, in seconds.\<close>

definition ruleCacheTTL :: int where "ruleCacheTTL = 5 * 60"

definition healthRuleConfigMapDataKey :: string where "healthRuleConfigMapDataKey = ''rules''"
definition healthRuleTargetGlobal :: string where "healthRuleTargetGlobal = ''global''"

text \<open>
  What the load depends on besides the ConfigMap: the CEL environment, the YAML parser and whether
  the text is blank (\<open>strings.TrimSpace\<close> leaves nothing).
\<close>

record ('a, 'p, 'o) rule_loader =
  rl_cel :: "('a, 'p, 'o) cel_env"
  rl_unmarshal :: "string \<Rightarrow> string + ruleDoc list"
  rl_blank :: "string \<Rightarrow> bool"

definition sourced_docs :: "ConfigMap \<Rightarrow> ruleDoc list \<Rightarrow> sourcedRuleDoc list" where
  "sourced_docs cm docs =
     map (\<lambda>(i, d). \<lparr>srd_Doc = d,
                    srd_Source = cm_Namespace cm @ ''/'' @ cm_Name cm @ ''#'' @ format_nat i\<rparr>)
       (enumerate 0 docs)"

text \<open>The load of a ConfigMap that is not in the cache.\<close>

definition load_rules ::
  "('a, 'p, 'o) rule_loader \<Rightarrow> ConfigMap \<Rightarrow> 'p resourceRule list \<times> ruleLoadError list" where
  "load_rules ld cm =
     (case map_of (cm_Data cm) healthRuleConfigMapDataKey of
        None \<Rightarrow> ([], [])
      | Some rawRules \<Rightarrow>
          if rl_blank ld rawRules then ([], [])
          else (case rl_unmarshal ld rawRules of
                  Inl e \<Rightarrow> ([], [\<lparr>rle_Err = ParseFailed e, rle_Source = cm_Namespace cm @ ''/'' @ cm_Name cm\<rparr>])
                | Inr docs \<Rightarrow> rulesFromDocs (rl_cel ld) (sourced_docs cm docs)))"

definition rulesFromConfigMap ::
  "('a, 'p, 'o) rule_loader \<Rightarrow> int \<Rightarrow> ConfigMap \<Rightarrow> 'p rule_cache
     \<Rightarrow> ('p resourceRule list \<times> ruleLoadError list) \<times> 'p rule_cache" where
  "rulesFromConfigMap ld now cm cache =
     (let load = (case load_rules ld cm of
                    (rules, loadErrs) \<Rightarrow>
                      ((rules, loadErrs),
                       cache(cm_key cm \<mapsto> \<lparr>rce_lastAccess = now, rce_resourceVersion = cm_ResourceVersion cm,
                                            rce_rules = rules, rce_loadErrs = loadErrs\<rparr>)))
      in case cache (cm_key cm) of
           None \<Rightarrow> load
         | Some cached \<Rightarrow>
             if rce_resourceVersion cached = cm_ResourceVersion cm
             then ((rce_rules cached, rce_loadErrs cached),
                   cache(cm_key cm \<mapsto> cached\<lparr>rce_lastAccess := now\<rparr>))
             else load)"

definition sweepRuleCache :: "int \<Rightarrow> 'p rule_cache \<Rightarrow> 'p rule_cache" where
  "sweepRuleCache now cache =
     (\<lambda>key. case cache key of
              None \<Rightarrow> None
            | Some entry \<Rightarrow> if rce_lastAccess entry < now - ruleCacheTTL then None else Some entry)"

section \<open>The three tiers\<close>

definition MultiClusterServiceKind :: string where "MultiClusterServiceKind = ''MultiClusterService''"
definition ClusterDeploymentKind :: string where "ClusterDeploymentKind = ''ClusterDeployment''"

definition serviceSetOwnerName :: "OwnerReference list \<Rightarrow> string" where
  "serviceSetOwnerName owners =
     (case find (\<lambda>ref. or_Kind ref = MultiClusterServiceKind \<or> or_Kind ref = ClusterDeploymentKind) owners of
        None \<Rightarrow> []
      | Some owner \<Rightarrow> or_Name owner)"

type_synonym list_config_maps = "string \<Rightarrow> string \<Rightarrow> api_error + ConfigMap list"

text \<open>
  \<open>listAndLoad\<close>: the ConfigMaps of a namespace and target, those already seen left out. The state
  is \<open>(rules, loadErrs, seen, cache)\<close>.
\<close>

definition load_unseen ::
  "('a, 'p, 'o) rule_loader \<Rightarrow> int \<Rightarrow> ConfigMap
     \<Rightarrow> 'p resourceRule list \<times> ruleLoadError list \<times> ObjectKey list \<times> 'p rule_cache
     \<Rightarrow> 'p resourceRule list \<times> ruleLoadError list \<times> ObjectKey list \<times> 'p rule_cache" where
  "load_unseen ld now cm acc =
     (case acc of (rules, loadErrs, seen, cache) \<Rightarrow>
        if cm_key cm \<in> set seen then acc
        else (case rulesFromConfigMap ld now cm cache of
                ((cmRules, errs), cache') \<Rightarrow>
                  (rules @ cmRules, loadErrs @ errs, seen @ [cm_key cm], cache')))"

definition listAndLoad ::
  "('a, 'p, 'o) rule_loader \<Rightarrow> int \<Rightarrow> list_config_maps \<Rightarrow> string \<Rightarrow> string
     \<Rightarrow> ObjectKey list \<Rightarrow> 'p rule_cache
     \<Rightarrow> (api_error + 'p resourceRule list \<times> ruleLoadError list) \<times> ObjectKey list \<times> 'p rule_cache" where
  "listAndLoad ld now listConfigMaps namespace targetValue seen cache =
     (case listConfigMaps namespace targetValue of
        Inl e \<Rightarrow> (Inl e, seen, cache)
      | Inr cms \<Rightarrow>
          (case fold (load_unseen ld now) cms ([], [], seen, cache) of
             (rules, loadErrs, seen', cache') \<Rightarrow> (Inr (rules, loadErrs), seen', cache')))"

datatype rules_error = ListTierFailed nat api_error

type_synonym 'p ruleSet = "(GroupKind \<times> 'p resourceRule list) list"

definition group_rules :: "'p resourceRule list \<Rightarrow> 'p ruleSet" where
  "group_rules rules = fold (\<lambda>rule rs. aappend (GroupKind_of (rr_GVK rule)) rule rs) rules []"

text \<open>The tiers that apply, with their number: namespace and value of the target label.\<close>

definition rule_tiers :: "string \<Rightarrow> string \<Rightarrow> OwnerReference list \<Rightarrow> (nat \<times> string \<times> string) list" where
  "rule_tiers systemNamespace namespace owners =
     [(1, systemNamespace, healthRuleTargetGlobal)]
     @ (if namespace \<noteq> systemNamespace then [(2, namespace, healthRuleTargetGlobal)] else [])
     @ (if serviceSetOwnerName owners \<noteq> [] then [(3, namespace, serviceSetOwnerName owners)] else [])"

text \<open>The calls of \<open>listAndLoad\<close> in order, stopping at the first error.\<close>

fun load_tiers ::
  "('a, 'p, 'o) rule_loader \<Rightarrow> int \<Rightarrow> list_config_maps \<Rightarrow> (nat \<times> string \<times> string) list
     \<Rightarrow> 'p resourceRule list \<times> ruleLoadError list \<times> ObjectKey list \<times> 'p rule_cache
     \<Rightarrow> (rules_error + 'p resourceRule list \<times> ruleLoadError list) \<times> 'p rule_cache" where
  "load_tiers ld now listConfigMaps [] (collected, loadErrs, seen, cache) = (Inr (collected, loadErrs), cache)"
| "load_tiers ld now listConfigMaps ((n, namespace, target) # tiers) (collected, loadErrs, seen, cache) =
     (case listAndLoad ld now listConfigMaps namespace target seen cache of
        (Inl e, _, cache') \<Rightarrow> (Inl (ListTierFailed n e), cache')
      | (Inr (t, errs), seen', cache') \<Rightarrow>
          load_tiers ld now listConfigMaps tiers (collected @ t, loadErrs @ errs, seen', cache'))"

definition rulesFromConfigMaps ::
  "('a, 'p, 'o) rule_loader \<Rightarrow> int \<Rightarrow> list_config_maps \<Rightarrow> string \<Rightarrow> string \<Rightarrow> OwnerReference list
     \<Rightarrow> 'p rule_cache \<Rightarrow> (rules_error + 'p ruleSet \<times> ruleLoadError list) \<times> 'p rule_cache" where
  "rulesFromConfigMaps ld now listConfigMaps systemNamespace namespace owners cache =
     (case load_tiers ld now listConfigMaps (rule_tiers systemNamespace namespace owners) ([], [], [], cache) of
        (Inl e, cache') \<Rightarrow> (Inl e, cache')
      | (Inr (collected, loadErrs), cache') \<Rightarrow>
          (Inr (group_rules collected, loadErrs), sweepRuleCache now cache'))"

section \<open>The cache is transparent\<close>

text \<open>
  The contract of a memoised load: in a coherent memory a run gives what the load gives and leaves
  the memory coherent. The client is a loop over slices that skips keys already seen.
\<close>

locale memoised =
  fixes run :: "'x \<Rightarrow> 'm \<Rightarrow> 'r \<times> 'm"
    and load :: "'x \<Rightarrow> 'r"
    and valid :: "'x \<Rightarrow> bool"
    and coherent :: "'m \<Rightarrow> bool"
  assumes run_result: "coherent m \<Longrightarrow> valid x \<Longrightarrow> fst (run x m) = load x"
    and run_coherent: "coherent m \<Longrightarrow> valid x \<Longrightarrow> coherent (snd (run x m))"
begin

lemma run_cases:
  assumes "coherent m" and "valid x"
  obtains m' where "run x m = (load x, m')" and "coherent m'"
  using run_result [OF assms] run_coherent [OF assms] by (cases "run x m") auto

end

text \<open>The API server's promise: the version of an object determines its content.\<close>

definition versioned :: "(ObjectKey \<Rightarrow> string \<Rightarrow> ConfigMap) \<Rightarrow> ConfigMap \<Rightarrow> bool" where
  "versioned content cm \<longleftrightarrow> content (cm_key cm) (cm_ResourceVersion cm) = cm"

definition coherent_cache ::
  "('a, 'p, 'o) rule_loader \<Rightarrow> (ObjectKey \<Rightarrow> string \<Rightarrow> ConfigMap) \<Rightarrow> 'p rule_cache \<Rightarrow> bool" where
  "coherent_cache ld content cache \<longleftrightarrow>
     (\<forall>k e. cache k = Some e \<longrightarrow> (rce_rules e, rce_loadErrs e) = load_rules ld (content k (rce_resourceVersion e)))"

lemma coherent_empty [simp]: "coherent_cache ld content Map.empty"
  by (simp add: coherent_cache_def)

lemma coherent_sweep: "coherent_cache ld content cache \<Longrightarrow> coherent_cache ld content (sweepRuleCache now cache)"
  by (auto simp: coherent_cache_def sweepRuleCache_def split: option.splits if_splits)

lemma coherent_update:
  "coherent_cache ld content cache \<Longrightarrow>
     (rce_rules e, rce_loadErrs e) = load_rules ld (content k (rce_resourceVersion e)) \<Longrightarrow>
     coherent_cache ld content (cache(k \<mapsto> e))"
  by (auto simp: coherent_cache_def)

lemma coherentD:
  "coherent_cache ld content cache \<Longrightarrow> cache k = Some e \<Longrightarrow>
     (rce_rules e, rce_loadErrs e) = load_rules ld (content k (rce_resourceVersion e))"
  by (simp add: coherent_cache_def)

lemma rulesFromConfigMap_run:
  assumes "coherent_cache ld content cache" and "versioned content cm"
  shows "fst (rulesFromConfigMap ld now cm cache) = load_rules ld cm
    \<and> coherent_cache ld content (snd (rulesFromConfigMap ld now cm cache))"
proof (cases "\<exists>e. cache (cm_key cm) = Some e \<and> rce_resourceVersion e = cm_ResourceVersion cm")
  case True
  then obtain e where e: "cache (cm_key cm) = Some e" "rce_resourceVersion e = cm_ResourceVersion cm" by blast
  have "(rce_rules e, rce_loadErrs e) = load_rules ld cm"
    using coherentD [OF assms(1) e(1)] assms(2) e(2) by (simp add: versioned_def)
  with e assms show ?thesis
    by (auto simp: rulesFromConfigMap_def Let_def versioned_def split: prod.split intro!: coherent_update)
next
  case False
  obtain rules errs where l: "load_rules ld cm = (rules, errs)" by (cases "load_rules ld cm")
  have upd: "coherent_cache ld content (cache(cm_key cm \<mapsto>
      \<lparr>rce_lastAccess = now, rce_resourceVersion = cm_ResourceVersion cm, rce_rules = rules, rce_loadErrs = errs\<rparr>))"
    by (rule coherent_update [OF assms(1)]) (use assms(2) l in \<open>simp add: versioned_def\<close>)
  from False l upd show ?thesis
    by (auto simp: rulesFromConfigMap_def Let_def split: option.split)
qed

interpretation rule_memo: memoised "rulesFromConfigMap ld now" "load_rules ld" "versioned content" "coherent_cache ld content"
  by unfold_locales (simp_all add: rulesFromConfigMap_run)

text \<open>The reference: the ConfigMaps of the tiers, each key once, loaded without cache.\<close>

fun unseen :: "ConfigMap list \<Rightarrow> ObjectKey list \<Rightarrow> ConfigMap list \<times> ObjectKey list" where
  "unseen [] seen = ([], seen)"
| "unseen (cm # cms) seen =
     (if cm_key cm \<in> set seen then unseen cms seen
      else (case unseen cms (seen @ [cm_key cm]) of (new, seen') \<Rightarrow> (cm # new, seen')))"

fun tier_config_maps ::
  "list_config_maps \<Rightarrow> (nat \<times> string \<times> string) list \<Rightarrow> ObjectKey list \<Rightarrow> rules_error + ConfigMap list" where
  "tier_config_maps listConfigMaps [] seen = Inr []"
| "tier_config_maps listConfigMaps ((n, namespace, target) # tiers) seen =
     (case listConfigMaps namespace target of
        Inl e \<Rightarrow> Inl (ListTierFailed n e)
      | Inr cms \<Rightarrow>
          (case unseen cms seen of
             (new, seen') \<Rightarrow> bindE (tier_config_maps listConfigMaps tiers seen') (\<lambda>rest. Inr (new @ rest))))"

definition loaded_rules :: "('a, 'p, 'o) rule_loader \<Rightarrow> ConfigMap list \<Rightarrow> 'p resourceRule list" where
  "loaded_rules ld cms = concat (map (\<lambda>cm. fst (load_rules ld cm)) cms)"

definition loaded_errs :: "('a, 'p, 'o) rule_loader \<Rightarrow> ConfigMap list \<Rightarrow> ruleLoadError list" where
  "loaded_errs ld cms = concat (map (\<lambda>cm. snd (load_rules ld cm)) cms)"

lemma loaded_simps [simp]:
  "loaded_rules ld [] = []"
  "loaded_rules ld (cm # cms) = fst (load_rules ld cm) @ loaded_rules ld cms"
  "loaded_rules ld (cms @ cms') = loaded_rules ld cms @ loaded_rules ld cms'"
  "loaded_errs ld [] = []"
  "loaded_errs ld (cm # cms) = snd (load_rules ld cm) @ loaded_errs ld cms"
  "loaded_errs ld (cms @ cms') = loaded_errs ld cms @ loaded_errs ld cms'"
  by (simp_all add: loaded_rules_def loaded_errs_def)

definition rules_without_cache ::
  "('a, 'p, 'o) rule_loader \<Rightarrow> list_config_maps \<Rightarrow> string \<Rightarrow> string \<Rightarrow> OwnerReference list
     \<Rightarrow> rules_error + 'p ruleSet \<times> ruleLoadError list" where
  "rules_without_cache ld listConfigMaps systemNamespace namespace owners =
     bindE (tier_config_maps listConfigMaps (rule_tiers systemNamespace namespace owners) [])
       (\<lambda>cms. Inr (group_rules (loaded_rules ld cms), loaded_errs ld cms))"

definition lists_versioned :: "(ObjectKey \<Rightarrow> string \<Rightarrow> ConfigMap) \<Rightarrow> list_config_maps \<Rightarrow> bool" where
  "lists_versioned content listConfigMaps \<longleftrightarrow>
     (\<forall>ns t cms. listConfigMaps ns t = Inr cms \<longrightarrow> (\<forall>cm\<in>set cms. versioned content cm))"

lemma load_unseen_fold:
  assumes "coherent_cache ld content cache" and "\<forall>cm\<in>set cms. versioned content cm"
  shows "\<exists>cache'. coherent_cache ld content cache'
    \<and> fold (load_unseen ld now) cms (rules, loadErrs, seen, cache)
      = (rules @ loaded_rules ld (fst (unseen cms seen)),
         loadErrs @ loaded_errs ld (fst (unseen cms seen)), snd (unseen cms seen), cache')"
  using assms
proof (induction cms arbitrary: rules loadErrs seen cache)
  case (Cons cm cms)
  show ?case
  proof (cases "cm_key cm \<in> set seen")
    case True
    with Cons.IH [OF Cons.prems(1)] Cons.prems(2) show ?thesis
      by (simp add: load_unseen_def)
  next
    case False
    obtain cache1 where one: "rulesFromConfigMap ld now cm cache = (load_rules ld cm, cache1)"
      and coh: "coherent_cache ld content cache1"
      by (rule rule_memo.run_cases [OF Cons.prems(1), of cm now]) (use Cons.prems(2) in auto)
    obtain r e where re: "load_rules ld cm = (r, e)" by (cases "load_rules ld cm")
    have step: "load_unseen ld now cm (rules, loadErrs, seen, cache) = (rules @ r, loadErrs @ e, seen @ [cm_key cm], cache1)"
      using False by (simp add: load_unseen_def one re)
    obtain cache' where "coherent_cache ld content cache'"
      and "fold (load_unseen ld now) cms (rules @ r, loadErrs @ e, seen @ [cm_key cm], cache1)
      = ((rules @ r) @ loaded_rules ld (fst (unseen cms (seen @ [cm_key cm]))),
         (loadErrs @ e) @ loaded_errs ld (fst (unseen cms (seen @ [cm_key cm]))),
         snd (unseen cms (seen @ [cm_key cm])), cache')"
      using Cons.IH [OF coh, of "rules @ r" "loadErrs @ e" "seen @ [cm_key cm]"] Cons.prems(2) by auto
    with False step re show ?thesis
      by (auto split: prod.split)
  qed
qed simp

lemma load_tiers_correct:
  assumes "coherent_cache ld content cache" and "lists_versioned content listCM"
  shows "coherent_cache ld content (snd (load_tiers ld now listCM tiers (collected, loadErrs, seen, cache)))
    \<and> fst (load_tiers ld now listCM tiers (collected, loadErrs, seen, cache))
      = bindE (tier_config_maps listCM tiers seen)
          (\<lambda>cms. Inr (collected @ loaded_rules ld cms, loadErrs @ loaded_errs ld cms))"
  using assms(1)
proof (induction tiers arbitrary: collected loadErrs seen cache)
  case (Cons t tiers)
  obtain n ns tg where t: "t = (n, ns, tg)" by (cases t)
  show ?case
  proof (cases "listCM ns tg")
    case (Inl e)
    with t Cons.prems show ?thesis by (simp add: listAndLoad_def)
  next
    case (Inr cms)
    have v: "\<forall>cm\<in>set cms. versioned content cm" using assms(2) Inr by (auto simp: lists_versioned_def)
    obtain new seen' where u: "unseen cms seen = (new, seen')" by (cases "unseen cms seen")
    obtain cache1 where coh: "coherent_cache ld content cache1"
      and f: "fold (load_unseen ld now) cms ([], [], seen, cache)
        = (loaded_rules ld new, loaded_errs ld new, seen', cache1)"
      using load_unseen_fold [OF Cons.prems v, of now "[]" "[]" seen] u by auto
    show ?thesis
      using Cons.IH [OF coh, of "collected @ loaded_rules ld new"
          "loadErrs @ loaded_errs ld new" seen']
      by (cases "tier_config_maps listCM tiers seen'") (simp_all add: t listAndLoad_def Inr f u)
  qed
qed simp

text \<open>C33: The cache of compiled rules is transparent: as long as it is coherent and the resource version
  of a ConfigMap determines its content, the rules and load errors of a ServiceSet are those of
  loading every ConfigMap of the three tiers afresh, each once, and the cache stays coherent. It
  is coherent when it is empty, so it is at every start of the controller.\<close>
theorem rule_cache_transparent:
  assumes "coherent_cache ld content cache" and "lists_versioned content listConfigMaps"
  shows "fst (rulesFromConfigMaps ld now listConfigMaps systemNamespace namespace owners cache)
      = rules_without_cache ld listConfigMaps systemNamespace namespace owners
    \<and> coherent_cache ld content (snd (rulesFromConfigMaps ld now listConfigMaps systemNamespace namespace owners cache))"
proof -
  let ?tiers = "rule_tiers systemNamespace namespace owners"
  obtain r cache' where r: "load_tiers ld now listConfigMaps ?tiers ([], [], [], cache) = (r, cache')"
    by (cases "load_tiers ld now listConfigMaps ?tiers ([], [], [], cache)")
  note c = load_tiers_correct [OF assms, of now ?tiers "[]" "[]" "[]", unfolded r]
  show ?thesis
    using c by (cases "tier_config_maps listConfigMaps ?tiers []")
      (auto simp: rulesFromConfigMaps_def r rules_without_cache_def coherent_sweep)
qed

end
