(* ===== verification/SveltosState.thy ===== *)
theory SveltosState
  imports ServiceKeys "HOL-Library.Sublist"
begin

text \<open>
  How the Sveltos adapter reads the state of services: the whole of
  \<^verbatim>\<open>internal/controller/adapters/sveltos/state.go\<close>. A ClusterSummary is what Sveltos reports for one
  cluster: a status per feature (Helm, Kustomize, Resources) and one summary per Helm release. The
  types of Sveltos are records with the fields the code reads; values of its enumerations that the
  code does not name are \<open>FeatureStatusOther\<close> and \<open>FeatureOther\<close>.
  Times are integers; the clock is an argument.
\<close>

section \<open>Data\<close>

datatype FeatureStatus =
    FeatureStatusProvisioning
  | FeatureStatusProvisioned
  | FeatureStatusFailed
  | FeatureStatusFailedNonRetriable
  | FeatureStatusRemoving
  | FeatureStatusAgentRemoving
  | FeatureStatusRemoved
  | FeatureStatusBlocked
  | FeatureStatusOther string

datatype FeatureID = FeatureHelm | FeatureKustomize | FeatureResources | FeatureOther string

datatype HelmChartStatus = HelmChartStatusManaging | HelmChartStatusConflict | HelmChartStatusOther string

record FeatureSummary =
  fs_FeatureID :: FeatureID
  fs_Status :: FeatureStatus
  fs_FailureMessage :: "string option"

record HelmChartSummary =
  hcs_ReleaseName :: string
  hcs_ReleaseNamespace :: string
  hcs_Status :: HelmChartStatus
  hcs_ConflictMessage :: string
  hcs_FailureMessage :: "string option"
  hcs_ValuesHash :: string
  hcs_PatchesHash :: string

text \<open>Of the profile a summary carries, the code reads how many references of a kind it has.\<close>

record ClusterSummary =
  csum_ResourceVersion :: string
  csum_KustomizationRefs :: nat
  csum_PolicyRefs :: nat
  csum_FeatureSummaries :: "FeatureSummary list"
  csum_HelmReleaseSummaries :: "HelmChartSummary list"

text \<open>The state of a service with the time of its last transition, as the adapter writes it.\<close>

record TimedServiceState = ServiceState +
  ss_LastStateTransitionTime :: "int option"

definition ServiceTypeHelm :: string where "ServiceTypeHelm = ''Helm''"
definition ServiceTypeKustomize :: string where "ServiceTypeKustomize = ''Kustomize''"
definition ServiceTypeResource :: string where "ServiceTypeResource = ''Resource''"

lemmas service_types = ServiceTypeHelm_def ServiceTypeKustomize_def ServiceTypeResource_def

text \<open>The schema of the status: the type of a service is required and one of the three.\<close>

definition valid_service_type :: "string \<Rightarrow> bool" where
  "valid_service_type t \<longleftrightarrow> t \<in> {ServiceTypeHelm, ServiceTypeKustomize, ServiceTypeResource}"

abbreviation tss_key :: "TimedServiceState \<Rightarrow> ObjectKey" where
  "tss_key s \<equiv> ServiceKey (ss_Namespace s) (ss_Name s)"

section \<open>The failure message of the Helm feature\<close>

text \<open>
  The two regular expressions \<^verbatim>\<open>releaseName=([a-z]([-a-z0-9]*[a-z0-9])?)\<close> and
  \<^verbatim>\<open>releaseNamespace=([a-z0-9]([-a-z0-9]*[a-z0-9])?)\<close>: a key, then a label. \<open>match_label\<close> is the
  label at the start of a string: the first character, then the run of label characters, less
  the dashes at its end (greedy matching gives them back). \<open>find_label\<close> is \<open>FindString\<close>, the
  leftmost match.
\<close>

definition is_lower :: "char \<Rightarrow> bool" where
  "is_lower c \<longleftrightarrow> CHR ''a'' \<le> c \<and> c \<le> CHR ''z''"

definition is_digit :: "char \<Rightarrow> bool" where
  "is_digit c \<longleftrightarrow> CHR ''0'' \<le> c \<and> c \<le> CHR ''9''"

definition is_alnum :: "char \<Rightarrow> bool" where
  "is_alnum c \<longleftrightarrow> is_lower c \<or> is_digit c"

definition is_label_char :: "char \<Rightarrow> bool" where
  "is_label_char c \<longleftrightarrow> c = CHR ''-'' \<or> is_alnum c"

definition drop_dashes :: "string \<Rightarrow> string" where
  "drop_dashes w = rev (dropWhile (\<lambda>c. \<not> is_alnum c) (rev w))"

definition match_label :: "(char \<Rightarrow> bool) \<Rightarrow> string \<Rightarrow> string option" where
  "match_label first s =
     (case s of
        [] \<Rightarrow> None
      | c # cs \<Rightarrow> if first c then Some (c # drop_dashes (takeWhile is_label_char cs)) else None)"

fun has_prefix :: "string \<Rightarrow> string \<Rightarrow> bool" where
  "has_prefix [] s = True"
| "has_prefix (p # ps) [] = False"
| "has_prefix (p # ps) (c # cs) = (p = c \<and> has_prefix ps cs)"

fun find_label :: "string \<Rightarrow> (char \<Rightarrow> bool) \<Rightarrow> string \<Rightarrow> string option" where
  "find_label key first [] = None"
| "find_label key first (c # cs) =
     (if has_prefix key (c # cs)
      then (case match_label first (drop (length key) (c # cs)) of
              Some w \<Rightarrow> Some w
            | None \<Rightarrow> find_label key first cs)
      else find_label key first cs)"

text \<open>\<open>strings.SplitSeq(msg, "\n")\<close>: the pieces between line feeds.\<close>

fun split_lines :: "string \<Rightarrow> string list" where
  "split_lines [] = [[]]"
| "split_lines (c # cs) =
     (if c = CHR 0x0A then [] # split_lines cs
      else (case split_lines cs of l # ls \<Rightarrow> (c # l) # ls | [] \<Rightarrow> [[c]]))"

definition releaseNameKey :: string where "releaseNameKey = ''releaseName=''"
definition releaseNamespaceKey :: string where "releaseNamespaceKey = ''releaseNamespace=''"

definition line_key :: "string \<Rightarrow> ObjectKey option" where
  "line_key line =
     (case find_label releaseNameKey is_lower line of
        None \<Rightarrow> None
      | Some releaseName \<Rightarrow>
          (case find_label releaseNamespaceKey is_alnum line of
             None \<Rightarrow> None
           | Some releaseNamespace \<Rightarrow> Some (ServiceKey releaseNamespace releaseName)))"

definition unpackHelmFailureMsg :: "string \<Rightarrow> ObjectKey list" where
  "unpackHelmFailureMsg msg = List.map_filter line_key (split_lines msg)"

section \<open>The state of one service\<close>

fun featureStatusToServiceState :: "FeatureStatus \<Rightarrow> ServiceStateValue" where
  "featureStatusToServiceState FeatureStatusProvisioning = ServiceStateProvisioning"
| "featureStatusToServiceState FeatureStatusProvisioned = ServiceStateDeployed"
| "featureStatusToServiceState FeatureStatusFailed = ServiceStateFailed"
| "featureStatusToServiceState FeatureStatusFailedNonRetriable = ServiceStateFailed"
| "featureStatusToServiceState FeatureStatusRemoving = ServiceStateDeleting"
| "featureStatusToServiceState FeatureStatusAgentRemoving = ServiceStateDeleting"
| "featureStatusToServiceState FeatureStatusRemoved = ServiceStateDeleted"
| "featureStatusToServiceState FeatureStatusBlocked = ServiceStateDeleting"
| "featureStatusToServiceState (FeatureStatusOther _) = ServiceStateNotDeployed"

text \<open>The first summary of a feature, where the loops break.\<close>

definition find_feature :: "FeatureID \<Rightarrow> ClusterSummary \<Rightarrow> FeatureSummary option" where
  "find_feature fid summary = find (\<lambda>f. fs_FeatureID f = fid) (csum_FeatureSummaries summary)"

definition featureKustomize :: "TimedServiceState \<Rightarrow> ClusterSummary \<Rightarrow> TimedServiceState" where
  "featureKustomize newState summary =
     (let hasKustomizations = csum_KustomizationRefs summary > 0;
          (kustomizationsDeployed, failure) =
            (case find_feature FeatureKustomize summary of
               None \<Rightarrow> (\<not> hasKustomizations, None)
             | Some feature \<Rightarrow> (fs_Status feature = FeatureStatusProvisioned, fs_FailureMessage feature));
          s1 = (if kustomizationsDeployed then newState\<lparr>ss_State := ServiceStateDeployed\<rparr> else newState)
      in case failure of
           None \<Rightarrow> s1
         | Some message \<Rightarrow>
             s1\<lparr>ss_State := ServiceStateFailed,
                ss_FailureMessage := ''One or more Kustomizations failed to deploy: '' @ message\<rparr>)"

definition featureResources :: "TimedServiceState \<Rightarrow> ClusterSummary \<Rightarrow> TimedServiceState" where
  "featureResources newState summary =
     (let hasPolicies = csum_PolicyRefs summary > 0;
          (policiesDeployed, failure) =
            (case find_feature FeatureResources summary of
               None \<Rightarrow> (\<not> hasPolicies, None)
             | Some feature \<Rightarrow> (fs_Status feature = FeatureStatusProvisioned, fs_FailureMessage feature));
          s1 = (if policiesDeployed then newState\<lparr>ss_State := ServiceStateDeployed\<rparr> else newState)
      in case failure of
           None \<Rightarrow> s1
         | Some message \<Rightarrow>
             s1\<lparr>ss_State := ServiceStateFailed,
                ss_FailureMessage := ''One or more Resources failed to deploy: '' @ message\<rparr>)"

text \<open>
  The status and failure message of the Helm feature; the zero values when there is none. The map
  of releases is looked up under the key of the service; later summaries overwrite earlier ones.
\<close>

definition helm_feature :: "ClusterSummary \<Rightarrow> FeatureStatus \<times> string" where
  "helm_feature summary =
     (case find_feature FeatureHelm summary of
        None \<Rightarrow> (FeatureStatusOther [], [])
      | Some feature \<Rightarrow> (fs_Status feature, case fs_FailureMessage feature of None \<Rightarrow> [] | Some m \<Rightarrow> m))"

definition helmReleaseMap :: "ClusterSummary \<Rightarrow> ObjectKey \<rightharpoonup> HelmChartSummary" where
  "helmReleaseMap summary =
     index_by (\<lambda>r. ObjectKey (hcs_ReleaseNamespace r) (hcs_ReleaseName r)) id
       (csum_HelmReleaseSummaries summary)"

text \<open>The switch on values hash and failure message, for a release without conflict.\<close>

definition release_state ::
  "FeatureStatus \<Rightarrow> ObjectKey list \<Rightarrow> HelmChartSummary \<Rightarrow> TimedServiceState \<Rightarrow> TimedServiceState" where
  "release_state helmFeatureStatus svcInHelmFeatureFailMsg helmRelease newState =
     (let isValuesHashSet = length (hcs_ValuesHash helmRelease) > 0;
          message = (case hcs_FailureMessage helmRelease of None \<Rightarrow> [] | Some m \<Rightarrow> m);
          isFailureMsgSet = (message \<noteq> []);
          s0 = newState\<lparr>ss_State := featureStatusToServiceState helmFeatureStatus\<rparr>
      in if \<not> isValuesHashSet \<and> \<not> isFailureMsgSet then
           (if helmFeatureStatus = FeatureStatusProvisioning
            then s0\<lparr>ss_State := ServiceStateProvisioning\<rparr>
            else s0\<lparr>ss_State := ServiceStateNotDeployed\<rparr>)
         else if \<not> isValuesHashSet \<and> isFailureMsgSet then
           s0\<lparr>ss_State := ServiceStateFailed, ss_FailureMessage := message\<rparr>
         else if isValuesHashSet \<and> \<not> isFailureMsgSet then
           (let s1 = (if helmFeatureStatus = FeatureStatusProvisioning
                        \<and> tss_key s0 \<notin> set svcInHelmFeatureFailMsg
                      then s0\<lparr>ss_State := ServiceStateProvisioning\<rparr> else s0);
                s2 = (if helmFeatureStatus = FeatureStatusProvisioned
                      then s1\<lparr>ss_State := ServiceStateDeployed\<rparr> else s1);
                s3 = (if helmFeatureStatus = FeatureStatusFailed
                      then s2\<lparr>ss_State := ServiceStateDeployed\<rparr> else s2)
            in if helmFeatureStatus = FeatureStatusFailedNonRetriable
               then s3\<lparr>ss_State := ServiceStateDeployed\<rparr> else s3)
         else s0\<lparr>ss_State := ServiceStateFailed, ss_FailureMessage := message\<rparr>)"

definition featureHelm :: "TimedServiceState \<Rightarrow> ClusterSummary \<Rightarrow> TimedServiceState" where
  "featureHelm newState summary =
     (case helm_feature summary of
        (helmFeatureStatus, helmFeatureFailMsg) \<Rightarrow>
          let converted = featureStatusToServiceState helmFeatureStatus in
          if converted = ServiceStateDeleting \<or> converted = ServiceStateDeleted
          then newState\<lparr>ss_State := converted\<rparr>
          else (case helmReleaseMap summary (tss_key newState) of
                  None \<Rightarrow> newState\<lparr>ss_State := ServiceStateNotDeployed\<rparr>
                | Some helmRelease \<Rightarrow>
                    if hcs_Status helmRelease = HelmChartStatusConflict
                    then newState\<lparr>ss_State := ServiceStateFailed,
                                  ss_FailureMessage := hcs_ConflictMessage helmRelease\<rparr>
                    else release_state helmFeatureStatus (unpackHelmFailureMsg helmFeatureFailMsg)
                           helmRelease newState))"

section \<open>The states of a ServiceSet\<close>

text \<open>The fresh state of a service of the spec, and the version the spec states for a key.\<close>

definition fresh_state :: "ServiceWithValues \<Rightarrow> TimedServiceState" where
  "fresh_state svc =
     \<lparr>ss_Type = [], ss_Version = [], ss_Name = swv_Name svc, ss_Namespace = swv_Namespace svc,
      ss_Template = swv_Template svc, ss_State = ServiceStateProvisioning, ss_FailureMessage = [],
      ss_LastDeployedHash = [], ss_Conditions = [], ss_LastStateTransitionTime = None\<rparr>"

definition specVersions :: "ServiceWithValues list \<Rightarrow> ObjectKey \<Rightarrow> string" where
  "specVersions services = get_or [] (index_by swv_key swv_Version services)"

text \<open>One step of the loop over the status: nothing for a service that left the spec.\<close>

definition next_state ::
  "int \<Rightarrow> ClusterSummary \<Rightarrow> ServiceWithValues list \<Rightarrow> TimedServiceState \<Rightarrow> TimedServiceState option" where
  "next_state now summary services svc =
     (case index_by swv_key fresh_state services (tss_key svc) of
        None \<Rightarrow> None
      | Some fresh \<Rightarrow>
          let s0 = fresh\<lparr>ss_Type := ss_Type svc, ss_LastStateTransitionTime := ss_LastStateTransitionTime svc,
                         ss_LastDeployedHash := ss_LastDeployedHash svc, ss_Conditions := ss_Conditions svc\<rparr>;
              s1 = (if ss_Type svc = ServiceTypeKustomize
                    then featureKustomize (s0\<lparr>ss_Version := specVersions services (tss_key svc)\<rparr>) summary
                    else if ss_Type svc = ServiceTypeResource
                    then featureResources (s0\<lparr>ss_Version := specVersions services (tss_key svc)\<rparr>) summary
                    else if ss_Type svc = ServiceTypeHelm
                    then featureHelm (s0\<lparr>ss_Version := ss_Version svc\<rparr>) summary
                    else s0)
          in Some (if ss_State s1 \<noteq> ss_State svc then s1\<lparr>ss_LastStateTransitionTime := Some now\<rparr> else s1))"

definition servicesStateFromSummary ::
  "int \<Rightarrow> ClusterSummary option \<Rightarrow> (ServiceWithValues list \<times> TimedServiceState list) option
     \<Rightarrow> TimedServiceState list" where
  "servicesStateFromSummary now summary serviceSet =
     (case (summary, serviceSet) of
        (Some cs, Some (services, statuses)) \<Rightarrow>
          sort_key tss_key (List.map_filter (next_state now cs services) statuses)
      | _ \<Rightarrow> [])"

section \<open>Labels in a failure message\<close>

text \<open>The language of the two expressions, as a predicate on strings.\<close>

definition dns_label :: "(char \<Rightarrow> bool) \<Rightarrow> string \<Rightarrow> bool" where
  "dns_label first w \<longleftrightarrow>
     w \<noteq> [] \<and> first (hd w) \<and> list_all is_label_char (tl w) \<and> (tl w = [] \<or> is_alnum (last w))"

lemma prefix_takeWhile:
  "prefix v s \<Longrightarrow> list_all p v \<Longrightarrow> prefix v (takeWhile p s)"
  by (auto simp: prefix_def list_all_iff takeWhile_append2)

lemma drop_dashes_prefix: "prefix (drop_dashes w) w"
proof -
  have "suffix (dropWhile (\<lambda>c. \<not> is_alnum c) (rev w)) (rev w)"
    by (rule suffix_dropWhile)
  then show ?thesis by (simp add: drop_dashes_def suffix_to_prefix)
qed

lemma drop_dashes_last: "drop_dashes w \<noteq> [] \<Longrightarrow> is_alnum (last (drop_dashes w))"
  using hd_dropWhile [of "\<lambda>c. \<not> is_alnum c" "rev w"] by (auto simp: drop_dashes_def last_rev)

lemma drop_dashes_longest:
  assumes "prefix v w" and "v = [] \<or> is_alnum (last v)"
  shows "prefix v (drop_dashes w)"
proof (cases "v = []")
  case False
  with assms(2) have last: "is_alnum (last v)" by simp
  from assms(1) obtain u where w: "w = v @ u" by (auto simp: prefix_def)
  have rv: "rev v = last v # rev (butlast v)"
    using False by (metis append_butlast_last_id rev.simps(2) rev_rev_ident)
  have rvd: "dropWhile (\<lambda>c. \<not> is_alnum c) (rev v) = rev v"
    unfolding rv using last by simp
  have "dropWhile (\<lambda>c. \<not> is_alnum c) (rev u @ rev v)
      = (if \<forall>c\<in>set (rev u). \<not> is_alnum c then rev v else dropWhile (\<lambda>c. \<not> is_alnum c) (rev u) @ rev v)"
    using dropWhile_append2 [of "rev u" "\<lambda>c. \<not> is_alnum c" "rev v"] rvd
    by (auto simp: dropWhile_append1)
  then show ?thesis by (auto simp: w drop_dashes_def)
qed simp

lemma match_label_longest:
  "match_label first s = Some w \<longleftrightarrow>
     dns_label first w \<and> prefix w s \<and> (\<forall>v. dns_label first v \<and> prefix v s \<longrightarrow> prefix v w)"
proof (cases s)
  case Nil
  then show ?thesis by (auto simp: match_label_def dns_label_def)
next
  case (Cons c cs)
  define r where "r = c # drop_dashes (takeWhile is_label_char cs)"
  have sub: "prefix (drop_dashes (takeWhile is_label_char cs)) (takeWhile is_label_char cs)"
    by (rule drop_dashes_prefix)
  have lab: "dns_label first r" if "first c"
    using that drop_dashes_last [of "takeWhile is_label_char cs"] set_mono_prefix [OF sub]
    by (auto simp: dns_label_def r_def list_all_iff dest: set_takeWhileD)
  have pre: "prefix r s"
    using sub takeWhile_is_prefix [of is_label_char cs] Cons by (auto simp: r_def intro: prefix_order.trans)
  have max: "prefix v r" if v: "dns_label first v" "prefix v s" for v
  proof -
    from v Cons obtain vs where vs: "v = c # vs" "prefix vs cs" by (cases v) (auto simp: dns_label_def)
    from v(1) vs(1) have "list_all is_label_char vs" "vs = [] \<or> is_alnum (last vs)"
      by (auto simp: dns_label_def split: if_splits)
    with vs show ?thesis
      by (simp add: r_def drop_dashes_longest prefix_takeWhile)
  qed
  have first: "first c" if "dns_label first v" "prefix v s" for v
    using that Cons by (cases v) (auto simp: dns_label_def)
  show ?thesis
  proof
    assume "match_label first s = Some w"
    then have "first c" "w = r" using Cons by (auto simp: match_label_def r_def split: if_splits)
    with lab pre max show "dns_label first w \<and> prefix w s \<and> (\<forall>v. dns_label first v \<and> prefix v s \<longrightarrow> prefix v w)"
      by blast
  next
    assume w: "dns_label first w \<and> prefix w s \<and> (\<forall>v. dns_label first v \<and> prefix v s \<longrightarrow> prefix v w)"
    then have f: "first c" using first by blast
    with w lab pre max have "w = r" by (blast intro: prefix_order.antisym)
    with f Cons show "match_label first s = Some w" by (simp add: match_label_def r_def)
  qed
qed

section \<open>The state of a Helm release\<close>

text \<open>
  The table of \<open>featureHelm\<close>. The keys found in the failure message of the feature are
  compared only where both branches give the state Provisioning.
\<close>

lemma release_state_state:
  "ss_State (release_state st keys r s) =
     (if hcs_FailureMessage r \<noteq> None \<and> hcs_FailureMessage r \<noteq> Some [] then ServiceStateFailed
      else if hcs_ValuesHash r = [] then
        (if st = FeatureStatusProvisioning then ServiceStateProvisioning else ServiceStateNotDeployed)
      else if st \<in> {FeatureStatusProvisioned, FeatureStatusFailed, FeatureStatusFailedNonRetriable}
      then ServiceStateDeployed else featureStatusToServiceState st)"
  by (cases st) (auto simp: release_state_def Let_def split: option.splits)

lemma release_state_keys: "release_state st keys r s = release_state st keys' r s"
  by (cases st) (auto simp: release_state_def Let_def split: option.splits)

lemma release_state_Deployed:
  "ss_State (release_state st keys r s) = ServiceStateDeployed \<longleftrightarrow>
     hcs_FailureMessage r \<in> {None, Some []} \<and> hcs_ValuesHash r \<noteq> []
     \<and> st \<in> {FeatureStatusProvisioned, FeatureStatusFailed, FeatureStatusFailedNonRetriable}"
  by (cases st) (auto simp: release_state_state)

lemma find_map_eq: "(\<And>x. p (f x) = p x) \<Longrightarrow> find p (map f xs) = map_option f (find p xs)"
  by (induction xs) auto

text \<open>A Helm service is reported as deployed exactly when the Helm feature of the summary has come to
  an end (provisioned, or failed for some release), the summary has a release under the key of the
  service that is not in conflict and has no failure message, and the release has a values hash.
  So a failing neighbour does not keep a service from being deployed, and a release without values
  hash is never deployed.\<close>
theorem helm_service_deployed_iff:
  "ss_State (featureHelm s summary) = ServiceStateDeployed \<longleftrightarrow>
     fst (helm_feature summary) \<in> {FeatureStatusProvisioned, FeatureStatusFailed, FeatureStatusFailedNonRetriable}
     \<and> (\<exists>r. helmReleaseMap summary (tss_key s) = Some r \<and> hcs_Status r \<noteq> HelmChartStatusConflict
            \<and> hcs_FailureMessage r \<in> {None, Some []} \<and> hcs_ValuesHash r \<noteq> [])"
proof -
  obtain st msg where h: "helm_feature summary = (st, msg)" by (cases "helm_feature summary")
  show ?thesis
    by (cases st; cases "helmReleaseMap summary (tss_key s)")
      (auto simp: featureHelm_def h Let_def release_state_Deployed)
qed

text \<open>C36: The failure message of the Helm feature, which the code parses for the releases it names, never
  changes the state of a service: whatever messages the features of a summary carry, the state is
  the same.\<close>
theorem helm_feature_message_ignored:
  "featureHelm s (summary\<lparr>csum_FeatureSummaries :=
       map (\<lambda>f. f\<lparr>fs_FailureMessage := message f\<rparr>) (csum_FeatureSummaries summary)\<rparr>)
     = featureHelm s summary"
proof -
  let ?g = "\<lambda>f. f\<lparr>fs_FailureMessage := message f\<rparr>"
  let ?s = "summary\<lparr>csum_FeatureSummaries := map ?g (csum_FeatureSummaries summary)\<rparr>"
  have find: "find_feature FeatureHelm ?s = map_option ?g (find_feature FeatureHelm summary)"
    by (simp add: find_feature_def find_map_eq)
  have fst: "fst (helm_feature ?s) = fst (helm_feature summary)"
    by (auto simp: helm_feature_def find split: option.splits)
  obtain st m where a: "helm_feature summary = (st, m)" by (cases "helm_feature summary")
  with fst obtain m' where b: "helm_feature ?s = (st, m')" by (cases "helm_feature ?s") auto
  have map: "helmReleaseMap ?s = helmReleaseMap summary" by (simp add: helmReleaseMap_def)
  have "release_state st (unpackHelmFailureMsg m') = release_state st (unpackHelmFailureMsg m)"
    by (intro ext release_state_keys)
  then show ?thesis
    by (simp only: featureHelm_def a b map prod.case)
qed

section \<open>The states of a ServiceSet\<close>

text \<open>No feature touches what identifies a service or what the verifier owns.\<close>

definition same_owned :: "TimedServiceState \<Rightarrow> TimedServiceState \<Rightarrow> bool" where
  "same_owned a b \<longleftrightarrow>
     ss_Type a = ss_Type b \<and> ss_Version a = ss_Version b \<and> ss_Name a = ss_Name b
     \<and> ss_Namespace a = ss_Namespace b \<and> ss_Template a = ss_Template b
     \<and> ss_LastDeployedHash a = ss_LastDeployedHash b \<and> ss_Conditions a = ss_Conditions b
     \<and> ss_LastStateTransitionTime a = ss_LastStateTransitionTime b"

lemma featureKustomize_owned: "same_owned (featureKustomize s cs) s"
  by (auto simp: same_owned_def featureKustomize_def Let_def split: option.splits)

lemma featureResources_owned: "same_owned (featureResources s cs) s"
  by (auto simp: same_owned_def featureResources_def Let_def split: option.splits)

lemma release_state_owned: "same_owned (release_state st keys r s) s"
  by (auto simp: same_owned_def release_state_def Let_def)

lemma featureHelm_owned: "same_owned (featureHelm s cs) s"
  using release_state_owned [of _ _ _ s]
  by (auto simp: featureHelm_def Let_def split: prod.splits option.splits)
    (auto simp: same_owned_def)

lemmas feature_owned =
  featureKustomize_owned [unfolded same_owned_def] featureResources_owned [unfolded same_owned_def]
  featureHelm_owned [unfolded same_owned_def]

lemma fresh_state_key:
  "index_by swv_key fresh_state services k = Some f \<Longrightarrow>
     ServiceKey (ss_Namespace f) (ss_Name f) = k \<and> ss_State f = ServiceStateProvisioning \<and> ss_FailureMessage f = []"
  by (drule index_by_Some_ex) (auto simp: fresh_state_def)

lemma next_state_None: "next_state now cs services svc = None \<longleftrightarrow> tss_key svc \<notin> swv_key ` set services"
  by (simp add: next_state_def index_by_None Let_def split: option.split)
    (metis index_by_None option.distinct(1))

lemma next_state_facts:
  assumes "next_state now cs services svc = Some s"
  shows "tss_key s = tss_key svc \<and> ss_Type s = ss_Type svc
    \<and> ss_LastDeployedHash s = ss_LastDeployedHash svc \<and> ss_Conditions s = ss_Conditions svc
    \<and> ss_LastStateTransitionTime s
        = (if ss_State s = ss_State svc then ss_LastStateTransitionTime svc else Some now)
    \<and> (ss_Type svc = ServiceTypeHelm \<longrightarrow> ss_Version s = ss_Version svc)"
proof -
  from assms obtain f where f: "index_by swv_key fresh_state services (tss_key svc) = Some f"
    by (auto simp: next_state_def split: option.splits)
  note fk = fresh_state_key [OF f]
  show ?thesis
    using assms fk
    by (auto simp: next_state_def f Let_def feature_owned service_types split: if_splits)
qed

lemma map_filter_keys:
  assumes "\<And>x y. g x = Some y \<Longrightarrow> h y = k x" and "\<And>x. g x = None \<longleftrightarrow> \<not> p (k x)"
  shows "map h (List.map_filter g xs) = filter p (map k xs)"
proof (induction xs)
  case (Cons x xs)
  then show ?case
    using assms by (cases "g x") (force simp: List.map_filter_simps)+
qed (simp add: List.map_filter_simps)

lemma set_map_filter': "y \<in> set (List.map_filter g xs) \<longleftrightarrow> (\<exists>x\<in>set xs. g x = Some y)"
  by (induction xs) (auto simp: List.map_filter_simps split: option.splits)

text \<open>C35: The states collected from a summary are those of the services that are both in the spec and in
  the status, ordered by namespace and name. Each keeps the type, the hash and the conditions the
  verifier owns and, for Helm, the version confirmed last; its transition time changes exactly
  when its state does.\<close>
theorem states_from_summary:
  fixes now summary services statuses
  defines "states \<equiv> servicesStateFromSummary now (Some summary) (Some (services, statuses))"
  shows "sorted (map tss_key states)
    \<and> mset (map tss_key states) = mset (filter (\<lambda>k. k \<in> swv_key ` set services) (map tss_key statuses))
    \<and> (\<forall>s\<in>set states. \<exists>old\<in>set statuses. tss_key s = tss_key old \<and> ss_Type s = ss_Type old
          \<and> ss_LastDeployedHash s = ss_LastDeployedHash old \<and> ss_Conditions s = ss_Conditions old
          \<and> ss_LastStateTransitionTime s
              = (if ss_State s = ss_State old then ss_LastStateTransitionTime old else Some now)
          \<and> (ss_Type old = ServiceTypeHelm \<longrightarrow> ss_Version s = ss_Version old))"
proof (intro conjI ballI)
  let ?g = "next_state now summary services"
  have st: "states = sort_key tss_key (List.map_filter ?g statuses)"
    by (simp add: states_def servicesStateFromSummary_def)
  show "sorted (map tss_key states)" by (simp add: st)
  have keys: "map tss_key (List.map_filter ?g statuses)
      = filter (\<lambda>k. k \<in> swv_key ` set services) (map tss_key statuses)"
    by (rule map_filter_keys) (simp_all add: next_state_None next_state_facts)
  show "mset (map tss_key states) = mset (filter (\<lambda>k. k \<in> swv_key ` set services) (map tss_key statuses))"
    by (simp only: st mset_map mset_sort flip: keys)
  fix s assume "s \<in> set states"
  then obtain old where old: "old \<in> set statuses" "?g old = Some s"
    by (auto simp: st set_map_filter')
  show "\<exists>old\<in>set statuses. tss_key s = tss_key old \<and> ss_Type s = ss_Type old
          \<and> ss_LastDeployedHash s = ss_LastDeployedHash old \<and> ss_Conditions s = ss_Conditions old
          \<and> ss_LastStateTransitionTime s
              = (if ss_State s = ss_State old then ss_LastStateTransitionTime old else Some now)
          \<and> (ss_Type old = ServiceTypeHelm \<longrightarrow> ss_Version s = ss_Version old)"
    by (rule bexI [where x = old, OF _ old(1)]) (rule next_state_facts [OF old(2)])
qed

text \<open>A service whose status has no type: no summary moves it.\<close>

lemma untyped_stays_provisioning:
  assumes "next_state now cs services svc = Some s" and "ss_Type svc = []"
  shows "ss_State s = ServiceStateProvisioning"
proof -
  from assms(1) obtain f where f: "index_by swv_key fresh_state services (tss_key svc) = Some f"
    by (auto simp: next_state_def split: option.splits)
  show ?thesis
    using assms fresh_state_key [OF f] f by (auto simp: next_state_def Let_def service_types split: if_split_asm)
qed

end
