(* ===== verification/SveltosVerify.thy ===== *)
theory SveltosVerify
  imports SveltosRules SveltosState StatusConditions
begin

text \<open>
  The verifier of the Sveltos adapter: the second half of
  \<^verbatim>\<open>internal/controller/adapters/sveltos/verify.go\<close>. Objects of the target cluster are listed by the
  labels chart authors use, each is judged by the rules of its kind, and the unhealthy ones become one
  condition per kind; the fingerprint of a release is a hash over chart, values and patches.
  Parameters are the REST mapper and the list calls of the target cluster (\<open>workload_client\<close>),
  the reads of the regional cluster (\<open>artifact_reads\<close>) and SHA-256. A Go map that is ranged over, the
  rule set, is an association list in the order the iteration takes; \<open>sort.Slice\<close>, which is not
  stable, is a stable sort here. Log lines are left out.
\<close>

section \<open>Evaluation of a rule\<close>

datatype eval_error = EvaluateFailed string | HealthyNotBool

definition rule_evaluate :: "('a, 'p, 'o) cel_env \<Rightarrow> 'p resourceRule \<Rightarrow> 'o \<Rightarrow> eval_error + bool \<times> string" where
  "rule_evaluate env r input =
     (case celEval env (rr_healthy r) input of
        Inl e \<Rightarrow> Inl (EvaluateFailed e)
      | Inr (CelBool hVal) \<Rightarrow>
          if hVal then Inr (True, [])
          else Inr (False, case celEval env (rr_message r) input of Inr (CelString s) \<Rightarrow> s | _ \<Rightarrow> [])
      | Inr _ \<Rightarrow> Inl HealthyNotBool)"

section \<open>Which version to list\<close>

text \<open>A mapping of the REST mapper: its version and the name of its scope, if it has one.\<close>

record RESTMapping =
  rm_Version :: string
  rm_Scope :: "string option"

datatype mapper_error = MapperNoMatch | MapperFailed string

definition distinctVersions :: "'p resourceRule list \<Rightarrow> string list" where
  "distinctVersions gkRules = fold add_new (map (\<lambda>r. gvk_Version (rr_GVK r)) gkRules) []"

definition restScopeToResourceScope :: "string option \<Rightarrow> resourceScope" where
  "restScopeToResourceScope s = (if s = Some ''namespace'' then scopeNamespaced else scopeCluster)"

datatype verify_error =
    DiscoverFailed GroupKind string
  | ListFailed GroupKind string string
  | RuleFailed GroupKind string string string eval_error

definition resolveServedVersion ::
  "(GroupKind \<Rightarrow> mapper_error + RESTMapping list) \<Rightarrow> GroupKind \<Rightarrow> string list
     \<Rightarrow> verify_error + (GroupVersionKind \<times> resourceScope) option" where
  "resolveServedVersion mapper gk authoredVersions =
     (case mapper gk of
        Inl MapperNoMatch \<Rightarrow> Inr None
      | Inl (MapperFailed e) \<Rightarrow> Inl (DiscoverFailed gk e)
      | Inr mappings \<Rightarrow>
          let served = index_by rm_Version id mappings in
          (case find (\<lambda>v. served v \<noteq> None) authoredVersions of
             None \<Rightarrow> Inr None
           | Some v \<Rightarrow>
               Inr (Some (GroupVersionKind (gk_Group gk) v (gk_Kind gk @ ''List''),
                          restScopeToResourceScope (rm_Scope (the (served v)))))))"

section \<open>Verdicts\<close>

record resourceVerdict =
  rv_GVK :: GroupVersionKind
  rv_Name :: string
  rv_Namespace :: string
  rv_Reason :: string
  rv_RuleSrc :: string
  rv_Healthy :: bool

text \<open>An object of the target cluster; \<open>'o\<close> stands for its unstructured content.\<close>

record 'o child_object =
  co_Name :: string
  co_Namespace :: string
  co_Deleting :: bool
  co_Object :: 'o

datatype list_error = ListNoMatch | ListError string

text \<open>The calls on the target cluster: the mapper, and lists by kind, label, value and namespace.\<close>

record 'o workload_client =
  chc_mappings :: "GroupKind \<Rightarrow> mapper_error + RESTMapping list"
  chc_list :: "GroupVersionKind \<Rightarrow> string \<Rightarrow> string \<Rightarrow> string option \<Rightarrow> list_error + 'o child_object list"

definition discoveryLabels :: "string list" where
  "discoveryLabels = [''release'', ''app'', ''app.kubernetes.io/instance'', ''app.kubernetes.io/name'']"

text \<open>The loop over the rules of a kind: a rule that fails to evaluate is an error, the first that
  says unhealthy decides. The state is the verdict and the errors.\<close>

fun apply_rules ::
  "('a, 'p, 'o) cel_env \<Rightarrow> GroupKind \<Rightarrow> 'o child_object \<Rightarrow> 'p resourceRule list
     \<Rightarrow> resourceVerdict \<times> verify_error list \<Rightarrow> resourceVerdict \<times> verify_error list" where
  "apply_rules env gk obj [] (verdict, errs) = (verdict, errs)"
| "apply_rules env gk obj (rule # rules) (verdict, errs) =
     (case rule_evaluate env rule (co_Object obj) of
        Inl e \<Rightarrow> apply_rules env gk obj rules
                   (verdict, errs @ [RuleFailed gk (co_Namespace obj) (co_Name obj) (rr_Source rule) e])
      | Inr (healthy, reason) \<Rightarrow>
          if \<not> healthy
          then (verdict\<lparr>rv_Healthy := False, rv_Reason := reason, rv_RuleSrc := rr_Source rule\<rparr>, errs)
          else apply_rules env gk obj rules (verdict, errs))"

text \<open>One listed object; the state is \<open>(verdicts, listErrs, seen)\<close>.\<close>

definition judge_object ::
  "('a, 'p, 'o) cel_env \<Rightarrow> GroupKind \<Rightarrow> GroupVersionKind \<Rightarrow> 'p resourceRule list \<Rightarrow> 'o child_object
     \<Rightarrow> resourceVerdict list \<times> verify_error list \<times> ObjectKey list
     \<Rightarrow> resourceVerdict list \<times> verify_error list \<times> ObjectKey list" where
  "judge_object env gk listGVK gkRules obj acc =
     (case acc of (verdicts, listErrs, seen) \<Rightarrow>
        let key = ObjectKey (co_Namespace obj) (co_Name obj) in
        if key \<in> set seen then acc
        else let verdict = \<lparr>rv_GVK = GroupVersionKind (gvk_Group listGVK) (gvk_Version listGVK) (gk_Kind gk),
                            rv_Name = co_Name obj, rv_Namespace = co_Namespace obj, rv_Reason = [],
                            rv_RuleSrc = [], rv_Healthy = True\<rparr>
             in if co_Deleting obj then (verdicts @ [verdict], listErrs, seen @ [key])
                else (case apply_rules env gk obj gkRules (verdict, listErrs) of
                        (v, errs) \<Rightarrow> (verdicts @ [v], errs, seen @ [key])))"

text \<open>The loop over the labels, which ends when the kind turns out not to be served.\<close>

fun judge_labels ::
  "('a, 'p, 'o) cel_env \<Rightarrow> 'o workload_client \<Rightarrow> GroupKind \<Rightarrow> GroupVersionKind \<Rightarrow> resourceScope
     \<Rightarrow> 'p resourceRule list \<Rightarrow> string \<Rightarrow> string \<Rightarrow> string list
     \<Rightarrow> resourceVerdict list \<times> verify_error list \<times> ObjectKey list
     \<Rightarrow> resourceVerdict list \<times> verify_error list" where
  "judge_labels env c gk listGVK scope gkRules serviceName serviceNamespace [] (verdicts, errs, seen) = (verdicts, errs)"
| "judge_labels env c gk listGVK scope gkRules serviceName serviceNamespace (labelKey # labels) (verdicts, errs, seen) =
     (case chc_list c listGVK labelKey serviceName
             (if scope = scopeNamespaced then Some serviceNamespace else None) of
        Inl ListNoMatch \<Rightarrow> (verdicts, errs)
      | Inl (ListError e) \<Rightarrow>
          judge_labels env c gk listGVK scope gkRules serviceName serviceNamespace labels
            (verdicts, errs @ [ListFailed gk labelKey e], seen)
      | Inr items \<Rightarrow>
          judge_labels env c gk listGVK scope gkRules serviceName serviceNamespace labels
            (fold (judge_object env gk listGVK gkRules) items (verdicts, errs, seen)))"

text \<open>The verdicts on rules whose declared scope is not the one of the cluster.\<close>

definition scope_mismatches :: "GroupKind \<Rightarrow> GroupVersionKind \<Rightarrow> resourceScope \<Rightarrow> 'p resourceRule list \<Rightarrow> resourceVerdict list" where
  "scope_mismatches gk listGVK actualScope gkRules =
     map (\<lambda>rule. \<lparr>rv_GVK = GroupVersionKind (gvk_Group listGVK) (gvk_Version listGVK) (gk_Kind gk),
                  rv_Name = [], rv_Namespace = [], rv_Reason = ''HealthRuleScopeMismatch'',
                  rv_RuleSrc = rr_Source rule, rv_Healthy = False\<rparr>)
       (filter (\<lambda>rule. rr_Scope rule \<noteq> actualScope) gkRules)"

definition judge_kind ::
  "('a, 'p, 'o) cel_env \<Rightarrow> 'o workload_client \<Rightarrow> string \<Rightarrow> string \<Rightarrow> GroupKind \<times> 'p resourceRule list
     \<Rightarrow> resourceVerdict list \<times> verify_error list \<Rightarrow> resourceVerdict list \<times> verify_error list" where
  "judge_kind env c serviceName serviceNamespace entry acc =
     (case (entry, acc) of ((gk, gkRules), (verdicts, listErrs)) \<Rightarrow>
        if gkRules = [] then acc
        else (case resolveServedVersion (chc_mappings c) gk (distinctVersions gkRules) of
                Inl e \<Rightarrow> (verdicts, listErrs @ [e])
              | Inr None \<Rightarrow> acc
              | Inr (Some (listGVK, actualScope)) \<Rightarrow>
                  let wrong = scope_mismatches gk listGVK actualScope gkRules in
                  if wrong \<noteq> [] then (verdicts @ wrong, listErrs)
                  else judge_labels env c gk listGVK actualScope gkRules serviceName serviceNamespace
                         discoveryLabels (verdicts, listErrs, [])))"

definition collectVerdicts ::
  "('a, 'p, 'o) cel_env \<Rightarrow> 'o workload_client \<Rightarrow> 'p ruleSet \<Rightarrow> string \<Rightarrow> string
     \<Rightarrow> resourceVerdict list \<times> verify_error list" where
  "collectVerdicts env c rules serviceName serviceNamespace =
     fold (judge_kind env c serviceName serviceNamespace) rules ([], [])"

section \<open>Conditions\<close>

text \<open>\<open>strings.TrimSpace\<close> on UTF-8: the encodings of the white space of Unicode.\<close>

definition space_encodings :: "string list" where
  "space_encodings =
     map (\<lambda>c. [c]) [CHR 0x09, CHR 0x0A, CHR 0x0B, CHR 0x0C, CHR 0x0D, CHR '' '']
     @ [[CHR 0xC2, CHR 0x85], [CHR 0xC2, CHR 0xA0], [CHR 0xE1, CHR 0x9A, CHR 0x80]]
     @ map (\<lambda>c. [CHR 0xE2, CHR 0x80, c])
         [CHR 0x80, CHR 0x81, CHR 0x82, CHR 0x83, CHR 0x84, CHR 0x85, CHR 0x86, CHR 0x87, CHR 0x88,
          CHR 0x89, CHR 0x8A, CHR 0xA8, CHR 0xA9, CHR 0xAF]
     @ [[CHR 0xE2, CHR 0x81, CHR 0x9F], [CHR 0xE3, CHR 0x80, CHR 0x80]]"

function trim_left :: "string list \<Rightarrow> string \<Rightarrow> string" where
  "trim_left sp s =
     (case find (\<lambda>w. w \<noteq> [] \<and> has_prefix w s) sp of
        None \<Rightarrow> s
      | Some w \<Rightarrow> if length (drop (length w) s) < length s then trim_left sp (drop (length w) s) else s)"
  by pat_completeness auto
termination by (relation "measure (\<lambda>(_, s). length s)") simp_all

declare trim_left.simps [simp del]

definition TrimSpace :: "string \<Rightarrow> string" where
  "TrimSpace s = rev (trim_left (map rev space_encodings) (rev (trim_left space_encodings s)))"

definition ellipsis :: string where "ellipsis = [CHR 0xE2, CHR 0x80, CHR 0xA6]"

definition maxVerdictReasonBytes :: nat where "maxVerdictReasonBytes = 500"
definition maxUnhealthyRefsPerCondition :: nat where "maxUnhealthyRefsPerCondition = 3"
definition maxRuleLoadErrorsInCondition :: nat where "maxRuleLoadErrorsInCondition = 10"
definition maxRuleLoadErrorConditionMessageBytes :: nat where "maxRuleLoadErrorConditionMessageBytes = 20 * 1024"

definition truncateReason :: "string \<Rightarrow> string" where
  "truncateReason reason =
     (let r = TrimSpace reason in
      if length r > maxVerdictReasonBytes then take maxVerdictReasonBytes r @ ellipsis else r)"

definition serviceHealthConditionPrefix :: string where "serviceHealthConditionPrefix = ''ServiceHealth''"

definition verdict_ref :: "resourceVerdict \<Rightarrow> string" where
  "verdict_ref v = (if rv_Namespace v \<noteq> [] then rv_Namespace v @ ''/'' @ rv_Name v else rv_Name v)"

definition unhealthy_message :: "string \<Rightarrow> resourceVerdict list \<Rightarrow> string" where
  "unhealthy_message kind items =
     (let shown = take maxUnhealthyRefsPerCondition items;
          parts = map (\<lambda>v. verdict_ref v @ '' ('' @ truncateReason (rv_Reason v) @ '', rule '' @ rv_RuleSrc v @ '')'') shown;
          msg = format_nat (length items) @ '' '' @ kind @ '' unhealthy: '' @ join_strings ''; '' parts
      in if length items > maxUnhealthyRefsPerCondition
         then msg @ ''; '' @ ellipsis @ ''and '' @ format_nat (length items - maxUnhealthyRefsPerCondition) @ '' more''
         else msg)"

definition kind_condition :: "resourceVerdict list \<Rightarrow> string \<Rightarrow> Condition" where
  "kind_condition unhealthy kind =
     (let items = sort_key (\<lambda>v. ObjectKey (rv_Namespace v) (rv_Name v))
                    (filter (\<lambda>v. gvk_Kind (rv_GVK v) = kind) unhealthy)
      in \<lparr>cond_Type = serviceHealthConditionPrefix @ kind, cond_Status = ConditionFalse,
          cond_ObservedGeneration = 0, cond_Reason = kind @ ''Unhealthy'',
          cond_Message = unhealthy_message kind items\<rparr>)"

definition verifyHelmServiceOnCluster ::
  "('a, 'p, 'o) cel_env \<Rightarrow> 'o workload_client \<Rightarrow> 'p ruleSet \<Rightarrow> string \<Rightarrow> string
     \<Rightarrow> verify_error list + ServiceStateValue \<times> Condition list" where
  "verifyHelmServiceOnCluster env c rules serviceName serviceNamespace =
     (case collectVerdicts env c rules serviceName serviceNamespace of
        (verdicts, errs) \<Rightarrow>
          if errs \<noteq> [] then Inl errs
          else let unhealthy = filter (\<lambda>v. \<not> rv_Healthy v) verdicts;
                   kindOrder = sort (fold add_new (map (\<lambda>v. gvk_Kind (rv_GVK v)) unhealthy) [])
               in if kindOrder = [] then Inr (ServiceStateDeployed, [])
                  else Inr (ServiceStateProvisioning, map (kind_condition unhealthy) kindOrder))"

text \<open>The condition about rules that could not be loaded; \<open>render\<close> is \<open>Error()\<close> of the cause.\<close>

definition serviceSetHealthRulesCondition :: string where "serviceSetHealthRulesCondition = ''ServiceSetHealthRules''"

definition load_error_message :: "(rule_error \<Rightarrow> string) \<Rightarrow> ruleLoadError list \<Rightarrow> string" where
  "load_error_message render loadErrs =
     (let shown = take maxRuleLoadErrorsInCondition loadErrs;
          msg0 = join_strings ''; '' (map (\<lambda>e. rle_Source e @ '': '' @ render (rle_Err e)) shown);
          msg = (if length loadErrs > maxRuleLoadErrorsInCondition
                 then msg0 @ ''; '' @ ellipsis @ ''and '' @ format_nat (length loadErrs - maxRuleLoadErrorsInCondition) @ '' more''
                 else msg0)
      in if length msg > maxRuleLoadErrorConditionMessageBytes
         then take maxRuleLoadErrorConditionMessageBytes msg @ ellipsis else msg)"

definition applyRuleLoadErrorCondition ::
  "set_condition \<Rightarrow> (rule_error \<Rightarrow> string) \<Rightarrow> int \<Rightarrow> ruleLoadError list \<Rightarrow> Condition list \<Rightarrow> Condition list" where
  "applyRuleLoadErrorCondition setc render generation loadErrs conditions =
     setc conditions
       (if loadErrs = []
        then \<lparr>cond_Type = serviceSetHealthRulesCondition, cond_Status = ConditionTrue,
              cond_ObservedGeneration = generation, cond_Reason = ''AllRulesValid'',
              cond_Message = ''All health rules loaded successfully''\<rparr>
        else \<lparr>cond_Type = serviceSetHealthRulesCondition, cond_Status = ConditionFalse,
              cond_ObservedGeneration = generation, cond_Reason = ''HealthRuleInvalid'',
              cond_Message = load_error_message render loadErrs\<rparr>)"

definition applyVerifyConditions :: "set_condition \<Rightarrow> Condition list \<Rightarrow> Condition list \<Rightarrow> Condition list" where
  "applyVerifyConditions setc newConds conditions =
     fold (\<lambda>c cs. setc cs c) newConds
       (filter (\<lambda>c. \<not> has_prefix serviceHealthConditionPrefix (cond_Type c)
                    \<or> cond_Type c \<in> cond_Type ` set newConds) conditions)"

section \<open>Fingerprints\<close>

record Chart =
  ch_AppVersion :: string
  ch_ChartVersion :: string
  ch_Namespace :: string
  ch_ReleaseName :: string
  ch_RepoURL :: string

record ConfigFeature =
  cf_FeatureID :: FeatureID
  cf_Charts :: "Chart list"

text \<open>
  A ClusterConfiguration: its owners and, per profile kind and name, the features of its section.
  Finding the section is library code (\<open>GetClusterConfigurationSectionIndex\<close>, \<open>None\<close> for its error).
\<close>

datatype ProfileKind = ProfileKindProfile | ProfileKindClusterProfile

record ClusterConfiguration =
  cc_OwnerUIDs :: "string list"
  cc_section :: "ProfileKind \<Rightarrow> string \<Rightarrow> ConfigFeature list option"

definition computeServiceHash :: "(string \<Rightarrow> string) \<Rightarrow> (string \<Rightarrow> string) \<Rightarrow> HelmChartSummary option \<Rightarrow> Chart option \<Rightarrow> string" where
  "computeServiceHash sha256 hex release chart =
     (case (release, chart) of
        (Some r, Some ch) \<Rightarrow>
          let releaseInput = join_strings ''|''
                [''appVersion='' @ ch_AppVersion ch, ''chartVersion='' @ ch_ChartVersion ch,
                 ''namespace='' @ ch_Namespace ch, ''releaseName='' @ ch_ReleaseName ch, ''repoURL='' @ ch_RepoURL ch]
          in hex (sha256 (sha256 releaseInput @ hcs_ValuesHash r @ hcs_PatchesHash r))
      | _ \<Rightarrow> [])"

definition helm_charts :: "ConfigFeature list \<Rightarrow> Chart list" where
  "helm_charts features =
     (case find (\<lambda>f. cf_FeatureID f = FeatureHelm) features of None \<Rightarrow> [] | Some f \<Rightarrow> cf_Charts f)"

abbreviation release_key :: "HelmChartSummary \<Rightarrow> ObjectKey" where
  "release_key r \<equiv> ObjectKey (hcs_ReleaseNamespace r) (hcs_ReleaseName r)"

abbreviation chart_key :: "Chart \<Rightarrow> ObjectKey" where
  "chart_key c \<equiv> ObjectKey (ch_Namespace c) (ch_ReleaseName c)"

definition serviceHashesFromArtifacts ::
  "(string \<Rightarrow> string) \<Rightarrow> (string \<Rightarrow> string) \<Rightarrow> ClusterSummary option \<Rightarrow> ClusterConfiguration option
     \<Rightarrow> ProfileKind \<Rightarrow> string \<Rightarrow> ObjectKey \<rightharpoonup> string" where
  "serviceHashesFromArtifacts sha256 hex summary cc profileKind profileName =
     (case (summary, cc) of
        (Some s, Some conf) \<Rightarrow>
          (case cc_section conf profileKind profileName of
             None \<Rightarrow> Map.empty
           | Some features \<Rightarrow>
               let chartByKey = index_by chart_key id (helm_charts features) in
               fold (\<lambda>rs hashes.
                 case chartByKey (release_key rs) of
                   None \<Rightarrow> hashes
                 | Some chart \<Rightarrow>
                     let h = computeServiceHash sha256 hex (Some rs) (Some chart) in
                     if h \<noteq> [] then hashes(release_key rs \<mapsto> h) else hashes)
                 (csum_HelmReleaseSummaries s) Map.empty)
      | _ \<Rightarrow> Map.empty)"

section \<open>Artifacts of Sveltos\<close>

text \<open>Thirty seconds; entries are dated by when they were written, and misses are cached too.\<close>

definition clusterConfigCacheTTL :: int where "clusterConfigCacheTTL = 30"

record ccCacheEntry =
  cce_writtenAt :: int
  cce_cc :: "ClusterConfiguration option"

type_synonym cc_cache = "string \<times> string \<rightharpoonup> ccCacheEntry"

definition sweepClusterConfigCache :: "int \<Rightarrow> cc_cache \<Rightarrow> cc_cache" where
  "sweepClusterConfigCache now cache =
     (\<lambda>key. case cache key of
              None \<Rightarrow> None
            | Some entry \<Rightarrow> if cce_writtenAt entry < now - clusterConfigCacheTTL then None else Some entry)"

text \<open>A profile of Sveltos as far as the verifier reads it.\<close>

record ProfileStatus =
  ps_UID :: string
  ps_MatchingClusterRefs :: "ObjectReference list"

record artifact_reads =
  ar_getProfile :: "ProfileKind \<Rightarrow> ObjectKey \<Rightarrow> api_error + ProfileStatus"
  ar_getClusterSummary :: "ObjectKey \<Rightarrow> api_error + ClusterSummary"
  ar_listClusterConfigurations :: "string \<Rightarrow> api_error + ClusterConfiguration list"
  ar_summaryName :: "ProfileKind \<Rightarrow> string \<Rightarrow> string \<Rightarrow> bool \<Rightarrow> string"
  ar_sveltosAPIVersion :: string

datatype artifact_error =
    GetProfileFailed api_error
  | GetSummaryFailed api_error
  | ListConfigurationsFailed api_error

definition findOwnedClusterConfiguration ::
  "artifact_reads \<Rightarrow> int \<Rightarrow> string \<Rightarrow> string \<Rightarrow> cc_cache
     \<Rightarrow> (artifact_error + ClusterConfiguration option) \<times> cc_cache" where
  "findOwnedClusterConfiguration rd now namespace profileUID cache =
     (case cache (namespace, profileUID) of
        Some cached \<Rightarrow> (Inr (cce_cc cached), cache)
      | None \<Rightarrow>
          (case ar_listClusterConfigurations rd namespace of
             Inl e \<Rightarrow> (Inl (ListConfigurationsFailed e), cache)
           | Inr items \<Rightarrow>
               let found = find (\<lambda>cc. profileUID \<in> set (cc_OwnerUIDs cc)) items in
               (Inr found, cache((namespace, profileUID) \<mapsto> \<lparr>cce_writtenAt = now, cce_cc = found\<rparr>))))"

definition fetchHelmArtifactsForVerifier ::
  "artifact_reads \<Rightarrow> int \<Rightarrow> bool \<Rightarrow> ObjectKey \<Rightarrow> cc_cache
     \<Rightarrow> (artifact_error + ClusterSummary option \<times> ClusterConfiguration option \<times> ProfileKind \<times> string) \<times> cc_cache" where
  "fetchHelmArtifactsForVerifier rd now selfManagement key cache =
     (let kind = (if selfManagement then ProfileKindClusterProfile else ProfileKindProfile) in
      case ar_getProfile rd kind key of
        Inl NotFound \<Rightarrow> (Inr (None, None, kind, []), cache)
      | Inl e \<Rightarrow> (Inl (GetProfileFailed e), cache)
      | Inr profile \<Rightarrow>
          (case ps_MatchingClusterRefs profile of
             [] \<Rightarrow> (Inr (None, None, kind, []), cache)
           | cluster # _ \<Rightarrow>
               let isSveltos = (ref_APIVersion cluster = ar_sveltosAPIVersion rd);
                   summaryName = ar_summaryName rd kind (ok_Name key) (ref_Name cluster) isSveltos
               in case ar_getClusterSummary rd (ObjectKey (ref_Namespace cluster) summaryName) of
                    Inr summary \<Rightarrow>
                      (case findOwnedClusterConfiguration rd now (ref_Namespace cluster) (ps_UID profile)
                              (sweepClusterConfigCache now cache) of
                         (Inl e, cache') \<Rightarrow> (Inl e, cache')
                       | (Inr cc, cache') \<Rightarrow> (Inr (Some summary, cc, kind, ok_Name key), cache'))
                  | Inl NotFound \<Rightarrow>
                      (case findOwnedClusterConfiguration rd now (ref_Namespace cluster) (ps_UID profile)
                              (sweepClusterConfigCache now cache) of
                         (Inl e, cache') \<Rightarrow> (Inl e, cache')
                       | (Inr cc, cache') \<Rightarrow> (Inr (None, cc, kind, ok_Name key), cache'))
                  | Inl e \<Rightarrow> (Inl (GetSummaryFailed e), cache)))"

section \<open>What the verifier decides\<close>

text \<open>
  The reference: an object passes when it is being deleted or every rule of its kind says healthy. The
  objects of a kind are those listed under the labels, up to a label under which the kind is not
  served, each key once.
\<close>

definition passes :: "('a, 'p, 'o) cel_env \<Rightarrow> 'p resourceRule list \<Rightarrow> 'o child_object \<Rightarrow> bool" where
  "passes env rules obj \<longleftrightarrow>
     co_Deleting obj \<or> list_all (\<lambda>r. rule_evaluate env r (co_Object obj) = Inr (True, [])) rules"

fun listed :: "'o workload_client \<Rightarrow> GroupVersionKind \<Rightarrow> resourceScope \<Rightarrow> string \<Rightarrow> string \<Rightarrow> string list \<Rightarrow> 'o child_object list" where
  "listed c gvk scope name ns [] = []"
| "listed c gvk scope name ns (l # ls) =
     (case chc_list c gvk l name (if scope = scopeNamespaced then Some ns else None) of
        Inl ListNoMatch \<Rightarrow> []
      | Inl (ListError e) \<Rightarrow> listed c gvk scope name ns ls
      | Inr items \<Rightarrow> items @ listed c gvk scope name ns ls)"

abbreviation co_key :: "'o child_object \<Rightarrow> ObjectKey" where
  "co_key obj \<equiv> ObjectKey (co_Namespace obj) (co_Name obj)"

fun first_of_key :: "ObjectKey list \<Rightarrow> 'o child_object list \<Rightarrow> 'o child_object list" where
  "first_of_key seen [] = []"
| "first_of_key seen (obj # objs) =
     (if co_key obj \<in> set seen then first_of_key seen objs
      else obj # first_of_key (seen @ [co_key obj]) objs)"

definition kind_healthy ::
  "('a, 'p, 'o) cel_env \<Rightarrow> 'o workload_client \<Rightarrow> string \<Rightarrow> string \<Rightarrow> GroupKind \<Rightarrow> 'p resourceRule list \<Rightarrow> bool" where
  "kind_healthy env c name ns gk rules =
     (case resolveServedVersion (chc_mappings c) gk (distinctVersions rules) of
        Inr (Some (gvk, scope)) \<Rightarrow>
          list_all (\<lambda>r. rr_Scope r = scope) rules
          \<and> list_all (passes env rules) (first_of_key [] (listed c gvk scope name ns discoveryLabels))
      | _ \<Rightarrow> True)"

lemma rule_evaluate_healthy: "rule_evaluate env r x = Inr (True, m) \<Longrightarrow> m = []"
  by (auto simp: rule_evaluate_def split: sum.splits cel_value.splits if_splits)

lemma apply_rules_errs: "prefix errs (snd (apply_rules env gk obj rules (v, errs)))"
proof (induction rules arbitrary: errs)
  case (Cons r rules)
  show ?case
  proof (cases "rule_evaluate env r (co_Object obj)")
    case (Inl e)
    with append_prefixD [OF Cons [of "errs @ [RuleFailed gk (co_Namespace obj) (co_Name obj) (rr_Source r) e]"]]
    show ?thesis by simp
  qed (use Cons [of errs] in \<open>simp split: prod.split\<close>)
qed simp

lemma apply_rules_healthy:
  assumes "apply_rules env gk obj rules (v, []) = (v', [])" and "rv_Healthy v"
  shows "rv_Healthy v' \<longleftrightarrow> list_all (\<lambda>r. rule_evaluate env r (co_Object obj) = Inr (True, [])) rules"
  using assms
proof (induction rules)
  case (Cons r rules)
  show ?case
  proof (cases "rule_evaluate env r (co_Object obj)")
    case (Inl e)
    with Cons.prems apply_rules_errs [of "[RuleFailed gk (co_Namespace obj) (co_Name obj) (rr_Source r) e]" env gk obj rules v]
    show ?thesis by simp
  next
    case (Inr hr)
    with Cons rule_evaluate_healthy [of env r "co_Object obj"] show ?thesis
      by (cases hr) (auto split: if_splits)
  qed
qed simp

lemma judge_object_errs:
  "judge_object env gk gvk rules obj (vs, errs, seen) = (vs', errs', seen') \<Longrightarrow> prefix errs errs'"
  using apply_rules_errs [of errs env gk obj rules]
  by (auto simp: judge_object_def Let_def split: if_splits prod.splits) (metis snd_conv)

lemma judge_fold_errs:
  "fold (judge_object env gk gvk rules) objs (vs, errs, seen) = (vs', errs', seen') \<Longrightarrow> prefix errs errs'"
proof (induction objs arbitrary: vs errs seen)
  case (Cons obj objs)
  obtain v1 e1 s1 where one: "judge_object env gk gvk rules obj (vs, errs, seen) = (v1, e1, s1)"
    by (metis prod_cases3)
  with Cons.prems have "prefix e1 errs'" by (auto intro: Cons.IH)
  with judge_object_errs [OF one] show ?case by (rule prefix_order.trans)
qed simp

lemma judge_object_healthy:
  assumes "judge_object env gk gvk rules obj (vs, [], seen) = (vs', [], seen')"
  shows "list_all rv_Healthy vs' \<longleftrightarrow> list_all rv_Healthy vs \<and> (co_key obj \<in> set seen \<or> passes env rules obj)"
    and "seen' = (if co_key obj \<in> set seen then seen else seen @ [co_key obj])"
proof -
  let ?v = "\<lparr>rv_GVK = GroupVersionKind (gvk_Group gvk) (gvk_Version gvk) (gk_Kind gk), rv_Name = co_Name obj,
     rv_Namespace = co_Namespace obj, rv_Reason = [], rv_RuleSrc = [], rv_Healthy = True\<rparr>"
  obtain v e where a: "apply_rules env gk obj rules (?v, []) = (v, e)"
    by (cases "apply_rules env gk obj rules (?v, [])")
  show "list_all rv_Healthy vs' \<longleftrightarrow> list_all rv_Healthy vs \<and> (co_key obj \<in> set seen \<or> passes env rules obj)"
    using assms apply_rules_healthy [of env gk obj rules ?v v] a
    by (auto simp: judge_object_def Let_def passes_def split: if_splits)
  show "seen' = (if co_key obj \<in> set seen then seen else seen @ [co_key obj])"
    using assms a by (auto simp: judge_object_def Let_def split: if_splits)
qed

lemma judge_fold_healthy:
  assumes "fold (judge_object env gk gvk rules) objs (vs, [], seen) = (vs', [], seen')"
  shows "list_all rv_Healthy vs' \<longleftrightarrow> list_all rv_Healthy vs \<and> list_all (passes env rules) (first_of_key seen objs)"
  using assms
proof (induction objs arbitrary: vs seen)
  case (Cons obj objs)
  obtain v1 e1 s1 where one: "judge_object env gk gvk rules obj (vs, [], seen) = (v1, e1, s1)"
    by (metis prod_cases3)
  with Cons.prems have rest: "fold (judge_object env gk gvk rules) objs (v1, e1, s1) = (vs', [], seen')" by simp
  from judge_fold_errs [OF rest] have "e1 = []" by simp
  with one rest Cons.IH [of v1 s1] judge_object_healthy [of env gk gvk rules obj vs seen v1 s1]
  show ?case by auto
qed simp

lemma judge_labels_fold:
  assumes "judge_labels env c gk gvk scope rules name ns labels (vs, errs, seen) = (vs', [])"
  shows "errs = [] \<and> (\<exists>seen'. fold (judge_object env gk gvk rules) (listed c gvk scope name ns labels) (vs, [], seen) = (vs', [], seen'))"
  using assms
proof (induction labels arbitrary: vs errs seen)
  case (Cons l ls)
  let ?r = "chc_list c gvk l name (if scope = scopeNamespaced then Some ns else None)"
  consider "?r = Inl ListNoMatch" | e where "?r = Inl (ListError e)" | items where "?r = Inr items"
    by (metis list_error.exhaust sum.exhaust)
  then show ?case
  proof cases
    case 2
    with Cons.prems Cons.IH [of vs "errs @ [ListFailed gk l e]" seen] show ?thesis by simp
  next
    case 3
    obtain v1 e1 s1 where one: "fold (judge_object env gk gvk rules) items (vs, errs, seen) = (v1, e1, s1)"
      by (metis prod_cases3)
    with 3 Cons.prems Cons.IH [of v1 e1 s1] have rest: "e1 = []"
      "\<exists>seen'. fold (judge_object env gk gvk rules) (listed c gvk scope name ns ls) (v1, [], s1) = (vs', [], seen')"
      by auto
    with judge_fold_errs [OF one] one 3 show ?thesis by auto
  qed (use Cons.prems in simp)
qed simp

lemma judge_kind_errs:
  assumes "judge_kind env c name ns (gk, rules) (vs, errs) = (vs', [])"
  shows "errs = []"
proof (cases "rules = []")
  case False
  show ?thesis
  proof (cases "resolveServedVersion (chc_mappings c) gk (distinctVersions rules)")
    case (Inr r)
    with assms False show ?thesis
      by (cases r) (auto simp: judge_kind_def Let_def split: if_splits dest: judge_labels_fold [THEN conjunct1])
  qed (use assms False in \<open>simp add: judge_kind_def\<close>)
qed (use assms in \<open>simp add: judge_kind_def\<close>)

lemma judge_kind_healthy:
  assumes "judge_kind env c name ns (gk, rules) (vs, []) = (vs', [])"
  shows "list_all rv_Healthy vs' \<longleftrightarrow> list_all rv_Healthy vs \<and> (rules = [] \<or> kind_healthy env c name ns gk rules)"
proof (cases "rules = []")
  case False
  show ?thesis
  proof (cases "resolveServedVersion (chc_mappings c) gk (distinctVersions rules)")
    case (Inr r)
    show ?thesis
    proof (cases r)
      case None
      with assms False Inr show ?thesis by (simp add: judge_kind_def kind_healthy_def)
    next
      case (Some gs)
      obtain gvk scope where gs: "gs = (gvk, scope)" by (cases gs)
      show ?thesis
      proof (cases "scope_mismatches gk gvk scope rules = []")
        case True
        then have sc: "list_all (\<lambda>r. rr_Scope r = scope) rules"
          by (auto simp: scope_mismatches_def filter_empty_conv list_all_iff)
        from True assms False Inr Some gs
        have "judge_labels env c gk gvk scope rules name ns discoveryLabels (vs, [], []) = (vs', [])"
          by (simp add: judge_kind_def)
        from judge_labels_fold [OF this] obtain seen' where
          "fold (judge_object env gk gvk rules) (listed c gvk scope name ns discoveryLabels) (vs, [], []) = (vs', [], seen')"
          by blast
        from judge_fold_healthy [OF this] sc False Inr Some gs show ?thesis
          by (simp add: kind_healthy_def)
      next
        case wrong: False
        then have "\<not> list_all (\<lambda>r. rr_Scope r = scope) rules"
          by (auto simp: scope_mismatches_def filter_empty_conv list_all_iff)
        moreover from wrong have "\<not> list_all rv_Healthy (scope_mismatches gk gvk scope rules)"
          by (auto simp: scope_mismatches_def filter_empty_conv list_all_iff)
        ultimately show ?thesis
          using wrong assms False Inr Some gs by (auto simp: judge_kind_def kind_healthy_def)
      qed
    qed
  qed (use assms False in \<open>simp add: judge_kind_def\<close>)
qed (use assms in \<open>simp add: judge_kind_def\<close>)

lemma judge_kinds_healthy:
  assumes "fold (judge_kind env c name ns) rules (vs, errs) = (vs', [])"
  shows "errs = [] \<and> (list_all rv_Healthy vs' \<longleftrightarrow>
    list_all rv_Healthy vs \<and> list_all (\<lambda>(gk, rs). rs = [] \<or> kind_healthy env c name ns gk rs) rules)"
  using assms
proof (induction rules arbitrary: vs errs)
  case (Cons x rules)
  obtain gk rs where x: "x = (gk, rs)" by (cases x)
  obtain v1 e1 where one: "judge_kind env c name ns (gk, rs) (vs, errs) = (v1, e1)"
    by (cases "judge_kind env c name ns (gk, rs) (vs, errs)")
  with Cons x have rest: "e1 = []" "list_all rv_Healthy vs' \<longleftrightarrow>
      list_all rv_Healthy v1 \<and> list_all (\<lambda>(gk, rs). rs = [] \<or> kind_healthy env c name ns gk rs) rules"
    by auto
  with one have "errs = []" by (auto intro: judge_kind_errs)
  with judge_kind_healthy [of env c name ns gk rs vs v1] one rest x show ?case by auto
qed simp

lemma unhealthy_kinds_empty:
  "sort (fold add_new (map f (filter (\<lambda>v. \<not> rv_Healthy v) vs)) []) = [] \<longleftrightarrow> list_all rv_Healthy vs"
proof -
  have "set (sort (fold add_new (map f (filter (\<lambda>v. \<not> rv_Healthy v) vs)) [])) = f ` {v \<in> set vs. \<not> rv_Healthy v}"
    by (simp add: set_fold_add_new)
  then have "sort (fold add_new (map f (filter (\<lambda>v. \<not> rv_Healthy v) vs)) []) = [] \<longleftrightarrow> f ` {v \<in> set vs. \<not> rv_Healthy v} = {}"
    by (metis set_empty)
  then show ?thesis by (auto simp: list_all_iff)
qed


section \<open>Conditions and messages\<close>

lemma verifier_conditions:
  assumes "verifyHelmServiceOnCluster env c rules name ns = Inr (st, conds)"
  shows "distinct (map cond_Type conds)"
    and "c' \<in> set conds \<Longrightarrow> has_prefix serviceHealthConditionPrefix (cond_Type c') \<and> cond_Status c' = ConditionFalse"
proof -
  obtain vs errs where cv: "collectVerdicts env c rules name ns = (vs, errs)"
    by (cases "collectVerdicts env c rules name ns")
  let ?u = "filter (\<lambda>v. \<not> rv_Healthy v) vs"
  let ?k = "sort (fold add_new (map (\<lambda>v. gvk_Kind (rv_GVK v)) ?u) [])"
  have conds: "conds = map (kind_condition ?u) ?k"
    using assms by (auto simp: verifyHelmServiceOnCluster_def cv Let_def split: if_splits)
  have "distinct ?k" by (simp add: distinct_fold_add_new)
  then show "distinct (map cond_Type conds)"
    by (simp add: conds comp_def kind_condition_def Let_def distinct_map inj_on_def)
  have pre: "has_prefix p (p @ q)" for p q by (induction p) auto
  show "c' \<in> set conds \<Longrightarrow> has_prefix serviceHealthConditionPrefix (cond_Type c') \<and> cond_Status c' = ConditionFalse"
    by (auto simp: conds kind_condition_def Let_def pre)
qed

lemma find_filter:
  "find p (filter q xs) = find (\<lambda>x. q x \<and> p x) xs"
  by (induction xs) auto

lemma find_condition_fold:
  assumes "sets_condition setc" and "distinct (map cond_Type new)"
  shows "find_condition (fold (\<lambda>c cs. setc cs c) new cs) t
    = (case find_condition new t of Some c \<Rightarrow> Some c | None \<Rightarrow> find_condition cs t)"
  using assms(2)
proof (induction new arbitrary: cs)
  case (Cons c new)
  have set: "find_condition (setc cs c) t = (if t = cond_Type c then Some c else find_condition cs t)"
    using assms(1) by (simp add: sets_condition_def)
  have none: "find_condition new t = None" if "t = cond_Type c"
    using Cons.prems that by (auto simp: find_condition_def find_None_iff image_iff)
  show ?case
    using Cons.IH [of "setc cs c"] Cons.prems set none
    by (auto simp: find_condition_def split: option.splits)
qed (simp add: find_condition_def)

text \<open>After a round of the verifier, the conditions it owns (those whose type starts with
  ServiceHealth) are exactly the ones of this round, so a kind that recovered has none; every other
  condition of the service is as it was. The types of a round are distinct, as the schema of the
  list demands.\<close>
theorem verify_conditions_replaced:
  assumes "sets_condition setc" and "verifyHelmServiceOnCluster env c rules name ns = Inr (st, conds)"
  shows "find_condition (applyVerifyConditions setc conds old) t =
    (if has_prefix serviceHealthConditionPrefix t then find_condition conds t else find_condition old t)
    \<and> distinct (map cond_Type conds)"
proof -
  note vc = verifier_conditions [OF assms(2)]
  have new: "find_condition conds t = None" if "\<not> has_prefix serviceHealthConditionPrefix t"
    using vc(2) that by (auto simp: find_condition_def find_None_iff)
  have kept: "find_condition (filter (\<lambda>c. \<not> has_prefix serviceHealthConditionPrefix (cond_Type c)
        \<or> cond_Type c \<in> cond_Type ` set conds) old) t
      = (if has_prefix serviceHealthConditionPrefix t \<and> t \<notin> cond_Type ` set conds then None else find_condition old t)"
    by (induction old) (auto simp: find_condition_def)
  have mem: "find_condition conds t = None \<longleftrightarrow> t \<notin> cond_Type ` set conds"
    by (auto simp: find_condition_def find_None_iff)
  show ?thesis
    unfolding applyVerifyConditions_def find_condition_fold [OF assms(1) vc(1)] kept
    using new mem vc(1) by (auto split: option.splits)
qed

text \<open>The texts the verifier writes are bounded: the message about rules that could not be loaded has
  at most 20 KiB and an ellipsis, however many rules are broken and however long their errors are,
  which is below the 32 KiB the schema allows; the reason of one object has at most 500 bytes and
  an ellipsis.\<close>
theorem verifier_messages_bounded:
  "length (load_error_message render loadErrs) \<le> 20 * 1024 + 3
   \<and> 20 * 1024 + 3 < (32 * 1024 :: nat)
   \<and> length (truncateReason reason) \<le> 503"
  by (simp add: load_error_message_def truncateReason_def Let_def ellipsis_def
      maxRuleLoadErrorConditionMessageBytes_def maxVerdictReasonBytes_def)

section \<open>Staleness of the configuration cache\<close>

lemma sweep_fresh:
  "sweepClusterConfigCache now cache k = Some e \<Longrightarrow> now - clusterConfigCacheTTL \<le> cce_writtenAt e \<and> cache k = Some e"
  by (auto simp: sweepClusterConfigCache_def split: option.splits if_splits)

lemma found_configuration_fresh:
  assumes "findOwnedClusterConfiguration rd now ns uid (sweepClusterConfigCache now cache) = (Inr cc, cache')"
  shows "\<exists>e. cache' (ns, uid) = Some e \<and> cce_cc e = cc \<and> now - clusterConfigCacheTTL \<le> cce_writtenAt e"
  using assms sweep_fresh [of now cache "(ns, uid)"]
  by (auto simp: findOwnedClusterConfiguration_def Let_def clusterConfigCacheTTL_def split: option.splits sum.splits)

end
