(* ===== verification/SveltosProfile.thy ===== *)
theory SveltosProfile
  imports SveltosState "HOL-Library.Word"
begin

text \<open>
  How the Sveltos adapter builds a Profile from a ServiceSet: charts, kustomizations and policies of
  its services, the options of Helm, the tier, and the plan of writing the Profile
  (\<^verbatim>\<open>internal/controller/adapters/sveltos/serviceset_controller.go\<close>). The objects of Flux and Sveltos
  are records with the fields the code uses; their reads (\<open>profile_reads\<close>), the parser of versions
  and the decoder of the configuration are parameters. Building a Profile also extends the status of
  the ServiceSet, which is passed along. Reading a status that is nil panics; that is the error
  \<open>NilSourceStatus\<close>.
\<close>

section \<open>Templates and charts\<close>

record SourceSpec =
  sps_DeploymentType :: string
  sps_Path :: string

text \<open>A ServiceTemplate with what the adapter reads beyond the fields the pipeline reads.\<close>

record AdapterTemplate = ServiceTemplate +
  at_Name :: string
  at_Namespace :: string
  at_HelmOptions :: "ServiceHelmOptions option"
  at_ChartSource :: "SourceSpec option"
  at_Kustomize :: "SourceSpec option"
  at_Resources :: "SourceSpec option"
  at_StatusChartRef :: "SourceReference option"
  at_SourceStatus :: "SourceReference option"

text \<open>Objects of Flux: a chart (its artifact's revision, if it has one) and the repositories.\<close>

record FluxHelmChart =
  fhc_Namespace :: string
  fhc_Chart :: string
  fhc_Version :: string
  fhc_SourceKind :: string
  fhc_SourceName :: string
  fhc_ArtifactRevision :: "string option"

record HelmRepository =
  hr_URL :: string
  hr_Type :: string
  hr_Insecure :: bool
  hr_SecretRef :: "string option"
  hr_CertSecretRef :: "string option"

record GitRepository =
  gr_SecretRef :: "string option"

text \<open>Objects of Sveltos.\<close>

record SecretReference =
  sr_Name :: string
  sr_Namespace :: string

record RegistryCredentialsConfig =
  rcc_PlainHTTP :: bool
  rcc_InsecureSkipTLSVerify :: bool
  rcc_CredentialsSecretRef :: "SecretReference option"
  rcc_CASecretRef :: "SecretReference option"

record ValueFrom =
  vfr_Kind :: string
  vfr_Name :: string
  vfr_Namespace :: string

record HelmOptions =
  hopt_SkipSchemaValidation :: bool
  hopt_SkipCRDs :: bool
  hopt_Wait :: bool
  hopt_WaitForJobs :: bool
  hopt_Timeout :: "int option"
  hopt_DisableHooks :: bool
  hopt_DisableOpenAPIValidation :: bool
  hopt_Atomic :: bool
  hopt_DependencyUpdate :: bool
  hopt_Labels :: "(string \<times> string) list"
  hopt_EnableClientCache :: bool
  hopt_Description :: string
  hopt_InstallOptions :: json
  hopt_UpgradeOptions :: json
  hopt_UninstallOptions :: json

record SveltosHelmChart =
  shc_RepositoryURL :: string
  shc_RepositoryName :: string
  shc_ChartName :: string
  shc_ChartVersion :: string
  shc_ReleaseName :: string
  shc_ReleaseNamespace :: string
  shc_Values :: string
  shc_ValuesFrom :: "ValueFrom list"
  shc_HelmChartAction :: string
  shc_RegistryCredentialsConfig :: "RegistryCredentialsConfig option"
  shc_Options :: "HelmOptions option"

record KustomizationRef =
  kr_Namespace :: string
  kr_Name :: string
  kr_Kind :: string
  kr_Path :: string
  kr_TargetNamespace :: string
  kr_DeploymentType :: string
  kr_ValuesFrom :: "ValueFrom list"

record PolicyRef =
  pol_Namespace :: string
  pol_Name :: string
  pol_Kind :: string
  pol_Path :: string
  pol_DeploymentType :: string

record TemplateResourceRef =
  trr_Resource :: ObjectReference
  trr_Identifier :: string

record Patch =
  pt_Target :: "json option"
  pt_Patch :: string

record ProfileSpec =
  prs_ClusterRefs :: "ObjectReference list"
  prs_Tier :: "32 word"
  prs_StopMatchingBehavior :: string
  prs_SyncMode :: string
  prs_ContinueOnConflict :: bool
  prs_ContinueOnError :: bool
  prs_Reloader :: bool
  prs_MaxConsecutiveFailures :: "nat option"
  prs_TemplateResourceRefs :: "TemplateResourceRef list"
  prs_PolicyRefs :: "PolicyRef list"
  prs_DriftExclusions :: "json list"
  prs_Patches :: "Patch list"
  prs_PatchesFrom :: "ValueFrom list"
  prs_HelmCharts :: "SveltosHelmChart list"
  prs_KustomizationRefs :: "KustomizationRef list"

section \<open>Options of Helm\<close>

text \<open>A pointer field of the source replaces the one of the destination unless it is nil.\<close>

definition or_else :: "'x option \<Rightarrow> 'x option \<Rightarrow> 'x option" where
  "or_else src dst = (case src of None \<Rightarrow> dst | Some x \<Rightarrow> Some x)"

definition merge_labels ::
  "(string \<times> string) list option \<Rightarrow> (string \<times> string) list option \<Rightarrow> (string \<times> string) list option" where
  "merge_labels src dst =
     (case src of
        None \<Rightarrow> dst
      | Some srcMap \<Rightarrow>
          (case dst of
             None \<Rightarrow> Some srcMap
           | Some dstMap \<Rightarrow> Some (fold (\<lambda>(k, v) m. AList.update k v m) srcMap dstMap)))"

definition mergeHelmOptions :: "ServiceHelmOptions option \<Rightarrow> ServiceHelmOptions option \<Rightarrow> ServiceHelmOptions option" where
  "mergeHelmOptions src dst =
     (case (src, dst) of
        (Some s, Some d) \<Rightarrow>
          Some \<lparr>ho_EnableClientCache = or_else (ho_EnableClientCache s) (ho_EnableClientCache d),
                ho_DependencyUpdate = or_else (ho_DependencyUpdate s) (ho_DependencyUpdate d),
                ho_Wait = or_else (ho_Wait s) (ho_Wait d),
                ho_WaitForJobs = or_else (ho_WaitForJobs s) (ho_WaitForJobs d),
                ho_CreateNamespace = or_else (ho_CreateNamespace s) (ho_CreateNamespace d),
                ho_SkipCRDs = or_else (ho_SkipCRDs s) (ho_SkipCRDs d),
                ho_Atomic = or_else (ho_Atomic s) (ho_Atomic d),
                ho_DisableHooks = or_else (ho_DisableHooks s) (ho_DisableHooks d),
                ho_DisableOpenAPIValidation = or_else (ho_DisableOpenAPIValidation s) (ho_DisableOpenAPIValidation d),
                ho_Timeout = or_else (ho_Timeout s) (ho_Timeout d),
                ho_SkipSchemaValidation = or_else (ho_SkipSchemaValidation s) (ho_SkipSchemaValidation d),
                ho_Replace = or_else (ho_Replace s) (ho_Replace d),
                ho_Labels = merge_labels (ho_Labels s) (ho_Labels d),
                ho_UninstallOptions = or_else (ho_UninstallOptions s) (ho_UninstallOptions d),
                ho_UpgradeOptions = or_else (ho_UpgradeOptions s) (ho_UpgradeOptions d),
                ho_InstallOptions = or_else (ho_InstallOptions s) (ho_InstallOptions d),
                ho_Description = (if ho_Description s \<noteq> [] then ho_Description s else ho_Description d)\<rparr>
      | _ \<Rightarrow> dst)"

text \<open>A struct of Sveltos that is passed through is an object of its fields; \<open>JNull\<close> is the zero value.\<close>

fun set_field :: "string \<Rightarrow> json \<Rightarrow> json \<Rightarrow> json" where
  "set_field k v (JObj al) = JObj (AList.update k v al)"
| "set_field k v _ = JObj [(k, v)]"

definition deref_or :: "'x \<Rightarrow> 'x option \<Rightarrow> 'x" where
  "deref_or d x = (case x of None \<Rightarrow> d | Some y \<Rightarrow> y)"

definition convertHelmOptions :: "ServiceHelmOptions option \<Rightarrow> HelmOptions option" where
  "convertHelmOptions options =
     map_option (\<lambda>o1.
       let install0 = deref_or JNull (ho_InstallOptions o1);
           install1 = (case ho_CreateNamespace o1 of None \<Rightarrow> install0 | Some b \<Rightarrow> set_field ''createNamespace'' (JBool b) install0);
           install2 = (case ho_Replace o1 of None \<Rightarrow> install1 | Some b \<Rightarrow> set_field ''replace'' (JBool b) install1);
           install3 = (case ho_DisableHooks o1 of None \<Rightarrow> install2 | Some b \<Rightarrow> set_field ''disableHooks'' (JBool b) install2)
       in \<lparr>hopt_SkipSchemaValidation = deref_or False (ho_SkipSchemaValidation o1),
           hopt_SkipCRDs = deref_or False (ho_SkipCRDs o1), hopt_Wait = deref_or False (ho_Wait o1),
           hopt_WaitForJobs = deref_or False (ho_WaitForJobs o1), hopt_Timeout = ho_Timeout o1,
           hopt_DisableHooks = deref_or False (ho_DisableHooks o1),
           hopt_DisableOpenAPIValidation = deref_or False (ho_DisableOpenAPIValidation o1),
           hopt_Atomic = deref_or False (ho_Atomic o1),
           hopt_DependencyUpdate = deref_or False (ho_DependencyUpdate o1),
           hopt_Labels = deref_or [] (ho_Labels o1),
           hopt_EnableClientCache = deref_or False (ho_EnableClientCache o1),
           hopt_Description = ho_Description o1, hopt_InstallOptions = install3,
           hopt_UpgradeOptions = deref_or JNull (ho_UpgradeOptions o1),
           hopt_UninstallOptions = deref_or JNull (ho_UninstallOptions o1)\<rparr>) options"

text \<open>The options of a chart: those of the template with those of the service over them.\<close>

definition chart_options :: "AdapterTemplate \<Rightarrow> ServiceWithValues \<Rightarrow> ServiceHelmOptions option" where
  "chart_options template svc =
     mergeHelmOptions (swv_HelmOptions svc)
       (if at_HelmOptions template = None then swv_HelmOptions svc else at_HelmOptions template)"

definition convertValuesFrom :: "ValuesFrom list \<Rightarrow> string \<Rightarrow> ValueFrom list" where
  "convertValuesFrom src namespace =
     map (\<lambda>item. \<lparr>vfr_Kind = vf_Kind item, vfr_Name = vf_Name item, vfr_Namespace = namespace\<rparr>) src"

definition generateRegistryCredentialsConfig ::
  "string \<Rightarrow> bool \<Rightarrow> string option \<Rightarrow> string option \<Rightarrow> RegistryCredentialsConfig" where
  "generateRegistryCredentialsConfig namespace insecure secretRef certSecretRef =
     \<lparr>rcc_PlainHTTP = insecure, rcc_InsecureSkipTLSVerify = False,
      rcc_CredentialsSecretRef = map_option (\<lambda>n. \<lparr>sr_Name = n, sr_Namespace = namespace\<rparr>) secretRef,
      rcc_CASecretRef = map_option (\<lambda>n. \<lparr>sr_Name = n, sr_Namespace = namespace\<rparr>) certSecretRef\<rparr>"

section \<open>Charts\<close>

datatype profile_error =
    GetTemplateFailed ObjectKey api_error
  | TemplatesInvalid "ObjectKey list"
  | NoChartDefined ObjectKey
  | TemplateStatusNotUpdated ObjectKey
  | GetChartFailed ObjectKey api_error
  | ChartVersionUnknown string ObjectKey
  | GetRepositoryFailed ObjectKey api_error
  | UnsupportedSourceKind ObjectKey
  | NilSourceStatus ObjectKey

record profile_reads =
  prd_getTemplate :: "ObjectKey \<Rightarrow> api_error + AdapterTemplate"
  prd_getHelmChart :: "ObjectKey \<Rightarrow> api_error + FluxHelmChart"
  prd_getHelmRepository :: "ObjectKey \<Rightarrow> api_error + HelmRepository"
  prd_getGitRepository :: "ObjectKey \<Rightarrow> api_error + GitRepository"
  prd_isVersion :: "string \<Rightarrow> bool"

abbreviation at_key :: "AdapterTemplate \<Rightarrow> ObjectKey" where
  "at_key t \<equiv> ObjectKey (at_Namespace t) (at_Name t)"

definition chart_version :: "profile_reads \<Rightarrow> FluxHelmChart \<Rightarrow> string" where
  "chart_version rd chart =
     (case fhc_ArtifactRevision chart of
        Some revision \<Rightarrow> if revision \<noteq> [] \<and> prd_isVersion rd revision then revision else fhc_Version chart
      | None \<Rightarrow> fhc_Version chart)"

text \<open>The switch on the kind of the source: URL, name of the chart and credentials.\<close>

definition chart_source ::
  "profile_reads \<Rightarrow> string \<Rightarrow> FluxHelmChart \<Rightarrow> profile_error + string \<times> string \<times> RegistryCredentialsConfig option" where
  "chart_source rd namespace chart =
     (let repoRef = ObjectKey (fhc_Namespace chart) (fhc_SourceName chart); chartName = fhc_Chart chart in
      if fhc_SourceKind chart = ''HelmRepository'' then
        (case prd_getHelmRepository rd repoRef of
           Inl e \<Rightarrow> Inl (GetRepositoryFailed repoRef e)
         | Inr repo \<Rightarrow>
             Inr (hr_URL repo,
                  if hr_Type repo = ''oci'' then chartName else chartName @ ''/'' @ chartName,
                  if hr_Insecure repo \<or> hr_SecretRef repo \<noteq> None \<or> hr_CertSecretRef repo \<noteq> None
                  then Some (generateRegistryCredentialsConfig namespace (hr_Insecure repo) (hr_SecretRef repo) (hr_CertSecretRef repo))
                  else None))
      else if fhc_SourceKind chart = ''GitRepository'' then
        (case prd_getGitRepository rd repoRef of
           Inl e \<Rightarrow> Inl (GetRepositoryFailed repoRef e)
         | Inr repo \<Rightarrow>
             Inr (''gitrepository://'' @ fhc_Namespace chart @ ''/'' @ fhc_SourceName chart @ ''/'' @ chartName,
                  chartName, Some (generateRegistryCredentialsConfig namespace False (gr_SecretRef repo) None)))
      else Inl (UnsupportedSourceKind repoRef))"

definition helmChartFromSpecOrRef ::
  "profile_reads \<Rightarrow> string \<Rightarrow> ServiceWithValues \<Rightarrow> AdapterTemplate \<Rightarrow> profile_error + SveltosHelmChart" where
  "helmChartFromSpecOrRef rd namespace svc template =
     (case at_StatusChartRef template of
        None \<Rightarrow> Inl (TemplateStatusNotUpdated (at_key template))
      | Some ref \<Rightarrow>
          let chartRef = ObjectKey (src_Namespace ref) (src_Name ref) in
          (case prd_getHelmChart rd chartRef of
             Inl e \<Rightarrow> Inl (GetChartFailed chartRef e)
           | Inr chart \<Rightarrow>
               let chartVersion = chart_version rd chart in
               if \<not> prd_isVersion rd chartVersion then Inl (ChartVersionUnknown chartVersion chartRef)
               else bindE (chart_source rd namespace chart) (\<lambda>(repoURL, repoChartName, credentials).
                 Inr \<lparr>shc_RepositoryURL = repoURL, shc_RepositoryName = fhc_Chart chart,
                      shc_ChartName = repoChartName, shc_ChartVersion = chartVersion,
                      shc_ReleaseName = swv_Name svc,
                      shc_ReleaseNamespace = (if swv_Namespace svc \<noteq> [] then swv_Namespace svc else swv_Name svc),
                      shc_Values = swv_Values svc,
                      shc_ValuesFrom = convertValuesFrom (swv_ValuesFrom svc) namespace,
                      shc_HelmChartAction = [], shc_RegistryCredentialsConfig = credentials,
                      shc_Options = convertHelmOptions (chart_options template svc)\<rparr>)))"

definition trim_prefix :: "string \<Rightarrow> string \<Rightarrow> string" where
  "trim_prefix p s = (if has_prefix p s then drop (length p) s else s)"

definition helmChartFromFluxSource ::
  "ServiceWithValues \<Rightarrow> AdapterTemplate \<Rightarrow> SourceSpec \<Rightarrow> string \<Rightarrow> profile_error + SveltosHelmChart" where
  "helmChartFromFluxSource svc template chartSource namespace =
     (case at_SourceStatus template of
        None \<Rightarrow> Inl (TemplateStatusNotUpdated (at_key template))
      | Some status \<Rightarrow>
          let sanitizedPath = trim_prefix ''/'' (trim_prefix ''.'' (sps_Path chartSource));
              url = src_Kind status @ ''://'' @ src_Namespace status @ ''/'' @ src_Name status @ ''/'' @ sanitizedPath
          in Inr \<lparr>shc_RepositoryURL = url, shc_RepositoryName = [], shc_ChartName = [], shc_ChartVersion = [],
                  shc_ReleaseName = swv_Name svc, shc_ReleaseNamespace = swv_Namespace svc,
                  shc_Values = swv_Values svc, shc_ValuesFrom = convertValuesFrom (swv_ValuesFrom svc) namespace,
                  shc_HelmChartAction = [], shc_RegistryCredentialsConfig = None,
                  shc_Options = convertHelmOptions (chart_options template svc)\<rparr>)"

section \<open>References of the services\<close>

text \<open>The entry a service without status gets; Helm services start without version.\<close>

definition seed_status ::
  "int \<Rightarrow> string \<Rightarrow> string \<Rightarrow> ServiceWithValues \<Rightarrow> TimedServiceState list \<Rightarrow> TimedServiceState list" where
  "seed_status now type version svc statuses =
     (if contains_func (\<lambda>s. ss_Name s = swv_Name svc \<and> ss_Namespace s = swv_Namespace svc) statuses then statuses
      else statuses @ [\<lparr>ss_Type = type, ss_Version = version, ss_Name = swv_Name svc,
                        ss_Namespace = swv_Namespace svc, ss_Template = swv_Template svc,
                        ss_State = ServiceStateProvisioning, ss_FailureMessage = [], ss_LastDeployedHash = [],
                        ss_Conditions = [], ss_LastStateTransitionTime = Some now\<rparr>])"

text \<open>
  The three functions share their loop: read the template of each service, skip it when it is of
  another type, note an invalid one, build the reference, seed the status. An error ends the loop with
  the status as it is; invalid templates are reported at the end.
\<close>

fun build_refs ::
  "profile_reads \<Rightarrow> int \<Rightarrow> string \<Rightarrow> string \<Rightarrow> (ServiceWithValues \<Rightarrow> string)
     \<Rightarrow> (ServiceWithValues \<Rightarrow> AdapterTemplate \<Rightarrow> profile_error + 'r option)
     \<Rightarrow> ServiceWithValues list \<Rightarrow> 'r list \<times> ObjectKey list \<times> TimedServiceState list
     \<Rightarrow> (profile_error + 'r list) \<times> TimedServiceState list" where
  "build_refs rd now namespace type version build [] (refs, invalid, statuses) =
     (if invalid = [] then Inr refs else Inl (TemplatesInvalid invalid), statuses)"
| "build_refs rd now namespace type version build (svc # svcs) (refs, invalid, statuses) =
     (case prd_getTemplate rd (ObjectKey namespace (swv_Template svc)) of
        Inl e \<Rightarrow> (Inl (GetTemplateFailed (ObjectKey namespace (swv_Template svc)) e), statuses)
      | Inr tmpl \<Rightarrow>
          (case build svc tmpl of
             Inl e \<Rightarrow> (Inl e, statuses)
           | Inr None \<Rightarrow> build_refs rd now namespace type version build svcs (refs, invalid, statuses)
           | Inr (Some ref) \<Rightarrow>
               build_refs rd now namespace type version build svcs
                 (refs @ [ref], if st_Valid tmpl then invalid else invalid @ [at_key tmpl],
                  seed_status now type (version svc) svc statuses)))"

definition helm_chart_of ::
  "profile_reads \<Rightarrow> string \<Rightarrow> ServiceWithValues \<Rightarrow> AdapterTemplate \<Rightarrow> profile_error + SveltosHelmChart option" where
  "helm_chart_of rd namespace svc tmpl =
     (case st_Helm tmpl of
        None \<Rightarrow> Inr None
      | Some helm \<Rightarrow>
          bindE (if helm_ChartRef helm \<noteq> None \<or> helm_ChartSpec helm \<noteq> None
                 then helmChartFromSpecOrRef rd namespace svc tmpl
                 else (case at_ChartSource tmpl of
                         Some chartSource \<Rightarrow> helmChartFromFluxSource svc tmpl chartSource namespace
                       | None \<Rightarrow> Inl (NoChartDefined (at_key tmpl))))
            (\<lambda>helmChart. Inr (Some (if swv_HelmAction svc \<noteq> []
                                    then helmChart\<lparr>shc_HelmChartAction := swv_HelmAction svc\<rparr> else helmChart))))"

definition kustomization_of :: "string \<Rightarrow> ServiceWithValues \<Rightarrow> AdapterTemplate \<Rightarrow> profile_error + KustomizationRef option" where
  "kustomization_of namespace svc tmpl =
     (case at_Kustomize tmpl of
        None \<Rightarrow> Inr None
      | Some kustomize \<Rightarrow>
          (case at_SourceStatus tmpl of
             None \<Rightarrow> Inl (NilSourceStatus (at_key tmpl))
           | Some status \<Rightarrow>
               Inr (Some \<lparr>kr_Namespace = src_Namespace status, kr_Name = src_Name status, kr_Kind = src_Kind status,
                          kr_Path = sps_Path kustomize, kr_TargetNamespace = swv_Namespace svc,
                          kr_DeploymentType = sps_DeploymentType kustomize,
                          kr_ValuesFrom = convertValuesFrom (swv_ValuesFrom svc) namespace\<rparr>)))"

definition policy_of :: "ServiceWithValues \<Rightarrow> AdapterTemplate \<Rightarrow> profile_error + PolicyRef option" where
  "policy_of svc tmpl =
     (case at_Resources tmpl of
        None \<Rightarrow> Inr None
      | Some resources \<Rightarrow>
          (case at_SourceStatus tmpl of
             None \<Rightarrow> Inl (NilSourceStatus (at_key tmpl))
           | Some status \<Rightarrow>
               Inr (Some \<lparr>pol_Namespace = src_Namespace status, pol_Name = src_Name status, pol_Kind = src_Kind status,
                          pol_Path = sps_Path resources, pol_DeploymentType = sps_DeploymentType resources\<rparr>)))"

definition getHelmCharts ::
  "profile_reads \<Rightarrow> int \<Rightarrow> string \<Rightarrow> ServiceWithValues list \<Rightarrow> TimedServiceState list
     \<Rightarrow> (profile_error + SveltosHelmChart list) \<times> TimedServiceState list" where
  "getHelmCharts rd now namespace services statuses =
     build_refs rd now namespace ServiceTypeHelm (\<lambda>_. []) (helm_chart_of rd namespace) services ([], [], statuses)"

definition getKustomizationRefs ::
  "profile_reads \<Rightarrow> int \<Rightarrow> string \<Rightarrow> ServiceWithValues list \<Rightarrow> TimedServiceState list
     \<Rightarrow> (profile_error + KustomizationRef list) \<times> TimedServiceState list" where
  "getKustomizationRefs rd now namespace services statuses =
     build_refs rd now namespace ServiceTypeKustomize swv_Version (kustomization_of namespace) services ([], [], statuses)"

definition getPolicyRefs ::
  "profile_reads \<Rightarrow> int \<Rightarrow> string \<Rightarrow> ServiceWithValues list \<Rightarrow> TimedServiceState list
     \<Rightarrow> (profile_error + PolicyRef list) \<times> TimedServiceState list" where
  "getPolicyRefs rd now namespace services statuses =
     build_refs rd now namespace ServiceTypeResource swv_Version policy_of services ([], [], statuses)"

section \<open>The configuration\<close>

definition defaultTier :: "32 word" where "defaultTier = 100"
definition MaxInt32 :: "32 word" where "MaxInt32 = 0x7FFFFFFF"

definition sveltosDriftIgnorePatch :: string where
  "sveltosDriftIgnorePatch = ''- op: add'' @ [CHR 0x0A]
     @ ''  path: /metadata/annotations/projectsveltos.io~1driftDetectionIgnore'' @ [CHR 0x0A] @ ''  value: ok''"

definition priorityToTier :: "32 word \<Rightarrow> 32 word option" where
  "priorityToTier priority =
     (let mini = 1; maxi = MaxInt32 - mini in
      if mini \<le>s priority \<and> priority \<le>s maxi then Some (MaxInt32 - priority) else None)"

record profileConfig =
  pc_Priority :: "32 word option"
  pc_MaxConsecutiveFailures :: "nat option"
  pc_DriftIgnore :: "json list"
  pc_StopMatchingBehavior :: string
  pc_SyncMode :: string
  pc_TemplateResourceRefs :: "TemplateResourceRef list"
  pc_PolicyRefs :: "PolicyRef list"
  pc_DriftExclusions :: "json list"
  pc_Patches :: "Patch list"
  pc_PatchesFrom :: "ValueFrom list"
  pc_ContinueOnError :: bool
  pc_Reloader :: bool
  pc_StopOnConflict :: bool

definition zero_spec :: ProfileSpec where
  "zero_spec =
     \<lparr>prs_ClusterRefs = [], prs_Tier = 0, prs_StopMatchingBehavior = [], prs_SyncMode = [],
      prs_ContinueOnConflict = False, prs_ContinueOnError = False, prs_Reloader = False,
      prs_MaxConsecutiveFailures = None, prs_TemplateResourceRefs = [], prs_PolicyRefs = [],
      prs_DriftExclusions = [], prs_Patches = [], prs_PatchesFrom = [], prs_HelmCharts = [], prs_KustomizationRefs = []\<rparr>"

datatype config_error = UnmarshalConfigFailed string | InvalidPriority "32 word"

text \<open>\<open>buildProfileSpec\<close>; without configuration the code goes on with the zero value.\<close>

definition buildProfileSpec :: "(json \<Rightarrow> string + profileConfig) \<Rightarrow> json option \<Rightarrow> config_error + ProfileSpec" where
  "buildProfileSpec unmarshal config =
     (case config of
        None \<Rightarrow> Inr zero_spec
      | Some raw \<Rightarrow>
          (case unmarshal raw of
             Inl e \<Rightarrow> Inl (UnmarshalConfigFailed e)
           | Inr params \<Rightarrow>
               let priority = deref_or defaultTier (pc_Priority params) in
               (case priorityToTier priority of
                  None \<Rightarrow> Inl (InvalidPriority priority)
                | Some tier \<Rightarrow>
                    Inr (zero_spec\<lparr>prs_Tier := tier,
                      prs_StopMatchingBehavior :=
                        (if pc_StopMatchingBehavior params = ''LeavePolicies'' then ''LeavePolicies'' else ''WithdrawPolicies''),
                      prs_SyncMode := pc_SyncMode params,
                      prs_ContinueOnConflict := \<not> pc_StopOnConflict params,
                      prs_ContinueOnError := pc_ContinueOnError params,
                      prs_Reloader := pc_Reloader params,
                      prs_TemplateResourceRefs := pc_TemplateResourceRefs params,
                      prs_PolicyRefs := pc_PolicyRefs params,
                      prs_Patches := pc_Patches params
                        @ map (\<lambda>target. \<lparr>pt_Target = Some target, pt_Patch = sveltosDriftIgnorePatch\<rparr>) (pc_DriftIgnore params),
                      prs_PatchesFrom := pc_PatchesFrom params,
                      prs_DriftExclusions := pc_DriftExclusions params,
                      prs_MaxConsecutiveFailures := pc_MaxConsecutiveFailures params\<rparr>))))"

definition applyProfileSpecDefaults :: "ProfileSpec \<Rightarrow> ProfileSpec" where
  "applyProfileSpecDefaults spec =
     spec\<lparr>prs_SyncMode := (if prs_SyncMode spec = [] then ''Continuous'' else prs_SyncMode spec),
          prs_Tier := (if prs_Tier spec = 0 then defaultTier else prs_Tier spec),
          prs_StopMatchingBehavior :=
            (if prs_StopMatchingBehavior spec = [] then ''WithdrawPolicies'' else prs_StopMatchingBehavior spec),
          prs_PolicyRefs :=
            map (\<lambda>r. if pol_DeploymentType r = [] then r\<lparr>pol_DeploymentType := ''Remote''\<rparr> else r) (prs_PolicyRefs spec),
          prs_HelmCharts :=
            map (\<lambda>c. if shc_HelmChartAction c = [] then c\<lparr>shc_HelmChartAction := ''Install''\<rparr> else c) (prs_HelmCharts spec),
          prs_KustomizationRefs :=
            map (\<lambda>r. if kr_DeploymentType r = [] then r\<lparr>kr_DeploymentType := ''Remote''\<rparr> else r) (prs_KustomizationRefs spec)\<rparr>"

section \<open>Credentials\<close>

text \<open>\<open>strings.EqualFold\<close> on the names of kinds, which are ASCII.\<close>

definition fold_case :: "char \<Rightarrow> char" where
  "fold_case c = (if CHR ''A'' \<le> c \<and> c \<le> CHR ''Z'' then char_of (of_char c + 32 :: nat) else c)"

definition propagates :: "bool option \<Rightarrow> ObjectReference option \<Rightarrow> bool" where
  "propagates propagateCredentials identityRef \<longleftrightarrow> propagateCredentials = Some True \<and> identityRef \<noteq> None"

definition projectTemplateResourceRefs :: "bool option \<Rightarrow> ObjectReference option \<Rightarrow> TemplateResourceRef list" where
  "projectTemplateResourceRefs propagateCredentials identityRef =
     (if \<not> propagates propagateCredentials identityRef then []
      else let ref = the identityRef in
        [\<lparr>trr_Resource = ref, trr_Identifier = ''InfrastructureProviderIdentity''\<rparr>]
        @ (if map fold_case (ref_Kind ref) \<noteq> map fold_case ''Secret''
           then [\<lparr>trr_Resource = \<lparr>ref_Kind = ''Secret'', ref_Name = ref_Name ref @ ''-secret'',
                                  ref_Namespace = ref_Namespace ref, ref_APIVersion = ''v1''\<rparr>,
                  trr_Identifier = ''InfrastructureProviderIdentitySecret''\<rparr>]
           else []))"

definition projectPolicyRefs :: "bool option \<Rightarrow> ObjectReference option \<Rightarrow> PolicyRef list" where
  "projectPolicyRefs propagateCredentials identityRef =
     (if \<not> propagates propagateCredentials identityRef then []
      else let ref = the identityRef in
        [\<lparr>pol_Namespace = ref_Namespace ref, pol_Name = ref_Name ref @ ''-resource-template'',
          pol_Kind = ''ConfigMap'', pol_Path = [], pol_DeploymentType = ''Remote''\<rparr>])"

section \<open>The specification of a Profile\<close>

record ProviderState =
  prst_Ready :: bool
  prst_Suspended :: bool

record AdapterStatus =
  ast_Conditions :: "Condition list"
  ast_Cluster :: "ObjectReference option"
  ast_Services :: "TimedServiceState list"
  ast_Deployed :: bool
  ast_Provider :: ProviderState

text \<open>A ServiceSet with what the adapter reads and writes.\<close>

record AdapterServiceSet =
  ass_Name :: string
  ass_Namespace :: string
  ass_UID :: string
  ass_Generation :: int
  ass_Deleting :: bool
  ass_Labels :: "(string \<times> string) list"
  ass_Annotations :: "(string \<times> string) list"
  ass_Finalizers :: "string list"
  ass_OwnerReferences :: "OwnerReference list"
  ass_Spec :: ServiceSetSpec
  ass_Status :: AdapterStatus

abbreviation ass_key :: "AdapterServiceSet \<Rightarrow> ObjectKey" where
  "ass_key s \<equiv> ObjectKey (ass_Namespace s) (ass_Name s)"

abbreviation ass_services :: "AdapterServiceSet \<Rightarrow> ServiceWithValues list" where
  "ass_services s \<equiv> sss_Services (ass_Spec s)"

abbreviation ass_states :: "AdapterServiceSet \<Rightarrow> TimedServiceState list" where
  "ass_states s \<equiv> ast_Services (ass_Status s)"

abbreviation ass_self_managed :: "AdapterServiceSet \<Rightarrow> bool" where
  "ass_self_managed s \<equiv> smpc_SelfManagement (sss_Provider (ass_Spec s))"

definition set_states :: "TimedServiceState list \<Rightarrow> AdapterServiceSet \<Rightarrow> AdapterServiceSet" where
  "set_states states s = s\<lparr>ass_Status := (ass_Status s)\<lparr>ast_Services := states\<rparr>\<rparr>"

text \<open>The reads of the cluster: of the ClusterDeployment its credential and whether credentials are
  propagated, of the Credential its region and identity; whether a cluster of CAPI or Sveltos exists.\<close>

record AdapterCredential =
  acr_Region :: string
  acr_IdentityRef :: "ObjectReference option"

record cluster_reads =
  crd_getClusterDeployment :: "ObjectKey \<Rightarrow> api_error + string \<times> bool option"
  crd_getCredential :: "ObjectKey \<Rightarrow> api_error + AdapterCredential"
  crd_getCAPICluster :: "ObjectKey \<Rightarrow> api_error option"
  crd_getSveltosCluster :: "ObjectKey \<Rightarrow> api_error option"
  crd_capiAPIVersion :: string
  crd_sveltosAPIVersion :: string

datatype spec_error =
    GetClusterDeploymentFailed api_error
  | GetCredentialFailed api_error
  | GetClusterReferenceFailed api_error
  | BuildProfileFromConfigFailed config_error
  | BuildHelmChartsFailed profile_error
  | BuildKustomizationRefsFailed profile_error
  | BuildPolicyRefsFailed profile_error

definition getClusterReference :: "cluster_reads \<Rightarrow> ObjectKey \<Rightarrow> api_error + ObjectReference" where
  "getClusterReference rd key =
     (case crd_getCAPICluster rd key of
        None \<Rightarrow> Inr \<lparr>ref_Kind = ''Cluster'', ref_Name = ok_Name key, ref_Namespace = ok_Namespace key,
                     ref_APIVersion = crd_capiAPIVersion rd\<rparr>
      | Some NotFound \<Rightarrow>
          (case crd_getSveltosCluster rd key of
             None \<Rightarrow> Inr \<lparr>ref_Kind = ''SveltosCluster'', ref_Name = ok_Name key, ref_Namespace = ok_Namespace key,
                          ref_APIVersion = crd_sveltosAPIVersion rd\<rparr>
           | Some e \<Rightarrow> Inl e)
      | Some e \<Rightarrow> Inl e)"

definition managementSveltosCluster :: string where "managementSveltosCluster = ''mgmt''"

text \<open>The cluster a Profile is for, with the references that propagate credentials to it.\<close>

definition profile_cluster ::
  "cluster_reads \<Rightarrow> AdapterServiceSet \<Rightarrow> spec_error + ObjectReference \<times> TemplateResourceRef list \<times> PolicyRef list" where
  "profile_cluster crd serviceSet =
     (if ass_self_managed serviceSet
      then Inr (\<lparr>ref_Kind = ''SveltosCluster'', ref_Name = managementSveltosCluster,
                 ref_Namespace = managementSveltosCluster, ref_APIVersion = crd_sveltosAPIVersion crd\<rparr>, [], [])
      else let key = ObjectKey (ass_Namespace serviceSet) (sss_Cluster (ass_Spec serviceSet)) in
        (case crd_getClusterDeployment crd key of
           Inl e \<Rightarrow> Inl (GetClusterDeploymentFailed e)
         | Inr (credential, propagateCredentials) \<Rightarrow>
             (case crd_getCredential crd (ObjectKey (ass_Namespace serviceSet) credential) of
                Inl e \<Rightarrow> Inl (GetCredentialFailed e)
              | Inr cred \<Rightarrow>
                  (case getClusterReference crd key of
                     Inl e \<Rightarrow> Inl (GetClusterReferenceFailed e)
                   | Inr ref \<Rightarrow>
                       if sss_MultiClusterService (ass_Spec serviceSet) = []
                       then Inr (ref, projectTemplateResourceRefs propagateCredentials (acr_IdentityRef cred),
                                 projectPolicyRefs propagateCredentials (acr_IdentityRef cred))
                       else Inr (ref, [], [])))))"

definition profileSpec ::
  "profile_reads \<Rightarrow> cluster_reads \<Rightarrow> (json \<Rightarrow> string + profileConfig) \<Rightarrow> int \<Rightarrow> AdapterServiceSet
     \<Rightarrow> (spec_error + ProfileSpec) \<times> AdapterServiceSet" where
  "profileSpec rd crd unmarshal now serviceSet =
     (case profile_cluster crd serviceSet of
        Inl e \<Rightarrow> (Inl e, serviceSet)
      | Inr (clusterRef, clusterTemplateResourceRefs, clusterPolicyRefs) \<Rightarrow>
          (case buildProfileSpec unmarshal (smpc_Config (sss_Provider (ass_Spec serviceSet))) of
             Inl e \<Rightarrow> (Inl (BuildProfileFromConfigFailed e), serviceSet)
           | Inr spec \<Rightarrow>
               let ns = ass_Namespace serviceSet; services = ass_services serviceSet in
               (case getHelmCharts rd now ns services (ass_states serviceSet) of
                  (Inl e, states) \<Rightarrow> (Inl (BuildHelmChartsFailed e), set_states states serviceSet)
                | (Inr helmCharts, states1) \<Rightarrow>
                    (case getKustomizationRefs rd now ns services states1 of
                       (Inl e, states) \<Rightarrow> (Inl (BuildKustomizationRefsFailed e), set_states states serviceSet)
                     | (Inr kustomizationRefs, states2) \<Rightarrow>
                         (case getPolicyRefs rd now ns services states2 of
                            (Inl e, states) \<Rightarrow> (Inl (BuildPolicyRefsFailed e), set_states states serviceSet)
                          | (Inr policyRefs, states3) \<Rightarrow>
                              (Inr (applyProfileSpecDefaults
                                 (spec\<lparr>prs_ClusterRefs := [clusterRef],
                                       prs_TemplateResourceRefs := prs_TemplateResourceRefs spec @ clusterTemplateResourceRefs,
                                       prs_HelmCharts := helmCharts, prs_KustomizationRefs := kustomizationRefs,
                                       prs_PolicyRefs := prs_PolicyRefs spec @ policyRefs @ clusterPolicyRefs\<rparr>)),
                               set_states states3 serviceSet))))))"

section \<open>Writing the Profile\<close>

definition ServiceSetPausedAnnotation :: string where
  "ServiceSetPausedAnnotation = ''k0rdent.mirantis.com/service-set-paused''"

text \<open>The annotation of Sveltos is a parameter.\<close>

definition handlePauseAnnotations ::
  "string \<Rightarrow> (string \<times> string) list \<Rightarrow> AdapterServiceSet \<Rightarrow> bool \<times> (string \<times> string) list" where
  "handlePauseAnnotations profilePaused annotations serviceSet =
     (let internalPaused = (map_of (ass_Annotations serviceSet) ServiceSetPausedAnnotation \<noteq> None);
          externalPaused = (map_of annotations profilePaused \<noteq> None)
      in if internalPaused = externalPaused then (False, annotations)
         else if internalPaused then (True, AList.update profilePaused ''true'' annotations)
         else (True, AList.delete profilePaused annotations))"

record SveltosProfileObject =
  spo_Annotations :: "(string \<times> string) list"
  spo_Labels :: "(string \<times> string) list"
  spo_OwnerReferences :: "OwnerReference list"
  spo_Spec :: ProfileSpec
  spo_Deleting :: bool

definition no_profile :: SveltosProfileObject where
  "no_profile = \<lparr>spo_Annotations = [], spo_Labels = [], spo_OwnerReferences = [], spo_Spec = zero_spec, spo_Deleting = False\<rparr>"

definition controller_ref :: "AdapterServiceSet \<Rightarrow> OwnerReference" where
  "controller_ref serviceSet =
     \<lparr>or_APIVersion = ''k0rdent.mirantis.com/v1beta1'', or_Kind = ''ServiceSet'',
      or_Name = ass_Name serviceSet, or_UID = ass_UID serviceSet\<rparr>"

datatype profile_write = ProfileUnchanged | ProfileCreate SveltosProfileObject | ProfileUpdate SveltosProfileObject

text \<open>What is written, given what the read returned; \<open>inMgmtCluster\<close>: the regional client is the local one.\<close>

definition createOrUpdateProfile ::
  "string \<Rightarrow> bool \<Rightarrow> AdapterServiceSet \<Rightarrow> ProfileSpec \<Rightarrow> api_error + SveltosProfileObject \<Rightarrow> api_error + profile_write" where
  "createOrUpdateProfile profilePaused inMgmtCluster serviceSet spec found =
     (let owners = (if inMgmtCluster then [controller_ref serviceSet] else []);
          annotate = (\<lambda>profile. handlePauseAnnotations profilePaused (spo_Annotations profile) serviceSet)
      in case found of
           Inl NotFound \<Rightarrow>
             Inr (ProfileCreate \<lparr>spo_Annotations = snd (annotate no_profile),
                    spo_Labels = [(''k0rdent.mirantis.com/managed'', ''true'')],
                    spo_OwnerReferences = owners, spo_Spec = spec, spo_Deleting = False\<rparr>)
         | Inl e \<Rightarrow> Inl e
         | Inr profile \<Rightarrow>
             (case annotate profile of
                (annotationsUpdated, annotations) \<Rightarrow>
                  let staleOwnerRefs = (\<not> inMgmtCluster \<and> length (spo_OwnerReferences profile) > 0) in
                  if annotationsUpdated \<or> staleOwnerRefs \<or> spo_Spec profile \<noteq> spec
                  then Inr (ProfileUpdate (profile\<lparr>spo_Annotations := annotations,
                              spo_OwnerReferences := owners, spo_Spec := spec\<rparr>))
                  else Inr ProfileUnchanged))"

definition createOrUpdateClusterProfile ::
  "string \<Rightarrow> AdapterServiceSet \<Rightarrow> ProfileSpec \<Rightarrow> api_error + SveltosProfileObject \<Rightarrow> api_error + profile_write" where
  "createOrUpdateClusterProfile profilePaused serviceSet spec found =
     (let annotate = (\<lambda>profile. handlePauseAnnotations profilePaused (spo_Annotations profile) serviceSet)
      in case found of
           Inl NotFound \<Rightarrow>
             Inr (ProfileCreate \<lparr>spo_Annotations = snd (annotate no_profile),
                    spo_Labels = [(''k0rdent.mirantis.com/managed'', ''true'')],
                    spo_OwnerReferences = [controller_ref serviceSet], spo_Spec = spec, spo_Deleting = False\<rparr>)
         | Inl e \<Rightarrow> Inl e
         | Inr profile \<Rightarrow>
             (case annotate profile of
                (annotationsUpdated, annotations) \<Rightarrow>
                  if annotationsUpdated \<or> spo_Spec profile \<noteq> spec
                  then Inr (ProfileUpdate (profile\<lparr>spo_Annotations := annotations,
                              spo_OwnerReferences := [controller_ref serviceSet], spo_Spec := spec\<rparr>))
                  else Inr ProfileUnchanged))"

section \<open>Priorities\<close>

lemma priority_range: "priorityToTier p \<noteq> None \<longleftrightarrow> 1 \<le> sint p \<and> sint p \<le> 2 ^ 31 - 2"
  by (simp add: priorityToTier_def Let_def MaxInt32_def word_sle_eq)

lemma tier_sint: "priorityToTier p = Some t \<Longrightarrow> sint t = 2 ^ 31 - 1 - sint p"
proof -
  assume "priorityToTier p = Some t"
  then have r: "1 \<le> sint p" "sint p \<le> 2 ^ 31 - 2" and t: "t = MaxInt32 - p"
    using priority_range [of p] by (auto simp: priorityToTier_def Let_def split: if_splits)
  have "sint (MaxInt32 - p) = signed_take_bit 31 (sint MaxInt32 - sint p)"
    by (simp add: sint_word_ariths)
  also have "sint MaxInt32 = 2 ^ 31 - 1" by (simp add: MaxInt32_def)
  also have "signed_take_bit 31 (2 ^ 31 - 1 - sint p) = 2 ^ 31 - 1 - sint p"
    using r by (intro signed_take_bit_int_eq_self) auto
  finally show "sint t = 2 ^ 31 - 1 - sint p" using t by simp
qed

text \<open>C38: In 32-bit arithmetic the tier of a priority exists exactly for priorities from 1 to
  $2^{31}-2$; it is $2^{31}-1$ less the priority, so it is again in that range, never overflows, reverses
  the order, and converting it once more gives the priority back.\<close>
theorem priority_tier_involution:
  "(priorityToTier p \<noteq> None \<longleftrightarrow> 1 \<le> sint p \<and> sint p \<le> 2 ^ 31 - 2)
   \<and> (\<forall>t. priorityToTier p = Some t \<longrightarrow>
        sint t = 2 ^ 31 - 1 - sint p \<and> priorityToTier t = Some p)"
proof (intro conjI allI impI)
  fix t assume t: "priorityToTier p = Some t"
  then show s: "sint t = 2 ^ 31 - 1 - sint p" by (rule tier_sint)
  from t have "1 \<le> sint p" "sint p \<le> 2 ^ 31 - 2" using priority_range [of p] by auto
  with s have "priorityToTier t \<noteq> None" using priority_range [of t] by auto
  then show "priorityToTier t = Some p"
    using t by (auto simp: priorityToTier_def Let_def split: if_splits)
qed (use priority_range [of p] in auto)

section \<open>Options\<close>

lemma fold_update_lookup:
  "distinct (map fst src) \<Longrightarrow>
     map_of (fold (\<lambda>(k, v) m. AList.update k v m) src dst) k
       = (case map_of src k of Some v \<Rightarrow> Some v | None \<Rightarrow> map_of dst k)"
proof (induction src arbitrary: dst)
  case (Cons x src)
  then show ?case
    by (cases x) (force simp: update_conv' map_of_eq_None_iff split: option.splits)
qed simp

section \<open>Every service gets a state\<close>

abbreviation has_state :: "TimedServiceState list \<Rightarrow> ServiceWithValues \<Rightarrow> bool" where
  "has_state states svc \<equiv> \<exists>s\<in>set states. ss_Name s = swv_Name svc \<and> ss_Namespace s = swv_Namespace svc"

lemma seed_status_prefix: "prefix states (seed_status now ty v svc states)"
  by (simp add: seed_status_def)

lemma seed_status_has: "has_state (seed_status now ty v svc states) svc"
  by (auto simp: seed_status_def)

lemma seed_status_typed:
  "valid_service_type ty \<Longrightarrow> s \<in> set (seed_status now ty v svc states) \<Longrightarrow> s \<in> set states \<or> valid_service_type (ss_Type s)"
  by (auto simp: seed_status_def split: if_splits)

lemma build_refs_statuses:
  assumes "build_refs rd now ns ty ver build svcs (refs, invalid, states) = (r, states')" and "valid_service_type ty"
  shows "prefix states states' \<and> (\<forall>s\<in>set states'. s \<in> set states \<or> valid_service_type (ss_Type s))"
  using assms(1)
proof (induction svcs arbitrary: refs invalid states)
  case (Cons svc svcs)
  show ?case
  proof (cases "prd_getTemplate rd (ObjectKey ns (swv_Template svc))")
    case (Inr tmpl)
    show ?thesis
    proof (cases "build svc tmpl")
      case b: (Inr ro)
      show ?thesis
      proof (cases ro)
        case (Some ref)
        let ?new = "seed_status now ty (ver svc) svc states"
        from Cons.prems Inr b Some have
          "build_refs rd now ns ty ver build svcs (refs @ [ref], if st_Valid tmpl then invalid else invalid @ [at_key tmpl], ?new) = (r, states')"
          by simp
        from Cons.IH [OF this] seed_status_prefix [of states now ty "ver svc" svc]
          seed_status_typed [OF assms(2), of _ now "ver svc" svc states]
        show ?thesis by (meson prefix_order.trans)
      qed (use Cons Inr b in auto)
    qed (use Cons Inr in auto)
  qed (use Cons in auto)
qed auto

lemma build_refs_seeds:
  assumes "build_refs rd now ns ty ver build svcs (refs, invalid, states) = (Inr out, states')" and "valid_service_type ty"
    and "svc \<in> set svcs" and "prd_getTemplate rd (ObjectKey ns (swv_Template svc)) = Inr tmpl" and "build svc tmpl \<noteq> Inr None"
  shows "has_state states' svc"
  using assms(1,3)
proof (induction svcs arbitrary: refs invalid states)
  case (Cons x svcs)
  obtain t where t: "prd_getTemplate rd (ObjectKey ns (swv_Template x)) = Inr t"
    using Cons.prems(1) by (auto split: sum.splits)
  obtain ro where ro: "build x t = Inr ro" using Cons.prems(1) t by (auto split: sum.splits)
  show ?case
  proof (cases "x = svc")
    case True
    with assms(4,5) t ro obtain ref where ref: "ro = Some ref" by (cases ro) auto
    let ?new = "seed_status now ty (ver x) x states"
    from Cons.prems(1) t ro ref have
      "build_refs rd now ns ty ver build svcs (refs @ [ref], if st_Valid t then invalid else invalid @ [at_key t], ?new) = (Inr out, states')"
      by simp
    from build_refs_statuses [OF this assms(2)] have "set ?new \<subseteq> set states'"
      by (simp add: set_mono_prefix)
    with seed_status_has [of now ty "ver x" x states] True show ?thesis by blast
  next
    case False
    with Cons.prems(2) have "svc \<in> set svcs" by simp
    with Cons.prems(1) t ro Cons.IH show ?thesis by (cases ro) auto
  qed
qed simp

lemma build_refs_templates:
  assumes "build_refs rd now ns ty ver build svcs (refs, invalid, states) = (Inr out, states')" and "svc \<in> set svcs"
  obtains tmpl where "prd_getTemplate rd (ObjectKey ns (swv_Template svc)) = Inr tmpl"
proof -
  have "\<exists>tmpl. prd_getTemplate rd (ObjectKey ns (swv_Template svc)) = Inr tmpl"
    using assms by (induction svcs arbitrary: refs invalid states) (auto split: sum.splits option.splits)
  then show thesis using that by blast
qed

text \<open>The schema of a template: it names one of Helm, Kustomize and Resources.\<close>

definition typed_templates :: "profile_reads \<Rightarrow> string \<Rightarrow> ServiceWithValues list \<Rightarrow> bool" where
  "typed_templates rd ns services =
     list_all (\<lambda>svc. case prd_getTemplate rd (ObjectKey ns (swv_Template svc)) of
        Inl _ \<Rightarrow> True
      | Inr tmpl \<Rightarrow> st_Helm tmpl \<noteq> None \<or> at_Kustomize tmpl \<noteq> None \<or> at_Resources tmpl \<noteq> None) services"

lemma states_seeded:
  assumes "profileSpec rd crd unmarshal now serviceSet = (Inr spec, serviceSet')"
    and "typed_templates rd (ass_Namespace serviceSet) (ass_services serviceSet)"
  shows "(\<forall>svc\<in>set (ass_services serviceSet). has_state (ass_states serviceSet') svc)
    \<and> prefix (ass_states serviceSet) (ass_states serviceSet')
    \<and> (\<forall>s\<in>set (ass_states serviceSet'). s \<in> set (ass_states serviceSet) \<or> valid_service_type (ss_Type s))"
proof -
  let ?ns = "ass_Namespace serviceSet" and ?svcs = "ass_services serviceSet" and ?st = "ass_states serviceSet"
  from assms(1) obtain h s1 k s2 p s3 where
    h: "getHelmCharts rd now ?ns ?svcs ?st = (Inr h, s1)" and
    k: "getKustomizationRefs rd now ?ns ?svcs s1 = (Inr k, s2)" and
    p: "getPolicyRefs rd now ?ns ?svcs s2 = (Inr p, s3)" and
    s: "ass_states serviceSet' = s3"
    by (auto simp: profileSpec_def Let_def set_states_def split: sum.splits prod.splits)
  note ty = valid_service_type_def
  have a: "prefix ?st s1 \<and> (\<forall>s\<in>set s1. s \<in> set ?st \<or> valid_service_type (ss_Type s))"
    using build_refs_statuses [OF h [unfolded getHelmCharts_def]] by (simp add: ty)
  have b: "prefix s1 s2 \<and> (\<forall>s\<in>set s2. s \<in> set s1 \<or> valid_service_type (ss_Type s))"
    using build_refs_statuses [OF k [unfolded getKustomizationRefs_def]] by (simp add: ty)
  have c: "prefix s2 s3 \<and> (\<forall>s\<in>set s3. s \<in> set s2 \<or> valid_service_type (ss_Type s))"
    using build_refs_statuses [OF p [unfolded getPolicyRefs_def]] by (simp add: ty)
  have sub: "set s1 \<subseteq> set s3" "set s2 \<subseteq> set s3"
    using b c by (meson prefix_order.trans set_mono_prefix)+
  have "has_state s3 svc" if svc: "svc \<in> set ?svcs" for svc
  proof -
    obtain tmpl where t: "prd_getTemplate rd (ObjectKey ?ns (swv_Template svc)) = Inr tmpl"
      using svc h by (force simp: getHelmCharts_def elim: build_refs_templates)
    consider "st_Helm tmpl \<noteq> None" | "at_Kustomize tmpl \<noteq> None" | "at_Resources tmpl \<noteq> None"
      using assms(2) [unfolded typed_templates_def list_all_iff, rule_format, OF svc] t by auto
    then show ?thesis
    proof cases
      case 1
      then have "helm_chart_of rd ?ns svc tmpl \<noteq> Inr None" by (auto simp: helm_chart_of_def result_simps)
      from build_refs_seeds [OF h [unfolded getHelmCharts_def] _ svc t this] sub(1) show ?thesis by (auto simp: ty)
    next
      case 2
      then have "kustomization_of ?ns svc tmpl \<noteq> Inr None" by (auto simp: kustomization_of_def split: option.splits)
      from build_refs_seeds [OF k [unfolded getKustomizationRefs_def] _ svc t this] sub(2) show ?thesis by (auto simp: ty)
    next
      case 3
      then have "policy_of svc tmpl \<noteq> Inr None" by (auto simp: policy_of_def split: option.splits)
      from build_refs_seeds [OF p [unfolded getPolicyRefs_def] _ svc t this] show ?thesis by (simp add: ty)
    qed
  qed
  with a b c s show ?thesis by (meson prefix_order.trans)
qed

text \<open>When the specification of a Profile is built, every service of the ServiceSet has an entry in
  the status, provided each template is of one of the three types; entries are only added, and every
  added entry has one of the types the schema allows. This is what the collection of states relies on.\<close>
theorem profile_built_states_seeded:
  assumes "profileSpec rd crd unmarshal now serviceSet = (Inr spec, serviceSet')"
    and "typed_templates rd (ass_Namespace serviceSet) (ass_services serviceSet)"
  shows "(\<forall>svc\<in>set (ass_services serviceSet). has_state (ass_states serviceSet') svc)
    \<and> prefix (ass_states serviceSet) (ass_states serviceSet')
    \<and> (\<forall>s\<in>set (ass_states serviceSet'). s \<in> set (ass_states serviceSet) \<or> valid_service_type (ss_Type s))"
  using assms by (rule states_seeded)

section \<open>A Profile settles\<close>

text \<open>What is stored after a write that succeeds.\<close>

fun stored :: "profile_write \<Rightarrow> api_error + SveltosProfileObject \<Rightarrow> api_error + SveltosProfileObject" where
  "stored ProfileUnchanged found = found"
| "stored (ProfileCreate p) found = Inr p"
| "stored (ProfileUpdate p) found = Inr p"

lemma handlePauseAnnotations_mirrors:
  assumes "handlePauseAnnotations pp annos ss = (u, annos')"
  shows "(map_of annos' pp \<noteq> None) = (map_of (ass_Annotations ss) ServiceSetPausedAnnotation \<noteq> None)"
    and "handlePauseAnnotations pp annos' ss = (False, annos')"
    and "\<not> u \<Longrightarrow> annos' = annos"
  using assms by (auto simp: handlePauseAnnotations_def Let_def update_conv' delete_conv' split: if_splits)


section \<open>Sources without status\<close>


end
