(* ===== verification/SveltosReconcile.thy ===== *)
theory SveltosReconcile
  imports SveltosVerify SveltosProfile ServiceVersions
begin

text \<open>
  The ServiceSet controller of the Sveltos adapter: clients of the clusters, the collection of states,
  the verification of services, deletion, and \<open>Reconcile\<close>
  (\<^verbatim>\<open>internal/controller/adapters/sveltos/serviceset_controller.go\<close>). The API servers are a state \<open>'w\<close>
  behind the calls of \<open>adapter_api\<close>; \<open>'c\<close> stands for a client of a cluster. Building a client from a
  kubeconfig and finding the client of a region are parameters (\<open>client_calls\<close>). The two caches of the
  verifier are state that is passed along; the clock does not move during a reconciliation.
  The outcome of a reconciliation is a value: done, requeued, an error, or a panic.
\<close>

section \<open>Clients\<close>

record SveltosClusterView =
  scl_Name :: string
  scl_KubeconfigName :: string
  scl_KubeconfigKeyName :: string

record ('c, 'o) client_calls =
  cl_local :: 'c
  cl_getCredentialName :: "ObjectKey \<Rightarrow> api_error + string"
  cl_getCredentialRegion :: "ObjectKey \<Rightarrow> api_error + string"
  cl_regionalByName :: "string \<Rightarrow> api_error + 'c"
  cl_getSecret :: "'c \<Rightarrow> ObjectKey \<Rightarrow> api_error + (string \<times> string) list"
  cl_clientFactory :: "string \<Rightarrow> string + 'c"
  cl_getSveltosCluster :: "'c \<Rightarrow> ObjectKey \<Rightarrow> api_error + SveltosClusterView"
  cl_workload :: "'c \<Rightarrow> 'o workload_client"

datatype client_error =
    ClusterDeploymentUnread api_error
  | CredentialUnread api_error
  | RegionUnavailable string api_error
  | KubeconfigSecretUnread api_error
  | KubeconfigEmpty ObjectKey
  | ClientConfigFailed string
  | SveltosClusterUnread api_error
  | SecretUnread api_error
  | SecretNoData ObjectKey
  | SecretManyKeys ObjectKey

text \<open>\<open>resolveRegionalClient\<close>; the cache is there for a tick of the poller, \<open>None\<close> otherwise.\<close>

definition resolveRegionalClient ::
  "('c, 'o) client_calls \<Rightarrow> AdapterServiceSet \<Rightarrow> (ObjectKey \<rightharpoonup> 'c) option
     \<Rightarrow> (client_error + 'c) \<times> (ObjectKey \<rightharpoonup> 'c) option" where
  "resolveRegionalClient cl serviceSet cache =
     (if sss_Cluster (ass_Spec serviceSet) = [] then (Inr (cl_local cl), cache)
      else let clusterKey = ObjectKey (ass_Namespace serviceSet) (sss_Cluster (ass_Spec serviceSet)) in
        (case Option.bind cache (\<lambda>m. m clusterKey) of
           Some c \<Rightarrow> (Inr c, cache)
         | None \<Rightarrow>
             (case cl_getCredentialName cl clusterKey of
                Inl e \<Rightarrow> (Inl (ClusterDeploymentUnread e), cache)
              | Inr credential \<Rightarrow>
                  (case cl_getCredentialRegion cl (ObjectKey (ass_Namespace serviceSet) credential) of
                     Inl e \<Rightarrow> (Inl (CredentialUnread e), cache)
                   | Inr region \<Rightarrow>
                       (case if region \<noteq> [] then cl_regionalByName cl region else Inr (cl_local cl) of
                          Inl e \<Rightarrow> (Inl (RegionUnavailable region e), cache)
                        | Inr rgn \<Rightarrow> (Inr rgn, map_option (\<lambda>m. m(clusterKey \<mapsto> rgn)) cache))))))"

definition getRegionalClient :: "('c, 'o) client_calls \<Rightarrow> AdapterServiceSet \<Rightarrow> client_error + 'c" where
  "getRegionalClient cl serviceSet = fst (resolveRegionalClient cl serviceSet None)"

definition secret_client :: "('c, 'o) client_calls \<Rightarrow> 'c \<Rightarrow> ObjectKey \<Rightarrow> string \<Rightarrow> client_error + 'c" where
  "secret_client cl c secretRef key =
     (case cl_getSecret cl c secretRef of
        Inl e \<Rightarrow> Inl (KubeconfigSecretUnread e)
      | Inr data \<Rightarrow>
          (case map_of data key of
             None \<Rightarrow> Inl (KubeconfigEmpty secretRef)
           | Some kubeconfig \<Rightarrow>
               (case cl_clientFactory cl kubeconfig of Inl e \<Rightarrow> Inl (ClientConfigFailed e) | Inr child \<Rightarrow> Inr child)))"

definition resolveSveltosClusterIdentityRef ::
  "('c, 'o) client_calls \<Rightarrow> 'c \<Rightarrow> AdapterServiceSet \<Rightarrow> client_error + ObjectKey \<times> string" where
  "resolveSveltosClusterIdentityRef cl c serviceSet =
     (let ns = ass_Namespace serviceSet in
      case cl_getSveltosCluster cl c (ObjectKey ns (sss_Cluster (ass_Spec serviceSet))) of
        Inl e \<Rightarrow> Inl (SveltosClusterUnread e)
      | Inr sveltosCluster \<Rightarrow>
          let secretRef = (if scl_KubeconfigName sveltosCluster \<noteq> []
                           then ObjectKey ns (scl_KubeconfigName sveltosCluster)
                           else ObjectKey ns (scl_Name sveltosCluster @ ''-sveltos-kubeconfig''))
          in if scl_KubeconfigKeyName sveltosCluster \<noteq> [] then Inr (secretRef, scl_KubeconfigKeyName sveltosCluster)
             else (case cl_getSecret cl c secretRef of
                     Inl e \<Rightarrow> Inl (SecretUnread e)
                   | Inr [] \<Rightarrow> Inl (SecretNoData secretRef)
                   | Inr [(k, _)] \<Rightarrow> Inr (secretRef, k)
                   | Inr _ \<Rightarrow> Inl (SecretManyKeys secretRef)))"

definition resolveChildClient ::
  "('c, 'o) client_calls \<Rightarrow> 'c \<Rightarrow> AdapterServiceSet \<Rightarrow> client_error + 'c" where
  "resolveChildClient cl rgnClient serviceSet =
     (if ass_self_managed serviceSet then Inr (cl_local cl)
      else let secretRef = GetKubeconfigSecretKey (ObjectKey (ass_Namespace serviceSet) (sss_Cluster (ass_Spec serviceSet))) in
        (case secret_client cl rgnClient secretRef ''value'' of
           Inl (KubeconfigSecretUnread NotFound) \<Rightarrow>
             bindE (resolveSveltosClusterIdentityRef cl rgnClient serviceSet)
               (\<lambda>(sveltosSecretRef, key). secret_client cl rgnClient sveltosSecretRef key)
         | r \<Rightarrow> r))"

section \<open>Conditions of a ServiceSet\<close>

definition ServiceSetProfileCondition :: string where "ServiceSetProfileCondition = ''ServiceSetProfile''"
definition ServiceSetStatusesCollectedCondition :: string where
  "ServiceSetStatusesCollectedCondition = ''ServiceSetStatusesCollected''"
definition ServicesInReadyStateCondition :: string where "ServicesInReadyStateCondition = ''ServicesInReadyState''"
definition ServiceSetFinalizer :: string where "ServiceSetFinalizer = ''k0rdent.mirantis.com/service-set''"

definition find_or_new :: "AdapterServiceSet \<Rightarrow> string \<Rightarrow> Condition" where
  "find_or_new serviceSet conditionType =
     (case find_condition (ast_Conditions (ass_Status serviceSet)) conditionType of
        Some condition \<Rightarrow> condition
      | None \<Rightarrow> \<lparr>cond_Type = conditionType, cond_Status = ConditionFalse,
                 cond_ObservedGeneration = ass_Generation serviceSet, cond_Reason = [], cond_Message = []\<rparr>)"

definition updateCondition ::
  "set_condition \<Rightarrow> Condition \<Rightarrow> ConditionStatus \<Rightarrow> string \<Rightarrow> string \<Rightarrow> AdapterServiceSet \<Rightarrow> AdapterServiceSet" where
  "updateCondition setc condition status reason message serviceSet =
     serviceSet\<lparr>ass_Status := (ass_Status serviceSet)\<lparr>ast_Conditions :=
       setc (ast_Conditions (ass_Status serviceSet))
         (condition\<lparr>cond_Status := status, cond_ObservedGeneration := ass_Generation serviceSet,
                    cond_Reason := reason, cond_Message := message\<rparr>)\<rparr>\<rparr>"

definition conditionStatusChangedToFalse :: "Condition option \<Rightarrow> Condition option \<Rightarrow> bool" where
  "conditionStatusChangedToFalse old new =
     (case (old, new) of
        (None, None) \<Rightarrow> False
      | (None, Some n) \<Rightarrow> cond_Status n = ConditionFalse
      | (Some c, Some n) \<Rightarrow> cond_Status c \<noteq> cond_Status n \<and> cond_Status n = ConditionFalse
      | (Some c, None) \<Rightarrow> False)"

definition conditionReasonChanged :: "Condition option \<Rightarrow> Condition option \<Rightarrow> bool" where
  "conditionReasonChanged old new =
     (case new of
        None \<Rightarrow> False
      | Some n \<Rightarrow> (case old of None \<Rightarrow> True | Some c \<Rightarrow> cond_Reason c \<noteq> cond_Reason n))"

definition updateServicesInReadyStateCondition :: "set_condition \<Rightarrow> AdapterServiceSet \<Rightarrow> AdapterServiceSet" where
  "updateServicesInReadyStateCondition setc serviceSet =
     (let deployedCount = length (filter (\<lambda>svc. ss_State svc = ServiceStateDeployed) (ass_states serviceSet));
          totalCount = length (ass_services serviceSet)
      in if deployedCount \<le> totalCount
         then updateCondition setc (find_or_new serviceSet ServicesInReadyStateCondition)
                (if deployedCount \<noteq> totalCount then ConditionFalse else ConditionTrue)
                ServicesInReadyStateCondition (format_nat deployedCount @ ''/'' @ format_nat totalCount) serviceSet
         else serviceSet)"

definition all_deployed :: "TimedServiceState list \<Rightarrow> bool" where
  "all_deployed states \<longleftrightarrow> \<not> contains_func (\<lambda>s. ss_State s \<noteq> ServiceStateDeployed) states"

definition set_deployed :: "bool \<Rightarrow> AdapterServiceSet \<Rightarrow> AdapterServiceSet" where
  "set_deployed b s = s\<lparr>ass_Status := (ass_Status s)\<lparr>ast_Deployed := b\<rparr>\<rparr>"

section \<open>Collecting the states\<close>

datatype collect_error = CollectGetProfileFailed api_error | CollectGetSummaryFailed api_error

text \<open>No matching cluster is the error \<open>errNoMatchingClusters\<close>, here \<open>Inr None\<close>; it clears \<open>Deployed\<close>.\<close>

definition getClusterSummaryForServiceSet ::
  "artifact_reads \<Rightarrow> ProfileKind \<Rightarrow> string \<Rightarrow> ProfileStatus \<Rightarrow> collect_error + ClusterSummary option" where
  "getClusterSummaryForServiceSet rd profileKind profileName profile =
     (case ps_MatchingClusterRefs profile of
        [] \<Rightarrow> Inr None
      | obj # _ \<Rightarrow>
          let isSveltosCluster = (ref_APIVersion obj = ar_sveltosAPIVersion rd);
              summaryName = ar_summaryName rd profileKind profileName (ref_Name obj) isSveltosCluster
          in case ar_getClusterSummary rd (ObjectKey (ref_Namespace obj) summaryName) of
               Inl e \<Rightarrow> Inl (CollectGetSummaryFailed e)
             | Inr summary \<Rightarrow> Inr (Some summary))"

definition collect_from_profile ::
  "artifact_reads \<Rightarrow> int \<Rightarrow> ProfileKind \<Rightarrow> ProfileStatus \<Rightarrow> AdapterServiceSet \<Rightarrow> collect_error option \<times> AdapterServiceSet" where
  "collect_from_profile rd now profileKind profile serviceSet =
     (case getClusterSummaryForServiceSet rd profileKind (ass_Name serviceSet) profile of
        Inl e \<Rightarrow> (Some e, serviceSet)
      | Inr None \<Rightarrow> (None, set_deployed False serviceSet)
      | Inr (Some summary) \<Rightarrow>
          let states = servicesStateFromSummary now (Some summary) (Some (ass_services serviceSet, ass_states serviceSet))
          in (None, set_deployed (all_deployed states) (set_states states serviceSet)))"

definition profile_kind :: "AdapterServiceSet \<Rightarrow> ProfileKind" where
  "profile_kind s = (if ass_self_managed s then ProfileKindClusterProfile else ProfileKindProfile)"

definition collectServiceStatuses ::
  "set_condition \<Rightarrow> artifact_reads \<Rightarrow> int \<Rightarrow> AdapterServiceSet \<Rightarrow> collect_error option \<times> AdapterServiceSet" where
  "collectServiceStatuses setc rd now serviceSet =
     (let condition = find_or_new serviceSet ServiceSetStatusesCollectedCondition;
          failed = updateCondition setc condition ConditionFalse ''ServiceSetStatusesNotCollected'' ''Statuses not collected''
      in case ar_getProfile rd (profile_kind serviceSet) (ass_key serviceSet) of
           Inl e \<Rightarrow> (Some (CollectGetProfileFailed e), failed serviceSet)
         | Inr profile \<Rightarrow>
             (case collect_from_profile rd now (profile_kind serviceSet) profile serviceSet of
                (Some e, s) \<Rightarrow> (Some e, failed s)
              | (None, s) \<Rightarrow>
                  (None, updateCondition setc condition ConditionTrue ''ServiceSetStatusesCollected'' ''Statuses collected''
                           (updateServicesInReadyStateCondition setc s))))"

section \<open>Verifying the services\<close>

type_synonym verdict_fun = "string \<Rightarrow> string \<Rightarrow> verify_error list + ServiceStateValue \<times> Condition list"

text \<open>
  One service: its new state, whether the state changed, whether a stamp is pending, and the error of
  the verification, if any.
\<close>

definition verify_service ::
  "set_condition \<Rightarrow> int \<Rightarrow> verdict_fun \<Rightarrow> (ObjectKey \<rightharpoonup> string) \<Rightarrow> (ObjectKey \<rightharpoonup> string) \<Rightarrow> TimedServiceState
     \<Rightarrow> TimedServiceState \<times> bool \<times> bool \<times> verify_error list" where
  "verify_service setc now verdict serviceHashes versions s =
     (if ss_Type s \<noteq> ServiceTypeHelm then (s, False, False, [])
      else if ss_State s \<noteq> ServiceStateDeployed \<and> ss_State s \<noteq> ServiceStateProvisioning then (s, False, False, [])
      else let serviceKey = ObjectKey (ss_Namespace s) (ss_Name s);
               currentHash = get_or [] serviceHashes serviceKey
           in case verdict (ss_Name s) (ss_Namespace s) of
                Inl e \<Rightarrow> (s, False, False, e)
              | Inr (verifierState, conds) \<Rightarrow>
                  let (newState0, newConds) =
                        (if verifierState \<noteq> ServiceStateDeployed then (ServiceStateProvisioning, conds)
                         else if ss_State s = ServiceStateProvisioning \<and> currentHash \<noteq> [] \<and> currentHash = ss_LastDeployedHash s
                         then (ServiceStateDeployed, []) else (ss_State s, []));
                      pending = (newState0 = ServiceStateDeployed \<and> currentHash = []);
                      newState = (if pending then ServiceStateProvisioning else newState0);
                      changed = (newState \<noteq> ss_State s);
                      s1 = (if changed then s\<lparr>ss_State := newState, ss_LastStateTransitionTime := Some now\<rparr> else s);
                      s2 = s1\<lparr>ss_Conditions := applyVerifyConditions setc newConds (ss_Conditions s1)\<rparr>;
                      s3 = (if newState = ServiceStateDeployed \<and> currentHash \<noteq> [] \<and> currentHash \<noteq> ss_LastDeployedHash s2
                            then s2\<lparr>ss_LastDeployedHash := currentHash, ss_Version := get_or [] versions serviceKey\<rparr>
                            else s2)
                  in (s3, changed, pending, []))"

record 'p verify_caches =
  vc_rules :: "'p rule_cache"
  vc_configurations :: cc_cache

record ('a, 'p, 'o) verify_env =
  ve_loader :: "('a, 'p, 'o) rule_loader"
  ve_listConfigMaps :: list_config_maps
  ve_systemNamespace :: string
  ve_render :: "rule_error \<Rightarrow> string"
  ve_sha256 :: "string \<Rightarrow> string"
  ve_hex :: "string \<Rightarrow> string"
  ve_setc :: set_condition

datatype verify_failure =
    LoadRulesFailed rules_error
  | FetchArtifactsFailed artifact_error
  | ChildClientFailed client_error
  | ServicesUnverified "verify_error list"

text \<open>The loop over the services and what follows it: \<open>(pendingStamp, errs, serviceSet)\<close>.\<close>

definition verify_all ::
  "set_condition \<Rightarrow> int \<Rightarrow> verdict_fun \<Rightarrow> (ObjectKey \<rightharpoonup> string) \<Rightarrow> AdapterServiceSet
     \<Rightarrow> bool \<times> verify_error list \<times> AdapterServiceSet" where
  "verify_all setc now verdict serviceHashes serviceSet =
     (let versions = index_by (\<lambda>svc. ObjectKey (swv_Namespace svc) (swv_Name svc)) swv_Version (ass_services serviceSet);
          results = map (verify_service setc now verdict serviceHashes versions) (ass_states serviceSet);
          states = map fst results;
          s1 = set_states states serviceSet;
          s2 = (if list_ex (\<lambda>(_, changed, _, _). changed) results then set_deployed (all_deployed states) s1 else s1)
      in (list_ex (\<lambda>(_, _, pending, _). pending) results, concat (map (\<lambda>(_, _, _, errs). errs) results),
          updateServicesInReadyStateCondition setc s2))"

definition verifyServiceStates ::
  "('a, 'p, 'o) verify_env \<Rightarrow> ('c, 'o) client_calls \<Rightarrow> artifact_reads \<Rightarrow> int \<Rightarrow> 'c \<Rightarrow> AdapterServiceSet \<Rightarrow> 'p verify_caches
     \<Rightarrow> bool \<times> verify_failure option \<times> AdapterServiceSet \<times> 'p verify_caches" where
  "verifyServiceStates env cl rd now rgnClient serviceSet caches =
     (if length (ass_states serviceSet) = 0 then (False, None, serviceSet, caches)
      else (case rulesFromConfigMaps (ve_loader env) now (ve_listConfigMaps env) (ve_systemNamespace env)
                   (ass_Namespace serviceSet) (ass_OwnerReferences serviceSet) (vc_rules caches) of
              (Inl e, rc) \<Rightarrow> (False, Some (LoadRulesFailed e), serviceSet, caches\<lparr>vc_rules := rc\<rparr>)
            | (Inr (rules, loadErrs), rc) \<Rightarrow>
                let caches1 = caches\<lparr>vc_rules := rc\<rparr>;
                    s0 = serviceSet\<lparr>ass_Status := (ass_Status serviceSet)\<lparr>ast_Conditions :=
                           applyRuleLoadErrorCondition (ve_setc env) (ve_render env) (ass_Generation serviceSet) loadErrs
                             (ast_Conditions (ass_Status serviceSet))\<rparr>\<rparr>
                in if rules = [] then (False, None, s0, caches1)
                   else (case fetchHelmArtifactsForVerifier rd now (ass_self_managed serviceSet) (ass_key serviceSet)
                                (vc_configurations caches1) of
                           (Inl e, cc) \<Rightarrow> (False, Some (FetchArtifactsFailed e), s0, caches1\<lparr>vc_configurations := cc\<rparr>)
                         | (Inr (summary, conf, profileKind, profileName), cc) \<Rightarrow>
                             let caches2 = caches1\<lparr>vc_configurations := cc\<rparr>;
                                 serviceHashes = serviceHashesFromArtifacts (ve_sha256 env) (ve_hex env) summary conf profileKind profileName
                             in (case resolveChildClient cl rgnClient serviceSet of
                                   Inl e \<Rightarrow> (False, Some (ChildClientFailed e), s0, caches2)
                                 | Inr childClient \<Rightarrow>
                                     (case verify_all (ve_setc env) now
                                             (verifyHelmServiceOnCluster (rl_cel (ve_loader env)) (cl_workload cl childClient) rules)
                                             serviceHashes s0 of
                                        (pendingStamp, errs, s1) \<Rightarrow>
                                          (pendingStamp, if errs = [] then None else Some (ServicesUnverified errs), s1, caches2))))))"

section \<open>States of services that are not deployed\<close>

definition not_deployed_state :: "int \<Rightarrow> ServiceWithValues \<Rightarrow> TimedServiceState" where
  "not_deployed_state now svc =
     \<lparr>ss_Type = [], ss_Version = [], ss_Name = swv_Name svc, ss_Namespace = swv_Namespace svc,
      ss_Template = swv_Template svc, ss_State = ServiceStateNotDeployed, ss_FailureMessage = [],
      ss_LastDeployedHash = [], ss_Conditions = [], ss_LastStateTransitionTime = Some now\<rparr>"

definition fillNotDeployedServices :: "int \<Rightarrow> AdapterServiceSet \<Rightarrow> AdapterServiceSet" where
  "fillNotDeployedServices now serviceSet =
     (let deployed = map (\<lambda>s. ObjectKey (ss_Namespace s) (ss_Name s)) (ass_states serviceSet);
          missing = filter (\<lambda>svc. ObjectKey (swv_Namespace svc) (swv_Name svc) \<notin> set deployed) (ass_services serviceSet)
      in set_states (ass_states serviceSet @ map (not_deployed_state now) missing) serviceSet)"

definition clusterReference :: "AdapterServiceSet \<Rightarrow> ObjectReference" where
  "clusterReference serviceSet =
     (if ass_self_managed serviceSet then SelfManagementClusterReference
      else \<lparr>ref_Kind = ''ClusterDeployment'', ref_Name = sss_Cluster (ass_Spec serviceSet),
            ref_Namespace = ass_Namespace serviceSet, ref_APIVersion = ''k0rdent.mirantis.com/v1beta1''\<rparr>)"

definition labelsMatchSelector :: "compile_selector \<Rightarrow> (string \<times> string) list \<Rightarrow> LabelSelector option \<Rightarrow> string + bool" where
  "labelsMatchSelector compile serviceSetLabels selector =
     (case selector of
        None \<Rightarrow> Inr True
      | Some sel \<Rightarrow> (case compile sel of Inl e \<Rightarrow> Inl e | Inr s \<Rightarrow> Inr (sel_Matches s serviceSetLabels)))"

section \<open>The reconciliation\<close>

record ProviderView =
  pv_Selector :: "LabelSelector option"
  pv_Ready :: bool
  pv_Suspend :: bool

record ('c, 'w) adapter_api =
  ap_getServiceSet :: "ObjectKey \<Rightarrow> 'w \<Rightarrow> api_error + AdapterServiceSet"
  ap_getProvider :: "string \<Rightarrow> 'w \<Rightarrow> api_error + ProviderView"
  ap_updateServiceSet :: "AdapterServiceSet \<Rightarrow> 'w \<Rightarrow> api_error option \<times> 'w"
  ap_updateStatus :: "AdapterServiceSet \<Rightarrow> 'w \<Rightarrow> api_error option \<times> 'w"
  ap_getProfile :: "'c \<Rightarrow> ProfileKind \<Rightarrow> ObjectKey \<Rightarrow> 'w \<Rightarrow> api_error + SveltosProfileObject"
  ap_writeProfile :: "'c \<Rightarrow> ProfileKind \<Rightarrow> ObjectKey \<Rightarrow> profile_write \<Rightarrow> 'w \<Rightarrow> api_error option \<times> 'w"
  ap_deleteProfile :: "'c \<Rightarrow> ProfileKind \<Rightarrow> ObjectKey \<Rightarrow> 'w \<Rightarrow> api_error option \<times> 'w"
  ap_artifacts :: "'c \<Rightarrow> 'w \<Rightarrow> artifact_reads"
  ap_profileReads :: profile_reads
  ap_clusterReads :: "'c \<Rightarrow> cluster_reads"
  ap_unmarshalConfig :: "json \<Rightarrow> string + profileConfig"
  ap_profilePaused :: string
  ap_compileSelector :: compile_selector
  ap_renderSpecError :: "spec_error \<Rightarrow> string"

datatype adapter_error =
    GetServiceSetFailed api_error
  | RegionalClientFailed client_error
  | UpdateServiceSetFailed api_error
  | GetProviderFailed api_error
  | SelectorInvalid string
  | BuildProfileFailed spec_error
  | WriteProfileFailed api_error
  | CollectFailed collect_error
  | UpdateStatusFailed api_error
  | DeleteGetProfileFailed api_error
  | DeleteProfileFailed api_error

datatype adapter_outcome = Finished | RequeueAfterInterval | FailedWith "adapter_error list" | Panicked

datatype adapter_event =
    ProviderNotReadyEvent
  | ProviderSuspendedEvent
  | EnsureProfileSuccessEvent
  | EnsureProfileFailedEvent
  | BuildFailedEvent string
  | CollectStatusesSuccessEvent
  | CollectStatusesFailedEvent

text \<open>The reason a failure to build the specification gives the condition.\<close>

fun build_reason :: "spec_error \<Rightarrow> string" where
  "build_reason (BuildProfileFromConfigFailed _) = ''ServiceSetProfileBuildFailed''"
| "build_reason (BuildHelmChartsFailed _) = ''ServiceSetHelmChartsBuildFailed''"
| "build_reason (BuildKustomizationRefsFailed _) = ''ServiceSetKustomizationRefsBuildFailed''"
| "build_reason (BuildPolicyRefsFailed _) = ''ServiceSetPolicyRefsBuildFailed''"
| "build_reason _ = ''ServiceSetProfileNotReady''"

fun is_panic :: "spec_error \<Rightarrow> bool" where
  "is_panic (BuildKustomizationRefsFailed (NilSourceStatus _)) = True"
| "is_panic (BuildPolicyRefsFailed (NilSourceStatus _)) = True"
| "is_panic _ = False"

text \<open>\<open>ensureProfile\<close>: \<open>None\<close> is success, otherwise the outcome. The condition is set in every case.\<close>

definition ensureProfile ::
  "set_condition \<Rightarrow> ('c, 'w) adapter_api \<Rightarrow> ('c, 'o) client_calls \<Rightarrow> int \<Rightarrow> 'c \<Rightarrow> AdapterServiceSet \<Rightarrow> 'w
     \<Rightarrow> adapter_outcome option \<times> adapter_event list \<times> AdapterServiceSet \<times> 'w" where
  "ensureProfile setc api cl now rgnClient serviceSet w =
     (let condition = find_or_new serviceSet ServiceSetProfileCondition;
          notReady = updateCondition setc condition ConditionFalse
      in case profileSpec (ap_profileReads api) (ap_clusterReads api rgnClient) (ap_unmarshalConfig api) now serviceSet of
           (Inl e, s) \<Rightarrow>
             if is_panic e
             then (Some Panicked, [], notReady ''ServiceSetProfileNotReady'' ''Profile is not ready'' s, w)
             else (Some (FailedWith [BuildProfileFailed e]), [],
                   notReady (build_reason e)
                     (if build_reason e = ''ServiceSetProfileNotReady'' then ''Profile is not ready'' else ap_renderSpecError api e) s, w)
         | (Inr spec, s) \<Rightarrow>
             let found = ap_getProfile api rgnClient (profile_kind s) (ass_key s) w;
                 plan = (if ass_self_managed s then createOrUpdateClusterProfile (ap_profilePaused api) s spec found
                         else createOrUpdateProfile (ap_profilePaused api) (rgnClient = cl_local cl) s spec found);
                 failed = notReady ''ServiceSetProfileNotReady'' ''Profile is not ready'' s;
                 ready = updateCondition setc condition ConditionTrue ''ServiceSetProfileReady'' ''Profile is ready'' s;
                 event = (if cond_Status condition \<noteq> ConditionTrue then [EnsureProfileSuccessEvent] else [])
             in (case plan of
                   Inl e \<Rightarrow> (Some (FailedWith [WriteProfileFailed e]), [], failed, w)
                 | Inr ProfileUnchanged \<Rightarrow> (None, event, ready, w)
                 | Inr write \<Rightarrow>
                     (case ap_writeProfile api rgnClient (profile_kind s) (ass_key s) write w of
                        (Some e, w') \<Rightarrow> (Some (FailedWith [WriteProfileFailed e]), [], failed, w')
                      | (None, w') \<Rightarrow> (None, event, ready, w'))))"

definition ensure_failure_events :: "AdapterServiceSet \<Rightarrow> AdapterServiceSet \<Rightarrow> adapter_event list" where
  "ensure_failure_events before after =
     (let old = find_condition (ast_Conditions (ass_Status before)) ServiceSetProfileCondition;
          new = find_condition (ast_Conditions (ass_Status after)) ServiceSetProfileCondition
      in (if conditionStatusChangedToFalse old new then [EnsureProfileFailedEvent] else [])
         @ (case new of
              None \<Rightarrow> []
            | Some n \<Rightarrow>
                if conditionReasonChanged old new \<and> cond_Reason n \<noteq> ''ServiceSetProfileNotReady''
                  \<and> cond_Reason n \<noteq> ''ServiceSetProfileReady''
                then [BuildFailedEvent (cond_Reason n)] else []))"

definition with_provider :: "ProviderView \<Rightarrow> AdapterServiceSet \<Rightarrow> AdapterServiceSet" where
  "with_provider smp s =
     s\<lparr>ass_Status := (ass_Status s)\<lparr>ast_Cluster := Some (clusterReference s),
         ast_Provider := \<lparr>prst_Ready = pv_Ready smp, prst_Suspended = pv_Suspend smp\<rparr>\<rparr>\<rparr>"

text \<open>From the readiness of the provider on; the deferred function runs on the result.\<close>

definition reconcile_body ::
  "('a, 'p, 'o) verify_env \<Rightarrow> ('c, 'w) adapter_api \<Rightarrow> ('c, 'o) client_calls \<Rightarrow> int \<Rightarrow> 'c \<Rightarrow> ProviderView
     \<Rightarrow> AdapterServiceSet \<Rightarrow> 'p verify_caches \<Rightarrow> 'w
     \<Rightarrow> adapter_outcome \<times> adapter_event list \<times> AdapterServiceSet \<times> 'p verify_caches \<times> 'w" where
  "reconcile_body env api cl now rgnClient smp clone caches w =
     (let s0 = with_provider smp clone;
          seen = ast_Provider (ass_Status clone)
      in if \<not> pv_Ready smp
         then (Finished, if prst_Ready seen then [ProviderNotReadyEvent] else [], s0, caches, w)
         else if pv_Suspend smp
         then (Finished, if \<not> prst_Suspended seen then [ProviderSuspendedEvent] else [], s0, caches, w)
         else (case ensureProfile (ve_setc env) api cl now rgnClient s0 w of
                 (Some Panicked, ev, s1, w1) \<Rightarrow> (Panicked, ev, s1, caches, w1)
               | (Some outcome, ev, s1, w1) \<Rightarrow> (outcome, ev @ ensure_failure_events clone s1, s1, caches, w1)
               | (None, ev, s1, w1) \<Rightarrow>
                   let rd = ap_artifacts api rgnClient w1;
                       collected = find_or_new s1 ServiceSetStatusesCollectedCondition
                   in (case collectServiceStatuses (ve_setc env) rd now s1 of
                         (Some e, s2) \<Rightarrow>
                           (FailedWith [CollectFailed e],
                            ev @ (if conditionStatusChangedToFalse
                                       (find_condition (ast_Conditions (ass_Status clone)) ServiceSetStatusesCollectedCondition)
                                       (find_condition (ast_Conditions (ass_Status s2)) ServiceSetStatusesCollectedCondition)
                                  then [CollectStatusesFailedEvent] else []), s2, caches, w1)
                       | (None, s2) \<Rightarrow>
                           (case verifyServiceStates env cl rd now rgnClient s2 caches of
                              (pendingStamp, _, s3, caches') \<Rightarrow>
                                (if pendingStamp then RequeueAfterInterval else Finished,
                                 ev @ (if cond_Status collected \<noteq> ConditionTrue then [CollectStatusesSuccessEvent] else []),
                                 s3, caches', w1)))))"

definition is_error :: "adapter_outcome \<Rightarrow> bool" where
  "is_error r = (case r of FailedWith _ \<Rightarrow> True | _ \<Rightarrow> False)"

definition with_error :: "adapter_outcome \<Rightarrow> adapter_error \<Rightarrow> adapter_outcome" where
  "with_error r e = (case r of FailedWith es \<Rightarrow> FailedWith (es @ [e]) | Panicked \<Rightarrow> Panicked | _ \<Rightarrow> FailedWith [e])"

text \<open>The deferred function: fill in services without state unless there was an error, and update the
  status when it changed. It returns the object whose status was sent, too.\<close>

definition finish ::
  "('c, 'w) adapter_api \<Rightarrow> int \<Rightarrow> AdapterServiceSet \<Rightarrow> adapter_outcome \<times> AdapterServiceSet \<times> 'w
     \<Rightarrow> adapter_outcome \<times> AdapterServiceSet \<times> 'w" where
  "finish api now clone res =
     (case res of (outcome, s, w) \<Rightarrow>
        let s' = (if is_error outcome then s else fillNotDeployedServices now s) in
        if ass_Status s' \<noteq> ass_Status clone
        then (case ap_updateStatus api s' w of
                (None, w') \<Rightarrow> (outcome, s', w')
              | (Some e, w') \<Rightarrow> (with_error outcome (UpdateStatusFailed e), s', w'))
        else (outcome, s', w))"

definition adapter_reconcileDelete ::
  "('c, 'w) adapter_api \<Rightarrow> int \<Rightarrow> 'c \<Rightarrow> AdapterServiceSet \<Rightarrow> 'w \<Rightarrow> adapter_outcome \<times> 'w" where
  "adapter_reconcileDelete api now rgnClient serviceSet w =
     (if contains_func (\<lambda>s. ss_State s \<noteq> ServiceStateDeleting) (ass_states serviceSet)
      then let states = map (\<lambda>s. s\<lparr>ss_State := ServiceStateDeleting, ss_LastStateTransitionTime := Some now\<rparr>)
                          (filter (\<lambda>s. ss_State s \<noteq> ServiceStateDeleting) (ass_states serviceSet))
           in (case ap_updateStatus api (set_states states serviceSet) w of
                 (None, w') \<Rightarrow> (Finished, w')
               | (Some e, w') \<Rightarrow> (FailedWith [UpdateStatusFailed e], w'))
      else (case ap_getProfile api rgnClient (profile_kind serviceSet) (ass_key serviceSet) w of
              Inr profile \<Rightarrow>
                if \<not> spo_Deleting profile
                then (case ap_deleteProfile api rgnClient (profile_kind serviceSet) (ass_key serviceSet) w of
                        (None, w') \<Rightarrow> (RequeueAfterInterval, w')
                      | (Some e, w') \<Rightarrow> (FailedWith [DeleteProfileFailed e], w'))
                else (RequeueAfterInterval, w)
            | Inl NotFound \<Rightarrow>
                if ServiceSetFinalizer \<in> set (ass_Finalizers serviceSet)
                then (case ap_updateServiceSet api
                             (serviceSet\<lparr>ass_Finalizers := filter (\<lambda>f. f \<noteq> ServiceSetFinalizer) (ass_Finalizers serviceSet)\<rparr>) w of
                        (None, w') \<Rightarrow> (Finished, w')
                      | (Some e, w') \<Rightarrow> (FailedWith [UpdateServiceSetFailed e], w'))
                else (Finished, w)
            | Inl e \<Rightarrow> (FailedWith [DeleteGetProfileFailed e], w)))"

definition adapter_Reconcile ::
  "('a, 'p, 'o) verify_env \<Rightarrow> ('c, 'w) adapter_api \<Rightarrow> ('c, 'o) client_calls \<Rightarrow> int \<Rightarrow> ObjectKey \<Rightarrow> 'p verify_caches \<Rightarrow> 'w
     \<Rightarrow> adapter_outcome \<times> adapter_event list \<times> 'p verify_caches \<times> 'w" where
  "adapter_Reconcile env api cl now key caches w =
     (case ap_getServiceSet api key w of
        Inl NotFound \<Rightarrow> (Finished, [], caches, w)
      | Inl e \<Rightarrow> (FailedWith [GetServiceSetFailed e], [], caches, w)
      | Inr serviceSet \<Rightarrow>
          (case getRegionalClient cl serviceSet of
             Inl e \<Rightarrow> (FailedWith [RegionalClientFailed e], [], caches, w)
           | Inr rgnClient \<Rightarrow>
               if ass_Deleting serviceSet
               then (case adapter_reconcileDelete api now rgnClient serviceSet w of (r, w') \<Rightarrow> (r, [], caches, w'))
               else if ServiceSetFinalizer \<notin> set (ass_Finalizers serviceSet)
               then (case ap_updateServiceSet api
                            (serviceSet\<lparr>ass_Finalizers := ass_Finalizers serviceSet @ [ServiceSetFinalizer]\<rparr>) w of
                       (None, w') \<Rightarrow> (Finished, [], caches, w')
                     | (Some e, w') \<Rightarrow> (FailedWith [UpdateServiceSetFailed e], [], caches, w'))
               else (case ap_getProvider api (smpc_Name (sss_Provider (ass_Spec serviceSet))) w of
                       Inl e \<Rightarrow> (FailedWith [GetProviderFailed e], [], caches, w)
                     | Inr smp \<Rightarrow>
                         (case labelsMatchSelector (ap_compileSelector api) (ass_Labels serviceSet) (pv_Selector smp) of
                            Inl e \<Rightarrow> (FailedWith [SelectorInvalid e], [], caches, w)
                          | Inr False \<Rightarrow> (Finished, [], caches, w)
                          | Inr True \<Rightarrow>
                              (case reconcile_body env api cl now rgnClient smp serviceSet caches w of
                                 (outcome, ev, s, caches', w1) \<Rightarrow>
                                   (case finish api now serviceSet (outcome, s, w1) of
                                      (outcome', _, w2) \<Rightarrow> (outcome', ev, caches', w2)))))))"

section \<open>The decision of the verifier\<close>


text \<open>What the verifier never touches.\<close>

lemma verify_service_identity:
  assumes "verify_service setc now verdict hashes versions s = (s', changed, pending, errs)"
  shows "ss_Type s' = ss_Type s \<and> ss_Name s' = ss_Name s \<and> ss_Namespace s' = ss_Namespace s"
proof (cases "verdict (ss_Name s) (ss_Namespace s)")
  case (Inr r)
  then show ?thesis
    using assms by (cases r) (auto simp: verify_service_def Let_def split: if_splits)
qed (use assms in \<open>auto simp: verify_service_def Let_def split: if_splits\<close>)

lemma verify_service_stuck:
  assumes "verify_service setc now verdict hashes versions s = (s', changed, pending, errs)"
    and "get_or [] hashes (ObjectKey (ss_Namespace s) (ss_Name s)) = ss_LastDeployedHash s"
  shows "ss_Version s' = ss_Version s \<and> ss_LastDeployedHash s' = ss_LastDeployedHash s"
proof (cases "verdict (ss_Name s) (ss_Namespace s)")
  case (Inr r)
  then show ?thesis
    using assms by (cases r) (auto simp: verify_service_def Let_def split: if_splits)
qed (use assms in \<open>auto simp: verify_service_def Let_def split: if_splits\<close>)

section \<open>A version that is never confirmed\<close>

text \<open>One round of the adapter on the states: collect from a summary, then verify.\<close>

record adapter_round =
  ro_now :: int
  ro_summary :: ClusterSummary
  ro_verdict :: verdict_fun
  ro_hashes :: "ObjectKey \<rightharpoonup> string"

definition round_states ::
  "set_condition \<Rightarrow> ServiceWithValues list \<Rightarrow> adapter_round \<Rightarrow> TimedServiceState list \<Rightarrow> TimedServiceState list" where
  "round_states setc services r states =
     map (\<lambda>s. fst (verify_service setc (ro_now r) (ro_verdict r) (ro_hashes r)
                     (index_by (\<lambda>svc. ObjectKey (swv_Namespace svc) (swv_Name svc)) swv_Version services) s))
       (servicesStateFromSummary (ro_now r) (Some (ro_summary r)) (Some (services, states)))"

text \<open>The ServiceSet the rest of the system reads, with the states of the adapter.\<close>

definition seen_by_kcm :: "AdapterServiceSet \<Rightarrow> ServiceSet" where
  "seen_by_kcm s =
     \<lparr>sset_Name = ass_Name s, sset_Namespace = ass_Namespace s, sset_Deleting = ass_Deleting s,
      sset_Labels = ass_Labels s, sset_OwnerReferences = ass_OwnerReferences s, sset_Spec = ass_Spec s,
      sset_Status = \<lparr>ssst_Conditions = ast_Conditions (ass_Status s), ssst_Cluster = ast_Cluster (ass_Status s),
                     ssst_Services = map ServiceState.truncate (ass_states s), ssst_Deployed = ast_Deployed (ass_Status s)\<rparr>\<rparr>"

definition confirmed :: "ObjectKey \<Rightarrow> string \<Rightarrow> string \<Rightarrow> TimedServiceState list \<Rightarrow> bool" where
  "confirmed k h v states \<longleftrightarrow>
     list_all (\<lambda>s. tss_key s = k \<longrightarrow>
        ss_Type s = ServiceTypeHelm \<and> ss_LastDeployedHash s = h \<and> ss_Version s = v) states"

lemma collected_states:
  assumes "s \<in> set (servicesStateFromSummary now (Some cs) (Some (services, states)))"
  obtains old svc where "old \<in> set states" and "next_state now cs services old = Some s"
    and "svc \<in> set services" and "ss_Namespace s = swv_Namespace svc" and "ss_Name s = swv_Name svc"
proof -
  from assms obtain old where old: "old \<in> set states" "next_state now cs services old = Some s"
    by (auto simp: servicesStateFromSummary_def set_map_filter')
  then obtain f where f: "index_by swv_key fresh_state services (tss_key old) = Some f"
    by (auto simp: next_state_def split: option.splits)
  from index_by_Some_ex [OF f] obtain svc where svc: "svc \<in> set services" "fresh_state svc = f" by blast
  have "ss_Namespace s = ss_Namespace f \<and> ss_Name s = ss_Name f"
    using old(2) f by (auto simp: next_state_def Let_def feature_owned split: if_splits)
  with svc have "ss_Namespace s = swv_Namespace svc" "ss_Name s = swv_Name svc"
    by (auto simp: fresh_state_def)
  with old svc(1) show thesis by (rule that)
qed

lemma round_keeps_confirmed:
  assumes "confirmed k h v states" and "ro_hashes r k = Some h"
    and "\<And>svc. svc \<in> set services \<Longrightarrow> swv_Namespace svc \<noteq> []"
  shows "confirmed k h v (round_states setc services r states)"
proof -
  let ?versions = "index_by (\<lambda>svc. ObjectKey (swv_Namespace svc) (swv_Name svc)) swv_Version services"
  let ?verify = "verify_service setc (ro_now r) (ro_verdict r) (ro_hashes r) ?versions"
  have "ss_Type s' = ServiceTypeHelm \<and> ss_LastDeployedHash s' = h \<and> ss_Version s' = v"
    if s: "s \<in> set (servicesStateFromSummary (ro_now r) (Some (ro_summary r)) (Some (services, states)))"
      and s': "s' = fst (?verify s)" and key: "tss_key s' = k" for s s'
  proof -
    obtain changed pending errs where ver: "?verify s = (s', changed, pending, errs)"
      using s' by (cases "?verify s") auto
    from collected_states [OF s] obtain old svc where
      old: "old \<in> set states" "next_state (ro_now r) (ro_summary r) services old = Some s"
      and svc: "svc \<in> set services" "ss_Namespace s = swv_Namespace svc" "ss_Name s = swv_Name svc" by metis
    note facts = next_state_facts [OF old(2)]
    from key verify_service_identity [OF ver] have ks: "tss_key s = k" by simp
    with facts have ko: "tss_key old = k" by simp
    with assms(1) old(1) have o: "ss_Type old = ServiceTypeHelm" "ss_LastDeployedHash old = h" "ss_Version old = v"
      by (auto simp: confirmed_def list_all_iff)
    with facts have n: "ss_Type s = ServiceTypeHelm" "ss_LastDeployedHash s = h" "ss_Version s = v" by auto
    have "ss_Namespace s \<noteq> []" using assms(3) [OF svc(1)] svc(2) by simp
    then have "ObjectKey (ss_Namespace s) (ss_Name s) = k"
      using ks by (auto simp: ServiceKey_def effectiveNamespace_def)
    then have "get_or [] (ro_hashes r) (ObjectKey (ss_Namespace s) (ss_Name s)) = ss_LastDeployedHash s"
      using assms(2) n(2) by simp
    from verify_service_stuck [OF ver this] verify_service_identity [OF ver] n show ?thesis by simp
  qed
  then show ?thesis by (auto simp: confirmed_def round_states_def list_all_iff)
qed

lemma rounds_keep_confirmed:
  assumes "confirmed k h v states" and "\<And>r. r \<in> set rounds \<Longrightarrow> ro_hashes r k = Some h"
    and "\<And>svc. svc \<in> set services \<Longrightarrow> swv_Namespace svc \<noteq> []"
  shows "confirmed k h v (fold (round_states setc services) rounds states)"
  using assms(1,2)
proof (induction rounds arbitrary: states)
  case (Cons r rounds)
  have "confirmed k h v (round_states setc services r states)"
    by (rule round_keeps_confirmed [OF Cons.prems(1)]) (use Cons.prems(2) assms(3) in auto)
  from Cons.IH [OF this] Cons.prems(2) show ?case by simp
qed simp

lemma truncate_state [simp]:
  "ss_State (ServiceState.truncate s) = ss_State s" "ss_Version (ServiceState.truncate s) = ss_Version s"
  "ss_Name (ServiceState.truncate s) = ss_Name s" "ss_Namespace (ServiceState.truncate s) = ss_Namespace s"
  by (simp_all add: ServiceState.truncate_def)

text \<open>C29: When a service moves to another version whose chart, values and patches are the same, its
  fingerprint stays the one confirmed last, and the verifier stamps the version only when the
  fingerprint moves: after any number of rounds the version in the status is the old one, so the
  ServiceSet never counts as fully deployed and what depends on it waits forever.\<close>
theorem same_fingerprint_never_fully_deployed:
  assumes "confirmed (swv_key svc) h v (ass_states serviceSet)" and "svc \<in> set (ass_services serviceSet)"
    and "swv_Version svc \<noteq> []" and "swv_Version svc \<noteq> v"
    and "\<And>r. r \<in> set rounds \<Longrightarrow> ro_hashes r (swv_key svc) = Some h"
    and "\<And>svc. svc \<in> set (ass_services serviceSet) \<Longrightarrow> swv_Namespace svc \<noteq> []"
  shows "\<not> FullyDeployed (seen_by_kcm (set_deployed b
    (set_states (fold (round_states setc (ass_services serviceSet)) rounds (ass_states serviceSet)) serviceSet)))"
proof -
  let ?states = "fold (round_states setc (ass_services serviceSet)) rounds (ass_states serviceSet)"
  let ?s = "seen_by_kcm (set_deployed b (set_states ?states serviceSet))"
  have conf: "confirmed (swv_key svc) h v ?states"
    by (rule rounds_keep_confirmed [OF assms(1)]) (use assms(5,6) in auto)
  have "get_or [] (DeployedVersions ?s) (swv_key svc) \<noteq> swv_Version svc"
  proof (cases "DeployedVersions ?s (swv_key svc)")
    case None
    with assms(3) show ?thesis by simp
  next
    case (Some x)
    from DeployedVersions_SomeD [OF this] obtain st where
      "st \<in> set ?states" "tss_key st = swv_key svc" "ss_Version st = x"
      by (auto simp: seen_by_kcm_def set_deployed_def set_states_def)
    with conf have "x = v" by (auto simp: confirmed_def list_all_iff)
    with Some assms(4) show ?thesis by simp
  qed
  with assms(2,3) show ?thesis
    by (auto simp: FullyDeployed_def list_all_iff seen_by_kcm_def set_deployed_def set_states_def)
qed

text \<open>Without any rule nothing is verified, so no version is ever confirmed either.\<close>

lemma rules_none:
  assumes "\<And>ns t. listConfigMaps ns t = Inr []"
  shows "fst (rulesFromConfigMaps ld now listConfigMaps sys ns owners cache) = Inr ([], [])"
  by (simp add: rulesFromConfigMaps_def rule_tiers_def listAndLoad_def assms group_rules_def)

theorem no_rules_no_version:
  assumes "\<And>ns t. ve_listConfigMaps env ns t = Inr []"
    and "verifyServiceStates env cl rd now rgn s caches = (pending, err, s', caches')"
  shows "ass_states s' = ass_states s \<and> \<not> pending \<and> err = None"
proof -
  obtain rc where r: "rulesFromConfigMaps (ve_loader env) now (ve_listConfigMaps env) (ve_systemNamespace env)
      (ass_Namespace s) (ass_OwnerReferences s) (vc_rules caches) = (Inr ([], []), rc)"
    using rules_none [of "ve_listConfigMaps env" "ve_loader env" now "ve_systemNamespace env" "ass_Namespace s"
        "ass_OwnerReferences s" "vc_rules caches", OF assms(1)]
    by (cases "rulesFromConfigMaps (ve_loader env) now (ve_listConfigMaps env) (ve_systemNamespace env)
      (ass_Namespace s) (ass_OwnerReferences s) (vc_rules caches)") simp
  from assms(2) show ?thesis
    by (auto simp: verifyServiceStates_def r Let_def split: if_splits)
qed

section \<open>Types of the states\<close>

lemma updateCondition_states [simp]: "ass_states (updateCondition setc c st r m s) = ass_states s"
  by (simp add: updateCondition_def)

lemma updateCondition_services [simp]: "ass_services (updateCondition setc c st r m s) = ass_services s"
  by (simp add: updateCondition_def)

lemma ready_condition_states [simp]: "ass_states (updateServicesInReadyStateCondition setc s) = ass_states s"
  by (simp add: updateServicesInReadyStateCondition_def Let_def)

lemma ready_condition_services [simp]: "ass_services (updateServicesInReadyStateCondition setc s) = ass_services s"
  by (simp add: updateServicesInReadyStateCondition_def Let_def)

lemma set_states_simps [simp]:
  "ass_states (set_states st s) = st" "ass_services (set_states st s) = ass_services s"
  "ass_states (set_deployed b s) = ass_states s" "ass_services (set_deployed b s) = ass_services s"
  by (simp_all add: set_states_def set_deployed_def)

text \<open>Every service has a state under its name and namespace, and every state a type of the schema.\<close>

definition typed_states :: "ServiceWithValues list \<Rightarrow> TimedServiceState list \<Rightarrow> bool" where
  "typed_states services states \<longleftrightarrow>
     list_all (has_state states) services \<and> list_all (\<lambda>s. valid_service_type (ss_Type s)) states"

lemma typed_states_map:
  assumes "typed_states services states"
    and "\<And>s. s \<in> set states \<Longrightarrow> ss_Type (f s) = ss_Type s \<and> ss_Name (f s) = ss_Name s \<and> ss_Namespace (f s) = ss_Namespace s"
  shows "typed_states services (map f states)"
  using assms by (auto simp: typed_states_def list_all_iff)

lemma typed_states_collected:
  assumes "typed_states services states" and "distinct (map swv_key services)"
  shows "typed_states services (servicesStateFromSummary now (Some cs) (Some (services, states)))"
  unfolding typed_states_def list_all_iff
proof (intro conjI ballI)
  let ?new = "servicesStateFromSummary now (Some cs) (Some (services, states))"
  fix svc assume svc: "svc \<in> set services"
  with assms(1) obtain old where old: "old \<in> set states" "ss_Name old = swv_Name svc" "ss_Namespace old = swv_Namespace svc"
    by (auto simp: typed_states_def list_all_iff)
  then have idx: "index_by swv_key fresh_state services (tss_key old) = Some (fresh_state svc)"
    using index_by_distinct [OF assms(2) svc, of fresh_state] by simp
  then obtain s where s: "next_state now cs services old = Some s"
    by (auto simp: next_state_def Let_def)
  then have "ss_Name s = swv_Name svc \<and> ss_Namespace s = swv_Namespace svc"
    using idx by (auto simp: next_state_def Let_def feature_owned fresh_state_def split: if_splits)
  moreover have "s \<in> set ?new"
    using old(1) s by (auto simp: servicesStateFromSummary_def set_map_filter')
  ultimately show "has_state ?new svc" by blast
next
  fix s assume "s \<in> set (servicesStateFromSummary now (Some cs) (Some (services, states)))"
  then obtain old where "old \<in> set states" "next_state now cs services old = Some s"
    by (rule collected_states)
  with next_state_facts assms(1) show "valid_service_type (ss_Type s)"
    by (fastforce simp: typed_states_def list_all_iff)
qed

lemma typed_states_verified:
  assumes "typed_states services (ass_states s)" and "verify_all setc now verdict hashes s = (p, e, s')"
  shows "typed_states services (ass_states s')"
proof -
  have "ass_states s' = map (\<lambda>x. fst (verify_service setc now verdict hashes
      (index_by (\<lambda>svc. ObjectKey (swv_Namespace svc) (swv_Name svc)) swv_Version (ass_services s)) x)) (ass_states s)"
    using assms(2) by (auto simp: verify_all_def Let_def comp_def split: if_splits)
  moreover have "typed_states services (map (\<lambda>x. fst (verify_service setc now verdict hashes
      (index_by (\<lambda>svc. ObjectKey (swv_Namespace svc) (swv_Name svc)) swv_Version (ass_services s)) x)) (ass_states s))"
  proof (rule typed_states_map [OF assms(1)])
    fix x
    let ?r = "verify_service setc now verdict hashes
      (index_by (\<lambda>svc. ObjectKey (swv_Namespace svc) (swv_Name svc)) swv_Version (ass_services s)) x"
    obtain y c q errs where r: "?r = (y, c, q, errs)" by (metis prod_cases4)
    show "ss_Type (fst ?r) = ss_Type x \<and> ss_Name (fst ?r) = ss_Name x \<and> ss_Namespace (fst ?r) = ss_Namespace x"
      using verify_service_identity [OF r] r by simp
  qed
  ultimately show ?thesis by simp
qed

lemma verify_all_services: "verify_all setc now verdict hashes s = (p, e, s') \<Longrightarrow> ass_services s' = ass_services s"
  by (auto simp: verify_all_def Let_def split: if_splits)

lemma typed_states_verifyServiceStates:
  assumes "typed_states services (ass_states s)"
    and "verifyServiceStates env cl rd now rgn s caches = (p, e, s', caches')"
  shows "typed_states services (ass_states s') \<and> ass_services s' = ass_services s"
proof -
  let ?load = "\<lambda>errs. s\<lparr>ass_Status := (ass_Status s)\<lparr>ast_Conditions :=
    applyRuleLoadErrorCondition (ve_setc env) (ve_render env) (ass_Generation s) errs (ast_Conditions (ass_Status s))\<rparr>\<rparr>"
  consider "s' = s" | errs where "s' = ?load errs"
    | errs verdict hashes p1 e1 where "verify_all (ve_setc env) now verdict hashes (?load errs) = (p1, e1, s')"
    using assms(2)
    by (auto simp: verifyServiceStates_def Let_def split: if_splits prod.splits sum.splits)
  then show ?thesis
  proof cases
    case 3
    with typed_states_verified [OF _ 3] verify_all_services [OF 3] assms(1) show ?thesis by simp
  qed (use assms(1) in simp_all)
qed

lemma fill_nothing:
  assumes "list_all (has_state (ass_states s)) (ass_services s)"
  shows "ass_states (fillNotDeployedServices now s) = ass_states s"
proof -
  have "filter (\<lambda>svc. ObjectKey (swv_Namespace svc) (swv_Name svc)
      \<notin> set (map (\<lambda>s. ObjectKey (ss_Namespace s) (ss_Name s)) (ass_states s))) (ass_services s) = []"
    using assms by (force simp: filter_empty_conv list_all_iff)
  then show ?thesis by (simp add: fillNotDeployedServices_def Let_def)
qed

lemma profileSpec_services:
  "profileSpec rd crd un now s = (r, s') \<Longrightarrow> ass_services s' = ass_services s \<and> ass_Namespace s' = ass_Namespace s"
  by (auto simp: profileSpec_def Let_def set_states_def split: sum.splits prod.splits)

lemma ensureProfile_ok:
  assumes "ensureProfile setc api cl now rgn s w = (None, ev, s1, w1)"
  obtains spec s' where "profileSpec (ap_profileReads api) (ap_clusterReads api rgn) (ap_unmarshalConfig api) now s = (Inr spec, s')"
    and "ass_states s1 = ass_states s'" and "ass_services s1 = ass_services s"
proof -
  let ?p = "profileSpec (ap_profileReads api) (ap_clusterReads api rgn) (ap_unmarshalConfig api) now s"
  obtain r s' where p: "?p = (r, s')" by (cases ?p)
  obtain spec where r: "r = Inr spec"
    using assms by (cases r) (auto simp: ensureProfile_def p Let_def split: if_splits)
  have "ass_states s1 = ass_states s' \<and> ass_services s1 = ass_services s'"
    using assms by (auto simp: ensureProfile_def p r Let_def split: sum.splits prod.splits option.splits profile_write.splits)
  with p r profileSpec_services [OF p] show thesis by (auto intro: that)
qed

lemma statuses_collected_ok:
  assumes "collectServiceStatuses setc rd now s = (None, s2)"
  shows "ass_services s2 = ass_services s
    \<and> (ass_states s2 = ass_states s
       \<or> (\<exists>cs. ass_states s2 = servicesStateFromSummary now (Some cs) (Some (ass_services s, ass_states s))))"
  using assms
  by (auto simp: collectServiceStatuses_def collect_from_profile_def Let_def split: sum.splits prod.splits option.splits)


text \<open>C31: When the provider is not ready or suspended, a reconciliation ends without error before any
  template is read, and the deferred function still fills in the services that have no state, without
  a type: the status sent to the API server has an entry its schema forbids. The code expects the
  types to have been resolved by then.\<close>
theorem suspended_provider_untyped_state:
  assumes "ap_getServiceSet api key w = Inr serviceSet" and "getRegionalClient cl serviceSet = Inr rgn"
    and "\<not> ass_Deleting serviceSet" and "ServiceSetFinalizer \<in> set (ass_Finalizers serviceSet)"
    and "ap_getProvider api (smpc_Name (sss_Provider (ass_Spec serviceSet))) w = Inr smp"
    and "labelsMatchSelector (ap_compileSelector api) (ass_Labels serviceSet) (pv_Selector smp) = Inr True"
    and "\<not> pv_Ready smp \<or> pv_Suspend smp"
    and "svc \<in> set (ass_services serviceSet)" and "\<not> has_state (ass_states serviceSet) svc"
  shows "\<exists>sent ev. (\<exists>s\<in>set (ass_states sent). ss_Name s = swv_Name svc \<and> ss_Namespace s = swv_Namespace svc
           \<and> \<not> valid_service_type (ss_Type s))
    \<and> adapter_Reconcile env api cl now key caches w =
        (case ap_updateStatus api sent w of
           (None, w') \<Rightarrow> (Finished, ev, caches, w')
         | (Some e, w') \<Rightarrow> (FailedWith [UpdateStatusFailed e], ev, caches, w'))"
proof -
  let ?s0 = "with_provider smp serviceSet"
  have s0: "ass_states ?s0 = ass_states serviceSet" "ass_services ?s0 = ass_services serviceSet"
    "ass_Namespace ?s0 = ass_Namespace serviceSet" by (simp_all add: with_provider_def)
  let ?sent = "fillNotDeployedServices now ?s0"
  obtain ev where body: "reconcile_body env api cl now rgn smp serviceSet caches w = (Finished, ev, ?s0, caches, w)"
    using assms(7) by (cases "pv_Ready smp") (auto simp: reconcile_body_def Let_def)
  have has: "\<exists>s\<in>set (ass_states ?sent). ss_Name s = swv_Name svc \<and> ss_Namespace s = swv_Namespace svc
      \<and> \<not> valid_service_type (ss_Type s)"
  proof (rule bexI [of _ "not_deployed_state now svc"])
    have "ObjectKey (swv_Namespace svc) (swv_Name svc) \<notin> set (map (\<lambda>s. ObjectKey (ss_Namespace s) (ss_Name s)) (ass_states serviceSet))"
      using assms(9) by auto
    with assms(8) show "not_deployed_state now svc \<in> set (ass_states ?sent)"
      by (simp add: fillNotDeployedServices_def Let_def s0)
  qed (simp add: not_deployed_state_def valid_service_type_def service_types)
  have "ass_states ?sent \<noteq> ass_states serviceSet"
  proof
    assume eq: "ass_states ?sent = ass_states serviceSet"
    from has [unfolded eq] assms(9) show False by blast
  qed
  then have "ass_Status ?sent \<noteq> ass_Status serviceSet" by (rule contrapos_nn) (rule arg_cong)
  then have fin: "finish api now serviceSet (Finished, ?s0, w) =
      (case ap_updateStatus api ?sent w of
         (None, w') \<Rightarrow> (Finished, ?sent, w') | (Some e, w') \<Rightarrow> (FailedWith [UpdateStatusFailed e], ?sent, w'))"
    by (simp add: finish_def is_error_def with_error_def Let_def split: prod.split option.split)
  have "adapter_Reconcile env api cl now key caches w =
      (case ap_updateStatus api ?sent w of
         (None, w') \<Rightarrow> (Finished, ev, caches, w') | (Some e, w') \<Rightarrow> (FailedWith [UpdateStatusFailed e], ev, caches, w'))"
    using assms(3,4) by (simp add: adapter_Reconcile_def assms(1,2,5,6) body fin split: prod.split option.split)
  with has show ?thesis by blast
qed

section \<open>Deletion\<close>

text \<open>C34: A ServiceSet that is being deleted is written, that is loses its finalizer, only once all its
  services are marked as deleting and its Profile is gone; in every other case the function that writes
  it is not called at all. When it is called, the finalizer of the adapter is gone from what is
  written and every other finalizer is kept.\<close>
theorem finalizer_kept_until_profile_gone:
  "(if list_all (\<lambda>s. ss_State s = ServiceStateDeleting) (ass_states serviceSet)
       \<and> ap_getProfile api rgn (profile_kind serviceSet) (ass_key serviceSet) w = Inl NotFound
       \<and> ServiceSetFinalizer \<in> set (ass_Finalizers serviceSet)
    then \<exists>written. ServiceSetFinalizer \<notin> set (ass_Finalizers written)
       \<and> set (ass_Finalizers written) = set (ass_Finalizers serviceSet) - {ServiceSetFinalizer}
       \<and> adapter_reconcileDelete api now rgn serviceSet w =
           (case ap_updateServiceSet api written w of
              (None, w') \<Rightarrow> (Finished, w') | (Some e, w') \<Rightarrow> (FailedWith [UpdateServiceSetFailed e], w'))
    else \<forall>f. adapter_reconcileDelete (api\<lparr>ap_updateServiceSet := f\<rparr>) now rgn serviceSet w
           = adapter_reconcileDelete api now rgn serviceSet w)"
proof (cases "list_all (\<lambda>s. ss_State s = ServiceStateDeleting) (ass_states serviceSet)
    \<and> ap_getProfile api rgn (profile_kind serviceSet) (ass_key serviceSet) w = Inl NotFound
    \<and> ServiceSetFinalizer \<in> set (ass_Finalizers serviceSet)")
  case True
  let ?written = "serviceSet\<lparr>ass_Finalizers := filter (\<lambda>f. f \<noteq> ServiceSetFinalizer) (ass_Finalizers serviceSet)\<rparr>"
  from True have "adapter_reconcileDelete api now rgn serviceSet w =
      (case ap_updateServiceSet api ?written w of
         (None, w') \<Rightarrow> (Finished, w') | (Some e, w') \<Rightarrow> (FailedWith [UpdateServiceSetFailed e], w'))"
    by (auto simp: adapter_reconcileDelete_def list_all_iff)
  then show ?thesis
    unfolding if_P [OF True] by (intro exI [of _ ?written] conjI) auto
next
  case False
  then show ?thesis
    unfolding if_not_P [OF False]
    by (auto simp: adapter_reconcileDelete_def list_all_iff Let_def split: sum.split api_error.split)
qed

section \<open>Clients within a tick\<close>

definition coherent_clients :: "('c, 'o) client_calls \<Rightarrow> (ObjectKey \<rightharpoonup> 'c) \<Rightarrow> bool" where
  "coherent_clients cl m \<longleftrightarrow>
     (\<forall>s c. m (ObjectKey (ass_Namespace s) (sss_Cluster (ass_Spec s))) = Some c \<longrightarrow> sss_Cluster (ass_Spec s) \<noteq> [] \<longrightarrow>
        getRegionalClient cl s = Inr c)"

lemma getRegionalClient_key:
  "ass_Namespace s = ass_Namespace s' \<Longrightarrow> sss_Cluster (ass_Spec s) = sss_Cluster (ass_Spec s') \<Longrightarrow>
     getRegionalClient cl s = getRegionalClient cl s'"
  by (simp add: getRegionalClient_def resolveRegionalClient_def Let_def split: sum.split)

interpretation client_memo: memoised
  "\<lambda>s m. (fst (resolveRegionalClient cl s (Some m)), the (snd (resolveRegionalClient cl s (Some m))))"
  "getRegionalClient cl" "\<lambda>_. True" "coherent_clients cl"
proof
  fix m and x :: AdapterServiceSet
  assume coh: "coherent_clients cl m"
  let ?k = "ObjectKey (ass_Namespace x) (sss_Cluster (ass_Spec x))"
  show "fst (fst (resolveRegionalClient cl x (Some m)), the (snd (resolveRegionalClient cl x (Some m)))) = getRegionalClient cl x"
  proof (cases "sss_Cluster (ass_Spec x) = [] \<or> m ?k = None")
    case True
    then show ?thesis
      by (auto simp: getRegionalClient_def resolveRegionalClient_def Let_def split: sum.split)
  next
    case False
    then obtain c where "m ?k = Some c" by blast
    moreover from this False coh have "getRegionalClient cl x = Inr c" by (auto simp: coherent_clients_def)
    ultimately show ?thesis using False by (auto simp: resolveRegionalClient_def Let_def)
  qed
  show "coherent_clients cl (snd (fst (resolveRegionalClient cl x (Some m)), the (snd (resolveRegionalClient cl x (Some m)))))"
  proof (cases "snd (resolveRegionalClient cl x (Some m)) = Some m")
    case False
    then obtain c where c: "getRegionalClient cl x = Inr c" "snd (resolveRegionalClient cl x (Some m)) = Some (m(?k \<mapsto> c))"
      by (auto simp: getRegionalClient_def resolveRegionalClient_def Let_def split: sum.splits if_splits option.splits)
    with coh getRegionalClient_key [of _ x cl] show ?thesis
      by (auto simp: coherent_clients_def)
  qed (use coh in simp)
qed

end
