(* ===== verification/SveltosEnqueue.thy ===== *)
theory SveltosEnqueue
  imports SveltosReconcile
begin

text \<open>
  Which ServiceSets the poller of the Sveltos adapter enqueues
  (\<^verbatim>\<open>internal/controller/adapters/sveltos/enqueue.go\<close>): a state machine per ServiceSet that remembers
  the version of its ClusterSummary and backs off while nothing changes. Times are seconds since the zero
  time of Go, so the next eligible time of a fresh state is 0; the map of states is the package
  variable \<open>enqueueStates\<close>, passed explicitly.
\<close>

section \<open>Definitions\<close>

definition enqueueBaseBackoff :: int where "enqueueBaseBackoff = 10"
definition enqueueMaxBackoff :: int where "enqueueMaxBackoff = 5 * 60"

record enqueueState =
  es_nextEligibleTime :: int
  es_lastSeenSummaryRV :: string
  es_currentBackoff :: int

definition fresh_enqueueState :: enqueueState where
  "fresh_enqueueState = \<lparr>es_nextEligibleTime = 0, es_lastSeenSummaryRV = [], es_currentBackoff = 0\<rparr>"

definition enqueue_evaluate :: "int \<Rightarrow> string \<Rightarrow> bool \<Rightarrow> enqueueState \<Rightarrow> bool \<times> enqueueState" where
  "enqueue_evaluate now summaryRV deployed s =
     (if es_lastSeenSummaryRV s \<noteq> summaryRV
      then (True, s\<lparr>es_lastSeenSummaryRV := summaryRV, es_currentBackoff := enqueueBaseBackoff,
                    es_nextEligibleTime := now + enqueueBaseBackoff\<rparr>)
      else if deployed then (False, s)
      else if now < es_nextEligibleTime s then (False, s)
      else let doubled = es_currentBackoff s * 2;
               backoff = (if doubled > enqueueMaxBackoff then enqueueMaxBackoff else doubled)
           in (True, s\<lparr>es_currentBackoff := backoff, es_nextEligibleTime := now + backoff\<rparr>))"

type_synonym enqueue_states = "ObjectKey \<rightharpoonup> enqueueState"

definition loadOrCreateEnqueueState :: "ObjectKey \<Rightarrow> enqueue_states \<Rightarrow> enqueueState" where
  "loadOrCreateEnqueueState key states = (case states key of Some s \<Rightarrow> s | None \<Rightarrow> fresh_enqueueState)"

definition pruneEnqueueStates :: "ObjectKey list \<Rightarrow> enqueue_states \<Rightarrow> enqueue_states" where
  "pruneEnqueueStates seen states = (\<lambda>key. if key \<in> set seen then states key else None)"

text \<open>One ServiceSet of a tick; the state is \<open>(out, seen, regional clients, states)\<close>.\<close>

definition poll_one ::
  "('c, 'w) adapter_api \<Rightarrow> ('c, 'o) client_calls \<Rightarrow> int \<Rightarrow> 'w \<Rightarrow> AdapterServiceSet
     \<Rightarrow> AdapterServiceSet list \<times> ObjectKey list \<times> (ObjectKey \<rightharpoonup> 'c) \<times> enqueue_states
     \<Rightarrow> AdapterServiceSet list \<times> ObjectKey list \<times> (ObjectKey \<rightharpoonup> 'c) \<times> enqueue_states" where
  "poll_one api cl now w serviceSet acc =
     (case acc of (out, seen, clients, states) \<Rightarrow>
        let key = ass_key serviceSet in
        if ass_Deleting serviceSet then acc
        else (case resolveRegionalClient cl serviceSet (Some clients) of
                (Inl e, clients') \<Rightarrow> (out, seen @ [key], the clients', states)
              | (Inr rgnClient, clients') \<Rightarrow>
                  let rd = ap_artifacts api rgnClient w;
                      skip = (out, seen @ [key], the clients', states)
                  in (case ar_getProfile rd (profile_kind serviceSet) key of
                        Inl e \<Rightarrow> skip
                      | Inr profile \<Rightarrow>
                          (case getClusterSummaryForServiceSet rd (profile_kind serviceSet) (ass_Name serviceSet) profile of
                             Inl e \<Rightarrow> skip
                           | Inr None \<Rightarrow> skip
                           | Inr (Some summary) \<Rightarrow>
                               (case enqueue_evaluate now (csum_ResourceVersion summary)
                                       (FullyDeployed (seen_by_kcm serviceSet)) (loadOrCreateEnqueueState key states) of
                                  (enqueue, s') \<Rightarrow>
                                    (if enqueue then out @ [serviceSet] else out, seen @ [key], the clients',
                                     states(key \<mapsto> s')))))))"

definition enqueueClusterSummary ::
  "('c, 'w) adapter_api \<Rightarrow> ('c, 'o) client_calls \<Rightarrow> ('w \<Rightarrow> api_error + AdapterServiceSet list) \<Rightarrow> int \<Rightarrow> 'w \<Rightarrow> enqueue_states
     \<Rightarrow> (api_error + AdapterServiceSet list) \<times> enqueue_states" where
  "enqueueClusterSummary api cl listSets now w states =
     (case listSets w of
        Inl e \<Rightarrow> (Inl e, states)
      | Inr items \<Rightarrow>
          (case fold (poll_one api cl now w) items ([], [], Map.empty, states) of
             (out, seen, clients, states') \<Rightarrow> (Inr out, pruneEnqueueStates seen states')))"

section \<open>The back-off\<close>

text \<open>The states a ServiceSet can be in at a time, from its first summary on.\<close>

inductive polled :: "int \<Rightarrow> enqueueState \<Rightarrow> bool" where
  first: "summaryRV \<noteq> [] \<Longrightarrow> polled now (snd (enqueue_evaluate now summaryRV deployed fresh_enqueueState))"
| again: "polled t s \<Longrightarrow> t \<le> now \<Longrightarrow> polled now (snd (enqueue_evaluate now summaryRV deployed s))"

lemma polled_bounds:
  "polled t s \<Longrightarrow> enqueueBaseBackoff \<le> es_currentBackoff s \<and> es_currentBackoff s \<le> enqueueMaxBackoff
     \<and> es_nextEligibleTime s \<le> t + es_currentBackoff s"
  by (induction rule: polled.induct)
    (auto simp: enqueue_evaluate_def fresh_enqueueState_def Let_def enqueueBaseBackoff_def enqueueMaxBackoff_def)


section \<open>A tick\<close>

lemma poll_one_dom:
  assumes "poll_one api cl now w s (out, seen, clients, states) = (out', seen', clients', states')"
  shows "set seen \<subseteq> set seen' \<and> dom states' \<subseteq> dom states \<union> set seen'"
    and "set out' \<subseteq> set out \<union> {s}" and "\<not> ass_Deleting s \<or> set out' = set out"
  using assms
  by (auto simp: poll_one_def Let_def split: if_splits prod.splits sum.splits option.splits)

lemma poll_fold_out:
  "fold (poll_one api cl now w) items (out, seen, clients, states) = (out', seen', clients', states') \<Longrightarrow>
     set out' \<subseteq> set out \<union> {s \<in> set items. \<not> ass_Deleting s}"
proof (induction items arbitrary: out seen clients states)
  case (Cons s items)
  obtain o1 s1 c1 t1 where one: "poll_one api cl now w s (out, seen, clients, states) = (o1, s1, c1, t1)"
    by (metis prod_cases4)
  with Cons.prems have "fold (poll_one api cl now w) items (o1, s1, c1, t1) = (out', seen', clients', states')" by simp
  from Cons.IH [OF this] poll_one_dom(2,3) [OF one] show ?case by auto
qed simp

lemma poll_fold_seen:
  "fold (poll_one api cl now w) items (out, seen, clients, states) = (out', seen', clients', states') \<Longrightarrow>
     set seen' = set seen \<union> ass_key ` {s \<in> set items. \<not> ass_Deleting s}"
proof (induction items arbitrary: out seen clients states)
  case (Cons s items)
  obtain o1 s1 c1 t1 where one: "poll_one api cl now w s (out, seen, clients, states) = (o1, s1, c1, t1)"
    by (metis prod_cases4)
  then have "set s1 = set seen \<union> (if ass_Deleting s then {} else {ass_key s})"
    by (auto simp: poll_one_def Let_def split: if_splits prod.splits sum.splits option.splits)
  moreover from Cons.prems one have "fold (poll_one api cl now w) items (o1, s1, c1, t1) = (out', seen', clients', states')" by simp
  from Cons.IH [OF this] have "set seen' = set s1 \<union> ass_key ` {s \<in> set items. \<not> ass_Deleting s}" .
  ultimately show ?case by auto
qed simp

text \<open>A tick emits only ServiceSets that are listed and not being deleted, and keeps states only for
  those.\<close>

lemma tick_live:
  assumes "enqueueClusterSummary api cl listSets now w states = (Inr out, states')" and "listSets w = Inr items"
  shows "set out \<subseteq> {s \<in> set items. \<not> ass_Deleting s}"
    and "dom states' \<subseteq> ass_key ` {s \<in> set items. \<not> ass_Deleting s}"
proof -
  obtain o1 seen clients st where f: "fold (poll_one api cl now w) items ([], [], Map.empty, states) = (o1, seen, clients, st)"
    by (metis prod_cases4)
  with assms have r: "out = o1" "states' = pruneEnqueueStates seen st" by (auto simp: enqueueClusterSummary_def)
  from poll_fold_out [OF f] r show "set out \<subseteq> {s \<in> set items. \<not> ass_Deleting s}" by simp
  from poll_fold_seen [OF f] r show "dom states' \<subseteq> ass_key ` {s \<in> set items. \<not> ass_Deleting s}"
    by (auto simp: pruneEnqueueStates_def split: if_splits)
qed

end
