(* ===== verification/SveltosExamples.thy ===== *)
theory SveltosExamples
  imports SveltosEnqueue
begin

text \<open>
  Concrete inputs for the theorems about the Sveltos adapter: a ServiceSet with one Helm service, a summary
  in which its release is deployed, a rule and objects of a workload cluster, and an API server. Each
  witness applies a theorem at these inputs, where its hypotheses hold.
\<close>

section \<open>A service and its summary\<close>

definition ex_service :: ServiceWithValues where
  "ex_service = \<lparr>swv_HelmOptions = None, swv_Version = ''2'', swv_HelmAction = [], swv_Name = ''web'',
     swv_Namespace = ''apps'', swv_Template = ''web-2'', swv_Values = [], swv_ValuesFrom = []\<rparr>"

definition ex_state :: TimedServiceState where
  "ex_state = \<lparr>ss_Type = ''Helm'', ss_Version = ''1'', ss_Name = ''web'', ss_Namespace = ''apps'', ss_Template = ''web-1'',
     ss_State = ServiceStateProvisioning, ss_FailureMessage = [], ss_LastDeployedHash = ''h1'', ss_Conditions = [],
     ss_LastStateTransitionTime = Some 1\<rparr>"

definition ex_summary :: ClusterSummary where
  "ex_summary = \<lparr>csum_ResourceVersion = ''7'', csum_KustomizationRefs = 0, csum_PolicyRefs = 0,
     csum_FeatureSummaries = [\<lparr>fs_FeatureID = FeatureHelm, fs_Status = FeatureStatusFailed, fs_FailureMessage =
        Some ''chart=db, releaseNamespace=apps, releaseName=db: timed out''\<rparr>],
     csum_HelmReleaseSummaries = [\<lparr>hcs_ReleaseName = ''web'', hcs_ReleaseNamespace = ''apps'',
        hcs_Status = HelmChartStatusManaging, hcs_ConflictMessage = [], hcs_FailureMessage = None,
        hcs_ValuesHash = ''v'', hcs_PatchesHash = []\<rparr>]\<rparr>"

section \<open>Rules and a workload cluster\<close>

text \<open>Programs are their sources; the object \<open>True\<close> is ready.\<close>

definition ex_cel :: "(string, string, bool) cel_env" where
  "ex_cel = \<lparr>celCompile = Inr, celProgram = Inr,
     celEval = (\<lambda>p ready. if p = ''ready'' then Inr (CelBool ready) else Inr (CelString p))\<rparr>"

definition ex_doc :: ruleDoc where
  "ex_doc = \<lparr>rd_Group = ''apps'', rd_Version = ''v1'', rd_Kind = ''Deployment'', rd_Scope = scopeNamespaced,
     rd_Healthy = ''ready'', rd_Message = ''not ready''\<rparr>"

definition ex_loader :: "(string, string, bool) rule_loader" where
  "ex_loader = \<lparr>rl_cel = ex_cel, rl_unmarshal = (\<lambda>_. Inr [ex_doc]), rl_blank = (\<lambda>s. s = [])\<rparr>"

definition ex_cm :: ConfigMap where
  "ex_cm = \<lparr>cm_Namespace = ''kcm-system'', cm_Name = ''defaults'', cm_ResourceVersion = ''3'', cm_Data = [(''rules'', ''-'')]\<rparr>"

definition ex_list :: list_config_maps where
  "ex_list ns target = Inr (if ns = ''kcm-system'' then [ex_cm] else [])"

definition ex_rules :: "string ruleSet" where
  "ex_rules = group_rules (fst (load_rules ex_loader ex_cm))"

definition ex_workload :: "bool workload_client" where
  "ex_workload = \<lparr>chc_mappings = (\<lambda>_. Inr [\<lparr>rm_Version = ''v1'', rm_Scope = Some ''namespace''\<rparr>]),
     chc_list = (\<lambda>_ label name _. Inr (if label = ''app''
        then [\<lparr>co_Name = name, co_Namespace = ''apps'', co_Deleting = False, co_Object = False\<rparr>] else []))\<rparr>"

section \<open>A ServiceSet and an API server\<close>

definition ex_set :: AdapterServiceSet where
  "ex_set = \<lparr>ass_Name = ''set'', ass_Namespace = ''ns'', ass_UID = ''u'', ass_Generation = 1, ass_Deleting = False,
     ass_Labels = [], ass_Annotations = [], ass_Finalizers = [ServiceSetFinalizer], ass_OwnerReferences = [],
     ass_Spec = \<lparr>sss_Cluster = [], sss_MultiClusterService = [],
        sss_Provider = \<lparr>smpc_Config = None, smpc_Name = ''ksm'', smpc_SelfManagement = True\<rparr>, sss_Services = [ex_service]\<rparr>,
     ass_Status = \<lparr>ast_Conditions = [], ast_Cluster = None, ast_Services = [], ast_Deployed = False,
        ast_Provider = \<lparr>prst_Ready = True, prst_Suspended = False\<rparr>\<rparr>\<rparr>"

definition ex_template :: AdapterTemplate where
  "ex_template = \<lparr>st_Version = [], st_Helm = None, st_Valid = True, st_ValidationError = [], st_KubernetesConstraint = [],
     at_Name = ''web-2'', at_Namespace = ''ns'', at_HelmOptions = None, at_ChartSource = None,
     at_Kustomize = Some \<lparr>sps_DeploymentType = [], sps_Path = ''base''\<rparr>, at_Resources = None, at_StatusChartRef = None,
     at_SourceStatus = Some \<lparr>src_Kind = ''GitRepository'', src_Name = ''repo'', src_Namespace = ''ns''\<rparr>\<rparr>"

definition ex_reads :: "AdapterTemplate \<Rightarrow> profile_reads" where
  "ex_reads tmpl = \<lparr>prd_getTemplate = (\<lambda>_. Inr tmpl), prd_getHelmChart = (\<lambda>_. Inl NotFound),
     prd_getHelmRepository = (\<lambda>_. Inl NotFound), prd_getGitRepository = (\<lambda>_. Inl NotFound), prd_isVersion = (\<lambda>_. True)\<rparr>"

definition ex_cluster_reads :: cluster_reads where
  "ex_cluster_reads = \<lparr>crd_getClusterDeployment = (\<lambda>_. Inl NotFound), crd_getCredential = (\<lambda>_. Inl NotFound),
     crd_getCAPICluster = (\<lambda>_. Some NotFound), crd_getSveltosCluster = (\<lambda>_. Some NotFound),
     crd_capiAPIVersion = ''capi'', crd_sveltosAPIVersion = ''sveltos''\<rparr>"

definition ex_artifacts :: artifact_reads where
  "ex_artifacts = \<lparr>ar_getProfile = (\<lambda>_ _. Inr \<lparr>ps_UID = ''p'', ps_MatchingClusterRefs = []\<rparr>),
     ar_getClusterSummary = (\<lambda>_. Inr ex_summary), ar_listClusterConfigurations = (\<lambda>_. Inr []),
     ar_summaryName = (\<lambda>_ _ _ _. ''s''), ar_sveltosAPIVersion = ''sveltos''\<rparr>"

definition ex_provider :: "bool \<Rightarrow> ProviderView" where
  "ex_provider suspended = \<lparr>pv_Selector = None, pv_Ready = True, pv_Suspend = suspended\<rparr>"

definition ex_api :: "bool \<Rightarrow> (unit, unit) adapter_api" where
  "ex_api suspended = \<lparr>ap_getServiceSet = (\<lambda>_ _. Inr ex_set), ap_getProvider = (\<lambda>_ _. Inr (ex_provider suspended)),
     ap_updateServiceSet = (\<lambda>_ w. (None, w)), ap_updateStatus = (\<lambda>_ w. (None, w)),
     ap_getProfile = (\<lambda>_ _ _ _. Inl NotFound), ap_writeProfile = (\<lambda>_ _ _ _ w. (None, w)),
     ap_deleteProfile = (\<lambda>_ _ _ w. (None, w)), ap_artifacts = (\<lambda>_ _. ex_artifacts), ap_profileReads = ex_reads ex_template,
     ap_clusterReads = (\<lambda>_. ex_cluster_reads), ap_unmarshalConfig = (\<lambda>_. Inl ''x''), ap_profilePaused = ''paused'',
     ap_compileSelector = (\<lambda>_. Inl ''x''), ap_renderSpecError = (\<lambda>_. ''failed'')\<rparr>"

definition ex_clients :: "(unit, bool) client_calls" where
  "ex_clients = \<lparr>cl_local = (), cl_getCredentialName = (\<lambda>_. Inl NotFound), cl_getCredentialRegion = (\<lambda>_. Inl NotFound),
     cl_regionalByName = (\<lambda>_. Inl NotFound), cl_getSecret = (\<lambda>_ _. Inl NotFound), cl_clientFactory = (\<lambda>_. Inl ''x''),
     cl_getSveltosCluster = (\<lambda>_ _. Inl NotFound), cl_workload = (\<lambda>_. ex_workload)\<rparr>"

definition ex_setc :: set_condition where
  "ex_setc cs c = filter (\<lambda>d. cond_Type d \<noteq> cond_Type c) cs @ [c]"

definition ex_env :: "(string, string, bool) verify_env" where
  "ex_env = \<lparr>ve_loader = ex_loader, ve_listConfigMaps = (\<lambda>_ _. Inr []), ve_systemNamespace = ''kcm-system'',
     ve_render = (\<lambda>_. ''bad''), ve_sha256 = id, ve_hex = id, ve_setc = ex_setc\<rparr>"

definition ex_caches :: "string verify_caches" where
  "ex_caches = \<lparr>vc_rules = Map.empty, vc_configurations = Map.empty\<rparr>"

definition ex_round :: adapter_round where
  "ex_round = \<lparr>ro_now = 9, ro_summary = ex_summary, ro_verdict = (\<lambda>_ _. Inr (ServiceStateDeployed, [])),
     ro_hashes = [ObjectKey ''apps'' ''web'' \<mapsto> ''h1'']\<rparr>"

section \<open>Witnesses\<close>

theorem states_from_summary_witness:
  "map ss_State (servicesStateFromSummary 5 (Some ex_summary) (Some ([ex_service], [ex_state]))) = [ServiceStateDeployed]
   \<and> mset (map tss_key (servicesStateFromSummary 5 (Some ex_summary) (Some ([ex_service], [ex_state]))))
     = {#ObjectKey ''apps'' ''web''#}"
proof
  show "map ss_State (servicesStateFromSummary 5 (Some ex_summary) (Some ([ex_service], [ex_state]))) = [ServiceStateDeployed]"
    by code_simp
  have "map tss_key [ex_state] = [ObjectKey ''apps'' ''web'']" "swv_key ` set [ex_service] = {ObjectKey ''apps'' ''web''}"
    by (simp_all add: ex_state_def ex_service_def ServiceKey_def effectiveNamespace_def)
  then show "mset (map tss_key (servicesStateFromSummary 5 (Some ex_summary) (Some ([ex_service], [ex_state]))))
     = {#ObjectKey ''apps'' ''web''#}"
    using states_from_summary [of 5 ex_summary "[ex_service]" "[ex_state]"] by simp
qed

theorem rule_cache_transparent_witness:
  "fst (rulesFromConfigMaps ex_loader 0 ex_list ''kcm-system'' ''ns'' [] Map.empty)
     = rules_without_cache ex_loader ex_list ''kcm-system'' ''ns'' []
   \<and> length ex_rules = 1"
proof
  have "lists_versioned (\<lambda>_ _. ex_cm) ex_list"
    by (simp add: lists_versioned_def ex_list_def versioned_def)
  from rule_cache_transparent [OF coherent_empty this]
  show "fst (rulesFromConfigMaps ex_loader 0 ex_list ''kcm-system'' ''ns'' [] Map.empty)
     = rules_without_cache ex_loader ex_list ''kcm-system'' ''ns'' []" by blast
  show "length ex_rules = 1" by code_simp
qed



theorem same_fingerprint_never_fully_deployed_witness:
  "\<not> FullyDeployed (seen_by_kcm (set_deployed True (set_states
      (fold (round_states ex_setc (ass_services (set_states [ex_state] ex_set))) [ex_round, ex_round]
        (ass_states (set_states [ex_state] ex_set))) (set_states [ex_state] ex_set))))"
proof (rule same_fingerprint_never_fully_deployed [where svc = ex_service and h = "''h1''" and v = "''1''"])
  show "confirmed (swv_key ex_service) ''h1'' ''1'' (ass_states (set_states [ex_state] ex_set))" by code_simp
  show "ex_service \<in> set (ass_services (set_states [ex_state] ex_set))" by (simp add: ex_set_def)
  show "swv_Version ex_service \<noteq> []" "swv_Version ex_service \<noteq> ''1''" by (simp_all add: ex_service_def)
  show "ro_hashes r (swv_key ex_service) = Some ''h1''" if "r \<in> set [ex_round, ex_round]" for r
    using that by (simp add: ex_round_def ex_service_def ServiceKey_def effectiveNamespace_def)
  show "swv_Namespace svc \<noteq> []" if "svc \<in> set (ass_services (set_states [ex_state] ex_set))" for svc
    using that by (simp add: ex_set_def ex_service_def)
qed


theorem suspended_provider_untyped_state_witness:
  "\<exists>sent ev. (\<exists>s\<in>set (ass_states sent). ss_Name s = ''web'' \<and> ss_Namespace s = ''apps'' \<and> \<not> valid_service_type (ss_Type s))
    \<and> adapter_Reconcile ex_env (ex_api True) ex_clients 9 (ObjectKey ''ns'' ''set'') ex_caches () =
        (case ap_updateStatus (ex_api True) sent () of
           (None, w') \<Rightarrow> (Finished, ev, ex_caches, w')
         | (Some e, w') \<Rightarrow> (FailedWith [UpdateStatusFailed e], ev, ex_caches, w'))"
proof -
  have "\<exists>sent ev. (\<exists>s\<in>set (ass_states sent). ss_Name s = swv_Name ex_service \<and> ss_Namespace s = swv_Namespace ex_service
        \<and> \<not> valid_service_type (ss_Type s))
    \<and> adapter_Reconcile ex_env (ex_api True) ex_clients 9 (ObjectKey ''ns'' ''set'') ex_caches () =
        (case ap_updateStatus (ex_api True) sent () of
           (None, w') \<Rightarrow> (Finished, ev, ex_caches, w')
         | (Some e, w') \<Rightarrow> (FailedWith [UpdateStatusFailed e], ev, ex_caches, w'))"
    by (rule suspended_provider_untyped_state [where serviceSet = ex_set and rgn = "()" and smp = "ex_provider True"])
      (simp_all add: ex_api_def ex_set_def ex_provider_def ex_clients_def getRegionalClient_def resolveRegionalClient_def
        labelsMatchSelector_def)
  then show ?thesis by (simp add: ex_service_def)
qed



theorem priority_tier_involution_witness:
  "priorityToTier 100 = Some 2147483547 \<and> priorityToTier 2147483547 = Some 100"
proof -
  have "priorityToTier 100 = Some 2147483547" by code_simp
  with priority_tier_involution [of 100] show ?thesis by blast
qed


end
