(* ===== verification/Spec2Isabelle.thy ===== *)
theory Spec2Isabelle
  imports MCSController AccessWebhook ProviderContracts ClusterReconcile SveltosExamples
begin

text \<open>
  A verification of the core of k0rdent Cluster Manager (KCM).

  \<^bold>\<open>The program.\<close> KCM is a set of Kubernetes controllers. Users describe clusters
  (ClusterDeployment), services to install on sets of clusters (MultiClusterService), the routes
  along which templates may be upgraded (ServiceTemplateChain, ClusterTemplateChain), and which
  objects of the system namespace other namespaces may use (AccessManagement). The controllers
  compare these objects with the cluster and write others: one ServiceSet per target cluster, which
  a state management provider deploys, and copies of the distributed objects. Every write goes
  through the API server, every run may be repeated, and admission webhooks refuse objects that
  could not be reconciled.

  \<^bold>\<open>Model.\<close> Structs are records, Go's \<open>(T, error)\<close> is a sum type with the error on the left,
  joined errors are lists, maps whose order matters are association lists, and a range over a Go map
  takes the order as a parameter, so that a theorem holds in every order. The state of the API
  server is explicit: a reconciliation takes a world and returns one, and the operations of the
  client are fields of a record. Semantic versions, label selectors, hashes, the scheme, the REST
  mapper and JSON access to unstructured objects are library code: each is a field of a record of
  parameters, and what the proofs use of it is a named law (a hypothesis of the theorem), which the
  witnesses discharge for a concrete function.

  \<^bold>\<open>Theories, from the bottom.\<close>
  \<^item> \<open>Prelude\<close>: results and their bind, folds that stop at an error, association lists, indexing a
    list by a key, collections of simplification rules.
  \<^item> \<open>KcmTypes\<close>: the API structs of the service pipeline
    (\<^verbatim>\<open>api/v1beta1/multiclusterservice_types.go\<close>, \<^verbatim>\<open>serviceset_types.go\<close>,
    \<^verbatim>\<open>templatechain_common.go\<close>), label selectors, object keys and their order.
  \<^item> \<open>ServiceKeys\<close>, \<open>ServiceVersions\<close>: keys, deployed and desired versions, filling in versions from
    the templates, upgrade paths per service, fetching the ServiceSet of a target
    (\<^verbatim>\<open>internal/serviceset/util.go\<close>). The locale \<open>keyed\<close> is the contract every kind of service entry
    meets.
  \<^item> \<open>DependencyGraph\<close>: \<open>dfs\<close>, \<open>hasCycle\<close> and the dependency validation of services and of
    MultiClusterServices (\<^verbatim>\<open>internal/util/validation/services.go\<close>, \<^verbatim>\<open>multiclusterservice.go\<close>). The
    search is sound and complete for cycles; acceptance is characterised exactly.
  \<^item> \<open>TemplateChain\<close>: validity of a chain and \<open>UpgradePaths\<close>; the search terminates on cyclic chains
    and reports one longest simple route to every reachable template.
  \<^item> \<open>FilterDependencies\<close>, \<open>ServiceOrder\<close>, \<open>ServicesToDeploy\<close>: which services may be touched (all
    their dependencies, however indirect, are at their desired version), the dependency order of the
    list (locale \<open>dependency_order\<close>), and the next version of each service along its chain (locale
    \<open>upgrade_routes\<close>).
  \<^item> \<open>ServiceSetPipeline\<close>: the composition of these in \<open>ResolveServicesToApply\<close> and
    \<open>GetServiceSetWithOperation\<close>, the builder and the processor that writes the ServiceSet.
  \<^item> \<open>MCSGate\<close>, \<open>TemplateValidation\<close>, \<open>StatusConditions\<close>, \<open>MCSController\<close>: the MultiClusterService
    reconciler, from its dependency gate to status, cleanup and deletion.
  \<^item> \<open>AccessPlan\<close>, \<open>AccessController\<close>: access management: migration of deprecated rules, the plan of
    copies per kind, and the reconciliation that creates, adopts, releases and deletes copies.
    \<open>AccessEvents\<close> has its watches and indexes, \<open>AccessWebhook\<close> its admission, which plans with the
    same functions.
  \<^item> \<open>TemplateWebhook\<close>, \<open>ClusterAdmission\<close>, \<open>ProviderContracts\<close>: the admission webhooks of templates,
    chains and releases, of ClusterDeployments, and of the Management and Regions, with the
    validation of providers, contracts, credentials and Kubernetes versions behind them
    (\<^verbatim>\<open>internal/webhook\<close>, \<^verbatim>\<open>internal/util/validation\<close>).
  \<^item> \<open>RBACSync\<close>, \<open>KubeDelete\<close>, \<open>HelmRelease\<close>: operations on a cluster: synchronisation and pruning of
    RBAC objects (\<^verbatim>\<open>internal/controller/rbac\<close>), deletion of objects with a wait
    (\<^verbatim>\<open>internal/util/kube/delete.go\<close>; the locale \<open>run_order\<close> states what holds along every run), and the write
    of a HelmRelease (\<^verbatim>\<open>internal/helm/release.go\<close>).
  \<^item> \<open>ClusterStatus\<close>, \<open>ClusterValues\<close>, \<open>ClusterServices\<close>, \<open>ClusterResources\<close>, \<open>ClusterScope\<close>, \<open>ClusterRBAC\<close>,
    \<open>ClusterDelete\<close>, \<open>ClusterReconcile\<close>: the ClusterDeployment controller
    (\<^verbatim>\<open>internal/controller/clusterdeployment_controller.go\<close>): conditions and status; Helm values and IP
    address management; the ServiceSet of a cluster; Secrets, configuration and data sources; the
    objects a cluster refers to; grants and their record; deletion; and the run composed of them.
  \<^item> \<open>SveltosState\<close>, \<open>SveltosRules\<close>, \<open>SveltosVerify\<close>, \<open>SveltosProfile\<close>, \<open>SveltosReconcile\<close>,
    \<open>SveltosEnqueue\<close>: the adapter that has Sveltos deploy a ServiceSet
    (\<^verbatim>\<open>internal/controller/adapters/sveltos\<close>): states of services from a ClusterSummary
    (\<^verbatim>\<open>state.go\<close>); health rules and their cache, and the verdicts, conditions and fingerprints they
    give (\<^verbatim>\<open>verify.go\<close>; the locale \<open>memoised\<close> is the contract of a cache, met by the cache of rules and
    that of clients); the Profile of a ServiceSet and its reconciliation, from the provider to the
    deferred update of the status (\<^verbatim>\<open>serviceset_controller.go\<close>); the poller (\<^verbatim>\<open>enqueue.go\<close>), whose
    ticks are a step relation. \<open>SveltosExamples\<close> runs them on concrete inputs.

  \<^bold>\<open>What the theorems show.\<close> For services: a service is written only when everything it depends on is
  at its desired version, moves along its chain one hop at a time, is left alone while in flight, and
  every written ServiceSet lists services after their dependencies; validation accepts exactly the
  acyclic specifications whose references resolve; a ServiceSet is written only for a matching
  target that every dependency is ready for, and only after validation; cleanup deletes exactly the
  stale ServiceSets, and the finalizer goes only when nothing is left. For access management: the
  plan is exactly what the rules want, a run without errors realises it, no run touches an object
  that is not a managed copy, and a kind that could not be cleaned up stays tracked; its webhook
  foresees the removals. For clusters: admission accepts exactly what can be deployed; nothing is
  applied that was not validated, and a dry run applies nothing; services that do not suit the
  Kubernetes version are held back; values of the user are kept; grants in a child cluster are always
  on record and revoked whatever else fails; the finalizer goes only when everything is gone. For the
  adapter: a service counts as deployed exactly when Sveltos or a confirmed fingerprint says so and
  every object found passes every rule of its kind; the cache never changes which rules apply; a
  reconciliation leaves every service with a typed state; a written Profile is not written again; the
  finalizer goes after the Profile; the back-off of the poller is bounded. Some
  theorems show where the code does not do what it means to: a chart without an artifact makes a run
  panic, a pause of a region empties the available upgrades, a release keeps the kubeconfig of a region
  the cluster has left, an invalid reference stalls a deletion, a live user of a template is overlooked,
  a service whose new version has the same chart and values never counts as deployed, a suspended
  provider makes the adapter send states without a type, a source without status makes it panic.

  \<^bold>\<open>Bounds and fuel.\<close> No definition uses fuel: recursions are structural or have a termination
  proof by a measure (unvisited nodes, unused templates, unplaced services, undropped candidates). The
  walk over owners has the bound of ten of the source, and a wait the number of polls its timeout allows.
  Retries on conflict (\<open>retry.RetryOnConflict\<close>) are a parameter with the law that a retry runs its
  function finitely often and returns the last result. Go's integers here count list elements and
  are natural numbers; priorities and tiers of a Profile are 32-bit words, as in the source.

  \<^bold>\<open>Not modelled.\<close> The controllers of Management, Region, Release, templates, template chains,
  Credential, backup, IPAM and state management providers: they mostly copy fields between objects of
  other operators and wait for them. The renewal of the token of the management SveltosCluster
  (\<^verbatim>\<open>cluster_controller.go\<close> of the adapter): timers and tokens. Telemetry, metrics, the poller, the
  download of charts and other Helm glue, generated deep copies, the registration of watches and the
  commands: input and output, or calls of libraries. Events and log messages are left out everywhere.
\<close>

end
